(* ===== verification/Prelude.thy ===== *)
theory Prelude
  imports Main "HOL-Library.List_Lexorder" "HOL-Library.Char_ord" "HOL-Library.Product_Lexorder"
    "HOL-Library.Option_ord"
begin

text \<open>
  Shared vocabulary of the development: results that are either an error or a value,
  sequences of guards, the fragment of SQL the stores use (select, update with a row count,
  insert that ignores conflicts), and the two locales for fenced leases that every store
  of the program is an instance of.
\<close>

named_theorems store_defs \<open>definitions of the store operations, unfolded together\<close>
named_theorems guard_simps \<open>characterisations of the guard sequences\<close>

section \<open>Results\<close>

text \<open>A call either raises (\<open>Inl\<close>) or returns (\<open>Inr\<close>).\<close>

type_synonym ('e, 'a) result = "'e + 'a"

definition bind_res :: "('e, 'a) result \<Rightarrow> ('a \<Rightarrow> ('e, 'b) result) \<Rightarrow> ('e, 'b) result" where
  "bind_res r f = (case r of Inl e \<Rightarrow> Inl e | Inr x \<Rightarrow> f x)"

lemma bind_res_simps [simp]:
  "bind_res (Inl e) f = Inl e"
  "bind_res (Inr x) f = f x"
  by (simp_all add: bind_res_def)

lemma bind_res_Inr_iff: "bind_res r f = Inr y \<longleftrightarrow> (\<exists>x. r = Inr x \<and> f x = Inr y)"
  by (cases r) auto

lemma bind_res_InrE:
  assumes "bind_res r f = Inr y"
  obtains x where "r = Inr x" "f x = Inr y"
  using assms by (auto simp: bind_res_Inr_iff)

text \<open>
  \<open>ensure c e r\<close> is the statement sequence \<open>if not c: raise e\<close> followed by \<open>r\<close>.
\<close>

definition ensure :: "bool \<Rightarrow> 'e \<Rightarrow> ('e, 'a) result \<Rightarrow> ('e, 'a) result" where
  "ensure c e r = (if c then r else Inl e)"

lemma ensure_simps [simp]:
  "ensure True e r = r"
  "ensure False e r = Inl e"
  by (simp_all add: ensure_def)

lemma ensure_Inr_iff [simp, guard_simps]: "ensure c e r = Inr y \<longleftrightarrow> c \<and> r = Inr y"
  by (simp add: ensure_def)

text \<open>A list of checks in source order; the first that fails raises its error.\<close>

fun first_failure :: "(bool \<times> 'e) list \<Rightarrow> 'e option" where
  "first_failure [] = None"
| "first_failure ((c, e) # cs) = (if c then first_failure cs else Some e)"

definition checked :: "(bool \<times> 'e) list \<Rightarrow> ('e, 'a) result \<Rightarrow> ('e, 'a) result" where
  "checked cs r = (case first_failure cs of Some e \<Rightarrow> Inl e | None \<Rightarrow> r)"

lemma first_failure_None [guard_simps]: "first_failure cs = None \<longleftrightarrow> list_all fst cs"
  by (induction cs rule: first_failure.induct) auto

lemma first_failure_append:
  "first_failure (xs @ ys) = (case first_failure xs of Some e \<Rightarrow> Some e | None \<Rightarrow> first_failure ys)"
  by (induction xs rule: first_failure.induct) auto

lemma checked_Inr_iff [simp, guard_simps]:
  "checked cs r = Inr y \<longleftrightarrow> list_all fst cs \<and> r = Inr y"
  by (auto simp: checked_def first_failure_None split: option.splits)
    (metis first_failure_None option.distinct(1))

lemma checked_all [simp]: "list_all fst cs \<Longrightarrow> checked cs r = r"
  by (simp add: checked_def first_failure_None [THEN iffD2])

lemma checked_refused: "\<not> list_all fst cs \<Longrightarrow> \<exists>e. checked cs r = Inl e"
  using first_failure_None [of cs] by (auto simp: checked_def)

definition opt_ok :: "('a \<Rightarrow> bool) \<Rightarrow> 'a option \<Rightarrow> bool" where
  \<comment> \<open>the source's \<open>if value is not None: check(value)\<close>\<close>
  "opt_ok p v = (case v of None \<Rightarrow> True | Some x \<Rightarrow> p x)"

lemma opt_ok_simps [simp]: "opt_ok p None" "opt_ok p (Some x) = p x"
  by (simp_all add: opt_ok_def)

definition coalesce :: "'a option \<Rightarrow> 'a option \<Rightarrow> 'a option" where
  \<comment> \<open>SQL \<open>COALESCE(new, old)\<close>\<close>
  "coalesce new old = (case new of Some x \<Rightarrow> Some x | None \<Rightarrow> old)"

lemma coalesce_simps [simp]: "coalesce None old = old" "coalesce (Some x) old = Some x"
  by (simp_all add: coalesce_def)

lemma coalesce_eq_Some: "coalesce a b = Some x \<longleftrightarrow> a = Some x \<or> (a = None \<and> b = Some x)"
  by (cases a) auto

section \<open>Tables\<close>

text \<open>
  A table is the list of its rows in insertion order. \<open>UPDATE t SET f WHERE p\<close> changes every
  row that satisfies \<open>p\<close>; the statement's row count is the number of those rows.
\<close>

definition sql_update :: "('r \<Rightarrow> bool) \<Rightarrow> ('r \<Rightarrow> 'r) \<Rightarrow> 'r list \<Rightarrow> 'r list" where
  "sql_update p f rows = map (\<lambda>r. if p r then f r else r) rows"

definition rowcount :: "('r \<Rightarrow> bool) \<Rightarrow> 'r list \<Rightarrow> nat" where
  "rowcount p rows = length (filter p rows)"

text \<open>\<open>SELECT \<dots> WHERE p\<close> followed by \<open>fetchone()\<close>.\<close>

fun fetchone :: "('r \<Rightarrow> bool) \<Rightarrow> 'r list \<Rightarrow> 'r option" where
  "fetchone p [] = None"
| "fetchone p (r # rs) = (if p r then Some r else fetchone p rs)"

text \<open>\<open>INSERT \<dots> ON CONFLICT DO NOTHING\<close>: \<open>clash\<close> holds between rows that violate a
  uniqueness constraint together.\<close>

definition insert_ignore :: "('r \<Rightarrow> 'r \<Rightarrow> bool) \<Rightarrow> 'r \<Rightarrow> 'r list \<Rightarrow> 'r list" where
  "insert_ignore clash r rows = (if \<exists>x \<in> set rows. clash x r then rows else rows @ [r])"

lemma fetchone_Some: "fetchone p rows = Some r \<Longrightarrow> r \<in> set rows \<and> p r"
  by (induction rows) (auto split: if_splits)

lemma fetchone_None: "fetchone p rows = None \<longleftrightarrow> (\<forall>r \<in> set rows. \<not> p r)"
  by (induction rows) auto

lemma fetchone_append:
  "fetchone p (xs @ ys) = (case fetchone p xs of Some r \<Rightarrow> Some r | None \<Rightarrow> fetchone p ys)"
  by (induction xs) auto

lemma fetchone_cong: "(\<And>r. r \<in> set rows \<Longrightarrow> p r = q r) \<Longrightarrow> fetchone p rows = fetchone q rows"
  by (induction rows) auto

lemma fetchone_map_key:
  assumes "\<And>r. r \<in> set rows \<Longrightarrow> p (f r) = p r"
  shows "fetchone p (map f rows) = map_option f (fetchone p rows)"
  using assms by (induction rows) auto

lemma set_sql_update: "set (sql_update p f rows) = (\<lambda>r. if p r then f r else r) ` set rows"
  by (simp add: sql_update_def)

lemma sql_update_Nil [simp]: "sql_update p f [] = []"
  by (simp add: sql_update_def)

lemma sql_update_Cons [simp]:
  "sql_update p f (r # rs) = (if p r then f r else r) # sql_update p f rs"
  by (simp add: sql_update_def)

lemma length_sql_update [simp]: "length (sql_update p f rows) = length rows"
  by (simp add: sql_update_def)

lemma map_key_sql_update:
  "(\<And>r. r \<in> set rows \<Longrightarrow> p r \<Longrightarrow> key (f r) = key r) \<Longrightarrow> map key (sql_update p f rows) = map key rows"
  by (induction rows) auto

lemma sql_update_none: "(\<And>r. r \<in> set rows \<Longrightarrow> \<not> p r) \<Longrightarrow> sql_update p f rows = rows"
  by (induction rows) auto

lemma rowcount_zero: "rowcount p rows = 0 \<longleftrightarrow> (\<forall>r \<in> set rows. \<not> p r)"
  by (simp add: rowcount_def filter_empty_conv)

lemma rowcount_pos: "0 < rowcount p rows \<longleftrightarrow> (\<exists>r \<in> set rows. p r)"
  using rowcount_zero [of p rows] by auto

section \<open>Tables with a primary key\<close>

text \<open>
  Every table of the program has a primary key. The laws of keyed lookup and update are
  proved once, over any key function.
\<close>

definition keyed :: "('r \<Rightarrow> 'k) \<Rightarrow> 'r list \<Rightarrow> bool" where
  "keyed key rows = distinct (map key rows)"

definition row_of :: "('r \<Rightarrow> 'k) \<Rightarrow> 'k \<Rightarrow> 'r list \<Rightarrow> 'r option" where
  "row_of key k rows = fetchone (\<lambda>r. key r = k) rows"

lemma row_of_Some_iff:
  "keyed key rows \<Longrightarrow> row_of key k rows = Some r \<longleftrightarrow> r \<in> set rows \<and> key r = k"
  unfolding row_of_def keyed_def
  by (induction rows) (auto simp: image_iff)

lemma row_of_SomeD: "row_of key k rows = Some r \<Longrightarrow> r \<in> set rows \<and> key r = k"
  unfolding row_of_def by (drule fetchone_Some)

lemma row_of_None_iff: "row_of key k rows = None \<longleftrightarrow> k \<notin> key ` set rows"
  by (auto simp: row_of_def fetchone_None)

lemma row_of_Nil [simp]: "row_of key k [] = None"
  by (simp add: row_of_def)

lemma row_of_Cons [simp]: "row_of key k (r # rs) = (if key r = k then Some r else row_of key k rs)"
  by (simp add: row_of_def)

lemma keyed_eqI: "keyed key rows \<Longrightarrow> r \<in> set rows \<Longrightarrow> r' \<in> set rows \<Longrightarrow> key r = key r' \<Longrightarrow> r = r'"
  by (auto simp: keyed_def distinct_map inj_on_def)

lemma keyed_Nil [simp]: "keyed key []"
  by (simp add: keyed_def)

lemma keyed_sql_update:
  "(\<And>r. r \<in> set rows \<Longrightarrow> p r \<Longrightarrow> key (f r) = key r) \<Longrightarrow> keyed key (sql_update p f rows) = keyed key rows"
  by (simp add: keyed_def map_key_sql_update)

lemma keyed_append: "keyed key rows \<Longrightarrow> key r \<notin> key ` set rows \<Longrightarrow> keyed key (rows @ [r])"
  by (simp add: keyed_def)

lemma row_of_append:
  "row_of key k (rows @ [r]) =
     (case row_of key k rows of Some x \<Rightarrow> Some x | None \<Rightarrow> if key r = k then Some r else None)"
  by (simp add: row_of_def fetchone_append split: option.splits)

lemma row_of_sql_update:
  assumes "\<And>r. r \<in> set rows \<Longrightarrow> p r \<Longrightarrow> key (f r) = key r"
  shows "row_of key k (sql_update p f rows) =
    map_option (\<lambda>r. if p r then f r else r) (row_of key k rows)"
  unfolding row_of_def sql_update_def
  by (rule fetchone_map_key) (use assms in auto)

text \<open>
  An \<open>UPDATE\<close> whose condition pins the primary key: the condition is tested on, and the change
  made to, the one row with that key.
\<close>

lemma fetchone_pinned:
  assumes "keyed key rows" and "\<And>r. p r \<Longrightarrow> key r = k"
  shows "fetchone p rows = (case row_of key k rows of Some r \<Rightarrow> if p r then Some r else None | None \<Rightarrow> None)"
  using assms unfolding keyed_def row_of_def
  by (induction rows) (auto split: option.splits dest: fetchone_Some, metis fetchone_Some image_iff)

lemma rowcount_pinned:
  assumes "keyed key rows" and "\<And>r. p r \<Longrightarrow> key r = k"
  shows "rowcount p rows = (case row_of key k rows of Some r \<Rightarrow> if p r then 1 else 0 | None \<Rightarrow> 0)"
proof (cases "row_of key k rows")
  case None
  then have "\<forall>r \<in> set rows. \<not> p r"
    using assms(2) by (auto simp: row_of_None_iff)
  then have "rowcount p rows = 0" by (simp only: rowcount_zero)
  with None show ?thesis by simp
next
  case (Some r)
  have "filter p rows = (if p r then [r] else [])"
    using assms Some unfolding keyed_def row_of_def
  proof (induction rows)
    case Nil
    then show ?case by simp
  next
    case (Cons x xs)
    show ?case
    proof (cases "key x = k")
      case True
      with Cons.prems have "\<forall>y \<in> set xs. \<not> p y" by (fastforce simp: image_iff)
      with True Cons.prems show ?thesis by (simp add: filter_empty_conv)
    next
      case False
      with Cons.prems(2) have "\<not> p x" by blast
      with False Cons show ?thesis by simp
    qed
  qed
  with Some show ?thesis by (simp add: rowcount_def)
qed

text \<open>Such an update replaces that row.\<close>

definition put_row :: "('r \<Rightarrow> 'k) \<Rightarrow> 'r \<Rightarrow> 'r list \<Rightarrow> 'r list" where
  "put_row key r rows = map (\<lambda>x. if key x = key r then r else x) rows"

lemma sql_update_put:
  assumes "keyed key rows" and "\<And>x. p x \<Longrightarrow> key x = k"
    and "r \<in> set rows" and "p r" and "key (f r) = k"
  shows "sql_update p f rows = put_row key (f r) rows"
proof -
  have k: "key r = k" using assms(2,4) by simp
  have "(if p x then f x else x) = (if key x = key (f r) then f r else x)" if "x \<in> set rows" for x
  proof (cases "key x = k")
    case True
    with assms(1,3) that k have "x = r" by (metis keyed_eqI)
    with assms(4,5) k show ?thesis by simp
  next
    case False
    with assms(2,5) show ?thesis by auto
  qed
  then show ?thesis by (simp add: sql_update_def put_row_def)
qed

lemma sql_update_fetched:
  assumes "keyed key rows" and "\<And>x. p x \<Longrightarrow> key x = k"
    and "fetchone p rows = Some r" and "key (f r) = key r"
  shows "sql_update p f rows = put_row key (f r) rows"
  using sql_update_put [OF assms(1), of p k r f] assms(2,4) fetchone_Some [OF assms(3)] by simp

lemma set_put_row: "x \<in> set (put_row key r rows) \<Longrightarrow> x = r \<or> x \<in> set rows \<and> key x \<noteq> key r"
  by (auto simp: put_row_def split: if_splits)

lemma row_of_put_row:
  "row_of key k (put_row key r rows) =
     (if k = key r then map_option (\<lambda>_. r) (row_of key k rows) else row_of key k rows)"
  by (induction rows) (auto simp: put_row_def)

lemma keyed_put_row [simp]: "keyed key (put_row key r rows) = keyed key rows"
proof -
  have "map key (put_row key r rows) = map key rows"
    by (auto simp: put_row_def)
  then show ?thesis by (simp add: keyed_def)
qed

lemma put_row_keys: "(\<exists>x \<in> set (put_row key r rows). key x = k) \<longleftrightarrow> (\<exists>x \<in> set rows. key x = k)"
  by (induction rows) (auto simp: put_row_def)

lemma fetchone_row_of:
  assumes "keyed key rows" and "fetchone p rows = Some r"
  shows "row_of key (key r) rows = Some r" and "p r" and "r \<in> set rows"
  using assms fetchone_Some [OF assms(2)] by (auto simp: row_of_Some_iff)

section \<open>Tables as collections of row machines\<close>

text \<open>
  A store whose every operation leaves its table as it is, appends one fresh row, or replaces one
  row by a successor of it. What holds of fresh rows and is kept by row steps then holds of every
  row of every table the store can reach, and each row's history is a run of the row machine.
\<close>

definition table_ok :: "('r \<Rightarrow> 'k) \<Rightarrow> ('r \<Rightarrow> bool) \<Rightarrow> 'r list \<Rightarrow> bool" where
  "table_ok key rinv s \<longleftrightarrow> keyed key s \<and> list_all rinv s"

lemma table_ok_Nil [simp]: "table_ok key rinv []"
  by (simp add: table_ok_def)

lemma table_okD: "table_ok key rinv s \<Longrightarrow> keyed key s" "table_ok key rinv s \<Longrightarrow> r \<in> set s \<Longrightarrow> rinv r"
  by (simp_all add: table_ok_def list_all_iff)

definition row_measure :: "('r \<Rightarrow> 'k) \<Rightarrow> 'o \<Rightarrow> ('r \<Rightarrow> 'o) \<Rightarrow> 'k \<Rightarrow> 'r list \<Rightarrow> 'o" where
  \<comment> \<open>a column of the row with key \<open>k\<close>, with a default for a missing row\<close>
  "row_measure key d m k s = (case row_of key k s of None \<Rightarrow> d | Some r \<Rightarrow> m r)"

locale row_machine =
  fixes key :: "'r \<Rightarrow> 'k"
    and fresh :: "'r \<Rightarrow> bool"
    and rinv :: "'r \<Rightarrow> bool"
    and rstep :: "'r \<Rightarrow> 'r \<Rightarrow> bool"
    and tstep :: "'r list \<Rightarrow> 'r list \<Rightarrow> bool"
  assumes rstep_key: "rstep r r' \<Longrightarrow> key r' = key r"
    and fresh_inv: "fresh r \<Longrightarrow> rinv r"
    and rstep_inv: "rinv r \<Longrightarrow> rstep r r' \<Longrightarrow> rinv r'"
    and tstep_cases: "table_ok key rinv s \<Longrightarrow> tstep s t \<Longrightarrow>
      t = s \<or> (\<exists>r. fresh r \<and> key r \<notin> key ` set s \<and> t = s @ [r]) \<or>
      (\<exists>r r'. r \<in> set s \<and> rstep r r' \<and> t = put_row key r' s)"
begin

lemma tstep_keeps:
  assumes "table_ok key rinv s" and "list_all P s" and "tstep s t"
    and "\<And>r. fresh r \<Longrightarrow> P r" and "\<And>r r'. rinv r \<Longrightarrow> P r \<Longrightarrow> rstep r r' \<Longrightarrow> P r'"
  shows "list_all P t"
  using tstep_cases [OF assms(1,3)]
proof (elim disjE exE conjE)
  assume "t = s"
  with assms(2) show ?thesis by simp
next
  fix x
  assume "fresh x" "t = s @ [x]"
  with assms(2,4) show ?thesis by simp
next
  fix x x'
  assume x: "x \<in> set s" "rstep x x'" "t = put_row key x' s"
  moreover have "rinv x" using assms(1) x(1) by (simp add: table_okD)
  ultimately have "P x'" using assms(2,5) by (simp add: list_all_iff)
  with x assms(2) show ?thesis by (auto simp: list_all_iff dest: set_put_row)
qed

lemma tstep_ok:
  assumes "table_ok key rinv s" and "tstep s t"
  shows "table_ok key rinv t"
proof -
  have "keyed key t"
    using tstep_cases [OF assms] table_okD(1) [OF assms(1)] by (auto intro: keyed_append)
  moreover have "list_all rinv t"
    using assms(1) _ assms(2) fresh_inv rstep_inv
    by (rule tstep_keeps) (use assms(1) in \<open>auto simp: table_ok_def\<close>)
  ultimately show ?thesis by (simp add: table_ok_def)
qed

lemma run_ok: "tstep\<^sup>*\<^sup>* s t \<Longrightarrow> table_ok key rinv s \<Longrightarrow> table_ok key rinv t"
  by (induction rule: rtranclp_induct) (auto intro: tstep_ok)

lemma tstep_row:
  assumes ok: "table_ok key rinv s" and "tstep s t" and row: "row_of key k s = Some r"
  shows "\<exists>r'. row_of key k t = Some r' \<and> (r' = r \<or> rstep r r')"
  using tstep_cases [OF assms(1,2)]
proof (elim disjE exE conjE)
  assume "t = s"
  with row show ?thesis by simp
next
  fix x
  assume "t = s @ [x]"
  with row show ?thesis by (simp add: row_of_append)
next
  fix x x'
  assume x: "x \<in> set s" "rstep x x'" "t = put_row key x' s"
  show ?thesis
  proof (cases "k = key x'")
    case True
    with x have "key x = k" by (simp add: rstep_key)
    with ok row x(1) have "x = r" by (metis table_okD(1) row_of_Some_iff keyed_eqI)
    with x True row show ?thesis by (simp add: row_of_put_row)
  next
    case False
    with x row show ?thesis by (simp add: row_of_put_row)
  qed
qed

text \<open>A relation that is reflexive, transitive and holds along row steps holds along every run of the
  store, between a row and what becomes of it.\<close>

lemma run_rel:
  assumes run: "tstep\<^sup>*\<^sup>* s t" and ok: "table_ok key rinv s" and row: "row_of key k s = Some r"
    and refl: "R r r" and rel: "\<And>x y. rinv x \<Longrightarrow> R r x \<Longrightarrow> rstep x y \<Longrightarrow> R r y"
  shows "\<exists>r'. row_of key k t = Some r' \<and> R r r'"
  using run
proof (induction rule: rtranclp_induct)
  case base
  then show ?case using row refl by auto
next
  case (step t u)
  then obtain r' where r': "row_of key k t = Some r'" "R r r'" by blast
  have t: "table_ok key rinv t" using step.hyps(1) ok by (rule run_ok)
  moreover have "rinv r'" using t r'(1) by (auto dest: row_of_SomeD table_okD)
  ultimately show ?case
    using tstep_row [OF t step.hyps(2) r'(1)] r'(2) rel by blast
qed

text \<open>A measure of rows that no row step decreases is monotone along every run of the store.\<close>

lemma run_mono:
  fixes m :: "'r \<Rightarrow> 'o::preorder"
  assumes run: "tstep\<^sup>*\<^sup>* s t" and ok: "table_ok key rinv s" and row: "row_of key k s = Some r"
    and mono: "\<And>x y. rinv x \<Longrightarrow> rstep x y \<Longrightarrow> m x \<le> m y"
  shows "\<exists>r'. row_of key k t = Some r' \<and> m r \<le> m r'"
  using run ok row order_refl
  by (rule run_rel [where R = "\<lambda>x y. m x \<le> m y"]) (blast intro: order_trans mono)

lemma tstep_measure:
  fixes m :: "'r \<Rightarrow> 'o::preorder"
  assumes ok: "table_ok key rinv s" and step: "tstep s t"
    and mono: "\<And>x y. rinv x \<Longrightarrow> rstep x y \<Longrightarrow> m x \<le> m y" and fresh: "\<And>r. fresh r \<Longrightarrow> d \<le> m r"
  shows "row_measure key d m k s \<le> row_measure key d m k t"
proof (cases "row_of key k s")
  case (Some r)
  from tstep_row [OF ok step Some] mono table_okD(2) [OF ok] row_of_SomeD [OF Some] Some
  show ?thesis by (auto simp: row_measure_def)
next
  case None
  from tstep_cases [OF ok step] show ?thesis
  proof (elim disjE exE conjE)
    assume "t = s"
    then show ?thesis by simp
  next
    fix r
    assume "fresh r" "t = s @ [r]"
    with None fresh show ?thesis by (simp add: row_measure_def row_of_append)
  next
    fix r r'
    assume "t = put_row key r' s"
    with None show ?thesis by (auto simp: row_measure_def row_of_put_row)
  qed
qed

end

section \<open>Fenced leases\<close>

text \<open>
  The stores hand out leases that carry a fencing token. \<open>token k\<close> reads the token stored for
  resource \<open>k\<close>; no step of the store decreases it. \<open>holds k l\<close> is the condition under which the
  store accepts a write made with lease \<open>l\<close>; \<open>claim k l\<close> is the step that issues \<open>l\<close>.
\<close>

locale fenced =
  fixes inv :: "'s \<Rightarrow> bool"
    and step :: "'s \<Rightarrow> 's \<Rightarrow> bool"
    and token :: "'k \<Rightarrow> 's \<Rightarrow> int"
  assumes step_inv: "inv s \<Longrightarrow> step s t \<Longrightarrow> inv t"
    and step_token: "inv s \<Longrightarrow> step s t \<Longrightarrow> token k s \<le> token k t"
begin

lemma run_inv: "step\<^sup>*\<^sup>* s t \<Longrightarrow> inv s \<Longrightarrow> inv t"
  by (induction rule: rtranclp_induct) (auto intro: step_inv)

lemma run_token: "step\<^sup>*\<^sup>* s t \<Longrightarrow> inv s \<Longrightarrow> token k s \<le> token k t"
proof (induction rule: rtranclp_induct)
  case base
  then show ?case by simp
next
  case (step t u)
  have "inv t" using step.hyps(1) step.prems by (rule run_inv)
  from step_token [OF this step.hyps(2), of k] step.IH [OF step.prems] show ?case
    by (rule order_trans [rotated])
qed

end

locale fenced_lease = fenced inv step token
  for inv :: "'s \<Rightarrow> bool" and step :: "'s \<Rightarrow> 's \<Rightarrow> bool" and token :: "'k \<Rightarrow> 's \<Rightarrow> int" +
  fixes fence :: "'l \<Rightarrow> int"
    and holds :: "'k \<Rightarrow> 'l \<Rightarrow> 's \<Rightarrow> bool"
    and claim :: "'k \<Rightarrow> 'l \<Rightarrow> 's \<Rightarrow> 's \<Rightarrow> bool"
  assumes holds_fence: "inv s \<Longrightarrow> holds k l s \<Longrightarrow> fence l = token k s"
    and claim_step: "inv s \<Longrightarrow> claim k l s t \<Longrightarrow> step s t"
    and claim_fresh: "inv s \<Longrightarrow> claim k l s t \<Longrightarrow> token k s < token k t \<and> fence l = token k t"
begin

lemma holders_share_fence: "inv s \<Longrightarrow> holds k l s \<Longrightarrow> holds k l' s \<Longrightarrow> fence l = fence l'"
  by (simp add: holds_fence)

text \<open>Once a newer lease has been issued, an older one is never accepted again.\<close>

lemma superseded:
  assumes "inv s" and "holds k old s" and "claim k new s t" and "step\<^sup>*\<^sup>* t u"
  shows "\<not> holds k old u"
proof
  assume "holds k old u"
  from assms(1,3) have "step s t" by (rule claim_step)
  with assms(1) have t: "inv t" by (rule step_inv)
  with assms(4) have u: "inv u" by (rule run_inv)
  from assms(1,2) have "fence old = token k s" by (rule holds_fence)
  moreover from assms(1,3) have "token k s < token k t" by (simp add: claim_fresh)
  moreover from assms(4) t have "token k t \<le> token k u" by (rule run_token)
  moreover from u \<open>holds k old u\<close> have "fence old = token k u" by (rule holds_fence)
  ultimately show False by simp
qed

text \<open>Leases of different claims never carry the same token.\<close>

lemma claims_distinct:
  assumes "inv s" and "claim k l s t" and "step\<^sup>*\<^sup>* t u" and "claim k l' u v"
  shows "fence l < fence l'"
proof -
  from assms(1,2) have "step s t" by (rule claim_step)
  with assms(1) have t: "inv t" by (rule step_inv)
  with assms(3) have u: "inv u" by (rule run_inv)
  have "fence l = token k t" using assms(1,2) by (simp add: claim_fresh)
  moreover have "token k t \<le> token k u" using assms(3) t by (rule run_token)
  moreover have "token k u < fence l'" using u assms(4) claim_fresh by fastforce
  ultimately show ?thesis by simp
qed

end

end
