(* ===== verification/Clock.thy ===== *)
theory Clock
  imports Prelude
begin

text \<open>
  Timezone-aware UTC datetimes as Python keeps them, \<open>timedelta(seconds=n)\<close> addition with its
  overflow, and the two textual forms in which the stores persist a time: \<open>isoformat()\<close>, which
  ends in \<open>+00:00\<close> (\<open>utc_now_iso\<close>, the control repository, remediation), and the form of
  \<open>agent/tasks.py\<close> and \<open>runtime_watch/model.py\<close>, which replaces that ending by \<open>Z\<close>. The
  stores compare times inside SQL, that is as texts; the lemmas say when the order of the texts
  is the order of the times.
\<close>

named_theorems clock_simps \<open>evaluation of times and their texts\<close>

section \<open>Datetimes\<close>

datatype datetime =
  DateTime (dt_year: nat) (dt_month: nat) (dt_day: nat)
    (dt_hour: nat) (dt_minute: nat) (dt_second: nat) (dt_micro: nat)

definition is_leap :: "nat \<Rightarrow> bool" where
  "is_leap y \<longleftrightarrow> y mod 4 = 0 \<and> (y mod 100 \<noteq> 0 \<or> y mod 400 = 0)"

definition days_in_month :: "nat \<Rightarrow> nat \<Rightarrow> nat" where
  "days_in_month y m =
     (if m = 2 then (if is_leap y then 29 else 28)
      else if m = 4 \<or> m = 6 \<or> m = 9 \<or> m = 11 then 30 else 31)"

fun valid_datetime :: "datetime \<Rightarrow> bool" where
  "valid_datetime (DateTime y mo d h mi s us) \<longleftrightarrow>
     1 \<le> y \<and> y \<le> 9999 \<and> 1 \<le> mo \<and> mo \<le> 12 \<and> 1 \<le> d \<and> d \<le> days_in_month y mo \<and>
     h < 24 \<and> mi < 60 \<and> s < 60 \<and> us < 1000000"

fun dt_key :: "datetime \<Rightarrow> nat \<times> nat \<times> nat \<times> nat \<times> nat \<times> nat \<times> nat" where
  "dt_key (DateTime y mo d h mi s us) = (y, mo, d, h, mi, s, us)"

lemma dt_key_inject: "dt_key a = dt_key b \<Longrightarrow> a = b"
  by (cases a; cases b) simp

text \<open>Chronological order: the order of the fields, most significant first.\<close>

instantiation datetime :: linorder
begin

definition less_eq_datetime :: "datetime \<Rightarrow> datetime \<Rightarrow> bool" where
  "less_eq_datetime a b \<longleftrightarrow> dt_key a \<le> dt_key b"

definition less_datetime :: "datetime \<Rightarrow> datetime \<Rightarrow> bool" where
  "less_datetime a b \<longleftrightarrow> dt_key a < dt_key b"

instance
  by standard (auto simp: less_eq_datetime_def less_datetime_def dt_key_inject
      simp del: less_eq_prod_simp less_prod_simp)

end

lemma less_DateTime [clock_simps]:
  "DateTime y mo d h mi s us < DateTime y' mo' d' h' mi' s' us' \<longleftrightarrow>
     (y, mo, d, h, mi, s, us) < (y', mo', d', h', mi', s', us')"
  by (simp only: less_datetime_def dt_key.simps)

section \<open>Adding seconds\<close>

fun next_day :: "nat \<times> nat \<times> nat \<Rightarrow> (nat \<times> nat \<times> nat) option" where
  "next_day (y, m, d) =
     (if d < days_in_month y m then Some (y, m, d + 1)
      else if m < 12 then Some (y, m + 1, 1)
      else if y < 9999 then Some (y + 1, 1, 1)
      else None)"

fun add_days :: "nat \<Rightarrow> nat \<times> nat \<times> nat \<Rightarrow> (nat \<times> nat \<times> nat) option" where
  "add_days 0 ymd = Some ymd"
| "add_days (Suc n) ymd = (case next_day ymd of None \<Rightarrow> None | Some ymd' \<Rightarrow> add_days n ymd')"

fun add_seconds :: "nat \<Rightarrow> datetime \<Rightarrow> datetime option" where
  \<comment> \<open>\<open>None\<close> is Python's \<open>OverflowError: date value out of range\<close>\<close>
  "add_seconds n (DateTime y mo d h mi s us) =
     (let total = h * 3600 + mi * 60 + s + n; rest = total mod 86400
      in case add_days (total div 86400) (y, mo, d) of
           None \<Rightarrow> None
         | Some (y', mo', d') \<Rightarrow>
             Some (DateTime y' mo' d' (rest div 3600) (rest mod 3600 div 60) (rest mod 60) us))"

definition valid_date :: "nat \<times> nat \<times> nat \<Rightarrow> bool" where
  "valid_date = (\<lambda>(y, m, d). 1 \<le> y \<and> y \<le> 9999 \<and> 1 \<le> m \<and> m \<le> 12 \<and> 1 \<le> d \<and> d \<le> days_in_month y m)"

lemma days_in_month_pos [simp]: "Suc 0 \<le> days_in_month y m"
  by (simp add: days_in_month_def)

lemma next_day_later: "next_day ymd = Some ymd' \<Longrightarrow> ymd < ymd'"
  by (cases ymd) (auto split: if_splits)

lemma next_day_valid: "valid_date ymd \<Longrightarrow> next_day ymd = Some ymd' \<Longrightarrow> valid_date ymd'"
  by (cases ymd) (auto simp: valid_date_def split: if_splits)

lemma add_days_later: "add_days n ymd = Some ymd' \<Longrightarrow> if n = 0 then ymd' = ymd else ymd < ymd'"
proof (induction n ymd rule: add_days.induct)
  case (1 ymd)
  then show ?case by simp
next
  case (2 n ymd)
  from "2.prems" obtain mid where mid: "next_day ymd = Some mid" and rest: "add_days n mid = Some ymd'"
    by (auto split: option.splits)
  from mid have "ymd < mid" by (rule next_day_later)
  moreover from "2.IH" [OF mid rest] have "mid \<le> ymd'" by (auto split: if_splits)
  ultimately have "ymd < ymd'" by (rule less_le_trans)
  then show ?case by simp
qed

lemma add_days_valid: "valid_date ymd \<Longrightarrow> add_days n ymd = Some ymd' \<Longrightarrow> valid_date ymd'"
  by (induction n ymd rule: add_days.induct) (auto split: option.splits dest: next_day_valid)

lemma sixty_less: "(b::nat) < 60 \<Longrightarrow> d < 60 \<Longrightarrow> a * 60 + b < c * 60 + d \<longleftrightarrow> a < c \<or> a = c \<and> b < d"
  by auto

lemma hms_less:
  assumes "mi < 60" "s < 60" "mi' < 60" "s' < 60"
  shows "h * 3600 + mi * 60 + s < h' * 3600 + mi' * 60 + s' \<longleftrightarrow> (h, mi, s) < (h', mi', s' :: nat)"
proof -
  have "h * 3600 + mi * 60 + s = (h * 60 + mi) * 60 + s" for h mi s :: nat by simp
  with assms show ?thesis by (simp only: sixty_less less_prod_simp) auto
qed

lemma hms_split: "r = r div 3600 * 3600 + r mod 3600 div 60 * 60 + r mod 60" for r :: nat
proof -
  have "r mod 3600 mod 60 = r mod 60" by (simp add: mod_mod_cancel)
  moreover have "r mod 3600 = r mod 3600 div 60 * 60 + r mod 3600 mod 60"
    by (metis div_mult_mod_eq)
  moreover have "r = r div 3600 * 3600 + r mod 3600" by (metis div_mult_mod_eq)
  ultimately show ?thesis by linarith
qed

lemma add_seconds_valid:
  assumes "valid_datetime t" and "add_seconds n t = Some t'"
  shows "valid_datetime t'"
proof (cases t)
  case (DateTime y mo d h mi s us)
  let ?total = "h * 3600 + mi * 60 + s + n"
  from assms(1) DateTime have vd: "valid_date (y, mo, d)" and us: "us < 1000000"
    by (auto simp: valid_date_def)
  from assms(2) DateTime obtain y' mo' d' where
      days: "add_days (?total div 86400) (y, mo, d) = Some (y', mo', d')" and
      t': "t' = DateTime y' mo' d' (?total mod 86400 div 3600) (?total mod 86400 mod 3600 div 60)
                  (?total mod 86400 mod 60) us"
    by (auto simp: Let_def split: option.splits)
  from add_days_valid [OF vd days] have "valid_date (y', mo', d')" .
  moreover have "?total mod 86400 div 3600 < 24" by (simp add: less_mult_imp_div_less)
  moreover have "?total mod 86400 mod 3600 div 60 < 60" by (simp add: less_mult_imp_div_less)
  ultimately show ?thesis using t' us by (simp add: valid_date_def)
qed

lemma add_seconds_later:
  assumes "valid_datetime t" and "0 < n" and "add_seconds n t = Some t'"
  shows "t < t'"
proof (cases t)
  case (DateTime y mo d h mi s us)
  let ?total = "h * 3600 + mi * 60 + s + n"
  let ?r = "?total mod 86400"
  from assms(3) DateTime obtain y' mo' d' where
      days: "add_days (?total div 86400) (y, mo, d) = Some (y', mo', d')" and
      t': "t' = DateTime y' mo' d' (?r div 3600) (?r mod 3600 div 60) (?r mod 60) us"
    by (auto simp: Let_def split: option.splits)
  show ?thesis
  proof (cases "?total div 86400 = 0")
    case False
    with add_days_later [OF days] have "(y, mo, d) < (y', mo', d')" by simp
    then show ?thesis using DateTime t' by (auto simp: clock_simps)
  next
    case True
    then have r: "?r = ?total" by simp
    from add_days_later [OF days] True have date: "y' = y" "mo' = mo" "d' = d" by simp_all
    from assms(1) DateTime have "mi < 60" "s < 60" by simp_all
    moreover have "?r mod 3600 div 60 < 60" by (simp add: less_mult_imp_div_less)
    moreover have "h * 3600 + mi * 60 + s
        < ?r div 3600 * 3600 + ?r mod 3600 div 60 * 60 + ?r mod 60"
      using assms(2) r hms_split [of ?r] by linarith
    ultimately have "(h, mi, s) < (?r div 3600, ?r mod 3600 div 60, ?r mod 60)"
      by (simp add: hms_less del: less_prod_simp)
    then show ?thesis using DateTime t' date by (auto simp: clock_simps)
  qed
qed

section \<open>Texts\<close>

fun digits :: "nat \<Rightarrow> nat \<Rightarrow> string" where
  \<comment> \<open>\<open>digits w n\<close> is \<open>n\<close> in decimal, padded to width \<open>w\<close>\<close>
  "digits 0 n = []"
| "digits (Suc w) n = digits w (n div 10) @ [char_of (48 + n mod 10)]"

definition fraction :: "nat \<Rightarrow> string" where
  \<comment> \<open>\<open>isoformat\<close> leaves the fraction out when the microseconds are zero\<close>
  "fraction us = (if us = 0 then [] else ''.'' @ digits 6 us)"

fun seconds_text :: "datetime \<Rightarrow> string" where
  "seconds_text (DateTime y mo d h mi s us) =
     digits 4 y @ ''-'' @ digits 2 mo @ ''-'' @ digits 2 d @ ''T'' @
     digits 2 h @ '':'' @ digits 2 mi @ '':'' @ digits 2 s"

definition isoformat :: "datetime \<Rightarrow> string" where
  "isoformat t = seconds_text t @ fraction (dt_micro t) @ ''+00:00''"

definition timestamp :: "datetime \<Rightarrow> string" where
  "timestamp t = seconds_text t @ fraction (dt_micro t) @ ''Z''"

lemma lex_append:
  fixes xs ys :: "'a::linorder list"
  shows "length xs = length ys \<Longrightarrow> xs @ us < ys @ vs \<longleftrightarrow> xs < ys \<or> xs = ys \<and> us < vs"
  by (induction xs ys rule: list_induct2) auto

lemma length_digits [simp]: "length (digits w n) = w"
  by (induction w n rule: digits.induct) auto

lemma digit_char_less: "a < 10 \<Longrightarrow> b < 10 \<Longrightarrow> (char_of (48 + a) :: char) < char_of (48 + b) \<longleftrightarrow> a < (b::nat)"
  by (simp add: less_char_def)

lemma digit_char_eq: "a < 10 \<Longrightarrow> b < 10 \<Longrightarrow> (char_of (48 + a) :: char) = char_of (48 + b) \<longleftrightarrow> a = (b::nat)"
  by (metis digit_char_less less_irrefl linorder_neqE_nat)

lemma digits_order:
  "m < 10 ^ w \<Longrightarrow> n < 10 ^ w \<Longrightarrow> (digits w m < digits w n \<longleftrightarrow> m < n) \<and> (digits w m = digits w n \<longleftrightarrow> m = n)"
proof (induction w arbitrary: m n)
  case 0
  then show ?case by simp
next
  case (Suc w)
  have "m div 10 < 10 ^ w" "n div 10 < 10 ^ w"
    using Suc.prems by (simp_all add: less_mult_imp_div_less mult.commute)
  note IH = Suc.IH [OF this]
  have m: "m = 10 * (m div 10) + m mod 10" and n: "n = 10 * (n div 10) + n mod 10" by simp_all
  have chars: "m mod 10 < 10" "n mod 10 < 10" by simp_all
  have less: "m < n \<longleftrightarrow> m div 10 < n div 10 \<or> m div 10 = n div 10 \<and> m mod 10 < n mod 10"
    using m n chars by arith
  have eq: "m = n \<longleftrightarrow> m div 10 = n div 10 \<and> m mod 10 = n mod 10"
    using m n by metis
  show ?case
    unfolding digits.simps using IH less eq chars
    by (simp add: lex_append digit_char_less digit_char_eq)
qed

lemma digits_less: "m < 10 ^ w \<Longrightarrow> n < 10 ^ w \<Longrightarrow> digits w m < digits w n \<longleftrightarrow> m < n"
  by (simp add: digits_order)

lemma digits_eq: "m < 10 ^ w \<Longrightarrow> n < 10 ^ w \<Longrightarrow> digits w m = digits w n \<longleftrightarrow> m = n"
  by (simp add: digits_order)

lemma days_in_month_le: "days_in_month y m \<le> 31"
  by (simp add: days_in_month_def)

fun second_key :: "datetime \<Rightarrow> nat \<times> nat \<times> nat \<times> nat \<times> nat \<times> nat" where
  "second_key (DateTime y mo d h mi s us) = (y, mo, d, h, mi, s)"

lemma length_seconds_text: "length (seconds_text t) = 19"
  by (cases t) simp

lemma seconds_text_order:
  assumes "valid_datetime a" and "valid_datetime b"
  shows "seconds_text a < seconds_text b \<longleftrightarrow> second_key a < second_key b"
    and "seconds_text a = seconds_text b \<longleftrightarrow> second_key a = second_key b"
proof -
  obtain y mo d h mi s us where a: "a = DateTime y mo d h mi s us" by (cases a)
  obtain y' mo' d' h' mi' s' us' where b: "b = DateTime y' mo' d' h' mi' s' us'" by (cases b)
  have w4: "y < 10 ^ 4" "y' < 10 ^ 4" using assms a b by simp_all
  have w2: "mo < 10 ^ 2" "d < 10 ^ 2" "h < 10 ^ 2" "mi < 10 ^ 2" "s < 10 ^ 2"
    "mo' < 10 ^ 2" "d' < 10 ^ 2" "h' < 10 ^ 2" "mi' < 10 ^ 2" "s' < 10 ^ 2"
    using assms a b days_in_month_le [of y mo] days_in_month_le [of y' mo'] by simp_all
  note digs = digits_less [OF w4] digits_eq [OF w4]
    digits_less [OF w2(1) w2(6)] digits_eq [OF w2(1) w2(6)]
    digits_less [OF w2(2) w2(7)] digits_eq [OF w2(2) w2(7)]
    digits_less [OF w2(3) w2(8)] digits_eq [OF w2(3) w2(8)]
    digits_less [OF w2(4) w2(9)] digits_eq [OF w2(4) w2(9)]
    digits_less [OF w2(5) w2(10)] digits_eq [OF w2(5) w2(10)]
  show "seconds_text a < seconds_text b \<longleftrightarrow> second_key a < second_key b"
    unfolding a b seconds_text.simps second_key.simps
    by (auto simp: lex_append digs simp del: digits.simps)
  show "seconds_text a = seconds_text b \<longleftrightarrow> second_key a = second_key b"
    unfolding a b seconds_text.simps second_key.simps
    by (simp add: digs del: digits.simps)
qed

lemma less_by_second_key:
  "a < b \<longleftrightarrow> second_key a < second_key b \<or> second_key a = second_key b \<and> dt_micro a < dt_micro b"
  by (cases a; cases b) (auto simp: clock_simps)

lemma micro_bound: "valid_datetime t \<Longrightarrow> dt_micro t < 10 ^ 6"
  by (cases t) simp

lemma fraction_iso_order:
  assumes "m < 10 ^ 6" and "n < 10 ^ 6"
  shows "fraction m @ ''+00:00'' < fraction n @ ''+00:00'' \<longleftrightarrow> m < n"
  using assms digits_less [OF assms] digits_eq [OF assms]
  by (simp add: fraction_def lex_append less_char_def del: digits.simps)

lemma fraction_z_order:
  assumes "m < 10 ^ 6" and "n < 10 ^ 6"
  shows "fraction m @ ''Z'' < fraction n @ ''Z'' \<longleftrightarrow> m \<noteq> 0 \<and> (n = 0 \<or> m < n)"
  using assms digits_less [OF assms] digits_eq [OF assms]
  by (simp add: fraction_def lex_append less_char_def del: digits.simps)

text \<open>Texts in the \<open>+00:00\<close> form compare like the times.\<close>

lemma isoformat_less:
  assumes "valid_datetime a" and "valid_datetime b"
  shows "isoformat a < isoformat b \<longleftrightarrow> a < b"
  unfolding isoformat_def
  using seconds_text_order [OF assms] fraction_iso_order [OF assms [THEN micro_bound]]
  by (simp add: lex_append length_seconds_text less_by_second_key [of a b])

text \<open>Texts in the \<open>Z\<close> form do so except within one second.\<close>

lemma timestamp_less:
  assumes "valid_datetime a" and "valid_datetime b"
  shows "timestamp a < timestamp b \<longleftrightarrow>
    second_key a < second_key b \<or>
    second_key a = second_key b \<and> dt_micro a \<noteq> 0 \<and> (dt_micro b = 0 \<or> dt_micro a < dt_micro b)"
  unfolding timestamp_def
  using seconds_text_order [OF assms] fraction_z_order [OF assms [THEN micro_bound]]
  by (simp add: lex_append length_seconds_text)

section \<open>Comparing stored times\<close>

definition sql_after :: "datetime \<Rightarrow> datetime \<Rightarrow> bool" where
  \<comment> \<open>SQL \<open>a > b\<close> on stored times: a comparison of texts\<close>
  "sql_after a b \<longleftrightarrow> timestamp b < timestamp a"

definition sql_upto :: "datetime \<Rightarrow> datetime \<Rightarrow> bool" where
  \<comment> \<open>SQL \<open>a <= b\<close>\<close>
  "sql_upto a b \<longleftrightarrow> timestamp a \<le> timestamp b"

lemma sql_upto_not_after: "sql_upto a b \<longleftrightarrow> \<not> sql_after a b"
  by (auto simp: sql_upto_def sql_after_def)

lemma sql_after_less: "valid_datetime a \<Longrightarrow> valid_datetime b \<Longrightarrow> sql_after a b \<longleftrightarrow>
    second_key b < second_key a \<or>
    second_key b = second_key a \<and> dt_micro b \<noteq> 0 \<and> (dt_micro a = 0 \<or> dt_micro b < dt_micro a)"
  by (simp add: sql_after_def timestamp_less)

end
