(* ===== verification/Json.thy ===== *)
theory Json
  imports Prelude
begin

text \<open>
  JSON values and the canonical text the stores digest and persist:
  \<open>json.dumps(value, sort_keys=True, separators=(",", ":"), ensure_ascii=False)\<close>. Numbers are
  integers; a Python \<open>str\<close> is a list of characters. \<open>canonical\<close> is what
  \<open>json.loads(json.dumps(value, sort_keys=True))\<close> returns: the value with the keys of every
  object in order.
\<close>

datatype json =
  JNull | JBool bool | JInt int | JStr string | JArr "json list" | JObj "(string \<times> json) list"

fun nat_text :: "nat \<Rightarrow> string" where
  "nat_text n = (if n < 10 then [char_of (48 + n)] else nat_text (n div 10) @ [char_of (48 + n mod 10)])"

declare nat_text.simps [simp del]

definition int_text :: "int \<Rightarrow> string" where
  "int_text i = (if i < 0 then CHR ''-'' # nat_text (nat (- i)) else nat_text (nat i))"

definition hex_digit :: "nat \<Rightarrow> char" where
  "hex_digit n = (if n < 10 then char_of (48 + n) else char_of (87 + n))"

definition escape_char :: "char \<Rightarrow> string" where
  "escape_char c =
     (let n = of_char c :: nat in
      if n = 34 then [char_of (92::nat), char_of (34::nat)]
      else if n = 92 then [char_of (92::nat), char_of (92::nat)]
      else if n = 10 then [char_of (92::nat), CHR ''n'']
      else if n = 13 then [char_of (92::nat), CHR ''r'']
      else if n = 9 then [char_of (92::nat), CHR ''t'']
      else if n = 8 then [char_of (92::nat), CHR ''b'']
      else if n = 12 then [char_of (92::nat), CHR ''f'']
      else if n < 32 then [char_of (92::nat), CHR ''u'', CHR ''0'', CHR ''0'', hex_digit (n div 16), hex_digit (n mod 16)]
      else [c])"

definition quote :: "string \<Rightarrow> string" where
  "quote s = [char_of (34::nat)] @ concat (map escape_char s) @ [char_of (34::nat)]"

fun join :: "string \<Rightarrow> string list \<Rightarrow> string" where
  "join sep [] = []"
| "join sep [x] = x"
| "join sep (x # y # xs) = x @ sep @ join sep (y # xs)"

fun dumps :: "json \<Rightarrow> string" where
  "dumps JNull = ''null''"
| "dumps (JBool b) = (if b then ''true'' else ''false'')"
| "dumps (JInt i) = int_text i"
| "dumps (JStr s) = quote s"
| "dumps (JArr vs) = ''['' @ join '','' (map dumps vs) @ '']''"
| "dumps (JObj kvs) =
     ''{'' @ join '','' (map snd (sort_key fst (map (\<lambda>(k, v). (k, quote k @ '':'' @ dumps v)) kvs))) @ ''}''"

fun canonical :: "json \<Rightarrow> json" where
  "canonical (JArr vs) = JArr (map canonical vs)"
| "canonical (JObj kvs) = JObj (sort_key fst (map (\<lambda>(k, v). (k, canonical v)) kvs))"
| "canonical v = v"

text \<open>Python's \<open>==\<close> on decoded values: keys in any order, and \<open>True == 1\<close>, \<open>False == 0\<close>.\<close>

fun bools_as_ints :: "json \<Rightarrow> json" where
  "bools_as_ints (JBool b) = JInt (if b then 1 else 0)"
| "bools_as_ints (JArr vs) = JArr (map bools_as_ints vs)"
| "bools_as_ints (JObj kvs) = JObj (map (\<lambda>(k, v). (k, bools_as_ints v)) kvs)"
| "bools_as_ints v = v"

definition python_eq :: "json \<Rightarrow> json \<Rightarrow> bool" where
  "python_eq a b \<longleftrightarrow> canonical (bools_as_ints a) = canonical (bools_as_ints b)"

lemma python_eq_refl [simp]: "python_eq a a"
  by (simp add: python_eq_def)

fun is_object :: "json \<Rightarrow> bool" where
  "is_object (JObj kvs) = True"
| "is_object v = False"

definition jopt :: "('a \<Rightarrow> json) \<Rightarrow> 'a option \<Rightarrow> json" where
  \<comment> \<open>a value or \<open>None\<close>\<close>
  "jopt f v = (case v of None \<Rightarrow> JNull | Some x \<Rightarrow> f x)"

definition jstrs :: "string list \<Rightarrow> json" where
  "jstrs xs = JArr (map JStr xs)"

fun jfield :: "string \<Rightarrow> json \<Rightarrow> json option" where
  \<comment> \<open>\<open>value.get(key)\<close> on an object\<close>
  "jfield k (JObj kvs) = map_of kvs k"
| "jfield k v = None"

lemma canonical_idem: "canonical (canonical v) = canonical v"
proof (induction v rule: canonical.induct)
  case (2 kvs)
  have "map (\<lambda>(k, v). (k, canonical v)) (sort_key fst (map (\<lambda>(k, v). (k, canonical v)) kvs)) =
      sort_key fst (map (\<lambda>(k, v). (k, canonical v)) kvs)"
  proof (rule map_idI)
    fix x
    assume "x \<in> set (sort_key fst (map (\<lambda>(k, v). (k, canonical v)) kvs))"
    then obtain k v where "x = (k, canonical v)" "(k, v) \<in> set kvs" by auto
    with "2.IH" show "(case x of (k, v) \<Rightarrow> (k, canonical v)) = x" by auto
  qed
  moreover have "sort_key fst (sort_key fst xs) = sort_key fst xs" for xs :: "(string \<times> json) list"
    by (rule sort_key_id_if_sorted) simp
  ultimately show ?case by simp
qed simp_all

text \<open>A stored value is the value for Python: sorting the keys changes no comparison.\<close>

lemma insort_key_map: "insort_key k (f x) (map f xs) = map f (insort_key (k \<circ> f) x xs)"
  by (induction xs) auto

lemma sort_key_map: "sort_key k (map f xs) = map f (sort_key (k \<circ> f) xs)"
  by (induction xs) (simp_all add: insort_key_map comp_def)

lemma bools_canonical: "bools_as_ints (canonical v) = canonical (bools_as_ints v)"
proof (induction v rule: canonical.induct)
  case (2 kvs)
  have fst1: "fst \<circ> (\<lambda>(k, v). (k, canonical v)) = fst" "fst \<circ> (\<lambda>(k, v). (k, bools_as_ints v)) = fst"
    "fst \<circ> ((\<lambda>(k, v). (k, canonical v)) \<circ> (\<lambda>(k, v). (k, bools_as_ints v))) = fst" by auto
  have "map (\<lambda>(k, v). (k, bools_as_ints v)) (sort_key fst (map (\<lambda>(k, v). (k, canonical v)) kvs)) =
      map ((\<lambda>(k, v). (k, bools_as_ints v)) \<circ> (\<lambda>(k, v). (k, canonical v))) (sort_key fst kvs)"
    by (simp add: sort_key_map fst1)
  also have "\<dots> = map ((\<lambda>(k, v). (k, canonical v)) \<circ> (\<lambda>(k, v). (k, bools_as_ints v))) (sort_key fst kvs)"
    using "2.IH" by (intro map_cong) auto
  also have "\<dots> = sort_key fst (map (\<lambda>(k, v). (k, canonical v)) (map (\<lambda>(k, v). (k, bools_as_ints v)) kvs))"
    by (simp add: sort_key_map fst1)
  finally show ?case by simp
qed simp_all

lemma python_eq_canonical: "python_eq (canonical v) v"
  by (simp add: python_eq_def bools_canonical canonical_idem)

end
