(* ===== verification/RecordFields.thy ===== *)
theory RecordFields
  imports Prelude
begin

text \<open>
  The field checks that the validated records of the program share: identifiers, digests, bounded
  texts and bounded integers (\<open>_identifier\<close>, \<open>_digest\<close>, \<open>_bounded_text\<close>, \<open>_non_negative_int\<close>,
  \<open>_positive_int\<close> of \<open>agent/tasks.py\<close>; \<open>runtime_watch/model.py\<close> repeats them with the same
  patterns), and what \<open>isinstance\<close> means of a validated record.
\<close>

section \<open>Field checks\<close>

definition id_char :: "char \<Rightarrow> bool" where
  "id_char c \<longleftrightarrow>
     (let n = of_char c :: nat in
      (65 \<le> n \<and> n \<le> 90) \<or> (97 \<le> n \<and> n \<le> 122) \<or> (48 \<le> n \<and> n \<le> 57) \<or>
      c = CHR ''.'' \<or> c = CHR ''_'' \<or> c = CHR '':'' \<or> c = CHR ''-'')"

definition hex_char :: "char \<Rightarrow> bool" where
  "hex_char c \<longleftrightarrow> (let n = of_char c :: nat in (97 \<le> n \<and> n \<le> 102) \<or> (48 \<le> n \<and> n \<le> 57))"

definition identifier_ok :: "string \<Rightarrow> bool" where
  \<comment> \<open>\<open>^[A-Za-z0-9._:-]{1,128}$\<close>\<close>
  "identifier_ok s \<longleftrightarrow> 1 \<le> length s \<and> length s \<le> 128 \<and> list_all id_char s"

definition digest_ok :: "string \<Rightarrow> bool" where
  \<comment> \<open>\<open>^[a-f0-9]{64}$\<close>\<close>
  "digest_ok s \<longleftrightarrow> length s = 64 \<and> list_all hex_char s"

definition bounded_text :: "nat \<Rightarrow> string \<Rightarrow> bool" where
  "bounded_text maximum s \<longleftrightarrow> s \<noteq> [] \<and> length s \<le> maximum \<and> CHR 0x00 \<notin> set s"

definition max_safe_int :: int where
  "max_safe_int = 2 ^ 53 - 1"

definition non_negative_int :: "int \<Rightarrow> int \<Rightarrow> bool" where
  "non_negative_int maximum v \<longleftrightarrow> 0 \<le> v \<and> v \<le> maximum"

definition positive_int :: "int \<Rightarrow> int \<Rightarrow> bool" where
  "positive_int maximum v \<longleftrightarrow> 1 \<le> v \<and> v \<le> maximum"

text \<open>
  \<open>isinstance(x, C)\<close>: the instances of a validated dataclass are the values its \<open>__post_init__\<close>
  accepts and leaves as they are.
\<close>

definition is_instance :: "('a \<Rightarrow> ('e, 'a) result) \<Rightarrow> 'a \<Rightarrow> bool" where
  "is_instance post_init x \<longleftrightarrow> post_init x = Inr x"

end
