(* ===== verification/Tasks.thy ===== *)
theory Tasks
  imports Clock Json RecordFields
begin

text \<open>
  The immutable records of \<open>agent/tasks.py\<close>: the approved resource envelope, the task request,
  the result, the schedule and gate receipts, the lease and the task itself, each with the checks
  its \<open>__post_init__\<close> makes, in source order. The \<open>isinstance\<close> tests hold by typing. A field that
  the constructor normalises with \<open>timestamp(parse_timestamp(\<dots>))\<close> is held as the \<open>datetime\<close> its
  normalised text denotes.
\<close>

section \<open>Enumerations\<close>

datatype task_state =
  Task_PENDING | Task_RUNNING | Task_SUCCEEDED | Task_FAILED | Task_CANCELLED | Task_AUTH_REQUIRED

fun task_state_value :: "task_state \<Rightarrow> string" where
  "task_state_value Task_PENDING = ''pending''"
| "task_state_value Task_RUNNING = ''running''"
| "task_state_value Task_SUCCEEDED = ''succeeded''"
| "task_state_value Task_FAILED = ''failed''"
| "task_state_value Task_CANCELLED = ''cancelled''"
| "task_state_value Task_AUTH_REQUIRED = ''auth_required''"

fun terminal_task_state :: "task_state \<Rightarrow> bool" where
  "terminal_task_state s \<longleftrightarrow> s = Task_SUCCEEDED \<or> s = Task_FAILED \<or> s = Task_CANCELLED"

datatype completion_policy = EVIDENCE_REQUIRED | EVIDENCE_AND_CAPSULE_REQUIRED

fun requires_capsule :: "completion_policy \<Rightarrow> bool" where
  "requires_capsule p \<longleftrightarrow> p = EVIDENCE_AND_CAPSULE_REQUIRED"

fun policy_value :: "completion_policy \<Rightarrow> string" where
  "policy_value EVIDENCE_REQUIRED = ''evidence_required''"
| "policy_value EVIDENCE_AND_CAPSULE_REQUIRED = ''evidence_and_capsule_required''"

datatype gate_state =
  Gate_CREATED | Gate_ADMITTED | Gate_SUBMITTING | Gate_PENDING | Gate_RUNNING
| Gate_AWAITING_RUN_TERMINAL | Gate_AWAITING_EVIDENCE | Gate_AWAITING_INTEGRITY
| Gate_AWAITING_CAPSULE | Gate_COMPLETED | Gate_INPUT_REQUIRED | Gate_CANCELLING
| Gate_CANCELLED | Gate_FAILED | Gate_BLOCKED | Gate_ORPHANED

fun gate_state_value :: "gate_state \<Rightarrow> string" where
  "gate_state_value Gate_CREATED = ''created''"
| "gate_state_value Gate_ADMITTED = ''admitted''"
| "gate_state_value Gate_SUBMITTING = ''submitting''"
| "gate_state_value Gate_PENDING = ''pending''"
| "gate_state_value Gate_RUNNING = ''running''"
| "gate_state_value Gate_AWAITING_RUN_TERMINAL = ''awaiting_run_terminal''"
| "gate_state_value Gate_AWAITING_EVIDENCE = ''awaiting_evidence''"
| "gate_state_value Gate_AWAITING_INTEGRITY = ''awaiting_integrity''"
| "gate_state_value Gate_AWAITING_CAPSULE = ''awaiting_capsule''"
| "gate_state_value Gate_COMPLETED = ''completed''"
| "gate_state_value Gate_INPUT_REQUIRED = ''input_required''"
| "gate_state_value Gate_CANCELLING = ''cancelling''"
| "gate_state_value Gate_CANCELLED = ''cancelled''"
| "gate_state_value Gate_FAILED = ''failed''"
| "gate_state_value Gate_BLOCKED = ''blocked''"
| "gate_state_value Gate_ORPHANED = ''orphaned''"

definition schedule_submit_states :: "string list" where
  "schedule_submit_states =
     [''admitted'', ''submitting'', ''pending'', ''submitted'', ''submission_uncertain'']"

definition capsule_states :: "string list" where
  "capsule_states = [''READY'', ''not_required'']"

definition run_terminal_states :: "string list" where
  "run_terminal_states = [''completed'', ''failed'', ''cancelled'', ''orphaned'']"

section \<open>Errors\<close>

text \<open>
  \<open>Invalid l\<close> is \<open>ValueError(f"{l} is invalid")\<close>; \<open>ValueErr\<close> and \<open>TypeErr\<close> carry the subject of
  the other value and type errors. \<open>TaskConflict\<close> is \<open>AgentTaskConflict\<close>, with one reason for each
  place that raises it.
\<close>

datatype conflict_reason =
  C_outbox_fenced | C_renewal_stale | C_release_fenced | C_lease_binding | C_links_another_run
| C_run_linked_elsewhere | C_link_fenced | C_needs_gate_receipt | C_terminal_replay
| C_completion_fenced | C_completed_reserved | C_input_required_target | C_input_required_current
| C_causation_root | C_schedule_policy | C_gate_policy | C_not_monotonic | C_schedule_stage
| C_schedule_immutable | C_gate_stage | C_gate_immutable | C_gate_fenced | C_terminal_identity
| C_gate_identity | C_evidence_refs | C_run_not_completed | C_capsule_not_ready
| C_finalization_fenced | C_cancel_terminal | C_cancel_stale | C_cancel_fenced | C_resume_invalid
| C_lease_stale | C_create_replay | C_schedule_incomplete | C_schedule_identity
| C_schedule_run | C_gate_run | C_gate_state_mismatch | C_capsule_policy | C_capsule_gate_policy

datatype task_error =
  Invalid string | ValueErr string | TypeErr string | KeyErr string | OverflowErr | IntegrityErr
| EnvelopeExceeded string | TaskConflict conflict_reason | RuntimeErr

section \<open>Resource envelope and request\<close>

record envelope =
  env_partition :: string
  env_qos :: string
  env_cpus :: int
  env_memory_mib :: int
  env_gpu_type :: "string option"
  env_gpus :: int
  env_walltime_seconds :: int
  env_max_tasks :: int
  env_max_submissions :: int
  env_workspace_snapshot_digest :: string
  env_expires_at :: datetime
  env_approved_by :: string

definition envelope_post_init :: "envelope \<Rightarrow> (task_error, envelope) result" where
  "envelope_post_init e = checked
     [(bounded_text 128 (env_partition e), Invalid ''partition''),
      (bounded_text 128 (env_qos e), Invalid ''qos''),
      (positive_int 1048576 (env_cpus e), Invalid ''cpus''),
      (positive_int 1125899906842624 (env_memory_mib e), Invalid ''memory_mib''),
      (opt_ok (bounded_text 128) (env_gpu_type e), Invalid ''gpu_type''),
      (non_negative_int 1048576 (env_gpus e), Invalid ''gpus''),
      (env_gpus e = 0 \<or> env_gpu_type e \<noteq> None, ValueErr ''gpu_type is required''),
      (positive_int 31536000 (env_walltime_seconds e), Invalid ''walltime_seconds''),
      (positive_int 1024 (env_max_tasks e), Invalid ''max_tasks''),
      (positive_int 1024 (env_max_submissions e), Invalid ''max_submissions''),
      (digest_ok (env_workspace_snapshot_digest e), Invalid ''workspace_snapshot_digest''),
      (identifier_ok (env_approved_by e), Invalid ''approved_by'')]
     (Inr e)"

record task_request =
  req_partition :: string
  req_qos :: string
  req_cpus :: int
  req_memory_mib :: int
  req_gpu_type :: "string option"
  req_gpus :: int
  req_walltime_seconds :: int
  req_tasks :: int
  req_submissions :: int
  req_workspace_snapshot_digest :: string
  req_payload :: json

definition request_post_init :: "task_request \<Rightarrow> (task_error, task_request) result" where
  "request_post_init r = checked
     [(bounded_text 128 (req_partition r), Invalid ''partition''),
      (bounded_text 128 (req_qos r), Invalid ''qos''),
      (positive_int 1048576 (req_cpus r), Invalid ''cpus''),
      (positive_int 1125899906842624 (req_memory_mib r), Invalid ''memory_mib''),
      (opt_ok (bounded_text 128) (req_gpu_type r), Invalid ''gpu_type''),
      (non_negative_int 1048576 (req_gpus r), Invalid ''gpus''),
      (req_gpus r = 0 \<or> req_gpu_type r \<noteq> None, ValueErr ''gpu_type is required''),
      (positive_int 31536000 (req_walltime_seconds r), Invalid ''walltime_seconds''),
      (positive_int 1024 (req_tasks r), Invalid ''tasks''),
      (positive_int 1024 (req_submissions r), Invalid ''submissions''),
      (digest_ok (req_workspace_snapshot_digest r), Invalid ''workspace_snapshot_digest''),
      (is_object (req_payload r), TypeErr ''payload''),
      (length (dumps (req_payload r)) \<le> 1048576, ValueErr ''payload exceeds 1 MiB'')]
     (Inr (r\<lparr>req_payload := canonical (req_payload r)\<rparr>))"

definition assert_allows :: "envelope \<Rightarrow> task_request \<Rightarrow> string \<Rightarrow> datetime \<Rightarrow> (task_error, unit) result" where
  "assert_allows e r owner now = checked
     [(env_approved_by e = owner, EnvelopeExceeded ''approver''),
      (\<not> env_expires_at e \<le> now, EnvelopeExceeded ''expired''),
      (req_partition r = env_partition e, EnvelopeExceeded ''partition''),
      (req_qos r = env_qos e, EnvelopeExceeded ''qos''),
      (req_workspace_snapshot_digest r = env_workspace_snapshot_digest e,
         EnvelopeExceeded ''workspace snapshot''),
      (req_gpus r = 0 \<or> req_gpu_type r = env_gpu_type e, EnvelopeExceeded ''GPU type''),
      (req_cpus r \<le> env_cpus e, EnvelopeExceeded ''CPU''),
      (req_memory_mib r \<le> env_memory_mib e, EnvelopeExceeded ''memory''),
      (req_gpus r \<le> env_gpus e, EnvelopeExceeded ''GPU''),
      (req_walltime_seconds r \<le> env_walltime_seconds e, EnvelopeExceeded ''walltime''),
      (req_tasks r \<le> env_max_tasks e, EnvelopeExceeded ''task count''),
      (req_submissions r \<le> env_max_submissions e, EnvelopeExceeded ''submission count'')]
     (Inr ())"

section \<open>Result and receipts\<close>

record task_result =
  res_status :: string
  res_evidence_refs :: "string list"
  res_error_code :: "string option"
  res_message :: "string option"

definition result_statuses :: "string list" where
  "result_statuses = [''succeeded'', ''failed'', ''cancelled'', ''auth_required'']"

definition result_post_init :: "task_result \<Rightarrow> (task_error, task_result) result" where
  "result_post_init r = checked
     [(res_status r \<in> set result_statuses, ValueErr ''result status''),
      (length (res_evidence_refs r) \<le> 4096, ValueErr ''too many Evidence references''),
      (list_all (bounded_text 4096) (res_evidence_refs r), Invalid ''evidence_ref''),
      (opt_ok identifier_ok (res_error_code r), Invalid ''error_code''),
      (opt_ok (bounded_text 4096) (res_message r), Invalid ''message'')]
     (Inr r)"

definition result_cancelled :: "string option \<Rightarrow> (task_error, task_result) result" where
  "result_cancelled message = result_post_init
     \<lparr>res_status = ''cancelled'', res_evidence_refs = [], res_error_code = None, res_message = message\<rparr>"

definition result_succeeded :: "string list \<Rightarrow> (task_error, task_result) result" where
  "result_succeeded refs = result_post_init
     \<lparr>res_status = ''succeeded'', res_evidence_refs = refs, res_error_code = None, res_message = None\<rparr>"

record schedule_receipt =
  sr_task_id :: string
  sr_run_id :: string
  sr_completion_policy :: completion_policy
  sr_submit_state :: string
  sr_receipt_id :: "string option"
  sr_owner :: "string option"
  sr_session_id :: "string option"
  sr_originating_turn_id :: "string option"
  sr_request_digest :: "string option"
  sr_idempotency_key :: "string option"
  sr_slurm_job_id :: "string option"
  sr_resource_envelope_id :: "string option"
  sr_workspace_revision :: "int option"
  sr_workspace_digest :: "string option"
  sr_created_at :: "datetime option"
  sr_legacy_boundary :: "bool option"

text \<open>
  \<open>legacy_boundary\<close> defaults to the absence of a workspace revision; once set it must agree
  with it.
\<close>

definition default_legacy :: "bool option \<Rightarrow> int option \<Rightarrow> bool option" where
  "default_legacy legacy revision =
     (case legacy of None \<Rightarrow> Some (revision = None) | Some b \<Rightarrow> Some b)"

definition schedule_receipt_post_init ::
    "schedule_receipt \<Rightarrow> (task_error, schedule_receipt) result" where
  "schedule_receipt_post_init r =
     (let legacy = default_legacy (sr_legacy_boundary r) (sr_workspace_revision r) in
      checked
       [(identifier_ok (sr_task_id r), Invalid ''task_id''),
        (identifier_ok (sr_run_id r), Invalid ''run_id''),
        (bounded_text 128 (sr_submit_state r), Invalid ''submit_state''),
        (sr_submit_state r \<in> set schedule_submit_states, Invalid ''submit_state''),
        (opt_ok identifier_ok (sr_receipt_id r), Invalid ''receipt_id''),
        (opt_ok identifier_ok (sr_owner r), Invalid ''owner''),
        (opt_ok identifier_ok (sr_session_id r), Invalid ''session_id''),
        (opt_ok identifier_ok (sr_originating_turn_id r), Invalid ''originating_turn_id''),
        (opt_ok identifier_ok (sr_idempotency_key r), Invalid ''idempotency_key''),
        (opt_ok identifier_ok (sr_slurm_job_id r), Invalid ''slurm_job_id''),
        (opt_ok identifier_ok (sr_resource_envelope_id r), Invalid ''resource_envelope_id''),
        (opt_ok digest_ok (sr_request_digest r), Invalid ''request_digest''),
        (opt_ok digest_ok (sr_workspace_digest r), Invalid ''workspace_digest''),
        (opt_ok (non_negative_int max_safe_int) (sr_workspace_revision r), Invalid ''workspace_revision''),
        (sr_workspace_revision r \<noteq> None \<or> legacy = Some True, ValueErr ''legacy boundary required''),
        (sr_workspace_revision r = None \<or> legacy = Some False, ValueErr ''legacy boundary live'')]
       (Inr (r\<lparr>sr_legacy_boundary := legacy\<rparr>)))"

record gate_receipt =
  gr_task_id :: string
  gr_run_id :: string
  gr_run_terminal_state :: string
  gr_evidence_refs :: "string list"
  gr_evidence_digest :: string
  gr_integrity_verified_at :: datetime
  gr_workspace_revision :: "int option"
  gr_workspace_digest :: string
  gr_legacy_boundary :: bool
  gr_capsule_ref :: "string option"
  gr_capsule_state :: string
  gr_evidence_state :: string
  gr_integrity_state :: string
  gr_platform_snapshot_ref :: "string option"
  gr_source_revision :: "string option"
  gr_terminal_at :: "datetime option"
  gr_seal_digest :: "string option"
  gr_seal_marker_ref :: "string option"

definition gate_receipt_post_init :: "gate_receipt \<Rightarrow> (task_error, gate_receipt) result" where
  "gate_receipt_post_init r = checked
     [(identifier_ok (gr_task_id r), Invalid ''task_id''),
      (identifier_ok (gr_run_id r), Invalid ''run_id''),
      (bounded_text 128 (gr_run_terminal_state r), Invalid ''run_terminal_state''),
      (gr_run_terminal_state r \<in> set run_terminal_states, ValueErr ''run_terminal_state''),
      (length (gr_evidence_refs r) \<le> 4096, ValueErr ''evidence_refs''),
      (list_all (bounded_text 4096) (gr_evidence_refs r), Invalid ''evidence_ref''),
      (digest_ok (gr_evidence_digest r), Invalid ''evidence_digest''),
      (digest_ok (gr_workspace_digest r), Invalid ''workspace_digest''),
      (opt_ok (non_negative_int max_safe_int) (gr_workspace_revision r), Invalid ''workspace_revision''),
      (gr_workspace_revision r \<noteq> None \<or> gr_legacy_boundary r, ValueErr ''legacy boundary required''),
      (gr_workspace_revision r = None \<or> \<not> gr_legacy_boundary r, ValueErr ''legacy boundary live''),
      (opt_ok (bounded_text 4096) (gr_capsule_ref r), Invalid ''capsule_ref''),
      (bounded_text 128 (gr_capsule_state r), Invalid ''capsule_state''),
      (gr_capsule_state r \<in> set capsule_states, Invalid ''capsule_state''),
      (bounded_text 128 (gr_evidence_state r), Invalid ''evidence_state''),
      (bounded_text 128 (gr_integrity_state r), Invalid ''integrity_state''),
      (gr_evidence_state r = ''finalized'', ValueErr ''evidence_state''),
      (gr_integrity_state r = ''verified'', ValueErr ''integrity_state''),
      (gr_capsule_state r \<noteq> ''READY'' \<or> gr_capsule_ref r \<noteq> None, ValueErr ''capsule_ref required''),
      (gr_capsule_state r \<noteq> ''not_required'' \<or> gr_capsule_ref r = None, ValueErr ''capsule_ref absent''),
      (opt_ok (bounded_text 4096) (gr_platform_snapshot_ref r), Invalid ''platform_snapshot_ref''),
      (opt_ok (bounded_text 4096) (gr_source_revision r), Invalid ''source_revision''),
      (opt_ok digest_ok (gr_seal_digest r), Invalid ''seal_digest''),
      (opt_ok (bounded_text 4096) (gr_seal_marker_ref r), Invalid ''seal_marker_ref'')]
     (Inr r)"

section \<open>Lease and task\<close>

record task_lease =
  tl_task_id :: string
  tl_owner :: string
  tl_worker_id :: string
  tl_version :: int
  tl_fencing_token :: int
  tl_expires_at :: datetime

definition lease_post_init :: "task_lease \<Rightarrow> (task_error, task_lease) result" where
  "lease_post_init l = checked
     [(identifier_ok (tl_task_id l), Invalid ''task_id''),
      (identifier_ok (tl_owner l), Invalid ''owner''),
      (identifier_ok (tl_worker_id l), Invalid ''worker_id''),
      (non_negative_int max_safe_int (tl_version l), Invalid ''version''),
      (positive_int max_safe_int (tl_fencing_token l), Invalid ''fencing_token'')]
     (Inr l)"

record agent_task =
  t_task_id :: string
  t_owner :: string
  t_session_id :: string
  t_turn_id :: string
  t_project_id :: string
  t_workspace_id :: string
  t_task_kind :: string
  t_state :: task_state
  t_version :: int
  t_request_key :: string
  t_request :: task_request
  t_envelope :: envelope
  t_linked_run_id :: "string option"
  t_result :: "task_result option"
  t_cancel_requested :: bool
  t_lease_owner :: "string option"
  t_lease_expires_at :: "datetime option"
  t_fencing_token :: int
  t_created_at :: datetime
  t_updated_at :: datetime
  t_completion_policy :: completion_policy
  t_gate_state :: gate_state
  t_schedule_receipt :: "schedule_receipt option"
  t_gate_receipt :: "gate_receipt option"
  t_legacy_gate_unverified :: bool

definition schedule_receipt_checks :: "agent_task \<Rightarrow> schedule_receipt \<Rightarrow> (bool \<times> task_error) list" where
  "schedule_receipt_checks t r =
     [(sr_task_id r = t_task_id t, ValueErr ''schedule receipt task_id''),
      (t_linked_run_id t \<noteq> None \<or> sr_submit_state r = ''admitted'', ValueErr ''schedule receipt admitted''),
      (t_linked_run_id t = None \<or> t_linked_run_id t = Some (sr_run_id r), ValueErr ''schedule receipt Run''),
      (sr_completion_policy r = t_completion_policy t, ValueErr ''completion_policy'')]"

definition gate_receipt_checks :: "agent_task \<Rightarrow> gate_receipt \<Rightarrow> (bool \<times> task_error) list" where
  "gate_receipt_checks t r =
     [(gr_task_id r = t_task_id t, ValueErr ''gate receipt task_id''),
      (t_linked_run_id t \<noteq> None, ValueErr ''gate receipt linked Run''),
      (t_linked_run_id t = Some (gr_run_id r), ValueErr ''gate receipt Run''),
      (\<not> requires_capsule (t_completion_policy t) \<or>
         gr_capsule_state r = ''READY'' \<and> gr_capsule_ref r \<noteq> None, ValueErr ''READY Capsule'')]"

definition option_checks :: "('a \<Rightarrow> (bool \<times> task_error) list) \<Rightarrow> 'a option \<Rightarrow> (bool \<times> task_error) list" where
  "option_checks f v = (case v of None \<Rightarrow> [] | Some x \<Rightarrow> f x)"

definition task_checks :: "agent_task \<Rightarrow> (bool \<times> task_error) list" where
  "task_checks t =
     [(identifier_ok (t_task_id t), Invalid ''task_id''),
      (identifier_ok (t_owner t), Invalid ''owner''),
      (identifier_ok (t_session_id t), Invalid ''session_id''),
      (identifier_ok (t_turn_id t), Invalid ''turn_id''),
      (identifier_ok (t_project_id t), Invalid ''project_id''),
      (identifier_ok (t_workspace_id t), Invalid ''workspace_id''),
      (identifier_ok (t_request_key t), Invalid ''request_key''),
      (t_task_kind t = ''slurm_validation'', Invalid ''AgentTask kind''),
      (non_negative_int max_safe_int (t_version t), Invalid ''version''),
      (non_negative_int max_safe_int (t_fencing_token t), Invalid ''fencing_token''),
      (opt_ok identifier_ok (t_linked_run_id t), Invalid ''linked_run_id''),
      ((t_lease_owner t = None) = (t_lease_expires_at t = None), ValueErr ''lease fields''),
      (opt_ok identifier_ok (t_lease_owner t), Invalid ''lease_owner''),
      (\<not> terminal_task_state (t_state t) \<or> t_result t \<noteq> None, ValueErr ''terminal result''),
      (opt_ok (\<lambda>r. res_status r = task_state_value (t_state t)) (t_result t), ValueErr ''result state'')]
     @ option_checks (schedule_receipt_checks t) (t_schedule_receipt t)
     @ option_checks (gate_receipt_checks t) (t_gate_receipt t)"

definition task_post_init :: "agent_task \<Rightarrow> (task_error, agent_task) result" where
  "task_post_init t = checked (task_checks t) (Inr t)"

section \<open>Wire payloads\<close>

definition schedule_receipt_payload :: "schedule_receipt \<Rightarrow> (task_error, json) result" where
  "schedule_receipt_payload r =
     (if sr_receipt_id r = None \<or> sr_owner r = None \<or> sr_session_id r = None \<or>
         sr_originating_turn_id r = None \<or> sr_request_digest r = None \<or> sr_idempotency_key r = None \<or>
         sr_resource_envelope_id r = None \<or> sr_workspace_digest r = None \<or> sr_created_at r = None
      then Inl (ValueErr ''schedule receipt is incomplete'')
      else Inr (JObj
        [(''receipt_id'', jopt JStr (sr_receipt_id r)),
         (''task_id'', JStr (sr_task_id r)),
         (''owner'', jopt JStr (sr_owner r)),
         (''session_id'', jopt JStr (sr_session_id r)),
         (''originating_turn_id'', jopt JStr (sr_originating_turn_id r)),
         (''request_digest'', jopt JStr (sr_request_digest r)),
         (''idempotency_key'', jopt JStr (sr_idempotency_key r)),
         (''run_id'', JStr (sr_run_id r)),
         (''submit_state'', JStr (sr_submit_state r)),
         (''slurm_job_id'', jopt JStr (sr_slurm_job_id r)),
         (''resource_envelope_id'', jopt JStr (sr_resource_envelope_id r)),
         (''workspace_revision'', jopt JInt (sr_workspace_revision r)),
         (''workspace_digest'', jopt JStr (sr_workspace_digest r)),
         (''completion_policy'', JStr (policy_value (sr_completion_policy r))),
         (''created_at'', jopt (JStr \<circ> timestamp) (sr_created_at r)),
         (''legacy_boundary'', jopt JBool (sr_legacy_boundary r))]))"

definition present :: "string \<Rightarrow> string option \<Rightarrow> (string \<times> json) list" where
  "present k v = (case v of None \<Rightarrow> [] | Some x \<Rightarrow> [(k, JStr x)])"

definition gate_receipt_payload :: "gate_receipt \<Rightarrow> json" where
  "gate_receipt_payload r = JObj (
     [(''task_id'', JStr (gr_task_id r)),
      (''run_id'', JStr (gr_run_id r)),
      (''run_terminal_state'', JStr (gr_run_terminal_state r)),
      (''evidence_state'', JStr (gr_evidence_state r)),
      (''evidence_refs'', jstrs (gr_evidence_refs r)),
      (''evidence_digest'', JStr (gr_evidence_digest r)),
      (''integrity_verified_at'', JStr (timestamp (gr_integrity_verified_at r))),
      (''integrity_state'', JStr (gr_integrity_state r)),
      (''workspace_revision'', jopt JInt (gr_workspace_revision r)),
      (''workspace_digest'', JStr (gr_workspace_digest r)),
      (''legacy_boundary'', JBool (gr_legacy_boundary r)),
      (''capsule_ref'', jopt JStr (gr_capsule_ref r)),
      (''capsule_state'', JStr (gr_capsule_state r))]
     @ present ''platform_snapshot_ref'' (gr_platform_snapshot_ref r)
     @ present ''source_revision'' (gr_source_revision r)
     @ present ''terminal_at'' (map_option timestamp (gr_terminal_at r))
     @ present ''seal_digest'' (gr_seal_digest r)
     @ present ''seal_marker_ref'' (gr_seal_marker_ref r))"

definition envelope_payload :: "envelope \<Rightarrow> json" where
  "envelope_payload e = JObj
     [(''partition'', JStr (env_partition e)),
      (''qos'', JStr (env_qos e)),
      (''cpus'', JInt (env_cpus e)),
      (''memory_mib'', JInt (env_memory_mib e)),
      (''gpu_type'', jopt JStr (env_gpu_type e)),
      (''gpus'', JInt (env_gpus e)),
      (''walltime_seconds'', JInt (env_walltime_seconds e)),
      (''max_tasks'', JInt (env_max_tasks e)),
      (''max_submissions'', JInt (env_max_submissions e)),
      (''workspace_snapshot_digest'', JStr (env_workspace_snapshot_digest e)),
      (''expires_at'', JStr (timestamp (env_expires_at e))),
      (''approved_by'', JStr (env_approved_by e))]"

definition request_payload :: "task_request \<Rightarrow> json" where
  "request_payload r = JObj
     [(''partition'', JStr (req_partition r)),
      (''qos'', JStr (req_qos r)),
      (''cpus'', JInt (req_cpus r)),
      (''memory_mib'', JInt (req_memory_mib r)),
      (''gpu_type'', jopt JStr (req_gpu_type r)),
      (''gpus'', JInt (req_gpus r)),
      (''walltime_seconds'', JInt (req_walltime_seconds r)),
      (''tasks'', JInt (req_tasks r)),
      (''submissions'', JInt (req_submissions r)),
      (''workspace_snapshot_digest'', JStr (req_workspace_snapshot_digest r)),
      (''payload'', req_payload r)]"

definition result_payload :: "task_result \<Rightarrow> json" where
  "result_payload r = JObj
     [(''status'', JStr (res_status r)),
      (''evidence_refs'', jstrs (res_evidence_refs r)),
      (''error_code'', jopt JStr (res_error_code r)),
      (''message'', jopt JStr (res_message r))]"

definition agent_task_payload :: "agent_task \<Rightarrow> (task_error, json) result" where
  "agent_task_payload t =
     bind_res
       (case t_schedule_receipt t of None \<Rightarrow> Inr JNull | Some r \<Rightarrow> schedule_receipt_payload r)
       (\<lambda>schedule. Inr (JObj
         [(''schema_version'', JStr ''pilot107.agent-task/v1''),
          (''task_id'', JStr (t_task_id t)),
          (''owner'', JStr (t_owner t)),
          (''session_id'', JStr (t_session_id t)),
          (''turn_id'', JStr (t_turn_id t)),
          (''project_id'', JStr (t_project_id t)),
          (''workspace_id'', JStr (t_workspace_id t)),
          (''task_kind'', JStr (t_task_kind t)),
          (''state'', JStr (task_state_value (t_state t))),
          (''version'', JInt (t_version t)),
          (''request_key'', JStr (t_request_key t)),
          (''completion_policy'', JStr (policy_value (t_completion_policy t))),
          (''gate_state'', JStr (gate_state_value (t_gate_state t))),
          (''schedule_receipt'', schedule),
          (''gate_receipt'', jopt gate_receipt_payload (t_gate_receipt t)),
          (''legacy_gate_unverified'', JBool (t_legacy_gate_unverified t)),
          (''cancel_requested'', JBool (t_cancel_requested t)),
          (''resource_envelope'', envelope_payload (t_envelope t)),
          (''linked_run_id'', jopt JStr (t_linked_run_id t)),
          (''result'', jopt result_payload (t_result t)),
          (''lease'', case t_lease_owner t of None \<Rightarrow> JNull
             | Some w \<Rightarrow> JObj [(''owner'', JStr w),
                 (''expires_at'', jopt (JStr \<circ> timestamp) (t_lease_expires_at t)),
                 (''fencing_token'', JInt (t_fencing_token t))]),
          (''created_at'', JStr (timestamp (t_created_at t))),
          (''updated_at'', JStr (timestamp (t_updated_at t)))]))"

end
