(* ===== verification/TaskStore.thy ===== *)
theory TaskStore
  imports Tasks
begin

text \<open>
  \<open>agent/task_store.py\<close>: the SQLite store of leased agent tasks. The state is the table
  \<open>agent_tasks\<close>, a list of rows; each operation takes the table and returns what the call raises or
  returns together with the table after it. A transaction that raises is rolled back; a few
  operations raise after the commit (decoding the row they wrote), which the model keeps: the
  result is an error and the table has changed. \<open>sha\<close> is \<open>hashlib.sha256(\<dots>).hexdigest()\<close>, a
  parameter. The clock is read once per operation.
\<close>

section \<open>Rows\<close>

record task_row =
  row_task :: agent_task
  row_envelope_expires_at :: datetime
  row_schedule_receipt_ref :: "string option"
  row_evidence_refs :: "string list"
  row_evidence_digest :: "string option"
  row_integrity_checked_at :: "datetime option"
  row_capsule_ref :: "string option"
  row_capsule_state :: string
  row_causation_root_key :: "string option"
  row_durable_operation_key :: "string option"
  row_schedule_operation_key :: "string option"
  row_gate_operation_key :: "string option"
  row_heartbeat_at :: "datetime option"
  row_ready_outbox_pending :: bool

type_synonym task_table = "task_row list"

abbreviation row_id :: "task_row \<Rightarrow> string" where
  "row_id r \<equiv> t_task_id (row_task r)"

abbreviation row_state :: "task_row \<Rightarrow> task_state" where
  "row_state r \<equiv> t_state (row_task r)"

fun traverse_opt :: "('a \<Rightarrow> ('e, 'b) result) \<Rightarrow> 'a option \<Rightarrow> ('e, 'b option) result" where
  "traverse_opt f None = Inr None"
| "traverse_opt f (Some x) = bind_res (f x) (\<lambda>y. Inr (Some y))"

definition task_from_row :: "task_row \<Rightarrow> (task_error, agent_task) result" where
  "task_from_row row =
     (let t = row_task row in
      bind_res (request_post_init (t_request t)) (\<lambda>request.
      bind_res (envelope_post_init (t_envelope t)) (\<lambda>envelope.
      bind_res (traverse_opt result_post_init (t_result t)) (\<lambda>res.
      bind_res (traverse_opt schedule_receipt_post_init (t_schedule_receipt t)) (\<lambda>schedule.
      bind_res (traverse_opt gate_receipt_post_init (t_gate_receipt t)) (\<lambda>gate.
        task_post_init (t\<lparr>t_request := request, t_envelope := envelope, t_result := res,
          t_schedule_receipt := schedule, t_gate_receipt := gate\<rparr>)))))))"

fun tasks_from_rows :: "task_row list \<Rightarrow> (task_error, agent_task list) result" where
  "tasks_from_rows [] = Inr []"
| "tasks_from_rows (r # rs) =
     bind_res (task_from_row r) (\<lambda>t. bind_res (tasks_from_rows rs) (\<lambda>ts. Inr (t # ts)))"

fun gate_rank :: "gate_state \<Rightarrow> nat option" where
  "gate_rank Gate_CREATED = Some 0"
| "gate_rank Gate_ADMITTED = Some 1"
| "gate_rank Gate_SUBMITTING = Some 2"
| "gate_rank Gate_PENDING = Some 3"
| "gate_rank Gate_RUNNING = Some 4"
| "gate_rank Gate_AWAITING_RUN_TERMINAL = Some 5"
| "gate_rank Gate_AWAITING_EVIDENCE = Some 6"
| "gate_rank Gate_AWAITING_INTEGRITY = Some 7"
| "gate_rank Gate_AWAITING_CAPSULE = Some 8"
| "gate_rank Gate_INPUT_REQUIRED = None"
| "gate_rank _ = Some 9"

section \<open>Argument checks\<close>

definition key_ok :: "string \<Rightarrow> bool" where
  "key_ok s \<longleftrightarrow> s \<noteq> [] \<and> length s \<le> 128"

definition limit_ok :: "int \<Rightarrow> bool" where
  "limit_ok n \<longleftrightarrow> 1 \<le> n \<and> n \<le> 1000"

definition lease_seconds_ok :: "int \<Rightarrow> bool" where
  "lease_seconds_ok n \<longleftrightarrow> 1 \<le> n \<and> n \<le> 3600"

section \<open>Creating tasks\<close>

record create_args =
  ca_owner :: string
  ca_session_id :: string
  ca_turn_id :: string
  ca_project_id :: string
  ca_workspace_id :: string
  ca_task_kind :: string
  ca_request_key :: string
  ca_request :: task_request
  ca_envelope :: envelope
  ca_completion_policy :: completion_policy

definition new_task_id :: "(string \<Rightarrow> string) \<Rightarrow> string \<Rightarrow> string \<Rightarrow> string" where
  "new_task_id sha owner request_key = ''task-'' @ sha (owner @ [CHR 0x00] @ request_key)"

definition new_task :: "(string \<Rightarrow> string) \<Rightarrow> datetime \<Rightarrow> create_args \<Rightarrow> (task_error, agent_task) result" where
  "new_task sha now a = checked
     [(key_ok (ca_owner a), Invalid ''owner''),
      (key_ok (ca_session_id a), Invalid ''session_id''),
      (key_ok (ca_turn_id a), Invalid ''turn_id''),
      (key_ok (ca_project_id a), Invalid ''project_id''),
      (key_ok (ca_workspace_id a), Invalid ''workspace_id''),
      (key_ok (ca_request_key a), Invalid ''request_key''),
      (ca_task_kind a = ''slurm_validation'', Invalid ''AgentTask kind''),
      (is_instance request_post_init (ca_request a), TypeErr ''request''),
      (is_instance envelope_post_init (ca_envelope a), TypeErr ''envelope'')]
     (bind_res (assert_allows (ca_envelope a) (ca_request a) (ca_owner a) now) (\<lambda>_.
        task_post_init
          \<lparr>t_task_id = new_task_id sha (ca_owner a) (ca_request_key a),
           t_owner = ca_owner a, t_session_id = ca_session_id a, t_turn_id = ca_turn_id a,
           t_project_id = ca_project_id a, t_workspace_id = ca_workspace_id a,
           t_task_kind = ca_task_kind a, t_state = Task_PENDING, t_version = 0,
           t_request_key = ca_request_key a, t_request = ca_request a, t_envelope = ca_envelope a,
           t_linked_run_id = None, t_result = None, t_cancel_requested = False,
           t_lease_owner = None, t_lease_expires_at = None, t_fencing_token = 0,
           t_created_at = now, t_updated_at = now,
           t_completion_policy = ca_completion_policy a, t_gate_state = Gate_CREATED,
           t_schedule_receipt = None, t_gate_receipt = None, t_legacy_gate_unverified = False\<rparr>))"

definition new_row :: "agent_task \<Rightarrow> task_row" where
  "new_row t =
     \<lparr>row_task = t\<lparr>t_state := Task_PENDING, t_version := 0, t_linked_run_id := None,
        t_result := None, t_cancel_requested := False, t_lease_owner := None,
        t_lease_expires_at := None, t_fencing_token := 0, t_gate_state := Gate_CREATED,
        t_schedule_receipt := None, t_gate_receipt := None, t_legacy_gate_unverified := False\<rparr>,
      row_envelope_expires_at = env_expires_at (t_envelope t),
      row_schedule_receipt_ref = None, row_evidence_refs = [], row_evidence_digest = None,
      row_integrity_checked_at = None, row_capsule_ref = None, row_capsule_state = ''not_required'',
      row_causation_root_key = None, row_durable_operation_key = None,
      row_schedule_operation_key = None, row_gate_operation_key = None,
      row_heartbeat_at = None, row_ready_outbox_pending = False\<rparr>"

definition same_request :: "string \<Rightarrow> string \<Rightarrow> task_row \<Rightarrow> bool" where
  "same_request owner key r \<longleftrightarrow> t_owner (row_task r) = owner \<and> t_request_key (row_task r) = key"

definition assert_create_arguments :: "agent_task \<Rightarrow> create_args \<Rightarrow> bool" where
  "assert_create_arguments t a \<longleftrightarrow>
     t_session_id t = ca_session_id a \<and> t_turn_id t = ca_turn_id a \<and>
     t_project_id t = ca_project_id a \<and> t_workspace_id t = ca_workspace_id a \<and>
     t_task_kind t = ca_task_kind a \<and> t_request t = ca_request a \<and>
     t_envelope t = ca_envelope a \<and> t_completion_policy t = ca_completion_policy a"

definition assert_create_replay :: "agent_task \<Rightarrow> agent_task \<Rightarrow> bool" where
  "assert_create_replay t c \<longleftrightarrow>
     t_owner t = t_owner c \<and> t_session_id t = t_session_id c \<and> t_turn_id t = t_turn_id c \<and>
     t_project_id t = t_project_id c \<and> t_workspace_id t = t_workspace_id c \<and>
     t_task_kind t = t_task_kind c \<and> t_request_key t = t_request_key c \<and>
     t_request t = t_request c \<and> t_envelope t = t_envelope c \<and>
     t_completion_policy t = t_completion_policy c"

text \<open>The second transaction of \<open>create_task\<close>: the insert, and the row it reads back.\<close>

definition create_insert ::
    "agent_task \<Rightarrow> task_table \<Rightarrow> (task_error, agent_task \<times> bool) result \<times> task_table" where
  "create_insert c db =
     (let replay = fetchone (same_request (t_owner c) (t_request_key c)) db in
      if replay = None \<and> (\<exists>r \<in> set db. row_id r = t_task_id c) then (Inl IntegrityErr, db)
      else
        let db' = (case replay of None \<Rightarrow> db @ [new_row c] | Some _ \<Rightarrow> db) in
        (case fetchone (same_request (t_owner c) (t_request_key c)) db' of
           None \<Rightarrow> (Inl RuntimeErr, db')
         | Some row \<Rightarrow>
             (bind_res (task_from_row row) (\<lambda>existing.
                if assert_create_replay existing c then Inr (existing, replay = None)
                else Inl (TaskConflict C_create_replay)), db')))"

definition create_task ::
    "(string \<Rightarrow> string) \<Rightarrow> datetime \<Rightarrow> create_args \<Rightarrow> task_table
      \<Rightarrow> (task_error, agent_task \<times> bool) result \<times> task_table" where
  "create_task sha now a db =
     (case first_failure [(key_ok (ca_owner a), Invalid ''owner''),
                          (key_ok (ca_request_key a), Invalid ''request_key'')] of
        Some e \<Rightarrow> (Inl e, db)
      | None \<Rightarrow>
          (case fetchone (same_request (ca_owner a) (ca_request_key a)) db of
             Some row \<Rightarrow>
               (bind_res (task_from_row row) (\<lambda>replay.
                  if assert_create_arguments replay a then Inr (replay, False)
                  else Inl (TaskConflict C_create_replay)), db)
           | None \<Rightarrow>
               (case new_task sha now a of
                  Inl e \<Rightarrow> (Inl e, db)
                | Inr candidate \<Rightarrow> create_insert candidate db)))"

section \<open>Reading\<close>

definition owned_by :: "string \<Rightarrow> string \<Rightarrow> task_row \<Rightarrow> bool" where
  "owned_by task_id owner r \<longleftrightarrow> row_id r = task_id \<and> t_owner (row_task r) = owner"

definition get_task :: "string \<Rightarrow> string \<Rightarrow> task_table \<Rightarrow> (task_error, agent_task) result" where
  "get_task task_id owner db = checked
     [(key_ok task_id, Invalid ''task_id''), (key_ok owner, Invalid ''owner'')]
     (case fetchone (owned_by task_id owner) db of
        None \<Rightarrow> Inl (KeyErr task_id)
      | Some row \<Rightarrow> task_from_row row)"

definition list_tasks :: "string \<Rightarrow> string \<Rightarrow> int \<Rightarrow> task_table \<Rightarrow> (task_error, agent_task list) result" where
  "list_tasks owner session_id limit db = checked
     [(key_ok owner, Invalid ''owner''), (key_ok session_id, Invalid ''session_id''),
      (limit_ok limit, Invalid ''limit'')]
     (tasks_from_rows (take (nat limit)
        (sort_key (\<lambda>r. (timestamp (t_created_at (row_task r)), row_id r))
          (filter (\<lambda>r. t_owner (row_task r) = owner \<and> t_session_id (row_task r) = session_id) db))))"

definition unleased :: "datetime \<Rightarrow> task_row \<Rightarrow> bool" where
  \<comment> \<open>\<open>lease_owner IS NULL OR lease_expires_at <= now\<close>\<close>
  "unleased now r \<longleftrightarrow> t_lease_owner (row_task r) = None \<or>
     (case t_lease_expires_at (row_task r) of None \<Rightarrow> False | Some e \<Rightarrow> sql_upto e now)"

definition list_recoverable_tasks :: "datetime \<Rightarrow> int \<Rightarrow> task_table \<Rightarrow> (task_error, agent_task list) result" where
  "list_recoverable_tasks now limit db = checked [(limit_ok limit, Invalid ''limit'')]
     (tasks_from_rows (take (nat limit)
        (sort_key (\<lambda>r. (timestamp (t_created_at (row_task r)), row_id r))
          (filter (\<lambda>r. (row_state r = Task_PENDING \<and> sql_after (row_envelope_expires_at r) now) \<or>
                       (row_state r = Task_RUNNING \<and> unleased now r)) db))))"

definition outbox_state :: "task_state \<Rightarrow> bool" where
  "outbox_state s \<longleftrightarrow>
     s = Task_SUCCEEDED \<or> s = Task_FAILED \<or> s = Task_CANCELLED \<or> s = Task_AUTH_REQUIRED"

definition list_ready_outbox_pending :: "int \<Rightarrow> task_table \<Rightarrow> (task_error, agent_task list) result" where
  "list_ready_outbox_pending limit db = checked [(limit_ok limit, Invalid ''limit'')]
     (tasks_from_rows (take (nat limit)
        (sort_key (\<lambda>r. (timestamp (t_updated_at (row_task r)), row_id r))
          (filter (\<lambda>r. row_ready_outbox_pending r \<and> outbox_state (row_state r)) db))))"

section \<open>Claiming, renewing and releasing\<close>

text \<open>Each \<open>UPDATE\<close> is a condition on a row and a change of it.\<close>

definition claimable :: "datetime \<Rightarrow> string \<Rightarrow> string \<Rightarrow> task_row \<Rightarrow> bool" where
  "claimable now task_id owner r \<longleftrightarrow> owned_by task_id owner r \<and>
     ((row_state r = Task_PENDING \<and> \<not> t_cancel_requested (row_task r) \<and>
         sql_after (row_envelope_expires_at r) now) \<or>
      (row_state r = Task_RUNNING \<and> unleased now r))"

definition upd_claim :: "string \<Rightarrow> datetime \<Rightarrow> datetime \<Rightarrow> task_row \<Rightarrow> task_row" where
  "upd_claim worker_id expires now r = r\<lparr>
     row_task := (row_task r)\<lparr>t_state := Task_RUNNING, t_lease_owner := Some worker_id,
       t_lease_expires_at := Some expires, t_fencing_token := t_fencing_token (row_task r) + 1,
       t_version := t_version (row_task r) + 1, t_updated_at := now\<rparr>,
     row_heartbeat_at := Some now\<rparr>"

definition claim_task ::
    "datetime \<Rightarrow> string \<Rightarrow> string \<Rightarrow> string \<Rightarrow> int \<Rightarrow> task_table
      \<Rightarrow> (task_error, task_lease option) result \<times> task_table" where
  "claim_task now task_id owner worker_id lease_seconds db =
     (case first_failure
        [(key_ok task_id, Invalid ''task_id''), (key_ok owner, Invalid ''owner''),
         (key_ok worker_id, Invalid ''worker_id''), (lease_seconds_ok lease_seconds, Invalid ''lease_seconds''),
         (add_seconds (nat lease_seconds) now \<noteq> None, OverflowErr)] of
        Some e \<Rightarrow> (Inl e, db)
      | None \<Rightarrow>
          let expires = the (add_seconds (nat lease_seconds) now) in
          (case fetchone (claimable now task_id owner) db of
             None \<Rightarrow>
               (if fetchone (owned_by task_id owner) db = None then Inl (KeyErr task_id) else Inr None, db)
           | Some row \<Rightarrow>
               let row' = upd_claim worker_id expires now row in
               (bind_res (lease_post_init
                   \<lparr>tl_task_id = task_id, tl_owner = owner, tl_worker_id = worker_id,
                    tl_version = t_version (row_task row'),
                    tl_fencing_token = t_fencing_token (row_task row'), tl_expires_at = expires\<rparr>)
                  (\<lambda>l. Inr (Some l)),
                sql_update (claimable now task_id owner) (upd_claim worker_id expires now) db)))"

definition lease_row :: "datetime \<Rightarrow> task_lease \<Rightarrow> task_row \<Rightarrow> bool" where
  \<comment> \<open>the condition of \<open>_assert_lease\<close> and \<open>renew_task\<close>\<close>
  "lease_row now l r \<longleftrightarrow> owned_by (tl_task_id l) (tl_owner l) r \<and> row_state r = Task_RUNNING \<and>
     t_lease_owner (row_task r) = Some (tl_worker_id l) \<and>
     (case t_lease_expires_at (row_task r) of None \<Rightarrow> False | Some e \<Rightarrow> sql_after e now) \<and>
     t_version (row_task r) = tl_version l \<and> t_fencing_token (row_task r) = tl_fencing_token l"

definition assert_lease :: "datetime \<Rightarrow> task_lease \<Rightarrow> task_table \<Rightarrow> (task_error, task_row) result" where
  "assert_lease now l db =
     (case fetchone (lease_row now l) db of
        None \<Rightarrow> Inl (TaskConflict C_lease_stale)
      | Some row \<Rightarrow> Inr row)"

definition upd_renew :: "datetime \<Rightarrow> datetime \<Rightarrow> task_row \<Rightarrow> task_row" where
  "upd_renew expires now r = r\<lparr>
     row_task := (row_task r)\<lparr>t_lease_expires_at := Some expires, t_updated_at := now\<rparr>,
     row_heartbeat_at := Some now\<rparr>"

definition renew_task ::
    "datetime \<Rightarrow> task_lease \<Rightarrow> int \<Rightarrow> task_table \<Rightarrow> (task_error, task_lease) result \<times> task_table" where
  "renew_task now l lease_seconds db =
     (case first_failure
        [(lease_seconds_ok lease_seconds, Invalid ''lease_seconds''),
         (add_seconds (nat lease_seconds) now \<noteq> None, OverflowErr)] of
        Some e \<Rightarrow> (Inl e, db)
      | None \<Rightarrow>
          let expires = the (add_seconds (nat lease_seconds) now) in
          if rowcount (lease_row now l) db \<noteq> 1 then (Inl (TaskConflict C_renewal_stale), db)
          else (lease_post_init (l\<lparr>tl_expires_at := expires\<rparr>),
                sql_update (lease_row now l) (upd_renew expires now) db))"

definition held_by :: "task_lease \<Rightarrow> task_row \<Rightarrow> bool" where
  \<comment> \<open>\<open>WHERE task_id = ? AND owner = ? AND state = 'running' AND version = ? AND fencing_token = ?\<close>\<close>
  "held_by l r \<longleftrightarrow> owned_by (tl_task_id l) (tl_owner l) r \<and> row_state r = Task_RUNNING \<and>
     t_version (row_task r) = tl_version l \<and> t_fencing_token (row_task r) = tl_fencing_token l"

definition upd_release :: "datetime \<Rightarrow> task_row \<Rightarrow> task_row" where
  "upd_release now r = r\<lparr>
     row_task := (row_task r)\<lparr>t_lease_owner := None, t_lease_expires_at := None, t_updated_at := now\<rparr>\<rparr>"

text \<open>\<open>UPDATE \<dots> RETURNING *\<close>, the row decoded after the commit; no row is a conflict.\<close>

definition commit_returning ::
    "(task_row \<Rightarrow> bool) \<Rightarrow> (task_row \<Rightarrow> task_row) \<Rightarrow> conflict_reason \<Rightarrow> task_table
      \<Rightarrow> (task_error, agent_task) result \<times> task_table" where
  "commit_returning p f reason db =
     (case fetchone p db of
        None \<Rightarrow> (Inl (TaskConflict reason), db)
      | Some row \<Rightarrow> (task_from_row (f row), sql_update p f db))"

definition release_task :: "datetime \<Rightarrow> task_lease \<Rightarrow> task_table \<Rightarrow> (task_error, agent_task) result \<times> task_table" where
  "release_task now l db =
     (case ensure (is_instance lease_post_init l) (TypeErr ''lease'') (assert_lease now l db) of
        Inl e \<Rightarrow> (Inl e, db)
      | Inr _ \<Rightarrow>
          commit_returning (\<lambda>r. held_by l r \<and> t_lease_owner (row_task r) = Some (tl_worker_id l))
            (upd_release now) C_release_fenced db)"

section \<open>Linking the Run\<close>

definition upd_link :: "string \<Rightarrow> datetime \<Rightarrow> task_row \<Rightarrow> task_row" where
  "upd_link run_id now r = r\<lparr>
     row_task := (row_task r)\<lparr>t_linked_run_id := Some run_id, t_updated_at := now\<rparr>\<rparr>"

definition run_linked_elsewhere :: "string \<Rightarrow> string \<Rightarrow> task_table \<Rightarrow> bool" where
  \<comment> \<open>the unique index \<open>uq_agent_tasks_linked_run\<close>\<close>
  "run_linked_elsewhere task_id run_id db \<longleftrightarrow>
     (\<exists>r \<in> set db. row_id r \<noteq> task_id \<and> t_linked_run_id (row_task r) = Some run_id)"

definition link_where :: "task_lease \<Rightarrow> task_row \<Rightarrow> bool" where
  "link_where l r \<longleftrightarrow> owned_by (tl_task_id l) (tl_owner l) r \<and>
     t_version (row_task r) = tl_version l \<and> t_fencing_token (row_task r) = tl_fencing_token l \<and>
     t_linked_run_id (row_task r) = None"

definition link_run ::
    "datetime \<Rightarrow> string \<Rightarrow> task_lease \<Rightarrow> string \<Rightarrow> task_table
      \<Rightarrow> (task_error, agent_task) result \<times> task_table" where
  "link_run now task_id l run_id db =
     (case first_failure
        [(key_ok task_id, Invalid ''task_id''), (key_ok run_id, Invalid ''run_id''),
         (task_id = tl_task_id l, TaskConflict C_lease_binding)] of
        Some e \<Rightarrow> (Inl e, db)
      | None \<Rightarrow>
          (case assert_lease now l db of
             Inl e \<Rightarrow> (Inl e, db)
           | Inr row \<Rightarrow>
               (case t_linked_run_id (row_task row) of
                  Some existing \<Rightarrow>
                    (if existing \<noteq> run_id then Inl (TaskConflict C_links_another_run)
                     else task_from_row row, db)
                | None \<Rightarrow>
                    if run_linked_elsewhere task_id run_id db
                    then (Inl (TaskConflict C_run_linked_elsewhere), db)
                    else commit_returning (link_where l) (upd_link run_id now) C_link_fenced db)))"

section \<open>Operation identities\<close>

definition stage_key :: "(string \<Rightarrow> string) \<Rightarrow> string option \<Rightarrow> string option \<Rightarrow> (task_error, string option) result" where
  "stage_key sha value payload =
     (case value of
        None \<Rightarrow> Inr (map_option sha payload)
      | Some v \<Rightarrow> ensure (key_ok v) (Invalid ''stage_operation_key'') (Inr (Some v)))"

definition root_key :: "(string \<Rightarrow> string) \<Rightarrow> string option \<Rightarrow> string \<Rightarrow> (task_error, string) result" where
  "root_key sha value task_id =
     (case value of
        None \<Rightarrow> Inr (sha (''causation'' @ [CHR 0x00] @ task_id))
      | Some v \<Rightarrow> ensure (key_ok v) (Invalid ''causation_root_key'') (Inr v))"

datatype receipt = No_Receipt | Schedule schedule_receipt | Gate gate_receipt

definition receipt_instance :: "receipt \<Rightarrow> bool" where
  "receipt_instance receipt =
     (case receipt of No_Receipt \<Rightarrow> True
      | Schedule r \<Rightarrow> is_instance schedule_receipt_post_init r
      | Gate r \<Rightarrow> is_instance gate_receipt_post_init r)"

fun submit_gate_state :: "string \<Rightarrow> gate_state option" where
  "submit_gate_state s =
     (if s = ''admitted'' then Some Gate_ADMITTED
      else if s = ''submitting'' then Some Gate_SUBMITTING
      else if s = ''pending'' \<or> s = ''submitted'' \<or> s = ''submission_uncertain'' then Some Gate_PENDING
      else None)"

definition validate_schedule_identity ::
    "(string \<Rightarrow> string) \<Rightarrow> agent_task \<Rightarrow> schedule_receipt \<Rightarrow> completion_policy \<Rightarrow> gate_state
      \<Rightarrow> (task_error, unit) result" where
  "validate_schedule_identity sha t r policy gs = checked
     [(sr_owner r \<noteq> None \<and> sr_session_id r \<noteq> None \<and> sr_originating_turn_id r \<noteq> None \<and>
       sr_request_digest r \<noteq> None \<and> sr_idempotency_key r \<noteq> None \<and>
       sr_resource_envelope_id r \<noteq> None \<and> sr_workspace_digest r \<noteq> None \<and> sr_created_at r \<noteq> None,
       TaskConflict C_schedule_incomplete),
      (submit_gate_state (sr_submit_state r) \<noteq> None, KeyErr (sr_submit_state r)),
      (sr_task_id r = t_task_id t \<and> sr_owner r = Some (t_owner t) \<and>
       sr_session_id r = Some (t_session_id t) \<and> sr_originating_turn_id r = Some (t_turn_id t) \<and>
       sr_completion_policy r = policy \<and>
       sr_request_digest r = Some (sha (dumps (request_payload (t_request t)))) \<and>
       sr_idempotency_key r = Some (t_request_key t) \<and>
       sr_resource_envelope_id r = Some (sha (dumps (envelope_payload (t_envelope t)))) \<and>
       sr_workspace_digest r = Some (req_workspace_snapshot_digest (t_request t)) \<and>
       sr_workspace_revision r = None \<and> sr_legacy_boundary r = Some True \<and>
       submit_gate_state (sr_submit_state r) = Some gs, TaskConflict C_schedule_identity),
      (t_linked_run_id t = None \<or> t_linked_run_id t = Some (sr_run_id r), TaskConflict C_schedule_run)]
     (Inr ())"

definition validate_gate_identity ::
    "agent_task \<Rightarrow> gate_receipt \<Rightarrow> completion_policy \<Rightarrow> gate_state \<Rightarrow> (task_error, unit) result" where
  "validate_gate_identity t r policy gs = checked
     [(gr_task_id r = t_task_id t, TaskConflict C_gate_identity),
      (t_linked_run_id t = Some (gr_run_id r), TaskConflict C_gate_run),
      (gs = Gate_AWAITING_INTEGRITY \<or> gs = Gate_AWAITING_CAPSULE, TaskConflict C_gate_state_mismatch),
      (\<not> requires_capsule policy \<or> gr_capsule_state r = ''READY'' \<and> gr_capsule_ref r \<noteq> None,
         TaskConflict C_capsule_policy),
      (requires_capsule policy \<or> gs \<noteq> Gate_AWAITING_CAPSULE, TaskConflict C_capsule_gate_policy)]
     (Inr ())"

definition validate_receipt_identity ::
    "(string \<Rightarrow> string) \<Rightarrow> agent_task \<Rightarrow> receipt \<Rightarrow> completion_policy \<Rightarrow> gate_state
      \<Rightarrow> (task_error, unit) result" where
  "validate_receipt_identity sha t receipt policy gs =
     (case receipt of
        No_Receipt \<Rightarrow> Inr ()
      | Schedule r \<Rightarrow> validate_schedule_identity sha t r policy gs
      | Gate r \<Rightarrow> validate_gate_identity t r policy gs)"

section \<open>Advancing the gate\<close>

definition receipt_text :: "receipt \<Rightarrow> (task_error, string option) result" where
  "receipt_text receipt =
     (case receipt of
        No_Receipt \<Rightarrow> Inr None
      | Schedule r \<Rightarrow> bind_res (schedule_receipt_payload r) (\<lambda>j. Inr (Some (dumps j)))
      | Gate r \<Rightarrow> Inr (Some (dumps (gate_receipt_payload r))))"

definition with_receipt :: "agent_task \<Rightarrow> completion_policy \<Rightarrow> gate_state \<Rightarrow> receipt \<Rightarrow> agent_task" where
  \<comment> \<open>the \<open>replace(current, \<dots>)\<close> that validates the candidate record\<close>
  "with_receipt t policy gs receipt = t\<lparr>
     t_completion_policy := policy, t_gate_state := gs,
     t_schedule_receipt := (case receipt of Schedule r \<Rightarrow> Some r | _ \<Rightarrow> t_schedule_receipt t),
     t_gate_receipt := (case receipt of Gate r \<Rightarrow> Some r | _ \<Rightarrow> t_gate_receipt t)\<rparr>"

datatype gate_decision = Refuse task_error | Replay | Proceed

definition receipt_replay :: "task_row \<Rightarrow> agent_task \<Rightarrow> receipt \<Rightarrow> gate_state \<Rightarrow> string option \<Rightarrow> gate_decision" where
  "receipt_replay row t receipt gs stage =
     (case receipt of
        No_Receipt \<Rightarrow> Proceed
      | Schedule r \<Rightarrow>
          (case t_schedule_receipt t of
             None \<Rightarrow> Proceed
           | Some stored \<Rightarrow>
               if row_schedule_operation_key row \<noteq> stage then Refuse (TaskConflict C_schedule_stage)
               else if stored \<noteq> r then Refuse (TaskConflict C_schedule_immutable)
               else if gs = t_gate_state t then Replay else Proceed)
      | Gate r \<Rightarrow>
          (case t_gate_receipt t of
             None \<Rightarrow> Proceed
           | Some stored \<Rightarrow>
               if row_gate_operation_key row \<noteq> stage then Refuse (TaskConflict C_gate_stage)
               else if stored = r \<and> gs = t_gate_state t then Replay
               else if stored \<noteq> r then Refuse (TaskConflict C_gate_immutable)
               else Proceed))"

definition advance_checks ::
    "task_row \<Rightarrow> agent_task \<Rightarrow> gate_state \<Rightarrow> completion_policy \<Rightarrow> string \<Rightarrow> (bool \<times> task_error) list" where
  "advance_checks row t gs policy root =
     [(t_gate_state t \<noteq> Gate_INPUT_REQUIRED, TaskConflict C_input_required_current),
      (row_causation_root_key row = None \<or> row_causation_root_key row = Some root, TaskConflict C_causation_root),
      (opt_ok (\<lambda>r. sr_completion_policy r = policy) (t_schedule_receipt t), TaskConflict C_schedule_policy),
      (t_gate_receipt t = None \<or> t_completion_policy t = policy, TaskConflict C_gate_policy),
      (\<not> the (gate_rank gs) < the (gate_rank (t_gate_state t)), TaskConflict C_not_monotonic)]"

definition advance_decide ::
    "(string \<Rightarrow> string) \<Rightarrow> task_row \<Rightarrow> agent_task \<Rightarrow> gate_state \<Rightarrow> receipt \<Rightarrow> completion_policy
      \<Rightarrow> string \<Rightarrow> string option \<Rightarrow> gate_decision" where
  "advance_decide sha row t gs receipt policy root stage =
     (case first_failure (advance_checks row t gs policy root) of
        Some e \<Rightarrow> Refuse e
      | None \<Rightarrow>
          (case validate_receipt_identity sha t receipt policy gs of
             Inl e \<Rightarrow> Refuse e
           | Inr _ \<Rightarrow>
               (case receipt_replay row t receipt gs stage of
                  Refuse e \<Rightarrow> Refuse e
                | Replay \<Rightarrow> Replay
                | Proceed \<Rightarrow>
                    (case task_post_init (with_receipt t policy gs receipt) of
                       Inl e \<Rightarrow> Refuse e
                     | Inr _ \<Rightarrow> Proceed))))"

definition upd_advance ::
    "datetime \<Rightarrow> gate_state \<Rightarrow> receipt \<Rightarrow> completion_policy \<Rightarrow> string \<Rightarrow> string option \<Rightarrow> task_row \<Rightarrow> task_row" where
  "upd_advance now gs receipt policy root stage r =
     (let t = row_task r;
          gate = (case receipt of Gate g \<Rightarrow> Some g | _ \<Rightarrow> None);
          key = (if receipt = No_Receipt then None else stage)
      in r\<lparr>
       row_task := t\<lparr>t_completion_policy := policy, t_gate_state := gs,
         t_schedule_receipt := (case receipt of Schedule x \<Rightarrow> Some x | _ \<Rightarrow> t_schedule_receipt t),
         t_gate_receipt := coalesce gate (t_gate_receipt t),
         t_legacy_gate_unverified := (if gate \<noteq> None then False else t_legacy_gate_unverified t),
         t_version := t_version t + 1, t_updated_at := now\<rparr>,
       row_schedule_receipt_ref :=
         coalesce (case receipt of Schedule x \<Rightarrow> sr_receipt_id x | _ \<Rightarrow> None) (row_schedule_receipt_ref r),
       row_durable_operation_key := coalesce key (row_durable_operation_key r),
       row_causation_root_key := Some root,
       row_schedule_operation_key :=
         (case receipt of Schedule x \<Rightarrow> coalesce stage (row_schedule_operation_key r) | _ \<Rightarrow> row_schedule_operation_key r),
       row_gate_operation_key :=
         (case receipt of Gate x \<Rightarrow> coalesce stage (row_gate_operation_key r) | _ \<Rightarrow> row_gate_operation_key r),
       row_evidence_refs := (case gate of Some g \<Rightarrow> gr_evidence_refs g | None \<Rightarrow> row_evidence_refs r),
       row_evidence_digest := coalesce (map_option gr_evidence_digest gate) (row_evidence_digest r),
       row_integrity_checked_at :=
         coalesce (map_option gr_integrity_verified_at gate) (row_integrity_checked_at r),
       row_capsule_ref := coalesce (Option.bind gate gr_capsule_ref) (row_capsule_ref r),
       \<comment> \<open>the local variable \<open>capsule_state\<close> is \<open>''not_required''\<close> unless a gate receipt is given, so
           the \<open>COALESCE\<close> never keeps the stored value\<close>
       row_capsule_state := (case gate of Some g \<Rightarrow> gr_capsule_state g | None \<Rightarrow> ''not_required''),
       row_heartbeat_at := Some now\<rparr>)"

definition advance_gate ::
    "(string \<Rightarrow> string) \<Rightarrow> datetime \<Rightarrow> string \<Rightarrow> task_lease \<Rightarrow> gate_state \<Rightarrow> receipt
      \<Rightarrow> completion_policy option \<Rightarrow> string option \<Rightarrow> string option \<Rightarrow> task_table
      \<Rightarrow> (task_error, agent_task) result \<times> task_table" where
  "advance_gate sha now task_id l gs receipt policy root stage db =
     (case first_failure
        [(key_ok task_id, Invalid ''task_id''),
         (task_id = tl_task_id l, TaskConflict C_lease_binding),
         (gs \<noteq> Gate_COMPLETED, TaskConflict C_completed_reserved),
         (gs \<noteq> Gate_INPUT_REQUIRED, TaskConflict C_input_required_target),
         (receipt_instance receipt, TypeErr ''receipt'')] of
        Some e \<Rightarrow> (Inl e, db)
      | None \<Rightarrow>
          (case bind_res (receipt_text receipt) (\<lambda>text.
                bind_res (stage_key sha stage text) (\<lambda>s.
                bind_res (root_key sha root task_id) (\<lambda>rt. Inr (s, rt)))) of
             Inl e \<Rightarrow> (Inl e, db)
           | Inr (s, rt) \<Rightarrow>
               (case bind_res (assert_lease now l db) (\<lambda>row.
                     bind_res (task_from_row row) (\<lambda>t. Inr (row, t))) of
                  Inl e \<Rightarrow> (Inl e, db)
                | Inr (row, t) \<Rightarrow>
                    let target = (case policy of Some p \<Rightarrow> p | None \<Rightarrow> t_completion_policy t) in
                    (case advance_decide sha row t gs receipt target rt s of
                       Refuse e \<Rightarrow> (Inl e, db)
                     | Replay \<Rightarrow> (Inr t, db)
                     | Proceed \<Rightarrow>
                         commit_returning (held_by l) (upd_advance now gs receipt target rt s)
                           C_gate_fenced db))))"

section \<open>Finalizing and completing\<close>

fun status_state :: "string \<Rightarrow> task_state option" where
  \<comment> \<open>\<open>AgentTaskState(status)\<close>\<close>
  "status_state s =
     (if s = ''pending'' then Some Task_PENDING
      else if s = ''running'' then Some Task_RUNNING
      else if s = ''succeeded'' then Some Task_SUCCEEDED
      else if s = ''failed'' then Some Task_FAILED
      else if s = ''cancelled'' then Some Task_CANCELLED
      else if s = ''auth_required'' then Some Task_AUTH_REQUIRED
      else None)"

fun gate_state_for_result :: "task_state \<Rightarrow> gate_state" where
  "gate_state_for_result Task_CANCELLED = Gate_CANCELLED"
| "gate_state_for_result Task_AUTH_REQUIRED = Gate_INPUT_REQUIRED"
| "gate_state_for_result Task_FAILED = Gate_FAILED"
| "gate_state_for_result _ = Gate_BLOCKED"

definition terminal_identity ::
    "task_row \<Rightarrow> agent_task \<Rightarrow> gate_receipt option \<Rightarrow> task_result \<Rightarrow> string \<Rightarrow> string option \<Rightarrow> bool" where
  "terminal_identity row t gate res root stage \<longleftrightarrow>
     gate \<noteq> None \<and> t_result t = Some res \<and> t_gate_receipt t = gate \<and>
     row_causation_root_key row = Some root \<and> row_gate_operation_key row = stage"

definition finalize_checks ::
    "task_row \<Rightarrow> agent_task \<Rightarrow> gate_receipt option \<Rightarrow> task_result \<Rightarrow> string \<Rightarrow> string option
      \<Rightarrow> (bool \<times> task_error) list" where
  "finalize_checks row t gate res root stage =
     [(row_causation_root_key row = None \<or> row_causation_root_key row = Some root, TaskConflict C_causation_root),
      (row_gate_operation_key row = None \<or> row_gate_operation_key row = stage, TaskConflict C_gate_stage),
      (res_status res \<noteq> ''succeeded'' \<or> gate \<noteq> None, TaskConflict C_needs_gate_receipt)]
     @ (case gate of None \<Rightarrow> [] | Some g \<Rightarrow>
         [(gr_task_id g = t_task_id t, TaskConflict C_gate_identity),
          (t_linked_run_id t = Some (gr_run_id g), TaskConflict C_gate_run),
          (t_gate_receipt t = None \<or> t_gate_receipt t = Some g, TaskConflict C_gate_immutable),
          (res_evidence_refs res = gr_evidence_refs g, TaskConflict C_evidence_refs),
          (res_status res \<noteq> ''succeeded'' \<or> gr_run_terminal_state g = ''completed'', TaskConflict C_run_not_completed),
          (\<not> requires_capsule (t_completion_policy t) \<or>
             gr_capsule_state g = ''READY'' \<and> gr_capsule_ref g \<noteq> None, TaskConflict C_capsule_not_ready)])"

definition upd_finalize ::
    "datetime \<Rightarrow> task_state \<Rightarrow> task_result \<Rightarrow> gate_receipt option \<Rightarrow> string \<Rightarrow> string option \<Rightarrow> task_row \<Rightarrow> task_row" where
  "upd_finalize now target res gate root stage r =
     (let t = row_task r; key = (if gate \<noteq> None then stage else None) in r\<lparr>
       row_task := t\<lparr>t_state := target, t_result := Some res,
         t_gate_state := (if res_status res = ''succeeded'' then Gate_COMPLETED else gate_state_for_result target),
         t_gate_receipt := coalesce gate (t_gate_receipt t),
         t_legacy_gate_unverified := (if gate \<noteq> None then False else t_legacy_gate_unverified t),
         t_version := t_version t + 1, t_lease_owner := None, t_lease_expires_at := None,
         t_updated_at := now\<rparr>,
       row_evidence_refs := (case gate of Some g \<Rightarrow> gr_evidence_refs g | None \<Rightarrow> res_evidence_refs res),
       row_durable_operation_key := coalesce key (row_durable_operation_key r),
       row_causation_root_key := Some root,
       row_gate_operation_key := coalesce key (row_gate_operation_key r),
       row_evidence_digest := coalesce (map_option gr_evidence_digest gate) (row_evidence_digest r),
       row_integrity_checked_at :=
         coalesce (map_option gr_integrity_verified_at gate) (row_integrity_checked_at r),
       row_capsule_ref := coalesce (Option.bind gate gr_capsule_ref) (row_capsule_ref r),
       row_capsule_state := (case gate of Some g \<Rightarrow> gr_capsule_state g | None \<Rightarrow> ''not_required''),
       row_ready_outbox_pending := True,
       row_heartbeat_at := Some now\<rparr>)"

definition finalize_task ::
    "(string \<Rightarrow> string) \<Rightarrow> datetime \<Rightarrow> string \<Rightarrow> task_lease \<Rightarrow> gate_receipt option \<Rightarrow> task_result
      \<Rightarrow> string option \<Rightarrow> string option \<Rightarrow> task_table \<Rightarrow> (task_error, agent_task) result \<times> task_table" where
  "finalize_task sha now task_id l gate res root stage db =
     (case first_failure
        [(key_ok task_id, Invalid ''task_id''), (task_id = tl_task_id l, TaskConflict C_lease_binding),
         (is_instance result_post_init res, TypeErr ''result''),
         (opt_ok (is_instance gate_receipt_post_init) gate, TypeErr ''gate_receipt'')] of
        Some e \<Rightarrow> (Inl e, db)
      | None \<Rightarrow>
          (case bind_res (stage_key sha stage (map_option (dumps \<circ> gate_receipt_payload) gate)) (\<lambda>s.
                bind_res (root_key sha root task_id) (\<lambda>rt. Inr (s, rt))) of
             Inl e \<Rightarrow> (Inl e, db)
           | Inr (s, rt) \<Rightarrow>
               (case fetchone (owned_by task_id (tl_owner l)) db of
                  None \<Rightarrow> (Inl (KeyErr task_id), db)
                | Some row \<Rightarrow>
                    (case task_from_row row of
                       Inl e \<Rightarrow> (Inl e, db)
                     | Inr t \<Rightarrow>
                         if terminal_task_state (t_state t) then
                           (if terminal_identity row t gate res rt s then Inr t
                            else Inl (TaskConflict C_terminal_identity), db)
                         else
                           (case assert_lease now l db of
                              Inl e \<Rightarrow> (Inl e, db)
                            | Inr _ \<Rightarrow>
                                (case first_failure (finalize_checks row t gate res rt s) of
                                   Some e \<Rightarrow> (Inl e, db)
                                 | None \<Rightarrow>
                                     (case status_state (res_status res) of
                                        None \<Rightarrow> (Inl (Invalid ''status''), db)
                                      | Some target \<Rightarrow>
                                          commit_returning (held_by l)
                                            (upd_finalize now target res gate rt s)
                                            C_finalization_fenced db)))))))"

definition upd_complete :: "datetime \<Rightarrow> task_state \<Rightarrow> task_result \<Rightarrow> task_row \<Rightarrow> task_row" where
  "upd_complete now target res r = r\<lparr>
     row_task := (row_task r)\<lparr>t_state := target, t_result := Some res,
       t_version := t_version (row_task r) + 1, t_lease_owner := None, t_lease_expires_at := None,
       t_updated_at := now\<rparr>,
     row_ready_outbox_pending := True\<rparr>"

definition complete_task ::
    "(string \<Rightarrow> string) \<Rightarrow> datetime \<Rightarrow> string \<Rightarrow> task_lease \<Rightarrow> task_result \<Rightarrow> task_table
      \<Rightarrow> (task_error, agent_task) result \<times> task_table" where
  "complete_task sha now task_id l res db =
     (case first_failure
        [(key_ok task_id, Invalid ''task_id''), (task_id = tl_task_id l, TaskConflict C_lease_binding),
         (is_instance result_post_init res, TypeErr ''result''),
         (status_state (res_status res) \<noteq> None, Invalid ''status'')] of
        Some e \<Rightarrow> (Inl e, db)
      | None \<Rightarrow>
          let target = the (status_state (res_status res)) in
          if res_status res = ''succeeded'' then
            (case get_task task_id (tl_owner l) db of
               Inl e \<Rightarrow> (Inl e, db)
             | Inr current \<Rightarrow>
                 (case t_gate_receipt current of
                    None \<Rightarrow> (Inl (TaskConflict C_needs_gate_receipt), db)
                  | Some g \<Rightarrow> finalize_task sha now task_id l (Some g) res None None db))
          else
            (case fetchone (owned_by task_id (tl_owner l)) db of
               None \<Rightarrow> (Inl (KeyErr task_id), db)
             | Some row \<Rightarrow>
                 (case task_from_row row of
                    Inl e \<Rightarrow> (Inl e, db)
                  | Inr current \<Rightarrow>
                      if terminal_task_state (t_state current) \<or> t_state current = Task_AUTH_REQUIRED then
                        (if t_result current = Some res \<and> t_fencing_token current = tl_fencing_token l
                         then Inr current else Inl (TaskConflict C_terminal_replay), db)
                      else
                        (case assert_lease now l db of
                           Inl e \<Rightarrow> (Inl e, db)
                         | Inr _ \<Rightarrow>
                             commit_returning (held_by l) (upd_complete now target res)
                               C_completion_fenced db))))"

section \<open>Cancelling, resuming and the ready outbox\<close>

definition version_ok :: "int \<Rightarrow> bool" where
  "version_ok v \<longleftrightarrow> 0 \<le> v"

definition upd_cancel_pending :: "datetime \<Rightarrow> task_result \<Rightarrow> task_row \<Rightarrow> task_row" where
  "upd_cancel_pending now res r = r\<lparr>
     row_task := (row_task r)\<lparr>t_state := Task_CANCELLED, t_cancel_requested := True, t_result := Some res,
       t_version := t_version (row_task r) + 1, t_lease_owner := None, t_lease_expires_at := None,
       t_updated_at := now\<rparr>,
     row_ready_outbox_pending := True\<rparr>"

definition upd_cancel_running :: "datetime \<Rightarrow> task_row \<Rightarrow> task_row" where
  "upd_cancel_running now r = r\<lparr>
     row_task := (row_task r)\<lparr>t_cancel_requested := True, t_updated_at := now\<rparr>\<rparr>"

definition cancel_pending_where :: "string \<Rightarrow> string \<Rightarrow> int \<Rightarrow> task_row \<Rightarrow> bool" where
  "cancel_pending_where task_id owner v r \<longleftrightarrow> owned_by task_id owner r \<and> t_version (row_task r) = v"

definition cancel_running_where :: "string \<Rightarrow> string \<Rightarrow> int \<Rightarrow> task_row \<Rightarrow> bool" where
  "cancel_running_where task_id owner v r \<longleftrightarrow>
     owned_by task_id owner r \<and> row_state r = Task_RUNNING \<and> t_version (row_task r) = v"

definition request_cancel ::
    "datetime \<Rightarrow> string \<Rightarrow> string \<Rightarrow> int \<Rightarrow> task_table \<Rightarrow> (task_error, agent_task) result \<times> task_table" where
  "request_cancel now task_id owner expected_version db =
     (case first_failure
        [(key_ok task_id, Invalid ''task_id''), (key_ok owner, Invalid ''owner''),
         (version_ok expected_version, Invalid ''expected_version'')] of
        Some e \<Rightarrow> (Inl e, db)
      | None \<Rightarrow>
          (case fetchone (owned_by task_id owner) db of
             None \<Rightarrow> (Inl (KeyErr task_id), db)
           | Some row \<Rightarrow>
               (case task_from_row row of
                  Inl e \<Rightarrow> (Inl e, db)
                | Inr current \<Rightarrow>
                    if terminal_task_state (t_state current) then
                      (if t_state current = Task_CANCELLED then Inr current
                       else Inl (TaskConflict C_cancel_terminal), db)
                    else if t_cancel_requested current then (Inr current, db)
                    else if t_version current \<noteq> expected_version then (Inl (TaskConflict C_cancel_stale), db)
                    else if t_state current = Task_PENDING \<or> t_state current = Task_AUTH_REQUIRED then
                      (case result_cancelled (Some ''cancelled before execution'') of
                         Inl e \<Rightarrow> (Inl e, db)
                       | Inr res \<Rightarrow>
                           commit_returning (cancel_pending_where task_id owner expected_version)
                             (upd_cancel_pending now res) C_cancel_fenced db)
                    else
                      commit_returning (cancel_running_where task_id owner expected_version)
                        (upd_cancel_running now) C_cancel_fenced db)))"

definition resumable :: "string \<Rightarrow> string \<Rightarrow> int \<Rightarrow> task_row \<Rightarrow> bool" where
  "resumable task_id owner v r \<longleftrightarrow> owned_by task_id owner r \<and> row_state r = Task_AUTH_REQUIRED \<and>
     \<not> t_cancel_requested (row_task r) \<and> t_version (row_task r) = v"

definition upd_resume :: "datetime \<Rightarrow> task_row \<Rightarrow> task_row" where
  "upd_resume now r = r\<lparr>
     row_task := (row_task r)\<lparr>t_state := Task_PENDING, t_result := None,
       t_version := t_version (row_task r) + 1, t_updated_at := now\<rparr>,
     row_ready_outbox_pending := False\<rparr>"

definition resume_after_auth ::
    "datetime \<Rightarrow> string \<Rightarrow> string \<Rightarrow> int \<Rightarrow> task_table \<Rightarrow> (task_error, agent_task) result \<times> task_table" where
  "resume_after_auth now task_id owner expected_version db =
     (case first_failure
        [(key_ok task_id, Invalid ''task_id''), (key_ok owner, Invalid ''owner''),
         (version_ok expected_version, Invalid ''expected_version'')] of
        Some e \<Rightarrow> (Inl e, db)
      | None \<Rightarrow>
          if fetchone (resumable task_id owner expected_version) db = None then
            (if fetchone (owned_by task_id owner) db = None then Inl (KeyErr task_id)
             else Inl (TaskConflict C_resume_invalid), db)
          else commit_returning (resumable task_id owner expected_version) (upd_resume now)
                 C_resume_invalid db)"

definition materializable :: "string \<Rightarrow> string \<Rightarrow> int \<Rightarrow> task_row \<Rightarrow> bool" where
  "materializable task_id owner v r \<longleftrightarrow> owned_by task_id owner r \<and> t_version (row_task r) = v \<and>
     row_ready_outbox_pending r \<and> outbox_state (row_state r)"

definition upd_materialized :: "task_row \<Rightarrow> task_row" where
  "upd_materialized r = r\<lparr>row_ready_outbox_pending := False\<rparr>"

definition mark_ready_outbox_materialized ::
    "string \<Rightarrow> string \<Rightarrow> int \<Rightarrow> task_table \<Rightarrow> (task_error, agent_task) result \<times> task_table" where
  "mark_ready_outbox_materialized task_id owner expected_version db =
     (case first_failure
        [(key_ok task_id, Invalid ''task_id''), (key_ok owner, Invalid ''owner''),
         (version_ok expected_version, Invalid ''expected_version'')] of
        Some e \<Rightarrow> (Inl e, db)
      | None \<Rightarrow>
          (case fetchone (materializable task_id owner expected_version) db of
             Some row \<Rightarrow>
               (task_from_row (upd_materialized row),
                sql_update (materializable task_id owner expected_version) upd_materialized db)
           | None \<Rightarrow>
               (case fetchone (owned_by task_id owner) db of
                  None \<Rightarrow> (Inl (KeyErr task_id), db)
                | Some current \<Rightarrow>
                    (if t_version (row_task current) = expected_version \<and> \<not> row_ready_outbox_pending current
                     then task_from_row current else Inl (TaskConflict C_outbox_fenced), db))))"

end
