(* ===== verification/TaskSafety.thy ===== *)
theory TaskSafety
  imports TaskStore
begin

text \<open>
  What the task store keeps of its table. \<open>row_step\<close> has one rule per \<open>UPDATE\<close> statement of
  \<open>agent/task_store.py\<close>, with the guards the method evaluates before it; \<open>store_step\<close> is one call of
  one public method (or the second transaction of a \<open>create_task\<close> whose first one ran earlier).
  The store is an instance of \<open>row_machine\<close> and of \<open>fenced_lease\<close>; the row invariant follows from
  the rules of \<open>row_step\<close> alone.
\<close>

section \<open>Row steps\<close>

inductive row_step :: "(string \<Rightarrow> string) \<Rightarrow> task_row \<Rightarrow> task_row \<Rightarrow> bool" for sha where
  step_claim: "claimable now task_id owner r \<Longrightarrow> row_step sha r (upd_claim worker_id expires now r)"
| step_renew: "lease_row now l r \<Longrightarrow> row_step sha r (upd_renew expires now r)"
| step_release: "lease_row now l r \<Longrightarrow> row_step sha r (upd_release now r)"
| step_link: "lease_row now l r \<Longrightarrow> t_linked_run_id (row_task r) = None \<Longrightarrow>
    row_step sha r (upd_link run_id now r)"
| step_advance: "lease_row now l r \<Longrightarrow> task_from_row r = Inr t \<Longrightarrow>
    gs \<noteq> Gate_COMPLETED \<Longrightarrow> gs \<noteq> Gate_INPUT_REQUIRED \<Longrightarrow> receipt_instance receipt \<Longrightarrow>
    advance_decide sha r t gs receipt policy root stage = Proceed \<Longrightarrow>
    row_step sha r (upd_advance now gs receipt policy root stage r)"
| step_finalize: "lease_row now l r \<Longrightarrow> task_from_row r = Inr t \<Longrightarrow>
    is_instance result_post_init res \<Longrightarrow> opt_ok (is_instance gate_receipt_post_init) gate \<Longrightarrow>
    list_all fst (finalize_checks r t gate res root stage) \<Longrightarrow>
    status_state (res_status res) = Some target \<Longrightarrow>
    row_step sha r (upd_finalize now target res gate root stage r)"
| step_complete: "lease_row now l r \<Longrightarrow> is_instance result_post_init res \<Longrightarrow>
    res_status res \<noteq> ''succeeded'' \<Longrightarrow> status_state (res_status res) = Some target \<Longrightarrow>
    row_step sha r (upd_complete now target res r)"
| step_cancel_pending: "row_state r = Task_PENDING \<or> row_state r = Task_AUTH_REQUIRED \<Longrightarrow>
    \<not> t_cancel_requested (row_task r) \<Longrightarrow> result_cancelled (Some ''cancelled before execution'') = Inr res \<Longrightarrow>
    row_step sha r (upd_cancel_pending now res r)"
| step_cancel_running: "row_state r = Task_RUNNING \<Longrightarrow> row_step sha r (upd_cancel_running now r)"
| step_resume: "resumable task_id owner v r \<Longrightarrow> row_step sha r (upd_resume now r)"
| step_materialized: "materializable task_id owner v r \<Longrightarrow> row_step sha r (upd_materialized r)"

lemmas upd_defs = upd_claim_def upd_renew_def upd_release_def upd_link_def upd_advance_def
  upd_finalize_def upd_complete_def upd_cancel_pending_def upd_cancel_running_def upd_resume_def
  upd_materialized_def

lemma row_step_id: "row_step sha r r' \<Longrightarrow> row_id r' = row_id r"
  by (induction rule: row_step.induct) (simp_all add: upd_defs Let_def)

section \<open>Decoding\<close>

text \<open>
  A stored task whose nested objects are instances decodes to itself or not at all. Every row the
  store writes is such a row.
\<close>

definition nested_ok :: "agent_task \<Rightarrow> bool" where
  "nested_ok t \<longleftrightarrow> is_instance request_post_init (t_request t) \<and> is_instance envelope_post_init (t_envelope t) \<and>
     opt_ok (is_instance result_post_init) (t_result t) \<and>
     opt_ok (is_instance schedule_receipt_post_init) (t_schedule_receipt t) \<and>
     opt_ok (is_instance gate_receipt_post_init) (t_gate_receipt t)"

lemma traverse_instance: "opt_ok (is_instance f) v \<Longrightarrow> traverse_opt f v = Inr v"
  by (cases v) (simp_all add: is_instance_def)

lemma task_from_row_nested: "nested_ok (row_task r) \<Longrightarrow> task_from_row r = task_post_init (row_task r)"
  by (simp add: task_from_row_def nested_ok_def is_instance_def traverse_instance Let_def)

lemma task_from_row_eq: "nested_ok (row_task r) \<Longrightarrow> task_from_row r = Inr t \<Longrightarrow> t = row_task r"
  by (simp add: task_from_row_nested task_post_init_def)

lemma lease_row_running: "lease_row now l r \<Longrightarrow> row_state r = Task_RUNNING"
  by (simp add: lease_row_def)

lemma lease_row_id: "lease_row now l r \<Longrightarrow> row_id r = tl_task_id l"
  by (simp add: lease_row_def owned_by_def)

lemma lease_row_held: "lease_row now l r \<Longrightarrow> held_by l r"
  by (simp add: lease_row_def held_by_def)

lemma held_by_id: "held_by l r \<Longrightarrow> row_id r = tl_task_id l"
  by (simp add: held_by_def owned_by_def)

lemma result_cancelled_instance: "result_cancelled m = Inr res \<Longrightarrow>
    is_instance result_post_init res \<and> res_status res = ''cancelled''"
  by (auto simp: result_cancelled_def is_instance_def result_post_init_def)

lemma advance_decide_Proceed:
  assumes "advance_decide sha r t gs receipt policy root stage = Proceed"
  shows "list_all fst (advance_checks r t gs policy root)"
    and "validate_receipt_identity sha t receipt policy gs = Inr ()"
    and "receipt_replay r t receipt gs stage = Proceed"
    and "list_all fst (task_checks (with_receipt t policy gs receipt))"
  using assms
  by (auto simp: advance_decide_def first_failure_None task_post_init_def
      split: option.splits sum.splits gate_decision.splits)

lemma nested_ok_step: "nested_ok (row_task r) \<Longrightarrow> row_step sha r r' \<Longrightarrow> nested_ok (row_task r')"
proof (erule row_step.cases, goal_cases)
  case (8 rr res now)
  then show ?case
    using result_cancelled_instance [of "Some ''cancelled before execution''" res]
    by (simp add: upd_defs nested_ok_def Let_def)
next
  case (5 now l rr t gs receipt policy root stage)
  then show ?case
    by (cases receipt) (simp_all add: upd_defs nested_ok_def Let_def receipt_instance_def)
next
  case (6 now l rr t res gate root stage target)
  then show ?case
    by (cases gate) (simp_all add: upd_defs nested_ok_def Let_def)
qed (simp_all add: upd_defs nested_ok_def Let_def)


section \<open>The row invariant\<close>

text \<open>A result is present exactly outside pending and running, and its status is the state.\<close>

definition result_inv :: "task_row \<Rightarrow> bool" where
  "result_inv r \<longleftrightarrow>
     (case t_result (row_task r) of
        None \<Rightarrow> row_state r = Task_PENDING \<or> row_state r = Task_RUNNING
      | Some res \<Rightarrow> res_status res = task_state_value (row_state r) \<and>
          row_state r \<noteq> Task_PENDING \<and> row_state r \<noteq> Task_RUNNING)"

text \<open>Only a running task is leased, and both lease columns are set or neither.\<close>

definition lease_inv :: "task_row \<Rightarrow> bool" where
  "lease_inv r \<longleftrightarrow>
     (t_lease_owner (row_task r) = None \<longleftrightarrow> t_lease_expires_at (row_task r) = None) \<and>
     (t_lease_owner (row_task r) \<noteq> None \<longrightarrow> row_state r = Task_RUNNING) \<and>
     (row_state r = Task_RUNNING \<longrightarrow> 1 \<le> t_fencing_token (row_task r)) \<and>
     0 \<le> t_fencing_token (row_task r) \<and> t_fencing_token (row_task r) \<le> t_version (row_task r)"

text \<open>A ready-outbox entry exists only for a task in one of the four outbox states.\<close>

definition outbox_inv :: "task_row \<Rightarrow> bool" where
  "outbox_inv r \<longleftrightarrow> (row_ready_outbox_pending r \<longrightarrow> outbox_state (row_state r))"

text \<open>
  A stored gate receipt belongs to the task and its linked Run and satisfies the completion policy;
  the columns beside it repeat its fields; a succeeded task has one, for a completed Run, and
  reports exactly its evidence.
\<close>

definition gate_inv :: "task_row \<Rightarrow> bool" where
  "gate_inv r \<longleftrightarrow>
     (let t = row_task r in
      list_all fst (option_checks (gate_receipt_checks t) (t_gate_receipt t)) \<and>
      row_evidence_digest r = map_option gr_evidence_digest (t_gate_receipt t) \<and>
      row_integrity_checked_at r = map_option gr_integrity_verified_at (t_gate_receipt t) \<and>
      row_capsule_ref r = Option.bind (t_gate_receipt t) gr_capsule_ref \<and>
      \<not> t_legacy_gate_unverified t)"

definition verified_success :: "task_row \<Rightarrow> bool" where
  "verified_success r \<longleftrightarrow>
     (case t_gate_receipt (row_task r) of
        None \<Rightarrow> False
      | Some g \<Rightarrow> is_instance gate_receipt_post_init g \<and>
          gr_task_id g = row_id r \<and> t_linked_run_id (row_task r) = Some (gr_run_id g) \<and>
          gr_run_terminal_state g = ''completed'' \<and> gr_evidence_state g = ''finalized'' \<and>
          gr_integrity_state g = ''verified'' \<and>
          (requires_capsule (t_completion_policy (row_task r)) \<longrightarrow>
             gr_capsule_state g = ''READY'' \<and> gr_capsule_ref g \<noteq> None) \<and>
          t_gate_state (row_task r) = Gate_COMPLETED \<and>
          (case t_result (row_task r) of None \<Rightarrow> False
           | Some res \<Rightarrow> res_status res = ''succeeded'' \<and> res_evidence_refs res = gr_evidence_refs g) \<and>
          row_evidence_refs r = gr_evidence_refs g \<and> row_capsule_state r = gr_capsule_state g)"

lemma status_state_values:
  "status_state (res_status res) = Some target \<Longrightarrow> res_status res = task_state_value target"
  by (auto split: if_splits)

lemma status_state_terminal:
  assumes "is_instance result_post_init res" and "status_state (res_status res) = Some target"
  shows "target \<noteq> Task_PENDING \<and> target \<noteq> Task_RUNNING \<and> outbox_state target \<and>
    (target = Task_SUCCEEDED \<longleftrightarrow> res_status res = ''succeeded'')"
proof -
  have "res_status res \<in> set result_statuses"
    using assms(1) by (simp add: is_instance_def result_post_init_def)
  with assms(2) show ?thesis by (auto simp: result_statuses_def outbox_state_def)
qed

lemma result_inv_step: "result_inv r \<Longrightarrow> row_step sha r r' \<Longrightarrow> result_inv r'"
proof (erule row_step.cases, goal_cases)
  case (8 rr res now)
  then show ?case
    using result_cancelled_instance [of "Some ''cancelled before execution''" res]
    by (simp add: upd_defs result_inv_def Let_def)
next
  case (6 now l rr t res gate root stage target)
  then show ?case
    using status_state_terminal [of res target] status_state_values [of res target]
    by (simp add: upd_defs result_inv_def Let_def)
next
  case (7 now l rr res target)
  then show ?case
    using status_state_terminal [of res target] status_state_values [of res target]
    by (simp add: upd_defs result_inv_def Let_def)
qed (auto simp: upd_defs result_inv_def Let_def claimable_def lease_row_def resumable_def split: option.splits)

lemma lease_inv_step: "lease_inv r \<Longrightarrow> row_step sha r r' \<Longrightarrow> lease_inv r'"
  by (erule row_step.cases)
    (auto simp: upd_defs lease_inv_def Let_def claimable_def lease_row_def resumable_def split: option.splits)

lemma outbox_inv_step: "outbox_inv r \<Longrightarrow> row_step sha r r' \<Longrightarrow> outbox_inv r'"
proof (erule row_step.cases, goal_cases)
  case (6 now l rr t res gate root stage target)
  then show ?case using status_state_terminal [of res target] by (simp add: upd_defs outbox_inv_def Let_def)
next
  case (7 now l rr res target)
  then show ?case using status_state_terminal [of res target] by (simp add: upd_defs outbox_inv_def Let_def)
qed (auto simp: upd_defs outbox_inv_def Let_def claimable_def lease_row_def outbox_state_def)


lemma gate_inv_step:
  assumes nested: "nested_ok (row_task r)" and inv: "gate_inv r" and step: "row_step sha r r'"
  shows "gate_inv r'"
  using step inv nested
proof (cases rule: row_step.cases)
  case (step_advance now l t gs receipt policy root stage)
  have t: "t = row_task r"
    using nested step_advance(3) by (rule task_from_row_eq)
  note d = advance_decide_Proceed [OF step_advance(7), unfolded t]
  show ?thesis
  proof (cases receipt)
    case (Gate g)
    with d(3) have "t_gate_receipt (row_task r) = None \<or> t_gate_receipt (row_task r) = Some g"
      by (auto simp: receipt_replay_def split: option.splits if_splits)
    with d(4) Gate inv step_advance(1) show ?thesis
      by (auto simp: upd_defs gate_inv_def Let_def task_checks_def with_receipt_def option_checks_def
          gate_receipt_checks_def coalesce_def split: option.splits)
  next
    case No_Receipt
    with d(1) inv step_advance(1) show ?thesis
      by (auto simp: upd_defs gate_inv_def Let_def option_checks_def gate_receipt_checks_def
          advance_checks_def split: option.splits)
  next
    case (Schedule x)
    with d(1) inv step_advance(1) show ?thesis
      by (auto simp: upd_defs gate_inv_def Let_def option_checks_def gate_receipt_checks_def
          advance_checks_def split: option.splits)
  qed
next
  case (step_finalize now l t res gate root stage target)
  have t: "t = row_task r"
    using nested step_finalize(3) by (rule task_from_row_eq)
  show ?thesis
  proof (cases gate)
    case None
    with inv step_finalize(1) show ?thesis
      by (auto simp: upd_defs gate_inv_def Let_def option_checks_def gate_receipt_checks_def split: option.splits)
  next
    case (Some g)
    with step_finalize(6) t have
      "t_gate_receipt (row_task r) = None \<or> t_gate_receipt (row_task r) = Some g"
      by (simp add: finalize_checks_def)
    with Some inv step_finalize(1,6) t show ?thesis
      by (auto simp: upd_defs gate_inv_def Let_def option_checks_def gate_receipt_checks_def
          finalize_checks_def coalesce_def split: option.splits)
  qed
qed (auto simp: upd_defs gate_inv_def Let_def option_checks_def gate_receipt_checks_def split: option.splits)

lemma gate_receipt_instance:
  "is_instance gate_receipt_post_init g \<Longrightarrow> gr_evidence_state g = ''finalized'' \<and> gr_integrity_state g = ''verified''"
  by (simp add: is_instance_def gate_receipt_post_init_def)

definition success_inv :: "task_row \<Rightarrow> bool" where
  "success_inv r \<longleftrightarrow> (row_state r = Task_SUCCEEDED \<longrightarrow> verified_success r)"

lemma success_finalized:
  assumes "nested_ok (row_task r)" and "task_from_row r = Inr t"
    and "opt_ok (is_instance gate_receipt_post_init) gate"
    and "list_all fst (finalize_checks r t gate res root stage)" and "res_status res = ''succeeded''"
  shows "verified_success (upd_finalize now Task_SUCCEEDED res gate root stage r)"
proof -
  have t: "t = row_task r" using assms(1,2) by (rule task_from_row_eq)
  from assms(4,5) obtain g where g: "gate = Some g" by (auto simp: finalize_checks_def)
  with assms(3) have "is_instance gate_receipt_post_init g" by simp
  with assms(4,5) t g show ?thesis
    using gate_receipt_instance [of g]
    by (auto simp: finalize_checks_def verified_success_def upd_finalize_def Let_def)
qed

lemma success_inv_step:
  assumes nested: "nested_ok (row_task r)" and inv: "success_inv r" and step: "row_step sha r r'"
  shows "success_inv r'"
  using step inv
proof (cases rule: row_step.cases)
  case (step_finalize now l t res gate root stage target)
  show ?thesis
  proof (cases "target = Task_SUCCEEDED")
    case True
    with step_finalize have "res_status res = ''succeeded''"
      using status_state_terminal by blast
    then have "verified_success (upd_finalize now Task_SUCCEEDED res gate root stage r)"
      using nested step_finalize(3,5,6) by (rule success_finalized [rotated -1])
    with True step_finalize(1) show ?thesis by (simp add: success_inv_def)
  next
    case False
    with step_finalize(1) show ?thesis by (simp add: success_inv_def upd_finalize_def Let_def)
  qed
next
  case (step_complete now l res target)
  then have "target \<noteq> Task_SUCCEEDED" using status_state_terminal by blast
  with step_complete(1) show ?thesis by (simp add: success_inv_def upd_complete_def)
next
  case (step_materialized task_id owner v)
  with inv show ?thesis
    by (simp add: success_inv_def verified_success_def upd_materialized_def split: option.splits)
qed (auto simp: upd_defs success_inv_def Let_def lease_row_def result_cancelled_def
      split: option.splits)

definition row_inv :: "task_row \<Rightarrow> bool" where
  "row_inv r \<longleftrightarrow> nested_ok (row_task r) \<and> result_inv r \<and> lease_inv r \<and> outbox_inv r \<and> gate_inv r \<and> success_inv r"

lemma row_inv_step: "row_inv r \<Longrightarrow> row_step sha r r' \<Longrightarrow> row_inv r'"
  unfolding row_inv_def
  using nested_ok_step result_inv_step lease_inv_step outbox_inv_step gate_inv_step success_inv_step
  by blast


section \<open>Store steps\<close>

definition moves :: "(string \<Rightarrow> string) \<Rightarrow> task_table \<Rightarrow> task_table \<Rightarrow> bool" where
  "moves sha db db' \<longleftrightarrow> db' = db \<or>
     (\<exists>r r'. r \<in> set db \<and> row_step sha r r' \<and> db' = put_row row_id r' db)"

lemma moves_refl [simp]: "moves sha db db"
  by (simp add: moves_def)

lemma moves_update:
  assumes "keyed row_id db" and "\<And>x. p x \<Longrightarrow> row_id x = k" and "fetchone p db = Some r"
    and "row_step sha r (f r)"
  shows "moves sha db (sql_update p f db)"
proof -
  have "sql_update p f db = put_row row_id (f r) db"
    using assms(1-3) row_step_id [OF assms(4)] by (rule sql_update_fetched)
  with fetchone_Some [OF assms(3)] assms(4) show ?thesis by (auto simp: moves_def)
qed

lemma commit_moves:
  assumes "keyed row_id db" and "\<And>x. p x \<Longrightarrow> row_id x = k"
    and "\<And>r. fetchone p db = Some r \<Longrightarrow> r \<in> set db \<Longrightarrow> p r \<Longrightarrow> row_step sha r (f r)"
  shows "moves sha db (snd (commit_returning p f c db))"
proof (cases "fetchone p db")
  case None
  then show ?thesis by (simp add: commit_returning_def)
next
  case (Some r)
  have "row_step sha r (f r)"
    using assms(3) [OF Some] fetchone_Some [OF Some] by blast
  then have "moves sha db (sql_update p f db)"
    using moves_update [OF assms(1,2) Some, of sha f] by blast
  with Some show ?thesis by (simp add: commit_returning_def)
qed

lemma held_row:
  assumes "keyed row_id db" and "row \<in> set db" and "lease_row now l row" and "r \<in> set db" and "held_by l r"
  shows "r = row"
  using assms lease_row_id held_by_id by (metis keyed_eqI)

lemma owned_row:
  assumes "keyed row_id db" and "row \<in> set db" and "lease_row now l row"
    and "fetchone (owned_by (tl_task_id l) owner) db = Some r"
  shows "r = row"
  using assms fetchone_Some [OF assms(4)] lease_row_id [OF assms(3)]
  by (metis keyed_eqI owned_by_def)

lemma assert_lease_Inr:
  "assert_lease now l db = Inr row \<Longrightarrow> row \<in> set db \<and> lease_row now l row"
  by (auto simp: assert_lease_def dest: fetchone_Some split: option.splits)

lemma claim_moves: "keyed row_id db \<Longrightarrow> moves sha db (snd (claim_task now task_id owner w n db))"
  unfolding claim_task_def
  by (auto simp: Let_def split: option.splits intro!: moves_update [where k = task_id] step_claim
      dest: fetchone_Some simp: claimable_def owned_by_def)

lemma renew_moves:
  assumes "keyed row_id db"
  shows "moves sha db (snd (renew_task now l n db))"
proof (cases "fetchone (lease_row now l) db")
  case None
  then have "rowcount (lease_row now l) db = 0" by (simp add: fetchone_None rowcount_zero)
  then show ?thesis by (simp add: renew_task_def Let_def split: option.splits)
next
  case (Some r)
  have "moves sha db (sql_update (lease_row now l) (upd_renew e now) db)" for e
    using assms lease_row_id Some
  proof (rule moves_update)
    show "row_step sha r (upd_renew e now r)" using fetchone_Some [OF Some] by (blast intro: step_renew)
  qed
  then show ?thesis by (simp add: renew_task_def Let_def split: option.splits)
qed

lemma release_moves:
  assumes "keyed row_id db"
  shows "moves sha db (snd (release_task now l db))"
proof (cases "assert_lease now l db")
  case (Inl e)
  then show ?thesis by (simp add: release_task_def ensure_def)
next
  case (Inr row)
  then have row: "row \<in> set db" "lease_row now l row" by (auto dest: assert_lease_Inr)
  have "moves sha db (snd (commit_returning (\<lambda>r. held_by l r \<and> t_lease_owner (row_task r) = Some (tl_worker_id l))
    (upd_release now) C_release_fenced db))"
    using assms
  proof (rule commit_moves [where k = "tl_task_id l"])
    show "held_by l x \<and> t_lease_owner (row_task x) = Some (tl_worker_id l) \<Longrightarrow> row_id x = tl_task_id l" for x
      using held_by_id by blast
    fix r assume "r \<in> set db" "held_by l r \<and> t_lease_owner (row_task r) = Some (tl_worker_id l)"
    then have "r = row" using held_row [OF assms row] by blast
    with row show "row_step sha r (upd_release now r)" by (auto intro: step_release)
  qed
  with Inr show ?thesis by (simp add: release_task_def ensure_def)
qed

lemma link_moves:
  assumes "keyed row_id db"
  shows "moves sha db (snd (link_run now task_id l run_id db))"
proof (cases "assert_lease now l db")
  case (Inl e)
  then show ?thesis by (simp add: link_run_def split: option.splits)
next
  case (Inr row)
  then have row: "row \<in> set db" "lease_row now l row" by (auto dest: assert_lease_Inr)
  have "moves sha db (snd (commit_returning (link_where l) (upd_link run_id now) C_link_fenced db))"
    using assms
  proof (rule commit_moves [where k = "tl_task_id l"])
    show "link_where l x \<Longrightarrow> row_id x = tl_task_id l" for x by (simp add: link_where_def owned_by_def)
    fix r assume r: "r \<in> set db" "link_where l r"
    then have "row_id r = row_id row" using lease_row_id [OF row(2)] by (simp add: link_where_def owned_by_def)
    with assms r(1) row(1) have "r = row" by (rule keyed_eqI)
    with row r show "row_step sha r (upd_link run_id now r)" by (auto intro: step_link simp: link_where_def)
  qed
  with Inr show ?thesis by (simp add: link_run_def split: option.splits)
qed


lemma advance_moves:
  assumes db: "keyed row_id db"
  shows "moves sha db (snd (advance_gate sha now task_id l gs receipt policy root stage db))"
proof -
  have commit: "moves sha db (snd (commit_returning (held_by l) (upd_advance now gs receipt p rt s) C_gate_fenced db))"
    if "assert_lease now l db = Inr row" "task_from_row row = Inr t" "gs \<noteq> Gate_COMPLETED" "gs \<noteq> Gate_INPUT_REQUIRED"
      "receipt_instance receipt" "advance_decide sha row t gs receipt p rt s = Proceed" for row t p rt s
    using db held_by_id
  proof (rule commit_moves)
    fix r assume r: "r \<in> set db" "held_by l r"
    have row: "row \<in> set db" "lease_row now l row" using that(1) by (auto dest: assert_lease_Inr)
    have "r = row" using db row r by (rule held_row)
    with row that show "row_step sha r (upd_advance now gs receipt p rt s r)" by (auto intro: step_advance)
  qed
  show ?thesis
    unfolding advance_gate_def
    by (auto simp: Let_def bind_res_Inr_iff first_failure_None intro!: commit
        split: option.splits sum.splits gate_decision.splits prod.splits)
qed

lemma finalize_moves:
  assumes db: "keyed row_id db"
  shows "moves sha db (snd (finalize_task sha now task_id l gate res root stage db))"
proof -
  have commit: "moves sha db (snd (commit_returning (held_by l) (upd_finalize now target res gate rt s) C_finalization_fenced db))"
    if "fetchone (owned_by (tl_task_id l) (tl_owner l)) db = Some row" "task_from_row row = Inr t"
      "assert_lease now l db = Inr row'" "is_instance result_post_init res"
      "opt_ok (is_instance gate_receipt_post_init) gate" "list_all fst (finalize_checks row t gate res rt s)"
      "status_state (res_status res) = Some target" for row row' t rt s target
    using db held_by_id
  proof (rule commit_moves)
    fix r assume r: "r \<in> set db" "held_by l r"
    have row': "row' \<in> set db" "lease_row now l row'" using that(3) by (auto dest: assert_lease_Inr)
    have "r = row'" using db row' r by (rule held_row)
    moreover have "row = row'" using db row' that(1) by (rule owned_row)
    ultimately show "row_step sha r (upd_finalize now target res gate rt s r)"
      using row' that by (auto intro: step_finalize)
  qed
  show ?thesis
    unfolding finalize_task_def
    by (auto simp: Let_def bind_res_Inr_iff first_failure_None intro!: commit
        split: option.splits sum.splits prod.splits)
qed

lemma complete_moves:
  assumes db: "keyed row_id db"
  shows "moves sha db (snd (complete_task sha now task_id l res db))"
proof -
  have commit: "moves sha db (snd (commit_returning (held_by l) (upd_complete now target res) C_completion_fenced db))"
    if "assert_lease now l db = Inr row" "is_instance result_post_init res" "res_status res \<noteq> ''succeeded''"
      "status_state (res_status res) = Some target" for row target
    using db held_by_id
  proof (rule commit_moves)
    fix r assume r: "r \<in> set db" "held_by l r"
    have row: "row \<in> set db" "lease_row now l row" using that(1) by (auto dest: assert_lease_Inr)
    have "r = row" using db row r by (rule held_row)
    with row that show "row_step sha r (upd_complete now target res r)" by (auto intro: step_complete)
  qed
  show ?thesis
    unfolding complete_task_def
    by (auto simp: Let_def first_failure_None simp del: status_state.simps
        intro!: commit finalize_moves [OF db] split: option.splits sum.splits prod.splits)
qed

lemma cancel_moves:
  assumes db: "keyed row_id db" and inv: "\<And>r. r \<in> set db \<Longrightarrow> nested_ok (row_task r)"
  shows "moves sha db (snd (request_cancel now task_id owner v db))"
proof -
  have row: "x = row \<and> t = row_task x"
    if "fetchone (owned_by task_id owner) db = Some row" "task_from_row row = Inr t"
      "x \<in> set db" "row_id x = task_id" for row t x
  proof -
    have row: "row \<in> set db" "row_id row = task_id"
      using that(1) by (auto dest: fetchone_Some simp: owned_by_def)
    then have "t = row_task row" using inv that(2) task_from_row_eq by blast
    moreover have "x = row" using db that(3) row(1) by (rule keyed_eqI) (simp add: row that(4))
    ultimately show ?thesis by simp
  qed
  have pending: "moves sha db (snd (commit_returning (cancel_pending_where task_id owner u)
      (upd_cancel_pending now res) C_cancel_fenced db))"
    if "fetchone (owned_by task_id owner) db = Some row" "task_from_row row = Inr t"
      "\<not> t_cancel_requested t" "t_state t = Task_PENDING \<or> t_state t = Task_AUTH_REQUIRED"
      "result_cancelled (Some ''cancelled before execution'') = Inr res" for row t res u
    using db
  proof (rule commit_moves [where k = task_id])
    show "cancel_pending_where task_id owner u x \<Longrightarrow> row_id x = task_id" for x
      by (simp add: cancel_pending_where_def owned_by_def)
    fix r assume "r \<in> set db" "cancel_pending_where task_id owner u r"
    then have "r = row \<and> t = row_task r" using row [OF that(1,2)]
      by (simp add: cancel_pending_where_def owned_by_def)
    with that show "row_step sha r (upd_cancel_pending now res r)" by (auto intro: step_cancel_pending)
  qed
  have running: "moves sha db (snd (commit_returning (cancel_running_where task_id owner u)
      (upd_cancel_running now) C_cancel_fenced db))" for u
    using db by (rule commit_moves [where k = task_id])
      (auto simp: cancel_running_where_def owned_by_def intro: step_cancel_running)
  show ?thesis
    unfolding request_cancel_def
    by (auto simp: Let_def first_failure_None intro!: pending running split: option.splits sum.splits)
qed

lemma resume_moves:
  assumes "keyed row_id db"
  shows "moves sha db (snd (resume_after_auth now task_id owner v db))"
proof -
  have "moves sha db (snd (commit_returning (resumable task_id owner v) (upd_resume now) C_resume_invalid db))"
    using assms by (rule commit_moves [where k = task_id])
      (auto simp: resumable_def owned_by_def intro: step_resume [unfolded resumable_def owned_by_def])
  then show ?thesis by (simp add: resume_after_auth_def split: option.splits)
qed

lemma materialized_moves:
  assumes "keyed row_id db"
  shows "moves sha db (snd (mark_ready_outbox_materialized task_id owner v db))"
proof (cases "fetchone (materializable task_id owner v) db")
  case None
  then show ?thesis by (simp add: mark_ready_outbox_materialized_def split: option.splits)
next
  case (Some r)
  have "moves sha db (sql_update (materializable task_id owner v) upd_materialized db)"
    using assms _ Some
  proof (rule moves_update)
    show "materializable task_id owner v x \<Longrightarrow> row_id x = task_id" for x
      by (simp add: materializable_def owned_by_def)
    show "row_step sha r (upd_materialized r)"
      using fetchone_Some [OF Some] by (blast intro: step_materialized)
  qed
  with Some show ?thesis by (simp add: mark_ready_outbox_materialized_def split: option.splits)
qed

lemma create_insert_cases:
  "snd (create_insert c db) = db \<or>
    (t_task_id c \<notin> row_id ` set db \<and> snd (create_insert c db) = db @ [new_row c] \<and>
     fetchone (same_request (t_owner c) (t_request_key c)) db = None)"
  by (auto simp: create_insert_def Let_def split: option.splits)


inductive store_step :: "(string \<Rightarrow> string) \<Rightarrow> task_table \<Rightarrow> task_table \<Rightarrow> bool" for sha where
  do_create: "store_step sha db (snd (create_task sha now a db))"
| do_insert: "new_task sha now a = Inr c \<Longrightarrow> store_step sha db (snd (create_insert c db))"
| do_claim: "store_step sha db (snd (claim_task now task_id owner worker_id n db))"
| do_renew: "store_step sha db (snd (renew_task now l n db))"
| do_release: "store_step sha db (snd (release_task now l db))"
| do_link: "store_step sha db (snd (link_run now task_id l run_id db))"
| do_advance: "store_step sha db (snd (advance_gate sha now task_id l gs receipt policy root stage db))"
| do_finalize: "store_step sha db (snd (finalize_task sha now task_id l gate res root stage db))"
| do_complete: "store_step sha db (snd (complete_task sha now task_id l res db))"
| do_cancel: "store_step sha db (snd (request_cancel now task_id owner v db))"
| do_resume: "store_step sha db (snd (resume_after_auth now task_id owner v db))"
| do_materialize: "store_step sha db (snd (mark_ready_outbox_materialized task_id owner v db))"

definition fresh_row :: "(string \<Rightarrow> string) \<Rightarrow> task_row \<Rightarrow> bool" where
  "fresh_row sha r \<longleftrightarrow> (\<exists>now a t. new_task sha now a = Inr t \<and> r = new_row t)"

lemma new_task_fresh: "new_task sha now a = Inr c \<Longrightarrow> fresh_row sha (new_row c)"
  by (auto simp: fresh_row_def)

lemma new_task_Inr:
  "new_task sha now a = Inr t \<Longrightarrow>
     is_instance request_post_init (t_request t) \<and> is_instance envelope_post_init (t_envelope t) \<and>
     task_post_init t = Inr t \<and> t_task_id t = new_task_id sha (t_owner t) (t_request_key t)"
  by (auto simp: new_task_def bind_res_Inr_iff task_post_init_def)

lemma fresh_row_inv: "fresh_row sha r \<Longrightarrow> row_inv r"
  by (auto simp: fresh_row_def row_inv_def nested_ok_def result_inv_def lease_inv_def outbox_inv_def
      gate_inv_def success_inv_def new_row_def option_checks_def dest: new_task_Inr)

lemma store_step_cases:
  assumes ok: "table_ok row_id row_inv db" and step: "store_step sha db db'"
  shows "db' = db \<or> (\<exists>r. fresh_row sha r \<and> row_id r \<notin> row_id ` set db \<and> db' = db @ [r]) \<or>
    (\<exists>r r'. r \<in> set db \<and> row_step sha r r' \<and> db' = put_row row_id r' db)"
proof -
  have insert: "snd (create_insert c db) = db \<or>
      (\<exists>r. fresh_row sha r \<and> row_id r \<notin> row_id ` set db \<and> snd (create_insert c db) = db @ [r])"
    if "new_task sha now a = Inr c" for now a c
    using create_insert_cases [of c db] new_task_fresh [OF that] by (auto simp: new_row_def)
  have key: "keyed row_id db" using ok by (rule table_okD)
  have nested: "\<And>r. r \<in> set db \<Longrightarrow> nested_ok (row_task r)"
    using table_okD(2) [OF ok] by (simp add: row_inv_def)
  have m: "moves sha db db' \<Longrightarrow> ?thesis" by (auto simp: moves_def)
  show ?thesis
    using step
  proof cases
    case (do_create now a)
    show ?thesis unfolding do_create create_task_def
      using insert by (auto split: option.splits sum.splits)
  next
    case (do_insert now a c)
    then show ?thesis using insert by blast
  qed (use m key nested in \<open>simp_all add: claim_moves renew_moves release_moves link_moves advance_moves
         finalize_moves complete_moves cancel_moves resume_moves materialized_moves\<close>)
qed

interpretation tasks: row_machine row_id "fresh_row sha" row_inv "row_step sha" "store_step sha" for sha
  by unfold_locales (fact row_step_id fresh_row_inv row_inv_step store_step_cases)+

definition reachable_tasks :: "(string \<Rightarrow> string) \<Rightarrow> task_table \<Rightarrow> bool" where
  "reachable_tasks sha db \<longleftrightarrow> (store_step sha)\<^sup>*\<^sup>* [] db"

lemma reachable_ok: "reachable_tasks sha db \<Longrightarrow> table_ok row_id row_inv db"
  unfolding reachable_tasks_def by (drule tasks.run_ok) simp_all

lemma reachable_row_inv: "reachable_tasks sha db \<Longrightarrow> r \<in> set db \<Longrightarrow> row_inv r"
  by (rule table_okD(2) [OF reachable_ok])


section \<open>Fencing\<close>

definition task_token :: "string \<Rightarrow> task_table \<Rightarrow> int" where
  "task_token = row_measure row_id 0 (\<lambda>r. t_fencing_token (row_task r))"

definition holds_task :: "string \<Rightarrow> task_lease \<Rightarrow> task_table \<Rightarrow> bool" where
  "holds_task k l db \<longleftrightarrow> (\<exists>r \<in> set db. row_id r = k \<and> held_by l r)"

definition claims_task :: "string \<Rightarrow> task_lease \<Rightarrow> task_table \<Rightarrow> task_table \<Rightarrow> bool" where
  "claims_task k l db db' \<longleftrightarrow> (\<exists>now owner w n. claim_task now k owner w n db = (Inr (Some l), db'))"

lemma row_step_token: "row_step sha r r' \<Longrightarrow> t_fencing_token (row_task r) \<le> t_fencing_token (row_task r')"
  by (induction rule: row_step.induct) (simp_all add: upd_defs Let_def)

lemma row_step_version: "row_step sha r r' \<Longrightarrow> t_version (row_task r) \<le> t_version (row_task r')"
  by (induction rule: row_step.induct) (simp_all add: upd_defs Let_def)

lemma claim_taskE:
  assumes "claim_task now k owner w n db = (Inr (Some l), db')" and "keyed row_id db"
  obtains r expires where "r \<in> set db" and "claimable now k owner r"
    and "add_seconds (nat n) now = Some expires" and "db' = put_row row_id (upd_claim w expires now r) db"
    and "row_of row_id k db = Some r"
    and "l = \<lparr>tl_task_id = k, tl_owner = owner, tl_worker_id = w, tl_version = t_version (row_task r) + 1,
          tl_fencing_token = t_fencing_token (row_task r) + 1, tl_expires_at = expires\<rparr>"
proof -
  from assms(1) obtain r expires where r: "fetchone (claimable now k owner) db = Some r"
    and e: "add_seconds (nat n) now = Some expires"
    and db': "db' = sql_update (claimable now k owner) (upd_claim w expires now) db"
    and l: "l = \<lparr>tl_task_id = k, tl_owner = owner, tl_worker_id = w, tl_version = t_version (row_task r) + 1,
          tl_fencing_token = t_fencing_token (row_task r) + 1, tl_expires_at = expires\<rparr>"
    by (auto simp: claim_task_def Let_def bind_res_Inr_iff lease_post_init_def upd_claim_def
        split: option.splits if_splits)
  have pin: "claimable now k owner x \<Longrightarrow> row_id x = k" for x by (simp add: claimable_def owned_by_def)
  have "row_id (upd_claim w expires now r) = row_id r" by (simp add: upd_claim_def)
  with assms(2) pin r have "sql_update (claimable now k owner) (upd_claim w expires now) db =
      put_row row_id (upd_claim w expires now r) db"
    by (rule sql_update_fetched)
  moreover have "row_of row_id k db = Some r"
    using fetchone_row_of(1) [OF assms(2) r] fetchone_Some [OF r] pin by simp
  ultimately show ?thesis using that r e db' l fetchone_Some [OF r] by blast
qed

interpretation task_lease: fenced_lease "table_ok row_id row_inv" "store_step sha" task_token
  tl_fencing_token holds_task claims_task for sha
proof (unfold_locales, goal_cases)
  case (1 s t)
  then show ?case by (rule tasks.tstep_ok)
next
  case (2 s t k)
  then show ?case unfolding task_token_def
    by (rule tasks.tstep_measure) (auto simp: row_step_token fresh_row_def new_row_def)
next
  case (3 s k l)
  then obtain r where r: "r \<in> set s" "row_id r = k" "held_by l r" by (auto simp: holds_task_def)
  with 3 have "row_of row_id k s = Some r" by (simp add: row_of_Some_iff table_okD)
  with r show ?case by (simp add: task_token_def row_measure_def held_by_def)
next
  case (4 s k l t)
  then obtain now owner w n where "claim_task now k owner w n s = (Inr (Some l), t)"
    by (auto simp: claims_task_def)
  then show ?case using store_step.do_claim [of sha s now k owner w n] by simp
next
  case (5 s k l t)
  then obtain now owner w n where "claim_task now k owner w n s = (Inr (Some l), t)"
    by (auto simp: claims_task_def)
  then show ?case
    using table_okD(1) [OF 5(1)]
    by (rule claim_taskE)
      (auto simp: task_token_def row_measure_def row_of_put_row upd_claim_def dest: row_of_SomeD)
qed

end
