(* ===== verification/TaskFrames.thy ===== *)
theory TaskFrames
  imports TaskSafety
begin

text \<open>
  What the operations of the task store leave alone: a caller whose lease is not the one on the row
  changes nothing, no operation but \<open>link_run\<close> changes a linked Run, and a row's history only
  extends what it recorded before.
\<close>

section \<open>Writes need the lease\<close>

lemma unheld_row: "\<not> holds_task (tl_task_id l) l db \<Longrightarrow> r \<in> set db \<Longrightarrow> \<not> held_by l r"
  using held_by_id by (auto simp: holds_task_def)

lemma unheld_lease_row: "\<not> holds_task (tl_task_id l) l db \<Longrightarrow> r \<in> set db \<Longrightarrow> \<not> lease_row now l r"
  by (blast dest: unheld_row lease_row_held)

lemma unheld_assert:
  assumes "\<not> holds_task (tl_task_id l) l db"
  shows "assert_lease now l db = Inl (TaskConflict C_lease_stale)"
proof -
  have "fetchone (lease_row now l) db = None"
    unfolding fetchone_None using unheld_lease_row [OF assms] by blast
  then show ?thesis by (simp add: assert_lease_def)
qed

lemma unheld_renew:
  assumes "\<not> holds_task (tl_task_id l) l db"
  shows "snd (renew_task now l n db) = db"
proof -
  have "rowcount (lease_row now l) db = 0"
    unfolding rowcount_zero using unheld_lease_row [OF assms] by blast
  then show ?thesis by (simp add: renew_task_def Let_def split: option.splits)
qed

lemma unheld_release: "\<not> holds_task (tl_task_id l) l db \<Longrightarrow> snd (release_task now l db) = db"
  by (simp add: release_task_def ensure_def unheld_assert)

lemma unheld_link: "\<not> holds_task (tl_task_id l) l db \<Longrightarrow> snd (link_run now task_id l run_id db) = db"
  by (simp add: link_run_def unheld_assert split: option.splits)

lemma unheld_advance: "\<not> holds_task (tl_task_id l) l db \<Longrightarrow>
    snd (advance_gate sha now task_id l gs receipt policy root stage db) = db"
  by (simp add: advance_gate_def unheld_assert split: option.splits sum.splits prod.splits)

lemma unheld_finalize: "\<not> holds_task (tl_task_id l) l db \<Longrightarrow>
    snd (finalize_task sha now task_id l gate res root stage db) = db"
  by (simp add: finalize_task_def unheld_assert split: option.splits sum.splits prod.splits)

lemma unheld_complete: "\<not> holds_task (tl_task_id l) l db \<Longrightarrow>
    snd (complete_task sha now task_id l res db) = db"
  by (simp add: complete_task_def unheld_assert unheld_finalize Let_def split: option.splits sum.splits)

section \<open>Linked Runs\<close>

definition linkage :: "task_row \<Rightarrow> string \<times> string option" where
  "linkage r = (row_id r, t_linked_run_id (row_task r))"

definition linked_once :: "task_table \<Rightarrow> bool" where
  "linked_once db \<longleftrightarrow> (\<forall>r \<in> set db. \<forall>r' \<in> set db.
     t_linked_run_id (row_task r) \<noteq> None \<longrightarrow> t_linked_run_id (row_task r) = t_linked_run_id (row_task r') \<longrightarrow>
     row_id r = row_id r')"

lemma linked_once_map: "map linkage db = map linkage db' \<Longrightarrow> linked_once db \<Longrightarrow> linked_once db'"
proof -
  have *: "linked_once db = (\<forall>p \<in> set (map linkage db). \<forall>q \<in> set (map linkage db).
      snd p \<noteq> None \<longrightarrow> snd p = snd q \<longrightarrow> fst p = fst q)" for db
    by (auto simp: linked_once_def linkage_def)
  show "map linkage db = map linkage db' \<Longrightarrow> linked_once db \<Longrightarrow> linked_once db'"
    by (simp only: *)
qed

lemma linkage_commit:
  "(\<And>r. linkage (f r) = linkage r) \<Longrightarrow> map linkage (snd (commit_returning p f c db)) = map linkage db"
  by (simp add: commit_returning_def map_key_sql_update split: option.splits)

lemma linkage_upd:
  "linkage (upd_claim w e now r) = linkage r" "linkage (upd_renew e now r) = linkage r"
  "linkage (upd_release now r) = linkage r" "linkage (upd_advance now gs receipt policy root stage r) = linkage r"
  "linkage (upd_finalize now target res gate root stage r) = linkage r"
  "linkage (upd_complete now target res r) = linkage r" "linkage (upd_cancel_pending now res r) = linkage r"
  "linkage (upd_cancel_running now r) = linkage r" "linkage (upd_resume now r) = linkage r"
  "linkage (upd_materialized r) = linkage r"
  by (simp_all add: linkage_def upd_defs Let_def)

lemma linkage_frames:
  "map linkage (snd (commit_returning p (upd_release now) c db)) = map linkage db"
  "map linkage (snd (commit_returning p (upd_advance now gs receipt policy root stage) c db)) = map linkage db"
  "map linkage (snd (commit_returning p (upd_finalize now target res gate root stage) c db)) = map linkage db"
  "map linkage (snd (commit_returning p (upd_complete now target res) c db)) = map linkage db"
  "map linkage (snd (commit_returning p (upd_cancel_pending now res) c db)) = map linkage db"
  "map linkage (snd (commit_returning p (upd_cancel_running now) c db)) = map linkage db"
  "map linkage (snd (commit_returning p (upd_resume now) c db)) = map linkage db"
  by (simp_all add: linkage_commit linkage_upd)

lemma linkage_finalize: "map linkage (snd (finalize_task sha now task_id l gate res root stage db)) = map linkage db"
  unfolding finalize_task_def
  by (simp add: linkage_frames del: status_state.simps first_failure.simps terminal_task_state.simps
      split: option.split sum.split prod.split)

lemma linked_once_append: "linked_once db \<Longrightarrow> t_linked_run_id (row_task r) = None \<Longrightarrow> linked_once (db @ [r])"
  unfolding linked_once_def set_append list.set by (metis Un_iff insertE empty_iff)

lemma linked_once_update:
  assumes once: "linked_once db" and free: "\<not> run_linked_elsewhere (tl_task_id l) run_id db"
  shows "linked_once (sql_update (link_where l) (upd_link run_id now) db)"
proof -
  let ?f = "\<lambda>r. if link_where l r then upd_link run_id now r else r"
  have id: "row_id (?f r) = row_id r" for r by (simp add: upd_link_def)
  have linked: "t_linked_run_id (row_task (?f r)) =
      (if link_where l r then Some run_id else t_linked_run_id (row_task r))" for r
    by (simp add: upd_link_def)
  have pin: "link_where l r \<Longrightarrow> row_id r = tl_task_id l" for r
    by (simp add: link_where_def owned_by_def)
  have elsewhere: "r \<in> set db \<Longrightarrow> t_linked_run_id (row_task r) = Some run_id \<Longrightarrow> row_id r = tl_task_id l" for r
    using free by (auto simp: run_linked_elsewhere_def)
  have "row_id (?f r) = row_id (?f r')"
    if "r \<in> set db" "r' \<in> set db" "t_linked_run_id (row_task (?f r)) \<noteq> None"
      "t_linked_run_id (row_task (?f r)) = t_linked_run_id (row_task (?f r'))" for r r'
    using that(3,4) once that(1,2) pin [of r] pin [of r'] elsewhere [of r] elsewhere [of r']
    unfolding linked id linked_once_def by (metis (full_types))
  then show ?thesis unfolding linked_once_def set_sql_update by blast
qed

lemma linked_once_link:
  assumes once: "linked_once db"
  shows "linked_once (snd (link_run now task_id l run_id db))"
proof -
  have "linked_once (snd (commit_returning (link_where l) (upd_link run_id now) C_link_fenced db))"
    if "\<not> run_linked_elsewhere (tl_task_id l) run_id db"
    using once linked_once_update [OF once that] by (simp add: commit_returning_def split: option.splits)
  with once show ?thesis by (auto simp: link_run_def split: option.splits sum.splits)
qed

lemma linked_once_step: "store_step sha db db' \<Longrightarrow> linked_once db \<Longrightarrow> linked_once db'"
proof -
  assume step: "store_step sha db db'" and once: "linked_once db"
  have insert: "linked_once (snd (create_insert c db))" for c
    using create_insert_cases [of c db] once linked_once_append [OF once, of "new_row c"]
    by (auto simp: new_row_def)
  have frame: ?thesis if "map linkage db' = map linkage db"
    using that [symmetric] once by (rule linked_once_map)
  show ?thesis using step
  proof cases
    case (do_create now a)
    then show ?thesis using insert once by (auto simp: create_task_def split: option.split sum.split)
  next
    case (do_insert now a c)
    then show ?thesis using insert by simp
  next
    case (do_claim now task_id owner w n)
    then show ?thesis
      by (intro frame) (simp del: first_failure.simps status_state.simps terminal_task_state.simps add: claim_task_def Let_def map_key_sql_update linkage_upd split: option.split)
  next
    case (do_renew now l n)
    then show ?thesis
      by (intro frame) (simp del: first_failure.simps status_state.simps terminal_task_state.simps add: renew_task_def Let_def map_key_sql_update linkage_upd split: option.split)
  next
    case (do_release now l)
    then show ?thesis
      by (intro frame) (simp del: first_failure.simps status_state.simps terminal_task_state.simps add: release_task_def linkage_frames split: sum.split)
  next
    case (do_link now task_id l run_id)
    then show ?thesis using linked_once_link [OF once] by simp
  next
    case (do_advance now task_id l gs receipt policy root stage)
    then show ?thesis
      by (intro frame) (simp del: first_failure.simps status_state.simps terminal_task_state.simps add: advance_gate_def Let_def linkage_frames
          split: option.split sum.split prod.split gate_decision.split)
  next
    case (do_finalize now task_id l gate res root stage)
    then show ?thesis
      by (intro frame) (simp del: first_failure.simps status_state.simps terminal_task_state.simps add: linkage_finalize)
  next
    case (do_complete now task_id l res)
    then show ?thesis
      by (intro frame) (simp del: first_failure.simps status_state.simps terminal_task_state.simps add: complete_task_def Let_def linkage_frames linkage_finalize
          split: option.split sum.split)
  next
    case (do_cancel now task_id owner v)
    then show ?thesis
      by (intro frame) (simp del: first_failure.simps status_state.simps terminal_task_state.simps add: request_cancel_def Let_def linkage_frames split: option.split sum.split)
  next
    case (do_resume now task_id owner v)
    then show ?thesis
      by (intro frame) (simp del: first_failure.simps status_state.simps terminal_task_state.simps add: resume_after_auth_def linkage_frames split: option.split)
  next
    case (do_materialize task_id owner v)
    then show ?thesis
      by (intro frame) (simp del: first_failure.simps status_state.simps terminal_task_state.simps add: mark_ready_outbox_materialized_def map_key_sql_update linkage_upd
          split: option.split)
  qed
qed

lemma reachable_linked_once: "reachable_tasks sha db \<Longrightarrow> linked_once db"
  unfolding reachable_tasks_def
  by (induction rule: rtranclp_induct) (auto simp: linked_once_def [of "[]"] intro: linked_once_step)


section \<open>Histories\<close>

definition same_identity :: "agent_task \<Rightarrow> agent_task \<Rightarrow> bool" where
  "same_identity t u \<longleftrightarrow>
     t_task_id u = t_task_id t \<and> t_owner u = t_owner t \<and> t_session_id u = t_session_id t \<and>
     t_turn_id u = t_turn_id t \<and> t_project_id u = t_project_id t \<and> t_workspace_id u = t_workspace_id t \<and>
     t_task_kind u = t_task_kind t \<and> t_request_key u = t_request_key t \<and> t_request u = t_request t \<and>
     t_envelope u = t_envelope t \<and> t_created_at u = t_created_at t"

definition kept :: "'a option \<Rightarrow> 'a option \<Rightarrow> bool" where
  \<comment> \<open>once set, never changed\<close>
  "kept a b \<longleftrightarrow> a = None \<or> b = a"

definition gate_progress :: "gate_state \<Rightarrow> nat" where
  "gate_progress g = (case gate_rank g of Some n \<Rightarrow> n | None \<Rightarrow> 9)"

definition extends :: "agent_task \<Rightarrow> agent_task \<Rightarrow> bool" where
  "extends t u \<longleftrightarrow> same_identity t u \<and>
     t_version t \<le> t_version u \<and> t_fencing_token t \<le> t_fencing_token u \<and>
     (t_cancel_requested t \<longrightarrow> t_cancel_requested u) \<and>
     kept (t_linked_run_id t) (t_linked_run_id u) \<and>
     kept (t_schedule_receipt t) (t_schedule_receipt u) \<and>
     kept (t_gate_receipt t) (t_gate_receipt u) \<and>
     gate_progress (t_gate_state t) \<le> gate_progress (t_gate_state u)"

lemma extends_refl: "extends t t"
  by (simp add: extends_def same_identity_def kept_def)

lemma kept_trans: "kept a b \<Longrightarrow> kept b c \<Longrightarrow> kept a c"
  by (auto simp: kept_def)

lemma extends_trans: "extends t u \<Longrightarrow> extends u v \<Longrightarrow> extends t v"
  unfolding extends_def same_identity_def by (elim conjE, intro conjI) (auto intro: kept_trans)

lemma gate_progress_bound: "gate_progress g \<le> 9"
  by (cases g) (simp_all add: gate_progress_def)

lemma gate_progress_result: "gate_progress (gate_state_for_result target) = 9"
  by (cases target) (simp_all add: gate_progress_def)

lemma advance_progress:
  assumes "list_all fst (advance_checks r t gs policy root)" and "gs \<noteq> Gate_INPUT_REQUIRED"
  shows "gate_progress (t_gate_state t) \<le> gate_progress gs"
proof -
  from assms(1) have "t_gate_state t \<noteq> Gate_INPUT_REQUIRED"
    and "\<not> the (gate_rank gs) < the (gate_rank (t_gate_state t))"
    by (simp_all add: advance_checks_def)
  with assms(2) show ?thesis
    by (cases gs; cases "t_gate_state t") (simp_all add: gate_progress_def)
qed

lemma advance_extends:
  assumes "row_inv r" and "task_from_row r = Inr t" and "gs \<noteq> Gate_INPUT_REQUIRED"
    and "advance_decide sha r t gs receipt policy root stage = Proceed"
  shows "extends (row_task r) (row_task (upd_advance now gs receipt policy root stage r))"
proof -
  have t: "t = row_task r" using assms(1,2) by (simp add: row_inv_def task_from_row_eq)
  note d = advance_decide_Proceed [OF assms(4)]
  have "kept (t_schedule_receipt (row_task r))
      (case receipt of Schedule x \<Rightarrow> Some x | _ \<Rightarrow> t_schedule_receipt (row_task r))"
    using d(3) t by (auto simp: kept_def receipt_replay_def split: receipt.splits option.splits if_splits)
  moreover have "kept (t_gate_receipt (row_task r))
      (coalesce (case receipt of Gate g \<Rightarrow> Some g | _ \<Rightarrow> None) (t_gate_receipt (row_task r)))"
    using d(3) t by (auto simp: kept_def receipt_replay_def split: receipt.splits option.splits if_splits)
  moreover have "gate_progress (t_gate_state (row_task r)) \<le> gate_progress gs"
    using advance_progress [OF d(1) assms(3)] t by simp
  ultimately show ?thesis
    by (simp add: extends_def same_identity_def upd_advance_def Let_def) (simp add: kept_def)
qed

lemma finalize_extends:
  assumes "row_inv r" and "task_from_row r = Inr t" and "list_all fst (finalize_checks r t gate res root stage)"
  shows "extends (row_task r) (row_task (upd_finalize now target res gate root stage r))"
proof -
  have t: "t = row_task r" using assms(1,2) by (simp add: row_inv_def task_from_row_eq)
  have "kept (t_gate_receipt (row_task r)) (coalesce gate (t_gate_receipt (row_task r)))"
    using assms(3) t by (cases gate) (auto simp: kept_def finalize_checks_def)
  moreover have "gate_progress Gate_COMPLETED = 9" by (simp add: gate_progress_def)
  ultimately show ?thesis
    using gate_progress_bound gate_progress_result
    by (simp add: extends_def same_identity_def upd_finalize_def Let_def) (simp add: kept_def)
qed

lemma step_extends: "row_inv r \<Longrightarrow> row_step sha r r' \<Longrightarrow> extends (row_task r) (row_task r')"
proof (erule row_step.cases, goal_cases)
  case (5 now l rr t gs receipt policy root stage)
  then show ?case using advance_extends by blast
next
  case (6 now l rr t res gate root stage target)
  then show ?case using finalize_extends by blast
qed (simp_all add: upd_defs extends_def same_identity_def kept_def)

lemma step_terminal:
  "terminal_task_state (row_state r) \<Longrightarrow> row_step sha r r' \<Longrightarrow> row_task r' = row_task r"
  by (erule row_step.cases)
    (auto simp: upd_materialized_def claimable_def lease_row_def resumable_def)


text \<open>Where a row comes from: its id is derived from its owner and request key, and both are
  identifiers.\<close>

definition born :: "(string \<Rightarrow> string) \<Rightarrow> task_row \<Rightarrow> bool" where
  "born sha r \<longleftrightarrow> row_id r = new_task_id sha (t_owner (row_task r)) (t_request_key (row_task r)) \<and>
     identifier_ok (row_id r) \<and> identifier_ok (t_owner (row_task r)) \<and>
     identifier_ok (t_request_key (row_task r))"

lemma fresh_born: "fresh_row sha r \<Longrightarrow> born sha r"
proof -
  assume "fresh_row sha r"
  then obtain now a t where t: "new_task sha now a = Inr t" "r = new_row t" by (auto simp: fresh_row_def)
  then have "list_all fst (task_checks t)" "t_task_id t = new_task_id sha (t_owner t) (t_request_key t)"
    using new_task_Inr [OF t(1)] by (simp_all add: task_post_init_def)
  with t(2) show ?thesis by (simp add: born_def new_row_def task_checks_def)
qed

lemma born_step: "row_inv r \<Longrightarrow> born sha r \<Longrightarrow> row_step sha r r' \<Longrightarrow> born sha r'"
  using step_extends [of r sha r'] by (auto simp: born_def extends_def same_identity_def)

lemma reachable_born:
  assumes "reachable_tasks sha db"
  shows "list_all (born sha) db"
  using assms unfolding reachable_tasks_def
proof (induction rule: rtranclp_induct)
  case (step s t)
  have "table_ok row_id row_inv s" using step.hyps(1) by (intro reachable_ok) (simp add: reachable_tasks_def)
  from this step.IH step.hyps(2) fresh_born born_step show ?case by (rule tasks.tstep_keeps)
qed simp

lemma same_request_unique:
  assumes "reachable_tasks sha db" and "r \<in> set db" and "same_request owner key r"
    and "r' \<in> set db" and "same_request owner key r'"
  shows "r = r'"
proof -
  have "born sha r" "born sha r'" using reachable_born [OF assms(1)] assms(2,4) by (simp_all add: list_all_iff)
  with assms(3,5) have "row_id r = row_id r'" by (simp add: born_def same_request_def)
  with table_okD(1) [OF reachable_ok [OF assms(1)]] assms(2,4) show ?thesis by (rule keyed_eqI)
qed

lemma reachable_key_ok:
  assumes "reachable_tasks sha db" and "r \<in> set db"
  shows "key_ok (row_id r) \<and> key_ok (t_owner (row_task r)) \<and> identifier_ok (row_id r) \<and>
    identifier_ok (t_owner (row_task r))"
proof -
  have "born sha r" using reachable_born [OF assms(1)] assms(2) by (simp add: list_all_iff)
  then show ?thesis by (auto simp: born_def identifier_ok_def key_ok_def)
qed

lemma reachable_row_of: "reachable_tasks sha db \<Longrightarrow> r \<in> set db \<Longrightarrow> row_of row_id (row_id r) db = Some r"
  using table_okD(1) [OF reachable_ok] by (simp add: row_of_Some_iff)

lemma reachable_owned:
  "reachable_tasks sha db \<Longrightarrow> r \<in> set db \<Longrightarrow>
    fetchone (owned_by (row_id r) (t_owner (row_task r))) db = Some r"
  using fetchone_pinned [OF table_okD(1) [OF reachable_ok], of sha db "owned_by (row_id r) (t_owner (row_task r))" "row_id r"]
    reachable_row_of [of sha db r]
  by (simp add: owned_by_def)

end
