(* ===== verification/TaskProps.thy ===== *)
theory TaskProps
  imports TaskFrames
begin

text \<open>
  The properties of the agent task store: what a success requires, what a run of the store can
  never undo, how leases exclude each other, and what each operation does on its branches. The
  first section holds one concrete run of the store, at which the properties with hypotheses are
  applied.
\<close>

section \<open>A concrete run\<close>

definition demo_sha :: "string \<Rightarrow> string" where
  "demo_sha s = replicate 64 (CHR ''a'')"

definition demo_digest :: string where
  "demo_digest = replicate 64 (CHR ''0'')"

definition demo_time :: "nat \<Rightarrow> datetime" where
  "demo_time s = DateTime 2026 1 1 0 0 s 0"

definition demo_request :: task_request where
  "demo_request = \<lparr>req_partition = ''cpu'', req_qos = ''normal'', req_cpus = 4, req_memory_mib = 1024,
     req_gpu_type = None, req_gpus = 0, req_walltime_seconds = 600, req_tasks = 1, req_submissions = 1,
     req_workspace_snapshot_digest = demo_digest, req_payload = JObj []\<rparr>"

definition demo_envelope :: envelope where
  "demo_envelope = \<lparr>env_partition = ''cpu'', env_qos = ''normal'', env_cpus = 8, env_memory_mib = 4096,
     env_gpu_type = None, env_gpus = 0, env_walltime_seconds = 3600, env_max_tasks = 1,
     env_max_submissions = 1, env_workspace_snapshot_digest = demo_digest,
     env_expires_at = DateTime 2026 2 1 0 0 0 0, env_approved_by = ''ann''\<rparr>"

definition demo_args :: create_args where
  "demo_args = \<lparr>ca_owner = ''ann'', ca_session_id = ''session'', ca_turn_id = ''turn'',
     ca_project_id = ''project'', ca_workspace_id = ''ws'', ca_task_kind = ''slurm_validation'',
     ca_request_key = ''key'', ca_request = demo_request, ca_envelope = demo_envelope,
     ca_completion_policy = EVIDENCE_REQUIRED\<rparr>"

definition demo_id :: string where
  "demo_id = new_task_id demo_sha ''ann'' ''key''"

definition demo_lease :: "int \<Rightarrow> string \<Rightarrow> nat \<Rightarrow> task_lease" where
  "demo_lease n w s = \<lparr>tl_task_id = demo_id, tl_owner = ''ann'', tl_worker_id = w, tl_version = n,
     tl_fencing_token = n, tl_expires_at = demo_time s\<rparr>"

definition demo_gate :: gate_receipt where
  "demo_gate = \<lparr>gr_task_id = demo_id, gr_run_id = ''run'', gr_run_terminal_state = ''completed'',
     gr_evidence_refs = [''ev''], gr_evidence_digest = demo_digest, gr_integrity_verified_at = demo_time 5,
     gr_workspace_revision = Some 3, gr_workspace_digest = demo_digest, gr_legacy_boundary = False,
     gr_capsule_ref = None, gr_capsule_state = ''not_required'', gr_evidence_state = ''finalized'',
     gr_integrity_state = ''verified'', gr_platform_snapshot_ref = None, gr_source_revision = None,
     gr_terminal_at = None, gr_seal_digest = None, gr_seal_marker_ref = None\<rparr>"

definition demo_result :: "string \<Rightarrow> task_result" where
  "demo_result s = \<lparr>res_status = s, res_evidence_refs = (if s = ''succeeded'' then [''ev''] else []),
     res_error_code = None, res_message = None\<rparr>"

definition demo_task :: agent_task where
  "demo_task = \<lparr>t_task_id = demo_id, t_owner = ''ann'', t_session_id = ''session'', t_turn_id = ''turn'',
     t_project_id = ''project'', t_workspace_id = ''ws'', t_task_kind = ''slurm_validation'',
     t_state = Task_PENDING, t_version = 0, t_request_key = ''key'', t_request = demo_request,
     t_envelope = demo_envelope, t_linked_run_id = None, t_result = None, t_cancel_requested = False,
     t_lease_owner = None, t_lease_expires_at = None, t_fencing_token = 0, t_created_at = demo_time 0,
     t_updated_at = demo_time 0, t_completion_policy = EVIDENCE_REQUIRED, t_gate_state = Gate_CREATED,
     t_schedule_receipt = None, t_gate_receipt = None, t_legacy_gate_unverified = False\<rparr>"

text \<open>Created; claimed by one worker; linked to a Run; finalized with the gate receipt.\<close>

definition demo_created :: task_table where
  "demo_created = [new_row demo_task]"

definition demo_claimed :: task_table where
  "demo_claimed = map (upd_claim ''w1'' (demo_time 11) (demo_time 1)) demo_created"

definition demo_linked :: task_table where
  "demo_linked = map (upd_link ''run'' (demo_time 2)) demo_claimed"

definition demo_done :: task_table where
  "demo_done = map (upd_finalize (demo_time 6) Task_SUCCEEDED (demo_result ''succeeded'') (Some demo_gate)
     (demo_sha []) (Some (demo_sha []))) demo_linked"

lemma list_all_replicate: "list_all p (replicate n c) = (n = 0 \<or> p c)"
  by (simp add: list_all_iff set_replicate_conv_if)

lemmas text_checks = identifier_ok_def id_char_def digest_ok_def hex_char_def bounded_text_def
  key_ok_def list_all_replicate Let_def
lemmas int_checks = positive_int_def non_negative_int_def max_safe_int_def lease_seconds_ok_def limit_ok_def
lemmas demo_defs = demo_time_def demo_request_def demo_envelope_def demo_args_def
  demo_id_def demo_lease_def demo_gate_def demo_result_def new_task_id_def demo_digest_def demo_sha_def

lemma demo_request_ok: "request_post_init demo_request = Inr demo_request"
  by (simp add: request_post_init_def demo_request_def demo_digest_def text_checks int_checks)

lemma demo_envelope_ok: "envelope_post_init demo_envelope = Inr demo_envelope"
  by (simp add: envelope_post_init_def demo_envelope_def demo_digest_def text_checks int_checks)

lemma demo_result_ok: "result_post_init (demo_result ''succeeded'') = Inr (demo_result ''succeeded'')"
  by (simp add: result_post_init_def demo_result_def result_statuses_def text_checks)

lemma demo_gate_ok: "gate_receipt_post_init demo_gate = Inr demo_gate"
  by (simp add: gate_receipt_post_init_def demo_defs run_terminal_states_def capsule_states_def
      text_checks int_checks)

lemma demo_allows: "assert_allows demo_envelope demo_request ''ann'' (demo_time 0) = Inr ()"
  by (simp add: assert_allows_def demo_defs less_eq_datetime_def)

lemma demo_task_ok: "task_post_init demo_task = Inr demo_task"
  by (simp add: task_post_init_def task_checks_def demo_task_def demo_defs option_checks_def
      text_checks int_checks)

lemma demo_create: "create_task demo_sha (demo_time 0) demo_args [] = (Inr (demo_task, True), demo_created)"
proof -
  have "new_task demo_sha (demo_time 0) demo_args = Inr demo_task"
    using demo_request_ok demo_envelope_ok demo_allows demo_task_ok
    by (simp add: new_task_def demo_args_def demo_task_def demo_id_def is_instance_def key_ok_def)
  moreover have "new_row demo_task = (new_row demo_task)\<lparr>row_task := demo_task\<rparr>"
    by (simp add: new_row_def demo_task_def)
  moreover have "create_insert demo_task [] = (Inr (demo_task, True), demo_created)"
    using demo_request_ok demo_envelope_ok demo_task_ok
    by (simp add: create_insert_def demo_created_def same_request_def new_row_def task_from_row_def
        assert_create_replay_def demo_task_def)
  ultimately show ?thesis
    by (simp add: create_task_def demo_args_def key_ok_def)
qed


lemmas claim_demo = claimable_def owned_by_def sql_after_less days_in_month_def
  unleased_def new_row_def demo_task_def demo_defs

lemma demo_claim: "claim_task (demo_time 1) demo_id ''ann'' ''w1'' 10 demo_created =
    (Inr (Some (demo_lease 1 ''w1'' 11)), demo_claimed)"
  by (simp add: claim_task_def demo_created_def demo_claimed_def upd_claim_def lease_post_init_def
      claim_demo text_checks int_checks)

lemma demo_task_from_row:
  "nested_ok (row_task r) \<Longrightarrow> list_all fst (task_checks (row_task r)) \<Longrightarrow> task_from_row r = Inr (row_task r)"
  by (simp add: task_from_row_nested task_post_init_def)

lemma demo_link: "snd (link_run (demo_time 2) demo_id (demo_lease 1 ''w1'' 11) ''run'' demo_claimed) = demo_linked"
  by (simp add: link_run_def demo_created_def demo_claimed_def demo_linked_def upd_claim_def upd_link_def
      assert_lease_def lease_row_def run_linked_elsewhere_def commit_returning_def link_where_def
      claim_demo text_checks)

lemma demo_linked_from_row: "task_from_row (hd demo_linked) = Inr (row_task (hd demo_linked))"
proof (rule demo_task_from_row)
  show "nested_ok (row_task (hd demo_linked))"
    using demo_request_ok demo_envelope_ok
    by (simp add: nested_ok_def demo_linked_def demo_claimed_def demo_created_def upd_link_def
        upd_claim_def new_row_def demo_task_def is_instance_def)
  show "list_all fst (task_checks (row_task (hd demo_linked)))"
    by (simp add: demo_linked_def demo_claimed_def demo_created_def upd_link_def upd_claim_def
        new_row_def demo_task_def demo_defs task_checks_def option_checks_def text_checks int_checks)
qed

lemma demo_linked_row:
  "demo_linked = [hd demo_linked]" "hd demo_linked \<in> set demo_linked"
  "hd demo_linked = upd_link ''run'' (demo_time 2) (upd_claim ''w1'' (demo_time 11) (demo_time 1) (new_row demo_task))"
  by (simp_all add: demo_linked_def demo_claimed_def demo_created_def)

lemma demo_linked_lease: "lease_row (demo_time 6) (demo_lease 1 ''w1'' 11) (hd demo_linked)"
  unfolding demo_linked_row(3) by (simp add: lease_row_def upd_claim_def upd_link_def claim_demo)

lemma demo_sha_const: "demo_sha s = demo_sha []"
  by (simp add: demo_sha_def)

lemma demo_linked_checks: "list_all fst (finalize_checks (hd demo_linked) (row_task (hd demo_linked)) (Some demo_gate)
      (demo_result ''succeeded'') (demo_sha []) (Some (demo_sha [])))"
  unfolding demo_linked_row(3) by (simp add: finalize_checks_def upd_claim_def upd_link_def claim_demo)

lemma demo_ids:
  "key_ok demo_id" "tl_task_id (demo_lease n w e) = demo_id" "tl_owner (demo_lease n w e) = ''ann''"
  by (simp_all add: demo_defs key_ok_def)

lemma demo_keys:
  "stage_key demo_sha None (Some x) = Inr (Some (demo_sha []))" "root_key demo_sha None y = Inr (demo_sha [])"
  by (simp_all add: stage_key_def root_key_def demo_sha_const [of "_ # _"] demo_sha_const [of x])

lemma demo_finalize: "snd (finalize_task demo_sha (demo_time 6) demo_id (demo_lease 1 ''w1'' 11)
    (Some demo_gate) (demo_result ''succeeded'') None None demo_linked) = demo_done"
proof -
  have target: "demo_done = [upd_finalize (demo_time 6) Task_SUCCEEDED (demo_result ''succeeded'') (Some demo_gate)
     (demo_sha []) (Some (demo_sha [])) (hd demo_linked)]"
    by (simp add: demo_done_def demo_linked_def demo_claimed_def demo_created_def)
  note lease = demo_linked_lease
  have checks: "first_failure (finalize_checks (hd demo_linked) (row_task (hd demo_linked)) (Some demo_gate)
      (demo_result ''succeeded'') (demo_sha []) (Some (demo_sha []))) = None"
    using demo_linked_checks by (simp add: first_failure_None)
  have status: "status_state (res_status (demo_result ''succeeded'')) = Some Task_SUCCEEDED"
    by (simp add: demo_result_def)
  have own: "owned_by demo_id ''ann'' (hd demo_linked)" and running: "row_state (hd demo_linked) = Task_RUNNING"
    using lease demo_ids by (simp_all add: lease_row_def)
  have "snd (finalize_task demo_sha (demo_time 6) demo_id (demo_lease 1 ''w1'' 11)
      (Some demo_gate) (demo_result ''succeeded'') None None [hd demo_linked]) = demo_done"
    using demo_linked_from_row lease checks status demo_ids own running lease_row_held [OF lease] demo_gate_ok demo_result_ok
    by (simp add: finalize_task_def demo_keys
        assert_lease_def commit_returning_def is_instance_def target del: status_state.simps)
  then show ?thesis using demo_linked_row(1) by simp
qed

lemma demo_steps:
  "store_step demo_sha [] demo_created" "store_step demo_sha demo_created demo_claimed"
  "store_step demo_sha demo_claimed demo_linked" "store_step demo_sha demo_linked demo_done"
  using do_create [of demo_sha "[]" "demo_time 0" demo_args] demo_create
    do_claim [of demo_sha demo_created "demo_time 1" demo_id "''ann''" "''w1''" 10] demo_claim
    do_link [of demo_sha demo_claimed "demo_time 2" demo_id "demo_lease 1 ''w1'' 11" "''run''"] demo_link
    do_finalize [of demo_sha demo_linked "demo_time 6" demo_id "demo_lease 1 ''w1'' 11" "Some demo_gate"
      "demo_result ''succeeded''" None None] demo_finalize
  by simp_all

lemma reachable_step: "reachable_tasks sha db \<Longrightarrow> store_step sha db db' \<Longrightarrow> reachable_tasks sha db'"
  unfolding reachable_tasks_def by (rule rtranclp.rtrancl_into_rtrancl)

lemma reachable_Nil: "reachable_tasks sha []"
  by (simp add: reachable_tasks_def)

lemmas demo_reachable_created = reachable_step [OF reachable_Nil demo_steps(1)]
lemmas demo_reachable_claimed = reachable_step [OF demo_reachable_created demo_steps(2)]
lemmas demo_reachable_linked = reachable_step [OF demo_reachable_claimed demo_steps(3)]
lemmas demo_reachable_done = reachable_step [OF demo_reachable_linked demo_steps(4)]


section \<open>Success\<close>

text \<open>C2. In every table the store can reach, a task in state \<open>succeeded\<close> carries a gate receipt that is
  a valid \<open>AgentTaskGateReceipt\<close> for this very task and its linked Run, whose Run completed, whose
  evidence is finalized and its integrity verified, with a READY Capsule where the completion policy
  requires one; its gate is \<open>completed\<close> and its result reports exactly the receipt's evidence.\<close>

theorem success_requires_verified_gate:
  assumes "reachable_tasks sha db" and "r \<in> set db" and "row_state r = Task_SUCCEEDED"
  shows "verified_success r"
  using reachable_row_inv [OF assms(1,2)] assms(3) by (simp add: row_inv_def success_inv_def)

theorem success_requires_verified_gate_witness:
  "reachable_tasks demo_sha demo_done \<and> row_state (hd demo_done) = Task_SUCCEEDED \<and> verified_success (hd demo_done)"
  using success_requires_verified_gate [OF demo_reachable_done, of "hd demo_done"] demo_reachable_done
  by (simp add: demo_done_def demo_linked_def demo_claimed_def demo_created_def upd_finalize_def Let_def)

section \<open>Histories\<close>

text \<open>Once a task is succeeded, failed or cancelled, no sequence of store calls, by any worker with any
  arguments, changes its record in any field.\<close>

theorem terminal_task_frozen:
  assumes "reachable_tasks sha db" and "(store_step sha)\<^sup>*\<^sup>* db db'"
    and "row_of row_id k db = Some r" and "terminal_task_state (row_state r)"
  shows "\<exists>r'. row_of row_id k db' = Some r' \<and> row_task r' = row_task r"
  using assms(2) reachable_ok [OF assms(1)] assms(3)
proof (rule tasks.run_rel [where R = "\<lambda>_ x. row_task x = row_task r"])
  show "row_task y = row_task r" if "row_task x = row_task r" "row_step sha x y" for x y
    using step_terminal [OF _ that(2)] assms(4) that(1) by simp
qed simp

theorem terminal_task_frozen_witness:
  "\<exists>r'. row_of row_id demo_id (snd (claim_task (demo_time 30) demo_id ''ann'' ''w2'' 10 demo_done)) = Some r' \<and>
     row_task r' = row_task (hd demo_done)"
  using do_claim [of demo_sha demo_done "demo_time 30" demo_id "''ann''" "''w2''" 10]
  by (intro terminal_task_frozen [OF demo_reachable_done r_into_rtranclp])
    (simp_all add: demo_done_def demo_linked_def demo_claimed_def demo_created_def upd_finalize_def
      upd_link_def upd_claim_def new_row_def demo_task_def Let_def)

text \<open>C33. Along every run of the store a task keeps its identity, request and envelope; its version,
  fencing token and gate progress never decrease; a cancel request is never withdrawn; and its
  linked Run, schedule receipt and gate receipt, once written, are never replaced.\<close>

theorem task_history_extends:
  assumes "reachable_tasks sha db" and "(store_step sha)\<^sup>*\<^sup>* db db'" and "row_of row_id k db = Some r"
  shows "\<exists>r'. row_of row_id k db' = Some r' \<and> extends (row_task r) (row_task r')"
  using assms(2) reachable_ok [OF assms(1)] assms(3) extends_refl
  by (rule tasks.run_rel [where R = "\<lambda>x y. extends (row_task x) (row_task y)"])
    (blast intro: extends_trans step_extends)

theorem task_history_extends_witness:
  "\<exists>r'. row_of row_id demo_id demo_done = Some r' \<and> extends (row_task (hd demo_linked)) (row_task r')"
  by (rule task_history_extends [OF demo_reachable_linked r_into_rtranclp [of "store_step demo_sha", OF demo_steps(4)]])
    (simp add: demo_linked_def demo_claimed_def demo_created_def upd_link_def upd_claim_def new_row_def demo_task_def)

text \<open>At most one task is ever linked to a Run.\<close>

theorem run_linked_to_one_task:
  assumes "reachable_tasks sha db" and "r \<in> set db" and "r' \<in> set db"
    and "t_linked_run_id (row_task r) = Some run" and "t_linked_run_id (row_task r') = Some run"
  shows "r = r'"
proof -
  have "row_id r = row_id r'"
    using reachable_linked_once [OF assms(1)] assms(2-5) unfolding linked_once_def by (metis option.distinct(1))
  with table_okD(1) [OF reachable_ok [OF assms(1)]] assms(2,3) show ?thesis by (rule keyed_eqI)
qed

theorem run_linked_to_one_task_witness:
  "reachable_tasks demo_sha demo_linked \<and> hd demo_linked \<in> set demo_linked \<and>
     t_linked_run_id (row_task (hd demo_linked)) = Some ''run'' \<and> hd demo_linked = last demo_linked"
  using run_linked_to_one_task [OF demo_reachable_linked, of "hd demo_linked" "last demo_linked" "''run''"]
    demo_reachable_linked
  by (simp add: demo_linked_def demo_claimed_def demo_created_def upd_link_def)

section \<open>Leases\<close>

text \<open>C3. Once a newer lease of a task has been issued, an older one changes nothing, whatever happened
  in between: renewing, releasing, linking a Run, advancing the gate, finalizing and completing
  under it all leave the table as it is.\<close>

theorem superseded_lease_is_powerless:
  assumes "reachable_tasks sha db" and "holds_task k old db" and "claims_task k new db db1"
    and "(store_step sha)\<^sup>*\<^sup>* db1 db2"
  shows "snd (renew_task now old n db2) = db2 \<and> snd (release_task now old db2) = db2 \<and>
    snd (link_run now task_id old run_id db2) = db2 \<and>
    snd (advance_gate sha now task_id old gs receipt policy root stage db2) = db2 \<and>
    snd (finalize_task sha now task_id old gate res root stage db2) = db2 \<and>
    snd (complete_task sha now task_id old res db2) = db2"
proof -
  have "\<not> holds_task k old db2"
    using reachable_ok [OF assms(1)] assms(2-4) by (rule task_lease.superseded)
  moreover have "k = tl_task_id old"
    using assms(2) by (auto simp: holds_task_def held_by_def owned_by_def)
  ultimately have "\<not> holds_task (tl_task_id old) old db2" by simp
  then show ?thesis
    by (simp add: unheld_renew unheld_release unheld_link unheld_advance unheld_finalize unheld_complete)
qed

definition demo_reclaimed :: task_table where
  "demo_reclaimed = map (upd_claim ''w2'' (demo_time 22) (demo_time 12)) demo_claimed"

lemma demo_reclaim: "claim_task (demo_time 12) demo_id ''ann'' ''w2'' 10 demo_claimed =
    (Inr (Some (demo_lease 2 ''w2'' 22)), demo_reclaimed)"
  by (simp add: claim_task_def demo_created_def demo_claimed_def demo_reclaimed_def upd_claim_def
      lease_post_init_def sql_upto_not_after claim_demo text_checks int_checks)

theorem superseded_lease_is_powerless_witness:
  "holds_task demo_id (demo_lease 1 ''w1'' 11) demo_claimed \<and>
   snd (renew_task (demo_time 13) (demo_lease 1 ''w1'' 11) 10 demo_reclaimed) = demo_reclaimed"
proof -
  have "holds_task demo_id (demo_lease 1 ''w1'' 11) demo_claimed"
    by (simp add: holds_task_def demo_claimed_def demo_created_def upd_claim_def held_by_def claim_demo)
  moreover have "claims_task demo_id (demo_lease 2 ''w2'' 22) demo_claimed demo_reclaimed"
    unfolding claims_task_def using demo_reclaim by blast
  ultimately show ?thesis
    using superseded_lease_is_powerless [OF demo_reachable_claimed, of demo_id "demo_lease 1 ''w1'' 11"
      "demo_lease 2 ''w2'' 22" demo_reclaimed demo_reclaimed] by simp
qed


lemma claim_task_None:
  assumes "fetchone (claimable now k owner) db = None"
  shows "snd (claim_task now k owner w n db) = db \<and> fst (claim_task now k owner w n db) \<noteq> Inr (Some l)"
  using assms by (simp add: claim_task_def Let_def split: option.splits)

text \<open>While a lease has not expired, to the second, no worker can claim the task: the claim returns no
  lease and the table stays as it is.\<close>

theorem live_lease_excludes_claims:
  assumes "reachable_tasks sha db" and "r \<in> set db" and "row_state r = Task_RUNNING"
    and "t_lease_owner (row_task r) = Some w" and "t_lease_expires_at (row_task r) = Some e"
    and "valid_datetime e" and "valid_datetime now" and "second_key now < second_key e"
  shows "snd (claim_task now (row_id r) owner w' n db) = db \<and>
    fst (claim_task now (row_id r) owner w' n db) \<noteq> Inr (Some l)"
proof (rule claim_task_None)
  have "\<not> claimable now (row_id r) owner x" if "x \<in> set db" for x
  proof
    assume c: "claimable now (row_id r) owner x"
    then have "row_id x = row_id r" by (simp add: claimable_def owned_by_def)
    with table_okD(1) [OF reachable_ok [OF assms(1)]] that assms(2) have "x = r" by (rule keyed_eqI)
    with c assms(3-8) show False
      by (simp add: claimable_def unleased_def sql_upto_not_after sql_after_less)
  qed
  then show "fetchone (claimable now (row_id r) owner) db = None" by (simp add: fetchone_None)
qed

theorem live_lease_excludes_claims_witness:
  "snd (claim_task (demo_time 10) demo_id ''ann'' ''w2'' 10 demo_claimed) = demo_claimed"
proof -
  have row: "row_id (hd demo_claimed) = demo_id" by (simp add: demo_claimed_def demo_created_def upd_claim_def claim_demo)
  show ?thesis
    using live_lease_excludes_claims [OF demo_reachable_claimed, of "hd demo_claimed" "''w1''" "demo_time 11" "demo_time 10"]
    by (simp add: row) (simp add: demo_claimed_def demo_created_def upd_claim_def demo_time_def days_in_month_def)
qed

text \<open>A pending task that is neither cancelled nor past its envelope, and a running task without a live
  lease, can be claimed by any worker with a valid identifier: the claim returns a lease with the
  next fencing token and the next version, and the row is running under that lease.\<close>

theorem claim_succeeds:
  assumes "reachable_tasks sha db" and "r \<in> set db" and "claimable now (row_id r) (t_owner (row_task r)) r"
    and "identifier_ok w" and "1 \<le> n" and "n \<le> 3600" and "add_seconds (nat n) now = Some e"
    and "t_version (row_task r) < max_safe_int"
  shows "claim_task now (row_id r) (t_owner (row_task r)) w n db =
    (Inr (Some \<lparr>tl_task_id = row_id r, tl_owner = t_owner (row_task r), tl_worker_id = w,
        tl_version = t_version (row_task r) + 1, tl_fencing_token = t_fencing_token (row_task r) + 1,
        tl_expires_at = e\<rparr>),
     put_row row_id (upd_claim w e now r) db)"
proof -
  let ?p = "claimable now (row_id r) (t_owner (row_task r))"
  have inv: "lease_inv r" using reachable_row_inv [OF assms(1,2)] by (simp add: row_inv_def)
  have key: "keyed row_id db" using reachable_ok [OF assms(1)] by (rule table_okD)
  have pin: "?p x \<Longrightarrow> row_id x = row_id r" for x by (simp add: claimable_def owned_by_def)
  have fetch: "fetchone ?p db = Some r"
    using fetchone_pinned [OF key pin] reachable_row_of [OF assms(1,2)] assms(3) by simp
  have put: "sql_update ?p (upd_claim w e now) db = put_row row_id (upd_claim w e now r) db"
    using sql_update_fetched [OF key pin fetch, of "upd_claim w e now"] by (simp add: upd_claim_def)
  have w: "key_ok w" using assms(4) by (auto simp: identifier_ok_def key_ok_def)
  show ?thesis
    using reachable_key_ok [OF assms(1,2)] w assms(4-8) inv
    by (simp add: claim_task_def lease_seconds_ok_def fetch put)
      (simp add: lease_post_init_def upd_claim_def non_negative_int_def positive_int_def lease_inv_def)
qed

theorem claim_succeeds_witness:
  "fst (claim_task (demo_time 1) demo_id ''ann'' ''w1'' 10 demo_created) = Inr (Some (demo_lease 1 ''w1'' 11))"
proof -
  have row: "hd demo_created = new_row demo_task" by (simp add: demo_created_def)
  have id: "row_id (new_row demo_task) = demo_id" "t_owner (row_task (new_row demo_task)) = ''ann''"
    by (simp_all add: new_row_def demo_task_def)
  have c: "claimable (demo_time 1) demo_id ''ann'' (new_row demo_task)" by (simp add: claim_demo)
  show ?thesis
    using claim_succeeds [OF demo_reachable_created, of "new_row demo_task" "demo_time 1" "''w1''" 10 "demo_time 11"] c
    by (simp add: id demo_created_def)
      (simp add: text_checks int_checks demo_time_def demo_lease_def new_row_def demo_task_def)
qed

text \<open>Creation is idempotent per owner and request key: after a successful \<open>create_task\<close>, and any calls
  since, another \<open>create_task\<close> with the same owner and key never changes the table; when it returns, it
  returns the same task, as not newly created, and only if all its arguments equal the stored ones.\<close>

theorem create_task_once:
  assumes "reachable_tasks sha db" and "create_task sha now a db = (Inr (t, b), db1)"
    and "(store_step sha)\<^sup>*\<^sup>* db1 db2"
    and "ca_owner a' = ca_owner a" and "ca_request_key a' = ca_request_key a"
  shows "snd (create_task sha now' a' db2) = db2 \<and>
    (\<forall>t' b'. fst (create_task sha now' a' db2) = Inr (t', b') \<longrightarrow>
       \<not> b' \<and> same_identity t t' \<and> assert_create_arguments t' a')"
proof -
  let ?same = "same_request (ca_owner a) (ca_request_key a)"
  have db1: "reachable_tasks sha db1"
    using reachable_step [OF assms(1) do_create [of sha db now a]] assms(2) by simp
  have db2: "reachable_tasks sha db2"
    using db1 assms(3) unfolding reachable_tasks_def by (rule rtranclp_trans)
  have key: "t_owner c = ca_owner a \<and> t_request_key c = ca_request_key a" if "new_task sha now a = Inr c" for c
    using that by (auto simp: new_task_def bind_res_Inr_iff task_post_init_def)
  from assms(2) obtain r where r: "r \<in> set db1" "?same r" "task_from_row r = Inr t"
    using key
    by (auto simp: create_task_def create_insert_def Let_def bind_res_Inr_iff dest!: fetchone_Some
        split: option.splits sum.splits if_splits)
  then have t: "t = row_task r"
    using reachable_row_inv [OF db1 r(1)] by (simp add: row_inv_def task_from_row_eq)
  obtain r' where r': "row_of row_id (row_id r) db2 = Some r'" "extends (row_task r) (row_task r')"
    using tasks.run_rel [OF assms(3) reachable_ok [OF db1] reachable_row_of [OF db1 r(1)],
        where R = "\<lambda>x y. extends (row_task x) (row_task y)"] extends_refl extends_trans step_extends by metis
  have mem: "r' \<in> set db2" using r'(1) by (auto dest: row_of_SomeD)
  have same: "?same r'" using r(2) r'(2) by (simp add: same_request_def extends_def same_identity_def)
  have fetch: "fetchone ?same db2 = Some r'"
  proof (cases "fetchone ?same db2")
    case None
    with mem same show ?thesis by (simp add: fetchone_None)
  next
    case (Some x)
    with fetchone_Some [OF Some] same_request_unique [OF db2 mem same, of x] show ?thesis by simp
  qed
  have "task_from_row r' = Inr t' \<Longrightarrow> t' = row_task r'" for t'
    using reachable_row_inv [OF db2 mem] by (simp add: row_inv_def task_from_row_eq)
  with fetch r'(2) assms(4,5) t show ?thesis
    by (auto simp: create_task_def bind_res_Inr_iff extends_def split: option.splits if_splits)
qed

theorem create_task_once_witness:
  "create_task demo_sha (demo_time 0) demo_args [] = (Inr (demo_task, True), demo_created) \<and>
   snd (create_task demo_sha (demo_time 40) demo_args demo_done) = demo_done"
proof -
  have run: "(store_step demo_sha)\<^sup>*\<^sup>* demo_created demo_done"
    using demo_steps(2-4) by (meson converse_rtranclp_into_rtranclp rtranclp.rtrancl_refl)
  from create_task_once [OF reachable_Nil demo_create run] demo_create show ?thesis by simp
qed


section \<open>Cancelling and finalizing\<close>

lemma commit_at:
  assumes "keyed row_id db" and "\<And>x. p x \<Longrightarrow> row_id x = row_id r" and "r \<in> set db" and "p r"
    and "row_id (f r) = row_id r"
  shows "commit_returning p f c db = (task_from_row (f r), put_row row_id (f r) db)"
proof -
  have "row_of row_id (row_id r) db = Some r" using assms(1,3) by (simp add: row_of_Some_iff)
  then have fetch: "fetchone p db = Some r" using fetchone_pinned [OF assms(1,2)] assms(4) by simp
  then have "sql_update p f db = put_row row_id (f r) db"
    using sql_update_fetched [OF assms(1,2) fetch, of f] assms(5) by simp
  with fetch show ?thesis by (simp add: commit_returning_def)
qed

text \<open>What a decoding of the row after an update depends on: the update's new fields.\<close>

lemma decode_update:
  assumes "nested_ok (row_task r')" and "list_all fst (task_checks (row_task r'))"
  shows "task_from_row r' = Inr (row_task r')"
  using assms by (simp add: task_from_row_nested task_post_init_def)

lemma decode_checks: "nested_ok (row_task r) \<Longrightarrow> task_from_row r = Inr t \<Longrightarrow>
    t = row_task r \<and> list_all fst (task_checks (row_task r))"
  using task_from_row_eq [of r t] by (auto simp: task_from_row_nested task_post_init_def)

definition cancelled_result :: task_result where
  "cancelled_result = \<lparr>res_status = ''cancelled'', res_evidence_refs = [], res_error_code = None,
     res_message = Some ''cancelled before execution''\<rparr>"

lemma cancelled_result_ok: "result_cancelled (Some ''cancelled before execution'') = Inr cancelled_result"
  by (simp add: result_cancelled_def cancelled_result_def result_post_init_def result_statuses_def bounded_text_def)

lemmas receipt_check_defs = option_checks_def schedule_receipt_checks_def gate_receipt_checks_def

text \<open>Cancelling a task that has not started, or that waits for authorization, ends it at once, with a
  result and a ready-outbox entry; cancelling a running task only records the request: state,
  version and lease stay, and every lease that held still holds.\<close>

theorem cancel_semantics:
  assumes "reachable_tasks sha db" and "r \<in> set db" and "task_from_row r = Inr t"
    and "\<not> terminal_task_state (row_state r)" and "\<not> t_cancel_requested (row_task r)"
    and "t_version (row_task r) < max_safe_int"
  shows "(if row_state r = Task_RUNNING
     then request_cancel now (row_id r) (t_owner (row_task r)) (t_version (row_task r)) db =
            (Inr ((row_task r)\<lparr>t_cancel_requested := True, t_updated_at := now\<rparr>),
             put_row row_id (upd_cancel_running now r) db) \<and>
          (\<forall>l. held_by l (upd_cancel_running now r) = held_by l r)
     else request_cancel now (row_id r) (t_owner (row_task r)) (t_version (row_task r)) db =
            (Inr (row_task (upd_cancel_pending now cancelled_result r)),
             put_row row_id (upd_cancel_pending now cancelled_result r) db) \<and>
          t_state (row_task (upd_cancel_pending now cancelled_result r)) = Task_CANCELLED)"
proof -
  let ?id = "row_id r" and ?o = "t_owner (row_task r)" and ?v = "t_version (row_task r)"
  have key: "keyed row_id db" using reachable_ok [OF assms(1)] by (rule table_okD)
  have inv: "row_inv r" using assms(1,2) by (rule reachable_row_inv)
  then have nested: "nested_ok (row_task r)" by (simp add: row_inv_def)
  have ids: "key_ok ?id" "key_ok ?o" "version_ok ?v"
    using reachable_key_ok [OF assms(1,2)] inv by (auto simp: row_inv_def lease_inv_def version_ok_def)
  have t: "t = row_task r" and checks: "list_all fst (task_checks (row_task r))"
    using decode_checks [OF nested assms(3)] by auto
  have lease: "row_state r \<noteq> Task_RUNNING \<Longrightarrow> t_lease_owner (row_task r) = None \<and> t_lease_expires_at (row_task r) = None"
    using inv by (auto simp: row_inv_def lease_inv_def)
  have nested1: "nested_ok (row_task (upd_cancel_running now r))"
    using nested by (simp add: nested_ok_def upd_cancel_running_def)
  have checks1: "list_all fst (task_checks (row_task (upd_cancel_running now r)))"
    using checks by (auto simp: task_checks_def upd_cancel_running_def receipt_check_defs split: option.splits)
  have nested2: "nested_ok (row_task (upd_cancel_pending now cancelled_result r))"
    using nested result_cancelled_instance [OF cancelled_result_ok] by (simp add: nested_ok_def upd_cancel_pending_def)
  have checks2: "list_all fst (task_checks (row_task (upd_cancel_pending now cancelled_result r)))"
    using checks assms(6)
    by (auto simp: task_checks_def upd_cancel_pending_def receipt_check_defs cancelled_result_def non_negative_int_def
        split: option.splits)
  have running: "commit_returning (cancel_running_where ?id ?o ?v) (upd_cancel_running now) C_cancel_fenced db =
      (Inr (row_task (upd_cancel_running now r)), put_row row_id (upd_cancel_running now r) db)"
    if "row_state r = Task_RUNNING"
    using commit_at [OF key _ assms(2), of "cancel_running_where ?id ?o ?v" "upd_cancel_running now" C_cancel_fenced]
      decode_update [OF nested1 checks1] that
    by (simp add: cancel_running_where_def owned_by_def) (simp add: upd_cancel_running_def)
  have pending: "commit_returning (cancel_pending_where ?id ?o ?v) (upd_cancel_pending now cancelled_result) C_cancel_fenced db =
      (Inr (row_task (upd_cancel_pending now cancelled_result r)), put_row row_id (upd_cancel_pending now cancelled_result r) db)"
    using commit_at [OF key _ assms(2), of "cancel_pending_where ?id ?o ?v" "upd_cancel_pending now cancelled_result" C_cancel_fenced]
      decode_update [OF nested2 checks2]
    by (simp add: cancel_pending_where_def owned_by_def) (simp add: upd_cancel_pending_def)
  have "request_cancel now ?id ?o ?v db =
      (if row_state r = Task_RUNNING
       then commit_returning (cancel_running_where ?id ?o ?v) (upd_cancel_running now) C_cancel_fenced db
       else commit_returning (cancel_pending_where ?id ?o ?v) (upd_cancel_pending now cancelled_result) C_cancel_fenced db)"
    using assms(3-5) t ids reachable_owned [OF assms(1,2)] cancelled_result_ok
    by (cases "row_state r") (simp_all add: request_cancel_def)
  then show ?thesis
    using running pending
    by (simp add: upd_cancel_running_def held_by_def owned_by_def) (simp add: upd_cancel_pending_def)
qed

lemma demo_new_row:
  "row_id (new_row demo_task) = demo_id" "t_owner (row_task (new_row demo_task)) = ''ann''"
  "t_version (row_task (new_row demo_task)) = 0" "row_state (new_row demo_task) = Task_PENDING"
  "\<not> t_cancel_requested (row_task (new_row demo_task))"
  by (simp_all add: new_row_def demo_task_def)

theorem cancel_semantics_witness:
  "fst (request_cancel (demo_time 1) demo_id ''ann'' 0 demo_created) =
     Inr (row_task (upd_cancel_pending (demo_time 1) cancelled_result (new_row demo_task)))"
proof -
  have decode: "task_from_row (new_row demo_task) = Inr demo_task"
    using demo_request_ok demo_envelope_ok demo_task_ok
    by (simp add: task_from_row_def new_row_def demo_task_def Let_def)
  show ?thesis
    using cancel_semantics [OF demo_reachable_created _ decode, of "demo_time 1"]
    by (simp add: demo_created_def demo_new_row max_safe_int_def)
qed


text \<open>Under a live lease, with a valid gate receipt and result that pass the finalization checks, a
  successful finalization commits and returns the succeeded task.\<close>

theorem finalize_commits:
  assumes "reachable_tasks sha db" and "r \<in> set db" and "lease_row now l r" and "task_from_row r = Inr t"
    and "is_instance gate_receipt_post_init g" and "is_instance result_post_init res"
    and "res_status res = ''succeeded''"
    and "stage_key sha stage (Some (dumps (gate_receipt_payload g))) = Inr s"
    and "root_key sha root (row_id r) = Inr rt"
    and "list_all fst (finalize_checks r t (Some g) res rt s)" and "t_version t < max_safe_int"
  shows "finalize_task sha now (row_id r) l (Some g) res root stage db =
    (Inr (row_task (upd_finalize now Task_SUCCEEDED res (Some g) rt s r)),
     put_row row_id (upd_finalize now Task_SUCCEEDED res (Some g) rt s r) db)"
proof -
  let ?r' = "upd_finalize now Task_SUCCEEDED res (Some g) rt s r"
  have key: "keyed row_id db" using reachable_ok [OF assms(1)] by (rule table_okD)
  have inv: "row_inv r" using assms(1,2) by (rule reachable_row_inv)
  then have nested: "nested_ok (row_task r)" by (simp add: row_inv_def)
  have t: "t = row_task r" and checks: "list_all fst (task_checks (row_task r))"
    using decode_checks [OF nested assms(4)] by auto
  have own: "fetchone (owned_by (row_id r) (tl_owner l)) db = Some r"
    using reachable_owned [OF assms(1,2)] assms(3) by (simp add: lease_row_def owned_by_def)
  have pin: "lease_row now l x \<Longrightarrow> row_id x = tl_task_id l" for x by (rule lease_row_id)
  have id: "tl_task_id l = row_id r" using lease_row_id [OF assms(3)] by simp
  have lease: "fetchone (lease_row now l) db = Some r"
    using fetchone_pinned [OF key pin] reachable_row_of [OF assms(1,2)] assms(3) id by simp
  have version: "0 \<le> t_version (row_task r)" using inv by (auto simp: row_inv_def lease_inv_def)
  have sched: "list_all fst (option_checks (schedule_receipt_checks (row_task ?r')) (t_schedule_receipt (row_task ?r')))"
    using checks
    by (cases "t_schedule_receipt (row_task r)")
      (simp_all add: task_checks_def option_checks_def schedule_receipt_checks_def upd_finalize_def Let_def)
  have gate: "list_all fst (option_checks (gate_receipt_checks (row_task ?r')) (t_gate_receipt (row_task ?r')))"
    using assms(10) t
    by (simp add: finalize_checks_def option_checks_def gate_receipt_checks_def upd_finalize_def Let_def)
  have "nested_ok (row_task ?r')"
    using nested assms(5,6) by (simp add: nested_ok_def upd_finalize_def Let_def)
  moreover have "list_all fst (task_checks (row_task ?r'))"
  proof -
    have fields: "same_identity (row_task r) (row_task ?r')" "row_state ?r' = Task_SUCCEEDED"
      "t_result (row_task ?r') = Some res" "t_version (row_task ?r') = t_version (row_task r) + 1"
      "t_fencing_token (row_task ?r') = t_fencing_token (row_task r)"
      "t_linked_run_id (row_task ?r') = t_linked_run_id (row_task r)"
      "t_lease_owner (row_task ?r') = None" "t_lease_expires_at (row_task ?r') = None"
      by (simp_all add: upd_finalize_def Let_def same_identity_def)
    show ?thesis
      using checks assms(7,11) t version fields(1)
      by (simp add: task_checks_def sched gate fields non_negative_int_def same_identity_def)
  qed
  ultimately have decode: "task_from_row ?r' = Inr (row_task ?r')" by (rule decode_update)
  have commit: "commit_returning (held_by l) (upd_finalize now Task_SUCCEEDED res (Some g) rt s) C_finalization_fenced db =
      (Inr (row_task ?r'), put_row row_id ?r' db)"
  proof -
    have pin: "held_by l x \<Longrightarrow> row_id x = row_id r" for x using held_by_id [of l x] id by simp
    have "row_id ?r' = row_id r" by (simp add: upd_finalize_def Let_def)
    with key pin assms(2) lease_row_held [OF assms(3)]
    have "commit_returning (held_by l) (upd_finalize now Task_SUCCEEDED res (Some g) rt s) C_finalization_fenced db =
        (task_from_row ?r', put_row row_id ?r' db)"
      by (rule commit_at)
    with decode show ?thesis by simp
  qed
  have status: "status_state (res_status res) = Some Task_SUCCEEDED" using assms(7) by simp
  show ?thesis
    using assms(4-6,8,9,10) own lease commit id status reachable_key_ok [OF assms(1,2)] t lease_row_running [OF assms(3)]
    by (simp add: finalize_task_def assert_lease_def first_failure_None [THEN iffD2] del: status_state.simps)
qed


theorem finalize_commits_witness:
  "fst (finalize_task demo_sha (demo_time 6) demo_id (demo_lease 1 ''w1'' 11)
     (Some demo_gate) (demo_result ''succeeded'') None None demo_linked) = Inr (row_task (hd demo_done))"
proof -
  have id: "row_id (hd demo_linked) = demo_id"
    using lease_row_id [OF demo_linked_lease] demo_ids by simp
  show ?thesis
    using finalize_commits [OF demo_reachable_linked demo_linked_row(2) demo_linked_lease demo_linked_from_row,
        where g = demo_gate and res = "demo_result ''succeeded''" and stage = None and s = "Some (demo_sha [])"
          and root = None and rt = "demo_sha []"]
      demo_gate_ok demo_result_ok demo_linked_checks
    by (simp add: is_instance_def demo_keys id)
      (simp add: demo_result_def demo_linked_row(3) upd_link_def upd_claim_def demo_new_row max_safe_int_def
        demo_done_def demo_linked_def demo_claimed_def demo_created_def)
qed


section \<open>The resource envelope\<close>

text \<open>The envelope lets a request pass exactly when its approver is the owner, it has not expired, the
  partition, QoS and workspace snapshot agree, the GPU type agrees when GPUs are asked for, and no
  quantity exceeds the approved one.\<close>

theorem assert_allows_iff:
  "assert_allows e q owner now = Inr () \<longleftrightarrow>
     env_approved_by e = owner \<and> now < env_expires_at e \<and>
     req_partition q = env_partition e \<and> req_qos q = env_qos e \<and>
     req_workspace_snapshot_digest q = env_workspace_snapshot_digest e \<and>
     (req_gpus q = 0 \<or> req_gpu_type q = env_gpu_type e) \<and>
     req_cpus q \<le> env_cpus e \<and> req_memory_mib q \<le> env_memory_mib e \<and> req_gpus q \<le> env_gpus e \<and>
     req_walltime_seconds q \<le> env_walltime_seconds e \<and> req_tasks q \<le> env_max_tasks e \<and>
     req_submissions q \<le> env_max_submissions e"
  by (auto simp: assert_allows_def)

section \<open>Where the code departs from its intent\<close>

text \<open>Expiry texts are compared as texts, and \<open>.\<close> sorts before \<open>Z\<close>: a lease that expires within the
  current second can be claimed by another worker although its expiry time has not come.\<close>

theorem lease_expires_early:
  assumes "row_state r = Task_RUNNING" and "t_lease_owner (row_task r) = Some w"
    and "t_lease_expires_at (row_task r) = Some e" and "valid_datetime e" and "valid_datetime now"
    and "second_key e = second_key now" and "dt_micro now = 0" and "dt_micro e \<noteq> 0"
  shows "now < e \<and> claimable now (row_id r) (t_owner (row_task r)) r"
proof
  show "now < e"
    using assms(6-8) by (cases e; cases now) (simp add: less_datetime_def)
  have "\<not> sql_after e now" using assms(4-8) by (simp add: sql_after_less)
  then show "claimable now (row_id r) (t_owner (row_task r)) r"
    using assms(1-3) by (simp add: claimable_def owned_by_def unleased_def sql_upto_not_after)
qed

definition demo_half :: "nat \<Rightarrow> datetime" where
  "demo_half s = DateTime 2026 1 1 0 0 s 500000"

theorem lease_expires_early_witness:
  "demo_time 11 < demo_half 11 \<and>
   claimable (demo_time 11) demo_id ''ann'' (upd_claim ''w1'' (demo_half 11) (demo_half 1) (new_row demo_task))"
  using lease_expires_early [of "upd_claim ''w1'' (demo_half 11) (demo_half 1) (new_row demo_task)" "''w1''"
      "demo_half 11" "demo_time 11"]
  by (simp add: upd_claim_def demo_new_row) (simp add: demo_half_def demo_time_def days_in_month_def)

text \<open>\<open>link_run\<close> accepts any short non-empty run id, but a record only decodes with an identifier:
  the call commits such a link, then raises, and from then on every reading of the task fails,
  whatever is called afterwards.\<close>

theorem link_run_unreadable:
  assumes "reachable_tasks sha db" and "r \<in> set db" and "lease_row now l r"
    and "t_linked_run_id (row_task r) = None" and "\<not> run_linked_elsewhere (row_id r) run db"
    and "key_ok run" and "\<not> identifier_ok run"
    and "(store_step sha)\<^sup>*\<^sup>* (snd (link_run now (row_id r) l run db)) db'"
  shows "(\<exists>e. get_task (row_id r) (t_owner (row_task r)) db' = Inl e) \<and>
    (\<exists>e. fst (link_run now (row_id r) l run db) = Inl e)"
proof -
  let ?r = "upd_link run now r"
  have unreadable: "\<exists>e. task_from_row x = Inl e"
    if "row_inv x" "t_linked_run_id (row_task x) = Some run" for x
  proof -
    have "task_from_row x = task_post_init (row_task x)"
      using that(1) by (simp add: row_inv_def task_from_row_nested)
    moreover have "\<not> list_all fst (task_checks (row_task x))"
      using that(2) assms(7) by (simp add: task_checks_def)
    ultimately show ?thesis by (simp add: task_post_init_def checked_refused)
  qed
  have key: "keyed row_id db" using reachable_ok [OF assms(1)] by (rule table_okD)
  have id: "tl_task_id l = row_id r" using lease_row_id [OF assms(3)] by simp
  have pin: "lease_row now l x \<Longrightarrow> row_id x = tl_task_id l" for x by (rule lease_row_id)
  have lease: "fetchone (lease_row now l) db = Some r"
    using fetchone_pinned [OF key pin] reachable_row_of [OF assms(1,2)] assms(3) id by simp
  have pin': "link_where l x \<Longrightarrow> row_id x = row_id r" for x using id by (simp add: link_where_def owned_by_def)
  have "link_where l r" using assms(3,4) by (simp add: link_where_def lease_row_def)
  moreover have "row_id ?r = row_id r" by (simp add: upd_link_def)
  ultimately have "commit_returning (link_where l) (upd_link run now) C_link_fenced db =
      (task_from_row ?r, put_row row_id ?r db)"
    using commit_at [OF key pin' assms(2)] by blast
  then have link: "link_run now (row_id r) l run db = (task_from_row ?r, put_row row_id ?r db)"
    using reachable_key_ok [OF assms(1,2)] assms(4-6) lease id
    by (simp add: link_run_def assert_lease_def)
  have db1: "reachable_tasks sha (put_row row_id ?r db)"
    using reachable_step [OF assms(1) do_link [of sha db now "row_id r" l run]] link by simp
  have row1: "row_of row_id (row_id r) (put_row row_id ?r db) = Some ?r"
    using reachable_row_of [OF assms(1,2)] by (simp add: row_of_put_row upd_link_def)
  have inv1: "row_inv ?r" using reachable_row_inv [OF db1] row1 by (auto dest: row_of_SomeD)
  obtain x where x: "row_of row_id (row_id r) db' = Some x" "extends (row_task ?r) (row_task x)"
    using tasks.run_rel [OF assms(8) [unfolded link snd_conv] reachable_ok [OF db1] row1,
        where R = "\<lambda>x y. extends (row_task x) (row_task y)"] extends_refl extends_trans step_extends by metis
  have db': "reachable_tasks sha db'"
    using db1 assms(8) [unfolded link snd_conv] unfolding reachable_tasks_def by (rule rtranclp_trans)
  have mem: "x \<in> set db'" "row_id x = row_id r" using x(1) by (auto dest: row_of_SomeD)
  have "t_owner (row_task x) = t_owner (row_task r)" and "t_linked_run_id (row_task x) = Some run"
    using x(2) by (auto simp: extends_def same_identity_def kept_def upd_link_def)
  with mem reachable_owned [OF db' mem(1)] reachable_key_ok [OF assms(1,2)]
    unreadable [OF reachable_row_inv [OF db' mem(1)]] unreadable [OF inv1] link
  show ?thesis by (simp add: get_task_def) (simp add: upd_link_def)
qed

theorem link_run_unreadable_witness:
  "\<exists>e. fst (link_run (demo_time 2) demo_id (demo_lease 1 ''w1'' 11) ''run 1'' demo_claimed) = Inl e"
proof -
  have row: "hd demo_claimed = upd_claim ''w1'' (demo_time 11) (demo_time 1) (new_row demo_task)"
    "demo_claimed = [hd demo_claimed]" "hd demo_claimed \<in> set demo_claimed"
    by (simp_all add: demo_claimed_def demo_created_def)
  have lease: "lease_row (demo_time 2) (demo_lease 1 ''w1'' 11) (hd demo_claimed)"
    unfolding row(1) by (simp add: lease_row_def upd_claim_def claim_demo)
  have id: "row_id (hd demo_claimed) = demo_id" using lease_row_id [OF lease] demo_ids by simp
  have unlinked: "t_linked_run_id (row_task (hd demo_claimed)) = None"
    "\<not> run_linked_elsewhere demo_id ''run 1'' demo_claimed"
    by (simp_all add: demo_claimed_def demo_created_def upd_claim_def new_row_def demo_task_def run_linked_elsewhere_def)
  show ?thesis
    using link_run_unreadable [OF demo_reachable_claimed row(3) lease _ _ _ _ rtranclp.rtrancl_refl, of "''run 1''"]
    by (simp add: id unlinked text_checks)
qed


lemma step_auth_cancelled:
  "row_state r = Task_AUTH_REQUIRED \<Longrightarrow> t_cancel_requested (row_task r) \<Longrightarrow> row_step sha r r' \<Longrightarrow>
    row_task r' = row_task r"
  by (erule row_step.cases) (auto simp: upd_materialized_def claimable_def lease_row_def resumable_def)

text \<open>A task that was asked to cancel while running and then ended as \<open>auth_required\<close> is stuck: it is
  not terminal, yet no call of the store changes its record again; in particular it is neither
  cancelled nor resumable.\<close>

theorem cancelled_auth_required_is_stuck:
  assumes "reachable_tasks sha db" and "(store_step sha)\<^sup>*\<^sup>* db db'" and "row_of row_id k db = Some r"
    and "row_state r = Task_AUTH_REQUIRED" and "t_cancel_requested (row_task r)"
  shows "\<exists>r'. row_of row_id k db' = Some r' \<and> row_task r' = row_task r \<and> \<not> terminal_task_state (row_state r')"
proof -
  have "\<exists>r'. row_of row_id k db' = Some r' \<and> row_task r' = row_task r"
    using assms(2) reachable_ok [OF assms(1)] assms(3)
  proof (rule tasks.run_rel [where R = "\<lambda>_ x. row_task x = row_task r"])
    show "row_task y = row_task r" if "row_task x = row_task r" "row_step sha x y" for x y
      using step_auth_cancelled [OF _ _ that(2)] assms(4,5) that(1) by simp
  qed simp
  with assms(4) show ?thesis by auto
qed

definition demo_cancelling :: task_table where
  "demo_cancelling = map (upd_cancel_running (demo_time 3)) demo_linked"

definition demo_stuck :: task_table where
  "demo_stuck = map (upd_complete (demo_time 4) Task_AUTH_REQUIRED (demo_result ''auth_required'')) demo_cancelling"

lemma demo_cancel: "snd (request_cancel (demo_time 3) demo_id ''ann'' 1 demo_linked) = demo_cancelling"
proof -
  have row: "row_id (hd demo_linked) = demo_id" "t_owner (row_task (hd demo_linked)) = ''ann''"
    "t_version (row_task (hd demo_linked)) = 1" "row_state (hd demo_linked) = Task_RUNNING"
    "\<not> t_cancel_requested (row_task (hd demo_linked))"
    using demo_linked_lease demo_ids
    by (simp_all add: lease_row_def owned_by_def demo_lease_def)
      (simp add: demo_linked_row(3) upd_link_def upd_claim_def demo_new_row)
  have "key_ok ''ann''" by (simp add: key_ok_def)
  then have "snd (request_cancel (demo_time 3) demo_id ''ann'' 1 [hd demo_linked]) =
      [upd_cancel_running (demo_time 3) (hd demo_linked)]"
    using demo_linked_from_row row demo_ids(1)
    by (simp add: request_cancel_def owned_by_def commit_returning_def cancel_running_where_def version_ok_def)
  then show ?thesis by (simp add: demo_cancelling_def demo_linked_def demo_claimed_def demo_created_def)
qed

lemma demo_auth_result_ok: "result_post_init (demo_result ''auth_required'') = Inr (demo_result ''auth_required'')"
  by (simp add: result_post_init_def demo_result_def result_statuses_def text_checks)

lemma demo_complete_auth:
  "snd (complete_task demo_sha (demo_time 4) demo_id (demo_lease 1 ''w1'' 11) (demo_result ''auth_required'')
     demo_cancelling) = demo_stuck"
proof -
  have row: "demo_cancelling = [hd demo_cancelling]"
    "hd demo_cancelling = upd_cancel_running (demo_time 3) (hd demo_linked)"
    by (simp_all add: demo_cancelling_def demo_linked_def demo_claimed_def demo_created_def)
  have lease: "lease_row (demo_time 4) (demo_lease 1 ''w1'' 11) (hd demo_cancelling)"
    unfolding row(2) demo_linked_row(3)
    by (simp add: lease_row_def upd_cancel_running_def upd_claim_def upd_link_def claim_demo)
  have own: "owned_by demo_id ''ann'' (hd demo_cancelling)" and running: "row_state (hd demo_cancelling) = Task_RUNNING"
    using lease demo_ids by (simp_all add: lease_row_def)
  have status: "res_status (demo_result ''auth_required'') = ''auth_required''"
    "status_state ''auth_required'' = Some Task_AUTH_REQUIRED"
    by (simp_all add: demo_result_def)
  have nested: "nested_ok (row_task (hd demo_linked))" and checks: "list_all fst (task_checks (row_task (hd demo_linked)))"
    using decode_checks [of "hd demo_linked"] demo_linked_from_row
      reachable_row_inv [OF demo_reachable_linked demo_linked_row(2)] by (auto simp: row_inv_def)
  have "task_from_row (hd demo_cancelling) = Inr (row_task (hd demo_cancelling))"
    unfolding row(2)
  proof (rule decode_update)
    show "nested_ok (row_task (upd_cancel_running (demo_time 3) (hd demo_linked)))"
      using nested by (simp add: nested_ok_def upd_cancel_running_def)
    show "list_all fst (task_checks (row_task (upd_cancel_running (demo_time 3) (hd demo_linked))))"
      using checks by (auto simp: task_checks_def upd_cancel_running_def receipt_check_defs split: option.splits)
  qed
  then have "snd (complete_task demo_sha (demo_time 4) demo_id (demo_lease 1 ''w1'' 11) (demo_result ''auth_required'')
      [hd demo_cancelling]) = [upd_complete (demo_time 4) Task_AUTH_REQUIRED (demo_result ''auth_required'') (hd demo_cancelling)]"
    using lease own running demo_ids lease_row_held [OF lease] demo_auth_result_ok status
    by (simp add: complete_task_def assert_lease_def commit_returning_def is_instance_def Let_def del: status_state.simps)
  then show ?thesis
    using row(1) by (simp add: demo_stuck_def) (simp add: demo_cancelling_def demo_linked_def demo_claimed_def demo_created_def)
qed

lemma demo_reachable_stuck: "reachable_tasks demo_sha demo_stuck"
  using reachable_step [OF reachable_step [OF demo_reachable_linked
      do_cancel [of demo_sha demo_linked "demo_time 3" demo_id "''ann''" 1]],
      of "snd (complete_task demo_sha (demo_time 4) demo_id (demo_lease 1 ''w1'' 11) (demo_result ''auth_required'') demo_cancelling)"]
    do_complete [of demo_sha demo_cancelling "demo_time 4" demo_id "demo_lease 1 ''w1'' 11" "demo_result ''auth_required''"]
  by (simp add: demo_cancel demo_complete_auth)

theorem cancelled_auth_required_is_stuck_witness:
  "reachable_tasks demo_sha demo_stuck \<and> (\<exists>r'. row_of row_id demo_id demo_stuck = Some r' \<and>
     row_task r' = row_task (hd demo_stuck) \<and> \<not> terminal_task_state (row_state r'))"
proof -
  have row: "demo_stuck = [hd demo_stuck]" "row_id (hd demo_stuck) = demo_id"
    "row_state (hd demo_stuck) = Task_AUTH_REQUIRED" "t_cancel_requested (row_task (hd demo_stuck))"
    by (simp_all add: demo_stuck_def demo_cancelling_def demo_linked_def demo_claimed_def demo_created_def
        upd_complete_def upd_cancel_running_def upd_link_def upd_claim_def demo_new_row)
  have "row_of row_id demo_id demo_stuck = Some (hd demo_stuck)"
    by (subst row(1)) (simp add: row(2))
  then show ?thesis
    using cancelled_auth_required_is_stuck [OF demo_reachable_stuck rtranclp.rtrancl_refl _ row(3,4), of demo_id]
      demo_reachable_stuck by simp
qed

section \<open>The ready outbox\<close>

text \<open>Materializing the ready-outbox entry of a task is accepted once per entry: at the task's version it
  clears the flag, a second call with the same version changes nothing and returns the same task,
  and a call with any other version is refused.\<close>

theorem outbox_materialized_once:
  assumes "reachable_tasks sha db" and "r \<in> set db" and "row_ready_outbox_pending r"
    and "v = t_version (row_task r)" and "u \<noteq> v" and "0 \<le> u"
  defines "after \<equiv> put_row row_id (upd_materialized r) db"
  shows "mark_ready_outbox_materialized (row_id r) (t_owner (row_task r)) v db = (task_from_row (upd_materialized r), after) \<and>
    mark_ready_outbox_materialized (row_id r) (t_owner (row_task r)) v after = (task_from_row (upd_materialized r), after) \<and>
    mark_ready_outbox_materialized (row_id r) (t_owner (row_task r)) u db = (Inl (TaskConflict C_outbox_fenced), db)"
proof -
  let ?id = "row_id r" and ?o = "t_owner (row_task r)"
  have key: "keyed row_id db" using reachable_ok [OF assms(1)] by (rule table_okD)
  have inv: "row_inv r" using assms(1,2) by (rule reachable_row_inv)
  have state: "outbox_state (row_state r)" using inv assms(3) by (simp add: row_inv_def outbox_inv_def)
  have v: "version_ok v" using inv assms(4) by (auto simp: row_inv_def lease_inv_def version_ok_def)
  have ids: "key_ok ?id" "key_ok ?o" using reachable_key_ok [OF assms(1,2)] by auto
  have pin: "materializable ?id ?o w x \<Longrightarrow> row_id x = ?id" for w x by (simp add: materializable_def owned_by_def)
  have row: "row_of row_id ?id db = Some r" using assms(1,2) by (rule reachable_row_of)
  have fetch: "fetchone (materializable ?id ?o v) db = Some r"
    using fetchone_pinned [OF key, of "materializable ?id ?o v" ?id] row assms(3,4) state by (simp add: materializable_def owned_by_def)
  have other: "fetchone (materializable ?id ?o u) db = None"
    using fetchone_pinned [OF key, of "materializable ?id ?o u" ?id] row assms(4,5) by (simp add: materializable_def owned_by_def)
  have put: "sql_update (materializable ?id ?o v) upd_materialized db = after"
    unfolding after_def using sql_update_fetched [OF key pin [of v] fetch, of upd_materialized] by (simp add: upd_materialized_def)
  have key': "keyed row_id after" using key by (simp add: after_def)
  have row': "row_of row_id ?id after = Some (upd_materialized r)"
    using row by (simp add: after_def row_of_put_row upd_materialized_def)
  have again: "fetchone (materializable ?id ?o v) after = None"
    using fetchone_pinned [OF key', of "materializable ?id ?o v" ?id] row' by (simp add: materializable_def owned_by_def upd_materialized_def)
  have own: "fetchone (owned_by ?id ?o) after = Some (upd_materialized r)"
    using fetchone_pinned [OF key', of "owned_by ?id ?o" ?id] row' by (simp add: owned_by_def upd_materialized_def)
  show ?thesis
    using ids v assms(4-6) fetch other put again own reachable_owned [OF assms(1,2)]
    by (simp add: mark_ready_outbox_materialized_def version_ok_def) (simp add: upd_materialized_def)
qed

theorem outbox_materialized_once_witness:
  "snd (mark_ready_outbox_materialized demo_id ''ann'' 2 demo_done) =
     put_row row_id (upd_materialized (hd demo_done)) demo_done"
proof -
  have row: "hd demo_done \<in> set demo_done" "row_ready_outbox_pending (hd demo_done)" "row_id (hd demo_done) = demo_id"
    "t_owner (row_task (hd demo_done)) = ''ann''" "t_version (row_task (hd demo_done)) = 2"
    by (simp_all add: demo_done_def demo_linked_def demo_claimed_def demo_created_def upd_finalize_def
        upd_link_def upd_claim_def demo_new_row Let_def)
  show ?thesis
    using outbox_materialized_once [OF demo_reachable_done row(1,2) refl, of 0] by (simp add: row)
qed

end
