(* ===== verification/ControlRepo.thy ===== *)
theory ControlRepo
  imports Clock Json
begin

text \<open>
  \<open>core/control_repository.py\<close>: control leases, the durable outbox and request traces in SQLite.
  Times are texts here, as in the tables: the clock's are \<open>isoformat\<close> texts in UTC, an
  \<open>available_at\<close> given by a caller is any text that \<open>iso_ok\<close> accepts (\<open>datetime.fromisoformat\<close> with
  a time zone, a parameter). \<open>redact\<close> is \<open>redact_sensitive_text\<close>, a parameter. A stored payload is
  the canonical form of the object, as a JSON text with sorted keys is.
\<close>

section \<open>State\<close>

datatype message_state = OB_pending | OB_running | OB_succeeded | OB_dead_letter

fun message_state_value :: "message_state \<Rightarrow> string" where
  "message_state_value OB_pending = ''pending''"
| "message_state_value OB_running = ''running''"
| "message_state_value OB_succeeded = ''succeeded''"
| "message_state_value OB_dead_letter = ''dead_letter''"

datatype control_error =
  K_Invalid string | K_Type string | K_Key string | K_Conflict string | K_Runtime string
| K_Overflow | K_Integrity

record lease_rec =
  lr_kind :: string
  lr_id :: string
  lr_owner :: "string option"
  lr_token :: int
  lr_expires :: string
  lr_updated :: string

record lease_claim =
  lc_kind :: string
  lc_id :: string
  lc_owner :: string
  lc_token :: int
  lc_expires :: string

record message =
  ms_id :: string
  ms_topic :: string
  ms_aggregate :: string
  ms_payload :: json
  ms_state :: message_state
  ms_available_at :: string
  ms_lease_owner :: "string option"
  ms_lease_expires :: "string option"
  ms_token :: int
  ms_attempts :: int
  ms_last_error :: "string option"
  ms_created_at :: string
  ms_updated_at :: string

record trace =
  tr_id :: string
  tr_request :: string
  tr_method :: string
  tr_route :: string
  tr_status :: int
  tr_actor :: "string option"
  tr_run :: "string option"
  tr_job :: "string option"
  tr_session :: "string option"
  tr_created_at :: string

record control_db =
  cd_leases :: "lease_rec list"
  cd_outbox :: "message list"
  cd_traces :: "trace list"

definition empty_control :: control_db where
  "empty_control = \<lparr>cd_leases = [], cd_outbox = [], cd_traces = []\<rparr>"

section \<open>Argument checks\<close>

definition lower_char :: "char \<Rightarrow> bool" where
  "lower_char c \<longleftrightarrow> (let n = of_char c :: nat in 97 \<le> n \<and> n \<le> 122)"

definition upper_char :: "char \<Rightarrow> bool" where
  "upper_char c \<longleftrightarrow> (let n = of_char c :: nat in 65 \<le> n \<and> n \<le> 90)"

definition digit_char :: "char \<Rightarrow> bool" where
  "digit_char c \<longleftrightarrow> (let n = of_char c :: nat in 48 \<le> n \<and> n \<le> 57)"

definition name_ok :: "string \<Rightarrow> bool" where
  \<comment> \<open>\<open>^[a-z][a-z0-9_.-]{0,127}$\<close>\<close>
  "name_ok s \<longleftrightarrow> s \<noteq> [] \<and> length s \<le> 128 \<and> lower_char (hd s) \<and>
     list_all (\<lambda>c. lower_char c \<or> digit_char c \<or> c = CHR ''_'' \<or> c = CHR ''.'' \<or> c = CHR ''-'') (tl s)"

definition ref_ok :: "string \<Rightarrow> bool" where
  \<comment> \<open>\<open>^[A-Za-z0-9][A-Za-z0-9_.:/-]{0,255}$\<close>\<close>
  "ref_ok s \<longleftrightarrow> s \<noteq> [] \<and> length s \<le> 256 \<and>
     (lower_char (hd s) \<or> upper_char (hd s) \<or> digit_char (hd s)) \<and>
     list_all (\<lambda>c. lower_char c \<or> upper_char c \<or> digit_char c \<or> c = CHR ''_'' \<or> c = CHR ''.'' \<or>
        c = CHR '':'' \<or> c = CHR ''/'' \<or> c = CHR ''-'') (tl s)"

definition after_seconds :: "int \<Rightarrow> datetime \<Rightarrow> string option" where
  \<comment> \<open>\<open>_after\<close>; \<open>None\<close> is the \<open>OverflowError\<close>\<close>
  "after_seconds n now = map_option isoformat (add_seconds (nat n) now)"

section \<open>Leases\<close>

definition lease_key :: "lease_rec \<Rightarrow> string \<times> string" where
  "lease_key r = (lr_kind r, lr_id r)"

definition acquire_lease ::
    "datetime \<Rightarrow> string \<Rightarrow> string \<Rightarrow> string \<Rightarrow> int \<Rightarrow> control_db
      \<Rightarrow> (control_error, lease_claim option) result \<times> control_db" where
  "acquire_lease now kind rid owner lease_seconds db =
     (case first_failure
        [(name_ok kind, K_Invalid ''resource_kind''), (ref_ok rid, K_Invalid ''resource_id''),
         (ref_ok owner, K_Invalid ''owner''), (0 < lease_seconds, K_Invalid ''lease_seconds''),
         (after_seconds lease_seconds now \<noteq> None, K_Overflow)] of
        Some e \<Rightarrow> (Inl e, db)
      | None \<Rightarrow>
          let now_text = isoformat now;
              expires = the (after_seconds lease_seconds now);
              granted = (\<lambda>token. Inr (Some \<lparr>lc_kind = kind, lc_id = rid, lc_owner = owner,
                           lc_token = token, lc_expires = expires\<rparr>));
              here = (\<lambda>r. lease_key r = (kind, rid))
          in (case fetchone here (cd_leases db) of
                None \<Rightarrow>
                  (granted 1, db\<lparr>cd_leases := cd_leases db @ [\<lparr>lr_kind = kind, lr_id = rid,
                     lr_owner = Some owner, lr_token = 1, lr_expires = expires, lr_updated = now_text\<rparr>]\<rparr>)
              | Some row \<Rightarrow>
                  if lr_owner row = Some owner \<and> now_text < lr_expires row then
                    (granted (lr_token row), db\<lparr>cd_leases := sql_update here
                       (\<lambda>r. r\<lparr>lr_expires := expires, lr_updated := now_text\<rparr>) (cd_leases db)\<rparr>)
                  else if lr_expires row \<le> now_text then
                    (granted (lr_token row + 1), db\<lparr>cd_leases := sql_update here
                       (\<lambda>r. r\<lparr>lr_owner := Some owner, lr_token := lr_token row + 1,
                              lr_expires := expires, lr_updated := now_text\<rparr>) (cd_leases db)\<rparr>)
                  else (Inr None, db)))"

definition claim_row :: "lease_claim \<Rightarrow> lease_rec \<Rightarrow> bool" where
  "claim_row c r \<longleftrightarrow> lease_key r = (lc_kind c, lc_id c) \<and> lr_owner r = Some (lc_owner c) \<and> lr_token r = lc_token c"

definition renew_lease ::
    "datetime \<Rightarrow> lease_claim \<Rightarrow> int \<Rightarrow> control_db \<Rightarrow> (control_error, lease_claim) result \<times> control_db" where
  "renew_lease now c lease_seconds db =
     (case first_failure
        [(0 < lease_seconds, K_Invalid ''lease_seconds''),
         (after_seconds lease_seconds now \<noteq> None, K_Overflow)] of
        Some e \<Rightarrow> (Inl e, db)
      | None \<Rightarrow>
          let now_text = isoformat now; expires = the (after_seconds lease_seconds now);
              p = (\<lambda>r. claim_row c r \<and> now_text < lr_expires r)
          in (if rowcount p (cd_leases db) = 1 then Inr (c\<lparr>lc_expires := expires\<rparr>) else Inl (K_Conflict ''lease''),
              db\<lparr>cd_leases := sql_update p (\<lambda>r. r\<lparr>lr_expires := expires, lr_updated := now_text\<rparr>) (cd_leases db)\<rparr>))"

definition release_lease :: "datetime \<Rightarrow> lease_claim \<Rightarrow> control_db \<Rightarrow> bool \<times> control_db" where
  "release_lease now c db =
     (let now_text = isoformat now in
      (rowcount (claim_row c) (cd_leases db) = 1,
       db\<lparr>cd_leases := sql_update (claim_row c)
            (\<lambda>r. r\<lparr>lr_owner := None, lr_expires := now_text, lr_updated := now_text\<rparr>) (cd_leases db)\<rparr>))"

section \<open>The outbox\<close>

definition row_to_outbox :: "message \<Rightarrow> (control_error, message) result" where
  "row_to_outbox m = ensure (is_object (ms_payload m)) (K_Runtime ''outbox payload is not an object'') (Inr m)"

definition new_message :: "datetime \<Rightarrow> string \<Rightarrow> string \<Rightarrow> string \<Rightarrow> json \<Rightarrow> string \<Rightarrow> message" where
  "new_message now mid topic aggregate payload due =
     \<lparr>ms_id = mid, ms_topic = topic, ms_aggregate = aggregate, ms_payload = canonical payload,
      ms_state = OB_pending, ms_available_at = due, ms_lease_owner = None, ms_lease_expires = None,
      ms_token = 0, ms_attempts = 0, ms_last_error = None,
      ms_created_at = isoformat now, ms_updated_at = isoformat now\<rparr>"

definition enqueue ::
    "(string \<Rightarrow> bool) \<Rightarrow> datetime \<Rightarrow> string \<Rightarrow> string \<Rightarrow> string \<Rightarrow> json \<Rightarrow> string option \<Rightarrow> control_db
      \<Rightarrow> (control_error, message \<times> bool) result \<times> control_db" where
  "enqueue iso_ok now mid topic aggregate payload available_at db =
     (let due = (case available_at of Some t \<Rightarrow> if t = [] then isoformat now else t | None \<Rightarrow> isoformat now) in
      case first_failure
        [(ref_ok mid, K_Invalid ''message_id''), (name_ok topic, K_Invalid ''topic''),
         (ref_ok aggregate, K_Invalid ''aggregate_id''), (is_object payload, K_Type ''payload''),
         (due = isoformat now \<or> iso_ok due, K_Invalid ''available_at'')] of
        Some e \<Rightarrow> (Inl e, db)
      | None \<Rightarrow>
          let inserted = (\<forall>m \<in> set (cd_outbox db). ms_id m \<noteq> mid);
              db' = db\<lparr>cd_outbox := insert_ignore (\<lambda>x y. ms_id x = ms_id y)
                       (new_message now mid topic aggregate payload due) (cd_outbox db)\<rparr>
          in (case fetchone (\<lambda>m. ms_id m = mid) (cd_outbox db') of
                None \<Rightarrow> (Inl (K_Runtime ''outbox insert''), db')
              | Some row \<Rightarrow>
                  (bind_res (row_to_outbox row) (\<lambda>m.
                     if \<not> inserted \<and> (ms_topic m \<noteq> topic \<or> ms_aggregate m \<noteq> aggregate \<or>
                          \<not> python_eq (ms_payload m) payload)
                     then Inl (K_Conflict ''message_id'') else Inr (m, inserted)), db')))"

definition due :: "string \<Rightarrow> message \<Rightarrow> bool" where
  "due now_text m \<longleftrightarrow>
     (ms_state m = OB_pending \<and> ms_available_at m \<le> now_text) \<or>
     (ms_state m = OB_running \<and> (case ms_lease_expires m of None \<Rightarrow> False | Some e \<Rightarrow> e \<le> now_text))"

definition upd_outbox_claim :: "string \<Rightarrow> string \<Rightarrow> string \<Rightarrow> int \<Rightarrow> message \<Rightarrow> message" where
  "upd_outbox_claim owner expires now_text token m = m\<lparr>
     ms_state := OB_running, ms_lease_owner := Some owner, ms_lease_expires := Some expires,
     ms_token := token, ms_attempts := ms_attempts m + 1, ms_updated_at := now_text\<rparr>"

definition claim_where :: "string \<Rightarrow> string \<Rightarrow> int \<Rightarrow> message \<Rightarrow> bool" where
  "claim_where now_text mid token m \<longleftrightarrow> ms_id m = mid \<and> ms_token m = token \<and> due now_text m"

text \<open>The loop of \<open>claim_outbox\<close> over the selected rows: update, read back, decode.\<close>

fun claim_rows ::
    "string \<Rightarrow> string \<Rightarrow> string \<Rightarrow> message list \<Rightarrow> message list \<Rightarrow> (control_error, message list) result \<times> message list" where
  "claim_rows owner expires now_text [] table = (Inr [], table)"
| "claim_rows owner expires now_text (row # rows) table =
     (let p = claim_where now_text (ms_id row) (ms_token row);
          table' = sql_update p (upd_outbox_claim owner expires now_text (ms_token row + 1)) table
      in if rowcount p table \<noteq> 1 then claim_rows owner expires now_text rows table'
         else
           (case fetchone (\<lambda>m. ms_id m = ms_id row) table' of
              None \<Rightarrow> claim_rows owner expires now_text rows table'
            | Some current \<Rightarrow>
                (case row_to_outbox current of
                   Inl e \<Rightarrow> (Inl e, table')
                 | Inr m \<Rightarrow>
                     (case claim_rows owner expires now_text rows table' of
                        (Inl e, t) \<Rightarrow> (Inl e, t)
                      | (Inr ms, t) \<Rightarrow> (Inr (m # ms), t)))))"

definition claim_order :: "message \<Rightarrow> string \<times> string \<times> string" where
  "claim_order m = (ms_available_at m, ms_created_at m, ms_id m)"

definition due_rows :: "string \<Rightarrow> string list \<Rightarrow> int \<Rightarrow> message list \<Rightarrow> message list" where
  "due_rows now_text topics limit table =
     take (nat limit) (sort_key claim_order
       (filter (\<lambda>m. due now_text m \<and> (topics = [] \<or> ms_topic m \<in> set topics)) table))"

definition claim_outbox ::
    "datetime \<Rightarrow> string \<Rightarrow> int \<Rightarrow> int \<Rightarrow> string list \<Rightarrow> control_db
      \<Rightarrow> (control_error, message list) result \<times> control_db" where
  "claim_outbox now owner limit lease_seconds topics db =
     (case first_failure
        [(ref_ok owner, K_Invalid ''owner''), (0 < limit \<and> limit \<le> 1000, K_Invalid ''limit''),
         (0 < lease_seconds, K_Invalid ''lease_seconds''), (list_all name_ok topics, K_Invalid ''topic''),
         (after_seconds lease_seconds now \<noteq> None, K_Overflow)] of
        Some e \<Rightarrow> (Inl e, db)
      | None \<Rightarrow>
          (case claim_rows owner (the (after_seconds lease_seconds now)) (isoformat now)
                  (due_rows (isoformat now) topics limit (cd_outbox db)) (cd_outbox db) of
             (Inl e, table) \<Rightarrow> (Inl e, db)
           | (Inr ms, table) \<Rightarrow> (Inr ms, db\<lparr>cd_outbox := table\<rparr>)))"

definition claim_outbox_message ::
    "datetime \<Rightarrow> string \<Rightarrow> string \<Rightarrow> int \<Rightarrow> control_db \<Rightarrow> (control_error, message option) result \<times> control_db" where
  "claim_outbox_message now mid owner lease_seconds db =
     (case first_failure
        [(ref_ok mid, K_Invalid ''message_id''), (ref_ok owner, K_Invalid ''owner''),
         (0 < lease_seconds, K_Invalid ''lease_seconds''),
         (after_seconds lease_seconds now \<noteq> None, K_Overflow)] of
        Some e \<Rightarrow> (Inl e, db)
      | None \<Rightarrow>
          let now_text = isoformat now; expires = the (after_seconds lease_seconds now) in
          (case fetchone (\<lambda>m. ms_id m = mid \<and> due now_text m) (cd_outbox db) of
             None \<Rightarrow> (Inr None, db)
           | Some row \<Rightarrow>
               let p = claim_where now_text mid (ms_token row);
                   table' = sql_update p (upd_outbox_claim owner expires now_text (ms_token row + 1)) (cd_outbox db)
               in if rowcount p (cd_outbox db) \<noteq> 1 then (Inr None, db\<lparr>cd_outbox := table'\<rparr>)
                  else
                    (case fetchone (\<lambda>m. ms_id m = mid) table' of
                       None \<Rightarrow> (Inl (K_Runtime ''disappeared''), db\<lparr>cd_outbox := table'\<rparr>)
                     | Some current \<Rightarrow>
                         (bind_res (row_to_outbox current) (\<lambda>m. Inr (Some m)), db\<lparr>cd_outbox := table'\<rparr>))))"

definition get_outbox :: "string \<Rightarrow> control_db \<Rightarrow> (control_error, message) result" where
  "get_outbox mid db =
     (case fetchone (\<lambda>m. ms_id m = mid) (cd_outbox db) of
        None \<Rightarrow> Inl (K_Key mid)
      | Some row \<Rightarrow> row_to_outbox row)"

definition outbox_held :: "string \<Rightarrow> string \<Rightarrow> int \<Rightarrow> message \<Rightarrow> bool" where
  "outbox_held mid owner token m \<longleftrightarrow>
     ms_id m = mid \<and> ms_state m = OB_running \<and> ms_lease_owner m = Some owner \<and> ms_token m = token"

definition upd_finish ::
    "message_state \<Rightarrow> string option \<Rightarrow> string option \<Rightarrow> string \<Rightarrow> message \<Rightarrow> message" where
  "upd_finish st available_at error now_text m = m\<lparr>
     ms_state := st,
     ms_available_at := (case available_at of Some t \<Rightarrow> t | None \<Rightarrow> ms_available_at m),
     ms_lease_owner := None, ms_lease_expires := None, ms_last_error := error,
     ms_updated_at := now_text\<rparr>"

definition finish ::
    "datetime \<Rightarrow> string \<Rightarrow> string \<Rightarrow> int \<Rightarrow> message_state \<Rightarrow> string option \<Rightarrow> string option \<Rightarrow> control_db
      \<Rightarrow> (control_error, unit) result \<times> control_db" where
  "finish now mid owner token st available_at error db =
     (if token \<le> 0 then (Inl (K_Invalid ''fencing_token''), db)
      else
        (if rowcount (outbox_held mid owner token) (cd_outbox db) = 1 then Inr () else Inl (K_Conflict ''outbox''),
         db\<lparr>cd_outbox := sql_update (outbox_held mid owner token)
               (upd_finish st available_at error (isoformat now)) (cd_outbox db)\<rparr>))"

definition acknowledge ::
    "datetime \<Rightarrow> string \<Rightarrow> string \<Rightarrow> int \<Rightarrow> control_db \<Rightarrow> (control_error, unit) result \<times> control_db" where
  "acknowledge now mid owner token db = finish now mid owner token OB_succeeded None None db"

text \<open>\<open>renew_outbox\<close> is two transactions: the conditional update, and then the read of the row.\<close>

definition renew_update ::
    "datetime \<Rightarrow> string \<Rightarrow> string \<Rightarrow> int \<Rightarrow> int \<Rightarrow> control_db \<Rightarrow> (control_error, unit) result \<times> control_db" where
  "renew_update now mid owner token lease_seconds db =
     (case first_failure
        [(ref_ok mid, K_Invalid ''message_id''), (ref_ok owner, K_Invalid ''owner''),
         (0 < token, K_Invalid ''fencing_token''), (0 < lease_seconds, K_Invalid ''lease_seconds''),
         (after_seconds lease_seconds now \<noteq> None, K_Overflow)] of
        Some e \<Rightarrow> (Inl e, db)
      | None \<Rightarrow>
          let now_text = isoformat now; expires = the (after_seconds lease_seconds now);
              p = (\<lambda>m. outbox_held mid owner token m \<and>
                    (case ms_lease_expires m of None \<Rightarrow> False | Some e \<Rightarrow> now_text < e))
          in (if rowcount p (cd_outbox db) \<noteq> 1 then Inl (K_Conflict ''outbox lease'') else Inr (),
              db\<lparr>cd_outbox := sql_update p
                    (\<lambda>m. m\<lparr>ms_lease_expires := Some expires, ms_updated_at := now_text\<rparr>) (cd_outbox db)\<rparr>))"

definition renew_outbox ::
    "datetime \<Rightarrow> string \<Rightarrow> string \<Rightarrow> int \<Rightarrow> int \<Rightarrow> control_db \<Rightarrow> (control_error, message) result \<times> control_db" where
  "renew_outbox now mid owner token lease_seconds db =
     (case renew_update now mid owner token lease_seconds db of
        (Inl e, db') \<Rightarrow> (Inl e, db')
      | (Inr _, db') \<Rightarrow> (get_outbox mid db', db'))"

definition retry ::
    "(string \<Rightarrow> string) \<Rightarrow> datetime \<Rightarrow> string \<Rightarrow> string \<Rightarrow> int \<Rightarrow> string \<Rightarrow> int \<Rightarrow> int \<Rightarrow> control_db
      \<Rightarrow> (control_error, message) result \<times> control_db" where
  "retry redact now mid owner token error delay_seconds max_attempts db =
     (case first_failure
        [(0 \<le> delay_seconds, K_Invalid ''delay_seconds''), (0 < max_attempts, K_Invalid ''max_attempts'')] of
        Some e \<Rightarrow> (Inl e, db)
      | None \<Rightarrow>
          (case get_outbox mid db of
             Inl e \<Rightarrow> (Inl e, db)
           | Inr current \<Rightarrow>
               (case after_seconds delay_seconds now of
                  None \<Rightarrow> (Inl K_Overflow, db)
                | Some available_at \<Rightarrow>
                    (case finish now mid owner token
                            (if max_attempts \<le> ms_attempts current then OB_dead_letter else OB_pending)
                            (Some available_at) (Some (redact (take 2000 error))) db of
                       (Inl e, db') \<Rightarrow> (Inl e, db')
                     | (Inr _, db') \<Rightarrow> (get_outbox mid db', db')))))"

section \<open>Metrics and traces\<close>

record queue_metric =
  qm_topic :: string
  qm_state :: string
  qm_messages :: nat
  qm_attempts :: int
  qm_reclaims :: int

record outbox_metrics_snapshot =
  om_queues :: "queue_metric list"
  om_due_pending :: nat
  om_expired_running :: nat

definition outbox_metrics :: "datetime \<Rightarrow> control_db \<Rightarrow> outbox_metrics_snapshot" where
  "outbox_metrics now db =
     (let table = cd_outbox db;
          group = (\<lambda>m. (ms_topic m, message_state_value (ms_state m)))
      in \<lparr>om_queues = map (\<lambda>(topic, st).
             let rows = filter (\<lambda>m. group m = (topic, st)) table in
             \<lparr>qm_topic = topic, qm_state = st, qm_messages = length rows,
              qm_attempts = sum_list (map ms_attempts rows),
              qm_reclaims = sum_list (map (\<lambda>m. if 1 < ms_attempts m then ms_attempts m - 1 else 0) rows)\<rparr>)
             (sort (remdups (map group table))),
          om_due_pending = rowcount (\<lambda>m. ms_state m = OB_pending \<and> ms_available_at m \<le> isoformat now) table,
          om_expired_running = rowcount (\<lambda>m. ms_state m = OB_running \<and>
             (case ms_lease_expires m of None \<Rightarrow> False | Some e \<Rightarrow> e \<le> isoformat now)) table\<rparr>)"

definition ascii_upper :: "char \<Rightarrow> char" where
  "ascii_upper c = (if lower_char c then char_of (of_char c - 32 :: nat) else c)"

definition trace_text_ok :: "nat \<Rightarrow> string \<Rightarrow> bool" where
  "trace_text_ok maximum s \<longleftrightarrow> s \<noteq> [] \<and> length s \<le> maximum \<and>
     CHR 0x0D \<notin> set s \<and> CHR 0x0A \<notin> set s \<and> CHR 0x00 \<notin> set s"

definition trace_checks :: "trace \<Rightarrow> (bool \<times> control_error) list" where
  "trace_checks t =
     [(ref_ok (tr_id t), K_Invalid ''trace_id''), (ref_ok (tr_request t), K_Invalid ''request_id''),
      (3 \<le> length (tr_method t) \<and> length (tr_method t) \<le> 10 \<and>
         list_all upper_char (map ascii_upper (tr_method t)), K_Invalid ''method''),
      (trace_text_ok 512 (tr_route t), K_Invalid ''route''),
      (100 \<le> tr_status t \<and> tr_status t \<le> 599, K_Invalid ''status''),
      (opt_ok (trace_text_ok 255) (tr_actor t), K_Invalid ''actor''),
      (opt_ok ref_ok (tr_run t), K_Invalid ''run_id''), (opt_ok ref_ok (tr_job t), K_Invalid ''job_id''),
      (opt_ok ref_ok (tr_session t), K_Invalid ''session_id'')]"

text \<open>The fields of \<open>t\<close> are the arguments of the call; its time is set here.\<close>

definition record_trace :: "datetime \<Rightarrow> trace \<Rightarrow> control_db \<Rightarrow> (control_error, trace) result \<times> control_db" where
  "record_trace now t db =
     (case first_failure (trace_checks t @ [(\<forall>x \<in> set (cd_traces db). tr_id x \<noteq> tr_id t, K_Integrity)]) of
        Some e \<Rightarrow> (Inl e, db)
      | None \<Rightarrow>
          let row = t\<lparr>tr_method := map ascii_upper (tr_method t), tr_created_at := isoformat now\<rparr>
          in (Inr row, db\<lparr>cd_traces := cd_traces db @ [row]\<rparr>))"

definition list_traces ::
    "string option \<Rightarrow> string option \<Rightarrow> string option \<Rightarrow> string option \<Rightarrow> int \<Rightarrow> control_db
      \<Rightarrow> (control_error, trace list) result" where
  "list_traces request run job session limit db = checked
     [(0 < limit \<and> limit \<le> 1000, K_Invalid ''limit''),
      (opt_ok ref_ok request, K_Invalid ''request_id''), (opt_ok ref_ok run, K_Invalid ''run_id''),
      (opt_ok ref_ok job, K_Invalid ''job_id''), (opt_ok ref_ok session, K_Invalid ''session_id'')]
     (Inr (take (nat limit) (rev (sort_key (\<lambda>t. (tr_created_at t, tr_id t))
       (filter (\<lambda>t. opt_ok (\<lambda>x. tr_request t = x) request \<and> opt_ok (\<lambda>x. tr_run t = Some x) run \<and>
          opt_ok (\<lambda>x. tr_job t = Some x) job \<and> opt_ok (\<lambda>x. tr_session t = Some x) session) (cd_traces db))))))"

end
