(* ===== verification/ControlSafety.thy ===== *)
theory ControlSafety
  imports ControlRepo
begin

text \<open>
  The control repository as row machines: the lease table and the outbox table, each with fenced
  leases; and the batch that the loop of \<open>claim_outbox\<close> computes.
\<close>

section \<open>Steps\<close>

inductive control_step :: "(string \<Rightarrow> bool) \<Rightarrow> (string \<Rightarrow> string) \<Rightarrow> control_db \<Rightarrow> control_db \<Rightarrow> bool" for iso_ok redact where
  c_acquire: "control_step iso_ok redact db (snd (acquire_lease now kind rid owner n db))"
| c_renew: "control_step iso_ok redact db (snd (renew_lease now c n db))"
| c_release: "control_step iso_ok redact db (snd (release_lease now c db))"
| c_enqueue: "control_step iso_ok redact db (snd (enqueue iso_ok now mid topic aggregate payload at db))"
| c_claim: "control_step iso_ok redact db (snd (claim_outbox now owner limit n topics db))"
| c_claim_one: "control_step iso_ok redact db (snd (claim_outbox_message now mid owner n db))"
| c_acknowledge: "control_step iso_ok redact db (snd (acknowledge now mid owner token db))"
| c_renew_outbox: "control_step iso_ok redact db (snd (renew_outbox now mid owner token n db))"
| c_retry: "control_step iso_ok redact db (snd (retry redact now mid owner token error delay most db))"
| c_trace: "control_step iso_ok redact db (snd (record_trace now t db))"

section \<open>Leases\<close>

inductive lease_step :: "lease_rec \<Rightarrow> lease_rec \<Rightarrow> bool" where
  ls_extend: "lr_owner r = Some owner \<Longrightarrow> now_text < lr_expires r \<Longrightarrow>
    lease_step r (r\<lparr>lr_expires := expires, lr_updated := now_text\<rparr>)"
| ls_takeover: "lr_expires r \<le> now_text \<Longrightarrow>
    lease_step r (r\<lparr>lr_owner := Some owner, lr_token := lr_token r + 1, lr_expires := expires, lr_updated := now_text\<rparr>)"
| ls_release: "lr_owner r = Some owner \<Longrightarrow>
    lease_step r (r\<lparr>lr_owner := None, lr_expires := now_text, lr_updated := now_text\<rparr>)"

definition fresh_lease :: "lease_rec \<Rightarrow> bool" where
  "fresh_lease r \<longleftrightarrow> lr_token r = 1"

definition lease_ok :: "lease_rec \<Rightarrow> bool" where
  "lease_ok r \<longleftrightarrow> 1 \<le> lr_token r"

lemma lease_step_key: "lease_step r r' \<Longrightarrow> lease_key r' = lease_key r"
  by (induction rule: lease_step.induct) (simp_all add: lease_key_def)

lemma lease_step_token: "lease_step r r' \<Longrightarrow> lr_token r \<le> lr_token r'"
  by (induction rule: lease_step.induct) simp_all

lemma fresh_lease_ok: "fresh_lease r \<Longrightarrow> lease_ok r"
  by (simp add: fresh_lease_def lease_ok_def)

lemma lease_ok_step: "lease_ok r \<Longrightarrow> lease_step r r' \<Longrightarrow> lease_ok r'"
  using lease_step_token [of r r'] by (simp add: lease_ok_def)

definition lease_moves :: "lease_rec list \<Rightarrow> lease_rec list \<Rightarrow> bool" where
  "lease_moves s t \<longleftrightarrow> t = s \<or> (\<exists>r. fresh_lease r \<and> lease_key r \<notin> lease_key ` set s \<and> t = s @ [r]) \<or>
     (\<exists>r r'. r \<in> set s \<and> lease_step r r' \<and> t = put_row lease_key r' s)"

lemma lease_moves_refl [simp]: "lease_moves s s"
  by (simp add: lease_moves_def)

lemma lease_moves_cases: "table_ok lease_key lease_ok s \<Longrightarrow> lease_moves s t \<Longrightarrow>
   t = s \<or> (\<exists>r. fresh_lease r \<and> lease_key r \<notin> lease_key ` set s \<and> t = s @ [r]) \<or>
     (\<exists>r r'. r \<in> set s \<and> lease_step r r' \<and> t = put_row lease_key r' s)"
  by (simp add: lease_moves_def)

interpretation leases: row_machine lease_key fresh_lease lease_ok lease_step lease_moves
  by unfold_locales (fact lease_step_key fresh_lease_ok lease_ok_step lease_moves_cases)+

text \<open>An update pinned to one key by its condition either finds nothing or replaces that row.\<close>

lemma pinned_update:
  assumes "keyed key s" and "\<And>x. p x \<Longrightarrow> key x = k" and "\<And>x. key (f x) = key x"
  shows "sql_update p f s = s \<or> (\<exists>r \<in> set s. p r \<and> sql_update p f s = put_row key (f r) s)"
proof (cases "fetchone p s")
  case None
  then show ?thesis by (simp add: fetchone_None sql_update_none)
next
  case (Some r)
  with fetchone_Some [OF Some] sql_update_fetched [OF assms(1,2) Some, of f] assms(3) show ?thesis by auto
qed

lemma lease_update_moves:
  assumes "keyed lease_key s" and "\<And>x. p x \<Longrightarrow> lease_key x = k" and "\<And>x. p x \<Longrightarrow> lease_step x (f x)"
    and "\<And>x. lease_key (f x) = lease_key x"
  shows "lease_moves s (sql_update p f s)"
proof -
  have "sql_update p f s = s \<or> (\<exists>r \<in> set s. p r \<and> sql_update p f s = put_row lease_key (f r) s)"
    by (rule pinned_update) (fact assms(1,2,4))+
  then show ?thesis using assms(3) unfolding lease_moves_def by blast
qed

lemma lease_key_single [simp]:
  "lease_key (lr_owner_update f r) = lease_key r" "lease_key (lr_token_update g r) = lease_key r"
  "lease_key (lr_expires_update h r) = lease_key r" "lease_key (lr_updated_update h r) = lease_key r"
  by (simp_all add: lease_key_def)

lemma lease_key_updates:
  "lease_key (r\<lparr>lr_expires := e, lr_updated := u\<rparr>) = lease_key r"
  "lease_key (r\<lparr>lr_owner := w, lr_expires := e, lr_updated := u\<rparr>) = lease_key r"
  "lease_key (r\<lparr>lr_owner := w, lr_token := n, lr_expires := e, lr_updated := u\<rparr>) = lease_key r"
  by (simp_all add: lease_key_def)

text \<open>The outcome of \<open>acquire_lease\<close>, by the row it finds.\<close>

definition acquire_args_ok :: "datetime \<Rightarrow> string \<Rightarrow> string \<Rightarrow> string \<Rightarrow> int \<Rightarrow> bool" where
  "acquire_args_ok now kind rid owner n \<longleftrightarrow>
     name_ok kind \<and> ref_ok rid \<and> ref_ok owner \<and> 0 < n \<and> after_seconds n now \<noteq> None"

lemma acquire_refused:
  "\<not> acquire_args_ok now kind rid owner n \<Longrightarrow> \<exists>e. acquire_lease now kind rid owner n db = (Inl e, db)"
  by (auto simp: acquire_lease_def acquire_args_ok_def)

lemma acquire_accepted:
  assumes "keyed lease_key (cd_leases db)" and "acquire_args_ok now kind rid owner n"
  defines "e \<equiv> the (after_seconds n now)" and "u \<equiv> isoformat now"
  defines "granted \<equiv> \<lambda>token. Inr (Some \<lparr>lc_kind = kind, lc_id = rid, lc_owner = owner, lc_token = token, lc_expires = e\<rparr>)"
  shows "acquire_lease now kind rid owner n db =
    (case row_of lease_key (kind, rid) (cd_leases db) of
       None \<Rightarrow> (granted 1, db\<lparr>cd_leases := cd_leases db @ [\<lparr>lr_kind = kind, lr_id = rid,
                 lr_owner = Some owner, lr_token = 1, lr_expires = e, lr_updated = u\<rparr>]\<rparr>)
     | Some r \<Rightarrow>
         if lr_owner r = Some owner \<and> u < lr_expires r then
           (granted (lr_token r),
            db\<lparr>cd_leases := put_row lease_key (r\<lparr>lr_expires := e, lr_updated := u\<rparr>) (cd_leases db)\<rparr>)
         else if lr_expires r \<le> u then
           (granted (lr_token r + 1),
            db\<lparr>cd_leases := put_row lease_key (r\<lparr>lr_owner := Some owner, lr_token := lr_token r + 1,
               lr_expires := e, lr_updated := u\<rparr>) (cd_leases db)\<rparr>)
         else (Inr None, db))"
proof (cases "fetchone (\<lambda>r. lease_key r = (kind, rid)) (cd_leases db)")
  case None
  then show ?thesis using assms(2)
    unfolding acquire_lease_def row_of_def acquire_args_ok_def e_def u_def granted_def by (auto simp: Let_def)
next
  case (Some r)
  have put: "sql_update (\<lambda>r. lease_key r = (kind, rid)) f (cd_leases db) = put_row lease_key (f r) (cd_leases db)"
    if "lease_key (f r) = lease_key r" for f
    by (rule sql_update_fetched [OF assms(1), of _ "(kind, rid)"]) (use Some that in auto)
  note puts = put [of "\<lambda>x. x\<lparr>lr_expires := e, lr_updated := u\<rparr>" for e u, OF lease_key_updates(1)]
    put [of "\<lambda>x. x\<lparr>lr_owner := w, lr_token := n, lr_expires := e, lr_updated := u\<rparr>" for w n e u,
      OF lease_key_updates(3)]
  from Some assms(2) show ?thesis
    unfolding acquire_lease_def row_of_def acquire_args_ok_def e_def u_def granted_def
    by (auto simp: Let_def puts)
qed

lemma acquire_moves:
  assumes "keyed lease_key (cd_leases db)"
  shows "lease_moves (cd_leases db) (cd_leases (snd (acquire_lease now kind rid owner n db)))"
proof (cases "acquire_args_ok now kind rid owner n")
  case False
  from acquire_refused [OF False, of db] show ?thesis by auto
next
  case True
  note eq = acquire_accepted [OF assms True]
  show ?thesis
  proof (cases "row_of lease_key (kind, rid) (cd_leases db)")
    case None
    then have "(kind, rid) \<notin> lease_key ` set (cd_leases db)" by (simp only: row_of_None_iff not_False_eq_True)
    then show ?thesis unfolding eq None lease_moves_def by (simp add: fresh_lease_def lease_key_def)
  next
    case (Some r)
    from row_of_SomeD [OF Some] Some show ?thesis
      by (auto simp: eq lease_moves_def intro: lease_step.intros)
  qed
qed

lemma claim_row_pin: "claim_row c x \<Longrightarrow> lease_key x = (lc_kind c, lc_id c)"
  by (simp add: claim_row_def)

lemma renew_lease_moves:
  assumes "keyed lease_key (cd_leases db)"
  shows "lease_moves (cd_leases db) (cd_leases (snd (renew_lease now c n db)))"
proof -
  have "lease_moves (cd_leases db) (sql_update (\<lambda>r. claim_row c r \<and> isoformat now < lr_expires r)
      (\<lambda>r. r\<lparr>lr_expires := e, lr_updated := isoformat now\<rparr>) (cd_leases db))" for e
    using assms
    by (rule lease_update_moves [where k = "(lc_kind c, lc_id c)"])
      (simp_all add: claim_row_def lease_key_updates ls_extend)
  then show ?thesis
    unfolding renew_lease_def by (simp add: Let_def del: first_failure.simps split: option.split)
qed

lemma release_lease_moves:
  assumes "keyed lease_key (cd_leases db)"
  shows "lease_moves (cd_leases db) (cd_leases (snd (release_lease now c db)))"
proof -
  have "lease_moves (cd_leases db) (sql_update (claim_row c)
      (\<lambda>r. r\<lparr>lr_owner := None, lr_expires := isoformat now, lr_updated := isoformat now\<rparr>) (cd_leases db))"
    using assms
    by (rule lease_update_moves [where k = "(lc_kind c, lc_id c)"])
      (simp_all add: claim_row_def ls_release lease_key_def)
  then show ?thesis by (simp add: release_lease_def Let_def)
qed

section \<open>Messages\<close>

definition ms_claimed :: "string \<Rightarrow> string \<Rightarrow> string \<Rightarrow> message \<Rightarrow> message" where
  "ms_claimed owner expires now_text m = upd_outbox_claim owner expires now_text (ms_token m + 1) m"

inductive msg_step :: "message \<Rightarrow> message \<Rightarrow> bool" where
  mg_claim: "due now_text m \<Longrightarrow> msg_step m (ms_claimed owner expires now_text m)"
| mg_renew: "outbox_held mid owner token m \<Longrightarrow> ms_lease_expires m = Some e \<Longrightarrow> now_text < e \<Longrightarrow>
    msg_step m (m\<lparr>ms_lease_expires := Some expires, ms_updated_at := now_text\<rparr>)"
| mg_finish: "outbox_held mid owner token m \<Longrightarrow> st \<noteq> OB_running \<Longrightarrow>
    msg_step m (upd_finish st available_at error now_text m)"

definition fresh_message :: "message \<Rightarrow> bool" where
  "fresh_message m \<longleftrightarrow> is_object (ms_payload m) \<and> ms_state m = OB_pending \<and> ms_lease_owner m = None \<and>
     ms_lease_expires m = None \<and> ms_token m = 0 \<and> ms_attempts m = 0"

definition msg_inv :: "message \<Rightarrow> bool" where
  "msg_inv m \<longleftrightarrow> is_object (ms_payload m) \<and> (ms_state m = OB_running \<longleftrightarrow> ms_lease_owner m \<noteq> None) \<and>
     (ms_lease_owner m = None \<longleftrightarrow> ms_lease_expires m = None) \<and> ms_token m = ms_attempts m \<and> 0 \<le> ms_attempts m"

lemmas msg_upd_defs = ms_claimed_def upd_outbox_claim_def upd_finish_def outbox_held_def

lemma msg_step_id: "msg_step m m' \<Longrightarrow> ms_id m' = ms_id m"
  by (induction rule: msg_step.induct) (simp_all add: msg_upd_defs)

lemma msg_step_token: "msg_step m m' \<Longrightarrow> ms_token m \<le> ms_token m'"
  by (induction rule: msg_step.induct) (simp_all add: msg_upd_defs)

lemma msg_step_frozen: "msg_step m m' \<Longrightarrow>
    ms_topic m' = ms_topic m \<and> ms_aggregate m' = ms_aggregate m \<and> ms_payload m' = ms_payload m \<and>
    ms_created_at m' = ms_created_at m"
  by (induction rule: msg_step.induct) (simp_all add: msg_upd_defs)

lemma fresh_message_inv: "fresh_message m \<Longrightarrow> msg_inv m"
  by (simp add: fresh_message_def msg_inv_def)

lemma msg_inv_step: "msg_inv m \<Longrightarrow> msg_step m m' \<Longrightarrow> msg_inv m'"
  by (erule msg_step.cases) (auto simp: msg_inv_def msg_upd_defs)

text \<open>\<open>succeeded\<close> and \<open>dead_letter\<close> rows take no step.\<close>

lemma settled_no_step: "msg_step m m' \<Longrightarrow> ms_state m \<notin> {OB_succeeded, OB_dead_letter}"
  by (erule msg_step.cases) (auto simp: due_def outbox_held_def)

definition msg_moves :: "message list \<Rightarrow> message list \<Rightarrow> bool" where
  "msg_moves s t \<longleftrightarrow> t = s \<or> (\<exists>r. fresh_message r \<and> ms_id r \<notin> ms_id ` set s \<and> t = s @ [r]) \<or>
     (\<exists>r r'. r \<in> set s \<and> msg_step r r' \<and> t = put_row ms_id r' s)"

lemma msg_moves_refl [simp]: "msg_moves s s"
  by (simp add: msg_moves_def)

lemma msg_moves_cases: "table_ok ms_id msg_inv s \<Longrightarrow> msg_moves s t \<Longrightarrow>
   t = s \<or> (\<exists>r. fresh_message r \<and> ms_id r \<notin> ms_id ` set s \<and> t = s @ [r]) \<or>
     (\<exists>r r'. r \<in> set s \<and> msg_step r r' \<and> t = put_row ms_id r' s)"
  by (simp add: msg_moves_def)

interpretation messages: row_machine ms_id fresh_message msg_inv msg_step msg_moves
  by unfold_locales (fact msg_step_id fresh_message_inv msg_inv_step msg_moves_cases)+

lemma msg_update_moves:
  assumes "keyed ms_id s" and "\<And>x. p x \<Longrightarrow> ms_id x = k" and "\<And>x. p x \<Longrightarrow> msg_step x (f x)"
    and "\<And>x. ms_id (f x) = ms_id x"
  shows "msg_moves s (sql_update p f s)"
proof -
  have "sql_update p f s = s \<or> (\<exists>r \<in> set s. p r \<and> sql_update p f s = put_row ms_id (f r) s)"
    by (rule pinned_update) (fact assms(1,2,4))+
  then show ?thesis using assms(3) unfolding msg_moves_def by blast
qed

lemma claim_where_moves:
  assumes "keyed ms_id s"
  shows "msg_moves s (sql_update (claim_where n mid token) (upd_outbox_claim owner e n (token + 1)) s)"
  using assms
proof (rule msg_update_moves [where k = mid])
  fix x
  assume "claim_where n mid token x"
  then show "msg_step x (upd_outbox_claim owner e n (token + 1) x)"
    using mg_claim [of n x owner e] by (auto simp: claim_where_def ms_claimed_def)
qed (auto simp: claim_where_def upd_outbox_claim_def)

lemma finish_moves:
  assumes "keyed ms_id (cd_outbox db)" and "st \<noteq> OB_running"
  shows "msg_moves (cd_outbox db) (cd_outbox (snd (finish now mid owner token st at err db)))"
proof -
  have "msg_moves (cd_outbox db) (sql_update (outbox_held mid owner token) (upd_finish st at err (isoformat now)) (cd_outbox db))"
    using assms(1)
  proof (rule msg_update_moves [where k = mid])
    show "msg_step x (upd_finish st at err (isoformat now) x)" if "outbox_held mid owner token x" for x
      using that assms(2) by (rule mg_finish)
  qed (simp_all add: outbox_held_def upd_finish_def)
  then show ?thesis by (simp add: finish_def)
qed

lemma renew_outbox_moves:
  assumes "keyed ms_id (cd_outbox db)"
  shows "msg_moves (cd_outbox db) (cd_outbox (snd (renew_outbox now mid owner token n db)))"
proof -
  have "msg_moves (cd_outbox db) (sql_update (\<lambda>m. outbox_held mid owner token m \<and>
        (case ms_lease_expires m of None \<Rightarrow> False | Some e \<Rightarrow> isoformat now < e))
      (\<lambda>m. m\<lparr>ms_lease_expires := Some e, ms_updated_at := isoformat now\<rparr>) (cd_outbox db))" for e
    using assms by (rule msg_update_moves [where k = mid])
      (auto simp: outbox_held_def split: option.splits intro: mg_renew [unfolded outbox_held_def])
  then show ?thesis
    unfolding renew_outbox_def renew_update_def by (simp add: Let_def del: first_failure.simps split: option.split)
qed

section \<open>The claim loop is a batch\<close>

lemma put_then_update:
  assumes "keyed key t" and "r \<in> set t" and "\<And>x. key (f x) = key x" and "key r \<notin> ks"
  shows "sql_update (\<lambda>x. key x \<in> ks) f (put_row key (f r) t) = sql_update (\<lambda>x. key x \<in> insert (key r) ks) f t"
proof -
  have "(if key (if key x = key (f r) then f r else x) \<in> ks then f (if key x = key (f r) then f r else x)
        else if key x = key (f r) then f r else x) =
      (if key x \<in> insert (key r) ks then f x else x)" if "x \<in> set t" for x
    using keyed_eqI [OF assms(1) that assms(2)] assms(3,4) by auto
  then show ?thesis by (simp add: sql_update_def put_row_def)
qed

lemma ms_claimed_id [simp]: "ms_id (ms_claimed owner e n m) = ms_id m"
  by (simp add: ms_claimed_def upd_outbox_claim_def)

lemma ms_claimed_payload [simp]: "ms_payload (ms_claimed owner e n m) = ms_payload m"
  by (simp add: ms_claimed_def upd_outbox_claim_def)

text \<open>One round of the loop on a due row of the table.\<close>

lemma claim_round:
  assumes "keyed ms_id t" and "r \<in> set t" and "due n r"
  shows "rowcount (claim_where n (ms_id r) (ms_token r)) t = 1"
    and "sql_update (claim_where n (ms_id r) (ms_token r)) (upd_outbox_claim owner e n (ms_token r + 1)) t =
      put_row ms_id (ms_claimed owner e n r) t"
    and "fetchone (\<lambda>m. ms_id m = ms_id r) (put_row ms_id (ms_claimed owner e n r) t) = Some (ms_claimed owner e n r)"
    and "msg_moves t (put_row ms_id (ms_claimed owner e n r) t)"
proof -
  have row: "row_of ms_id (ms_id r) t = Some r" using assms(1,2) by (simp add: row_of_Some_iff)
  have pin: "claim_where n (ms_id r) (ms_token r) x \<Longrightarrow> ms_id x = ms_id r" for x by (simp add: claim_where_def)
  have here: "claim_where n (ms_id r) (ms_token r) r" using assms(3) by (simp add: claim_where_def)
  from rowcount_pinned [OF assms(1) pin] row here
  show "rowcount (claim_where n (ms_id r) (ms_token r)) t = 1" by simp
  show "sql_update (claim_where n (ms_id r) (ms_token r)) (upd_outbox_claim owner e n (ms_token r + 1)) t =
      put_row ms_id (ms_claimed owner e n r) t"
    unfolding ms_claimed_def using assms(1) pin assms(2) here
    by (rule sql_update_put) (simp_all add: upd_outbox_claim_def)
  have "row_of ms_id (ms_id r) (put_row ms_id (ms_claimed owner e n r) t) = Some (ms_claimed owner e n r)"
    using row by (simp add: row_of_put_row)
  then show "fetchone (\<lambda>m. ms_id m = ms_id r) (put_row ms_id (ms_claimed owner e n r) t) = Some (ms_claimed owner e n r)"
    by (simp add: row_of_def)
  show "msg_moves t (put_row ms_id (ms_claimed owner e n r) t)"
    using assms(2,3) mg_claim unfolding msg_moves_def by blast
qed

lemma claim_rows_batch:
  "keyed ms_id t \<Longrightarrow> distinct (map ms_id rs) \<Longrightarrow> set rs \<subseteq> set t \<Longrightarrow>
   (\<forall>r \<in> set rs. due n r \<and> is_object (ms_payload r)) \<Longrightarrow>
   claim_rows owner e n rs t = (Inr (map (ms_claimed owner e n) rs),
     sql_update (\<lambda>m. ms_id m \<in> ms_id ` set rs) (ms_claimed owner e n) t) \<and>
   msg_moves\<^sup>*\<^sup>* t (snd (claim_rows owner e n rs t))"
proof (induction rs arbitrary: t)
  case Nil
  then show ?case by (simp add: sql_update_none)
next
  case (Cons r rs)
  let ?t = "put_row ms_id (ms_claimed owner e n r) t"
  have r: "r \<in> set t" "due n r" "is_object (ms_payload r)" using Cons.prems by simp_all
  note round = claim_round [OF Cons.prems(1) r(1,2)]
  have other: "x \<in> set ?t" if "x \<in> set rs" for x
    using that Cons.prems(2,3) by (force simp: put_row_def image_iff)
  have IH: "claim_rows owner e n rs ?t = (Inr (map (ms_claimed owner e n) rs),
      sql_update (\<lambda>m. ms_id m \<in> ms_id ` set rs) (ms_claimed owner e n) ?t) \<and>
    msg_moves\<^sup>*\<^sup>* ?t (snd (claim_rows owner e n rs ?t))"
    using Cons.prems other by (intro Cons.IH) auto
  have eq: "claim_rows owner e n (r # rs) t = (Inr (map (ms_claimed owner e n) (r # rs)),
      sql_update (\<lambda>m. ms_id m \<in> ms_id ` set rs) (ms_claimed owner e n) ?t)"
    using round IH r(3) by (simp add: row_to_outbox_def Let_def)
  have "sql_update (\<lambda>m. ms_id m \<in> ms_id ` set rs) (ms_claimed owner e n) ?t =
      sql_update (\<lambda>m. ms_id m \<in> insert (ms_id r) (ms_id ` set rs)) (ms_claimed owner e n) t"
    using Cons.prems(1) r(1) ms_claimed_id by (rule put_then_update) (use Cons.prems(2) in auto)
  moreover have "msg_moves\<^sup>*\<^sup>* t (snd (claim_rows owner e n (r # rs) t))"
    unfolding eq using converse_rtranclp_into_rtranclp [of msg_moves, OF round(4)] IH
    by (elim conjE) (simp only: snd_conv)
  ultimately show ?case using eq by simp
qed

lemma due_rows_properties:
  assumes "keyed ms_id t"
  shows "distinct (map ms_id (due_rows n topics limit t))" and "set (due_rows n topics limit t) \<subseteq> set t"
    and "\<forall>r \<in> set (due_rows n topics limit t). due n r \<and> (topics = [] \<or> ms_topic r \<in> set topics)"
    and "length (due_rows n topics limit t) \<le> nat limit"
    and "sorted (map claim_order (due_rows n topics limit t))"
proof -
  let ?f = "filter (\<lambda>m. due n m \<and> (topics = [] \<or> ms_topic m \<in> set topics)) t"
  have "distinct (map ms_id ?f)" using assms unfolding keyed_def by (rule distinct_map_filter)
  then have "distinct (map ms_id (sort_key claim_order ?f))" by (simp add: distinct_map)
  then show "distinct (map ms_id (due_rows n topics limit t))"
    by (simp add: due_rows_def distinct_map distinct_take inj_on_subset [OF _ set_take_subset])
  show "set (due_rows n topics limit t) \<subseteq> set t"
    and "\<forall>r \<in> set (due_rows n topics limit t). due n r \<and> (topics = [] \<or> ms_topic r \<in> set topics)"
    unfolding due_rows_def by (auto dest: in_set_takeD)
  show "length (due_rows n topics limit t) \<le> nat limit" by (simp add: due_rows_def)
  show "sorted (map claim_order (due_rows n topics limit t))"
    unfolding due_rows_def take_map [symmetric] by (rule sorted_wrt_take) (rule sorted_sort_key)
qed

section \<open>Every operation\<close>

definition control_ok :: "control_db \<Rightarrow> bool" where
  "control_ok db \<longleftrightarrow> table_ok lease_key lease_ok (cd_leases db) \<and> table_ok ms_id msg_inv (cd_outbox db)"

lemma control_okD:
  assumes "control_ok db"
  shows "keyed lease_key (cd_leases db)" and "keyed ms_id (cd_outbox db)"
    and "table_ok lease_key lease_ok (cd_leases db)" and "table_ok ms_id msg_inv (cd_outbox db)"
  using assms by (auto simp: control_ok_def dest: table_okD(1))

lemma control_ok_empty [simp]: "control_ok empty_control"
  by (simp add: control_ok_def empty_control_def)

lemma due_payload: "control_ok db \<Longrightarrow> r \<in> set (cd_outbox db) \<Longrightarrow> is_object (ms_payload r)"
  using table_okD(2) [of ms_id msg_inv "cd_outbox db" r] by (simp add: control_okD(4) msg_inv_def)

definition claim_args_ok :: "datetime \<Rightarrow> string \<Rightarrow> int \<Rightarrow> int \<Rightarrow> string list \<Rightarrow> bool" where
  "claim_args_ok now owner limit n topics \<longleftrightarrow>
     ref_ok owner \<and> 0 < limit \<and> limit \<le> 1000 \<and> 0 < n \<and> list_all name_ok topics \<and> after_seconds n now \<noteq> None"

lemma claim_outbox_refused:
  "\<not> claim_args_ok now owner limit n topics \<Longrightarrow> \<exists>e. claim_outbox now owner limit n topics db = (Inl e, db)"
  by (auto simp: claim_outbox_def claim_args_ok_def)

lemma claim_outbox_batch:
  assumes "control_ok db" and "claim_args_ok now owner limit n topics"
  defines "rs \<equiv> due_rows (isoformat now) topics limit (cd_outbox db)"
    and "f \<equiv> ms_claimed owner (the (after_seconds n now)) (isoformat now)"
  shows "claim_outbox now owner limit n topics db =
      (Inr (map f rs), db\<lparr>cd_outbox := sql_update (\<lambda>m. ms_id m \<in> ms_id ` set rs) f (cd_outbox db)\<rparr>)"
    and "msg_moves\<^sup>*\<^sup>* (cd_outbox db) (cd_outbox (snd (claim_outbox now owner limit n topics db)))"
proof -
  note sel = due_rows_properties [OF control_okD(2) [OF assms(1)], of "isoformat now" topics limit]
  have "claim_rows owner (the (after_seconds n now)) (isoformat now) rs (cd_outbox db) =
      (Inr (map f rs), sql_update (\<lambda>m. ms_id m \<in> ms_id ` set rs) f (cd_outbox db)) \<and>
    msg_moves\<^sup>*\<^sup>* (cd_outbox db) (snd (claim_rows owner (the (after_seconds n now)) (isoformat now) rs (cd_outbox db)))"
    unfolding f_def rs_def using control_okD(2) [OF assms(1)] sel(1,2)
    by (rule claim_rows_batch) (use sel(2,3) due_payload [OF assms(1)] in blast)
  moreover have "claim_outbox now owner limit n topics db =
      (case claim_rows owner (the (after_seconds n now)) (isoformat now) rs (cd_outbox db) of
         (Inl e, table) \<Rightarrow> (Inl e, db) | (Inr ms, table) \<Rightarrow> (Inr ms, db\<lparr>cd_outbox := table\<rparr>))"
    using assms(2) by (simp add: claim_outbox_def claim_args_ok_def rs_def)
  ultimately show "claim_outbox now owner limit n topics db =
      (Inr (map f rs), db\<lparr>cd_outbox := sql_update (\<lambda>m. ms_id m \<in> ms_id ` set rs) f (cd_outbox db)\<rparr>)"
    and "msg_moves\<^sup>*\<^sup>* (cd_outbox db) (cd_outbox (snd (claim_outbox now owner limit n topics db)))"
    by (elim conjE; simp)+
qed

text \<open>\<open>claim_outbox_message\<close>: refused, nothing due, or the due row claimed.\<close>

lemma claim_message_cases:
  assumes "control_ok db"
  shows "(\<exists>e. claim_outbox_message now mid owner n db = (Inl e, db)) \<or>
    claim_outbox_message now mid owner n db = (Inr None, db) \<or>
    (\<exists>r e. r \<in> set (cd_outbox db) \<and> ms_id r = mid \<and> due (isoformat now) r \<and>
      claim_outbox_message now mid owner n db = (Inr (Some (ms_claimed owner e (isoformat now) r)),
        db\<lparr>cd_outbox := put_row ms_id (ms_claimed owner e (isoformat now) r) (cd_outbox db)\<rparr>))"
proof (cases "ref_ok mid \<and> ref_ok owner \<and> 0 < n \<and> after_seconds n now \<noteq> None")
  case False
  then show ?thesis by (auto simp: claim_outbox_message_def)
next
  case args: True
  show ?thesis
  proof (cases "fetchone (\<lambda>m. ms_id m = mid \<and> due (isoformat now) m) (cd_outbox db)")
    case None
    with args show ?thesis by (auto simp: claim_outbox_message_def Let_def)
  next
    case (Some r)
    then have r: "r \<in> set (cd_outbox db)" "ms_id r = mid" "due (isoformat now) r" by (auto dest: fetchone_Some)
    note round = claim_round [OF control_okD(2) [OF assms] r(1,3), unfolded r(2)]
    have "is_object (ms_payload r)" using assms r(1) by (rule due_payload)
    with args Some r round show ?thesis
      by (auto simp: claim_outbox_message_def Let_def row_to_outbox_def)
  qed
qed

lemma claim_message_moves:
  assumes "control_ok db"
  shows "msg_moves (cd_outbox db) (cd_outbox (snd (claim_outbox_message now mid owner n db)))"
  using claim_message_cases [OF assms, of now mid owner n]
  by (elim disjE exE conjE) (auto simp: msg_moves_def intro: mg_claim)

lemma enqueue_moves: "msg_moves (cd_outbox db) (cd_outbox (snd (enqueue iso_ok now mid topic aggregate payload at db)))"
proof -
  have "fresh_message (new_message now mid topic aggregate payload due)" if "is_object payload" for due
    using that by (cases payload) (simp_all add: fresh_message_def new_message_def)
  then show ?thesis
    unfolding enqueue_def Let_def
    by (auto simp: insert_ignore_def msg_moves_def new_message_def split: option.split)
qed

lemma retry_outbox: "msg_moves (cd_outbox db) (cd_outbox (snd (retry redact now mid owner token error delay most db)))"
  if "keyed ms_id (cd_outbox db)"
proof -
  have "msg_moves (cd_outbox db) (cd_outbox t)" if f: "finish now mid owner token st at err db = (x, t)" and "st \<noteq> OB_running" for st at err x t
    using finish_moves [OF \<open>keyed ms_id (cd_outbox db)\<close> that(2), of now mid owner token at err] f by simp
  then show ?thesis
    unfolding retry_def
    by (auto simp del: first_failure.simps split: option.split sum.split prod.split)
qed

lemma outbox_ops_keep_leases:
  "cd_leases (snd (enqueue iso_ok now mid topic aggregate payload at db)) = cd_leases db"
  "cd_leases (snd (claim_outbox now owner limit n topics db)) = cd_leases db"
  "cd_leases (snd (claim_outbox_message now mid owner n db)) = cd_leases db"
  "cd_leases (snd (finish now mid owner token st at err db)) = cd_leases db"
  "cd_leases (snd (acknowledge now mid owner token db)) = cd_leases db"
  "cd_leases (snd (renew_outbox now mid owner token n db)) = cd_leases db"
  "cd_leases (snd (record_trace now t db)) = cd_leases db"
  unfolding enqueue_def claim_outbox_def claim_outbox_message_def acknowledge_def finish_def renew_outbox_def renew_update_def record_trace_def Let_def
  by (simp_all del: first_failure.simps split: option.split sum.split prod.split)

lemma retry_keeps_leases: "cd_leases (snd (retry redact now mid owner token error delay most db)) = cd_leases db"
proof -
  have "cd_leases t = cd_leases db" if "finish now mid owner token st at err db = (x, t)" for st at err x t
    using outbox_ops_keep_leases(4) [of now mid owner token st at err db] that by simp
  then show ?thesis
    unfolding retry_def by (auto simp del: first_failure.simps split: option.split sum.split prod.split)
qed

lemma lease_ops_keep_outbox:
  "cd_outbox (snd (acquire_lease now kind rid owner n db)) = cd_outbox db"
  "cd_outbox (snd (renew_lease now c n db)) = cd_outbox db"
  "cd_outbox (snd (release_lease now c db)) = cd_outbox db"
  "cd_outbox (snd (record_trace now t db)) = cd_outbox db"
  unfolding acquire_lease_def renew_lease_def release_lease_def record_trace_def Let_def
  by (simp_all del: first_failure.simps split: option.split)

lemma control_step_moves:
  assumes ok: "control_ok db" and "control_step iso_ok redact db db'"
  shows "lease_moves (cd_leases db) (cd_leases db') \<and> msg_moves\<^sup>*\<^sup>* (cd_outbox db) (cd_outbox db')"
  using assms(2)
proof cases
  case (c_claim now owner limit n topics)
  show ?thesis
  proof (cases "claim_args_ok now owner limit n topics")
    case True
    from claim_outbox_batch(2) [OF ok True] c_claim show ?thesis by (simp add: outbox_ops_keep_leases)
  next
    case False
    from claim_outbox_refused [OF False, of db] c_claim show ?thesis by auto
  qed
qed (use control_okD(1,2) [OF ok] in
  \<open>auto simp: acquire_moves renew_lease_moves release_lease_moves lease_ops_keep_outbox outbox_ops_keep_leases
    retry_keeps_leases acknowledge_def [unfolded fun_eq_iff] intro!: r_into_rtranclp
    intro: enqueue_moves claim_message_moves [OF ok] finish_moves renew_outbox_moves retry_outbox\<close>)

lemma control_ok_step: "control_ok db \<Longrightarrow> control_step iso_ok redact db db' \<Longrightarrow> control_ok db'"
  using control_step_moves [of db iso_ok redact db'] leases.tstep_ok messages.run_ok
  by (auto simp: control_ok_def)

section \<open>Fencing\<close>

definition lease_token_of :: "string \<times> string \<Rightarrow> control_db \<Rightarrow> int" where
  "lease_token_of k db = row_measure lease_key 0 lr_token k (cd_leases db)"

definition message_token_of :: "string \<Rightarrow> control_db \<Rightarrow> int" where
  "message_token_of mid db = row_measure ms_id 0 ms_token mid (cd_outbox db)"

lemma lease_token_mono:
  assumes "control_ok db" and "control_step iso_ok redact db db'"
  shows "lease_token_of k db \<le> lease_token_of k db'"
  unfolding lease_token_of_def using control_okD(3) [OF assms(1)]
  by (rule leases.tstep_measure) (use control_step_moves [OF assms] in \<open>auto simp: fresh_lease_def intro: lease_step_token\<close>)

lemma message_run_token:
  assumes "msg_moves\<^sup>*\<^sup>* s t" and "table_ok ms_id msg_inv s"
  shows "row_measure ms_id 0 ms_token k s \<le> row_measure ms_id (0::int) ms_token k t"
  using assms(1)
proof (induction rule: rtranclp_induct)
  case base
  then show ?case by simp
next
  case (step u v)
  have "table_ok ms_id msg_inv u" using step.hyps(1) assms(2) by (rule messages.run_ok)
  then have "row_measure ms_id 0 ms_token k u \<le> row_measure ms_id 0 ms_token k v"
    using step.hyps(2) by (rule messages.tstep_measure) (auto simp: fresh_message_def intro: msg_step_token)
  with step.IH show ?case by simp
qed

lemma message_token_mono:
  assumes "control_ok db" and "control_step iso_ok redact db db'"
  shows "message_token_of k db \<le> message_token_of k db'"
  unfolding message_token_of_def
  using message_run_token control_step_moves [OF assms] control_okD(4) [OF assms(1)] by blast

text \<open>The lease service: a claim is accepted while its row carries its owner and token.\<close>

definition lease_accepted :: "string \<times> string \<Rightarrow> lease_claim \<Rightarrow> control_db \<Rightarrow> bool" where
  "lease_accepted k c db \<longleftrightarrow> (\<exists>r. row_of lease_key k (cd_leases db) = Some r \<and> claim_row c r)"

definition lease_granted :: "string \<times> string \<Rightarrow> lease_claim \<Rightarrow> control_db \<Rightarrow> control_db \<Rightarrow> bool" where
  \<comment> \<open>the call that moves the resource to a new token\<close>
  "lease_granted k c db db' \<longleftrightarrow> lease_token_of k db < lc_token c \<and>
     (\<exists>now owner n. acquire_lease now (fst k) (snd k) owner n db = (Inr (Some c), db'))"

lemma lease_accepted_token: "control_ok db \<Longrightarrow> lease_accepted k c db \<Longrightarrow> lc_token c = lease_token_of k db"
  by (auto simp: lease_accepted_def lease_token_of_def row_measure_def claim_row_def)

lemma acquire_token:
  assumes "control_ok db" and "acquire_lease now kind rid owner n db = (Inr (Some c), db')"
  shows "lc_kind c = kind \<and> lc_id c = rid \<and> lc_owner c = owner \<and> lc_token c = lease_token_of (kind, rid) db' \<and>
    lease_accepted (kind, rid) c db'"
proof -
  have args: "acquire_args_ok now kind rid owner n"
    using acquire_refused [of now kind rid owner n db] assms(2) by fastforce
  note eq = acquire_accepted [OF control_okD(1) [OF assms(1)] args]
  show ?thesis
  proof (cases "row_of lease_key (kind, rid) (cd_leases db)")
    case None
    with assms(2) eq show ?thesis
      by (auto simp: lease_token_of_def row_measure_def row_of_append lease_accepted_def claim_row_def lease_key_def)
  next
    case (Some r)
    from row_of_SomeD [OF Some] have r: "r \<in> set (cd_leases db)" "lr_kind r = kind" "lr_id r = rid"
      by (auto simp: lease_key_def)
    from Some assms(2) eq r show ?thesis
      by (auto simp: lease_token_of_def row_measure_def row_of_put_row lease_accepted_def claim_row_def
          lease_key_updates split: if_splits) (simp_all add: lease_key_def)
  qed
qed

lemma lease_granted_step: "control_ok db \<Longrightarrow> lease_granted k c db db' \<Longrightarrow> control_step iso_ok redact db db'"
  unfolding lease_granted_def using c_acquire by (metis snd_conv)

lemma lease_granted_fresh: "control_ok db \<Longrightarrow> lease_granted k c db db' \<Longrightarrow>
    lease_token_of k db < lease_token_of k db' \<and> lc_token c = lease_token_of k db'"
  using acquire_token [of db _ "fst k" "snd k" _ _ c db'] by (auto simp: lease_granted_def)

interpretation control_lease: fenced_lease control_ok "control_step iso_ok redact" lease_token_of lc_token
    lease_accepted lease_granted
  for iso_ok redact
  by unfold_locales (fact control_ok_step lease_token_mono lease_accepted_token lease_granted_step lease_granted_fresh)+

text \<open>The outbox: a delivery is accepted while the message runs under its owner and token.\<close>

definition delivery_accepted :: "string \<Rightarrow> message \<Rightarrow> control_db \<Rightarrow> bool" where
  "delivery_accepted mid m db \<longleftrightarrow>
     (\<exists>r. row_of ms_id mid (cd_outbox db) = Some r \<and> outbox_held mid (the (ms_lease_owner m)) (ms_token m) r)"

definition delivery_issued :: "string \<Rightarrow> message \<Rightarrow> control_db \<Rightarrow> control_db \<Rightarrow> bool" where
  "delivery_issued mid m db db' \<longleftrightarrow> ms_id m = mid \<and>
     ((\<exists>now owner limit n topics ms. claim_outbox now owner limit n topics db = (Inr ms, db') \<and> m \<in> set ms) \<or>
      (\<exists>now owner n. claim_outbox_message now mid owner n db = (Inr (Some m), db')))"

lemma delivery_accepted_token: "control_ok db \<Longrightarrow> delivery_accepted mid m db \<Longrightarrow> ms_token m = message_token_of mid db"
  by (auto simp: delivery_accepted_def message_token_of_def row_measure_def outbox_held_def)

lemma delivery_issued_step: "control_ok db \<Longrightarrow> delivery_issued mid m db db' \<Longrightarrow> control_step iso_ok redact db db'"
  unfolding delivery_issued_def using c_claim c_claim_one by (metis snd_conv)

text \<open>What a claim returns is the row as the table then has it, one token up.\<close>

lemma delivery_issued_row:
  assumes ok: "control_ok db" and "delivery_issued mid m db db'"
  shows "\<exists>r owner e n. row_of ms_id mid (cd_outbox db) = Some r \<and> due n r \<and> m = ms_claimed owner e n r \<and>
    row_of ms_id mid (cd_outbox db') = Some m"
proof -
  note k = control_okD(2) [OF ok]
  have mid: "ms_id m = mid" using assms(2) by (simp add: delivery_issued_def)
  from assms(2) consider (batch) now owner limit n topics ms where
      "claim_outbox now owner limit n topics db = (Inr ms, db')" "m \<in> set ms"
    | (one) now owner n where "claim_outbox_message now mid owner n db = (Inr (Some m), db')"
    unfolding delivery_issued_def by blast
  then show ?thesis
  proof cases
    case batch
    have args: "claim_args_ok now owner limit n topics"
      using claim_outbox_refused [of now owner limit n topics db] batch(1) by fastforce
    let ?rs = "due_rows (isoformat now) topics limit (cd_outbox db)"
    let ?f = "ms_claimed owner (the (after_seconds n now)) (isoformat now)"
    from claim_outbox_batch(1) [OF ok args] batch
    obtain r where r: "r \<in> set ?rs" "m = ?f r"
      and db': "cd_outbox db' = sql_update (\<lambda>m. ms_id m \<in> ms_id ` set ?rs) ?f (cd_outbox db)" by auto
    have "r \<in> set (cd_outbox db)" "due (isoformat now) r"
      using due_rows_properties(2,3) [OF k, of "isoformat now" topics limit] r(1) by auto
    then have row: "row_of ms_id mid (cd_outbox db) = Some r" using k mid r(2) by (simp add: row_of_Some_iff)
    then have "row_of ms_id mid (cd_outbox db') = Some m"
      unfolding db' using r mid by (subst row_of_sql_update) (auto simp: image_iff)
    with row r(2) \<open>due (isoformat now) r\<close> show ?thesis by blast
  next
    case one
    from claim_message_cases [OF ok, of now mid owner n] one
    obtain r e where r: "r \<in> set (cd_outbox db)" "ms_id r = mid" "due (isoformat now) r"
      "m = ms_claimed owner e (isoformat now) r" "cd_outbox db' = put_row ms_id m (cd_outbox db)" by auto
    have "row_of ms_id mid (cd_outbox db) = Some r" using k r(1,2) by (simp add: row_of_Some_iff)
    with r show ?thesis by (auto simp: row_of_put_row)
  qed
qed

lemma delivery_issued_fresh: "control_ok db \<Longrightarrow> delivery_issued mid m db db' \<Longrightarrow>
    message_token_of mid db < message_token_of mid db' \<and> ms_token m = message_token_of mid db'"
  using delivery_issued_row [of db mid m db']
  by (auto simp: message_token_of_def row_measure_def ms_claimed_def upd_outbox_claim_def)

interpretation delivery: fenced_lease control_ok "control_step iso_ok redact" message_token_of ms_token
    delivery_accepted delivery_issued
  for iso_ok redact
  by unfold_locales
    (fact control_ok_step message_token_mono delivery_accepted_token delivery_issued_step delivery_issued_fresh)+

end
