(* ===== verification/ControlProps.thy ===== *)
theory ControlProps
  imports ControlSafety
begin

text \<open>
  The properties of the control repository: leases as a lock service with fencing tokens, the outbox
  as an at-least-once queue with fenced deliveries. The concrete run at the start is the input of the
  witnesses.
\<close>

section \<open>A concrete run\<close>

definition c_t0 :: datetime where "c_t0 = DateTime 2025 1 1 0 0 0 0"
definition c_t1 :: datetime where "c_t1 = DateTime 2025 1 1 0 0 5 0"
definition c_t2 :: datetime where "c_t2 = DateTime 2025 1 1 0 2 0 0"

lemma digits_numeral: "digits (numeral k) n = digits (pred_numeral k) (n div 10) @ [char_of (48 + n mod 10)]"
  by (simp only: numeral_eq_Suc digits.simps)

lemma digit_chars:
  "char_of (48::nat) = CHR ''0''" "char_of (49::nat) = CHR ''1''" "char_of (50::nat) = CHR ''2''"
  "char_of (51::nat) = CHR ''3''" "char_of (52::nat) = CHR ''4''" "char_of (53::nat) = CHR ''5''"
  by (simp_all add: char_of_def bit_iff_odd)

lemma c_after:
  "after_seconds 60 c_t0 = Some ''2025-01-01T00:01:00+00:00''" "isoformat c_t0 = ''2025-01-01T00:00:00+00:00''"
  "after_seconds 60 c_t1 = Some ''2025-01-01T00:01:05+00:00''" "isoformat c_t1 = ''2025-01-01T00:00:05+00:00''"
  "after_seconds 60 c_t2 = Some ''2025-01-01T00:03:00+00:00''" "isoformat c_t2 = ''2025-01-01T00:02:00+00:00''"
  by (simp_all add: c_t0_def c_t1_def c_t2_def after_seconds_def isoformat_def fraction_def days_in_month_def Let_def digits_numeral digit_chars)

lemma c_names [simp]: "name_ok ''run''" "name_ok ''jobs''" "ref_ok ''r1''" "ref_ok ''w1''" "ref_ok ''w2''" "ref_ok ''m1''"
  by (simp_all add: name_ok_def ref_ok_def lower_char_def upper_char_def digit_char_def)

definition c_claim1 :: lease_claim where
  "c_claim1 = \<lparr>lc_kind = ''run'', lc_id = ''r1'', lc_owner = ''w1'', lc_token = 1, lc_expires = ''2025-01-01T00:01:00+00:00''\<rparr>"

definition c_claim2 :: lease_claim where
  "c_claim2 = \<lparr>lc_kind = ''run'', lc_id = ''r1'', lc_owner = ''w2'', lc_token = 2, lc_expires = ''2025-01-01T00:03:00+00:00''\<rparr>"

definition c_db1 :: control_db where
  "c_db1 = empty_control\<lparr>cd_leases := [\<lparr>lr_kind = ''run'', lr_id = ''r1'', lr_owner = Some ''w1'', lr_token = 1,
     lr_expires = ''2025-01-01T00:01:00+00:00'', lr_updated = ''2025-01-01T00:00:00+00:00''\<rparr>]\<rparr>"

definition c_db2 :: control_db where
  "c_db2 = empty_control\<lparr>cd_leases := [\<lparr>lr_kind = ''run'', lr_id = ''r1'', lr_owner = Some ''w2'', lr_token = 2,
     lr_expires = ''2025-01-01T00:03:00+00:00'', lr_updated = ''2025-01-01T00:02:00+00:00''\<rparr>]\<rparr>"

lemma c_acquire1: "acquire_lease c_t0 ''run'' ''r1'' ''w1'' 60 empty_control = (Inr (Some c_claim1), c_db1)"
  by (simp add: acquire_lease_def c_after empty_control_def c_claim1_def c_db1_def Let_def)

lemma c_acquire2: "acquire_lease c_t2 ''run'' ''r1'' ''w2'' 60 c_db1 = (Inr (Some c_claim2), c_db2)"
  by (simp add: acquire_lease_def c_after empty_control_def c_claim2_def c_db1_def c_db2_def Let_def lease_key_def less_char_def)

lemma c_ok: "control_ok c_db1" "control_ok c_db2"
  by (simp_all add: control_ok_def c_db1_def c_db2_def empty_control_def table_ok_def keyed_def lease_ok_def)

section \<open>Leases\<close>

lemma unaccepted_lease:
  assumes "control_ok db" and "\<not> lease_accepted (lc_kind c, lc_id c) c db"
  shows "\<exists>e. renew_lease now c n db = (Inl e, db)" and "release_lease now c db = (False, db)"
proof -
  have none: "\<not> claim_row c r" if "r \<in> set (cd_leases db)" for r
    using that assms by (auto simp: lease_accepted_def row_of_Some_iff [OF control_okD(1)] claim_row_def)
  then have zero: "rowcount p (cd_leases db) = 0" "sql_update p f (cd_leases db) = cd_leases db"
    if "\<And>r. p r \<Longrightarrow> claim_row c r" for p f
    using that by (auto simp: rowcount_zero intro: sql_update_none)
  show "\<exists>e. renew_lease now c n db = (Inl e, db)"
    unfolding renew_lease_def Let_def
    using zero [of "\<lambda>r. claim_row c r \<and> isoformat now < lr_expires r"]
    by (simp del: first_failure.simps split: option.split)
  show "release_lease now c db = (False, db)"
    by (simp add: release_lease_def Let_def zero)
qed

text \<open>C12. Once a resource's lease has been taken over under a newer fencing token, the older claim is
  powerless in every state the repository can reach: it can neither renew nor release the lease, and
  its attempts change nothing.\<close>

theorem superseded_lease_is_refused:
  assumes "control_ok db" and "lease_accepted (lc_kind old, lc_id old) old db"
    and "acquire_lease now (lc_kind old) (lc_id old) owner n db = (Inr (Some new), db')" and "lc_token old < lc_token new"
    and "(control_step iso_ok redact)\<^sup>*\<^sup>* db' later"
  shows "(\<exists>e. renew_lease now' old m later = (Inl e, later)) \<and> release_lease now' old later = (False, later)"
proof -
  let ?k = "(lc_kind old, lc_id old)"
  have granted: "lease_granted ?k new db db'"
    unfolding lease_granted_def using assms(3,4) lease_accepted_token [OF assms(1,2)] by auto
  have "\<not> lease_accepted ?k old later"
    using assms(1,2) granted assms(5) by (rule control_lease.superseded)
  moreover have "control_ok later"
    using assms(5) control_ok_step [OF assms(1) lease_granted_step [OF assms(1) granted]] by (rule control_lease.run_inv)
  ultimately show ?thesis using unaccepted_lease by blast
qed

theorem superseded_lease_is_refused_witness:
  "(\<exists>e. renew_lease c_t2 c_claim1 60 c_db2 = (Inl e, c_db2)) \<and> release_lease c_t2 c_claim1 c_db2 = (False, c_db2)"
proof (rule superseded_lease_is_refused [where iso_ok = "\<lambda>_. True" and redact = "\<lambda>s. s"])
  show "control_ok c_db1" by (fact c_ok)
  show "lease_accepted (lc_kind c_claim1, lc_id c_claim1) c_claim1 c_db1"
    by (simp add: lease_accepted_def c_claim1_def c_db1_def lease_key_def claim_row_def)
  show "acquire_lease c_t2 (lc_kind c_claim1) (lc_id c_claim1) ''w2'' 60 c_db1 = (Inr (Some c_claim2), c_db2)"
    using c_acquire2 by (simp add: c_claim1_def)
qed (simp_all add: c_claim1_def c_claim2_def)

text \<open>What the other workers may do while \<open>a\<close>'s lease runs to \<open>e\<close>: anything with the outbox and the
  traces, and every lease operation in their own name before \<open>e\<close>.\<close>

inductive rival_step :: "(string \<Rightarrow> bool) \<Rightarrow> (string \<Rightarrow> string) \<Rightarrow> string \<Rightarrow> datetime \<Rightarrow> control_db \<Rightarrow> control_db \<Rightarrow> bool"
  for iso_ok redact a e where
  rv_acquire: "b \<noteq> a \<Longrightarrow> valid_datetime now \<Longrightarrow> now < e \<Longrightarrow>
    rival_step iso_ok redact a e db (snd (acquire_lease now kind rid b n db))"
| rv_renew: "lc_owner c \<noteq> a \<Longrightarrow> rival_step iso_ok redact a e db (snd (renew_lease now c n db))"
| rv_release: "lc_owner c \<noteq> a \<Longrightarrow> rival_step iso_ok redact a e db (snd (release_lease now c db))"
| rv_outbox: "control_step iso_ok redact db db' \<Longrightarrow> cd_leases db' = cd_leases db \<Longrightarrow> rival_step iso_ok redact a e db db'"

lemma rival_control_step: "rival_step iso_ok redact a e db db' \<Longrightarrow> control_step iso_ok redact db db'"
  by (erule rival_step.cases) (auto intro: control_step.intros)

lemma rival_acquire:
  assumes "keyed lease_key (cd_leases db)" and "valid_datetime now" "valid_datetime e" "now < e"
    and "row_of lease_key k (cd_leases db) = Some r" and "lr_owner r = Some a" "lr_expires r = isoformat e" and "b \<noteq> a"
  shows "row_of lease_key k (cd_leases (snd (acquire_lease now kind rid b n db))) = Some r"
    and "acquire_args_ok now (fst k) (snd k) b n \<Longrightarrow> acquire_lease now (fst k) (snd k) b n db = (Inr None, db)"
proof -
  have "isoformat now < isoformat e" using assms(2-4) by (simp add: isoformat_less)
  then have wait: "\<not> lr_expires r \<le> isoformat now" using assms(7) by simp
  note eq = acquire_accepted [OF assms(1)]
  show "acquire_args_ok now (fst k) (snd k) b n \<Longrightarrow> acquire_lease now (fst k) (snd k) b n db = (Inr None, db)"
    using assms(5,6,8) wait by (simp add: eq)
  show "row_of lease_key k (cd_leases (snd (acquire_lease now kind rid b n db))) = Some r"
  proof (cases "acquire_args_ok now kind rid b n")
    case False
    from acquire_refused [OF False, of db] assms(5) show ?thesis by auto
  next
    case True
    show ?thesis
    proof (cases "(kind, rid) = k")
      case k: True
      then show ?thesis using assms(5,6,8) wait by (simp add: eq [OF True])
    next
      case False
      then show ?thesis
        using assms(5)
        by (auto simp: eq [OF True] row_of_append row_of_put_row lease_key_updates split: option.split dest: row_of_SomeD)
    qed
  qed
qed

lemma rival_keeps_row:
  assumes "control_ok db" and "rival_step iso_ok redact a e db db'" and "valid_datetime e"
    and "row_of lease_key k (cd_leases db) = Some r" and "lr_owner r = Some a" "lr_expires r = isoformat e"
  shows "row_of lease_key k (cd_leases db') = Some r"
  using assms(2)
proof cases
  case (rv_acquire b now kind rid n)
  with rival_acquire(1) [OF control_okD(1) [OF assms(1)] rv_acquire(3) assms(3) rv_acquire(4) assms(4-6) rv_acquire(2)]
  show ?thesis by simp
next
  case (rv_renew c now n)
  have "row_of lease_key k (sql_update (\<lambda>r. claim_row c r \<and> isoformat now < lr_expires r)
      (\<lambda>r. r\<lparr>lr_expires := x, lr_updated := isoformat now\<rparr>) (cd_leases db)) = Some r" for x
    using rv_renew(2) assms(4,5) by (subst row_of_sql_update) (auto simp: lease_key_updates claim_row_def)
  with rv_renew(1) assms(4) show ?thesis
    unfolding renew_lease_def by (simp add: Let_def del: first_failure.simps split: option.split)
next
  case (rv_release c now)
  have "row_of lease_key k (sql_update (claim_row c)
      (\<lambda>r. r\<lparr>lr_owner := None, lr_expires := isoformat now, lr_updated := isoformat now\<rparr>) (cd_leases db)) = Some r"
    using rv_release(2) assms(4,5) by (subst row_of_sql_update) (auto simp: lease_key_def claim_row_def)
  with rv_release(1) show ?thesis by (simp add: release_lease_def Let_def)
qed (use assms(4) in simp)

lemma rival_run:
  assumes "(rival_step iso_ok redact a e)\<^sup>*\<^sup>* db db'" and "control_ok db" and "valid_datetime e"
    and "row_of lease_key k (cd_leases db) = Some r" and "lr_owner r = Some a" "lr_expires r = isoformat e"
  shows "control_ok db' \<and> row_of lease_key k (cd_leases db') = Some r"
  using assms(1)
proof (induction rule: rtranclp_induct)
  case base
  then show ?case using assms(2,4) by simp
next
  case (step u v)
  then show ?case
    using rival_keeps_row [OF _ step.hyps(2) assms(3) _ assms(5,6)]
      control_ok_step [OF _ rival_control_step [OF step.hyps(2)]] by blast
qed

lemma acquired_row:
  assumes "control_ok db" and "acquire_lease now kind rid a n db = (Inr (Some c), db')"
  shows "control_ok db' \<and> (\<exists>r. row_of lease_key (kind, rid) (cd_leases db') = Some r \<and> lr_owner r = Some a \<and>
    after_seconds n now = Some (lr_expires r) \<and> lr_token r = lc_token c)"
proof -
  have args: "acquire_args_ok now kind rid a n"
    using acquire_refused [of now kind rid a n db] assms(2) by fastforce
  note eq = acquire_accepted [OF control_okD(1) [OF assms(1)] args]
  have "control_ok db'"
    using control_ok_step [OF assms(1), of "\<lambda>_. True" "\<lambda>s. s" db'] c_acquire [of _ _ db now kind rid a n] assms(2) by simp
  moreover have "\<exists>r. row_of lease_key (kind, rid) (cd_leases db') = Some r \<and> lr_owner r = Some a \<and>
    after_seconds n now = Some (lr_expires r) \<and> lr_token r = lc_token c"
  proof (cases "row_of lease_key (kind, rid) (cd_leases db)")
    case None
    with assms(2) eq args show ?thesis by (auto simp: row_of_append acquire_args_ok_def lease_key_def)
  next
    case (Some r)
    with assms(2) eq args row_of_SomeD [OF Some] show ?thesis
      by (auto simp: row_of_put_row acquire_args_ok_def split: if_splits)
  qed
  ultimately show ?thesis by blast
qed

text \<open>C35. A lease is exclusive while it runs: after \<open>a\<close> acquired it for \<open>n\<close> seconds, and whatever the other
  workers do before it expires, \<open>a\<close>'s claim is still accepted and every well-formed attempt of another
  worker to acquire the resource is answered with \<open>None\<close> and changes nothing.\<close>

theorem lease_is_exclusive:
  assumes "control_ok db" and "acquire_lease now kind rid a n db = (Inr (Some c), db')"
    and "add_seconds (nat n) now = Some e" and "valid_datetime e"
    and "(rival_step iso_ok redact a e)\<^sup>*\<^sup>* db' later"
    and "b \<noteq> a" and "valid_datetime now'" and "now' < e" and "acquire_args_ok now' kind rid b m"
  shows "lease_accepted (kind, rid) c later \<and> acquire_lease now' kind rid b m later = (Inr None, later)"
proof -
  from acquired_row [OF assms(1,2)] obtain r where db': "control_ok db'"
    and r: "row_of lease_key (kind, rid) (cd_leases db') = Some r" "lr_owner r = Some a"
      "after_seconds n now = Some (lr_expires r)" "lr_token r = lc_token c" by blast
  from r(3) assms(3) have e: "lr_expires r = isoformat e" by (simp add: after_seconds_def)
  from rival_run [OF assms(5) db' assms(4) r(1,2) e]
  have later: "control_ok later" "row_of lease_key (kind, rid) (cd_leases later) = Some r" by auto
  have "lease_accepted (kind, rid) c later"
    using later(2) r(2,4) acquire_token [OF assms(1,2)] row_of_SomeD [OF later(2)]
    by (auto simp: lease_accepted_def claim_row_def)
  moreover have "acquire_lease now' kind rid b m later = (Inr None, later)"
    using rival_acquire(2) [OF control_okD(1) [OF later(1)] assms(7,4,8) later(2) r(2) e assms(6)] assms(9) by simp
  ultimately show ?thesis by blast
qed

theorem lease_is_exclusive_witness:
  "lease_accepted (''run'', ''r1'') c_claim1 c_db1 \<and> acquire_lease c_t1 ''run'' ''r1'' ''w2'' 60 c_db1 = (Inr None, c_db1)"
proof (rule lease_is_exclusive [OF control_ok_empty c_acquire1, where iso_ok = "\<lambda>_. True" and redact = "\<lambda>s. s"])
  show "add_seconds (nat 60) c_t0 = Some (DateTime 2025 1 1 0 1 0 0)"
    by (simp add: c_t0_def Let_def)
  show "acquire_args_ok c_t1 ''run'' ''r1'' ''w2'' 60" by (simp add: acquire_args_ok_def c_after)
qed (simp_all add: c_t1_def less_DateTime days_in_month_def)

section \<open>The lock service\<close>

text \<open>The abstract service: each resource has at most one lock, with its holder, the last token issued
  and the time it runs to.\<close>

type_synonym lock = "string option \<times> int \<times> string"

definition locks :: "control_db \<Rightarrow> string \<times> string \<Rightarrow> lock option" where
  "locks db k = map_option (\<lambda>r. (lr_owner r, lr_token r, lr_expires r)) (row_of lease_key k (cd_leases db))"

fun grant_lock :: "string \<Rightarrow> string \<Rightarrow> string \<Rightarrow> lock option \<Rightarrow> int option \<times> lock" where
  "grant_lock u e w None = (Some 1, (Some w, 1, e))"
| "grant_lock u e w (Some (h, t, x)) =
     (if h = Some w \<and> u < x then (Some t, (h, t, e))
      else if x \<le> u then (Some (t + 1), (Some w, t + 1, e))
      else (None, (h, t, x)))"

fun extend_lock :: "string \<Rightarrow> string \<Rightarrow> string \<Rightarrow> int \<Rightarrow> lock option \<Rightarrow> lock option" where
  "extend_lock u e w n (Some (h, t, x)) = (if h = Some w \<and> t = n \<and> u < x then Some (h, t, e) else Some (h, t, x))"
| "extend_lock u e w n None = None"

fun free_lock :: "string \<Rightarrow> string \<Rightarrow> int \<Rightarrow> lock option \<Rightarrow> lock option" where
  "free_lock u w n (Some (h, t, x)) = (if h = Some w \<and> t = n then Some (None, t, u) else Some (h, t, x))"
| "free_lock u w n None = None"

lemma acquire_refines:
  assumes "control_ok db" and "acquire_args_ok now kind rid owner n"
  defines "g \<equiv> grant_lock (isoformat now) (the (after_seconds n now)) owner (locks db (kind, rid))"
  shows "fst (acquire_lease now kind rid owner n db) = Inr (map_option (\<lambda>t. \<lparr>lc_kind = kind, lc_id = rid,
        lc_owner = owner, lc_token = t, lc_expires = the (after_seconds n now)\<rparr>) (fst g))"
    and "locks (snd (acquire_lease now kind rid owner n db)) = (locks db)((kind, rid) \<mapsto> snd g)"
proof -
  note eq = acquire_accepted [OF control_okD(1) [OF assms(1)] assms(2)]
  show "fst (acquire_lease now kind rid owner n db) = Inr (map_option (\<lambda>t. \<lparr>lc_kind = kind, lc_id = rid,
        lc_owner = owner, lc_token = t, lc_expires = the (after_seconds n now)\<rparr>) (fst g))"
    by (auto simp: eq g_def locks_def split: option.split)
  show "locks (snd (acquire_lease now kind rid owner n db)) = (locks db)((kind, rid) \<mapsto> snd g)"
  proof (cases "row_of lease_key (kind, rid) (cd_leases db)")
    case None
    then show ?thesis
      by (auto simp: eq g_def locks_def fun_eq_iff row_of_append lease_key_def split: option.split)
  next
    case (Some r)
    with row_of_SomeD [OF Some] show ?thesis
      by (auto simp: eq g_def locks_def fun_eq_iff row_of_put_row)
  qed
qed

lemma renew_refines:
  assumes "0 < n" and "after_seconds n now = Some e"
  shows "locks (snd (renew_lease now c n db)) =
    (locks db)((lc_kind c, lc_id c) := extend_lock (isoformat now) e (lc_owner c) (lc_token c) (locks db (lc_kind c, lc_id c)))"
proof
  fix k
  have "row_of lease_key k (sql_update (\<lambda>r. claim_row c r \<and> isoformat now < lr_expires r)
      (\<lambda>r. r\<lparr>lr_expires := e, lr_updated := isoformat now\<rparr>) (cd_leases db)) =
    map_option (\<lambda>r. if claim_row c r \<and> isoformat now < lr_expires r then r\<lparr>lr_expires := e, lr_updated := isoformat now\<rparr> else r)
      (row_of lease_key k (cd_leases db))"
    by (subst row_of_sql_update) simp_all
  with assms show "locks (snd (renew_lease now c n db)) k =
    ((locks db)((lc_kind c, lc_id c) := extend_lock (isoformat now) e (lc_owner c) (lc_token c) (locks db (lc_kind c, lc_id c)))) k"
    by (cases "row_of lease_key k (cd_leases db)")
      (auto simp: renew_lease_def Let_def locks_def claim_row_def dest: row_of_SomeD)
qed

lemma release_refines:
  "locks (snd (release_lease now c db)) =
    (locks db)((lc_kind c, lc_id c) := free_lock (isoformat now) (lc_owner c) (lc_token c) (locks db (lc_kind c, lc_id c)))"
proof
  fix k
  have "row_of lease_key k (sql_update (claim_row c)
      (\<lambda>r. r\<lparr>lr_owner := None, lr_expires := isoformat now, lr_updated := isoformat now\<rparr>) (cd_leases db)) =
    map_option (\<lambda>r. if claim_row c r then r\<lparr>lr_owner := None, lr_expires := isoformat now, lr_updated := isoformat now\<rparr> else r)
      (row_of lease_key k (cd_leases db))"
    by (subst row_of_sql_update) simp_all
  then show "locks (snd (release_lease now c db)) k =
    ((locks db)((lc_kind c, lc_id c) := free_lock (isoformat now) (lc_owner c) (lc_token c) (locks db (lc_kind c, lc_id c)))) k"
    by (cases "row_of lease_key k (cd_leases db)")
      (auto simp: release_lease_def Let_def locks_def claim_row_def dest: row_of_SomeD)
qed



section \<open>The outbox\<close>

definition c_msg :: message where
  "c_msg = \<lparr>ms_id = ''m1'', ms_topic = ''jobs'', ms_aggregate = ''r1'', ms_payload = JObj [],
     ms_state = OB_pending, ms_available_at = ''2025-01-01T00:00:00+00:00'', ms_lease_owner = None, ms_lease_expires = None,
     ms_token = 0, ms_attempts = 0, ms_last_error = None,
     ms_created_at = ''2025-01-01T00:00:00+00:00'', ms_updated_at = ''2025-01-01T00:00:00+00:00''\<rparr>"

definition c_run1 :: message where
  "c_run1 = ms_claimed ''w1'' ''2025-01-01T00:01:05+00:00'' ''2025-01-01T00:00:05+00:00'' c_msg"

definition c_run2 :: message where
  "c_run2 = ms_claimed ''w2'' ''2025-01-01T00:03:00+00:00'' ''2025-01-01T00:02:00+00:00'' c_run1"

definition c_box :: "message \<Rightarrow> control_db" where
  "c_box m = empty_control\<lparr>cd_outbox := [m]\<rparr>"

lemmas c_msg_defs = c_msg_def c_run1_def c_run2_def ms_claimed_def upd_outbox_claim_def

lemma c_box_simps [simp]: "cd_outbox (c_box m) = [m]" "cd_leases (c_box m) = []" "cd_traces (c_box m) = []"
  by (simp_all add: c_box_def empty_control_def)

lemma c_box_update [simp]: "c_box m\<lparr>cd_outbox := [m']\<rparr> = c_box m'"
  by (simp add: c_box_def)

lemma c_box_ok: "control_ok (c_box c_msg)" "control_ok (c_box c_run1)" "control_ok (c_box c_run2)"
  by (simp_all add: control_ok_def table_ok_def keyed_def msg_inv_def c_msg_defs)

lemma c_claim_args: "claim_args_ok c_t1 ''w1'' 10 60 [''jobs'']" "claim_args_ok c_t2 ''w2'' 10 60 []"
  by (simp_all add: claim_args_ok_def c_after)

lemma take_sorted_rest:
  assumes "x \<in> set xs" and "x \<notin> set (take n (sort_key k xs))"
  shows "length (take n (sort_key k xs)) = n \<and> (\<forall>y \<in> set (take n (sort_key k xs)). k y \<le> k x)"
proof -
  let ?s = "sort_key k xs"
  have "x \<in> set (take n ?s @ drop n ?s)" using assms(1) by simp
  with assms(2) have x: "x \<in> set (drop n ?s)" by (simp only: set_append Un_iff simp_thms)
  then have "n < length ?s" by (metis drop_all length_pos_if_in_set less_numeral_extra(3) list.size(3) not_le)
  moreover have "sorted (map k (take n ?s @ drop n ?s))" by simp
  then have "\<forall>y \<in> set (take n ?s). k y \<le> k x"
    using x unfolding map_append sorted_append by auto
  ultimately show ?thesis by simp
qed

text \<open>The claim loop, a sequence of single-row updates each read back, is equivalent to one batch: it
  returns the selected rows in order, each with its token and attempt count advanced by one, and
  makes exactly those changes. The selection holds at most \<open>limit\<close> rows, all due and of the wanted
  topics, without repetition and in order of availability; a due row is left out only when the batch
  is full and every selected row comes no later.\<close>

theorem claim_loop_is_batch:
  assumes "control_ok db" and "claim_args_ok now owner limit n topics" and "after_seconds n now = Some e"
  defines "rs \<equiv> due_rows (isoformat now) topics limit (cd_outbox db)"
    and "f \<equiv> \<lambda>m. upd_outbox_claim owner e (isoformat now) (ms_token m + 1) m"
  shows "claim_outbox now owner limit n topics db =
      (Inr (map f rs), db\<lparr>cd_outbox := map (\<lambda>m. if ms_id m \<in> ms_id ` set rs then f m else m) (cd_outbox db)\<rparr>) \<and>
    int (length rs) \<le> limit \<and> distinct (map ms_id rs) \<and> sorted (map claim_order rs) \<and>
    (\<forall>r \<in> set rs. r \<in> set (cd_outbox db) \<and> due (isoformat now) r \<and> (topics = [] \<or> ms_topic r \<in> set topics)) \<and>
    (\<forall>r \<in> set (cd_outbox db). due (isoformat now) r \<and> (topics = [] \<or> ms_topic r \<in> set topics) \<and> r \<notin> set rs \<longrightarrow>
      int (length rs) = limit \<and> (\<forall>x \<in> set rs. claim_order x \<le> claim_order r))"
proof -
  have limit: "0 < limit" using assms(2) by (simp add: claim_args_ok_def)
  have f: "ms_claimed owner (the (after_seconds n now)) (isoformat now) = f"
    using assms(3) by (simp add: f_def ms_claimed_def fun_eq_iff)
  note sel = due_rows_properties [OF control_okD(2) [OF assms(1)], of "isoformat now" topics limit, folded rs_def]
  have rest: "int (length rs) = limit \<and> (\<forall>x \<in> set rs. claim_order x \<le> claim_order r)"
    if "r \<in> set (cd_outbox db)" "due (isoformat now) r" "topics = [] \<or> ms_topic r \<in> set topics" "r \<notin> set rs" for r
    using take_sorted_rest [of r "filter (\<lambda>m. due (isoformat now) m \<and> (topics = [] \<or> ms_topic m \<in> set topics)) (cd_outbox db)"
        "nat limit" claim_order] that limit unfolding rs_def due_rows_def by simp
  show ?thesis
    using claim_outbox_batch(1) [OF assms(1,2)] sel rest limit unfolding f
    by (auto simp: rs_def sql_update_def)
qed

theorem claim_loop_is_batch_witness:
  "claim_outbox c_t1 ''w1'' 10 60 [''jobs''] (c_box c_msg) = (Inr [c_run1], c_box c_run1)"
proof -
  have "due_rows ''2025-01-01T00:00:05+00:00'' [''jobs''] 10 [c_msg] = [c_msg]"
    by (simp add: due_rows_def due_def c_msg_def less_char_def)
  then show ?thesis
    using claim_loop_is_batch [OF c_box_ok(1) c_claim_args(1) c_after(3)]
    by (simp add: c_after c_run1_def ms_claimed_def)
qed

lemma unaccepted_delivery:
  assumes "control_ok db" and "\<not> delivery_accepted mid m db" and "ms_lease_owner m = Some w"
  shows "\<exists>e. finish now mid w (ms_token m) st at err db = (Inl e, db)"
    and "\<exists>e. renew_outbox now mid w (ms_token m) n db = (Inl e, db)"
proof -
  have none: "\<not> outbox_held mid w (ms_token m) r" if "r \<in> set (cd_outbox db)" for r
    using that assms by (auto simp: delivery_accepted_def row_of_Some_iff [OF control_okD(2)] outbox_held_def)
  then have zero: "rowcount p (cd_outbox db) = 0" "sql_update p f (cd_outbox db) = cd_outbox db"
    if "\<And>r. p r \<Longrightarrow> outbox_held mid w (ms_token m) r" for p f
    using that by (auto simp: rowcount_zero intro: sql_update_none)
  show "\<exists>e. finish now mid w (ms_token m) st at err db = (Inl e, db)"
    using zero [of "outbox_held mid w (ms_token m)"] by (auto simp: finish_def)
  show "\<exists>e. renew_outbox now mid w (ms_token m) n db = (Inl e, db)"
    using zero [of "\<lambda>r. outbox_held mid w (ms_token m) r \<and> (case ms_lease_expires r of None \<Rightarrow> False | Some e \<Rightarrow> isoformat now < e)"]
    unfolding renew_outbox_def renew_update_def Let_def by (simp del: first_failure.simps split: option.split)
qed

lemma unaccepted_retry:
  assumes "control_ok db" and "\<not> delivery_accepted mid m db" and "ms_lease_owner m = Some w"
  shows "\<exists>e. retry redact now mid w (ms_token m) error delay most db = (Inl e, db)"
proof -
  have fin: "\<exists>e. x = Inl e \<and> t = db" if "finish now mid w (ms_token m) st at err db = (x, t)" for st at err x t
    using unaccepted_delivery(1) [OF assms, of now st at err] that by auto
  show ?thesis
    unfolding retry_def by (auto dest!: fin simp del: first_failure.simps split: option.split sum.split prod.split)
qed

text \<open>C13. A message delivered anew is out of the hands of the worker that had it before: in every state
  the outbox can reach afterwards, the earlier delivery can neither acknowledge, retry nor renew it, and
  its attempts change nothing.\<close>

theorem superseded_delivery_is_refused:
  assumes "control_ok db" and "delivery_accepted mid old db" and "ms_lease_owner old = Some w"
    and "delivery_issued mid new db db'" and "(control_step iso_ok redact)\<^sup>*\<^sup>* db' later"
  shows "(\<exists>e. acknowledge now mid w (ms_token old) later = (Inl e, later)) \<and>
    (\<exists>e. retry redact now mid w (ms_token old) error delay most later = (Inl e, later)) \<and>
    (\<exists>e. renew_outbox now mid w (ms_token old) n later = (Inl e, later))"
proof -
  have "\<not> delivery_accepted mid old later"
    using assms(1,2,4,5) by (rule delivery.superseded)
  moreover have "control_ok later"
    using assms(5) control_ok_step [OF assms(1) delivery_issued_step [OF assms(1,4)]] by (rule delivery.run_inv)
  moreover note assms(3)
  ultimately show ?thesis
    unfolding acknowledge_def by (intro conjI unaccepted_delivery unaccepted_retry)
qed

lemma c_claim_again: "claim_outbox_message c_t2 ''m1'' ''w2'' 60 (c_box c_run1) = (Inr (Some c_run2), c_box c_run2)"
proof -
  have due: "due ''2025-01-01T00:02:00+00:00'' c_run1" by (simp add: due_def c_msg_defs less_char_def)
  have id: "ms_id c_run1 = ''m1''" "ms_id c_run2 = ''m1''" "is_object (ms_payload c_run2)" by (simp_all add: c_msg_defs)
  show ?thesis
    using due id by (simp add: claim_outbox_message_def c_after Let_def claim_where_def rowcount_def row_to_outbox_def)
      (simp add: c_run2_def ms_claimed_def)
qed

theorem superseded_delivery_is_refused_witness:
  "(\<exists>e. acknowledge c_t2 ''m1'' ''w1'' 1 (c_box c_run2) = (Inl e, c_box c_run2)) \<and>
   (\<exists>e. retry id c_t2 ''m1'' ''w1'' 1 ''late'' 5 3 (c_box c_run2) = (Inl e, c_box c_run2)) \<and>
   (\<exists>e. renew_outbox c_t2 ''m1'' ''w1'' 1 60 (c_box c_run2) = (Inl e, c_box c_run2))"
proof -
  have "ms_lease_owner c_run1 = Some ''w1''" "ms_token c_run1 = 1" "delivery_accepted ''m1'' c_run1 (c_box c_run1)"
    by (simp_all add: delivery_accepted_def outbox_held_def c_msg_defs)
  moreover have "delivery_issued ''m1'' c_run2 (c_box c_run1) (c_box c_run2)"
    unfolding delivery_issued_def using c_claim_again by (auto simp: c_msg_defs)
  ultimately show ?thesis
    using superseded_delivery_is_refused [OF c_box_ok(2), of "''m1''" c_run1 "''w1''" c_run2 "c_box c_run2" "\<lambda>_. True" id "c_box c_run2"]
    by simp
qed

lemma msg_run:
  "(control_step iso_ok redact)\<^sup>*\<^sup>* db later \<Longrightarrow> control_ok db \<Longrightarrow> msg_moves\<^sup>*\<^sup>* (cd_outbox db) (cd_outbox later)"
proof (induction rule: rtranclp_induct)
  case (step u v)
  have "control_ok u" using step.hyps(1) step.prems by (rule control_lease.run_inv)
  with step show ?case by (meson control_step_moves rtranclp_trans)
qed simp

text \<open>No message is lost or rewritten: along every run of the repository each message stays, with
  its topic, aggregate, payload and creation time; its attempts never decrease, and each delivery
  counts as one (\<open>attempts = fencing token\<close>); once succeeded or dead-lettered, its row never changes again.\<close>

theorem messages_are_durable:
  assumes "control_ok db" and "(control_step iso_ok redact)\<^sup>*\<^sup>* db later" and "row_of ms_id mid (cd_outbox db) = Some r"
  shows "\<exists>r'. row_of ms_id mid (cd_outbox later) = Some r' \<and> ms_topic r' = ms_topic r \<and> ms_aggregate r' = ms_aggregate r \<and>
    ms_payload r' = ms_payload r \<and> ms_created_at r' = ms_created_at r \<and>
    ms_attempts r \<le> ms_attempts r' \<and> ms_attempts r' = ms_token r' \<and>
    (ms_state r \<in> {OB_succeeded, OB_dead_letter} \<longrightarrow> r' = r)"
proof -
  let ?R = "\<lambda>x y. ms_topic y = ms_topic x \<and> ms_aggregate y = ms_aggregate x \<and> ms_payload y = ms_payload x \<and>
    ms_created_at y = ms_created_at x \<and> ms_token x \<le> ms_token y \<and> (ms_state x \<in> {OB_succeeded, OB_dead_letter} \<longrightarrow> y = x)"
  note run = msg_run [OF assms(2,1)] and ok = control_okD(4) [OF assms(1)]
  have "\<exists>r'. row_of ms_id mid (cd_outbox later) = Some r' \<and> ?R r r'"
    using run ok assms(3)
  proof (rule messages.run_rel [where R = ?R])
    show "?R r y" if "msg_inv x" "?R r x" "msg_step x y" for x y
      using msg_step_frozen [OF that(3)] msg_step_token [OF that(3)] settled_no_step [OF that(3)] that(2) by auto
  qed simp
  then obtain r' where r': "row_of ms_id mid (cd_outbox later) = Some r'" "?R r r'" by blast
  have inv: "msg_inv x" if "table_ok ms_id msg_inv t" "row_of ms_id mid t = Some x" for x t
    using that by (auto dest: row_of_SomeD table_okD(2))
  have "ms_attempts r' = ms_token r'" "ms_attempts r = ms_token r"
    using inv [OF messages.run_ok [OF run ok] r'(1)] inv [OF ok assms(3)] by (simp_all add: msg_inv_def)
  with r' show ?thesis by auto
qed

theorem messages_are_durable_witness:
  "\<exists>r'. row_of ms_id ''m1'' (cd_outbox (c_box c_run2)) = Some r' \<and> ms_topic r' = ms_topic c_run1 \<and> ms_aggregate r' = ms_aggregate c_run1 \<and>
    ms_payload r' = ms_payload c_run1 \<and> ms_created_at r' = ms_created_at c_run1 \<and>
    ms_attempts c_run1 \<le> ms_attempts r' \<and> ms_attempts r' = ms_token r' \<and>
    (ms_state c_run1 \<in> {OB_succeeded, OB_dead_letter} \<longrightarrow> r' = c_run1)"
proof (rule messages_are_durable [OF c_box_ok(2)])
  show "(control_step (\<lambda>_. True) id)\<^sup>*\<^sup>* (c_box c_run1) (c_box c_run2)"
    using c_claim_one [of "\<lambda>_. True" id "c_box c_run1" c_t2 "''m1''" "''w2''" 60] c_claim_again by auto
  show "row_of ms_id ''m1'' (cd_outbox (c_box c_run1)) = Some c_run1" by (simp add: c_msg_defs)
qed

lemma finish_held:
  assumes "control_ok db" and "row_of ms_id mid (cd_outbox db) = Some r" and "outbox_held mid w token r" and "0 < token"
  shows "finish now mid w token st at err db =
    (Inr (), db\<lparr>cd_outbox := put_row ms_id (upd_finish st at err (isoformat now) r) (cd_outbox db)\<rparr>)"
proof -
  have pin: "outbox_held mid w token x \<Longrightarrow> ms_id x = mid" for x by (simp add: outbox_held_def)
  from rowcount_pinned [OF control_okD(2) [OF assms(1)] pin] assms(2,3)
  have "rowcount (outbox_held mid w token) (cd_outbox db) = 1" by simp
  moreover have "sql_update (outbox_held mid w token) (upd_finish st at err (isoformat now)) (cd_outbox db) =
      put_row ms_id (upd_finish st at err (isoformat now) r) (cd_outbox db)"
    using control_okD(2) [OF assms(1)] pin
    by (rule sql_update_put) (use row_of_SomeD [OF assms(2)] assms(3) in \<open>simp_all add: upd_finish_def outbox_held_def\<close>)
  ultimately show ?thesis using assms(4) by (simp add: finish_def)
qed

text \<open>The verdict of \<open>retry\<close> on a delivery that is held: the message is dead-lettered exactly when its
  attempts have reached \<open>max_attempts\<close>, otherwise it is pending again and due after the delay; either
  way the lease is gone, the redacted error is kept, the attempts stand, and no other message changes.\<close>

theorem retry_verdict:
  fixes redact :: "string \<Rightarrow> string" and error :: string
  assumes "control_ok db" and "row_of ms_id mid (cd_outbox db) = Some r" and "outbox_held mid w token r" and "0 < token"
    and "0 \<le> delay" and "0 < most" and "after_seconds delay now = Some at"
  defines "r' \<equiv> r\<lparr>ms_state := if most \<le> ms_attempts r then OB_dead_letter else OB_pending, ms_available_at := at,
     ms_lease_owner := None, ms_lease_expires := None, ms_last_error := Some (redact (take 2000 error)),
     ms_updated_at := isoformat now\<rparr>"
  shows "retry redact now mid w token error delay most db = (Inr r', db\<lparr>cd_outbox := put_row ms_id r' (cd_outbox db)\<rparr>)"
proof -
  let ?st = "if most \<le> ms_attempts r then OB_dead_letter else OB_pending"
  have id: "ms_id r = mid" using row_of_SomeD [OF assms(2)] by simp
  have ob: "is_object (ms_payload r)" using due_payload [OF assms(1)] row_of_SomeD [OF assms(2)] by simp
  have r': "upd_finish ?st (Some at) (Some (redact (take 2000 error))) (isoformat now) r = r'"
    by (simp add: upd_finish_def r'_def)
  have "fetchone (\<lambda>m. ms_id m = mid) (cd_outbox db) = Some r" using assms(2) by (simp add: row_of_def)
  then have get: "get_outbox mid db = Inr r" using ob by (simp add: get_outbox_def row_to_outbox_def)
  have "row_of ms_id mid (put_row ms_id r' (cd_outbox db)) = Some r'"
    using assms(2) id by (simp add: row_of_put_row r'_def)
  then have "fetchone (\<lambda>m. ms_id m = mid) (put_row ms_id r' (cd_outbox db)) = Some r'" by (simp add: row_of_def)
  then have get': "get_outbox mid (db\<lparr>cd_outbox := put_row ms_id r' (cd_outbox db)\<rparr>) = Inr r'"
    using ob by (simp add: get_outbox_def row_to_outbox_def r'_def)
  show ?thesis
    using finish_held [OF assms(1-4), of now ?st "Some at" "Some (redact (take 2000 error))", unfolded r'] get get' assms(5-7)
    by (simp add: retry_def)
qed

theorem retry_verdict_witness:
  "fst (retry id c_t2 ''m1'' ''w1'' 1 ''boom'' 60 1 (c_box c_run1)) =
     Inr (c_run1\<lparr>ms_state := OB_dead_letter, ms_available_at := ''2025-01-01T00:03:00+00:00'', ms_lease_owner := None,
       ms_lease_expires := None, ms_last_error := Some ''boom'', ms_updated_at := ''2025-01-01T00:02:00+00:00''\<rparr>)"
proof -
  have "row_of ms_id ''m1'' (cd_outbox (c_box c_run1)) = Some c_run1" "outbox_held ''m1'' ''w1'' 1 c_run1" "ms_attempts c_run1 = 1"
    by (simp_all add: outbox_held_def c_msg_defs)
  then show ?thesis
    using retry_verdict [OF c_box_ok(2), of "''m1''" c_run1 "''w1''" 1 60 1 c_t2 "''2025-01-01T00:03:00+00:00''" id "''boom''"]
    by (simp add: c_after)
qed

text \<open>Enqueueing is idempotent on the message id: a repeated call with the same topic, aggregate and
  equal payload (as Python compares decoded objects) returns the stored message and says it was not inserted, one with any
  other content is refused, and in both cases the outbox is unchanged.\<close>

theorem enqueue_is_idempotent:
  assumes "control_ok db" and "row_of ms_id mid (cd_outbox db) = Some r"
    and "ref_ok mid" "name_ok topic" "ref_ok aggregate" "is_object payload"
  shows "enqueue iso_ok now mid topic aggregate payload None db =
    (if ms_topic r = topic \<and> ms_aggregate r = aggregate \<and> python_eq (ms_payload r) payload
     then Inr (r, False) else Inl (K_Conflict ''message_id''), db)"
proof -
  have r: "r \<in> set (cd_outbox db)" "ms_id r = mid" using row_of_SomeD [OF assms(2)] by auto
  have "is_object (ms_payload r)" using assms(1) r(1) by (rule due_payload)
  moreover have "fetchone (\<lambda>m. ms_id m = mid) (cd_outbox db) = Some r" using assms(2) by (simp add: row_of_def)
  moreover have "insert_ignore (\<lambda>x y. ms_id x = ms_id y) (new_message now mid topic aggregate payload d) (cd_outbox db) = cd_outbox db" for d
    using r by (auto simp: insert_ignore_def new_message_def)
  ultimately show ?thesis
    using assms(3-6) r by (auto simp: enqueue_def Let_def row_to_outbox_def)
qed

theorem enqueue_is_idempotent_witness:
  "enqueue (\<lambda>_. True) c_t1 ''m1'' ''jobs'' ''r1'' (JObj []) None (c_box c_msg) = (Inr (c_msg, False), c_box c_msg)"
proof -
  have "row_of ms_id ''m1'' (cd_outbox (c_box c_msg)) = Some c_msg" by (simp add: c_msg_def)
  from enqueue_is_idempotent [OF c_box_ok(1) this, of "''jobs''" "''r1''" "JObj []" "\<lambda>_. True" c_t1]
  show ?thesis by (simp add: c_msg_def)
qed

text \<open>A delivery whose worker died is not stuck: once the lease of a running message has expired, any
  worker that asks for it gets it, under a fresh token, as one more attempt.\<close>

theorem expired_delivery_is_reclaimed:
  assumes "control_ok db" and "row_of ms_id mid (cd_outbox db) = Some r" and "ms_state r = OB_running"
    and "ms_lease_expires r = Some (isoformat e)" and "valid_datetime e" "valid_datetime now" "e \<le> now"
    and "ref_ok mid" "ref_ok w" "0 < n" "after_seconds n now = Some x"
  shows "\<exists>m db'. claim_outbox_message now mid w n db = (Inr (Some m), db') \<and> row_of ms_id mid (cd_outbox db') = Some m \<and>
    ms_lease_owner m = Some w \<and> ms_lease_expires m = Some x \<and> ms_token m = ms_token r + 1 \<and> ms_attempts m = ms_attempts r + 1"
proof -
  have r: "r \<in> set (cd_outbox db)" "ms_id r = mid" using row_of_SomeD [OF assms(2)] by auto
  have "\<not> isoformat now < isoformat e" using assms(5-7) by (simp add: isoformat_less not_less)
  then have due: "due (isoformat now) r" using assms(3,4) by (simp add: due_def not_less)
  have "fetchone (\<lambda>m. ms_id m = mid \<and> due (isoformat now) m) (cd_outbox db) = Some r"
    using fetchone_pinned [OF control_okD(2) [OF assms(1)], of "\<lambda>m. ms_id m = mid \<and> due (isoformat now) m" mid] assms(2) due r(2)
    by simp
  moreover note round = claim_round [OF control_okD(2) [OF assms(1)] r(1) due, unfolded r(2)]
  moreover have "is_object (ms_payload r)" using assms(1) r(1) by (rule due_payload)
  ultimately have "claim_outbox_message now mid w n db = (Inr (Some (ms_claimed w x (isoformat now) r)),
      db\<lparr>cd_outbox := put_row ms_id (ms_claimed w x (isoformat now) r) (cd_outbox db)\<rparr>)"
    using assms(8-11) by (simp add: claim_outbox_message_def Let_def row_to_outbox_def)
  then show ?thesis using assms(2) r(2)
    by (auto simp: row_of_put_row) (simp_all add: ms_claimed_def upd_outbox_claim_def)
qed

theorem expired_delivery_is_reclaimed_witness:
  "\<exists>m db'. claim_outbox_message c_t2 ''m1'' ''w2'' 60 (c_box c_run1) = (Inr (Some m), db') \<and> row_of ms_id ''m1'' (cd_outbox db') = Some m \<and>
    ms_lease_owner m = Some ''w2'' \<and> ms_lease_expires m = Some ''2025-01-01T00:03:00+00:00'' \<and>
    ms_token m = ms_token c_run1 + 1 \<and> ms_attempts m = ms_attempts c_run1 + 1"
proof (rule expired_delivery_is_reclaimed [OF c_box_ok(2), where e = "DateTime 2025 1 1 0 1 5 0"])
  show "ms_lease_expires c_run1 = Some (isoformat (DateTime 2025 1 1 0 1 5 0))"
    by (simp add: c_msg_defs isoformat_def fraction_def digits_numeral digit_chars)
  show "DateTime 2025 1 1 0 1 5 0 \<le> c_t2" by (simp add: c_t2_def less_eq_datetime_def)
qed (simp_all add: c_msg_defs c_after, simp_all add: c_t2_def days_in_month_def)

end
