(* ===== verification/WatchModel.thy ===== *)
theory WatchModel
  imports Complex_Main Clock Json RecordFields
begin

text \<open>
  The immutable records of \<open>runtime_watch/model.py\<close>: log cursors, leases, segment drafts, segments
  and alerts, with the checks of their constructors. Byte strings are lists of 8-bit characters,
  the file modification time (a finite non-negative float) is a rational, times are held as the
  \<open>datetime\<close> their text denotes. \<open>sha\<close> is \<open>hashlib.sha256(\<dots>).hexdigest()\<close>.
\<close>

datatype watch_state =
  W_WATCHING | W_WAITING_FOR_LOG | W_ACTIVE | W_QUIET_BACKOFF | W_DEGRADED | W_FINALIZING | W_STOPPED

datatype stream = STDOUT | STDERR

fun stream_value :: "stream \<Rightarrow> string" where
  "stream_value STDOUT = ''stdout''"
| "stream_value STDERR = ''stderr''"

datatype severity = SEV_info | SEV_warning | SEV_critical

datatype watch_conflict =
  WC_other_connection | WC_renewal | WC_release | WC_lease | WC_cursor_missing | WC_replay
| WC_replay_cursor | WC_position | WC_binding | WC_non_contiguous | WC_next_cursor
| WC_advance_binding | WC_skip | WC_cursor_fenced | WC_alert_replay

datatype watch_error =
  W_Invalid string | W_Type string | W_Key string | W_Conflict watch_conflict | W_Runtime string
| W_Overflow | W_Integrity

section \<open>Cursors\<close>

definition b64_char :: "char \<Rightarrow> bool" where
  "b64_char c \<longleftrightarrow>
     (let n = of_char c :: nat in
      (65 \<le> n \<and> n \<le> 90) \<or> (97 \<le> n \<and> n \<le> 122) \<or> (48 \<le> n \<and> n \<le> 57) \<or> n = 43 \<or> n = 47)"

definition b64_size :: "string \<Rightarrow> nat option" where
  \<comment> \<open>the size of \<open>base64.b64decode(s, validate=True)\<close>; \<open>None\<close> where it raises\<close>
  "b64_size s =
     (let body = takeWhile b64_char s; rest = dropWhile b64_char s in
      if list_all (\<lambda>c. c = CHR ''='') rest \<and> length rest \<le> 2 \<and> length s mod 4 = 0
      then Some (length body * 3 div 4) else None)"

record cursor =
  cu_run_id :: string
  cu_owner :: string
  cu_stream :: stream
  cu_generation :: int
  cu_offset :: int
  cu_source_size :: int
  cu_source_mtime :: "rat option"
  cu_file_identity :: "string option"
  cu_prefix_fingerprint :: "string option"
  cu_remainder_base64 :: string
  cu_last_data_at :: "datetime option"
  cu_last_checked_at :: "datetime option"
  cu_quiet_polls :: int
  cu_version :: int

definition cursor_checks :: "cursor \<Rightarrow> (bool \<times> watch_error) list" where
  "cursor_checks c =
     [(identifier_ok (cu_run_id c), W_Invalid ''run_id''),
      (identifier_ok (cu_owner c), W_Invalid ''owner''),
      (0 \<le> cu_generation c, W_Invalid ''generation''),
      (0 \<le> cu_offset c, W_Invalid ''offset''),
      (0 \<le> cu_source_size c, W_Invalid ''source_size''),
      (0 \<le> cu_quiet_polls c, W_Invalid ''quiet_polls''),
      (0 \<le> cu_version c, W_Invalid ''version''),
      (cu_quiet_polls c \<le> 1048576, W_Invalid ''quiet_polls limit''),
      (opt_ok (\<lambda>x. 0 \<le> x) (cu_source_mtime c), W_Invalid ''source_mtime''),
      (cu_offset c \<le> cu_source_size c, W_Invalid ''source_size behind offset''),
      (opt_ok (bounded_text 256) (cu_file_identity c), W_Invalid ''source_file_identity''),
      (opt_ok digest_ok (cu_prefix_fingerprint c), W_Invalid ''source_prefix_fingerprint''),
      (b64_size (cu_remainder_base64 c) \<noteq> None, W_Invalid ''decoder_remainder_base64''),
      (length (cu_remainder_base64 c) \<le> 32 \<and> the (b64_size (cu_remainder_base64 c)) \<le> 8,
         W_Invalid ''decoder remainder limit'')]"

definition cursor_post_init :: "cursor \<Rightarrow> (watch_error, cursor) result" where
  "cursor_post_init c = checked (cursor_checks c) (Inr c)"

definition initial_cursor :: "string \<Rightarrow> string \<Rightarrow> stream \<Rightarrow> cursor" where
  "initial_cursor run_id owner strm =
     \<lparr>cu_run_id = run_id, cu_owner = owner, cu_stream = strm, cu_generation = 0, cu_offset = 0,
      cu_source_size = 0, cu_source_mtime = None, cu_file_identity = None, cu_prefix_fingerprint = None,
      cu_remainder_base64 = [], cu_last_data_at = None, cu_last_checked_at = None,
      cu_quiet_polls = 0, cu_version = 0\<rparr>"

section \<open>Watches and leases\<close>

record watch =
  wa_watch_id :: string
  wa_run_id :: string
  wa_owner :: string
  wa_connection_id :: string
  wa_state :: watch_state
  wa_version :: int
  wa_next_poll_at :: "datetime option"
  wa_lease_owner :: "string option"
  wa_lease_expires_at :: "datetime option"
  wa_fencing_token :: int
  wa_created_at :: datetime
  wa_updated_at :: datetime
  wa_stopped_at :: "datetime option"
  wa_last_error_code :: "string option"
  wa_last_error_at :: "datetime option"

definition watch_checks :: "watch \<Rightarrow> cursor list \<Rightarrow> (bool \<times> watch_error) list" where
  "watch_checks w cursors =
     [(identifier_ok (wa_watch_id w), W_Invalid ''watch_id''),
      (identifier_ok (wa_run_id w), W_Invalid ''run_id''),
      (identifier_ok (wa_owner w), W_Invalid ''owner''),
      (identifier_ok (wa_connection_id w), W_Invalid ''connection_id''),
      (0 \<le> wa_version w, W_Invalid ''version''),
      (0 \<le> wa_fencing_token w, W_Invalid ''fencing_token''),
      ((wa_lease_owner w = None) = (wa_lease_expires_at w = None), W_Invalid ''lease fields''),
      (opt_ok identifier_ok (wa_lease_owner w), W_Invalid ''lease_owner''),
      (opt_ok identifier_ok (wa_last_error_code w), W_Invalid ''last_error_code''),
      (map cu_stream cursors = [STDOUT, STDERR], W_Invalid ''cursors''),
      (list_all (\<lambda>c. cu_run_id c = wa_run_id w \<and> cu_owner c = wa_owner w) cursors, W_Invalid ''cursor binding'')]"

definition watch_post_init :: "watch \<Rightarrow> cursor list \<Rightarrow> (watch_error, watch \<times> cursor list) result" where
  "watch_post_init w cursors = checked (watch_checks w cursors) (Inr (w, cursors))"

record watch_lease =
  wl_watch_id :: string
  wl_run_id :: string
  wl_owner :: string
  wl_worker_id :: string
  wl_version :: int
  wl_fencing_token :: int
  wl_expires_at :: datetime

definition watch_lease_post_init :: "watch_lease \<Rightarrow> (watch_error, watch_lease) result" where
  "watch_lease_post_init l = checked
     [(identifier_ok (wl_watch_id l), W_Invalid ''watch_id''),
      (identifier_ok (wl_run_id l), W_Invalid ''run_id''),
      (identifier_ok (wl_owner l), W_Invalid ''owner''),
      (identifier_ok (wl_worker_id l), W_Invalid ''worker_id''),
      (0 \<le> wl_version l, W_Invalid ''version''),
      (1 \<le> wl_fencing_token l, W_Invalid ''fencing_token'')]
     (Inr l)"

section \<open>Segments\<close>

record draft =
  dr_run_id :: string
  dr_owner :: string
  dr_stream :: stream
  dr_generation :: int
  dr_start_offset :: int
  dr_content :: string

definition draft_post_init :: "draft \<Rightarrow> (watch_error, draft) result" where
  "draft_post_init d = checked
     [(identifier_ok (dr_run_id d), W_Invalid ''run_id''),
      (identifier_ok (dr_owner d), W_Invalid ''owner''),
      (0 \<le> dr_generation d, W_Invalid ''generation''),
      (0 \<le> dr_start_offset d, W_Invalid ''start_offset''),
      (dr_content d \<noteq> [], W_Invalid ''content''),
      (length (dr_content d) \<le> 1048576, W_Invalid ''content size'')]
     (Inr d)"

definition draft_end_offset :: "draft \<Rightarrow> int" where
  "draft_end_offset d = dr_start_offset d + int (length (dr_content d))"

definition draft_segment_id :: "(string \<Rightarrow> string) \<Rightarrow> draft \<Rightarrow> string" where
  "draft_segment_id sha d = ''segment-'' @ sha (join [CHR 0x00]
     [dr_run_id d, stream_value (dr_stream d), int_text (dr_generation d), int_text (dr_start_offset d),
      sha (dr_content d)])"

record segment =
  sg_segment_id :: string
  sg_watch_id :: string
  sg_run_id :: string
  sg_owner :: string
  sg_stream :: stream
  sg_generation :: int
  sg_start_offset :: int
  sg_end_offset :: int
  sg_content_sha256 :: string
  sg_content_size :: int
  sg_content_ref :: string
  sg_created_at :: datetime

definition segment_checks :: "segment \<Rightarrow> (bool \<times> watch_error) list" where
  "segment_checks s =
     [(identifier_ok (sg_segment_id s), W_Invalid ''segment_id''),
      (identifier_ok (sg_watch_id s), W_Invalid ''watch_id''),
      (identifier_ok (sg_run_id s), W_Invalid ''run_id''),
      (identifier_ok (sg_owner s), W_Invalid ''owner''),
      (0 \<le> sg_generation s, W_Invalid ''generation''),
      (0 \<le> sg_start_offset s, W_Invalid ''start_offset''),
      (0 \<le> sg_end_offset s, W_Invalid ''end_offset''),
      (0 \<le> sg_content_size s, W_Invalid ''content_size''),
      (sg_start_offset s < sg_end_offset s, W_Invalid ''offsets''),
      (sg_content_size s = sg_end_offset s - sg_start_offset s, W_Invalid ''size''),
      (digest_ok (sg_content_sha256 s), W_Invalid ''content_sha256''),
      (sg_content_ref s = ''sha256:'' @ sg_content_sha256 s, W_Invalid ''content_ref'')]"

definition segment_post_init :: "segment \<Rightarrow> (watch_error, segment) result" where
  "segment_post_init s = checked (segment_checks s) (Inr s)"

section \<open>Alerts\<close>

record alert =
  al_alert_id :: string
  al_watch_id :: string
  al_run_id :: string
  al_owner :: string
  al_code :: string
  al_severity :: severity
  al_summary :: string
  al_segment_id :: "string option"
  al_generation :: int
  al_offset :: int
  al_created_at :: datetime

definition alert_post_init :: "alert \<Rightarrow> (watch_error, alert) result" where
  "alert_post_init a = checked
     [(identifier_ok (al_alert_id a), W_Invalid ''alert_id''),
      (identifier_ok (al_watch_id a), W_Invalid ''watch_id''),
      (identifier_ok (al_run_id a), W_Invalid ''run_id''),
      (identifier_ok (al_owner a), W_Invalid ''owner''),
      (identifier_ok (al_code a), W_Invalid ''code''),
      (bounded_text 4096 (al_summary a), W_Invalid ''summary''),
      (opt_ok identifier_ok (al_segment_id a), W_Invalid ''segment_id''),
      (0 \<le> al_generation a, W_Invalid ''generation''),
      (0 \<le> al_offset a, W_Invalid ''offset'')]
     (Inr a)"

definition create_alert ::
    "(string \<Rightarrow> string) \<Rightarrow> string \<Rightarrow> string \<Rightarrow> string \<Rightarrow> string \<Rightarrow> severity \<Rightarrow> string \<Rightarrow> string option
      \<Rightarrow> int \<Rightarrow> int \<Rightarrow> datetime \<Rightarrow> (watch_error, alert) result" where
  "create_alert sha watch_id run_id owner code sev summary segment_id generation offset created_at =
     alert_post_init
       \<lparr>al_alert_id = ''alert-'' @ sha (join [CHR 0x00]
          [watch_id, code, int_text generation, int_text offset,
           (case segment_id of None \<Rightarrow> [] | Some s \<Rightarrow> s)]),
        al_watch_id = watch_id, al_run_id = run_id, al_owner = owner, al_code = code,
        al_severity = sev, al_summary = summary, al_segment_id = segment_id,
        al_generation = generation, al_offset = offset, al_created_at = created_at\<rparr>"

end
