(* ===== verification/WatchStore.thy ===== *)
theory WatchStore
  imports WatchModel
begin

text \<open>
  \<open>runtime_watch/store.py\<close>: the SQLite store of runtime watches. The state holds the four tables and
  the content-addressed directory of segment contents, a map from digests to file contents. A
  transaction that raises leaves the tables as they were; a content file written before a
  transaction that then fails stays, as in the code.
\<close>

section \<open>State\<close>

record watch_row =
  wr_watch :: watch
  wr_handoff_at :: "datetime option"

record cursor_row =
  cr_watch_id :: string
  cr_cursor :: cursor

record watch_db =
  db_watches :: "watch_row list"
  db_cursors :: "cursor_row list"
  db_segments :: "segment list"
  db_alerts :: "alert list"
  db_contents :: "string \<Rightarrow> string option"

abbreviation wr_id :: "watch_row \<Rightarrow> string" where
  "wr_id r \<equiv> wa_watch_id (wr_watch r)"

definition empty_watch_db :: watch_db where
  "empty_watch_db = \<lparr>db_watches = [], db_cursors = [], db_segments = [], db_alerts = [], db_contents = (\<lambda>_. None)\<rparr>"

definition watch_limit_ok :: "int \<Rightarrow> bool" where
  "watch_limit_ok n \<longleftrightarrow> 1 \<le> n \<and> n \<le> 1000"

definition watch_lease_seconds_ok :: "int \<Rightarrow> bool" where
  "watch_lease_seconds_ok n \<longleftrightarrow> 1 \<le> n \<and> n \<le> 300"

definition owned_watch :: "string \<Rightarrow> string \<Rightarrow> watch_row \<Rightarrow> bool" where
  "owned_watch watch_id owner r \<longleftrightarrow> wr_id r = watch_id \<and> wa_owner (wr_watch r) = owner"

definition run_watch :: "string \<Rightarrow> string \<Rightarrow> watch_row \<Rightarrow> bool" where
  "run_watch run_id owner r \<longleftrightarrow> wa_run_id (wr_watch r) = run_id \<and> wa_owner (wr_watch r) = owner"

section \<open>Reading watches and cursors\<close>

fun traverse :: "('a \<Rightarrow> ('e, 'b) result) \<Rightarrow> 'a list \<Rightarrow> ('e, 'b list) result" where
  "traverse f [] = Inr []"
| "traverse f (x # xs) = bind_res (f x) (\<lambda>y. bind_res (traverse f xs) (\<lambda>ys. Inr (y # ys)))"

definition watch_from_rows :: "watch_row \<Rightarrow> cursor_row list \<Rightarrow> (watch_error, watch \<times> cursor list) result" where
  "watch_from_rows row rows =
     bind_res (traverse (cursor_post_init \<circ> cr_cursor) rows) (\<lambda>cs. watch_post_init (wr_watch row) cs)"

fun stream_rank :: "stream \<Rightarrow> nat" where
  "stream_rank STDOUT = 0"
| "stream_rank STDERR = 1"

definition get_watch :: "string \<Rightarrow> string \<Rightarrow> watch_db \<Rightarrow> (watch_error, watch \<times> cursor list) result" where
  "get_watch watch_id owner db =
     (case fetchone (owned_watch watch_id owner) (db_watches db) of
        None \<Rightarrow> Inl (W_Key watch_id)
      | Some row \<Rightarrow> watch_from_rows row
          (sort_key (\<lambda>r. stream_rank (cu_stream (cr_cursor r)))
            (filter (\<lambda>r. cr_watch_id r = watch_id \<and> cu_owner (cr_cursor r) = owner) (db_cursors db))))"

definition get_watch_for_run :: "string \<Rightarrow> string \<Rightarrow> watch_db \<Rightarrow> (watch_error, watch \<times> cursor list) result" where
  "get_watch_for_run run_id owner db =
     (case fetchone (run_watch run_id owner) (db_watches db) of
        None \<Rightarrow> Inl (W_Key run_id)
      | Some row \<Rightarrow> get_watch (wr_id row) owner db)"

definition get_cursor :: "string \<Rightarrow> string \<Rightarrow> stream \<Rightarrow> watch_db \<Rightarrow> (watch_error, cursor) result" where
  "get_cursor run_id owner strm db =
     (case fetchone (\<lambda>r. cu_run_id (cr_cursor r) = run_id \<and> cu_owner (cr_cursor r) = owner \<and>
                         cu_stream (cr_cursor r) = strm) (db_cursors db) of
        None \<Rightarrow> Inl (W_Key run_id)
      | Some row \<Rightarrow> cursor_post_init (cr_cursor row))"

definition get_watches :: "watch_row list \<Rightarrow> watch_db \<Rightarrow> (watch_error, (watch \<times> cursor list) list) result" where
  "get_watches rows db = traverse (\<lambda>r. get_watch (wr_id r) (wa_owner (wr_watch r)) db) rows"

definition watch_unleased :: "datetime \<Rightarrow> watch_row \<Rightarrow> bool" where
  "watch_unleased now r \<longleftrightarrow> wa_lease_owner (wr_watch r) = None \<or>
     (case wa_lease_expires_at (wr_watch r) of None \<Rightarrow> False | Some e \<Rightarrow> sql_upto e now)"

definition list_due_watches ::
    "datetime \<Rightarrow> int \<Rightarrow> watch_db \<Rightarrow> (watch_error, (watch \<times> cursor list) list) result" where
  "list_due_watches now limit db = checked [(watch_limit_ok limit, W_Invalid ''limit'')]
     (get_watches (take (nat limit)
        (sort_key (\<lambda>r. (timestamp (case wa_next_poll_at (wr_watch r) of Some t \<Rightarrow> t | None \<Rightarrow> wa_created_at (wr_watch r)), wr_id r))
          (filter (\<lambda>r. wa_state (wr_watch r) \<noteq> W_STOPPED \<and>
              (case wa_next_poll_at (wr_watch r) of None \<Rightarrow> True | Some t \<Rightarrow> sql_upto t now) \<and>
              watch_unleased now r) (db_watches db)))) db)"

definition list_stopped_watches ::
    "int \<Rightarrow> watch_db \<Rightarrow> (watch_error, (watch \<times> cursor list) list) result" where
  "list_stopped_watches limit db = checked [(watch_limit_ok limit, W_Invalid ''limit'')]
     (get_watches (take (nat limit)
        (sort_key (\<lambda>r. (map_option timestamp (wa_stopped_at (wr_watch r)), wr_id r))
          (filter (\<lambda>r. wa_state (wr_watch r) = W_STOPPED \<and> wr_handoff_at r = None) (db_watches db)))) db)"

section \<open>Creating\<close>

definition watch_id_of :: "(string \<Rightarrow> string) \<Rightarrow> string \<Rightarrow> string \<Rightarrow> string" where
  "watch_id_of sha run_id owner = ''watch-'' @ take 24 (sha (owner @ [CHR 0x00] @ run_id))"

definition new_watch_row :: "datetime \<Rightarrow> string \<Rightarrow> string \<Rightarrow> string \<Rightarrow> string \<Rightarrow> watch_row" where
  "new_watch_row now watch_id run_id owner connection_id =
     \<lparr>wr_watch = \<lparr>wa_watch_id = watch_id, wa_run_id = run_id, wa_owner = owner,
        wa_connection_id = connection_id, wa_state = W_WATCHING, wa_version = 0,
        wa_next_poll_at = Some now, wa_lease_owner = None, wa_lease_expires_at = None,
        wa_fencing_token = 0, wa_created_at = now, wa_updated_at = now, wa_stopped_at = None,
        wa_last_error_code = None, wa_last_error_at = None\<rparr>,
      wr_handoff_at = None\<rparr>"

definition cursor_clash :: "cursor_row \<Rightarrow> cursor_row \<Rightarrow> bool" where
  \<comment> \<open>\<open>UNIQUE (owner, run_id, stream)\<close> without the primary key\<close>
  "cursor_clash x r \<longleftrightarrow> cr_watch_id x \<noteq> cr_watch_id r \<and> cu_owner (cr_cursor x) = cu_owner (cr_cursor r) \<and>
     cu_run_id (cr_cursor x) = cu_run_id (cr_cursor r) \<and> cu_stream (cr_cursor x) = cu_stream (cr_cursor r)"

definition same_cursor_key :: "cursor_row \<Rightarrow> cursor_row \<Rightarrow> bool" where
  "same_cursor_key x r \<longleftrightarrow> cr_watch_id x = cr_watch_id r \<and> cu_stream (cr_cursor x) = cu_stream (cr_cursor r)"

definition create_watch ::
    "(string \<Rightarrow> string) \<Rightarrow> datetime \<Rightarrow> string \<Rightarrow> string \<Rightarrow> string \<Rightarrow> watch_db
      \<Rightarrow> (watch_error, watch \<times> cursor list) result \<times> watch_db" where
  "create_watch sha now run_id owner connection_id db =
     (let watch_id = watch_id_of sha run_id owner;
          out = \<lparr>cr_watch_id = watch_id, cr_cursor = initial_cursor run_id owner STDOUT\<rparr>;
          err = \<lparr>cr_watch_id = watch_id, cr_cursor = initial_cursor run_id owner STDERR\<rparr>;
          replay = fetchone (run_watch run_id owner) (db_watches db);
          rows = (case replay of None \<Rightarrow> db_watches db @ [new_watch_row now watch_id run_id owner connection_id]
                  | Some _ \<Rightarrow> db_watches db)
      in case first_failure
        [(identifier_ok run_id, W_Invalid ''run_id''), (identifier_ok owner, W_Invalid ''owner''),
         (replay \<noteq> None \<or> \<not> (\<exists>r \<in> set (db_watches db). wr_id r = watch_id), W_Integrity),
         (opt_ok (\<lambda>r. wa_connection_id (wr_watch r) = connection_id) replay, W_Conflict WC_other_connection),
         (\<not> (\<exists>x \<in> set (db_cursors db). cursor_clash x out \<or> cursor_clash x err), W_Integrity),
         (\<exists>r \<in> set rows. wr_id r = watch_id, W_Integrity)] of
        Some e \<Rightarrow> (Inl e, db)
      | None \<Rightarrow>
          let db' = db\<lparr>db_watches := rows,
                       db_cursors := insert_ignore same_cursor_key err (insert_ignore same_cursor_key out (db_cursors db))\<rparr>
          in (get_watch watch_id owner db', db'))"

section \<open>Leases\<close>

definition watch_claimable :: "datetime \<Rightarrow> string \<Rightarrow> string \<Rightarrow> watch_row \<Rightarrow> bool" where
  "watch_claimable now watch_id owner r \<longleftrightarrow>
     owned_watch watch_id owner r \<and> wa_state (wr_watch r) \<noteq> W_STOPPED \<and> watch_unleased now r"

definition upd_watch_claim :: "string \<Rightarrow> datetime \<Rightarrow> datetime \<Rightarrow> watch_row \<Rightarrow> watch_row" where
  "upd_watch_claim worker_id expires now r = r\<lparr>wr_watch := (wr_watch r)\<lparr>
     wa_lease_owner := Some worker_id, wa_lease_expires_at := Some expires,
     wa_fencing_token := wa_fencing_token (wr_watch r) + 1,
     wa_version := wa_version (wr_watch r) + 1, wa_updated_at := now\<rparr>\<rparr>"

definition claim_watch ::
    "datetime \<Rightarrow> string \<Rightarrow> string \<Rightarrow> string \<Rightarrow> int \<Rightarrow> watch_db
      \<Rightarrow> (watch_error, watch_lease option) result \<times> watch_db" where
  "claim_watch now watch_id owner worker_id lease_seconds db =
     (case first_failure
        [(watch_lease_seconds_ok lease_seconds, W_Invalid ''lease_seconds''),
         (identifier_ok worker_id, W_Invalid ''worker_id''),
         (add_seconds (nat lease_seconds) now \<noteq> None, W_Overflow)] of
        Some e \<Rightarrow> (Inl e, db)
      | None \<Rightarrow>
          let expires = the (add_seconds (nat lease_seconds) now) in
          (case fetchone (watch_claimable now watch_id owner) (db_watches db) of
             None \<Rightarrow>
               (if fetchone (owned_watch watch_id owner) (db_watches db) = None
                then Inl (W_Key watch_id) else Inr None, db)
           | Some row \<Rightarrow>
               let w = wr_watch (upd_watch_claim worker_id expires now row) in
               (bind_res (watch_lease_post_init
                   \<lparr>wl_watch_id = wa_watch_id w, wl_run_id = wa_run_id w, wl_owner = wa_owner w,
                    wl_worker_id = worker_id, wl_version = wa_version w,
                    wl_fencing_token = wa_fencing_token w, wl_expires_at = expires\<rparr>)
                  (\<lambda>l. Inr (Some l)),
                db\<lparr>db_watches := sql_update (watch_claimable now watch_id owner)
                      (upd_watch_claim worker_id expires now) (db_watches db)\<rparr>)))"

definition watch_lease_row :: "datetime \<Rightarrow> watch_lease \<Rightarrow> watch_row \<Rightarrow> bool" where
  \<comment> \<open>the condition of \<open>_assert_lease\<close>, \<open>renew_watch\<close> and \<open>release_watch\<close>\<close>
  "watch_lease_row now l r \<longleftrightarrow>
     wr_id r = wl_watch_id l \<and> wa_run_id (wr_watch r) = wl_run_id l \<and> wa_owner (wr_watch r) = wl_owner l \<and>
     wa_lease_owner (wr_watch r) = Some (wl_worker_id l) \<and>
     (case wa_lease_expires_at (wr_watch r) of None \<Rightarrow> False | Some e \<Rightarrow> sql_after e now) \<and>
     wa_fencing_token (wr_watch r) = wl_fencing_token l \<and> wa_version (wr_watch r) = wl_version l"

definition upd_watch_renew :: "datetime \<Rightarrow> datetime \<Rightarrow> watch_row \<Rightarrow> watch_row" where
  "upd_watch_renew expires now r = r\<lparr>wr_watch := (wr_watch r)\<lparr>
     wa_lease_expires_at := Some expires, wa_updated_at := now\<rparr>\<rparr>"

definition renew_watch ::
    "datetime \<Rightarrow> watch_lease \<Rightarrow> int \<Rightarrow> watch_db \<Rightarrow> (watch_error, watch_lease) result \<times> watch_db" where
  "renew_watch now l lease_seconds db =
     (case first_failure
        [(watch_lease_seconds_ok lease_seconds, W_Invalid ''lease_seconds''),
         (add_seconds (nat lease_seconds) now \<noteq> None, W_Overflow)] of
        Some e \<Rightarrow> (Inl e, db)
      | None \<Rightarrow>
          let expires = the (add_seconds (nat lease_seconds) now) in
          if rowcount (watch_lease_row now l) (db_watches db) \<noteq> 1 then (Inl (W_Conflict WC_renewal), db)
          else (watch_lease_post_init (l\<lparr>wl_expires_at := expires\<rparr>),
                db\<lparr>db_watches := sql_update (watch_lease_row now l) (upd_watch_renew expires now) (db_watches db)\<rparr>))"

definition upd_watch_release ::
    "datetime \<Rightarrow> watch_state \<Rightarrow> datetime option \<Rightarrow> string option \<Rightarrow> watch_row \<Rightarrow> watch_row" where
  "upd_watch_release now st next_poll_at error_code r = r\<lparr>wr_watch := (wr_watch r)\<lparr>
     wa_state := st, wa_version := wa_version (wr_watch r) + 1, wa_next_poll_at := next_poll_at,
     wa_lease_owner := None, wa_lease_expires_at := None, wa_updated_at := now,
     wa_stopped_at := (if st = W_STOPPED then Some now else None),
     wa_last_error_code := error_code,
     wa_last_error_at := (if error_code = None then None else Some now)\<rparr>\<rparr>"

definition release_watch ::
    "datetime \<Rightarrow> watch_lease \<Rightarrow> watch_state \<Rightarrow> datetime option \<Rightarrow> string option \<Rightarrow> watch_db
      \<Rightarrow> (watch_error, watch \<times> cursor list) result \<times> watch_db" where
  "release_watch now l st next_poll_at error_code db =
     (case first_failure
        [(opt_ok identifier_ok error_code, W_Invalid ''last_error_code''),
         (rowcount (watch_lease_row now l) (db_watches db) = 1, W_Conflict WC_release)] of
        Some e \<Rightarrow> (Inl e, db)
      | None \<Rightarrow>
          let db' = db\<lparr>db_watches := sql_update (watch_lease_row now l)
                         (upd_watch_release now st next_poll_at error_code) (db_watches db)\<rparr>
          in (get_watch (wl_watch_id l) (wl_owner l) db', db'))"

section \<open>Terminal drain and handoff\<close>

definition drainable :: "string \<Rightarrow> string \<Rightarrow> watch_row \<Rightarrow> bool" where
  "drainable run_id owner r \<longleftrightarrow> run_watch run_id owner r \<and> wa_state (wr_watch r) \<noteq> W_STOPPED"

definition upd_drain :: "datetime \<Rightarrow> watch_row \<Rightarrow> watch_row" where
  "upd_drain now r = r\<lparr>wr_watch := (wr_watch r)\<lparr>
       wa_state := W_FINALIZING, wa_next_poll_at := Some now,
       wa_version := wa_version (wr_watch r) + 1, wa_updated_at := now\<rparr>,
     wr_handoff_at := None\<rparr>"

definition schedule_terminal_drain :: "datetime \<Rightarrow> string \<Rightarrow> string \<Rightarrow> watch_db \<Rightarrow> bool \<times> watch_db" where
  "schedule_terminal_drain now run_id owner db =
     (rowcount (drainable run_id owner) (db_watches db) = 1,
      db\<lparr>db_watches := sql_update (drainable run_id owner) (upd_drain now) (db_watches db)\<rparr>)"

definition handoff_pending :: "string \<Rightarrow> string \<Rightarrow> watch_row \<Rightarrow> bool" where
  "handoff_pending watch_id owner r \<longleftrightarrow>
     owned_watch watch_id owner r \<and> wa_state (wr_watch r) = W_STOPPED \<and> wr_handoff_at r = None"

definition upd_handoff :: "datetime \<Rightarrow> watch_row \<Rightarrow> watch_row" where
  "upd_handoff now r = r\<lparr>wr_watch := (wr_watch r)\<lparr>wa_updated_at := now\<rparr>, wr_handoff_at := Some now\<rparr>"

definition acknowledge_terminal_handoff :: "datetime \<Rightarrow> string \<Rightarrow> string \<Rightarrow> watch_db \<Rightarrow> bool \<times> watch_db" where
  "acknowledge_terminal_handoff now watch_id owner db =
     (rowcount (handoff_pending watch_id owner) (db_watches db) = 1,
      db\<lparr>db_watches := sql_update (handoff_pending watch_id owner) (upd_handoff now) (db_watches db)\<rparr>)"

section \<open>Committing log content\<close>

definition write_content ::
    "(string \<Rightarrow> string) \<Rightarrow> string \<Rightarrow> string \<Rightarrow> watch_db \<Rightarrow> (watch_error, unit) result \<times> watch_db" where
  "write_content sha digest content db =
     (case db_contents db digest of
        Some stored \<Rightarrow>
          (if length stored \<noteq> length content \<or> sha stored \<noteq> digest then Inl (W_Runtime ''CAS conflict'') else Inr (), db)
      | None \<Rightarrow> (Inr (), db\<lparr>db_contents := (db_contents db)(digest := Some content)\<rparr>))"

definition candidate_segment :: "(string \<Rightarrow> string) \<Rightarrow> datetime \<Rightarrow> watch_lease \<Rightarrow> draft \<Rightarrow> segment" where
  "candidate_segment sha now l d =
     \<lparr>sg_segment_id = draft_segment_id sha d, sg_watch_id = wl_watch_id l, sg_run_id = dr_run_id d,
      sg_owner = dr_owner d, sg_stream = dr_stream d, sg_generation = dr_generation d,
      sg_start_offset = dr_start_offset d, sg_end_offset = draft_end_offset d,
      sg_content_sha256 = sha (dr_content d), sg_content_size = int (length (dr_content d)),
      sg_content_ref = ''sha256:'' @ sha (dr_content d), sg_created_at = now\<rparr>"

definition same_segment :: "segment \<Rightarrow> segment \<Rightarrow> bool" where
  "same_segment a b \<longleftrightarrow>
     sg_segment_id a = sg_segment_id b \<and> sg_watch_id a = sg_watch_id b \<and> sg_run_id a = sg_run_id b \<and>
     sg_owner a = sg_owner b \<and> sg_stream a = sg_stream b \<and> sg_generation a = sg_generation b \<and>
     sg_start_offset a = sg_start_offset b \<and> sg_end_offset a = sg_end_offset b \<and>
     sg_content_sha256 a = sg_content_sha256 b \<and> sg_content_size a = sg_content_size b \<and>
     sg_content_ref a = sg_content_ref b"

definition validate_segment_transition ::
    "watch_lease \<Rightarrow> cursor \<Rightarrow> draft \<Rightarrow> cursor \<Rightarrow> (bool \<times> watch_error) list" where
  "validate_segment_transition l current d next =
     [(dr_run_id d = wl_run_id l \<and> dr_owner d = wl_owner l \<and> cu_run_id next = wl_run_id l \<and>
       cu_owner next = wl_owner l \<and> cu_stream next = dr_stream d, W_Conflict WC_binding),
      ((dr_generation d = cu_generation current \<and> dr_start_offset d = cu_offset current) \<or>
       (dr_generation d = cu_generation current + 1 \<and> dr_start_offset d = 0), W_Conflict WC_non_contiguous),
      (cu_generation next = dr_generation d \<and> cu_offset next = draft_end_offset d \<and>
       cu_version next = cu_version current + 1 \<and> cu_offset next \<le> cu_source_size next,
         W_Conflict WC_next_cursor)]"

definition validate_cursor_advance ::
    "watch_lease \<Rightarrow> cursor \<Rightarrow> cursor \<Rightarrow> (bool \<times> watch_error) list" where
  "validate_cursor_advance l current next =
     [(cu_run_id next = wl_run_id l \<and> cu_owner next = wl_owner l \<and> cu_stream next = cu_stream current \<and>
       cu_version next = cu_version current + 1, W_Conflict WC_advance_binding),
      ((cu_generation next = cu_generation current \<and> cu_offset next = cu_offset current) \<or>
       (cu_generation next = cu_generation current + 1 \<and> cu_offset next = 0), W_Conflict WC_skip)]"

definition lease_cursor :: "watch_lease \<Rightarrow> stream \<Rightarrow> cursor_row \<Rightarrow> bool" where
  "lease_cursor l strm r \<longleftrightarrow> cr_watch_id r = wl_watch_id l \<and> cu_owner (cr_cursor r) = wl_owner l \<and>
     cu_run_id (cr_cursor r) = wl_run_id l \<and> cu_stream (cr_cursor r) = strm"

definition cursor_where :: "string \<Rightarrow> int \<Rightarrow> cursor \<Rightarrow> cursor_row \<Rightarrow> bool" where
  "cursor_where watch_id expected_version next r \<longleftrightarrow> cr_watch_id r = watch_id \<and>
     cu_owner (cr_cursor r) = cu_owner next \<and> cu_run_id (cr_cursor r) = cu_run_id next \<and>
     cu_stream (cr_cursor r) = cu_stream next \<and> cu_version (cr_cursor r) = expected_version"

definition upd_cursor :: "cursor \<Rightarrow> cursor_row \<Rightarrow> cursor_row" where
  "upd_cursor next r = r\<lparr>cr_cursor := (cr_cursor r)\<lparr>
     cu_generation := cu_generation next, cu_offset := cu_offset next,
     cu_source_size := cu_source_size next, cu_source_mtime := cu_source_mtime next,
     cu_file_identity := cu_file_identity next, cu_prefix_fingerprint := cu_prefix_fingerprint next,
     cu_remainder_base64 := cu_remainder_base64 next, cu_last_data_at := cu_last_data_at next,
     cu_last_checked_at := cu_last_checked_at next, cu_quiet_polls := cu_quiet_polls next,
     cu_version := cu_version next\<rparr>\<rparr>"

definition segment_at :: "draft \<Rightarrow> segment \<Rightarrow> bool" where
  "segment_at d s \<longleftrightarrow> sg_owner s = dr_owner d \<and> sg_run_id s = dr_run_id d \<and> sg_stream s = dr_stream d \<and>
     sg_generation s = dr_generation d \<and> sg_start_offset s = dr_start_offset d"

text \<open>The transaction of \<open>commit_segment\<close>.\<close>

definition commit_transaction ::
    "datetime \<Rightarrow> watch_lease \<Rightarrow> draft \<Rightarrow> cursor \<Rightarrow> segment \<Rightarrow> watch_db
      \<Rightarrow> (watch_error, segment) result \<times> watch_db" where
  "commit_transaction now l d next cand db =
     (if fetchone (watch_lease_row now l) (db_watches db) = None then (Inl (W_Conflict WC_lease), db)
      else
        case fetchone (lease_cursor l (dr_stream d)) (db_cursors db) of
          None \<Rightarrow> (Inl (W_Conflict WC_cursor_missing), db)
        | Some crow \<Rightarrow>
            (case cursor_post_init (cr_cursor crow) of
               Inl e \<Rightarrow> (Inl e, db)
             | Inr current \<Rightarrow>
                 (case fetchone (\<lambda>s. sg_segment_id s = sg_segment_id cand \<and> sg_owner s = sg_owner cand)
                         (db_segments db) of
                    Some row \<Rightarrow>
                      (case segment_post_init row of
                         Inl e \<Rightarrow> (Inl e, db)
                       | Inr existing \<Rightarrow>
                           (checked
                              [(same_segment existing cand, W_Conflict WC_replay),
                               (current = next, W_Conflict WC_replay_cursor)] (Inr existing), db))
                  | None \<Rightarrow>
                      (case first_failure (
                         (fetchone (segment_at d) (db_segments db) = None, W_Conflict WC_position)
                         # validate_segment_transition l current d next
                         @ [(\<not> (\<exists>s \<in> set (db_segments db). sg_segment_id s = sg_segment_id cand), W_Integrity),
                            (rowcount (cursor_where (wl_watch_id l) (cu_version current) next) (db_cursors db) = 1,
                               W_Conflict WC_cursor_fenced)]) of
                         Some e \<Rightarrow> (Inl e, db)
                       | None \<Rightarrow>
                           (Inr cand, db\<lparr>db_segments := db_segments db @ [cand],
                              db_cursors := sql_update (cursor_where (wl_watch_id l) (cu_version current) next)
                                (upd_cursor next) (db_cursors db)\<rparr>)))))"

definition commit_segment ::
    "(string \<Rightarrow> string) \<Rightarrow> datetime \<Rightarrow> watch_lease \<Rightarrow> draft \<Rightarrow> cursor \<Rightarrow> watch_db
      \<Rightarrow> (watch_error, segment) result \<times> watch_db" where
  "commit_segment sha now l d next db =
     (case first_failure
        [(is_instance watch_lease_post_init l, W_Type ''lease''),
         (is_instance draft_post_init d, W_Type ''segment''),
         (is_instance cursor_post_init next, W_Type ''next_cursor'')] of
        Some e \<Rightarrow> (Inl e, db)
      | None \<Rightarrow>
          (case write_content sha (sha (dr_content d)) (dr_content d) db of
             (Inl e, db1) \<Rightarrow> (Inl e, db1)
           | (Inr _, db1) \<Rightarrow>
               (case segment_post_init (candidate_segment sha now l d) of
                  Inl e \<Rightarrow> (Inl e, db1)
                | Inr cand \<Rightarrow> commit_transaction now l d next cand db1)))"

definition advance_cursor ::
    "datetime \<Rightarrow> watch_lease \<Rightarrow> cursor \<Rightarrow> watch_db \<Rightarrow> (watch_error, cursor) result \<times> watch_db" where
  "advance_cursor now l next db =
     (case first_failure
        [(is_instance watch_lease_post_init l, W_Type ''lease''),
         (is_instance cursor_post_init next, W_Type ''next_cursor''),
         (fetchone (watch_lease_row now l) (db_watches db) \<noteq> None, W_Conflict WC_lease)] of
        Some e \<Rightarrow> (Inl e, db)
      | None \<Rightarrow>
          (case fetchone (lease_cursor l (cu_stream next)) (db_cursors db) of
             None \<Rightarrow> (Inl (W_Conflict WC_cursor_missing), db)
           | Some crow \<Rightarrow>
               (case cursor_post_init (cr_cursor crow) of
                  Inl e \<Rightarrow> (Inl e, db)
                | Inr current \<Rightarrow>
                    if current = next then (Inr current, db)
                    else
                      (case first_failure (validate_cursor_advance l current next
                         @ [(rowcount (cursor_where (wl_watch_id l) (cu_version current) next) (db_cursors db) = 1,
                               W_Conflict WC_cursor_fenced)]) of
                         Some e \<Rightarrow> (Inl e, db)
                       | None \<Rightarrow>
                           (Inr next, db\<lparr>db_cursors :=
                              sql_update (cursor_where (wl_watch_id l) (cu_version current) next)
                                (upd_cursor next) (db_cursors db)\<rparr>)))))"

section \<open>Reading segments\<close>

definition read_segment_content :: "(string \<Rightarrow> string) \<Rightarrow> string \<Rightarrow> string \<Rightarrow> watch_db \<Rightarrow> (watch_error, string) result" where
  "read_segment_content sha segment_id owner db =
     (case fetchone (\<lambda>s. sg_segment_id s = segment_id \<and> sg_owner s = owner) (db_segments db) of
        None \<Rightarrow> Inl (W_Key segment_id)
      | Some row \<Rightarrow>
          bind_res (segment_post_init row) (\<lambda>s.
            case db_contents db (sg_content_sha256 s) of
              None \<Rightarrow> Inl (W_Runtime ''content unavailable'')
            | Some content \<Rightarrow>
                if int (length content) \<noteq> sg_content_size s \<or> sha content \<noteq> sg_content_sha256 s
                then Inl (W_Runtime ''content integrity'') else Inr content))"

definition stream_segments :: "string \<Rightarrow> string \<Rightarrow> stream \<Rightarrow> segment \<Rightarrow> bool" where
  "stream_segments run_id owner strm s \<longleftrightarrow> sg_run_id s = run_id \<and> sg_owner s = owner \<and> sg_stream s = strm"

definition list_segments ::
    "string \<Rightarrow> string \<Rightarrow> stream \<Rightarrow> int \<Rightarrow> watch_db \<Rightarrow> (watch_error, segment list) result" where
  "list_segments run_id owner strm limit db = checked [(watch_limit_ok limit, W_Invalid ''limit'')]
     (traverse segment_post_init (take (nat limit)
        (sort_key (\<lambda>s. (sg_generation s, sg_start_offset s))
          (filter (stream_segments run_id owner strm) (db_segments db)))))"

definition list_segments_from ::
    "string \<Rightarrow> string \<Rightarrow> stream \<Rightarrow> int \<Rightarrow> int \<Rightarrow> int \<Rightarrow> watch_db \<Rightarrow> (watch_error, segment list) result" where
  "list_segments_from run_id owner strm generation offset limit db = checked
     [(0 \<le> generation, W_Invalid ''generation''), (0 \<le> offset, W_Invalid ''offset''),
      (watch_limit_ok limit, W_Invalid ''limit'')]
     (traverse segment_post_init (take (nat limit)
        (sort_key (\<lambda>s. (sg_generation s, sg_start_offset s))
          (filter (\<lambda>s. stream_segments run_id owner strm s \<and>
             (generation < sg_generation s \<or> (sg_generation s = generation \<and> offset < sg_end_offset s)))
            (db_segments db)))))"

definition get_previous_segment ::
    "string \<Rightarrow> string \<Rightarrow> stream \<Rightarrow> int \<Rightarrow> int \<Rightarrow> watch_db \<Rightarrow> (watch_error, segment option) result" where
  "get_previous_segment run_id owner strm generation start_offset db = checked
     [(0 \<le> generation, W_Invalid ''generation''), (0 \<le> start_offset, W_Invalid ''start_offset'')]
     (case sort_key (\<lambda>s. - sg_end_offset s)
            (filter (\<lambda>s. stream_segments run_id owner strm s \<and> sg_generation s = generation \<and>
               sg_end_offset s \<le> start_offset) (db_segments db)) of
        [] \<Rightarrow> Inr None
      | s # _ \<Rightarrow> bind_res (segment_post_init s) (\<lambda>x. Inr (Some x)))"

section \<open>Alerts\<close>

definition save_alert :: "alert \<Rightarrow> watch_db \<Rightarrow> (watch_error, alert) result \<times> watch_db" where
  "save_alert a db =
     (case first_failure
        [(is_instance alert_post_init a, W_Type ''alert''),
         (\<exists>r \<in> set (db_watches db). wr_id r = al_watch_id a \<and> run_watch (al_run_id a) (al_owner a) r,
            W_Key (al_watch_id a)),
         (opt_ok (\<lambda>sid. \<exists>s \<in> set (db_segments db). sg_segment_id s = sid \<and>
             sg_run_id s = al_run_id a \<and> sg_owner s = al_owner a) (al_segment_id a),
            W_Key ''segment_id'')] of
        Some e \<Rightarrow> (Inl e, db)
      | None \<Rightarrow>
          let alerts = insert_ignore (\<lambda>x y. al_alert_id x = al_alert_id y) a (db_alerts db);
              db' = db\<lparr>db_alerts := alerts\<rparr>
          in (case fetchone (\<lambda>x. al_alert_id x = al_alert_id a \<and> al_owner x = al_owner a) alerts of
                None \<Rightarrow> (Inl (W_Runtime ''alert insert''), db')
              | Some row \<Rightarrow>
                  (bind_res (alert_post_init row) (\<lambda>stored.
                     if stored = a then Inr stored else Inl (W_Conflict WC_alert_replay)), db')))"

definition list_alerts :: "string \<Rightarrow> string \<Rightarrow> int \<Rightarrow> watch_db \<Rightarrow> (watch_error, alert list) result" where
  "list_alerts run_id owner limit db = checked [(watch_limit_ok limit, W_Invalid ''limit'')]
     (traverse alert_post_init (take (nat limit)
        (sort_key (\<lambda>a. (timestamp (al_created_at a), al_alert_id a))
          (filter (\<lambda>a. al_run_id a = run_id \<and> al_owner a = owner) (db_alerts db)))))"

end
