(* ===== verification/Codecs.thy ===== *)
theory Codecs
  imports Prelude
begin

text \<open>
  The two codecs the runtime log reader takes from Python's standard library: base64 (of the bytes an
  incomplete character leaves over) and the incremental UTF-8 decoder with \<open>errors="replace"\<close>. Bytes
  are 8-bit characters; decoded text is a list of code points.
\<close>

section \<open>Base64\<close>

definition byte :: "char \<Rightarrow> nat" where
  "byte c = of_char c"

lemma byte_less [simp]: "byte c < 256"
  by (simp add: byte_def)

lemma char_of_byte [simp]: "char_of (byte c) = c"
  by (simp add: byte_def)

definition b64_letter :: "nat \<Rightarrow> char" where
  "b64_letter n = char_of (if n < 26 then n + 65 else if n < 52 then n + 71 else if n < 62 then n - 4 else if n = 62 then 43 else 47)"

definition b64_value :: "char \<Rightarrow> nat" where
  "b64_value c = (let n = byte c in
     if 65 \<le> n \<and> n \<le> 90 then n - 65 else if 97 \<le> n \<and> n \<le> 122 then n - 71 else if 48 \<le> n \<and> n \<le> 57 then n + 4
     else if n = 43 then 62 else 63)"

fun b64_encode :: "string \<Rightarrow> string" where
  "b64_encode [] = []"
| "b64_encode [a] = [b64_letter (byte a div 4), b64_letter (byte a mod 4 * 16), CHR ''='', CHR ''='']"
| "b64_encode [a, b] = [b64_letter (byte a div 4), b64_letter (byte a mod 4 * 16 + byte b div 16),
     b64_letter (byte b mod 16 * 4), CHR ''='']"
| "b64_encode (a # b # c # bs) = b64_letter (byte a div 4) # b64_letter (byte a mod 4 * 16 + byte b div 16) #
     b64_letter (byte b mod 16 * 4 + byte c div 64) # b64_letter (byte c mod 64) # b64_encode bs"

fun b64_decode :: "string \<Rightarrow> string" where
  \<comment> \<open>of a text that \<open>validate=True\<close> accepts\<close>
  "b64_decode (w # x # y # z # s) =
     (let a = char_of (b64_value w * 4 + b64_value x div 16);
          b = char_of (b64_value x mod 16 * 16 + b64_value y div 4);
          c = char_of (b64_value y mod 4 * 64 + b64_value z)
      in if y = CHR ''='' then [a] else if z = CHR ''='' then [a, b] else a # b # c # b64_decode s)"
| "b64_decode _ = []"

lemma byte_char_of: "n < 256 \<Longrightarrow> byte (char_of n) = n"
  by (simp add: byte_def)

lemma b64_value_letter: "n < 64 \<Longrightarrow> b64_value (b64_letter n) = n"
  unfolding b64_value_def b64_letter_def Let_def by (simp add: byte_char_of) arith

lemma byte_letter: "byte (b64_letter n) \<noteq> 61"
  by (simp add: b64_letter_def byte_char_of) arith

lemma letter_not_pad: "b64_letter n \<noteq> CHR ''=''"
proof
  assume "b64_letter n = CHR ''=''"
  then have "byte (b64_letter n) = byte CHR ''=''" by simp
  then show False using byte_letter by (simp add: byte_def)
qed

lemma div_mod_digit: "(y::nat) < m \<Longrightarrow> (x * m + y) div m = x" "(y::nat) < m \<Longrightarrow> (x * m + y) mod m = y"
  by simp_all

lemma digit_bound: "(x::nat) < k \<Longrightarrow> y < m \<Longrightarrow> x * m + y < k * m"
  using mult_le_mono1 [of "Suc x" k m] by simp

lemma sextets:
  fixes a b c :: nat
  assumes "a < 256" "b < 256" "c < 256"
  shows "a div 4 < 64" "a mod 4 * 16 + b div 16 < 64" "b mod 16 * 4 + c div 64 < 64" "c mod 64 < 64"
    "a mod 4 * 16 < 64" "b mod 16 * 4 < 64"
    "a div 4 * 4 + (a mod 4 * 16 + b div 16) div 16 = a" "a div 4 * 4 + a mod 4 * 16 div 16 = a"
    "(a mod 4 * 16 + b div 16) mod 16 * 16 + (b mod 16 * 4 + c div 64) div 4 = b"
    "(a mod 4 * 16 + b div 16) mod 16 * 16 + b mod 16 * 4 div 4 = b"
    "(b mod 16 * 4 + c div 64) mod 4 * 64 + c mod 64 = c"
proof -
  have d: "b div 16 < 16" "c div 64 < 4" using assms by (simp_all add: less_mult_imp_div_less)
  show "a div 4 < 64" "c mod 64 < 64" using assms by (simp_all add: less_mult_imp_div_less)
  show "a mod 4 * 16 + b div 16 < 64" using digit_bound [of "a mod 4" 4 "b div 16" 16] d by simp
  show "b mod 16 * 4 + c div 64 < 64" using digit_bound [of "b mod 16" 16 "c div 64" 4] d by simp
  show "a mod 4 * 16 < 64" using digit_bound [of "a mod 4" 4 0 16] by simp
  show "b mod 16 * 4 < 64" using digit_bound [of "b mod 16" 16 0 4] by simp
  show "a div 4 * 4 + (a mod 4 * 16 + b div 16) div 16 = a" "a div 4 * 4 + a mod 4 * 16 div 16 = a"
    "(a mod 4 * 16 + b div 16) mod 16 * 16 + (b mod 16 * 4 + c div 64) div 4 = b"
    "(a mod 4 * 16 + b div 16) mod 16 * 16 + b mod 16 * 4 div 4 = b"
    "(b mod 16 * 4 + c div 64) mod 4 * 64 + c mod 64 = c"
    using d by (simp_all only: div_mod_digit div_mult_mod_eq nonzero_mult_div_cancel_right zero_neq_numeral not_False_eq_True)
qed

theorem b64_roundtrip: "b64_decode (b64_encode bs) = bs"
proof (induction bs rule: b64_encode.induct)
  case (4 a b c bs)
  have "byte a < 256" "byte b < 256" "byte c < 256" by simp_all
  note s = sextets [OF this]
  from 4 s show ?case by (simp add: b64_value_letter letter_not_pad Let_def)
next
  case (2 a)
  note s = sextets [of "byte a" 0 0, simplified]
  then show ?case by (simp add: b64_value_letter letter_not_pad Let_def)
next
  case (3 a b)
  have "byte a < 256" "byte b < 256" "(0::nat) < 256" by simp_all
  note s = sextets [OF this, simplified]
  then show ?case by (simp add: b64_value_letter letter_not_pad Let_def)
qed simp

section \<open>UTF-8\<close>

text \<open>The ranges of the bytes that may follow a leading byte; \<open>None\<close> for a byte that leads nothing.\<close>

definition continuation :: "nat \<Rightarrow> (nat \<times> nat) list option" where
  "continuation b =
     (if b < 128 then Some []
      else if b < 194 then None
      else if b < 224 then Some [(128, 191)]
      else if b = 224 then Some [(160, 191), (128, 191)]
      else if b = 237 then Some [(128, 159), (128, 191)]
      else if b < 240 then Some [(128, 191), (128, 191)]
      else if b = 240 then Some [(144, 191), (128, 191), (128, 191)]
      else if b < 244 then Some [(128, 191), (128, 191), (128, 191)]
      else if b = 244 then Some [(128, 143), (128, 191), (128, 191)]
      else None)"

fun follows :: "(nat \<times> nat) list \<Rightarrow> nat list \<Rightarrow> nat" where
  \<comment> \<open>how many of the expected bytes are there\<close>
  "follows ((lo, hi) # rs) (b # bs) = (if lo \<le> b \<and> b \<le> hi then Suc (follows rs bs) else 0)"
| "follows _ _ = 0"

definition code_point :: "nat \<Rightarrow> nat list \<Rightarrow> nat" where
  "code_point b bs = foldl (\<lambda>acc c. acc * 64 + c mod 64)
     (if bs = [] then b else if length bs = 1 then b mod 32 else if length bs = 2 then b mod 16 else b mod 8) bs"

function utf8_feed :: "nat list \<Rightarrow> nat list \<times> nat list" where
  \<comment> \<open>decoded text and the bytes kept for the next call\<close>
  "utf8_feed [] = ([], [])"
| "utf8_feed (b # bs) =
     (case continuation b of
        None \<Rightarrow> map_prod (Cons 65533) id (utf8_feed bs)
      | Some rs \<Rightarrow>
          let k = follows rs bs in
          if k = length rs then map_prod (Cons (code_point b (take k bs))) id (utf8_feed (drop k bs))
          else if k = length bs then ([], b # bs)
          else map_prod (Cons 65533) id (utf8_feed (drop k bs)))"
  by pat_completeness auto
termination by (relation "measure length") auto

lemma follows_le: "follows rs bs \<le> length rs \<and> follows rs bs \<le> length bs"
  by (induction rs bs rule: follows.induct) auto

lemma follows_append: "follows rs bs = length rs \<or> follows rs bs < length bs \<Longrightarrow> follows rs (bs @ cs) = follows rs bs"
  by (induction rs bs rule: follows.induct) (auto split: if_splits)

lemma continuation_length: "continuation b = Some rs \<Longrightarrow> length rs \<le> 3"
  by (auto simp: continuation_def split: if_splits)

lemma utf8_feed_append:
  "utf8_feed (xs @ ys) = (fst (utf8_feed xs) @ fst (utf8_feed (snd (utf8_feed xs) @ ys)), snd (utf8_feed (snd (utf8_feed xs) @ ys)))"
proof (induction xs rule: utf8_feed.induct)
  case 1
  then show ?case by simp
next
  case (2 b bs)
  show ?case
  proof (cases "continuation b")
    case None
    with "2.IH"(1) show ?thesis by (simp add: map_prod_def split_beta)
  next
    case (Some rs)
    let ?k = "follows rs bs"
    have le: "?k \<le> length bs" using follows_le by blast
    show ?thesis
    proof (cases "?k = length rs")
      case True
      with "2.IH"(2) [OF Some refl] Some follows_append [of rs bs ys] le show ?thesis
        by (simp add: map_prod_def split_beta Let_def)
    next
      case not_all: False
      show ?thesis
      proof (cases "?k = length bs")
        case True
        with not_all Some show ?thesis by (simp add: Let_def)
      next
        case False
        with "2.IH"(3) [OF Some refl not_all] not_all Some follows_append [of rs bs ys] le show ?thesis
          by (simp add: map_prod_def split_beta Let_def)
      qed
    qed
  qed
qed

lemma utf8_remainder_le: "length (snd (utf8_feed xs)) \<le> 3"
proof (induction xs rule: utf8_feed.induct)
  case (2 b bs)
  show ?case
  proof (cases "continuation b")
    case None
    with "2.IH"(1) show ?thesis by simp
  next
    case (Some rs)
    note len = follows_le [of rs bs] continuation_length [OF Some]
    consider "follows rs bs = length rs" | "follows rs bs \<noteq> length rs" "follows rs bs = length bs"
      | "follows rs bs \<noteq> length rs" "follows rs bs \<noteq> length bs" by blast
    then show ?thesis
    proof cases
      case 1
      with "2.IH"(2) [OF Some refl] Some show ?thesis by (simp add: Let_def)
    next
      case 2
      with Some len show ?thesis by (simp add: Let_def)
    next
      case 3
      with "2.IH"(3) [OF Some refl] Some show ?thesis by (simp add: Let_def)
    qed
  qed
qed simp

definition utf8_text :: "string \<Rightarrow> nat list" where
  "utf8_text s = fst (utf8_feed (map byte s))"

definition utf8_rest :: "string \<Rightarrow> string" where
  "utf8_rest s = map char_of (snd (utf8_feed (map byte s)))"

end
