(* ===== verification/WatchReader.thy ===== *)
theory WatchReader
  imports WatchStore Codecs
begin

text \<open>
  \<open>runtime_watch/reader.py\<close>: one bounded, generation-aware read of a growing log file, and the next
  cursor. The evidence transport is a parameter: for one read, what \<open>stat\<close> answers and what
  \<open>read_bytes_range\<close> answers at each offset and length, each possibly an error; the file may change
  between the two.
\<close>

section \<open>Transport\<close>

datatype transport_error = T_NotFound | T_Other string

record file_stat =
  fs_kind :: string
  fs_owner_readable :: bool
  fs_size :: int
  fs_mtime :: rat
  fs_identity :: "string option"
  fs_prefix :: "string option"

record transport =
  tp_stat :: "(transport_error, file_stat) result"
  tp_read :: "int \<Rightarrow> int \<Rightarrow> (transport_error, string) result"

text \<open>A pure POSIX path: its root (empty, \<open>/\<close> or \<open>//\<close>) and its parts.\<close>

record path =
  pa_root :: string
  pa_parts :: "string list"

record safe_path =
  sp_original :: string
  sp_resolved :: path
  sp_root :: path

record log_source =
  ls_run_id :: string
  ls_owner :: string
  ls_stdout :: safe_path
  ls_stderr :: safe_path

fun path_for :: "log_source \<Rightarrow> stream \<Rightarrow> safe_path" where
  "path_for src STDOUT = ls_stdout src"
| "path_for src STDERR = ls_stderr src"

datatype service_error =
  SE_watch watch_error | SE_transport transport_error | SE_value string | SE_runtime string
| SE_permission string | SE_key string | SE_overflow | SE_callback

record log_read =
  rd_content :: string
  rd_text :: "nat list"
  rd_next :: cursor
  rd_rotated :: bool
  rd_available :: bool

section \<open>Rotation\<close>

definition is_rotated :: "cursor \<Rightarrow> string option \<Rightarrow> string option \<Rightarrow> int \<Rightarrow> bool" where
  "is_rotated c ident prefix file_size \<longleftrightarrow>
     (cu_file_identity c \<noteq> None \<and> ident \<noteq> cu_file_identity c) \<or>
     file_size < cu_offset c \<or>
     (cu_prefix_fingerprint c \<noteq> None \<and> prefix \<noteq> None \<and> prefix \<noteq> cu_prefix_fingerprint c \<and>
      (4096 \<le> cu_offset c \<or> file_size \<le> cu_source_size c))"

section \<open>Reading\<close>

definition missing_cursor :: "datetime \<Rightarrow> cursor \<Rightarrow> cursor" where
  "missing_cursor now c = c\<lparr>cu_last_checked_at := Some now, cu_quiet_polls := cu_quiet_polls c + 1,
     cu_version := cu_version c + 1\<rparr>"

definition next_cursor :: "datetime \<Rightarrow> cursor \<Rightarrow> file_stat \<Rightarrow> int \<Rightarrow> int \<Rightarrow> string \<Rightarrow> string \<Rightarrow> cursor" where
  "next_cursor now c st generation offset content remainder = c\<lparr>
     cu_generation := generation, cu_offset := offset + int (length content),
     cu_source_size := fs_size st, cu_source_mtime := Some (fs_mtime st),
     cu_file_identity := fs_identity st, cu_prefix_fingerprint := fs_prefix st,
     cu_remainder_base64 := b64_encode remainder,
     cu_last_data_at := (if content \<noteq> [] then Some now else cu_last_data_at c),
     cu_last_checked_at := Some now,
     cu_quiet_polls := (if content \<noteq> [] then 0 else cu_quiet_polls c + 1),
     cu_version := cu_version c + 1\<rparr>"

definition lift_watch :: "(watch_error, 'a) result \<Rightarrow> (service_error, 'a) result" where
  "lift_watch r = (case r of Inl e \<Rightarrow> Inl (SE_watch e) | Inr x \<Rightarrow> Inr x)"

definition read_available :: "datetime \<Rightarrow> cursor \<Rightarrow> int \<Rightarrow> transport \<Rightarrow> file_stat \<Rightarrow> (service_error, log_read) result" where
  "read_available now c max_bytes tp st =
     (let rotated = is_rotated c (fs_identity st) (fs_prefix st) (fs_size st);
          generation = (if rotated then cu_generation c + 1 else cu_generation c);
          offset = (if rotated then 0 else cu_offset c);
          prior = (if rotated then [] else b64_decode (cu_remainder_base64 c));
          available = max 0 (fs_size st - offset)
      in case (if available \<noteq> 0 then tp_read tp offset (min max_bytes available) else Inr []) of
           Inl e \<Rightarrow> Inl (SE_transport e)
         | Inr content \<Rightarrow>
             bind_res (lift_watch (cursor_post_init
                 (next_cursor now c st generation offset content (utf8_rest (prior @ content)))))
               (\<lambda>n. Inr \<lparr>rd_content = content, rd_text = utf8_text (prior @ content), rd_next = n,
                        rd_rotated = rotated, rd_available = True\<rparr>))"

definition read_next ::
    "datetime \<Rightarrow> log_source \<Rightarrow> stream \<Rightarrow> cursor \<Rightarrow> int \<Rightarrow> transport \<Rightarrow> (service_error, log_read) result" where
  "read_next now src strm c max_bytes tp =
     ensure (1 \<le> max_bytes \<and> max_bytes \<le> 262144) (SE_value ''max_bytes'')
     (ensure (cu_run_id c = ls_run_id src \<and> cu_owner c = ls_owner src \<and> cu_stream c = strm)
        (SE_value ''cursor does not match'')
     (case tp_stat tp of
        Inl T_NotFound \<Rightarrow>
          bind_res (lift_watch (cursor_post_init (missing_cursor now c)))
            (\<lambda>n. Inr \<lparr>rd_content = [], rd_text = [], rd_next = n, rd_rotated = False, rd_available = False\<rparr>)
      | Inl e \<Rightarrow> Inl (SE_transport e)
      | Inr st \<Rightarrow>
          ensure (fs_kind st = ''regular file'' \<and> fs_owner_readable st) (SE_runtime ''not a readable regular file'')
            (read_available now c max_bytes tp st)))"

text \<open>The draft the service builds from a read with content.\<close>

definition draft_of :: "watch \<Rightarrow> stream \<Rightarrow> cursor \<Rightarrow> log_read \<Rightarrow> draft" where
  "draft_of w strm current rd = \<lparr>dr_run_id = wa_run_id w, dr_owner = wa_owner w, dr_stream = strm,
     dr_generation = cu_generation (rd_next rd),
     dr_start_offset = (if rd_rotated rd then 0 else cu_offset current), dr_content = rd_content rd\<rparr>"

section \<open>What a read returns\<close>

text \<open>The contract of \<open>read_bytes_range\<close>: no more bytes than were asked for.\<close>

definition bounded_reads :: "transport \<Rightarrow> bool" where
  "bounded_reads tp \<longleftrightarrow> (\<forall>off n content. tp_read tp off n = Inr content \<longrightarrow> int (length content) \<le> max 0 n)"

lemma lift_watch_Inr [simp]: "lift_watch r = Inr x \<longleftrightarrow> r = Inr x"
  by (cases r) (simp_all add: lift_watch_def)

lemma cursor_post_init_eq: "cursor_post_init c = Inr d \<Longrightarrow> d = c"
  by (auto simp: cursor_post_init_def)

lemma read_next_cases:
  assumes "read_next now src strm c max_bytes tp = Inr rd"
  obtains (missing) "rd = \<lparr>rd_content = [], rd_text = [], rd_next = missing_cursor now c, rd_rotated = False, rd_available = False\<rparr>"
      "is_instance cursor_post_init (missing_cursor now c)" "cu_stream c = strm"
  | (available) st offset prior content where "tp_stat tp = Inr st"
      "rd_rotated rd = is_rotated c (fs_identity st) (fs_prefix st) (fs_size st)"
      "offset = (if rd_rotated rd then 0 else cu_offset c)"
      "prior = (if rd_rotated rd then [] else b64_decode (cu_remainder_base64 c))"
      "if offset < fs_size st then tp_read tp offset (min max_bytes (fs_size st - offset)) = Inr content else content = []"
      "rd_content rd = content" "rd_text rd = utf8_text (prior @ content)" "rd_available rd"
      "rd_next rd = next_cursor now c st (if rd_rotated rd then cu_generation c + 1 else cu_generation c) offset content
        (utf8_rest (prior @ content))"
      "is_instance cursor_post_init (rd_next rd)" "cu_stream c = strm" "1 \<le> max_bytes"
proof (cases "tp_stat tp")
  case (Inl e)
  with assms have "e = T_NotFound" by (cases e) (auto simp: read_next_def)
  with Inl assms show ?thesis
    using missing by (auto simp: read_next_def bind_res_Inr_iff is_instance_def dest: cursor_post_init_eq)
next
  case (Inr st)
  define rot where "rot = is_rotated c (fs_identity st) (fs_prefix st) (fs_size st)"
  define off where "off = (if rot then 0 else cu_offset c)"
  define prior where "prior = (if rot then [] else b64_decode (cu_remainder_base64 c))"
  define gen where "gen = (if rot then cu_generation c + 1 else cu_generation c)"
  from assms Inr have av: "read_available now c max_bytes tp st = Inr rd" and pre: "cu_stream c = strm" "1 \<le> max_bytes"
    by (auto simp: read_next_def)
  from av obtain content where content:
      "(if max 0 (fs_size st - off) \<noteq> 0 then tp_read tp off (min max_bytes (max 0 (fs_size st - off))) else Inr []) = Inr content"
    and rest: "bind_res (lift_watch (cursor_post_init (next_cursor now c st gen off content (utf8_rest (prior @ content)))))
      (\<lambda>n. Inr \<lparr>rd_content = content, rd_text = utf8_text (prior @ content), rd_next = n,
                        rd_rotated = rot, rd_available = True\<rparr>) = Inr rd"
    unfolding read_available_def Let_def rot_def [symmetric] off_def [symmetric] prior_def [symmetric] gen_def [symmetric]
    by (auto split: sum.splits)
  from rest obtain n where n: "cursor_post_init n = Inr n" "n = next_cursor now c st gen off content (utf8_rest (prior @ content))"
    and rd: "rd = \<lparr>rd_content = content, rd_text = utf8_text (prior @ content), rd_next = n,
                        rd_rotated = rot, rd_available = True\<rparr>"
    by (auto simp: bind_res_Inr_iff dest: cursor_post_init_eq)
  have read: "if off < fs_size st then tp_read tp off (min max_bytes (fs_size st - off)) = Inr content else content = []"
    using content by (cases "off < fs_size st") (simp_all add: max_def split: if_splits)
  show ?thesis
  proof (rule available [OF Inr _ _ _ read])
    show "rd_rotated rd = is_rotated c (fs_identity st) (fs_prefix st) (fs_size st)" using rd by (simp add: rot_def)
    show "off = (if rd_rotated rd then 0 else cu_offset c)" using rd by (simp add: off_def)
    show "prior = (if rd_rotated rd then [] else b64_decode (cu_remainder_base64 c))" using rd by (simp add: prior_def)
    show "rd_next rd = next_cursor now c st (if rd_rotated rd then cu_generation c + 1 else cu_generation c) off content
        (utf8_rest (prior @ content))" using rd n(2) by (simp add: gen_def)
    show "is_instance cursor_post_init (rd_next rd)" using rd n(1) by (simp add: is_instance_def)
  qed (use rd pre in simp_all)
qed

text \<open>What the reader hands to the store passes the store's transition checks.\<close>

lemma available_length:
  assumes "bounded_reads tp" and "1 \<le> max_bytes"
    and "if off < n then tp_read tp off (min max_bytes (n - off)) = Inr content else content = []"
  shows "int (length content) \<le> max_bytes \<and> int (length content) \<le> max 0 (n - off)"
proof (cases "off < n")
  case True
  with assms have "int (length content) \<le> max 0 (min max_bytes (n - off))" unfolding bounded_reads_def by metis
  with True assms(2) show ?thesis by simp
next
  case False
  with assms show ?thesis by simp
qed

lemma read_next_segment:
  assumes "read_next now src strm c max_bytes tp = Inr rd" and "bounded_reads tp" and "rd_content rd \<noteq> []"
    and "cu_run_id c = wa_run_id w" "cu_owner c = wa_owner w" "wl_run_id l = wa_run_id w" "wl_owner l = wa_owner w"
    and "is_instance cursor_post_init c"
  shows "list_all fst (validate_segment_transition l c (draft_of w strm c rd) (rd_next rd))"
    and "is_instance draft_post_init (draft_of w strm c rd)" and "is_instance cursor_post_init (rd_next rd)"
proof -
  have c: "identifier_ok (cu_run_id c)" "identifier_ok (cu_owner c)" "0 \<le> cu_generation c" "0 \<le> cu_offset c"
    using assms(8) by (simp_all add: is_instance_def cursor_post_init_def cursor_checks_def)
  have max: "max_bytes \<le> 262144" using assms(1) by (simp add: read_next_def)
  from assms(1) have "list_all fst (validate_segment_transition l c (draft_of w strm c rd) (rd_next rd)) \<and>
    is_instance draft_post_init (draft_of w strm c rd) \<and> is_instance cursor_post_init (rd_next rd)"
  proof (cases rule: read_next_cases)
    case missing
    with assms(3) show ?thesis by simp
  next
    case (available st offset prior content)
    note len = available_length [OF assms(2) available(12) available(5)]
    have inst: "cu_offset (rd_next rd) \<le> cu_source_size (rd_next rd)"
      using available(10) by (simp add: is_instance_def cursor_post_init_def cursor_checks_def)
    show ?thesis
      using available(6,9,10,11) assms(3-7) inst c len max unfolding available(3)
      by (auto simp: validate_segment_transition_def draft_of_def next_cursor_def draft_end_offset_def
          is_instance_def draft_post_init_def)
  qed
  then show "list_all fst (validate_segment_transition l c (draft_of w strm c rd) (rd_next rd))"
    and "is_instance draft_post_init (draft_of w strm c rd)" and "is_instance cursor_post_init (rd_next rd)" by simp_all
qed

lemma read_next_advance:
  assumes "read_next now src strm c max_bytes tp = Inr rd" and "rd_content rd = []"
    and "cu_run_id c = wl_run_id l" "cu_owner c = wl_owner l"
  shows "list_all fst (validate_cursor_advance l c (rd_next rd))" and "is_instance cursor_post_init (rd_next rd)"
proof -
  from assms(1) have "list_all fst (validate_cursor_advance l c (rd_next rd)) \<and> is_instance cursor_post_init (rd_next rd)"
  proof (cases rule: read_next_cases)
    case missing
    with assms show ?thesis by (simp add: validate_cursor_advance_def missing_cursor_def)
  next
    case (available st offset prior content)
    with assms show ?thesis by (simp add: validate_cursor_advance_def next_cursor_def)
  qed
  then show "list_all fst (validate_cursor_advance l c (rd_next rd))" and "is_instance cursor_post_init (rd_next rd)" by simp_all
qed

section \<open>Successive reads\<close>

inductive read_chain :: "cursor \<Rightarrow> log_read list \<Rightarrow> cursor \<Rightarrow> bool" where
  rc_stop: "read_chain c [] c"
| rc_read: "read_next now src strm c max_bytes tp = Inr rd \<Longrightarrow> \<not> rd_rotated rd \<Longrightarrow> read_chain (rd_next rd) rds c' \<Longrightarrow>
    read_chain c (rd # rds) c'"

lemma byte_map [simp]: "(\<And>n. n \<in> set ns \<Longrightarrow> n < 256) \<Longrightarrow> map byte (map char_of ns) = ns"
  by (simp add: map_idI byte_char_of)

lemma utf8_feed_rest_subset: "set (snd (utf8_feed xs)) \<subseteq> set xs"
proof (induction xs rule: utf8_feed.induct)
  case (2 b bs)
  have drop: "set (drop k bs) \<subseteq> set (b # bs)" for k by (auto dest: in_set_dropD)
  show ?case
  proof (cases "continuation b")
    case None
    with "2.IH"(1) show ?thesis by auto
  next
    case (Some rs)
    note IH = "2.IH"(2) [OF Some refl] "2.IH"(3) [OF Some refl]
    from Some IH drop show ?thesis by (auto simp: Let_def)
  qed
qed simp

lemma map_byte_rest: "map byte (utf8_rest s) = snd (utf8_feed (map byte s))"
proof -
  have "n < 256" if "n \<in> set (snd (utf8_feed (map byte s)))" for n
    using that utf8_feed_rest_subset [of "map byte s"] by auto
  then show ?thesis unfolding utf8_rest_def by (rule byte_map)
qed

lemma utf8_text_append: "utf8_text (s @ t) = utf8_text s @ utf8_text (utf8_rest s @ t)"
  by (simp add: utf8_text_def map_byte_rest utf8_feed_append [of "map byte s"])

lemma utf8_rest_append: "utf8_rest (s @ t) = utf8_rest (utf8_rest s @ t)"
  by (simp add: utf8_rest_def [of "s @ t"] utf8_rest_def [of "utf8_rest s @ t"] map_byte_rest
      utf8_feed_append [of "map byte s"])

lemma utf8_rest_fix: "utf8_text (utf8_rest s) = []" "utf8_rest (utf8_rest s) = utf8_rest s"
  using utf8_text_append [of s "[]"] utf8_rest_append [of s "[]"] by simp_all

lemma read_chain_text:
  "read_chain c rds c' \<Longrightarrow> b64_decode (cu_remainder_base64 c) = utf8_rest s \<Longrightarrow>
   utf8_text s @ concat (map rd_text rds) = utf8_text (s @ concat (map rd_content rds)) \<and>
   b64_decode (cu_remainder_base64 c') = utf8_rest (s @ concat (map rd_content rds))"
proof (induction arbitrary: s rule: read_chain.induct)
  case (rc_stop c)
  then show ?case by simp
next
  case (rc_read now src strm c max_bytes tp rd rds c')
  from rc_read.hyps(1) have "rd_text rd = utf8_text (utf8_rest s @ rd_content rd) \<and>
      b64_decode (cu_remainder_base64 (rd_next rd)) = utf8_rest (utf8_rest s @ rd_content rd)"
  proof (cases rule: read_next_cases)
    case missing
    with rc_read.prems show ?thesis by (simp add: missing_cursor_def utf8_rest_fix)
  next
    case (available st offset prior content)
    then show ?thesis using rc_read.hyps(2) rc_read.prems by (simp add: next_cursor_def b64_roundtrip)
  qed
  with rc_read.IH [of "s @ rd_content rd"] show ?case
    by (simp add: utf8_text_append [of s "rd_content rd"] utf8_rest_append [of s "rd_content rd"])
qed

end
