(* ===== verification/Regex.thy ===== *)
theory Regex
  imports Prelude Codecs
begin

text \<open>
  The part of Python's \<open>re\<close> (byte patterns, \<open>re.I\<close>) the alert rules use, as a backtracking matcher:
  \<open>ends r s i\<close> are the ends of the matches of \<open>r\<close> in \<open>s\<close> at \<open>i\<close>, in the order in which \<open>re\<close> tries them,
  so the first is the match. \<open>Run\<close> is a greedy repetition of one-byte classes.
\<close>

datatype byte_class = AnyByte | NotNewline | SignByte

fun in_class :: "byte_class \<Rightarrow> char \<Rightarrow> bool" where
  "in_class AnyByte c = True"
| "in_class NotNewline c = (byte c \<noteq> 10)"
| "in_class SignByte c = (c = CHR ''+'' \<or> c = CHR ''-'')"

definition letter :: "char \<Rightarrow> bool" where
  "letter c \<longleftrightarrow> (let n = byte c in (65 \<le> n \<and> n \<le> 90) \<or> (97 \<le> n \<and> n \<le> 122))"

definition word_byte :: "char \<Rightarrow> bool" where
  "word_byte c \<longleftrightarrow> letter c \<or> c = CHR ''_'' \<or> (48 \<le> byte c \<and> byte c \<le> 57)"

definition lower :: "char \<Rightarrow> char" where
  "lower c = (if 65 \<le> byte c \<and> byte c \<le> 90 then char_of (byte c + 32) else c)"

datatype regex =
  Eps | Lit string | Run byte_class nat "nat option" | Seq regex regex | Alt regex regex
| WordBoundary | NotAfterLetter | NotBeforeLetter

definition byte_at :: "(char \<Rightarrow> bool) \<Rightarrow> string \<Rightarrow> nat \<Rightarrow> bool" where
  "byte_at p s i \<longleftrightarrow> i < length s \<and> p (s ! i)"

definition byte_before :: "(char \<Rightarrow> bool) \<Rightarrow> string \<Rightarrow> nat \<Rightarrow> bool" where
  "byte_before p s i \<longleftrightarrow> 0 < i \<and> byte_at p s (i - 1)"

definition run_length :: "byte_class \<Rightarrow> nat option \<Rightarrow> string \<Rightarrow> nat \<Rightarrow> nat" where
  "run_length c most s i = (let k = length (takeWhile (in_class c) (drop i s)) in
     case most of None \<Rightarrow> k | Some m \<Rightarrow> min m k)"

fun ends :: "regex \<Rightarrow> string \<Rightarrow> nat \<Rightarrow> nat list" where
  "ends Eps s i = [i]"
| "ends (Lit w) s i = (if map lower (take (length w) (drop i s)) = map lower w then [i + length w] else [])"
| "ends (Run c least most) s i = (let k = run_length c most s i in
     if least \<le> k then map (\<lambda>n. i + n) (rev [least..<Suc k]) else [])"
| "ends (Seq a b) s i = concat (map (ends b s) (ends a s i))"
| "ends (Alt a b) s i = ends a s i @ ends b s i"
| "ends WordBoundary s i = (if byte_before word_byte s i \<noteq> byte_at word_byte s i then [i] else [])"
| "ends NotAfterLetter s i = (if byte_before letter s i then [] else [i])"
| "ends NotBeforeLetter s i = (if byte_at letter s i then [] else [i])"

text \<open>\<open>search\<close> from a position, in at most \<open>n\<close> tries.\<close>

fun search_from :: "regex \<Rightarrow> string \<Rightarrow> nat \<Rightarrow> nat \<Rightarrow> (nat \<times> nat) option" where
  "search_from r s i 0 = None"
| "search_from r s i (Suc n) = (case ends r s i of e # _ \<Rightarrow> Some (i, e) | [] \<Rightarrow> search_from r s (Suc i) n)"

lemma search_from_bounds: "search_from r s i n = Some (a, e) \<Longrightarrow> i \<le> a \<and> a < i + n \<and> e \<in> set (ends r s a)"
  by (induction r s i n rule: search_from.induct) (auto split: list.splits)

text \<open>\<open>finditer\<close>: the leftmost matches, each search starting where the last match ended (one further
  after an empty match).\<close>

function finditer :: "regex \<Rightarrow> string \<Rightarrow> nat \<Rightarrow> (nat \<times> nat) list" where
  "finditer r s i =
     (if length s < i then []
      else case search_from r s i (Suc (length s) - i) of
             None \<Rightarrow> []
           | Some (a, e) \<Rightarrow> (a, e) # finditer r s (max e (Suc a)))"
  by pat_completeness auto
termination
  by (relation "measure (\<lambda>(r, s, i). Suc (length s) - i)") (auto dest: search_from_bounds)

declare finditer.simps [simp del]

lemma run_length_le: "run_length c most s i \<le> length s - i"
  using length_takeWhile_le [of "in_class c" "drop i s"] by (auto simp: run_length_def Let_def split: option.split)

lemma ends_bounds: "i \<le> length s \<Longrightarrow> e \<in> set (ends r s i) \<Longrightarrow> i \<le> e \<and> e \<le> length s"
proof (induction r arbitrary: i e)
  case (Lit w)
  then have "map lower (take (length w) (drop i s)) = map lower w" by (simp split: if_splits)
  then have "length (take (length w) (drop i s)) = length w" by (rule map_eq_imp_length_eq)
  with Lit show ?case by (auto split: if_splits)
next
  case (Run c least most)
  then show ?case using run_length_le [of c most s i] by (auto simp: Let_def split: if_splits)
next
  case (Seq a b)
  from Seq.prems(2) obtain j where j: "j \<in> set (ends a s i)" "e \<in> set (ends b s j)" by auto
  from Seq.IH(1) [OF Seq.prems(1) j(1)] Seq.IH(2) [OF _ j(2)] show ?case by simp
next
  case (Alt a b)
  from Alt.prems(2) have "e \<in> set (ends a s i) \<or> e \<in> set (ends b s i)" by simp
  with Alt.IH Alt.prems(1) show ?case by blast
qed (simp_all split: if_splits)

lemma finditer_bounds: "(a, e) \<in> set (finditer r s i) \<Longrightarrow> i \<le> a \<and> a \<le> e \<and> e \<le> length s \<and> e \<in> set (ends r s a)"
proof (induction r s i rule: finditer.induct)
  case (1 r s i)
  have i: "\<not> length s < i"
    using "1.prems" unfolding finditer.simps [of r s i] by (simp split: if_splits)
  obtain b f where bf: "search_from r s i (Suc (length s) - i) = Some (b, f)"
    using "1.prems" i unfolding finditer.simps [of r s i] by (cases "search_from r s i (Suc (length s) - i)") auto
  have mem: "(a, e) = (b, f) \<or> (a, e) \<in> set (finditer r s (max f (Suc b)))"
    using "1.prems" i bf unfolding finditer.simps [of r s i] by simp
  from search_from_bounds [OF bf] have b: "i \<le> b" "b \<le> length s" "f \<in> set (ends r s b)" using i by auto
  from mem show ?case
  proof
    assume "(a, e) = (b, f)"
    with b ends_bounds [of b s f r] show ?thesis by simp
  next
    assume "(a, e) \<in> set (finditer r s (max f (Suc b)))"
    with "1.IH" [OF i bf refl] b show ?thesis by simp
  qed
qed

end
