(* ===== verification/WatchService.thy ===== *)
theory WatchService
  imports WatchReader Regex
begin

text \<open>
  \<open>runtime_watch/evaluator.py\<close> and \<open>runtime_watch/service.py\<close>: alert rules over committed bytes, the
  resolution of a Run's log files below the authorized roots, and the tick that leases due watches,
  reads both streams, commits what it read and releases the watch with its next state.

  A tick is a function of the store and of an environment: what the clock reads at each labelled
  point of the handling of each watch, the transport of each file, the resolver, and whether the
  terminal callback returns. No watch is visited twice in a tick, so these are as free as in the code.
\<close>

section \<open>Alert rules\<close>

record alert_rule =
  ru_code :: string
  ru_severity :: severity
  ru_summary :: string
  ru_pattern :: regex

definition rules :: "alert_rule list" where
  "rules =
     [\<lparr>ru_code = ''PYTHON.MISSING_IMPORT'', ru_severity = SEV_critical, ru_summary = ''Python dependency import failed'',
       ru_pattern = Seq (Alt (Lit ''ModuleNotFoundError'') (Lit ''ImportError'')) (Alt (Lit '':'') WordBoundary)\<rparr>,
      \<lparr>ru_code = ''COMMAND.NOT_FOUND'', ru_severity = SEV_critical, ru_summary = ''Command was not found'',
       ru_pattern = Lit ''command not found''\<rparr>,
      \<lparr>ru_code = ''PATH.MISSING'', ru_severity = SEV_critical, ru_summary = ''A required path was not found'',
       ru_pattern = Alt (Lit ''No such file or directory'')
         (Seq (Lit ''cannot access '') (Seq (Run NotNewline 1 None) (Lit ''No such file'')))\<rparr>,
      \<lparr>ru_code = ''CUDA.OOM'', ru_severity = SEV_critical, ru_summary = ''CUDA reported out of memory'',
       ru_pattern = Alt (Lit ''CUDA out of memory'') (Lit ''CUDA error: out of memory'')\<rparr>,
      \<lparr>ru_code = ''NCCL.ERROR'', ru_severity = SEV_critical, ru_summary = ''NCCL reported a distributed runtime error'',
       ru_pattern = Seq (Lit ''NCCL'') (Seq (Run AnyByte 0 (Some 80)) (Alt (Lit ''error'') (Alt (Lit ''failed'') (Lit ''failure''))))\<rparr>,
      \<lparr>ru_code = ''NUMERIC.NON_FINITE'', ru_severity = SEV_warning, ru_summary = ''Runtime output contains NaN or Inf'',
       ru_pattern = Seq NotAfterLetter (Seq
         (Alt (Lit ''nan'') (Seq (Run SignByte 0 (Some 1)) (Seq (Lit ''inf'') (Alt (Lit ''inity'') Eps)))) NotBeforeLetter)\<rparr>,
      \<lparr>ru_code = ''SLURM.INVALID_QOS_OR_ACCOUNT'', ru_severity = SEV_critical, ru_summary = ''Slurm rejected the QoS or account'',
       ru_pattern = Alt (Seq (Lit ''Invalid'') (Alt (Lit ''QOS'') (Alt (Lit '' qos'') (Lit '' account'')))) (Lit ''invalid account'')\<rparr>,
      \<lparr>ru_code = ''SLURM.IMPOSSIBLE_DEPENDENCY'', ru_severity = SEV_critical, ru_summary = ''Slurm dependency can never be satisfied'',
       ru_pattern = Seq (Lit ''dependency '') (Alt (Lit ''can never be satisfied'') (Alt (Lit ''is impossible'') (Lit ''failed'')))\<rparr>,
      \<lparr>ru_code = ''RESOURCE.PRESSURE'', ru_severity = SEV_warning, ru_summary = ''Runtime output references resource pressure'',
       ru_pattern = Alt (Lit ''oom-kill'') (Alt (Lit ''out of memory'') (Alt (Lit ''memory pressure'') (Lit ''disk quota exceeded'')))\<rparr>]"

definition tail_bytes :: "nat \<Rightarrow> string \<Rightarrow> string" where
  \<comment> \<open>\<open>s[-n:]\<close> for positive \<open>n\<close>\<close>
  "tail_bytes n s = drop (length s - n) s"

definition rule_alert ::
    "(string \<Rightarrow> string) \<Rightarrow> segment \<Rightarrow> nat \<Rightarrow> datetime \<Rightarrow> alert_rule \<Rightarrow> nat \<Rightarrow> (watch_error, alert) result" where
  "rule_alert sha seg prefix created_at rule start =
     create_alert sha (sg_watch_id seg) (sg_run_id seg) (sg_owner seg) (ru_code rule) (ru_severity rule) (ru_summary rule)
       (Some (sg_segment_id seg)) (sg_generation seg) (max 0 (sg_start_offset seg - int prefix + int start)) created_at"

fun scan_matches ::
    "(nat \<Rightarrow> (watch_error, alert) result) \<Rightarrow> nat \<Rightarrow> string \<Rightarrow> (nat \<times> nat) list \<Rightarrow> string list \<times> alert list
      \<Rightarrow> (watch_error, string list \<times> alert list) result" where
  "scan_matches mk prefix code [] acc = Inr acc"
| "scan_matches mk prefix code ((start, stop) # matches) (seen, alerts) =
     (if stop \<le> prefix \<or> code \<in> set seen then scan_matches mk prefix code matches (seen, alerts)
      else bind_res (mk start) (\<lambda>a. scan_matches mk prefix code matches (code # seen, alerts @ [a])))"

fun scan_rules ::
    "(alert_rule \<Rightarrow> nat \<Rightarrow> (watch_error, alert) result) \<Rightarrow> nat \<Rightarrow> string \<Rightarrow> alert_rule list \<Rightarrow> string list \<times> alert list
      \<Rightarrow> (watch_error, string list \<times> alert list) result" where
  "scan_rules mk prefix combined [] acc = Inr acc"
| "scan_rules mk prefix combined (rule # rest) acc =
     (if ru_code rule = ''RESOURCE.PRESSURE'' \<and> ''CUDA.OOM'' \<in> set (fst acc) then scan_rules mk prefix combined rest acc
      else bind_res (scan_matches (mk rule) prefix (ru_code rule) (finditer (ru_pattern rule) combined 0) acc)
             (scan_rules mk prefix combined rest))"

definition evaluate_segment ::
    "(string \<Rightarrow> string) \<Rightarrow> nat \<Rightarrow> segment \<Rightarrow> string \<Rightarrow> string \<Rightarrow> datetime \<Rightarrow> (watch_error, alert list) result" where
  "evaluate_segment sha boundary_bytes seg content previous_tail created_at =
     (let prefix = tail_bytes boundary_bytes previous_tail in
      ensure (int (length content) = sg_content_size seg) (W_Invalid ''content does not match its segment'')
        (bind_res (scan_rules (rule_alert sha seg (length prefix) created_at) (length prefix) (prefix @ content) rules ([], []))
          (\<lambda>(seen, alerts). Inr alerts)))"

section \<open>The log files of a Run\<close>

fun split_slash :: "string \<Rightarrow> string list" where
  "split_slash [] = [[]]"
| "split_slash (c # cs) = (if c = CHR ''/'' then [] # split_slash cs
     else case split_slash cs of [] \<Rightarrow> [[c]] | p # ps \<Rightarrow> (c # p) # ps)"

definition parse_path :: "string \<Rightarrow> path" where
  \<comment> \<open>\<open>Path(s)\<close>: exactly two leading slashes are a root of their own\<close>
  "parse_path s = \<lparr>pa_root = (if take 2 s = ''//'' \<and> take 3 s \<noteq> ''///'' then ''//'' else if take 1 s = ''/'' then ''/'' else []),
     pa_parts = filter (\<lambda>p. p \<noteq> [] \<and> p \<noteq> ''.'') (split_slash s)\<rparr>"

definition path_text :: "path \<Rightarrow> string" where
  "path_text p = (if pa_root p = [] \<and> pa_parts p = [] then ''.'' else pa_root p @ join ''/'' (pa_parts p))"

definition is_relative_to :: "path \<Rightarrow> path \<Rightarrow> bool" where
  "is_relative_to p q \<longleftrightarrow> pa_root p = pa_root q \<and> take (length (pa_parts q)) (pa_parts p) = pa_parts q"

definition path_child :: "path \<Rightarrow> string \<Rightarrow> path" where
  "path_child p n = p\<lparr>pa_parts := pa_parts p @ [n]\<rparr>"

definition job_char :: "char \<Rightarrow> bool" where
  "job_char c \<longleftrightarrow> letter c \<or> (48 \<le> byte c \<and> byte c \<le> 57) \<or> c = CHR ''_'' \<or> c = CHR ''.'' \<or> c = CHR ''-''"

record run_view =
  rv_owner :: string
  rv_job_id :: "string option"
  rv_workdir :: string

definition safe_log :: "path \<Rightarrow> path \<Rightarrow> string \<Rightarrow> string \<Rightarrow> safe_path" where
  "safe_log workdir anchor job suffix =
     (let p = path_child workdir (''slurm-'' @ job @ ''.'' @ suffix)
      in \<lparr>sp_original = path_text p, sp_resolved = p, sp_root = anchor\<rparr>)"

definition resolve_source ::
    "(string \<Rightarrow> (service_error, run_view) result) \<Rightarrow> path list \<Rightarrow> string \<Rightarrow> string \<Rightarrow> (service_error, log_source) result" where
  "resolve_source get_run allowed_roots run_id owner = bind_res (get_run run_id) (\<lambda>run.
     ensure (rv_owner run = owner) (SE_permission ''owner mismatch'')
     (ensure (case rv_job_id run of None \<Rightarrow> False | Some j \<Rightarrow> j \<noteq> [] \<and> list_all job_char j) (SE_runtime ''no safe Slurm job ID'')
     (let workdir = parse_path (rv_workdir run) in
      ensure (pa_root workdir \<noteq> [] \<and> ''..'' \<notin> set (pa_parts workdir)) (SE_permission ''workdir'')
      (case fetchone (\<lambda>r. workdir = r \<or> is_relative_to workdir r) allowed_roots of
         None \<Rightarrow> Inl (SE_permission ''workdir'')
       | Some anchor \<Rightarrow> Inr \<lparr>ls_run_id = run_id, ls_owner = owner,
           ls_stdout = safe_log workdir anchor (the (rv_job_id run)) ''out'',
           ls_stderr = safe_log workdir anchor (the (rv_job_id run)) ''err''\<rparr>))))"

section \<open>Policy and registration\<close>

record policy =
  pl_active_seconds :: int
  pl_quiet_seconds :: int
  pl_lease_seconds :: int
  pl_max_connections :: int
  pl_max_watches :: int
  pl_connection_bytes :: int
  pl_stream_bytes :: int

definition policy_post_init :: "policy \<Rightarrow> (watch_error, policy) result" where
  "policy_post_init p = checked
     [(list_all (\<lambda>v. 0 < v) [pl_active_seconds p, pl_quiet_seconds p, pl_lease_seconds p, pl_max_connections p,
         pl_max_watches p, pl_connection_bytes p, pl_stream_bytes p], W_Invalid ''policy values must be positive''),
      (pl_lease_seconds p \<le> 300, W_Invalid ''lease''), (pl_stream_bytes p \<le> 262144, W_Invalid ''stream quantum'')]
     (Inr p)"

definition default_policy :: policy where
  "default_policy = \<lparr>pl_active_seconds = 5, pl_quiet_seconds = 15, pl_lease_seconds = 30, pl_max_connections = 4,
     pl_max_watches = 1000, pl_connection_bytes = 4194304, pl_stream_bytes = 65536\<rparr>"

definition ensure_submitted_run ::
    "(string \<Rightarrow> string) \<Rightarrow> datetime \<Rightarrow> string \<Rightarrow> string \<Rightarrow> run_view \<Rightarrow> watch_db
      \<Rightarrow> (watch_error, watch \<times> cursor list) result \<times> watch_db" where
  "ensure_submitted_run sha now connection run_id run db =
     (if rv_job_id run = None then (Inl (W_Invalid ''requires a submitted Run job ID''), db)
      else create_watch sha now run_id (rv_owner run) connection db)"

section \<open>One stream\<close>

record env =
  ev_now :: "string \<Rightarrow> string \<Rightarrow> datetime"
  ev_transport :: "string \<Rightarrow> safe_path \<Rightarrow> transport"
  ev_connect :: "string \<Rightarrow> bool"
  ev_resolve :: "string \<Rightarrow> string \<Rightarrow> string \<Rightarrow> (service_error, log_source) result"
  ev_drained :: "(string \<Rightarrow> bool) option"
  ev_worker :: string
  ev_boundary :: nat

record poll =
  po_lease :: watch_lease
  po_budget :: int
  po_bytes :: int
  po_total :: int
  po_available :: bool
  po_db :: watch_db

fun save_alerts :: "alert list \<Rightarrow> watch_db \<Rightarrow> watch_error option \<times> watch_db" where
  "save_alerts [] db = (None, db)"
| "save_alerts (a # as) db =
     (case save_alert a db of (Inl e, db') \<Rightarrow> (Some e, db') | (Inr _, db') \<Rightarrow> save_alerts as db')"

definition previous_tail :: "(string \<Rightarrow> string) \<Rightarrow> nat \<Rightarrow> segment \<Rightarrow> watch_db \<Rightarrow> (watch_error, string) result" where
  "previous_tail sha boundary_bytes seg db =
     bind_res (get_previous_segment (sg_run_id seg) (sg_owner seg) (sg_stream seg) (sg_generation seg) (sg_start_offset seg) db)
       (\<lambda>previous. case previous of
          None \<Rightarrow> Inr []
        | Some p \<Rightarrow>
            if sg_end_offset p = sg_start_offset seg
            then bind_res (read_segment_content sha (sg_segment_id p) (sg_owner seg) db)
                   (\<lambda>content. Inr (tail_bytes boundary_bytes content))
            else Inr [])"

definition evaluate_and_save ::
    "(string \<Rightarrow> string) \<Rightarrow> env \<Rightarrow> datetime \<Rightarrow> segment \<Rightarrow> string \<Rightarrow> watch_db \<Rightarrow> watch_error option \<times> watch_db" where
  \<comment> \<open>\<open>RuntimeWatchService._evaluate_segment\<close>\<close>
  "evaluate_and_save sha env now seg content db =
     (case bind_res (previous_tail sha (ev_boundary env) seg db)
             (\<lambda>tail. evaluate_segment sha (ev_boundary env) seg content tail now) of
        Inl e \<Rightarrow> (Some e, db)
      | Inr alerts \<Rightarrow> save_alerts alerts db)"

definition store_read ::
    "(string \<Rightarrow> string) \<Rightarrow> env \<Rightarrow> watch \<Rightarrow> stream \<Rightarrow> cursor \<Rightarrow> log_read \<Rightarrow> poll \<Rightarrow> service_error option \<times> poll" where
  "store_read sha env w strm current rd p =
     (let clk = (\<lambda>label. ev_now env (wa_watch_id w) (label @ stream_value strm)) in
      if rd_content rd \<noteq> [] then
        (case draft_post_init (draft_of w strm current rd) of
           Inl e \<Rightarrow> (Some (SE_watch e), p)
         | Inr d \<Rightarrow>
             (case commit_segment sha (clk ''commit '') (po_lease p) d (rd_next rd) (po_db p) of
                (Inl e, db) \<Rightarrow> (Some (SE_watch e), p\<lparr>po_db := db\<rparr>)
              | (Inr seg, db) \<Rightarrow>
                  (case evaluate_and_save sha env (clk ''alert '') seg (rd_content rd) db of
                     (Some e, db') \<Rightarrow> (Some (SE_watch e), p\<lparr>po_db := db'\<rparr>)
                   | (None, db') \<Rightarrow>
                       let amount = int (length (rd_content rd))
                       in (None, p\<lparr>po_budget := po_budget p - amount, po_bytes := po_bytes p + amount,
                             po_total := po_total p + amount, po_db := db'\<rparr>))))
      else
        (case advance_cursor (clk ''advance '') (po_lease p) (rd_next rd) (po_db p) of
           (Inl e, db) \<Rightarrow> (Some (SE_watch e), p\<lparr>po_db := db\<rparr>)
         | (Inr _, db) \<Rightarrow> (None, p\<lparr>po_db := db\<rparr>)))"

definition poll_stream ::
    "(string \<Rightarrow> string) \<Rightarrow> env \<Rightarrow> policy \<Rightarrow> watch \<Rightarrow> log_source \<Rightarrow> stream \<Rightarrow> poll \<Rightarrow> service_error option \<times> poll" where
  "poll_stream sha env pol w src strm p =
     (let clk = (\<lambda>label. ev_now env (wa_watch_id w) (label @ stream_value strm)) in
      if po_budget p \<le> 0 then (None, p)
      else
        case renew_watch (clk ''renew '') (po_lease p) (pl_lease_seconds pol) (po_db p) of
          (Inl e, db) \<Rightarrow> (Some (SE_watch e), p\<lparr>po_db := db\<rparr>)
        | (Inr l, db) \<Rightarrow>
            let p1 = p\<lparr>po_lease := l, po_db := db\<rparr> in
            (case get_cursor (wa_run_id w) (wa_owner w) strm db of
               Inl e \<Rightarrow> (Some (SE_watch e), p1)
             | Inr current \<Rightarrow>
                 (case read_next (clk ''read '') src strm current (min (po_budget p) (pl_stream_bytes pol))
                         (ev_transport env (wa_watch_id w) (path_for src strm)) of
                    Inl e \<Rightarrow> (Some e, p1)
                  | Inr rd \<Rightarrow>
                      store_read sha env w strm current rd (p1\<lparr>po_available := po_available p \<or> rd_available rd\<rparr>))))"

definition poll_streams ::
    "(string \<Rightarrow> string) \<Rightarrow> env \<Rightarrow> policy \<Rightarrow> watch \<Rightarrow> log_source \<Rightarrow> poll \<Rightarrow> service_error option \<times> poll" where
  "poll_streams sha env pol w src p =
     (case poll_stream sha env pol w src STDOUT p of
        (Some e, p') \<Rightarrow> (Some e, p')
      | (None, p') \<Rightarrow> poll_stream sha env pol w src STDERR p')"

section \<open>One watch\<close>

definition stream_drained :: "watch \<Rightarrow> stream \<Rightarrow> watch_db \<Rightarrow> (watch_error, bool) result" where
  "stream_drained w strm db = bind_res (get_cursor (wa_run_id w) (wa_owner w) strm db)
     (\<lambda>c. Inr (cu_source_size c \<le> cu_offset c))"

definition watch_drained :: "watch \<Rightarrow> watch_db \<Rightarrow> (watch_error, bool) result" where
  "watch_drained w db =
     (if wa_state w \<noteq> W_FINALIZING then Inr False
      else bind_res (stream_drained w STDOUT db) (\<lambda>out. if out then stream_drained w STDERR db else Inr False))"

definition next_watch_state :: "watch \<Rightarrow> bool \<Rightarrow> int \<Rightarrow> bool \<Rightarrow> watch_state" where
  "next_watch_state w drained bytes available =
     (if drained then W_STOPPED
      else if wa_state w = W_FINALIZING then W_FINALIZING
      else if bytes \<noteq> 0 then W_ACTIVE
      else if available then W_QUIET_BACKOFF
      else W_WAITING_FOR_LOG)"

definition poll_delay :: "policy \<Rightarrow> watch \<Rightarrow> int \<Rightarrow> int" where
  "poll_delay pol w bytes =
     (if wa_state w = W_FINALIZING then 0 else if bytes \<noteq> 0 then pl_active_seconds pol else pl_quiet_seconds pol)"

definition settle_watch :: "env \<Rightarrow> policy \<Rightarrow> watch \<Rightarrow> poll \<Rightarrow> service_error option \<times> poll" where
  \<comment> \<open>the release at the end of the \<open>try\<close> body, with the terminal handoff\<close>
  "settle_watch env pol w p =
     (let clk = ev_now env (wa_watch_id w) in
      case watch_drained w (po_db p) of
        Inl e \<Rightarrow> (Some (SE_watch e), p)
      | Inr drained \<Rightarrow>
          (case (if drained then Some None
                 else map_option Some (add_seconds (nat (poll_delay pol w (po_bytes p))) (clk ''schedule''))) of
             None \<Rightarrow> (Some SE_overflow, p)
           | Some next_poll_at \<Rightarrow>
               (case release_watch (clk ''release'') (po_lease p)
                       (next_watch_state w drained (po_bytes p) (po_available p)) next_poll_at None (po_db p) of
                  (Inl e, db) \<Rightarrow> (Some (SE_watch e), p\<lparr>po_db := db\<rparr>)
                | (Inr _, db) \<Rightarrow>
                    let p' = p\<lparr>po_db := db\<rparr> in
                    (case ev_drained env of
                       None \<Rightarrow> (None, p')
                     | Some callback \<Rightarrow>
                         if \<not> drained then (None, p')
                         else if \<not> callback (wa_run_id w) then (Some SE_callback, p')
                         else (None, p'\<lparr>po_db := snd (acknowledge_terminal_handoff (clk ''handoff'')
                                 (wa_watch_id w) (wa_owner w) db)\<rparr>)))))"

record tick_state =
  tk_db :: watch_db
  tk_checked :: int
  tk_with_data :: int
  tk_bytes :: int
  tk_errors :: "(string \<times> service_error) list"

fun is_conflict :: "service_error \<Rightarrow> bool" where
  "is_conflict (SE_watch (W_Conflict c)) = True"
| "is_conflict e = False"

text \<open>The \<open>except Exception\<close> branch; the result is an exception of its own, if any.\<close>

definition degrade_watch :: "env \<Rightarrow> policy \<Rightarrow> watch \<Rightarrow> watch_lease \<Rightarrow> watch_db \<Rightarrow> service_error option \<times> watch_db" where
  "degrade_watch env pol w l db =
     (let clk = ev_now env (wa_watch_id w) in
      case add_seconds (nat (pl_quiet_seconds pol)) (clk ''degrade'') of
        None \<Rightarrow> (Some SE_overflow, db)
      | Some t \<Rightarrow>
          (case release_watch (clk ''release degraded'') l W_DEGRADED (Some t) (Some ''RUNTIME_WATCH_READ_ERROR'') db of
             (Inl e, db') \<Rightarrow> (if is_conflict (SE_watch e) then None else Some (SE_watch e), db')
           | (Inr _, db') \<Rightarrow> (None, db')))"

definition try_watch ::
    "(string \<Rightarrow> string) \<Rightarrow> env \<Rightarrow> policy \<Rightarrow> watch \<Rightarrow> poll \<Rightarrow> int \<Rightarrow> service_error option \<times> poll \<times> int" where
  \<comment> \<open>the \<open>try\<close> body, with the count of watches that had data\<close>
  "try_watch sha env pol w p with_data =
     (case ev_resolve env (wa_run_id w) (wa_owner w) (wa_connection_id w) of
        Inl e \<Rightarrow> (Some e, p, with_data)
      | Inr src \<Rightarrow>
          (case poll_streams sha env pol w src p of
             (Some e, p') \<Rightarrow> (Some e, p', with_data)
           | (None, p') \<Rightarrow>
               (case settle_watch env pol w p' of
                  (r, p'') \<Rightarrow> (r, p'', if po_bytes p' \<noteq> 0 then with_data + 1 else with_data))))"

definition process_watch ::
    "(string \<Rightarrow> string) \<Rightarrow> env \<Rightarrow> policy \<Rightarrow> watch \<Rightarrow> int \<Rightarrow> tick_state \<Rightarrow> service_error option \<times> int \<times> tick_state" where
  "process_watch sha env pol w budget tk =
     (case claim_watch (ev_now env (wa_watch_id w) ''claim'') (wa_watch_id w) (wa_owner w) (ev_worker env)
             (pl_lease_seconds pol) (tk_db tk) of
        (Inl e, db) \<Rightarrow> (Some (SE_watch e), budget, tk\<lparr>tk_db := db\<rparr>)
      | (Inr None, db) \<Rightarrow> (None, budget, tk\<lparr>tk_db := db\<rparr>)
      | (Inr (Some l), db) \<Rightarrow>
          (case try_watch sha env pol w \<lparr>po_lease = l, po_budget = budget, po_bytes = 0, po_total = tk_bytes tk,
                  po_available = False, po_db = db\<rparr> (tk_with_data tk) of
             (r, p, with_data) \<Rightarrow>
               let tk' = tk\<lparr>tk_db := po_db p, tk_checked := tk_checked tk + 1, tk_with_data := with_data,
                           tk_bytes := po_total p\<rparr>
               in (case r of
                     None \<Rightarrow> (None, po_budget p, tk')
                   | Some e \<Rightarrow>
                       if is_conflict e then (None, po_budget p, tk')
                       else
                         (case degrade_watch env pol w (po_lease p) (po_db p) of
                            (r', db') \<Rightarrow> (r', po_budget p,
                              tk'\<lparr>tk_db := db', tk_errors := tk_errors tk' @ [(wa_run_id w, e)]\<rparr>)))))"

section \<open>The tick\<close>

fun watch_loop ::
    "(string \<Rightarrow> string) \<Rightarrow> env \<Rightarrow> policy \<Rightarrow> watch list \<Rightarrow> int \<Rightarrow> tick_state \<Rightarrow> service_error option \<times> tick_state" where
  "watch_loop sha env pol [] budget tk = (None, tk)"
| "watch_loop sha env pol (w # ws) budget tk =
     (if budget \<le> 0 then (None, tk)
      else case process_watch sha env pol w budget tk of
             (Some e, _, tk') \<Rightarrow> (Some e, tk')
           | (None, budget', tk') \<Rightarrow> watch_loop sha env pol ws budget' tk')"

fun connection_loop ::
    "(string \<Rightarrow> string) \<Rightarrow> env \<Rightarrow> policy \<Rightarrow> watch list \<Rightarrow> string list \<Rightarrow> tick_state \<Rightarrow> service_error option \<times> tick_state" where
  "connection_loop sha env pol due [] tk = (None, tk)"
| "connection_loop sha env pol due (c # cs) tk =
     (if \<not> ev_connect env c then (Some (SE_runtime ''connection''), tk)
      else case watch_loop sha env pol (filter (\<lambda>w. wa_connection_id w = c) due) (pl_connection_bytes pol) tk of
             (Some e, tk') \<Rightarrow> (Some e, tk')
           | (None, tk') \<Rightarrow> connection_loop sha env pol due cs tk')"

fun handoff_loop :: "env \<Rightarrow> (string \<Rightarrow> bool) \<Rightarrow> watch list \<Rightarrow> tick_state \<Rightarrow> tick_state" where
  "handoff_loop env callback [] tk = tk"
| "handoff_loop env callback (w # ws) tk =
     (if callback (wa_run_id w) then
        handoff_loop env callback ws (tk\<lparr>tk_db := snd (acknowledge_terminal_handoff
          (ev_now env (wa_watch_id w) ''stopped'') (wa_watch_id w) (wa_owner w) (tk_db tk))\<rparr>)
      else handoff_loop env callback ws (tk\<lparr>tk_errors := tk_errors tk @ [(wa_run_id w, SE_callback)]\<rparr>))"

definition tick ::
    "(string \<Rightarrow> string) \<Rightarrow> env \<Rightarrow> policy \<Rightarrow> watch_db \<Rightarrow> service_error option \<times> tick_state" where
  "tick sha env pol db =
     (let start = \<lparr>tk_db = db, tk_checked = 0, tk_with_data = 0, tk_bytes = 0, tk_errors = []\<rparr> in
      case (case ev_drained env of
              None \<Rightarrow> Inr start
            | Some callback \<Rightarrow>
                (case list_stopped_watches (pl_max_watches pol) db of
                   Inl e \<Rightarrow> Inl e
                 | Inr stopped \<Rightarrow> Inr (handoff_loop env callback (map fst stopped) start))) of
        Inl e \<Rightarrow> (Some (SE_watch e), start)
      | Inr tk \<Rightarrow>
          (case list_due_watches (ev_now env [] ''due'') (pl_max_watches pol) (tk_db tk) of
             Inl e \<Rightarrow> (Some (SE_watch e), tk)
           | Inr due \<Rightarrow>
               let ws = map fst due
               in connection_loop sha env pol ws
                    (take (nat (pl_max_connections pol)) (sort (remdups (map wa_connection_id ws)))) tk))"

end
