(* ===== verification/WatchSafety.thy ===== *)
theory WatchSafety
  imports WatchStore
begin

text \<open>
  What the runtime watch store keeps: the watch rows are a \<open>row_machine\<close> with fenced leases, the
  cursors of a run's streams are unique, the committed segments of each generation tile the log up
  to the cursor, and every segment's content is on disk.
\<close>

section \<open>Steps\<close>

inductive watch_step :: "(string \<Rightarrow> string) \<Rightarrow> watch_db \<Rightarrow> watch_db \<Rightarrow> bool" for sha where
  w_create: "watch_step sha db (snd (create_watch sha now run_id owner connection_id db))"
| w_claim: "watch_step sha db (snd (claim_watch now watch_id owner worker_id n db))"
| w_renew: "watch_step sha db (snd (renew_watch now l n db))"
| w_release: "watch_step sha db (snd (release_watch now l st next_poll_at error_code db))"
| w_drain: "watch_step sha db (snd (schedule_terminal_drain now run_id owner db))"
| w_handoff: "watch_step sha db (snd (acknowledge_terminal_handoff now watch_id owner db))"
| w_commit: "watch_step sha db (snd (commit_segment sha now l d next db))"
| w_advance: "watch_step sha db (snd (advance_cursor now l next db))"
| w_alert: "watch_step sha db (snd (save_alert a db))"

inductive watch_row_step :: "watch_row \<Rightarrow> watch_row \<Rightarrow> bool" where
  wr_claim: "watch_claimable now watch_id owner r \<Longrightarrow> watch_row_step r (upd_watch_claim worker_id expires now r)"
| wr_renew: "watch_lease_row now l r \<Longrightarrow> watch_row_step r (upd_watch_renew expires now r)"
| wr_release: "watch_lease_row now l r \<Longrightarrow> watch_row_step r (upd_watch_release now st next_poll_at error_code r)"
| wr_drain: "drainable run_id owner r \<Longrightarrow> watch_row_step r (upd_drain now r)"
| wr_handoff: "handoff_pending watch_id owner r \<Longrightarrow> watch_row_step r (upd_handoff now r)"

lemmas watch_upd_defs = upd_watch_claim_def upd_watch_renew_def upd_watch_release_def upd_drain_def upd_handoff_def

lemma watch_row_step_id: "watch_row_step r r' \<Longrightarrow> wr_id r' = wr_id r"
  by (induction rule: watch_row_step.induct) (simp_all add: watch_upd_defs)

lemma watch_row_step_run: "watch_row_step r r' \<Longrightarrow>
    wa_run_id (wr_watch r') = wa_run_id (wr_watch r) \<and> wa_owner (wr_watch r') = wa_owner (wr_watch r)"
  by (induction rule: watch_row_step.induct) (simp_all add: watch_upd_defs)

definition watch_inv :: "watch_row \<Rightarrow> bool" where
  "watch_inv r \<longleftrightarrow>
     (wa_lease_owner (wr_watch r) = None \<longleftrightarrow> wa_lease_expires_at (wr_watch r) = None) \<and>
     (wa_state (wr_watch r) = W_STOPPED \<longrightarrow> wa_lease_owner (wr_watch r) = None) \<and>
     (wa_state (wr_watch r) = W_STOPPED \<longleftrightarrow> wa_stopped_at (wr_watch r) \<noteq> None) \<and>
     (wr_handoff_at r \<noteq> None \<longrightarrow> wa_state (wr_watch r) = W_STOPPED) \<and>
     0 \<le> wa_fencing_token (wr_watch r) \<and> wa_fencing_token (wr_watch r) \<le> wa_version (wr_watch r)"

definition fresh_watch :: "watch_row \<Rightarrow> bool" where
  "fresh_watch r \<longleftrightarrow> (\<exists>now watch_id run_id owner c. r = new_watch_row now watch_id run_id owner c)"

lemma fresh_watch_inv: "fresh_watch r \<Longrightarrow> watch_inv r"
  by (auto simp: fresh_watch_def watch_inv_def new_watch_row_def)

lemma watch_inv_step: "watch_inv r \<Longrightarrow> watch_row_step r r' \<Longrightarrow> watch_inv r'"
  by (erule watch_row_step.cases)
    (auto simp: watch_inv_def watch_upd_defs watch_claimable_def watch_lease_row_def drainable_def
      handoff_pending_def)

section \<open>The watch rows\<close>

definition watch_moves :: "watch_row list \<Rightarrow> watch_row list \<Rightarrow> bool" where
  "watch_moves s t \<longleftrightarrow> t = s \<or>
     (\<exists>r. fresh_watch r \<and> wr_id r \<notin> wr_id ` set s \<and> t = s @ [r]) \<or>
     (\<exists>r r'. r \<in> set s \<and> watch_row_step r r' \<and> t = put_row wr_id r' s)"

lemma watch_moves_refl [simp]: "watch_moves s s"
  by (simp add: watch_moves_def)

lemma watch_moves_update:
  assumes "keyed wr_id s" and "\<And>x. p x \<Longrightarrow> wr_id x = k" and "\<And>r. p r \<Longrightarrow> watch_row_step r (f r)"
  shows "watch_moves s (sql_update p f s)"
proof (cases "fetchone p s")
  case None
  then have "sql_update p f s = s" by (simp add: fetchone_None sql_update_none)
  then show ?thesis by simp
next
  case (Some r)
  then have r: "r \<in> set s" "p r" using fetchone_Some by fast+
  then have "watch_row_step r (f r)" using assms(3) by blast
  then have "sql_update p f s = put_row wr_id (f r) s"
    using sql_update_fetched [OF assms(1,2) Some, of f] watch_row_step_id by blast
  with r \<open>watch_row_step r (f r)\<close> show ?thesis by (auto simp: watch_moves_def)
qed

text \<open>Two watches never share owner and run: \<open>UNIQUE (owner, run_id)\<close>.\<close>

definition run_key :: "watch_row \<Rightarrow> string \<times> string" where
  "run_key r = (wa_owner (wr_watch r), wa_run_id (wr_watch r))"

lemma keyed_pin: "keyed key s \<Longrightarrow> r \<in> set s \<Longrightarrow> x \<in> set s \<Longrightarrow> key x = key r \<Longrightarrow> x = r"
  by (rule keyed_eqI)

lemma drain_moves:
  assumes "keyed wr_id s" and "keyed run_key s"
  shows "watch_moves s (sql_update (drainable run_id owner) (upd_drain now) s)"
proof (cases "fetchone (drainable run_id owner) s")
  case None
  then have "sql_update (drainable run_id owner) (upd_drain now) s = s"
    by (simp add: fetchone_None sql_update_none)
  then show ?thesis by simp
next
  case (Some r)
  then have r: "r \<in> set s" "drainable run_id owner r" using fetchone_Some by fast+
  have "(if drainable run_id owner x then upd_drain now x else x) =
      (if wr_id x = wr_id r then upd_drain now r else x)" if "x \<in> set s" for x
    using keyed_pin [OF assms(1) r(1) that] keyed_pin [OF assms(2) r(1) that] r(2)
    by (auto simp: drainable_def run_watch_def run_key_def)
  then have "sql_update (drainable run_id owner) (upd_drain now) s = put_row wr_id (upd_drain now r) s"
    by (simp add: sql_update_def put_row_def) (simp add: upd_drain_def)
  with r show ?thesis by (auto simp: watch_moves_def intro: wr_drain)
qed

lemma run_key_upd:
  "run_key (upd_watch_claim w e now r) = run_key r" "run_key (upd_watch_renew e now r) = run_key r"
  "run_key (upd_watch_release now st np ec r) = run_key r" "run_key (upd_drain now r) = run_key r"
  "run_key (upd_handoff now r) = run_key r"
  by (simp_all add: run_key_def watch_upd_defs)

lemma watch_updates_keyed:
  "keyed run_key (sql_update p (upd_watch_claim w e now) s) = keyed run_key s"
  "keyed run_key (sql_update p (upd_watch_renew e now) s) = keyed run_key s"
  "keyed run_key (sql_update p (upd_watch_release now st np ec) s) = keyed run_key s"
  "keyed run_key (sql_update p (upd_drain now) s) = keyed run_key s"
  "keyed run_key (sql_update p (upd_handoff now) s) = keyed run_key s"
  "keyed wr_id (sql_update p (upd_watch_claim w e now) s) = keyed wr_id s"
  "keyed wr_id (sql_update p (upd_watch_renew e now) s) = keyed wr_id s"
  "keyed wr_id (sql_update p (upd_watch_release now st np ec) s) = keyed wr_id s"
  "keyed wr_id (sql_update p (upd_drain now) s) = keyed wr_id s"
  "keyed wr_id (sql_update p (upd_handoff now) s) = keyed wr_id s"
  by (simp_all add: keyed_sql_update run_key_upd) (simp_all add: keyed_sql_update watch_upd_defs)

definition watches_ok :: "watch_row list \<Rightarrow> bool" where
  "watches_ok s \<longleftrightarrow> keyed wr_id s \<and> keyed run_key s"

lemma create_watches:
  "db_watches (snd (create_watch sha now run_id owner c db)) = db_watches db \<or>
   (\<exists>r. fresh_watch r \<and> wr_id r \<notin> wr_id ` set (db_watches db) \<and> run_key r \<notin> run_key ` set (db_watches db) \<and>
     db_watches (snd (create_watch sha now run_id owner c db)) = db_watches db @ [r])"
proof (cases "fetchone (run_watch run_id owner) (db_watches db)")
  case (Some r)
  then show ?thesis by (simp add: create_watch_def Let_def split: option.splits)
next
  case None
  let ?r = "new_watch_row now (watch_id_of sha run_id owner) run_id owner c"
  have "fresh_watch ?r" unfolding fresh_watch_def by blast
  moreover have "run_key ?r \<notin> run_key ` set (db_watches db)"
    using None by (auto simp: fetchone_None run_watch_def run_key_def new_watch_row_def)
  moreover have "wr_id ?r = watch_id_of sha run_id owner" by (simp add: new_watch_row_def)
  ultimately show ?thesis
    using None by (auto simp: create_watch_def Let_def image_iff split: option.split if_splits)
qed

lemma content_watches: "db_watches (snd (write_content sha h c db)) = db_watches db"
  "db_cursors (snd (write_content sha h c db)) = db_cursors db"
  "db_segments (snd (write_content sha h c db)) = db_segments db"
  by (simp_all add: write_content_def split: option.split)

lemma transaction_watches: "db_watches (snd (commit_transaction now l d next cand db)) = db_watches db"
  unfolding commit_transaction_def
  by (simp del: first_failure.simps split: option.split sum.split)

text \<open>The ways a \<open>commit_segment\<close> can end: refused arguments, a content or record error after the
  content file, or the transaction.\<close>

lemma commit_segment_cases:
  obtains (refused) e where "commit_segment sha now l d next db = (Inl e, db)"
  | (failed) e where "commit_segment sha now l d next db =
      (Inl e, snd (write_content sha (sha (dr_content d)) (dr_content d) db))"
  | (transaction) "is_instance watch_lease_post_init l" "is_instance draft_post_init d"
      "is_instance cursor_post_init next" "segment_post_init (candidate_segment sha now l d) = Inr (candidate_segment sha now l d)"
      "fst (write_content sha (sha (dr_content d)) (dr_content d) db) = Inr ()"
      "commit_segment sha now l d next db = commit_transaction now l d next (candidate_segment sha now l d)
        (snd (write_content sha (sha (dr_content d)) (dr_content d) db))"
proof (cases "write_content sha (sha (dr_content d)) (dr_content d) db")
  case (Pair r db1)
  let ?args = "first_failure [(is_instance watch_lease_post_init l, W_Type ''lease''),
         (is_instance draft_post_init d, W_Type ''segment''),
         (is_instance cursor_post_init next, W_Type ''next_cursor'')]"
  show ?thesis
  proof (cases ?args)
    case (Some e)
    then show ?thesis using refused by (simp add: commit_segment_def del: first_failure.simps)
  next
    case None
    then have inst: "is_instance watch_lease_post_init l" "is_instance draft_post_init d"
      "is_instance cursor_post_init next" by (simp_all only: first_failure_None list.pred_inject fst_conv)
    show ?thesis
    proof (cases r)
      case (Inl e)
      then show ?thesis using failed Pair inst by (simp add: commit_segment_def)
    next
      case (Inr u)
      show ?thesis
      proof (cases "segment_post_init (candidate_segment sha now l d)")
        case (Inl e)
        with Inr show ?thesis using failed Pair inst by (simp add: commit_segment_def)
      next
        case S: (Inr cand)
        then have "cand = candidate_segment sha now l d" by (simp add: segment_post_init_def)
        with Inr S show ?thesis using transaction Pair inst by (simp add: commit_segment_def)
      qed
    qed
  qed
qed

lemma commit_watches: "db_watches (snd (commit_segment sha now l d next db)) = db_watches db"
  by (cases rule: commit_segment_cases [of sha now l d "next" db])
    (simp_all add: transaction_watches content_watches)

lemma advance_watches: "db_watches (snd (advance_cursor now l next db)) = db_watches db"
  unfolding advance_cursor_def
  by (simp del: first_failure.simps split: option.split sum.split)

lemma alert_frame: "db_watches (snd (save_alert a db)) = db_watches db"
  "db_cursors (snd (save_alert a db)) = db_cursors db" "db_segments (snd (save_alert a db)) = db_segments db"
  "db_contents (snd (save_alert a db)) = db_contents db"
  unfolding save_alert_def by (simp_all add: Let_def del: first_failure.simps split: option.split)

lemma lease_row_pin: "watch_lease_row now l x \<Longrightarrow> wr_id x = wl_watch_id l"
  by (simp add: watch_lease_row_def)

lemma watch_step_moves:
  assumes "watches_ok (db_watches db)" and "watch_step sha db db'"
  shows "watch_moves (db_watches db) (db_watches db') \<and> watches_ok (db_watches db')"
proof -
  have k: "keyed wr_id (db_watches db)" "keyed run_key (db_watches db)"
    using assms(1) by (simp_all add: watches_ok_def)
  show ?thesis
    using assms(2)
  proof cases
    case (w_create now run_id owner connection_id)
    then show ?thesis
      using create_watches [of sha now run_id owner connection_id db] k
      by (auto simp: watches_ok_def watch_moves_def intro: keyed_append)
  next
    case (w_claim now watch_id owner worker_id n)
    have "watch_moves (db_watches db) (sql_update (watch_claimable now watch_id owner) (upd_watch_claim worker_id e now) (db_watches db))" for e
      using k(1) by (rule watch_moves_update [where k = watch_id])
        (auto simp: watch_claimable_def owned_watch_def intro: wr_claim [unfolded watch_claimable_def owned_watch_def])
    with k w_claim show ?thesis
      by (auto simp: claim_watch_def Let_def watches_ok_def watch_updates_keyed split: option.split)
  next
    case (w_renew now l n)
    have "watch_moves (db_watches db) (sql_update (watch_lease_row now l) (upd_watch_renew e now) (db_watches db))" for e
      using watch_moves_update [OF k(1) lease_row_pin wr_renew] .
    with k w_renew show ?thesis
      by (auto simp: renew_watch_def Let_def watches_ok_def watch_updates_keyed split: option.split)
  next
    case (w_release now l st np ec)
    have "watch_moves (db_watches db) (sql_update (watch_lease_row now l) (upd_watch_release now st np ec) (db_watches db))"
      using watch_moves_update [OF k(1) lease_row_pin wr_release] .
    with k w_release show ?thesis
      by (auto simp: release_watch_def Let_def watches_ok_def watch_updates_keyed split: option.split)
  next
    case (w_drain now run_id owner)
    with k drain_moves [OF k, of run_id owner now] show ?thesis
      by (simp add: schedule_terminal_drain_def watches_ok_def watch_updates_keyed)
  next
    case (w_handoff now watch_id owner)
    have "watch_moves (db_watches db) (sql_update (handoff_pending watch_id owner) (upd_handoff now) (db_watches db))"
      using k(1) by (rule watch_moves_update [where k = watch_id])
        (auto simp: handoff_pending_def owned_watch_def intro: wr_handoff [unfolded handoff_pending_def owned_watch_def])
    with k w_handoff show ?thesis
      by (simp add: acknowledge_terminal_handoff_def watches_ok_def watch_updates_keyed)
  qed (use assms(1) in \<open>simp_all add: commit_watches advance_watches alert_frame\<close>)
qed


lemma watch_moves_cases:
  "table_ok wr_id watch_inv s \<Longrightarrow> watch_moves s t \<Longrightarrow> t = s \<or> (\<exists>r. fresh_watch r \<and> wr_id r \<notin> wr_id ` set s \<and> t = s @ [r]) \<or>
     (\<exists>r r'. r \<in> set s \<and> watch_row_step r r' \<and> t = put_row wr_id r' s)"
  by (simp add: watch_moves_def)

interpretation watches: row_machine wr_id fresh_watch watch_inv watch_row_step watch_moves
  by unfold_locales (fact watch_row_step_id fresh_watch_inv watch_inv_step watch_moves_cases)+

definition watch_rows_ok :: "watch_db \<Rightarrow> bool" where
  "watch_rows_ok db \<longleftrightarrow> watches_ok (db_watches db) \<and> table_ok wr_id watch_inv (db_watches db)"

lemma watch_rows_step:
  assumes "watch_rows_ok db" and "watch_step sha db db'"
  shows "watch_rows_ok db'"
proof -
  have "watch_moves (db_watches db) (db_watches db')" and ok: "watches_ok (db_watches db')"
    using watch_step_moves [OF _ assms(2)] assms(1) by (simp_all add: watch_rows_ok_def)
  then have "table_ok wr_id watch_inv (db_watches db')"
    using watches.tstep_ok [of "db_watches db"] assms(1) by (simp add: watch_rows_ok_def)
  with ok show ?thesis by (simp add: watch_rows_ok_def)
qed

lemma watch_run_moves:
  "(watch_step sha)\<^sup>*\<^sup>* db db' \<Longrightarrow> watch_rows_ok db \<Longrightarrow>
     watch_moves\<^sup>*\<^sup>* (db_watches db) (db_watches db') \<and> watch_rows_ok db'"
proof (induction rule: rtranclp_induct)
  case (step t u)
  then have t: "watch_moves\<^sup>*\<^sup>* (db_watches db) (db_watches t)" "watch_rows_ok t" by simp_all
  then have "watch_moves (db_watches t) (db_watches u)"
    using watch_step_moves [OF _ step.hyps(2)] by (simp add: watch_rows_ok_def)
  with t watch_rows_step [OF t(2) step.hyps(2)] show ?case by (simp add: rtranclp.rtrancl_into_rtrancl)
qed simp

section \<open>Fencing\<close>

definition watch_token :: "string \<Rightarrow> watch_db \<Rightarrow> int" where
  "watch_token k db = row_measure wr_id 0 (\<lambda>r. wa_fencing_token (wr_watch r)) k (db_watches db)"

definition watch_held :: "watch_lease \<Rightarrow> watch_row \<Rightarrow> bool" where
  "watch_held l r \<longleftrightarrow> wr_id r = wl_watch_id l \<and> wa_lease_owner (wr_watch r) = Some (wl_worker_id l) \<and>
     wa_fencing_token (wr_watch r) = wl_fencing_token l \<and> wa_version (wr_watch r) = wl_version l"

definition holds_watch :: "string \<Rightarrow> watch_lease \<Rightarrow> watch_db \<Rightarrow> bool" where
  "holds_watch k l db \<longleftrightarrow> wl_watch_id l = k \<and> (\<exists>r \<in> set (db_watches db). watch_held l r)"

definition claims_watch :: "string \<Rightarrow> watch_lease \<Rightarrow> watch_db \<Rightarrow> watch_db \<Rightarrow> bool" where
  "claims_watch k l db db' \<longleftrightarrow> (\<exists>now owner w n. claim_watch now k owner w n db = (Inr (Some l), db'))"

lemma watch_row_token: "watch_row_step r r' \<Longrightarrow> wa_fencing_token (wr_watch r) \<le> wa_fencing_token (wr_watch r')"
  by (induction rule: watch_row_step.induct) (simp_all add: watch_upd_defs)

lemma watch_token_step:
  assumes "watch_rows_ok db" and "watch_step sha db db'"
  shows "watch_token k db \<le> watch_token k db'"
  unfolding watch_token_def
proof (rule watches.tstep_measure)
  show "table_ok wr_id watch_inv (db_watches db)" using assms(1) by (simp add: watch_rows_ok_def)
  show "watch_moves (db_watches db) (db_watches db')"
    using watch_step_moves [OF _ assms(2)] assms(1) by (simp add: watch_rows_ok_def)
qed (auto simp: watch_row_token fresh_watch_def new_watch_row_def)

lemma claim_watchE:
  assumes "claim_watch now k owner w n db = (Inr (Some l), db')" and "watch_rows_ok db"
  obtains r expires where "row_of wr_id k (db_watches db) = Some r" and "watch_claimable now k owner r"
    and "db_watches db' = put_row wr_id (upd_watch_claim w expires now r) (db_watches db)"
    and "wl_watch_id l = k" and "wl_fencing_token l = wa_fencing_token (wr_watch r) + 1"
    and "wl_version l = wa_version (wr_watch r) + 1" and "wl_worker_id l = w"
    and "add_seconds (nat n) now = Some expires"
proof -
  from assms(1) obtain r expires where r: "fetchone (watch_claimable now k owner) (db_watches db) = Some r"
    and e: "add_seconds (nat n) now = Some expires"
    and db': "db_watches db' = sql_update (watch_claimable now k owner) (upd_watch_claim w expires now) (db_watches db)"
    and l: "wl_watch_id l = wr_id r" "wl_fencing_token l = wa_fencing_token (wr_watch r) + 1"
      "wl_version l = wa_version (wr_watch r) + 1" "wl_worker_id l = w"
    by (auto simp: claim_watch_def Let_def bind_res_Inr_iff watch_lease_post_init_def upd_watch_claim_def
        split: option.splits if_splits)
  have key: "keyed wr_id (db_watches db)" using assms(2) by (simp add: watch_rows_ok_def watches_ok_def)
  have pin: "watch_claimable now k owner x \<Longrightarrow> wr_id x = k" for x by (simp add: watch_claimable_def owned_watch_def)
  have c: "watch_claimable now k owner r" using fetchone_Some [OF r] by simp
  have "row_of wr_id k (db_watches db) = Some r" using fetchone_row_of(1) [OF key r] pin [OF c] by simp
  moreover have "db_watches db' = put_row wr_id (upd_watch_claim w expires now r) (db_watches db)"
    using sql_update_fetched [OF key pin r, of "upd_watch_claim w expires now"] db' by (simp add: upd_watch_claim_def)
  ultimately show ?thesis using that c e l pin [OF c] by blast
qed

interpretation watch_lease: fenced_lease watch_rows_ok "watch_step sha" watch_token wl_fencing_token
  holds_watch claims_watch for sha
proof (unfold_locales, goal_cases)
  case (1 s t)
  then show ?case by (rule watch_rows_step)
next
  case (2 s t k)
  then show ?case by (rule watch_token_step)
next
  case (3 s k l)
  then obtain r where r: "r \<in> set (db_watches s)" "watch_held l r" "wl_watch_id l = k"
    by (auto simp: holds_watch_def)
  then have "row_of wr_id k (db_watches s) = Some r"
    using 3(1) by (simp add: row_of_Some_iff watch_rows_ok_def watches_ok_def watch_held_def)
  with r show ?case by (simp add: watch_token_def row_measure_def watch_held_def)
next
  case (4 s k l t)
  then obtain now owner w n where "claim_watch now k owner w n s = (Inr (Some l), t)"
    by (auto simp: claims_watch_def)
  then show ?case using w_claim [of sha s now k owner w n] by simp
next
  case (5 s k l t)
  then obtain now owner w n where "claim_watch now k owner w n s = (Inr (Some l), t)"
    by (auto simp: claims_watch_def)
  then show ?case
    using 5(1)
    by (rule claim_watchE)
      (auto simp: watch_token_def row_measure_def row_of_put_row upd_watch_claim_def dest: row_of_SomeD)
qed

lemma unheld_watch_row: "\<not> holds_watch (wl_watch_id l) l db \<Longrightarrow> r \<in> set (db_watches db) \<Longrightarrow> \<not> watch_lease_row now l r"
  by (auto simp: holds_watch_def watch_held_def watch_lease_row_def)

lemma unheld_watch:
  assumes "\<not> holds_watch (wl_watch_id l) l db"
  shows "fetchone (watch_lease_row now l) (db_watches db) = None" and "rowcount (watch_lease_row now l) (db_watches db) = 0"
  unfolding fetchone_None rowcount_zero using unheld_watch_row [OF assms] by blast+

lemma unheld_watch_writes:
  assumes "\<not> holds_watch (wl_watch_id l) l db"
  shows "snd (renew_watch now l n db) = db" and "snd (release_watch now l st np ec db) = db"
    and "snd (advance_cursor now l next db) = db"
    and "fst (commit_segment sha now l d next db) \<noteq> Inr seg"
    and "db_segments (snd (commit_segment sha now l d next db)) = db_segments db"
    and "db_cursors (snd (commit_segment sha now l d next db)) = db_cursors db"
proof -
  note none = unheld_watch [OF assms]
  show "snd (renew_watch now l n db) = db"
    by (simp add: renew_watch_def Let_def none split: option.split)
  show "snd (release_watch now l st np ec db) = db"
    by (simp add: release_watch_def Let_def none split: option.split)
  show "snd (advance_cursor now l next db) = db"
    by (simp add: advance_cursor_def none split: option.split)
  have trans: "commit_transaction now l d next cand (snd (write_content sha h c db)) =
      (Inl (W_Conflict WC_lease), snd (write_content sha h c db))" for cand h c
    by (simp add: commit_transaction_def content_watches none)
  show "fst (commit_segment sha now l d next db) \<noteq> Inr seg"
    by (cases rule: commit_segment_cases [of sha now l d "next" db]) (simp_all add: trans)
  show "db_segments (snd (commit_segment sha now l d next db)) = db_segments db"
    by (cases rule: commit_segment_cases [of sha now l d "next" db]) (simp_all add: trans content_watches)
  show "db_cursors (snd (commit_segment sha now l d next db)) = db_cursors db"
    by (cases rule: commit_segment_cases [of sha now l d "next" db]) (simp_all add: trans content_watches)
qed

end
