(* ===== verification/WatchLog.thy ===== *)
theory WatchLog
  imports WatchSafety
begin

text \<open>
  The log a watch has committed. For every stream of a run and every generation, the segments in the
  order they were committed tile the byte range from 0, without gap or overlap, up to the cursor's
  offset in its current generation; and the content of every segment is on disk under its digest.
\<close>

section \<open>Tiling\<close>

definition ors :: "cursor_row \<Rightarrow> string \<times> string \<times> stream" where
  "ors r = (cu_owner (cr_cursor r), cu_run_id (cr_cursor r), cu_stream (cr_cursor r))"

definition seg_ors :: "segment \<Rightarrow> string \<times> string \<times> stream" where
  "seg_ors s = (sg_owner s, sg_run_id s, sg_stream s)"

fun tiles :: "int \<Rightarrow> segment list \<Rightarrow> int option" where
  \<comment> \<open>where a contiguous sequence of non-empty segments that starts at \<open>n\<close> ends\<close>
  "tiles n [] = Some n"
| "tiles n (s # ss) = (if sg_start_offset s = n \<and> n < sg_end_offset s then tiles (sg_end_offset s) ss else None)"

lemma tiles_append: "tiles n (ss @ ts) = (case tiles n ss of None \<Rightarrow> None | Some m \<Rightarrow> tiles m ts)"
  by (induction n ss rule: tiles.induct) auto

definition generation_segments :: "cursor_row \<Rightarrow> int \<Rightarrow> segment list \<Rightarrow> segment list" where
  "generation_segments r g segs = filter (\<lambda>s. seg_ors s = ors r \<and> sg_generation s = g) segs"

definition tiled :: "segment list \<Rightarrow> cursor_row \<Rightarrow> bool" where
  "tiled segs r \<longleftrightarrow> (\<forall>g.
     (cu_generation (cr_cursor r) < g \<longrightarrow> generation_segments r g segs = []) \<and>
     (g = cu_generation (cr_cursor r) \<longrightarrow> tiles 0 (generation_segments r g segs) = Some (cu_offset (cr_cursor r))) \<and>
     (g < cu_generation (cr_cursor r) \<longrightarrow> tiles 0 (generation_segments r g segs) \<noteq> None))"

lemma tiledI:
  assumes "\<And>g. cu_generation (cr_cursor r) < g \<Longrightarrow> generation_segments r g segs = []"
    and "tiles 0 (generation_segments r (cu_generation (cr_cursor r)) segs) = Some (cu_offset (cr_cursor r))"
    and "\<And>g. g < cu_generation (cr_cursor r) \<Longrightarrow> tiles 0 (generation_segments r g segs) \<noteq> None"
  shows "tiled segs r"
  using assms by (auto simp: tiled_def)

lemma tiledD:
  assumes "tiled segs r"
  shows "cu_generation (cr_cursor r) < g \<Longrightarrow> generation_segments r g segs = []"
    and "tiles 0 (generation_segments r (cu_generation (cr_cursor r)) segs) = Some (cu_offset (cr_cursor r))"
    and "g < cu_generation (cr_cursor r) \<Longrightarrow> tiles 0 (generation_segments r g segs) \<noteq> None"
  using assms by (auto simp: tiled_def)

definition log_inv :: "watch_db \<Rightarrow> bool" where
  "log_inv db \<longleftrightarrow> keyed ors (db_cursors db) \<and>
     list_all (tiled (db_segments db)) (db_cursors db) \<and>
     (\<forall>s \<in> set (db_segments db). \<exists>r \<in> set (db_cursors db). ors r = seg_ors s)"

lemma log_inv_same:
  "db_cursors db' = db_cursors db \<Longrightarrow> db_segments db' = db_segments db \<Longrightarrow> log_inv db' = log_inv db"
  by (simp add: log_inv_def)

lemma generation_segments_ors: "ors r' = ors r \<Longrightarrow> generation_segments r' g segs = generation_segments r g segs"
  by (simp add: generation_segments_def)

lemma generation_segments_append:
  "generation_segments r g (segs @ [s]) =
     generation_segments r g segs @ (if seg_ors s = ors r \<and> sg_generation s = g then [s] else [])"
  by (simp add: generation_segments_def)

lemma upd_cursor_fields:
  "ors (upd_cursor next r) = ors r" "cu_generation (cr_cursor (upd_cursor next r)) = cu_generation next"
  "cu_offset (cr_cursor (upd_cursor next r)) = cu_offset next"
  by (simp_all add: upd_cursor_def ors_def)

section \<open>Steps keep the tiling\<close>

lemma log_inv_insert:
  assumes inv: "keyed ors rows" "list_all (tiled segs) rows" "\<forall>s \<in> set segs. \<exists>r \<in> set rows. ors r = seg_ors s"
    and fresh: "cr_cursor r = initial_cursor run_id owner strm" "\<not> (\<exists>x \<in> set rows. cursor_clash x r)"
  shows "keyed ors (insert_ignore same_cursor_key r rows) \<and>
    list_all (tiled segs) (insert_ignore same_cursor_key r rows) \<and>
    (\<forall>s \<in> set segs. \<exists>x \<in> set (insert_ignore same_cursor_key r rows). ors x = seg_ors s)"
proof (cases "\<exists>x \<in> set rows. same_cursor_key x r")
  case True
  with inv show ?thesis by (simp add: insert_ignore_def)
next
  case False
  have new: "ors r \<notin> ors ` set rows"
  proof
    assume "ors r \<in> ors ` set rows"
    then obtain x where "x \<in> set rows" "ors x = ors r" by auto
    with fresh(2) False show False
      by (cases "cr_watch_id x = cr_watch_id r") (auto simp: cursor_clash_def same_cursor_key_def ors_def)
  qed
  have "generation_segments r g segs = []" for g
  proof -
    have "seg_ors s \<noteq> ors r" if "s \<in> set segs" for s
      using inv(3) that new by (metis image_eqI)
    then show ?thesis by (auto simp: generation_segments_def filter_empty_conv)
  qed
  then have "tiled segs r" using fresh(1) by (simp add: tiled_def initial_cursor_def)
  with inv new False show ?thesis by (auto simp: insert_ignore_def intro: keyed_append)
qed

lemma create_log:
  assumes "log_inv db"
  shows "log_inv (snd (create_watch sha now run_id owner c db))"
proof -
  let ?out = "\<lparr>cr_watch_id = watch_id_of sha run_id owner, cr_cursor = initial_cursor run_id owner STDOUT\<rparr>"
  let ?err = "\<lparr>cr_watch_id = watch_id_of sha run_id owner, cr_cursor = initial_cursor run_id owner STDERR\<rparr>"
  let ?rows = "insert_ignore same_cursor_key ?out (db_cursors db)"
  have "log_inv (db\<lparr>db_watches := ws, db_cursors := insert_ignore same_cursor_key ?err ?rows\<rparr>)"
    if clash: "\<not> (\<exists>x \<in> set (db_cursors db). cursor_clash x ?out \<or> cursor_clash x ?err)" for ws
  proof -
    have one: "keyed ors ?rows \<and> list_all (tiled (db_segments db)) ?rows \<and>
        (\<forall>s \<in> set (db_segments db). \<exists>x \<in> set ?rows. ors x = seg_ors s)"
      using log_inv_insert [of "db_cursors db" "db_segments db" ?out] assms clash by (simp add: log_inv_def)
    have "\<not> (\<exists>x \<in> set ?rows. cursor_clash x ?err)"
      using clash by (auto simp: insert_ignore_def cursor_clash_def)
    then show ?thesis
      using log_inv_insert [of ?rows "db_segments db" ?err] one by (simp add: log_inv_def)
  qed
  with assms show ?thesis
    by (simp add: create_watch_def Let_def first_failure_None del: first_failure.simps split: option.split)
qed

lemma cursor_put:
  assumes "keyed ors rows" and "rowcount (cursor_where watch_id v next) rows = 1"
    and "r \<in> set rows" and "ors r = (cu_owner next, cu_run_id next, cu_stream next)"
  shows "sql_update (cursor_where watch_id v next) (upd_cursor next) rows = put_row ors (upd_cursor next r) rows"
proof -
  have pin: "cursor_where watch_id v next x \<Longrightarrow> ors x = (cu_owner next, cu_run_id next, cu_stream next)" for x
    by (simp add: cursor_where_def ors_def)
  obtain x where x: "x \<in> set rows" "cursor_where watch_id v next x"
    using assms(2) rowcount_pos [of "cursor_where watch_id v next" rows] by auto
  then have "x = r" using keyed_eqI [OF assms(1) x(1) assms(3)] pin [OF x(2)] assms(4) by simp
  with x assms pin show ?thesis
    by (intro sql_update_put [where k = "(cu_owner next, cu_run_id next, cu_stream next)"]) (auto simp: upd_cursor_fields)
qed

text \<open>A committed transaction: the segment starts where the cursor stands, or opens the next
  generation, and the cursor moves to its end.\<close>

lemma commit_transaction_Inr:
  assumes "commit_transaction now l d next cand db = (Inr seg, db')" and "keyed ors (db_cursors db)"
  shows "(db' = db \<and> same_segment seg cand \<and> seg \<in> set (db_segments db)) \<or>
    (\<exists>r \<in> set (db_cursors db). seg = cand \<and> ors r = (dr_owner d, dr_run_id d, dr_stream d) \<and>
       list_all fst (validate_segment_transition l (cr_cursor r) d next) \<and>
       \<not> (\<exists>s \<in> set (db_segments db). sg_segment_id s = sg_segment_id cand) \<and>
       db' = db\<lparr>db_segments := db_segments db @ [cand],
                db_cursors := put_row ors (upd_cursor next r) (db_cursors db)\<rparr>)"
proof -
  from assms(1) obtain r where r: "fetchone (lease_cursor l (dr_stream d)) (db_cursors db) = Some r"
    and ok: "cursor_post_init (cr_cursor r) = Inr (cr_cursor r)"
    by (auto simp: commit_transaction_def cursor_post_init_def split: if_splits option.splits sum.splits)
  then have mem: "r \<in> set (db_cursors db)" "lease_cursor l (dr_stream d) r" using fetchone_Some [OF r] by auto
  show ?thesis
  proof (cases "fetchone (\<lambda>s. sg_segment_id s = sg_segment_id cand \<and> sg_owner s = sg_owner cand) (db_segments db)")
    case (Some s)
    with assms(1) r ok fetchone_Some [OF Some] show ?thesis
      by (auto simp: commit_transaction_def segment_post_init_def split: if_splits sum.splits)
  next
    case None
    let ?checks = "(fetchone (segment_at d) (db_segments db) = None, W_Conflict WC_position)
                         # validate_segment_transition l (cr_cursor r) d next
                         @ [(\<not> (\<exists>s \<in> set (db_segments db). sg_segment_id s = sg_segment_id cand), W_Integrity),
                            (rowcount (cursor_where (wl_watch_id l) (cu_version (cr_cursor r)) next) (db_cursors db) = 1,
                               W_Conflict WC_cursor_fenced)]"
    have "first_failure ?checks = None"
      using assms(1) r ok None
      by (auto simp: commit_transaction_def simp del: first_failure.simps split: if_splits option.splits)
    then have c: "list_all fst ?checks" by (simp only: first_failure_None)
    then have "ors r = (cu_owner next, cu_run_id next, cu_stream next)"
      and o: "ors r = (dr_owner d, dr_run_id d, dr_stream d)"
      using mem(2) by (auto simp: validate_segment_transition_def lease_cursor_def ors_def)
    then have put: "sql_update (cursor_where (wl_watch_id l) (cu_version (cr_cursor r)) next) (upd_cursor next) (db_cursors db) =
        put_row ors (upd_cursor next r) (db_cursors db)"
      using c mem(1) by (intro cursor_put [OF assms(2)]) auto
    have "seg = cand \<and> db' = db\<lparr>db_segments := db_segments db @ [cand],
                db_cursors := put_row ors (upd_cursor next r) (db_cursors db)\<rparr>"
      using assms(1) r ok None c put
      by (auto simp: commit_transaction_def first_failure_None simp del: first_failure.simps
          split: if_splits option.splits)
    with c o mem(1) show ?thesis by auto
  qed
qed

lemma commit_transaction_Inl:
  "commit_transaction now l d next cand db = (Inl e, db') \<Longrightarrow> db' = db"
  by (auto simp: commit_transaction_def simp del: first_failure.simps
      split: if_splits option.splits sum.splits)


lemma transition_tiled:
  assumes inv: "log_inv db" and r: "r \<in> set (db_cursors db)" and o: "ors r = (dr_owner d, dr_run_id d, dr_stream d)"
    and valid: "list_all fst (validate_segment_transition l (cr_cursor r) d next)"
    and cand: "seg_ors cand = ors r" "sg_generation cand = dr_generation d"
      "sg_start_offset cand = dr_start_offset d" "sg_end_offset cand = draft_end_offset d" "sg_start_offset cand < sg_end_offset cand"
  shows "log_inv (db\<lparr>db_segments := db_segments db @ [cand],
                db_cursors := put_row ors (upd_cursor next r) (db_cursors db)\<rparr>)"
proof -
  let ?segs = "db_segments db @ [cand]" and ?r = "upd_cursor next r"
  note f = upd_cursor_fields
  have key: "keyed ors (db_cursors db)" and t: "tiled (db_segments db) x" if "x \<in> set (db_cursors db)" for x
    using inv that by (simp_all add: log_inv_def list_all_iff)
  note t = t [OF r]
  have v: "cu_generation next = dr_generation d" "cu_offset next = draft_end_offset d"
    "(dr_generation d = cu_generation (cr_cursor r) \<and> dr_start_offset d = cu_offset (cr_cursor r)) \<or>
     (dr_generation d = cu_generation (cr_cursor r) + 1 \<and> dr_start_offset d = 0)"
    using valid by (auto simp: validate_segment_transition_def)
  have gen: "generation_segments ?r g ?segs = generation_segments r g (db_segments db) @
      (if dr_generation d = g then [cand] else [])" for g
    using generation_segments_ors [OF f(1), of "next" r g ?segs] cand by (simp add: generation_segments_append)
  have new: "tiled ?segs ?r"
  proof (rule tiledI)
    show "generation_segments ?r g ?segs = []" if "cu_generation (cr_cursor ?r) < g" for g
      using that v gen [of g] tiledD(1) [OF t, of g] by (auto simp: f)
    show "tiles 0 (generation_segments ?r (cu_generation (cr_cursor ?r)) ?segs) = Some (cu_offset (cr_cursor ?r))"
      using v(3)
    proof
      assume "dr_generation d = cu_generation (cr_cursor r) \<and> dr_start_offset d = cu_offset (cr_cursor r)"
      then show ?thesis
        using gen [of "dr_generation d"] tiledD(2) [OF t] cand v by (simp add: f tiles_append)
    next
      assume "dr_generation d = cu_generation (cr_cursor r) + 1 \<and> dr_start_offset d = 0"
      then show ?thesis
        using gen [of "dr_generation d"] tiledD(1) [OF t, of "dr_generation d"] cand v by (simp add: f)
    qed
    show "tiles 0 (generation_segments ?r g ?segs) \<noteq> None" if "g < cu_generation (cr_cursor ?r)" for g
      using that v gen [of g] tiledD(2,3) [OF t] by (cases "g = cu_generation (cr_cursor r)") (auto simp: f)
  qed
  have old: "tiled ?segs x" if "x \<in> set (db_cursors db)" "ors x \<noteq> ors r" for x
    using that inv cand by (auto simp: tiled_def generation_segments_append log_inv_def list_all_iff)
  have "list_all (tiled ?segs) (put_row ors ?r (db_cursors db))"
    unfolding list_all_iff using new old f(1) by (auto dest!: set_put_row)
  moreover have "\<exists>x \<in> set (put_row ors ?r (db_cursors db)). ors x = seg_ors s" if s: "s \<in> set ?segs" for s
  proof -
    have "\<exists>y \<in> set (db_cursors db). ors y = seg_ors s"
      using s inv r cand(1) by (auto simp: log_inv_def)
    then obtain y where y: "y \<in> set (db_cursors db)" "ors y = seg_ors s" by blast
    show ?thesis
    proof (cases "ors y = ors r")
      case True
      with y r f(1) show ?thesis by (intro bexI [of _ ?r]) (auto simp: put_row_def)
    next
      case False
      with y f(1) show ?thesis by (intro bexI [of _ y]) (auto simp: put_row_def image_iff)
    qed
  qed
  ultimately show ?thesis using key r by (simp add: log_inv_def)
qed

lemma segment_positive: "segment_post_init s = Inr s' \<Longrightarrow> sg_start_offset s < sg_end_offset s"
  by (auto simp: segment_post_init_def segment_checks_def)

lemma candidate_fields:
  "seg_ors (candidate_segment sha now l d) = (dr_owner d, dr_run_id d, dr_stream d)"
  "sg_generation (candidate_segment sha now l d) = dr_generation d"
  "sg_start_offset (candidate_segment sha now l d) = dr_start_offset d"
  "sg_end_offset (candidate_segment sha now l d) = draft_end_offset d"
  by (simp_all add: candidate_segment_def seg_ors_def)

lemma commit_log:
  assumes "log_inv db"
  shows "log_inv (snd (commit_segment sha now l d next db))"
proof (cases rule: commit_segment_cases [of sha now l d "next" db])
  case (refused e)
  with assms show ?thesis by simp
next
  case (failed e)
  with assms show ?thesis by (simp add: log_inv_def content_watches)
next
  case transaction
  let ?db1 = "snd (write_content sha (sha (dr_content d)) (dr_content d) db)"
  let ?cand = "candidate_segment sha now l d"
  have inv: "log_inv ?db1" using assms by (simp add: log_inv_def content_watches)
  show ?thesis
  proof (cases "commit_transaction now l d next ?cand ?db1")
    case (Pair res db')
    show ?thesis
    proof (cases res)
      case (Inl e)
      with Pair have "db' = ?db1" by (simp add: commit_transaction_Inl)
      with Pair inv transaction(6) show ?thesis by simp
    next
      case (Inr seg)
      then have "commit_transaction now l d next ?cand ?db1 = (Inr seg, db')" using Pair by simp
      from commit_transaction_Inr [OF this] inv show ?thesis
        using transition_tiled [OF inv] candidate_fields [of sha now l d] segment_positive [OF transaction(4)] Pair transaction(6)
        by (auto simp: log_inv_def)
    qed
  qed
qed


lemma advance_log:
  assumes inv: "log_inv db"
  shows "log_inv (snd (advance_cursor now l next db))"
proof -
  have key: "keyed ors (db_cursors db)" using inv by (simp add: log_inv_def)
  have moved: "log_inv (db\<lparr>db_cursors := sql_update (cursor_where (wl_watch_id l) (cu_version (cr_cursor r)) next)
      (upd_cursor next) (db_cursors db)\<rparr>)"
    if r: "r \<in> set (db_cursors db)" "lease_cursor l (cu_stream next) r"
      and valid: "list_all fst (validate_cursor_advance l (cr_cursor r) next)"
      and one: "rowcount (cursor_where (wl_watch_id l) (cu_version (cr_cursor r)) next) (db_cursors db) = 1" for r
  proof -
    let ?r = "upd_cursor next r"
    note f = upd_cursor_fields
    have o: "ors r = (cu_owner next, cu_run_id next, cu_stream next)"
      using r(2) valid by (auto simp: validate_cursor_advance_def lease_cursor_def ors_def)
    have t: "tiled (db_segments db) x" if "x \<in> set (db_cursors db)" for x
      using inv that by (simp add: log_inv_def list_all_iff)
    have gen: "generation_segments ?r g (db_segments db) = generation_segments r g (db_segments db)" for g
      by (rule generation_segments_ors) (rule f(1))
    have v: "(cu_generation next = cu_generation (cr_cursor r) \<and> cu_offset next = cu_offset (cr_cursor r)) \<or>
        (cu_generation next = cu_generation (cr_cursor r) + 1 \<and> cu_offset next = 0)"
      using valid by (auto simp: validate_cursor_advance_def)
    have new: "tiled (db_segments db) ?r"
    proof (rule tiledI)
      show "generation_segments ?r g (db_segments db) = []" if "cu_generation (cr_cursor ?r) < g" for g
        using that v tiledD(1) [OF t [OF r(1)], of g] by (auto simp: f gen)
      show "tiles 0 (generation_segments ?r (cu_generation (cr_cursor ?r)) (db_segments db)) = Some (cu_offset (cr_cursor ?r))"
        using v tiledD(1,2) [OF t [OF r(1)]] by (auto simp: f gen)
      show "tiles 0 (generation_segments ?r g (db_segments db)) \<noteq> None" if "g < cu_generation (cr_cursor ?r)" for g
        using that v tiledD(2,3) [OF t [OF r(1)]]
        by (cases "g = cu_generation (cr_cursor r)") (auto simp: f gen)
    qed
    have put: "sql_update (cursor_where (wl_watch_id l) (cu_version (cr_cursor r)) next) (upd_cursor next) (db_cursors db) =
        put_row ors ?r (db_cursors db)"
      using key one r(1) o by (rule cursor_put)
    have "list_all (tiled (db_segments db)) (put_row ors ?r (db_cursors db))"
      unfolding list_all_iff using new t by (auto dest!: set_put_row)
    then show ?thesis using inv put by (simp add: log_inv_def put_row_keys)
  qed
  show ?thesis
    unfolding advance_cursor_def
    using inv moved
    by (auto simp: first_failure_None cursor_post_init_def simp del: first_failure.simps dest!: fetchone_Some
        split: option.split sum.split)
qed

lemma log_inv_step: "log_inv db \<Longrightarrow> watch_step sha db db' \<Longrightarrow> log_inv db'"
proof (erule watch_step.cases, goal_cases)
  case (2 dbb now watch_id owner worker_id n)
  then show ?case by (simp add: claim_watch_def Let_def log_inv_def split: option.split)
next
  case (3 dbb now l n)
  then show ?case by (simp add: renew_watch_def Let_def log_inv_def split: option.split)
next
  case (4 dbb now l st np ec)
  then show ?case by (simp add: release_watch_def Let_def log_inv_def split: option.split)
next
  case (5 dbb now run_id owner)
  then show ?case by (simp add: schedule_terminal_drain_def log_inv_def)
next
  case (6 dbb now watch_id owner)
  then show ?case by (simp add: acknowledge_terminal_handoff_def log_inv_def)
next
  case (9 dbb a)
  then show ?case using alert_frame [of a dbb] by (simp add: log_inv_def)
qed (simp_all add: create_log commit_log advance_log)

end
