(* ===== verification/WatchProps.thy ===== *)
theory WatchProps
  imports WatchLog
begin

text \<open>
  The properties of the runtime watch store: the committed log is contiguous and readable, replays
  are harmless, superseded leases are powerless and a stopped watch stays stopped.
\<close>

section \<open>Reachable stores\<close>

definition reachable_watch :: "(string \<Rightarrow> string) \<Rightarrow> watch_db \<Rightarrow> bool" where
  "reachable_watch sha db \<longleftrightarrow> (watch_step sha)\<^sup>*\<^sup>* empty_watch_db db"

lemma reachable_watch_empty: "reachable_watch sha empty_watch_db"
  by (simp add: reachable_watch_def)

lemma reachable_watch_step: "reachable_watch sha db \<Longrightarrow> watch_step sha db db' \<Longrightarrow> reachable_watch sha db'"
  unfolding reachable_watch_def by (rule rtranclp.rtrancl_into_rtrancl)

lemma reachable_watch_run: "reachable_watch sha db \<Longrightarrow> (watch_step sha)\<^sup>*\<^sup>* db db' \<Longrightarrow> reachable_watch sha db'"
  unfolding reachable_watch_def by (rule rtranclp_trans)

lemma empty_rows_ok: "watch_rows_ok empty_watch_db"
  by (simp add: watch_rows_ok_def watches_ok_def empty_watch_db_def)

lemma reachable_rows_ok: "reachable_watch sha db \<Longrightarrow> watch_rows_ok db"
  unfolding reachable_watch_def using watch_run_moves [OF _ empty_rows_ok] by blast

lemma empty_log_inv: "log_inv empty_watch_db"
  by (simp add: log_inv_def empty_watch_db_def)

lemma reachable_log_inv: "reachable_watch sha db \<Longrightarrow> log_inv db"
  unfolding reachable_watch_def
  by (induction rule: rtranclp_induct) (auto intro: log_inv_step empty_log_inv)

text \<open>Contents: every file holds what its name says, every segment is on record and on disk.\<close>

definition on_disk :: "watch_db \<Rightarrow> segment \<Rightarrow> bool" where
  "on_disk db s \<longleftrightarrow> segment_post_init s = Inr s \<and>
     (case db_contents db (sg_content_sha256 s) of None \<Rightarrow> False
      | Some c \<Rightarrow> int (length c) = sg_content_size s)"

definition content_inv :: "(string \<Rightarrow> string) \<Rightarrow> watch_db \<Rightarrow> bool" where
  "content_inv sha db \<longleftrightarrow> (\<forall>d c. db_contents db d = Some c \<longrightarrow> sha c = d) \<and>
     list_all (on_disk db) (db_segments db) \<and> distinct (map sg_segment_id (db_segments db))"

definition contents_kept :: "watch_db \<Rightarrow> watch_db \<Rightarrow> bool" where
  "contents_kept db db' \<longleftrightarrow> (\<forall>d c. db_contents db d = Some c \<longrightarrow> db_contents db' d = Some c) \<and>
     set (db_segments db) \<subseteq> set (db_segments db')"

lemma contents_kept_refl: "contents_kept db db"
  by (simp add: contents_kept_def)

lemma contents_kept_trans: "contents_kept a b \<Longrightarrow> contents_kept b c \<Longrightarrow> contents_kept a c"
  by (auto simp: contents_kept_def)

lemma write_kept: "contents_kept db (snd (write_content sha h c db))"
  by (simp add: contents_kept_def write_content_def split: option.split)

lemma write_stored:
  assumes "fst (write_content sha h c db) = Inr ()"
  shows "\<exists>x. db_contents (snd (write_content sha h c db)) h = Some x \<and> length x = length c"
  using assms by (auto simp: write_content_def split: option.splits if_splits)

lemma on_disk_kept: "contents_kept db db' \<Longrightarrow> on_disk db s \<Longrightarrow> on_disk db' s"
  by (auto simp: on_disk_def contents_kept_def split: option.splits)

lemma content_inv_write:
  assumes "content_inv sha db" and "sha c = h"
  shows "content_inv sha (snd (write_content sha h c db))"
proof -
  have "list_all (on_disk (snd (write_content sha h c db))) (db_segments db)"
    using assms(1) on_disk_kept [OF write_kept] by (auto simp: content_inv_def list_all_iff)
  moreover have "\<forall>d x. db_contents (snd (write_content sha h c db)) d = Some x \<longrightarrow> sha x = d"
    using assms by (auto simp: content_inv_def write_content_def split: option.split)
  ultimately show ?thesis using assms(1) by (simp add: content_inv_def content_watches)
qed

text \<open>What a \<open>commit_segment\<close> does to contents and segments.\<close>

lemma commit_effect:
  assumes "keyed ors (db_cursors db)" and "content_inv sha db"
  shows "content_inv sha (snd (commit_segment sha now l d next db)) \<and>
    contents_kept db (snd (commit_segment sha now l d next db))"
proof (cases rule: commit_segment_cases [of sha now l d "next" db])
  case (refused e)
  with assms show ?thesis by (simp add: contents_kept_refl)
next
  case (failed e)
  with content_inv_write [OF assms(2) refl] write_kept show ?thesis by simp
next
  case transaction
  let ?db1 = "snd (write_content sha (sha (dr_content d)) (dr_content d) db)"
  let ?cand = "candidate_segment sha now l d"
  have inv1: "content_inv sha ?db1" using assms(2) refl by (rule content_inv_write)
  have kept1: "contents_kept db ?db1" by (rule write_kept)
  have key1: "keyed ors (db_cursors ?db1)" using assms(1) by (simp add: content_watches)
  obtain x where x: "db_contents ?db1 (sha (dr_content d)) = Some x" "length x = length (dr_content d)"
    using write_stored [OF transaction(5)] by blast
  have disk: "on_disk ?db1 ?cand"
    using transaction(4) x by (simp add: on_disk_def) (simp add: candidate_segment_def)
  show ?thesis
  proof (cases "commit_transaction now l d next ?cand ?db1")
    case (Pair res db')
    show ?thesis
    proof (cases res)
      case (Inl e)
      with Pair have "db' = ?db1" by (simp add: commit_transaction_Inl)
      with Pair inv1 kept1 transaction(6) show ?thesis by simp
    next
      case (Inr seg)
      then have "commit_transaction now l d next ?cand ?db1 = (Inr seg, db')" using Pair by simp
      from commit_transaction_Inr [OF this key1] show ?thesis
      proof (elim disjE bexE conjE)
        assume "db' = ?db1"
        with Pair inv1 kept1 transaction(6) show ?thesis by simp
      next
        fix r
        assume new: "\<not> (\<exists>s \<in> set (db_segments ?db1). sg_segment_id s = sg_segment_id ?cand)"
          and db': "db' = ?db1\<lparr>db_segments := db_segments ?db1 @ [?cand],
                db_cursors := put_row ors (upd_cursor next r) (db_cursors ?db1)\<rparr>"
        have "on_disk db' s = on_disk ?db1 s" for s by (simp add: on_disk_def db')
        then have "content_inv sha db'"
          using inv1 new disk by (auto simp: content_inv_def list_all_iff db')
        moreover have "contents_kept ?db1 db'" by (auto simp: contents_kept_def db')
        ultimately show ?thesis using Pair transaction(6) contents_kept_trans [OF kept1] by simp
      qed
    qed
  qed
qed

lemma content_same:
  "db_contents db' = db_contents db \<Longrightarrow> db_segments db' = db_segments db \<Longrightarrow> content_inv sha db \<Longrightarrow>
    content_inv sha db' \<and> contents_kept db db'"
  by (simp add: content_inv_def contents_kept_def on_disk_def list_all_iff)

lemma content_step:
  assumes "keyed ors (db_cursors db)" and "content_inv sha db" and "watch_step sha db db'"
  shows "content_inv sha db' \<and> contents_kept db db'"
  using assms(3)
proof cases
  case (w_create now run_id owner c)
  then show ?thesis
    by (intro content_same [OF _ _ assms(2)]) (simp_all add: create_watch_def Let_def del: first_failure.simps split: option.split)
next
  case (w_claim now watch_id owner worker_id n)
  then show ?thesis
    by (intro content_same [OF _ _ assms(2)]) (simp_all add: claim_watch_def Let_def del: first_failure.simps split: option.split)
next
  case (w_renew now l n)
  then show ?thesis
    by (intro content_same [OF _ _ assms(2)]) (simp_all add: renew_watch_def Let_def del: first_failure.simps split: option.split)
next
  case (w_release now l st np ec)
  then show ?thesis
    by (intro content_same [OF _ _ assms(2)]) (simp_all add: release_watch_def Let_def del: first_failure.simps split: option.split)
next
  case (w_drain now run_id owner)
  then show ?thesis
    by (intro content_same [OF _ _ assms(2)]) (simp_all add: schedule_terminal_drain_def)
next
  case (w_handoff now watch_id owner)
  then show ?thesis
    by (intro content_same [OF _ _ assms(2)]) (simp_all add: acknowledge_terminal_handoff_def)
next
  case (w_commit now l d "next")
  then show ?thesis using commit_effect [OF assms(1,2)] by simp
next
  case (w_advance now l "next")
  then show ?thesis
    by (intro content_same [OF _ _ assms(2)]) (simp_all add: advance_cursor_def del: first_failure.simps split: option.split sum.split)
next
  case (w_alert a)
  then show ?thesis
    by (intro content_same [OF _ _ assms(2)]) (simp_all add: alert_frame)
qed

lemma content_run:
  "(watch_step sha)\<^sup>*\<^sup>* db db' \<Longrightarrow> reachable_watch sha db \<Longrightarrow> content_inv sha db \<Longrightarrow>
    content_inv sha db' \<and> contents_kept db db'"
proof (induction rule: rtranclp_induct)
  case base
  then show ?case by (simp add: contents_kept_refl)
next
  case (step t u)
  then have t: "content_inv sha t" "contents_kept db t" by simp_all
  have "keyed ors (db_cursors t)"
    using reachable_log_inv [OF reachable_watch_run [OF step.prems(1) step.hyps(1)]] by (simp add: log_inv_def)
  from content_step [OF this t(1) step.hyps(2)] t(2) show ?case by (blast intro: contents_kept_trans)
qed

lemma reachable_content: "reachable_watch sha db \<Longrightarrow> content_inv sha db"
  using content_run [OF _ reachable_watch_empty] 
  by (simp add: reachable_watch_def) (simp add: content_inv_def empty_watch_db_def)


lemma commit_replay_state:
  assumes "commit_transaction now l d next cand db = (Inr seg, db')" and "keyed ors (db_cursors db)"
  shows "seg \<in> set (db_segments db') \<and> same_segment seg cand \<and>
    (\<exists>r \<in> set (db_cursors db'). lease_cursor l (dr_stream d) r \<and> cr_cursor r = next)"
proof -
  from assms(1) obtain r where r: "fetchone (lease_cursor l (dr_stream d)) (db_cursors db) = Some r"
    and ok: "cursor_post_init (cr_cursor r) = Inr (cr_cursor r)"
    by (auto simp: commit_transaction_def cursor_post_init_def split: if_splits option.splits sum.splits)
  then have mem: "r \<in> set (db_cursors db)" "lease_cursor l (dr_stream d) r" using fetchone_Some [OF r] by auto
  have unique: "x = r" if "x \<in> set (db_cursors db)" "ors x = (dr_owner d, dr_run_id d, dr_stream d)"
      "list_all fst (validate_segment_transition l (cr_cursor x) d next)" for x
    using keyed_eqI [OF assms(2) that(1) mem(1)] that(2,3) mem(2)
    by (simp add: validate_segment_transition_def lease_cursor_def ors_def)
  from commit_transaction_Inr [OF assms] show ?thesis
  proof (elim disjE bexE conjE)
    assume s: "db' = db" "same_segment seg cand" "seg \<in> set (db_segments db)"
    have "cr_cursor r = next"
      using assms(1) r ok s
      by (auto simp: commit_transaction_def first_failure_None simp del: first_failure.simps
          split: if_splits option.splits sum.splits)
    with s mem show ?thesis by blast
  next
    fix x
    assume x: "x \<in> set (db_cursors db)" "ors x = (dr_owner d, dr_run_id d, dr_stream d)"
        "list_all fst (validate_segment_transition l (cr_cursor x) d next)" "seg = cand"
      and db': "db' = db\<lparr>db_segments := db_segments db @ [cand],
                db_cursors := put_row ors (upd_cursor next x) (db_cursors db)\<rparr>"
    have xr: "x = r" using unique x by blast
    have n: "cu_owner next = cu_owner (cr_cursor r) \<and> cu_run_id next = cu_run_id (cr_cursor r) \<and>
        cu_stream next = cu_stream (cr_cursor r)"
      using x(3) mem(2) by (simp add: validate_segment_transition_def lease_cursor_def)
    then have "cr_cursor (upd_cursor next r) = next" by (simp add: upd_cursor_def)
    moreover have "lease_cursor l (dr_stream d) (upd_cursor next r)"
      using mem(2) by (simp add: lease_cursor_def upd_cursor_def)
    moreover have "upd_cursor next r \<in> set (put_row ors (upd_cursor next r) (db_cursors db))"
      using mem(1) upd_cursor_fields(1) [of "next" r] by (auto simp: put_row_def)
    ultimately show ?thesis using x(4) db' xr by (auto simp: same_segment_def)
  qed
qed

section \<open>A concrete run\<close>

definition w_sha :: "string \<Rightarrow> string" where
  "w_sha s = replicate 64 (CHR ''a'')"

definition w_time :: "nat \<Rightarrow> datetime" where
  "w_time s = DateTime 2026 1 1 0 0 s 0"

definition w_id :: string where
  "w_id = watch_id_of w_sha ''run'' ''ann''"

definition w_created :: watch_db where
  "w_created = \<lparr>db_watches = [new_watch_row (w_time 0) w_id ''run'' ''ann'' ''conn''],
     db_cursors = [\<lparr>cr_watch_id = w_id, cr_cursor = initial_cursor ''run'' ''ann'' STDOUT\<rparr>,
                   \<lparr>cr_watch_id = w_id, cr_cursor = initial_cursor ''run'' ''ann'' STDERR\<rparr>],
     db_segments = [], db_alerts = [], db_contents = (\<lambda>_. None)\<rparr>"

definition w_claimed :: watch_db where
  "w_claimed = w_created\<lparr>db_watches := [upd_watch_claim ''w1'' (w_time 11) (w_time 1)
     (new_watch_row (w_time 0) w_id ''run'' ''ann'' ''conn'')]\<rparr>"

definition w_lease :: "int \<Rightarrow> string \<Rightarrow> nat \<Rightarrow> watch_lease" where
  "w_lease n w s = \<lparr>wl_watch_id = w_id, wl_run_id = ''run'', wl_owner = ''ann'', wl_worker_id = w,
     wl_version = n, wl_fencing_token = n, wl_expires_at = w_time s\<rparr>"

definition w_draft :: draft where
  "w_draft = \<lparr>dr_run_id = ''run'', dr_owner = ''ann'', dr_stream = STDOUT, dr_generation = 0,
     dr_start_offset = 0, dr_content = ''hello''\<rparr>"

definition w_next :: cursor where
  "w_next = (initial_cursor ''run'' ''ann'' STDOUT)\<lparr>cu_offset := 5, cu_source_size := 5, cu_version := 1\<rparr>"

definition w_segment :: segment where
  "w_segment = candidate_segment w_sha (w_time 2) (w_lease 1 ''w1'' 11) w_draft"

definition w_committed :: watch_db where
  "w_committed = w_claimed\<lparr>db_segments := [w_segment],
     db_cursors := [\<lparr>cr_watch_id = w_id, cr_cursor = w_next\<rparr>,
                    \<lparr>cr_watch_id = w_id, cr_cursor = initial_cursor ''run'' ''ann'' STDERR\<rparr>],
     db_contents := (\<lambda>_. None)(w_sha [] := Some ''hello'')\<rparr>"

lemma w_list_all_replicate: "list_all p (replicate n c) = (n = 0 \<or> p c)"
  by (simp add: list_all_iff set_replicate_conv_if)

lemmas w_text = identifier_ok_def id_char_def digest_ok_def hex_char_def bounded_text_def
  w_list_all_replicate Let_def
lemmas w_defs = w_time_def w_id_def watch_id_of_def w_sha_def w_lease_def w_draft_def w_next_def
  initial_cursor_def

lemma w_id_ok: "identifier_ok w_id"
  by (simp add: w_id_def watch_id_of_def w_sha_def w_text min_def)

lemma w_cursor_ok: "cursor_post_init (initial_cursor ''run'' ''ann'' s) = Inr (initial_cursor ''run'' ''ann'' s)"
  by (simp add: cursor_post_init_def cursor_checks_def initial_cursor_def w_text b64_size_def)

lemma w_next_ok: "cursor_post_init w_next = Inr w_next"
  by (simp add: cursor_post_init_def cursor_checks_def w_next_def initial_cursor_def w_text b64_size_def)

lemma w_create: "snd (create_watch w_sha (w_time 0) ''run'' ''ann'' ''conn'' empty_watch_db) = w_created"
  by (simp add: create_watch_def empty_watch_db_def Let_def w_created_def insert_ignore_def same_cursor_key_def
      new_watch_row_def w_id_def) (simp add: w_text initial_cursor_def)

lemma w_claim_run: "claim_watch (w_time 1) w_id ''ann'' ''w1'' 10 w_created = (Inr (Some (w_lease 1 ''w1'' 11)), w_claimed)"
  using w_id_ok
  by (simp add: claim_watch_def watch_lease_seconds_ok_def w_created_def w_claimed_def watch_claimable_def
      owned_watch_def watch_unleased_def new_watch_row_def upd_watch_claim_def watch_lease_post_init_def w_lease_def)
    (simp add: w_time_def w_text)

lemma w_instances: "is_instance watch_lease_post_init (w_lease 1 ''w1'' 11)" "is_instance draft_post_init w_draft"
  "is_instance cursor_post_init w_next"
  using w_id_ok w_next_ok
  by (simp_all add: is_instance_def watch_lease_post_init_def w_lease_def draft_post_init_def w_draft_def)
    (simp_all add: w_text)

lemma w_sha_const: "w_sha s = w_sha []"
  by (simp add: w_sha_def)

lemma w_segment_ok: "segment_post_init w_segment = Inr w_segment"
  using w_id_ok
  by (simp add: w_segment_def segment_post_init_def segment_checks_def candidate_segment_def draft_end_offset_def
      w_draft_def w_lease_def draft_segment_id_def w_sha_def) (simp add: w_text)

lemma w_lease_row: "s < 11 \<Longrightarrow> watch_lease_row (w_time s) (w_lease 1 ''w1'' 11)
    (upd_watch_claim ''w1'' (w_time 11) (w_time 1) (new_watch_row (w_time 0) w_id ''run'' ''ann'' ''conn''))"
  by (simp add: watch_lease_row_def w_lease_def upd_watch_claim_def new_watch_row_def)
    (simp add: w_time_def sql_after_less days_in_month_def)

lemma w_commit_run: "commit_segment w_sha (w_time 2) (w_lease 1 ''w1'' 11) w_draft w_next w_claimed = (Inr w_segment, w_committed)"
proof -
  let ?db1 = "w_claimed\<lparr>db_contents := (\<lambda>_. None)(w_sha [] := Some ''hello'')\<rparr>"
  have written: "write_content w_sha (w_sha (dr_content w_draft)) (dr_content w_draft) w_claimed = (Inr (), ?db1)"
    by (simp add: write_content_def w_claimed_def w_created_def w_draft_def w_sha_const [of "_ # _"])
  have "commit_transaction (w_time 2) (w_lease 1 ''w1'' 11) w_draft w_next w_segment ?db1 = (Inr w_segment, w_committed)"
    using w_lease_row [of 2] w_cursor_ok [of STDOUT]
    by (simp add: commit_transaction_def w_claimed_def w_created_def w_committed_def lease_cursor_def
        w_lease_def w_draft_def w_next_def validate_segment_transition_def draft_end_offset_def
        cursor_where_def upd_cursor_def rowcount_def initial_cursor_def)
  then show ?thesis
    using w_instances w_segment_ok written by (simp add: commit_segment_def w_segment_def)
qed

lemma w_steps:
  "watch_step w_sha empty_watch_db w_created" "watch_step w_sha w_created w_claimed"
  "watch_step w_sha w_claimed w_committed"
  using watch_step.w_create [of w_sha empty_watch_db "w_time 0" "''run''" "''ann''" "''conn''"] w_create
    watch_step.w_claim [of w_sha w_created "w_time 1" w_id "''ann''" "''w1''" 10] w_claim_run
    watch_step.w_commit [of w_sha w_claimed "w_time 2" "w_lease 1 ''w1'' 11" w_draft w_next] w_commit_run
  by simp_all

lemmas w_reachable_created = reachable_watch_step [OF reachable_watch_empty w_steps(1)]
lemmas w_reachable_claimed = reachable_watch_step [OF w_reachable_created w_steps(2)]
lemmas w_reachable_committed = reachable_watch_step [OF w_reachable_claimed w_steps(3)]


section \<open>The committed log\<close>

text \<open>C19. In every reachable store, for every cursor: the committed segments of each generation of its stream
  are contiguous from byte 0, none is missing or overlapping; in the current generation they end
  exactly at the cursor's offset; and no segment belongs to a later generation.\<close>

theorem committed_log_is_contiguous:
  assumes "reachable_watch sha db" and "r \<in> set (db_cursors db)"
  shows "tiled (db_segments db) r"
  using reachable_log_inv [OF assms(1)] assms(2) by (simp add: log_inv_def list_all_iff)

theorem committed_log_is_contiguous_witness:
  "reachable_watch w_sha w_committed \<and> tiled (db_segments w_committed) \<lparr>cr_watch_id = w_id, cr_cursor = w_next\<rparr>"
  using committed_log_is_contiguous [OF w_reachable_committed, of "\<lparr>cr_watch_id = w_id, cr_cursor = w_next\<rparr>"]
    w_reachable_committed by (simp add: w_committed_def)

text \<open>C38. Content that was committed stays readable: after a successful \<open>commit_segment\<close> and any calls since,
  reading the segment returns bytes with the digest and the size of the committed ones; they are the
  committed ones unless the digest has a collision.\<close>

theorem committed_content_readable:
  assumes "reachable_watch sha db" and "commit_segment sha now l d next db = (Inr seg, db1)"
    and "(watch_step sha)\<^sup>*\<^sup>* db1 db2"
  shows "\<exists>c. read_segment_content sha (sg_segment_id seg) (sg_owner seg) db2 = Inr c \<and>
    sha c = sha (dr_content d) \<and> length c = length (dr_content d) \<and>
    ((\<forall>x. sha x = sha (dr_content d) \<longrightarrow> x = dr_content d) \<longrightarrow> c = dr_content d)"
proof -
  let ?cand = "candidate_segment sha now l d"
  have key: "keyed ors (db_cursors db)" using reachable_log_inv [OF assms(1)] by (simp add: log_inv_def)
  have db1: "reachable_watch sha db1"
    using reachable_watch_step [OF assms(1) w_commit [of sha db now l d "next"]] assms(2) by simp
  have db2: "reachable_watch sha db2" using db1 assms(3) by (rule reachable_watch_run)
  have seg: "seg \<in> set (db_segments db1) \<and> same_segment seg ?cand"
  proof (cases rule: commit_segment_cases [of sha now l d "next" db])
    case transaction
    let ?w = "snd (write_content sha (sha (dr_content d)) (dr_content d) db)"
    have "commit_transaction now l d next ?cand ?w = (Inr seg, db1)" using transaction(6) assms(2) by simp
    moreover have "keyed ors (db_cursors ?w)" using key by (simp add: content_watches)
    ultimately show "seg \<in> set (db_segments db1) \<and> same_segment seg ?cand"
      using commit_replay_state by blast
  qed (use assms(2) in simp_all)
  have kept: "contents_kept db1 db2" using content_run [OF assms(3) db1 reachable_content [OF db1]] by simp
  then have mem: "seg \<in> set (db_segments db2)" using seg by (auto simp: contents_kept_def)
  have inv: "content_inv sha db2" using db2 by (rule reachable_content)
  then have disk: "on_disk db2 seg" and ids: "keyed sg_segment_id (db_segments db2)"
    using mem by (simp_all add: content_inv_def list_all_iff keyed_def)
  have fetch: "fetchone (\<lambda>s. sg_segment_id s = sg_segment_id seg \<and> sg_owner s = sg_owner seg) (db_segments db2) = Some seg"
    using fetchone_pinned [OF ids, of "\<lambda>s. sg_segment_id s = sg_segment_id seg \<and> sg_owner s = sg_owner seg" "sg_segment_id seg"]
      row_of_Some_iff [OF ids, of "sg_segment_id seg" seg] mem by simp
  from disk obtain c where c: "db_contents db2 (sg_content_sha256 seg) = Some c" "int (length c) = sg_content_size seg"
    "segment_post_init seg = Inr seg"
    by (auto simp: on_disk_def split: option.splits)
  moreover have "sha c = sg_content_sha256 seg" using inv c(1) by (simp add: content_inv_def)
  moreover have "sg_content_sha256 seg = sha (dr_content d)" "sg_content_size seg = int (length (dr_content d))"
    using seg by (simp_all add: same_segment_def candidate_segment_def)
  ultimately show ?thesis
    using fetch by (intro exI [of _ c]) (auto simp: read_segment_content_def)
qed

theorem committed_content_readable_witness:
  "\<exists>c. read_segment_content w_sha (sg_segment_id w_segment) (sg_owner w_segment) w_committed = Inr c \<and>
     length c = 5"
  using committed_content_readable [OF w_reachable_claimed w_commit_run rtranclp.rtrancl_refl]
  by (auto simp: w_draft_def)

text \<open>Repeating a commit is harmless: while the lease lasts, a second \<open>commit_segment\<close> with the same
  arguments returns the same segment and changes nothing.\<close>

theorem commit_segment_replay:
  assumes "reachable_watch sha db" and "commit_segment sha now l d next db = (Inr seg, db1)"
    and "fetchone (watch_lease_row now' l) (db_watches db1) \<noteq> None"
  shows "commit_segment sha now' l d next db1 = (Inr seg, db1)"
proof (cases rule: commit_segment_cases [of sha now l d "next" db])
  case transaction
  let ?w = "snd (write_content sha (sha (dr_content d)) (dr_content d) db)"
  let ?cand = "candidate_segment sha now l d" and ?cand' = "candidate_segment sha now' l d"
  have key: "keyed ors (db_cursors ?w)"
    using reachable_log_inv [OF assms(1)] by (simp add: log_inv_def content_watches)
  have run: "commit_transaction now l d next ?cand ?w = (Inr seg, db1)" using transaction(6) assms(2) by simp
  have db1: "reachable_watch sha db1"
    using reachable_watch_step [OF assms(1) w_commit [of sha db now l d "next"]] assms(2) by simp
  have inv1: "content_inv sha db1" using db1 by (rule reachable_content)
  have effect: "seg \<in> set (db_segments db1) \<and> same_segment seg ?cand \<and>
      (\<exists>r \<in> set (db_cursors db1). lease_cursor l (dr_stream d) r \<and> cr_cursor r = next)"
    using run key by (rule commit_replay_state)
  then obtain r where r: "r \<in> set (db_cursors db1)" "lease_cursor l (dr_stream d) r" "cr_cursor r = next" by blast
  have key1: "keyed ors (db_cursors db1)" using reachable_log_inv [OF db1] by (simp add: log_inv_def)
  have cursor: "fetchone (lease_cursor l (dr_stream d)) (db_cursors db1) = Some r"
  proof -
    have "row_of ors (ors r) (db_cursors db1) = Some r" using key1 r(1) by (simp add: row_of_Some_iff)
    moreover have pin: "lease_cursor l (dr_stream d) x \<Longrightarrow> ors x = ors r" for x
      using r(2) by (simp add: lease_cursor_def ors_def)
    have "fetchone (lease_cursor l (dr_stream d)) (db_cursors db1) =
        (case row_of ors (ors r) (db_cursors db1) of Some x \<Rightarrow> if lease_cursor l (dr_stream d) x then Some x else None
         | None \<Rightarrow> None)"
      using key1 pin by (rule fetchone_pinned)
    ultimately show ?thesis using r(2) by simp
  qed
  have disk: "on_disk db1 seg" and ids: "keyed sg_segment_id (db_segments db1)"
    using inv1 effect by (simp_all add: content_inv_def list_all_iff keyed_def)
  have same: "same_segment seg ?cand'" using effect by (simp add: same_segment_def candidate_segment_def)
  have e: "sg_segment_id ?cand' = sg_segment_id seg" "sg_owner ?cand' = sg_owner seg"
    using same by (simp_all add: same_segment_def)
  have "row_of sg_segment_id (sg_segment_id seg) (db_segments db1) = Some seg"
    using ids effect by (simp add: row_of_Some_iff)
  then have fetch: "fetchone (\<lambda>s. sg_segment_id s = sg_segment_id ?cand' \<and> sg_owner s = sg_owner ?cand') (db_segments db1) = Some seg"
    unfolding e
    using fetchone_pinned [OF ids, of "\<lambda>s. sg_segment_id s = sg_segment_id seg \<and> sg_owner s = sg_owner seg" "sg_segment_id seg"]
    by simp
  have written: "write_content sha (sha (dr_content d)) (dr_content d) db1 = (Inr (), db1)"
  proof -
    obtain c where "db_contents db1 (sg_content_sha256 seg) = Some c" "int (length c) = sg_content_size seg"
      using disk by (auto simp: on_disk_def split: option.splits)
    moreover have "sg_content_sha256 seg = sha (dr_content d)" "sg_content_size seg = int (length (dr_content d))"
      using same by (simp_all add: same_segment_def candidate_segment_def)
    ultimately show ?thesis using inv1 by (simp add: write_content_def content_inv_def)
  qed
  have cand': "segment_post_init ?cand' = Inr ?cand'"
    using transaction(4) by (simp add: segment_post_init_def segment_checks_def candidate_segment_def)
  have "commit_transaction now' l d next ?cand' db1 = (Inr seg, db1)"
    using assms(3) cursor r(3) transaction(3) fetch disk same
    by (simp add: commit_transaction_def is_instance_def on_disk_def)
  with transaction(1-3) written cand' show ?thesis by (simp add: commit_segment_def)
qed (use assms(2) in simp_all)

theorem commit_segment_replay_witness:
  "commit_segment w_sha (w_time 3) (w_lease 1 ''w1'' 11) w_draft w_next w_committed = (Inr w_segment, w_committed)"
proof (rule commit_segment_replay [OF w_reachable_claimed w_commit_run])
  show "fetchone (watch_lease_row (w_time 3) (w_lease 1 ''w1'' 11)) (db_watches w_committed) \<noteq> None"
    using w_lease_row [of 3] by (simp add: w_committed_def w_claimed_def)
qed


section \<open>Leases and stopping\<close>

text \<open>Once a newer lease of a watch has been issued, an older one commits no segment, moves no cursor and
  neither renews nor releases the watch.\<close>

theorem superseded_watch_lease_is_powerless:
  assumes "reachable_watch sha db" and "holds_watch k old db" and "claims_watch k new db db1"
    and "(watch_step sha)\<^sup>*\<^sup>* db1 db2"
  shows "fst (commit_segment sha now old d next db2) \<noteq> Inr seg \<and>
    db_segments (snd (commit_segment sha now old d next db2)) = db_segments db2 \<and>
    db_cursors (snd (commit_segment sha now old d next db2)) = db_cursors db2 \<and>
    snd (advance_cursor now old next db2) = db2 \<and> snd (renew_watch now old n db2) = db2 \<and>
    snd (release_watch now old st next_poll_at error_code db2) = db2"
proof -
  have "\<not> holds_watch k old db2"
    using reachable_rows_ok [OF assms(1)] assms(2-4) by (rule watch_lease.superseded)
  moreover have "k = wl_watch_id old" using assms(2) by (simp add: holds_watch_def)
  ultimately have "\<not> holds_watch (wl_watch_id old) old db2" by simp
  then show ?thesis by (simp add: unheld_watch_writes)
qed

definition w_reclaimed :: watch_db where
  "w_reclaimed = w_claimed\<lparr>db_watches := map (upd_watch_claim ''w2'' (w_time 22) (w_time 12)) (db_watches w_claimed)\<rparr>"

lemma w_reclaim: "claim_watch (w_time 12) w_id ''ann'' ''w2'' 10 w_claimed = (Inr (Some (w_lease 2 ''w2'' 22)), w_reclaimed)"
  using w_id_ok
  by (simp add: claim_watch_def watch_lease_seconds_ok_def w_created_def w_claimed_def w_reclaimed_def watch_claimable_def
      owned_watch_def watch_unleased_def new_watch_row_def upd_watch_claim_def watch_lease_post_init_def w_lease_def)
    (simp add: w_time_def w_text sql_upto_not_after sql_after_less days_in_month_def)

lemma w_holds: "holds_watch w_id (w_lease 1 ''w1'' 11) w_claimed"
  by (simp add: holds_watch_def watch_held_def w_lease_def w_claimed_def w_created_def upd_watch_claim_def new_watch_row_def)

theorem superseded_watch_lease_is_powerless_witness:
  "holds_watch w_id (w_lease 1 ''w1'' 11) w_claimed \<and>
   fst (commit_segment w_sha (w_time 13) (w_lease 1 ''w1'' 11) w_draft w_next w_reclaimed) \<noteq> Inr w_segment"
proof -
  have "claims_watch w_id (w_lease 2 ''w2'' 22) w_claimed w_reclaimed"
    unfolding claims_watch_def using w_reclaim by blast
  from superseded_watch_lease_is_powerless [OF w_reachable_claimed w_holds this rtranclp.rtrancl_refl] w_holds
  show ?thesis by blast
qed

text \<open>Scheduling the terminal drain of a Run fences the lease its watch is under: the watch is
  finalizing and due, and no lease issued before is accepted again.\<close>

theorem terminal_drain_fences_lease:
  fixes now :: datetime
  assumes "reachable_watch sha db" and "r \<in> set (db_watches db)" and "wa_state (wr_watch r) \<noteq> W_STOPPED"
  defines "after \<equiv> schedule_terminal_drain now (wa_run_id (wr_watch r)) (wa_owner (wr_watch r)) db"
  shows "fst after \<and> row_of wr_id (wr_id r) (db_watches (snd after)) = Some (upd_drain now r) \<and>
    (watch_held l r \<longrightarrow> \<not> holds_watch (wr_id r) l (snd after))"
proof -
  let ?p = "drainable (wa_run_id (wr_watch r)) (wa_owner (wr_watch r))"
  have k: "keyed wr_id (db_watches db)" "keyed run_key (db_watches db)"
    using reachable_rows_ok [OF assms(1)] by (simp_all add: watch_rows_ok_def watches_ok_def)
  have pin: "?p x \<Longrightarrow> run_key x = run_key r" for x by (simp add: drainable_def run_watch_def run_key_def)
  have p: "?p r" using assms(3) by (simp add: drainable_def run_watch_def)
  have "row_of run_key (run_key r) (db_watches db) = Some r" using k(2) assms(2) by (simp add: row_of_Some_iff)
  then have one: "rowcount ?p (db_watches db) = 1" using rowcount_pinned [OF k(2) pin] p by simp
  have row: "row_of wr_id (wr_id r) (db_watches db) = Some r" using k(1) assms(2) by (simp add: row_of_Some_iff)
  have rows: "row_of wr_id (wr_id r) (sql_update ?p (upd_drain now) (db_watches db)) = Some (upd_drain now r)"
    using row p row_of_sql_update [of "db_watches db" ?p wr_id "upd_drain now" "wr_id r"] by (simp add: upd_drain_def)
  have key': "keyed wr_id (sql_update ?p (upd_drain now) (db_watches db))"
    using k(1) by (simp add: watch_updates_keyed)
  have "\<not> holds_watch (wr_id r) l (snd after)" if "watch_held l r"
  proof
    assume "holds_watch (wr_id r) l (snd after)"
    then obtain x where x: "x \<in> set (sql_update ?p (upd_drain now) (db_watches db))" "watch_held l x" "wr_id x = wr_id r"
      by (auto simp: holds_watch_def after_def schedule_terminal_drain_def watch_held_def)
    then have "row_of wr_id (wr_id r) (sql_update ?p (upd_drain now) (db_watches db)) = Some x"
      using key' by (simp add: row_of_Some_iff)
    with rows have "x = upd_drain now r" by simp
    with x(2) that show False by (simp add: watch_held_def upd_drain_def)
  qed
  with one rows show ?thesis by (simp add: after_def schedule_terminal_drain_def)
qed

theorem terminal_drain_fences_lease_witness:
  "\<not> holds_watch w_id (w_lease 1 ''w1'' 11) (snd (schedule_terminal_drain (w_time 3) ''run'' ''ann'' w_claimed))"
  using terminal_drain_fences_lease [OF w_reachable_claimed,
      of "upd_watch_claim ''w1'' (w_time 11) (w_time 1) (new_watch_row (w_time 0) w_id ''run'' ''ann'' ''conn'')"
        "w_time 3" "w_lease 1 ''w1'' 11"]
  by (simp add: w_claimed_def watch_held_def) (simp add: upd_watch_claim_def new_watch_row_def w_lease_def)

lemma stopped_step:
  "wa_state (wr_watch r) = W_STOPPED \<Longrightarrow> watch_inv r \<Longrightarrow> watch_row_step r r' \<Longrightarrow>
    (wr_watch r')\<lparr>wa_updated_at := u\<rparr> = (wr_watch r)\<lparr>wa_updated_at := u\<rparr> \<and>
    (wr_handoff_at r = None \<or> wr_handoff_at r' = wr_handoff_at r)"
  by (erule watch_row_step.cases)
    (auto simp: watch_inv_def upd_handoff_def watch_claimable_def watch_lease_row_def drainable_def handoff_pending_def)

text \<open>A stopped watch stays stopped: no call changes its record again, the time stamp of the last update
  apart, and its handoff is acknowledged at most once.\<close>

theorem stopped_watch_is_final:
  assumes "reachable_watch sha db" and "(watch_step sha)\<^sup>*\<^sup>* db db'"
    and "row_of wr_id k (db_watches db) = Some r" and "wa_state (wr_watch r) = W_STOPPED"
  shows "\<exists>r'. row_of wr_id k (db_watches db') = Some r' \<and>
    (wr_watch r')\<lparr>wa_updated_at := wa_updated_at (wr_watch r)\<rparr> = wr_watch r \<and>
    (wr_handoff_at r = None \<or> wr_handoff_at r' = wr_handoff_at r)"
proof -
  let ?u = "wa_updated_at (wr_watch r)"
  have ok: "table_ok wr_id watch_inv (db_watches db)"
    using reachable_rows_ok [OF assms(1)] by (simp add: watch_rows_ok_def)
  have "watch_moves\<^sup>*\<^sup>* (db_watches db) (db_watches db')"
    using watch_run_moves [OF assms(2) reachable_rows_ok [OF assms(1)]] by simp
  then show ?thesis
    using ok assms(3)
  proof (rule watches.run_rel)
    show "(wr_watch y)\<lparr>wa_updated_at := ?u\<rparr> = wr_watch r \<and> (wr_handoff_at r = None \<or> wr_handoff_at y = wr_handoff_at r)"
      if "watch_inv x" "(wr_watch x)\<lparr>wa_updated_at := ?u\<rparr> = wr_watch r \<and>
          (wr_handoff_at r = None \<or> wr_handoff_at x = wr_handoff_at r)" "watch_row_step x y" for x y
    proof -
      have "wa_state ((wr_watch x)\<lparr>wa_updated_at := ?u\<rparr>) = W_STOPPED" using that(2) assms(4) by simp
      then have "wa_state (wr_watch x) = W_STOPPED" by simp
      from stopped_step [OF this that(1,3), of ?u] that(2) show ?thesis by auto
    qed
  qed simp
qed

definition w_stopped :: watch_db where
  "w_stopped = w_claimed\<lparr>db_watches := map (upd_watch_release (w_time 4) W_STOPPED None None) (db_watches w_claimed)\<rparr>"

lemma w_release_run: "snd (release_watch (w_time 4) (w_lease 1 ''w1'' 11) W_STOPPED None None w_claimed) = w_stopped"
  using w_lease_row [of 4]
  by (simp add: release_watch_def w_stopped_def w_claimed_def rowcount_def Let_def)

lemma w_reachable_stopped: "reachable_watch w_sha w_stopped"
  using reachable_watch_step [OF w_reachable_claimed
      watch_step.w_release [of w_sha w_claimed "w_time 4" "w_lease 1 ''w1'' 11" W_STOPPED None None]]
  by (simp add: w_release_run)

theorem stopped_watch_is_final_witness:
  "\<exists>r'. row_of wr_id w_id (db_watches (snd (claim_watch (w_time 40) w_id ''ann'' ''w2'' 10 w_stopped))) = Some r' \<and>
     wa_lease_owner (wr_watch r') = None"
proof -
  let ?r = "hd (db_watches w_stopped)"
  have r: "row_of wr_id w_id (db_watches w_stopped) = Some ?r" "wa_state (wr_watch ?r) = W_STOPPED"
    "wa_lease_owner (wr_watch ?r) = None"
    by (simp_all add: w_stopped_def w_claimed_def upd_watch_release_def upd_watch_claim_def new_watch_row_def)
  obtain r' where r': "row_of wr_id w_id (db_watches (snd (claim_watch (w_time 40) w_id ''ann'' ''w2'' 10 w_stopped))) = Some r'"
    "(wr_watch r')\<lparr>wa_updated_at := wa_updated_at (wr_watch ?r)\<rparr> = wr_watch ?r"
    using stopped_watch_is_final [OF w_reachable_stopped r_into_rtranclp [of "watch_step w_sha",
      OF watch_step.w_claim [of w_sha w_stopped "w_time 40" w_id "''ann''" "''w2''" 10]] r(1,2)] by blast
  have "wa_lease_owner (wr_watch r') = wa_lease_owner ((wr_watch r')\<lparr>wa_updated_at := wa_updated_at (wr_watch ?r)\<rparr>)"
    by simp
  with r' r(3) show ?thesis by auto
qed

end
