(* ===== verification/WatchServiceSafety.thy ===== *)
theory WatchServiceSafety
  imports WatchService WatchProps
begin

text \<open>
  The service over the store: every tick is a sequence of store operations, reads no more bytes than
  its policy allows, and what it commits is what the log files hold.
\<close>

section \<open>A tick is a run of the store\<close>

abbreviation store_run :: "(string \<Rightarrow> string) \<Rightarrow> watch_db \<Rightarrow> watch_db \<Rightarrow> bool" where
  "store_run sha \<equiv> (watch_step sha)\<^sup>*\<^sup>*"

lemma run_step: "watch_step sha db db' \<Longrightarrow> store_run sha db db'"
  by (rule r_into_rtranclp)

lemma step_of:
  "commit_segment sha now l d nx db = (r1, db') \<Longrightarrow> store_run sha db db'"
  "advance_cursor now l nx db = (r2, db') \<Longrightarrow> store_run sha db db'"
  "save_alert a db = (r3, db') \<Longrightarrow> store_run sha db db'"
  "renew_watch now l n db = (r4, db') \<Longrightarrow> store_run sha db db'"
  "release_watch now l st np ec db = (r5, db') \<Longrightarrow> store_run sha db db'"
  "claim_watch now wid owner worker n db = (r6, db') \<Longrightarrow> store_run sha db db'"
  using w_commit [of sha db now l d nx] w_advance [of sha db now l nx] w_alert [of sha db a]
    w_renew [of sha db now l n] w_release [of sha db now l st np ec] w_claim [of sha db now wid owner worker n]
  by (auto intro: run_step)

lemma handoff_run: "store_run sha db (snd (acknowledge_terminal_handoff now wid owner db))"
  by (rule run_step) (rule w_handoff)

lemma save_alerts_run: "store_run sha db (snd (save_alerts alerts db))"
proof (induction alerts db rule: save_alerts.induct)
  case (2 a as db)
  then show ?case by (auto split: prod.split sum.split dest: step_of(3) intro: rtranclp_trans)
qed simp

lemma evaluate_run: "store_run sha db (snd (evaluate_and_save sha env now seg content db))"
  unfolding evaluate_and_save_def using save_alerts_run by (simp split: sum.split)

lemma store_read_run: "store_run sha (po_db p) (po_db (snd (store_read sha env w strm current rd p)))"
proof -
  have alerts: "store_run sha db db'" if "evaluate_and_save sha env now seg content db = (r, db')" for now seg content db r db'
    using evaluate_run [of sha db env now seg content] that by simp
  show ?thesis
    unfolding store_read_def Let_def
    by (auto split: sum.split prod.split option.split dest: step_of(1,2) alerts intro: rtranclp_trans)
qed

lemma poll_stream_run: "store_run sha (po_db p) (po_db (snd (poll_stream sha env pol w src strm p)))"
proof -
  have "store_run sha (po_db p) (po_db (snd (store_read sha env w strm current rd (p\<lparr>po_lease := l, po_db := db, po_available := a\<rparr>))))"
    if "renew_watch now (po_lease p) n (po_db p) = (r, db)" for now n r db current rd l a
    using rtranclp_trans [OF step_of(4) [OF that]]
      store_read_run [of sha "p\<lparr>po_lease := l, po_db := db, po_available := a\<rparr>" env w strm current rd] by simp
  then show ?thesis
    unfolding poll_stream_def Let_def
    by (auto split: sum.split prod.split dest: step_of(4))
qed

lemma poll_streams_run: "store_run sha (po_db p) (po_db (snd (poll_streams sha env pol w src p)))"
  unfolding poll_streams_def
  using poll_stream_run [of sha p env pol w src STDOUT]
    poll_stream_run [of sha "snd (poll_stream sha env pol w src STDOUT p)" env pol w src STDERR]
  by (auto split: prod.split option.split intro: rtranclp_trans)

lemma settle_run: "store_run sha (po_db p) (po_db (snd (settle_watch env pol w p)))"
  unfolding settle_watch_def Let_def
  by (auto simp del: acknowledge_terminal_handoff_def split: sum.split prod.split option.split dest: step_of(5)
      intro: rtranclp_trans [OF _ handoff_run])

lemma degrade_run: "store_run sha db (snd (degrade_watch env pol w l db))"
  unfolding degrade_watch_def Let_def
  by (auto split: sum.split prod.split option.split dest: step_of(5))

lemma try_run: "try_watch sha env pol w p n = (r, p', m) \<Longrightarrow> store_run sha (po_db p) (po_db p')"
proof -
  assume t: "try_watch sha env pol w p n = (r, p', m)"
  have "store_run sha (po_db p) (po_db p'')" if "poll_streams sha env pol w src p = (r', p'')" for src r' p''
    using poll_streams_run [of sha p env pol w src] that by simp
  moreover have "store_run sha (po_db p'') (po_db q)" if "settle_watch env pol w p'' = (r', q)" for p'' r' q
    using settle_run [of sha p'' env pol w] that by simp
  ultimately show ?thesis
    using t unfolding try_watch_def
    by (auto split: sum.splits prod.splits option.splits) (meson rtranclp_trans)
qed

lemma process_run: "process_watch sha env pol w budget tk = (r, b, tk') \<Longrightarrow> store_run sha (tk_db tk) (tk_db tk')"
proof -
  assume t: "process_watch sha env pol w budget tk = (r, b, tk')"
  have degrade: "store_run sha db db'" if "degrade_watch env pol w l db = (r', db')" for l db r' db'
    using degrade_run [of sha db env pol w l] that by simp
  show ?thesis
    using t unfolding process_watch_def Let_def
    by (auto split: sum.splits prod.splits option.splits if_splits dest!: step_of(6) [where sha = sha] try_run degrade
        intro: rtranclp_trans)
qed

lemma watch_loop_run: "store_run sha (tk_db tk) (tk_db (snd (watch_loop sha env pol ws budget tk)))"
proof (induction sha env pol ws budget tk rule: watch_loop.induct)
  case (2 sha env pol w ws budget tk)
  then show ?case
    by (auto split: prod.split option.split dest: process_run intro: rtranclp_trans)
qed simp

lemma connection_loop_run: "store_run sha (tk_db tk) (tk_db (snd (connection_loop sha env pol due cs tk)))"
proof (induction sha env pol due cs tk rule: connection_loop.induct)
  case (2 sha env pol due c cs tk)
  have "store_run sha (tk_db tk) (tk_db tk')"
    if "watch_loop sha env pol ws budget tk = (r, tk')" for ws budget r tk'
    using watch_loop_run [of sha tk env pol ws budget] that by simp
  with 2 show ?case
    by (auto split: prod.split option.split) (meson rtranclp_trans)
qed simp

lemma handoff_loop_run: "store_run sha (tk_db tk) (tk_db (handoff_loop env callback ws tk))"
proof (induction env callback ws tk rule: handoff_loop.induct)
  case (2 env callback w ws tk)
  then show ?case
    by (auto intro: rtranclp_trans [OF handoff_run])
qed simp

lemma tick_run: "store_run sha db (tk_db (snd (tick sha env pol db)))"
proof -
  let ?start = "\<lparr>tk_db = db, tk_checked = 0, tk_with_data = 0, tk_bytes = 0, tk_errors = []\<rparr>"
  have loop: "store_run sha db (tk_db (handoff_loop env callback ws ?start))" for callback ws
    using handoff_loop_run [of sha ?start env callback ws] by simp
  show ?thesis
    unfolding tick_def Let_def
    by (auto split: sum.split option.split intro: loop rtranclp_trans [OF loop connection_loop_run]
        connection_loop_run [of sha ?start, simplified])
qed

section \<open>Byte budgets\<close>

lemma read_next_length:
  assumes "read_next now src strm c max_bytes tp = Inr rd" and "bounded_reads tp"
  shows "int (length (rd_content rd)) \<le> max_bytes"
  using assms(1)
proof (cases rule: read_next_cases)
  case missing
  moreover have "1 \<le> max_bytes" using assms(1) by (simp add: read_next_def)
  ultimately show ?thesis by simp
next
  case (available st offset prior content)
  with available_length [OF assms(2) available(12) available(5)] show ?thesis by simp
qed

definition spent :: "poll \<Rightarrow> poll \<Rightarrow> int \<Rightarrow> bool" where
  \<comment> \<open>what moves from the budget to the counters, at most \<open>n\<close>\<close>
  "spent p p' n \<longleftrightarrow> (\<exists>k. 0 \<le> k \<and> k \<le> n \<and> k \<le> max 0 (po_budget p) \<and> po_budget p' = po_budget p - k \<and> po_total p' = po_total p + k \<and>
     po_bytes p' = po_bytes p + k)"

lemma spent_none: "0 \<le> n \<Longrightarrow> po_budget p' = po_budget p \<Longrightarrow> po_total p' = po_total p \<Longrightarrow> po_bytes p' = po_bytes p \<Longrightarrow> spent p p' n"
  by (auto simp: spent_def)

lemma spent_trans: "spent p q m \<Longrightarrow> spent q r n \<Longrightarrow> spent p r (m + n)"
  unfolding spent_def
  by (elim exE conjE) (rule_tac x = "k + ka" in exI, auto simp: max_def split: if_splits)

lemma store_read_spent:
  assumes "int (length (rd_content rd)) \<le> n" and "int (length (rd_content rd)) \<le> max 0 (po_budget p)" and "0 \<le> n"
  shows "spent p (snd (store_read sha env w strm current rd p)) n"
  unfolding store_read_def Let_def using assms
  by (auto simp: spent_def split: sum.split prod.split option.split)

lemma poll_stream_spent:
  assumes "\<And>path. bounded_reads (ev_transport env (wa_watch_id w) path)" and "0 \<le> pl_stream_bytes pol"
  shows "spent p (snd (poll_stream sha env pol w src strm p)) (pl_stream_bytes pol)"
proof -
  have "spent p (snd (store_read sha env w strm current rd (p\<lparr>po_lease := l, po_db := db, po_available := a\<rparr>))) (pl_stream_bytes pol)"
    if "read_next now src strm current (min (po_budget p) (pl_stream_bytes pol))
          (ev_transport env (wa_watch_id w) (path_for src strm)) = Inr rd" for now current rd l db a
    using store_read_spent [of rd "pl_stream_bytes pol" "p\<lparr>po_lease := l, po_db := db, po_available := a\<rparr>"]
      read_next_length [OF that assms(1)] assms(2) by (simp add: spent_def)
  then show ?thesis
    unfolding poll_stream_def Let_def using assms(2)
    by (auto split: sum.split prod.split intro: spent_none)
qed

lemma settle_spent: "po_budget (snd (settle_watch env pol w p)) = po_budget p \<and> po_total (snd (settle_watch env pol w p)) = po_total p"
  unfolding settle_watch_def Let_def by (simp split: sum.split prod.split option.split)

lemma poll_streams_spent:
  assumes "\<And>path. bounded_reads (ev_transport env (wa_watch_id w) path)" and "0 \<le> pl_stream_bytes pol"
  shows "spent p (snd (poll_streams sha env pol w src p)) (2 * pl_stream_bytes pol)"
proof (cases "poll_stream sha env pol w src STDOUT p")
  case (Pair r q)
  have one: "spent p q (pl_stream_bytes pol)"
    using poll_stream_spent [OF assms, of p sha src STDOUT] Pair by simp
  have two: "spent q (snd (poll_stream sha env pol w src STDERR q)) (pl_stream_bytes pol)"
    by (rule poll_stream_spent) (fact assms)+
  have "spent p q (2 * pl_stream_bytes pol)" using one assms(2) by (auto simp: spent_def)
  with spent_trans [OF one two] Pair show ?thesis
    by (auto simp: poll_streams_def split: option.split)
qed

definition honest_env :: "env \<Rightarrow> bool" where
  "honest_env env \<longleftrightarrow> (\<forall>k path. bounded_reads (ev_transport env k path))"

lemma process_spent:
  assumes "honest_env env" and "0 \<le> pl_stream_bytes pol" and "process_watch sha env pol w budget tk = (r, b, tk')"
  shows "\<exists>k. 0 \<le> k \<and> k \<le> 2 * pl_stream_bytes pol \<and> k \<le> max 0 budget \<and> b = budget - k \<and> tk_bytes tk' = tk_bytes tk + k"
proof -
  let ?P = "\<lambda>b t. \<exists>k. 0 \<le> k \<and> k \<le> 2 * pl_stream_bytes pol \<and> k \<le> max 0 budget \<and> b = budget - k \<and> t = tk_bytes tk + k"
  have none: "?P budget (tk_bytes tk)" using assms(2) by auto
  have tried: "?P (po_budget p') (po_total p')"
    if t: "try_watch sha env pol w p n = (x, p', m)" and p: "po_budget p = budget" "po_total p = tk_bytes tk" for p n x p' m
  proof (cases "ev_resolve env (wa_run_id w) (wa_owner w) (wa_connection_id w)")
    case (Inl e)
    with t p none show ?thesis by (simp add: try_watch_def)
  next
    case (Inr src)
    obtain y q where q: "poll_streams sha env pol w src p = (y, q)" by fastforce
    have "spent p q (2 * pl_stream_bytes pol)"
      using poll_streams_spent [of env w pol p sha src] assms(1,2) q by (simp add: honest_env_def)
    moreover have "po_budget p' = po_budget q \<and> po_total p' = po_total q"
      using t Inr q settle_spent [of env pol w q] by (auto simp: try_watch_def split: option.splits prod.splits)
    ultimately show ?thesis using p by (auto simp: spent_def)
  qed
  show ?thesis
    using assms(3) none tried unfolding process_watch_def Let_def
    by (auto split: sum.splits prod.splits option.splits if_splits)
qed

lemma watch_loop_bytes:
  assumes "honest_env env" and "0 \<le> pl_stream_bytes pol"
  shows "tk_bytes tk \<le> tk_bytes (snd (watch_loop sha env pol ws budget tk)) \<and>
    tk_bytes (snd (watch_loop sha env pol ws budget tk)) \<le> tk_bytes tk + max 0 budget"
  using assms
proof (induction sha env pol ws budget tk rule: watch_loop.induct)
  case (2 sha env pol w ws budget tk)
  show ?case
  proof (cases "budget \<le> 0")
    case False
    obtain r b tk' where pr: "process_watch sha env pol w budget tk = (r, b, tk')" by (cases "process_watch sha env pol w budget tk")
    from process_spent [OF "2.prems" pr] obtain k where
      k: "0 \<le> k" "k \<le> max 0 budget" "b = budget - k" "tk_bytes tk' = tk_bytes tk + k" by blast
    show ?thesis
    proof (cases r)
      case None
      have "tk_bytes tk' \<le> tk_bytes (snd (watch_loop sha env pol ws b tk')) \<and>
        tk_bytes (snd (watch_loop sha env pol ws b tk')) \<le> tk_bytes tk' + max 0 b"
        using "2.IH" [OF False pr [symmetric]] None "2.prems" pr by simp
      with False pr None k show ?thesis by simp
    next
      case (Some e)
      with False pr k show ?thesis by simp
    qed
  qed simp
qed simp

lemma connection_loop_bytes:
  assumes "honest_env env" and "0 \<le> pl_stream_bytes pol" and "0 \<le> pl_connection_bytes pol"
  shows "tk_bytes (snd (connection_loop sha env pol due cs tk)) \<le> tk_bytes tk + int (length cs) * pl_connection_bytes pol"
  using assms
proof (induction sha env pol due cs tk rule: connection_loop.induct)
  case (2 sha env pol due c cs tk)
  obtain r tk' where wl: "watch_loop sha env pol (filter (\<lambda>w. wa_connection_id w = c) due) (pl_connection_bytes pol) tk = (r, tk')"
    by fastforce
  have bytes: "tk_bytes tk' \<le> tk_bytes tk + pl_connection_bytes pol"
    using watch_loop_bytes [OF "2.prems"(1,2), of tk sha "filter (\<lambda>w. wa_connection_id w = c) due" "pl_connection_bytes pol"]
      wl "2.prems"(3) by simp
  have rest: "tk_bytes (snd (connection_loop sha env pol due cs tk')) \<le> tk_bytes tk' + int (length cs) * pl_connection_bytes pol"
    if "ev_connect env c" "r = None"
    using "2.IH" [of r tk'] that wl "2.prems" by simp
  have pos: "0 \<le> int (length cs) * pl_connection_bytes pol" using "2.prems"(3) by simp
  have eq: "tk_bytes tk + int (length (c # cs)) * pl_connection_bytes pol =
      tk_bytes tk + pl_connection_bytes pol + int (length cs) * pl_connection_bytes pol" by (simp add: distrib_right)
  have stop: "tk_bytes tk' \<le> tk_bytes tk + pl_connection_bytes pol + int (length cs) * pl_connection_bytes pol"
    "tk_bytes tk \<le> tk_bytes tk + pl_connection_bytes pol + int (length cs) * pl_connection_bytes pol"
    using bytes pos "2.prems"(3) by linarith+
  show ?case
    unfolding eq using wl stop rest bytes by (cases r) auto
qed simp

lemma tick_bytes:
  assumes "honest_env env" and "is_instance policy_post_init pol"
  shows "tk_bytes (snd (tick sha env pol db)) \<le> pl_max_connections pol * pl_connection_bytes pol"
proof -
  have pol: "0 < pl_stream_bytes pol" "0 < pl_connection_bytes pol" "0 < pl_max_connections pol"
    using assms(2) by (simp_all add: is_instance_def policy_post_init_def)
  have start: "tk_bytes (handoff_loop env callback ws tk) = tk_bytes tk" for callback ws tk
    by (induction env callback ws tk rule: handoff_loop.induct) simp_all
  have "tk_bytes (snd (connection_loop sha env pol due (take (nat (pl_max_connections pol)) cs) tk))
      \<le> tk_bytes tk + pl_max_connections pol * pl_connection_bytes pol" for due cs tk
  proof -
    let ?cs = "take (nat (pl_max_connections pol)) cs"
    have "int (length ?cs) \<le> pl_max_connections pol" using pol(3) by simp
    then have "int (length ?cs) * pl_connection_bytes pol \<le> pl_max_connections pol * pl_connection_bytes pol"
      using pol(2) by (intro mult_right_mono) auto
    moreover have "tk_bytes (snd (connection_loop sha env pol due ?cs tk)) \<le> tk_bytes tk + int (length ?cs) * pl_connection_bytes pol"
      using pol by (intro connection_loop_bytes [OF assms(1)]) simp_all
    ultimately show ?thesis by linarith
  qed
  note loops = this
  have "0 \<le> pl_max_connections pol * pl_connection_bytes pol" using pol by simp
  moreover have "tk_bytes (snd (connection_loop sha env pol due (take (nat (pl_max_connections pol)) cs) tk))
      \<le> pl_max_connections pol * pl_connection_bytes pol" if "tk_bytes tk = 0" for due cs tk
    using loops [of due cs tk] that by simp
  ultimately show ?thesis
    unfolding tick_def Let_def by (auto simp: start split: sum.split option.split)
qed

end
