(* ===== verification/WatchServiceProps.thy ===== *)
theory WatchServiceProps
  imports WatchServiceSafety
begin

text \<open>
  The properties of the reader and the service: decoding does not depend on how the log was cut into
  reads, committed bytes are the file's bytes, log files stay below the authorized roots, a tick keeps
  every invariant of the store and its byte budget.
\<close>

section \<open>Committed bytes are file bytes\<close>

definition committed_text :: "watch_db \<Rightarrow> string \<times> string \<times> stream \<Rightarrow> int \<Rightarrow> string" where
  \<comment> \<open>the stored content of a generation of a stream, segment after segment\<close>
  "committed_text db k g = concat (map (\<lambda>s. case db_contents db (sg_content_sha256 s) of None \<Rightarrow> [] | Some c \<Rightarrow> c)
     (filter (\<lambda>s. seg_ors s = k \<and> sg_generation s = g) (db_segments db)))"

definition reads_file :: "transport \<Rightarrow> string \<Rightarrow> bool" where
  \<comment> \<open>the transport answers range reads from a file with content \<open>f\<close>\<close>
  "reads_file tp f \<longleftrightarrow> (\<forall>off n content. tp_read tp off n = Inr content \<longrightarrow> content = take (nat n) (drop (nat off) f))"

lemma reads_file_bounded: "reads_file tp f \<Longrightarrow> bounded_reads tp"
proof -
  have "int (length (take (nat n) (drop (nat off) f))) \<le> max 0 n" for off n by simp
  moreover assume "reads_file tp f"
  ultimately show "bounded_reads tp" unfolding reads_file_def bounded_reads_def by metis
qed

lemma get_cursor_row:
  assumes "get_cursor run_id owner strm db = Inr c"
  shows "\<exists>r \<in> set (db_cursors db). cr_cursor r = c \<and> ors r = (owner, run_id, strm) \<and> is_instance cursor_post_init c"
  using assms by (auto simp: get_cursor_def is_instance_def ors_def split: option.splits dest!: fetchone_Some
      dest: cursor_post_init_eq)

lemma get_cursor_of_row:
  assumes "keyed ors (db_cursors db)" and "r \<in> set (db_cursors db)" and "ors r = (owner, run_id, strm)"
    and "is_instance cursor_post_init (cr_cursor r)"
  shows "get_cursor run_id owner strm db = Inr (cr_cursor r)"
proof -
  have "row_of ors (owner, run_id, strm) (db_cursors db) = Some r" using assms(1-3) by (simp add: row_of_Some_iff)
  then have "fetchone (\<lambda>r. cu_run_id (cr_cursor r) = run_id \<and> cu_owner (cr_cursor r) = owner \<and> cu_stream (cr_cursor r) = strm)
      (db_cursors db) = Some r"
    unfolding row_of_def by (subst (asm) fetchone_cong) (auto simp: ors_def)
  with assms(4) show ?thesis by (simp add: get_cursor_def is_instance_def)
qed

text \<open>What a successful commit of a fresh read does.\<close>

lemma commit_fresh:
  assumes "reachable_watch sha db" and c: "get_cursor (dr_run_id d) (dr_owner d) (dr_stream d) db = Inr c"
    and commit: "commit_segment sha now l d nx db = (Inr seg, db')"
    and "cu_version nx \<noteq> cu_version c" and l: "wl_run_id l = dr_run_id d" "wl_owner l = dr_owner d"
  shows "seg = candidate_segment sha now l d \<and>
    db_contents db' = db_contents (snd (write_content sha (sha (dr_content d)) (dr_content d) db)) \<and>
    fst (write_content sha (sha (dr_content d)) (dr_content d) db) = Inr () \<and>
    db_segments db' = db_segments db @ [seg] \<and>
    (\<exists>r \<in> set (db_cursors db'). ors r = (dr_owner d, dr_run_id d, dr_stream d) \<and> cr_cursor r = nx)"
proof -
  let ?cand = "candidate_segment sha now l d" and ?w = "snd (write_content sha (sha (dr_content d)) (dr_content d) db)"
  have key: "keyed ors (db_cursors db)" using reachable_log_inv [OF assms(1)] by (simp add: log_inv_def)
  obtain x where x: "x \<in> set (db_cursors db)" "cr_cursor x = c" "ors x = (dr_owner d, dr_run_id d, dr_stream d)"
    using get_cursor_row [OF c] by blast
  show ?thesis
  proof (cases rule: commit_segment_cases [of sha now l d nx db])
    case transaction
    have run: "commit_transaction now l d nx ?cand ?w = (Inr seg, db')" using transaction(6) commit by simp
    have keyw: "keyed ors (db_cursors ?w)" using key by (simp add: content_watches)
    from commit_replay_state [OF run keyw] obtain y where y: "y \<in> set (db_cursors db')" "lease_cursor l (dr_stream d) y" "cr_cursor y = nx"
      by blast
    have oy: "ors y = (dr_owner d, dr_run_id d, dr_stream d)" using y(2) l by (simp add: lease_cursor_def ors_def)
    from commit_transaction_Inr [OF run keyw] show ?thesis
    proof (elim disjE bexE conjE)
      assume "db' = ?w"
      then have "y \<in> set (db_cursors db)" using y(1) by (simp add: content_watches)
      then have "y = x" using keyed_eqI [OF key _ x(1)] oy x(3) by simp
      with y(3) x(2) assms(4) show ?thesis by simp
    next
      fix r
      assume "seg = ?cand" "db' = ?w\<lparr>db_segments := db_segments ?w @ [?cand],
                db_cursors := put_row ors (upd_cursor nx r) (db_cursors ?w)\<rparr>"
      with y oy transaction(5) show ?thesis by (auto simp: content_watches)
    qed
  qed (use commit in simp_all)
qed

lemma committed_text_append:
  assumes "content_inv sha db" and "fst (write_content sha (sha content) content db) = Inr ()"
    and "\<forall>x. db_contents db (sha content) = Some x \<longrightarrow> x = content"
    and "db_contents db' = db_contents (snd (write_content sha (sha content) content db))"
    and "db_segments db' = db_segments db @ [seg]" and "sg_content_sha256 seg = sha content"
  shows "committed_text db' (seg_ors seg) (sg_generation seg) = committed_text db (seg_ors seg) (sg_generation seg) @ content"
proof -
  have new: "db_contents db' (sha content) = Some content"
    using assms(2,3,4) by (auto simp: write_content_def split: option.splits)
  have old: "db_contents db' (sg_content_sha256 s) = db_contents db (sg_content_sha256 s)" if "s \<in> set (db_segments db)" for s
  proof -
    have "on_disk db s" using assms(1) that by (simp add: content_inv_def list_all_iff)
    then obtain x where "db_contents db (sg_content_sha256 s) = Some x" by (auto simp: on_disk_def split: option.splits)
    with write_kept [of db sha "sha content" content] assms(4) show ?thesis by (simp add: contents_kept_def)
  qed
  have same: "map (\<lambda>s. case db_contents db' (sg_content_sha256 s) of None \<Rightarrow> [] | Some c \<Rightarrow> c)
      (filter (\<lambda>s. seg_ors s = seg_ors seg \<and> sg_generation s = sg_generation seg) (db_segments db)) =
    map (\<lambda>s. case db_contents db (sg_content_sha256 s) of None \<Rightarrow> [] | Some c \<Rightarrow> c)
      (filter (\<lambda>s. seg_ors s = seg_ors seg \<and> sg_generation s = sg_generation seg) (db_segments db))"
    by (rule map_cong [OF refl]) (use old in auto)
  show ?thesis
    unfolding committed_text_def assms(5) filter_append map_append concat_append same using new assms(6) by simp
qed

text \<open>C4. The committed log mirrors the file: if the bytes committed for the current generation are the
  file's first bytes up to the cursor (nothing is required after a rotation), the transport reads from
  that file, and the digest of the bytes read does not collide with a stored one, then committing the
  read leaves the committed bytes of its generation equal to the file's first bytes up to the new cursor.\<close>

theorem committed_log_mirrors_file:
  assumes "reachable_watch sha db" and "get_cursor (wa_run_id w) (wa_owner w) strm db = Inr c"
    and "read_next now src strm c max_bytes tp = Inr rd" and "reads_file tp f"
    and "commit_segment sha now' l (draft_of w strm c rd) (rd_next rd) db = (Inr seg, db')"
    and "wl_run_id l = wa_run_id w" "wl_owner l = wa_owner w"
    and "\<forall>x. db_contents db (sha (rd_content rd)) = Some x \<longrightarrow> x = rd_content rd"
    and "\<not> rd_rotated rd \<longrightarrow> committed_text db (wa_owner w, wa_run_id w, strm) (cu_generation c) = take (nat (cu_offset c)) f"
  shows "committed_text db' (wa_owner w, wa_run_id w, strm) (cu_generation (rd_next rd)) = take (nat (cu_offset (rd_next rd))) f \<and>
    get_cursor (wa_run_id w) (wa_owner w) strm db' = Inr (rd_next rd)"
proof -
  let ?d = "draft_of w strm c rd" and ?k = "(wa_owner w, wa_run_id w, strm)"
  have log: "log_inv db" using assms(1) by (rule reachable_log_inv)
  obtain r where r: "r \<in> set (db_cursors db)" "cr_cursor r = c" "ors r = ?k" "is_instance cursor_post_init c"
    using get_cursor_row [OF assms(2)] by blast
  have nonneg: "0 \<le> cu_offset c" using r(4) by (simp add: is_instance_def cursor_post_init_def cursor_checks_def)
  have d: "dr_run_id ?d = wa_run_id w" "dr_owner ?d = wa_owner w" "dr_stream ?d = strm" "dr_content ?d = rd_content rd"
    "dr_generation ?d = cu_generation (rd_next rd)"
    by (simp_all add: draft_of_def)
  define off where "off = (if rd_rotated rd then 0 else cu_offset c)"
  have rd: "cu_version (rd_next rd) = cu_version c + 1 \<and> is_instance cursor_post_init (rd_next rd) \<and>
      cu_generation (rd_next rd) = (if rd_rotated rd then cu_generation c + 1 else cu_generation c) \<and>
      cu_offset (rd_next rd) = off + int (length (rd_content rd)) \<and>
      (\<exists>n. rd_content rd = take n (drop (nat off) f))"
    using assms(3)
  proof (cases rule: read_next_cases)
    case missing
    then show ?thesis by (auto simp: missing_cursor_def off_def intro: exI [of _ "0::nat"])
  next
    case (available st offset prior content)
    have offset: "offset = off" using available(3) by (simp add: off_def)
    have "\<exists>n. content = take n (drop (nat off) f)"
    proof (cases "off < fs_size st")
      case True
      with available(5) offset have "tp_read tp off (min max_bytes (fs_size st - off)) = Inr content" by simp
      with assms(4) show ?thesis unfolding reads_file_def by blast
    next
      case False
      with available(5) offset show ?thesis by (intro exI [of _ "0::nat"]) simp
    qed
    with available show ?thesis by (simp add: next_cursor_def off_def)
  qed
  have fresh: "seg = candidate_segment sha now' l ?d \<and>
    db_contents db' = db_contents (snd (write_content sha (sha (rd_content rd)) (rd_content rd) db)) \<and>
    fst (write_content sha (sha (rd_content rd)) (rd_content rd) db) = Inr () \<and>
    db_segments db' = db_segments db @ [seg] \<and> (\<exists>r \<in> set (db_cursors db'). ors r = ?k \<and> cr_cursor r = rd_next rd)"
    using commit_fresh [OF assms(1) _ assms(5), of c] assms(2,6,7) rd by (simp add: d)
  then have seg: "seg_ors seg = ?k" "sg_generation seg = cu_generation (rd_next rd)" "sg_content_sha256 seg = sha (rd_content rd)"
    by (simp_all add: candidate_fields d) (simp add: candidate_segment_def d)
  have "committed_text db' ?k (cu_generation (rd_next rd)) = committed_text db ?k (cu_generation (rd_next rd)) @ rd_content rd"
    using committed_text_append [OF reachable_content [OF assms(1)], of "rd_content rd" db' seg] fresh assms(8) seg by simp
  moreover have "committed_text db ?k (cu_generation (rd_next rd)) = take (nat off) f"
  proof (cases "rd_rotated rd")
    case True
    have "tiled (db_segments db) r" using log r(1) by (simp add: log_inv_def list_all_iff)
    from tiledD(1) [OF this, of "cu_generation c + 1"] r(2,3) True rd show ?thesis
      by (simp add: committed_text_def generation_segments_def off_def)
  next
    case False
    with assms(9) rd show ?thesis by (simp add: off_def)
  qed
  moreover have "take (nat off) f @ rd_content rd = take (nat (cu_offset (rd_next rd))) f"
  proof -
    from rd obtain n where n: "rd_content rd = take n (drop (nat off) f)" by blast
    have "take (length (rd_content rd)) (drop (nat off) f) = rd_content rd"
      unfolding n by (metis append_eq_conv_conj append_take_drop_id)
    moreover have "nat (cu_offset (rd_next rd)) = nat off + length (rd_content rd)"
      using rd nonneg by (simp add: off_def nat_add_distrib)
    ultimately show ?thesis by (simp add: take_add)
  qed
  moreover have "get_cursor (wa_run_id w) (wa_owner w) strm db' = Inr (rd_next rd)"
  proof -
    have "reachable_watch sha db'"
      using reachable_watch_step [OF assms(1) w_commit [of sha db now' l ?d "rd_next rd"]] assms(5) by simp
    then have "keyed ors (db_cursors db')" using reachable_log_inv by (auto simp: log_inv_def)
    with fresh rd show ?thesis by (auto dest: get_cursor_of_row)
  qed
  ultimately show ?thesis by simp
qed

text \<open>The concrete run of the witness: the first five bytes of a file, read and committed.\<close>

definition v_watch :: watch where
  "v_watch = wr_watch (new_watch_row (w_time 0) w_id ''run'' ''ann'' ''conn'')"

definition v_path :: safe_path where
  "v_path = safe_log (parse_path ''/home/ann'') (parse_path ''/home'') ''7'' ''out''"

definition v_source :: log_source where
  "v_source = \<lparr>ls_run_id = ''run'', ls_owner = ''ann'', ls_stdout = v_path, ls_stderr = v_path\<rparr>"

definition v_transport :: "string \<Rightarrow> transport" where
  "v_transport f = \<lparr>tp_stat = Inr \<lparr>fs_kind = ''regular file'', fs_owner_readable = True, fs_size = int (length f),
       fs_mtime = 0, fs_identity = None, fs_prefix = None\<rparr>,
     tp_read = (\<lambda>off n. Inr (take (nat n) (drop (nat off) f)))\<rparr>"

definition v_next :: cursor where
  "v_next = (initial_cursor ''run'' ''ann'' STDOUT)\<lparr>cu_offset := 5, cu_source_size := 5, cu_source_mtime := Some 0,
     cu_last_data_at := Some (w_time 2), cu_last_checked_at := Some (w_time 2), cu_version := 1\<rparr>"

definition v_read :: log_read where
  "v_read = \<lparr>rd_content = ''hello'', rd_text = [104, 101, 108, 108, 111], rd_next = v_next, rd_rotated = False, rd_available = True\<rparr>"

definition v_committed :: watch_db where
  "v_committed = w_committed\<lparr>db_cursors := [\<lparr>cr_watch_id = w_id, cr_cursor = v_next\<rparr>,
                    \<lparr>cr_watch_id = w_id, cr_cursor = initial_cursor ''run'' ''ann'' STDERR\<rparr>]\<rparr>"

lemma v_next_ok: "cursor_post_init v_next = Inr v_next"
  by (simp add: cursor_post_init_def cursor_checks_def v_next_def initial_cursor_def w_text b64_size_def)

lemma v_bytes: "map byte ''hello'' = [104, 101, 108, 108, 111]"
  by (simp add: byte_def)

lemma v_decode: "utf8_feed [104, 101, 108, 108, 111] = ([104, 101, 108, 108, 111], [])"
  by (simp add: continuation_def code_point_def Let_def)

lemma v_read_run: "read_next (w_time 2) v_source STDOUT (initial_cursor ''run'' ''ann'' STDOUT) 65536 (v_transport ''hello'') = Inr v_read"
proof -
  have "utf8_text ''hello'' = [104, 101, 108, 108, 111]" "utf8_rest ''hello'' = []"
    unfolding utf8_text_def utf8_rest_def v_bytes v_decode by simp_all
  moreover have "next_cursor (w_time 2) (initial_cursor ''run'' ''ann'' STDOUT)
      \<lparr>fs_kind = ''regular file'', fs_owner_readable = True, fs_size = 5, fs_mtime = 0, fs_identity = None, fs_prefix = None\<rparr>
      0 0 ''hello'' [] = v_next"
    by (simp add: next_cursor_def v_next_def initial_cursor_def)
  ultimately show ?thesis
    using v_next_ok
    by (simp add: read_next_def read_available_def v_transport_def v_source_def is_rotated_def v_read_def initial_cursor_def Let_def
        lift_watch_def)
qed

lemma v_commit_run: "commit_segment w_sha (w_time 2) (w_lease 1 ''w1'' 11) w_draft v_next w_claimed = (Inr w_segment, v_committed)"
proof -
  let ?db1 = "w_claimed\<lparr>db_contents := (\<lambda>_. None)(w_sha [] := Some ''hello'')\<rparr>"
  have written: "write_content w_sha (w_sha (dr_content w_draft)) (dr_content w_draft) w_claimed = (Inr (), ?db1)"
    by (simp add: write_content_def w_claimed_def w_created_def w_draft_def w_sha_const [of "_ # _"])
  have "commit_transaction (w_time 2) (w_lease 1 ''w1'' 11) w_draft v_next w_segment ?db1 = (Inr w_segment, v_committed)"
    using w_lease_row [of 2] w_cursor_ok [of STDOUT]
    by (simp add: commit_transaction_def w_claimed_def w_created_def v_committed_def w_committed_def lease_cursor_def
        w_lease_def w_draft_def v_next_def validate_segment_transition_def draft_end_offset_def
        cursor_where_def upd_cursor_def rowcount_def initial_cursor_def)
  moreover have "is_instance cursor_post_init v_next" using v_next_ok by (simp add: is_instance_def)
  ultimately show ?thesis
    using w_instances w_segment_ok written by (simp add: commit_segment_def w_segment_def)
qed

lemma v_draft: "draft_of v_watch STDOUT (initial_cursor ''run'' ''ann'' STDOUT) v_read = w_draft"
  by (simp add: draft_of_def v_watch_def v_read_def w_draft_def new_watch_row_def v_next_def initial_cursor_def)

lemma v_reads: "reads_file (v_transport f) f"
  by (simp add: reads_file_def v_transport_def)

theorem committed_log_mirrors_file_witness:
  "committed_text v_committed (''ann'', ''run'', STDOUT) 0 = ''hello'' \<and> get_cursor ''run'' ''ann'' STDOUT v_committed = Inr v_next"
proof -
  have "get_cursor ''run'' ''ann'' STDOUT w_claimed = Inr (initial_cursor ''run'' ''ann'' STDOUT)"
    using w_cursor_ok [of STDOUT] by (simp add: get_cursor_def w_claimed_def w_created_def initial_cursor_def)
  then have current: "get_cursor (wa_run_id v_watch) (wa_owner v_watch) STDOUT w_claimed = Inr (initial_cursor ''run'' ''ann'' STDOUT)"
    by (simp add: v_watch_def new_watch_row_def)
  have "committed_text v_committed (wa_owner v_watch, wa_run_id v_watch, STDOUT) (cu_generation (rd_next v_read)) =
      take (nat (cu_offset (rd_next v_read))) ''hello'' \<and>
    get_cursor (wa_run_id v_watch) (wa_owner v_watch) STDOUT v_committed = Inr (rd_next v_read)"
    using w_reachable_claimed current v_read_run v_reads
  proof (rule committed_log_mirrors_file)
    show "commit_segment w_sha (w_time 2) (w_lease 1 ''w1'' 11)
        (draft_of v_watch STDOUT (initial_cursor ''run'' ''ann'' STDOUT) v_read) (rd_next v_read) w_claimed = (Inr w_segment, v_committed)"
      unfolding v_draft using v_commit_run by (simp add: v_read_def)
  qed (simp_all add: v_watch_def new_watch_row_def w_lease_def w_claimed_def w_created_def committed_text_def initial_cursor_def)
  then show ?thesis
    by (simp add: v_watch_def new_watch_row_def v_read_def v_next_def initial_cursor_def)
qed

section \<open>Decoding\<close>

text \<open>Decoding does not depend on where reads cut the log: over any sequence of reads of one generation
  from a fresh cursor, polls of a missing file included, the texts together are the one-pass UTF-8 decoding
  of the bytes together, and the bytes kept for the next read are at most three.\<close>

theorem decoding_ignores_read_boundaries:
  assumes "read_chain (initial_cursor run_id owner strm) reads c"
  shows "concat (map rd_text reads) = utf8_text (concat (map rd_content reads)) \<and>
    length (b64_decode (cu_remainder_base64 c)) \<le> 3"
proof -
  have empty: "utf8_rest [] = []" "utf8_text [] = []" by (simp_all add: utf8_rest_def utf8_text_def)
  have start: "b64_decode (cu_remainder_base64 (initial_cursor run_id owner strm)) = utf8_rest []"
    by (simp add: initial_cursor_def empty)
  from read_chain_text [OF assms start] utf8_remainder_le [of "map byte (concat (map rd_content reads))"]
  show ?thesis by (simp add: empty) (simp add: utf8_rest_def)
qed

theorem decoding_ignores_read_boundaries_witness:
  "concat (map rd_text [v_read]) = utf8_text (concat (map rd_content [v_read])) \<and> length (b64_decode (cu_remainder_base64 v_next)) \<le> 3"
proof (rule decoding_ignores_read_boundaries)
  show "read_chain (initial_cursor ''run'' ''ann'' STDOUT) [v_read] v_next"
    using rc_read [OF v_read_run _, of "[]" v_next] rc_stop [of v_next] by (simp add: v_read_def)
qed

section \<open>Confinement\<close>

lemma no_slash_in_job: "list_all job_char j \<Longrightarrow> CHR ''/'' \<notin> set j"
  by (auto simp: list_all_iff job_char_def letter_def byte_def)

lemma relative_child:
  assumes "is_relative_to p q"
  shows "is_relative_to (path_child p n) q"
proof -
  have t: "take (length (pa_parts q)) (pa_parts p) = pa_parts q" using assms by (simp add: is_relative_to_def)
  then have "length (pa_parts q) \<le> length (pa_parts p)" by (metis length_take min.cobounded1)
  with t assms show ?thesis by (simp add: is_relative_to_def path_child_def)
qed

text \<open>C40. The log files of a Run are below an authorized root: whatever working directory and job id the
  Run record holds, a resolved source names, for both streams, a file directly in that working directory,
  without \<open>..\<close> in its path and without a slash in its name, below one of the allowed roots, and the Run is
  the caller's.\<close>

theorem log_files_are_confined:
  assumes "resolve_source get_run allowed run_id owner = Inr src"
  shows "\<exists>run workdir name. get_run run_id = Inr run \<and> rv_owner run = owner \<and> workdir = parse_path (rv_workdir run) \<and>
    pa_parts (sp_resolved (path_for src strm)) = pa_parts workdir @ [name] \<and> CHR ''/'' \<notin> set name \<and> name \<noteq> ''..'' \<and>
    ''..'' \<notin> set (pa_parts (sp_resolved (path_for src strm))) \<and>
    sp_root (path_for src strm) \<in> set allowed \<and>
    is_relative_to (sp_resolved (path_for src strm)) (sp_root (path_for src strm))"
proof -
  obtain run j anchor where run: "get_run run_id = Inr run" "rv_owner run = owner" and j: "rv_job_id run = Some j" "list_all job_char j"
    and dots: "''..'' \<notin> set (pa_parts (parse_path (rv_workdir run)))"
    and anchor: "anchor \<in> set allowed" "parse_path (rv_workdir run) = anchor \<or> is_relative_to (parse_path (rv_workdir run)) anchor"
    and src: "src = \<lparr>ls_run_id = run_id, ls_owner = owner, ls_stdout = safe_log (parse_path (rv_workdir run)) anchor j ''out'',
           ls_stderr = safe_log (parse_path (rv_workdir run)) anchor j ''err''\<rparr>"
    using assms by (auto simp: resolve_source_def Let_def bind_res_Inr_iff split: option.splits dest!: fetchone_Some)
  have "\<exists>suffix. path_for src strm = safe_log (parse_path (rv_workdir run)) anchor j suffix \<and> CHR ''/'' \<notin> set suffix"
    using src by (cases strm) (auto intro: exI [of _ "''out''"] exI [of _ "''err''"])
  then obtain suffix where suffix: "path_for src strm = safe_log (parse_path (rv_workdir run)) anchor j suffix"
      "CHR ''/'' \<notin> set suffix" by blast
  let ?name = "''slurm-'' @ j @ ''.'' @ suffix"
  have "is_relative_to (parse_path (rv_workdir run)) anchor" using anchor(2) by (auto simp: is_relative_to_def)
  then have "is_relative_to (path_child (parse_path (rv_workdir run)) ?name) anchor" by (rule relative_child)
  with run suffix no_slash_in_job [OF j(2)] dots anchor(1) show ?thesis
    by (intro exI [of _ run] exI [of _ "parse_path (rv_workdir run)"] exI [of _ ?name])
      (auto simp: safe_log_def Let_def path_child_def)
qed

theorem log_files_are_confined_witness:
  "is_relative_to (sp_resolved v_path) (sp_root v_path) \<and> sp_root v_path \<in> set [parse_path ''/home'']"
proof -
  have "resolve_source (\<lambda>_. Inr \<lparr>rv_owner = ''ann'', rv_job_id = Some ''7'', rv_workdir = ''/home/ann''\<rparr>)
      [parse_path ''/home''] ''run'' ''ann'' = Inr \<lparr>ls_run_id = ''run'', ls_owner = ''ann'', ls_stdout = v_path,
        ls_stderr = safe_log (parse_path ''/home/ann'') (parse_path ''/home'') ''7'' ''err''\<rparr>"
    by (simp add: resolve_source_def parse_path_def is_relative_to_def job_char_def letter_def byte_def v_path_def Let_def)
  from log_files_are_confined [OF this, of STDOUT] show ?thesis by auto
qed

section \<open>The tick\<close>


definition v_env :: env where
  "v_env = \<lparr>ev_now = (\<lambda>_ _. w_time 2), ev_transport = (\<lambda>_ _. v_transport ''hello''), ev_connect = (\<lambda>_. True),
     ev_resolve = (\<lambda>_ _ _. Inr v_source), ev_drained = None, ev_worker = ''w1'', ev_boundary = 512\<rparr>"


text \<open>A tick stays within its byte budget: when range reads return no more than they were asked for,
  the bytes a tick reads and commits are at most \<open>max_connections_per_tick\<close> times
  \<open>max_bytes_per_connection_tick\<close>, for every validated policy.\<close>

theorem tick_stays_in_budget:
  assumes "honest_env env" and "policy_post_init pol = Inr pol"
  shows "tk_bytes (snd (tick sha env pol db)) \<le> pl_max_connections pol * pl_connection_bytes pol"
  using assms(1) by (rule tick_bytes) (simp add: is_instance_def assms(2))

theorem tick_stays_in_budget_witness:
  "tk_bytes (snd (tick w_sha v_env default_policy w_created)) \<le> 4 * 4194304"
proof -
  have "honest_env v_env"
    using reads_file_bounded [OF v_reads] by (simp add: honest_env_def v_env_def)
  moreover have "policy_post_init default_policy = Inr default_policy"
    by (simp add: policy_post_init_def default_policy_def)
  ultimately show ?thesis
    using tick_stays_in_budget [of v_env default_policy w_sha w_created] by (simp add: default_policy_def)
qed

section \<open>A drain that does not look\<close>

text \<open>A finalizing watch can be stopped without its standard error ever having been looked at in that
  tick: when reading standard output uses up the connection's budget and leaves it drained, a standard
  error whose cursor stood at the size last seen counts as drained, the watch is stopped, and no later tick
  polls it; neither the size nor the bytes of the file are consulted.\<close>

theorem drain_skips_stderr:
  assumes "wa_state w = W_FINALIZING" and "ev_resolve env (wa_run_id w) (wa_owner w) (wa_connection_id w) = Inr src"
    and "poll_stream sha env pol w src STDOUT p = (None, q)" and "po_budget q \<le> 0"
    and "get_cursor (wa_run_id w) (wa_owner w) STDOUT (po_db q) = Inr out" and "cu_source_size out \<le> cu_offset out"
    and "get_cursor (wa_run_id w) (wa_owner w) STDERR (po_db q) = Inr err" and "cu_source_size err \<le> cu_offset err"
    and "rowcount (watch_lease_row (ev_now env (wa_watch_id w) ''release'') (po_lease q)) (db_watches (po_db q)) = 1"
    and "ev_drained env = None"
  shows "\<exists>r p' m. try_watch sha env pol w p n = (r, p', m) \<and>
    db_watches (po_db p') = sql_update (watch_lease_row (ev_now env (wa_watch_id w) ''release'') (po_lease q))
      (upd_watch_release (ev_now env (wa_watch_id w) ''release'') W_STOPPED None None) (db_watches (po_db q)) \<and>
    db_cursors (po_db p') = db_cursors (po_db q) \<and> db_segments (po_db p') = db_segments (po_db q)"
proof -
  have streams: "poll_streams sha env pol w src p = (None, q)"
    using assms(3,4) by (simp add: poll_streams_def poll_stream_def Let_def)
  have drained: "watch_drained w (po_db q) = Inr True"
    using assms(1,5-8) by (simp add: watch_drained_def stream_drained_def)
  let ?db = "(po_db q)\<lparr>db_watches := sql_update (watch_lease_row (ev_now env (wa_watch_id w) ''release'') (po_lease q))
      (upd_watch_release (ev_now env (wa_watch_id w) ''release'') W_STOPPED None None) (db_watches (po_db q))\<rparr>"
  obtain x where x: "release_watch (ev_now env (wa_watch_id w) ''release'') (po_lease q)
      (next_watch_state w True (po_bytes q) (po_available q)) None None (po_db q) = (x, ?db)"
    using assms(9) by (simp add: release_watch_def next_watch_state_def Let_def)
  show ?thesis
    using assms(2,10) streams drained x
    by (cases x) (auto simp: try_watch_def settle_watch_def Let_def)
qed

definition x_row :: watch_row where
  "x_row = upd_watch_claim ''w1'' (w_time 11) (w_time 1) (upd_drain (w_time 0) (new_watch_row (w_time 0) w_id ''run'' ''ann'' ''conn''))"

definition x_db :: "watch_row \<Rightarrow> watch_db" where
  "x_db r = w_created\<lparr>db_watches := [r]\<rparr>"

definition x_lease :: "nat \<Rightarrow> watch_lease" where
  "x_lease s = \<lparr>wl_watch_id = w_id, wl_run_id = ''run'', wl_owner = ''ann'', wl_worker_id = ''w1'',
     wl_version = 2, wl_fencing_token = 1, wl_expires_at = w_time s\<rparr>"

definition x_row2 :: watch_row where
  "x_row2 = upd_watch_renew (w_time 32) (w_time 2) x_row"

definition x_committed :: watch_db where
  "x_committed = v_committed\<lparr>db_watches := [x_row2]\<rparr>"

definition x_poll :: "watch_lease \<Rightarrow> int \<Rightarrow> int \<Rightarrow> bool \<Rightarrow> watch_db \<Rightarrow> poll" where
  "x_poll l budget bytes available db = \<lparr>po_lease = l, po_budget = budget, po_bytes = bytes, po_total = bytes,
     po_available = available, po_db = db\<rparr>"

definition x_watch :: watch where
  "x_watch = wr_watch (upd_drain (w_time 0) (new_watch_row (w_time 0) w_id ''run'' ''ann'' ''conn''))"

lemma x_lease_row: "watch_lease_row (w_time 2) (x_lease s) x_row" "watch_lease_row (w_time 2) (x_lease s) x_row2"
  by (simp_all add: watch_lease_row_def x_lease_def x_row2_def x_row_def upd_drain_def upd_watch_claim_def upd_watch_renew_def new_watch_row_def)
    (simp_all add: w_time_def sql_after_less days_in_month_def)

lemma x_instance: "is_instance watch_lease_post_init (x_lease s)"
  using w_id_ok by (simp add: is_instance_def watch_lease_post_init_def x_lease_def) (simp add: w_text)

lemma x_renew: "renew_watch (w_time 2) (x_lease 11) 30 (x_db x_row) = (Inr (x_lease 32), x_db x_row2)"
proof -
  have "add_seconds 30 (w_time 2) = Some (w_time 32)" by (simp add: w_time_def)
  moreover have "watch_lease_post_init (x_lease 11\<lparr>wl_expires_at := w_time 32\<rparr>) = Inr (x_lease 32)"
    using x_instance [of 32] by (simp add: is_instance_def x_lease_def)
  ultimately show ?thesis
    using x_lease_row(1) [of 11]
    by (simp add: renew_watch_def watch_lease_seconds_ok_def x_db_def rowcount_def x_row2_def Let_def)
qed

lemma x_commit: "commit_segment w_sha (w_time 2) (x_lease 32) w_draft v_next (x_db x_row2) = (Inr w_segment, x_committed)"
proof -
  let ?db1 = "(x_db x_row2)\<lparr>db_contents := (\<lambda>_. None)(w_sha [] := Some ''hello'')\<rparr>"
  have written: "write_content w_sha (w_sha (dr_content w_draft)) (dr_content w_draft) (x_db x_row2) = (Inr (), ?db1)"
    by (simp add: write_content_def x_db_def w_created_def w_draft_def w_sha_const [of "_ # _"])
  have "commit_transaction (w_time 2) (x_lease 32) w_draft v_next w_segment ?db1 = (Inr w_segment, x_committed)"
    using x_lease_row(2) [of 32] w_cursor_ok [of STDOUT]
    by (simp add: commit_transaction_def x_db_def w_created_def x_committed_def v_committed_def w_committed_def w_claimed_def lease_cursor_def
        x_lease_def w_draft_def v_next_def validate_segment_transition_def draft_end_offset_def
        cursor_where_def upd_cursor_def rowcount_def initial_cursor_def)
  moreover have "candidate_segment w_sha (w_time 2) (x_lease 32) w_draft = w_segment"
    by (simp add: w_segment_def candidate_segment_def x_lease_def w_lease_def)
  moreover have "is_instance cursor_post_init v_next" using v_next_ok by (simp add: is_instance_def)
  ultimately show ?thesis
    using w_instances x_instance w_segment_ok written by (simp add: commit_segment_def)
qed

lemma search_nothing: "(\<And>a. i \<le> a \<Longrightarrow> a < i + n \<Longrightarrow> ends r s a = []) \<Longrightarrow> search_from r s i n = None"
  by (induction r s i n rule: search_from.induct) auto

lemma finditer_nothing: "(\<And>a. a < Suc (length s) \<Longrightarrow> ends r s a = []) \<Longrightarrow> finditer r s 0 = []"
  unfolding finditer.simps [of r s 0] by (simp add: search_nothing)

lemma ends_literal:
  "ends (Lit (c # w)) s i = (case drop i s of [] \<Rightarrow> []
     | d # t \<Rightarrow> if lower d = lower c \<and> map lower (take (length w) t) = map lower w then [i + Suc (length w)] else [])"
  by (cases "drop i s") auto

lemma lower_hello: "lower CHR ''h'' = CHR ''h''" "lower CHR ''e'' = CHR ''e''" "lower CHR ''l'' = CHR ''l''" "lower CHR ''o'' = CHR ''o''"
  by (simp_all add: lower_def byte_def)

lemma lower_first:
  "lower CHR ''M'' = CHR ''m''" "lower CHR ''I'' = CHR ''i''" "lower CHR ''c'' = CHR ''c''" "lower CHR ''N'' = CHR ''n''"
  "lower CHR ''C'' = CHR ''c''" "lower CHR ''n'' = CHR ''n''" "lower CHR ''i'' = CHR ''i''" "lower CHR ''d'' = CHR ''d''"
  "lower CHR ''m'' = CHR ''m''" "lower CHR ''k'' = CHR ''k''"
  by (simp_all add: lower_def byte_def char_of_def bit_iff_odd)

lemma x_no_alert: "rule \<in> set rules \<Longrightarrow> finditer (ru_pattern rule) ''hello'' 0 = []"
proof (rule finditer_nothing)
  fix a
  assume "rule \<in> set rules" "a < Suc (length ''hello'')"
  then have "a \<in> {0, 1, 2, 3, 4, 5}" "rule \<in> set rules" by auto
  then show "ends (ru_pattern rule) ''hello'' a = []"
    unfolding rules_def
    by (auto simp: ends_literal lower_hello lower_first run_length_def simp del: ends.simps(2))
qed

lemma scan_nothing: "(\<And>rule. rule \<in> set rs \<Longrightarrow> finditer (ru_pattern rule) text 0 = []) \<Longrightarrow> scan_rules mk n text rs acc = Inr acc"
  by (induction rs arbitrary: acc) auto

lemma x_evaluate: "evaluate_and_save w_sha v_env (w_time 2) w_segment ''hello'' x_committed = (None, x_committed)"
proof -
  have seg: "sg_content_size w_segment = 5" "sg_start_offset w_segment = 0" "sg_generation w_segment = 0" "sg_end_offset w_segment = 5"
    by (simp_all add: w_segment_def candidate_segment_def w_draft_def draft_end_offset_def)
  have "db_segments x_committed = [w_segment]"
    by (simp add: x_committed_def v_committed_def w_committed_def)
  then have "previous_tail w_sha 512 w_segment x_committed = Inr []"
    using seg by (simp add: previous_tail_def get_previous_segment_def checked_def)
  moreover have "evaluate_segment w_sha 512 w_segment ''hello'' [] (w_time 2) = Inr []"
    using seg scan_nothing [OF x_no_alert] by (simp add: evaluate_segment_def tail_bytes_def)
  ultimately show ?thesis by (simp add: evaluate_and_save_def v_env_def)
qed

lemma x_stdout: "poll_stream w_sha v_env default_policy x_watch v_source STDOUT (x_poll (x_lease 11) 5 0 False (x_db x_row)) =
    (None, x_poll (x_lease 32) 0 5 True x_committed)"
proof -
  have cursor: "get_cursor ''run'' ''ann'' STDOUT (x_db x_row2) = Inr (initial_cursor ''run'' ''ann'' STDOUT)"
    using w_cursor_ok [of STDOUT] by (simp add: get_cursor_def x_db_def w_created_def initial_cursor_def)
  have w: "wa_run_id x_watch = ''run''" "wa_owner x_watch = ''ann''"
    by (simp_all add: x_watch_def upd_drain_def new_watch_row_def)
  have draft: "draft_of x_watch STDOUT (initial_cursor ''run'' ''ann'' STDOUT) v_read = w_draft"
    using v_draft w by (simp add: draft_of_def v_watch_def new_watch_row_def)
  have read: "read_next (w_time 2) v_source STDOUT (initial_cursor ''run'' ''ann'' STDOUT) 5 (v_transport ''hello'') = Inr v_read"
    using v_read_run by (simp add: read_next_def read_available_def v_transport_def v_source_def is_rotated_def initial_cursor_def Let_def)
  have "draft_post_init w_draft = Inr w_draft" using w_instances(2) by (simp add: is_instance_def)
  then have store: "store_read w_sha v_env x_watch STDOUT (initial_cursor ''run'' ''ann'' STDOUT) v_read
      (x_poll (x_lease 32) 5 0 True (x_db x_row2)) = (None, x_poll (x_lease 32) 0 5 True x_committed)"
    using draft x_commit x_evaluate by (simp add: store_read_def v_env_def x_poll_def) (simp add: v_read_def x_evaluate [unfolded v_env_def])
  have poll: "(x_poll (x_lease 11) 5 0 False (x_db x_row))\<lparr>po_lease := x_lease 32, po_db := x_db x_row2, po_available := True\<rparr> =
      x_poll (x_lease 32) 5 0 True (x_db x_row2)" by (simp add: x_poll_def)
  show ?thesis
    using x_renew cursor w read store poll
    by (simp add: poll_stream_def Let_def default_policy_def) (simp add: v_env_def x_poll_def v_read_def)
qed

theorem drain_skips_stderr_witness:
  "\<exists>r p' m. try_watch w_sha v_env default_policy x_watch (x_poll (x_lease 11) 5 0 False (x_db x_row)) 0 = (r, p', m) \<and>
    map (\<lambda>r. wa_state (wr_watch r)) (db_watches (po_db p')) = [W_STOPPED] \<and>
    cu_offset (cr_cursor (db_cursors (po_db p') ! 1)) = 0"
proof -
  have out: "get_cursor ''run'' ''ann'' STDOUT x_committed = Inr v_next"
    using v_next_ok by (simp add: get_cursor_def x_committed_def v_committed_def v_next_def initial_cursor_def)
  have err: "get_cursor ''run'' ''ann'' STDERR x_committed = Inr (initial_cursor ''run'' ''ann'' STDERR)"
    using w_cursor_ok [of STDERR] by (simp add: get_cursor_def x_committed_def v_committed_def v_next_def initial_cursor_def)
  have w: "wa_run_id x_watch = ''run''" "wa_owner x_watch = ''ann''" "wa_state x_watch = W_FINALIZING"
    by (simp_all add: x_watch_def upd_drain_def new_watch_row_def)
  have lease: "watch_lease_row (w_time 2) (x_lease 32) x_row2" by (rule x_lease_row)
  have "\<exists>r p' m. try_watch w_sha v_env default_policy x_watch (x_poll (x_lease 11) 5 0 False (x_db x_row)) 0 = (r, p', m) \<and>
    db_watches (po_db p') = sql_update (watch_lease_row (ev_now v_env (wa_watch_id x_watch) ''release'') (po_lease (x_poll (x_lease 32) 0 5 True x_committed)))
      (upd_watch_release (ev_now v_env (wa_watch_id x_watch) ''release'') W_STOPPED None None) (db_watches (po_db (x_poll (x_lease 32) 0 5 True x_committed))) \<and>
    db_cursors (po_db p') = db_cursors (po_db (x_poll (x_lease 32) 0 5 True x_committed)) \<and>
    db_segments (po_db p') = db_segments (po_db (x_poll (x_lease 32) 0 5 True x_committed))"
    by (rule drain_skips_stderr [OF w(3) _ x_stdout, where out = v_next and err = "initial_cursor ''run'' ''ann'' STDERR"])
      (use out err w lease in \<open>simp_all add: v_env_def x_poll_def rowcount_def x_committed_def v_next_def initial_cursor_def\<close>)
  then show ?thesis
    using lease by (auto simp: v_env_def x_poll_def x_committed_def upd_watch_release_def v_committed_def initial_cursor_def)
qed

end
