(* ===== verification/RunStates.thy ===== *)
theory RunStates
  imports Json Complex_Main
begin

text \<open>
  \<open>core/states.py\<close>, \<open>core/submission_reconcile.py\<close>, \<open>core/rest_semantics.py\<close> and
  \<open>core/terminal.py\<close>: the life-cycle states of a Run, how a Slurm state becomes one, what a timed-out
  submission is reconciled to, what a REST payload means beyond its HTTP status, and the catalogue
  of read-only terminal commands. Time stamps that are Python floats are reals here.
\<close>

section \<open>Enumerations\<close>

datatype run_state =
  RS_DRAFT | RS_VALIDATED | RS_SUBMITTING | RS_SUBMITTED | RS_PENDING | RS_RUNNING | RS_COMPLETING
| RS_SUCCEEDED | RS_FAILED | RS_CANCELLED | RS_UNKNOWN | RS_SUBMIT_FAILED | RS_COLLECTION_FAILED
| RS_AUTH_REQUIRED | RS_SUBMISSION_UNCERTAIN | RS_EVIDENCE_PARTIAL | RS_ORPHANED

fun run_state_value :: "run_state \<Rightarrow> string" where
  "run_state_value RS_DRAFT = ''DRAFT''"
| "run_state_value RS_VALIDATED = ''VALIDATED''"
| "run_state_value RS_SUBMITTING = ''SUBMITTING''"
| "run_state_value RS_SUBMITTED = ''SUBMITTED''"
| "run_state_value RS_PENDING = ''PENDING''"
| "run_state_value RS_RUNNING = ''RUNNING''"
| "run_state_value RS_COMPLETING = ''COMPLETING''"
| "run_state_value RS_SUCCEEDED = ''SUCCEEDED''"
| "run_state_value RS_FAILED = ''FAILED''"
| "run_state_value RS_CANCELLED = ''CANCELLED''"
| "run_state_value RS_UNKNOWN = ''UNKNOWN''"
| "run_state_value RS_SUBMIT_FAILED = ''SUBMIT_FAILED''"
| "run_state_value RS_COLLECTION_FAILED = ''COLLECTION_FAILED''"
| "run_state_value RS_AUTH_REQUIRED = ''AUTH_REQUIRED''"
| "run_state_value RS_SUBMISSION_UNCERTAIN = ''SUBMISSION_UNCERTAIN''"
| "run_state_value RS_EVIDENCE_PARTIAL = ''EVIDENCE_PARTIAL''"
| "run_state_value RS_ORPHANED = ''ORPHANED''"

datatype collection_state = CS_PENDING | CS_RUNNING | CS_SUCCEEDED | CS_DEGRADED | CS_FAILED

fun collection_state_value :: "collection_state \<Rightarrow> string" where
  "collection_state_value CS_PENDING = ''pending''"
| "collection_state_value CS_RUNNING = ''running''"
| "collection_state_value CS_SUCCEEDED = ''succeeded''"
| "collection_state_value CS_DEGRADED = ''degraded''"
| "collection_state_value CS_FAILED = ''failed''"

datatype diagnosis_state = DS_PENDING | DS_RUNNING | DS_SUCCEEDED | DS_SKIPPED | DS_FAILED

fun diagnosis_state_value :: "diagnosis_state \<Rightarrow> string" where
  "diagnosis_state_value DS_PENDING = ''pending''"
| "diagnosis_state_value DS_RUNNING = ''running''"
| "diagnosis_state_value DS_SUCCEEDED = ''succeeded''"
| "diagnosis_state_value DS_SKIPPED = ''skipped''"
| "diagnosis_state_value DS_FAILED = ''failed''"

datatype capsule_state = CAP_PENDING | CAP_RUNNING | CAP_READY | CAP_FAILED

fun capsule_state_value :: "capsule_state \<Rightarrow> string" where
  "capsule_state_value CAP_PENDING = ''pending''"
| "capsule_state_value CAP_RUNNING = ''running''"
| "capsule_state_value CAP_READY = ''ready''"
| "capsule_state_value CAP_FAILED = ''failed''"

datatype result_status = RES_UNKNOWN | RES_COMPLETE | RES_INCOMPLETE | RES_INVALID

fun result_status_value :: "result_status \<Rightarrow> string" where
  "result_status_value RES_UNKNOWN = ''UNKNOWN''"
| "result_status_value RES_COMPLETE = ''COMPLETE''"
| "result_status_value RES_INCOMPLETE = ''INCOMPLETE''"
| "result_status_value RES_INVALID = ''INVALID''"

datatype seal_state = SEAL_OPEN | SEAL_PREPARING | SEAL_SEALED | SEAL_INVALID

fun seal_state_value :: "seal_state \<Rightarrow> string" where
  "seal_state_value SEAL_OPEN = ''OPEN''"
| "seal_state_value SEAL_PREPARING = ''PREPARING_SEAL''"
| "seal_state_value SEAL_SEALED = ''SEALED''"
| "seal_state_value SEAL_INVALID = ''INVALID''"

definition active_job_run_states :: "run_state set" where
  "active_job_run_states =
     {RS_SUBMITTED, RS_PENDING, RS_RUNNING, RS_COMPLETING, RS_UNKNOWN, RS_SUBMISSION_UNCERTAIN}"

definition terminal_run_states :: "run_state set" where
  "terminal_run_states =
     {RS_SUCCEEDED, RS_FAILED, RS_CANCELLED, RS_SUBMIT_FAILED, RS_COLLECTION_FAILED,
      RS_AUTH_REQUIRED, RS_ORPHANED}"

lemma active_not_terminal: "active_job_run_states \<inter> terminal_run_states = {}"
  by (simp add: active_job_run_states_def terminal_run_states_def)

text \<open>The stores keep the values of an enumeration; the values tell its members apart.\<close>

lemma run_state_value_inject [simp]: "run_state_value a = run_state_value b \<longleftrightarrow> a = b"
  by (cases a; cases b) simp_all

section \<open>Slurm states\<close>

definition slurm_to_run_state :: "(string \<times> run_state) list" where
  "slurm_to_run_state =
     [(''PENDING'', RS_PENDING), (''CONFIGURING'', RS_PENDING), (''RUNNING'', RS_RUNNING),
      (''COMPLETING'', RS_COMPLETING), (''COMPLETED'', RS_SUCCEEDED), (''FAILED'', RS_FAILED),
      (''TIMEOUT'', RS_FAILED), (''OUT_OF_MEMORY'', RS_FAILED), (''NODE_FAIL'', RS_FAILED),
      (''PREEMPTED'', RS_FAILED), (''CANCELLED'', RS_CANCELLED)]"

text \<open>\<open>str.upper\<close> on characters of 8 bits. The two whose capital has more bits (181 and 255) are left
  as they are; no Slurm state contains them.\<close>

definition upper_latin :: "char \<Rightarrow> string" where
  "upper_latin c =
     (let n = of_char c :: nat in
      if 97 \<le> n \<and> n \<le> 122 \<or> 224 \<le> n \<and> n \<le> 254 \<and> n \<noteq> 247 then [char_of (n - 32)]
      else if n = 223 then ''SS'' else [c])"

definition upper :: "string \<Rightarrow> string" where
  "upper s = concat (map upper_latin s)"

datatype raw_state = Raw_Text string | Raw_Flags "string list"

definition lookup_flag :: "string \<Rightarrow> string" where
  "lookup_flag flag = (if take 13 flag = ''CANCELLED BY '' then ''CANCELLED'' else flag)"

fun first_known :: "string list \<Rightarrow> run_state" where
  "first_known [] = RS_UNKNOWN"
| "first_known (flag # flags) =
     (case map_of slurm_to_run_state (lookup_flag flag) of
        Some s \<Rightarrow> s
      | None \<Rightarrow> first_known flags)"

definition normalize_slurm_state :: "raw_state \<Rightarrow> run_state \<times> string list" where
  "normalize_slurm_state raw_state =
     (let flags = (case raw_state of Raw_Text s \<Rightarrow> [s] | Raw_Flags fs \<Rightarrow> fs);
          normalized_flags = map upper (filter (\<lambda>f. f \<noteq> []) flags)
      in (first_known normalized_flags, normalized_flags))"

text \<open>The states a Slurm reading can put a Run in: none of the control plane's own.\<close>

definition slurm_run_states :: "run_state set" where
  "slurm_run_states = insert RS_UNKNOWN (snd ` set slurm_to_run_state)"

lemma first_known_range: "first_known flags \<in> slurm_run_states"
  by (induction flags) (auto simp: slurm_run_states_def split: option.split dest!: map_of_SomeD intro: rev_image_eqI)

lemma slurm_run_states_cases:
  "s \<in> slurm_run_states \<longleftrightarrow>
     s \<in> {RS_UNKNOWN, RS_PENDING, RS_RUNNING, RS_COMPLETING, RS_SUCCEEDED, RS_FAILED, RS_CANCELLED}"
  by (auto simp: slurm_run_states_def slurm_to_run_state_def)

lemma first_known_append:
  "(\<And>f. f \<in> set xs \<Longrightarrow> map_of slurm_to_run_state (lookup_flag f) = None) \<Longrightarrow>
     first_known (xs @ ys) = first_known ys"
  by (induction xs) auto

section \<open>Submission reconciliation\<close>

datatype reconcile_state = RC_bound | RC_not_found | RC_uncertain

record reconcile_result =
  rr_state :: reconcile_state
  rr_job_id :: "string option"
  rr_matches :: "string list"

text \<open>The backend's \<open>find_jobs_by_marker(user, job_name_marker, since_timestamp)\<close> is a parameter;
  the outer \<open>None\<close> is the \<open>ValueError\<close> of a negative window.\<close>

definition reconcile_submission ::
    "(string \<Rightarrow> string \<Rightarrow> real \<Rightarrow> string list) \<Rightarrow> string \<Rightarrow> string \<Rightarrow> real \<Rightarrow> real \<Rightarrow> reconcile_result option" where
  "reconcile_submission find_jobs_by_marker user job_name_marker submitted_after time_window_seconds =
     (if time_window_seconds < 0 then None
      else
        let matches = find_jobs_by_marker user job_name_marker (submitted_after - time_window_seconds) in
        Some (case matches of
            [j] \<Rightarrow> \<lparr>rr_state = RC_bound, rr_job_id = Some j, rr_matches = matches\<rparr>
          | [] \<Rightarrow> \<lparr>rr_state = RC_not_found, rr_job_id = None, rr_matches = []\<rparr>
          | _ \<Rightarrow> \<lparr>rr_state = RC_uncertain, rr_job_id = None, rr_matches = matches\<rparr>))"

text \<open>A Run is bound to a job exactly when that job is the only candidate.\<close>

lemma reconcile_submission_cases:
  assumes "0 \<le> w" and "reconcile_submission query u m t w = Some r"
  shows "rr_matches r = query u m (t - w)"
    and "rr_state r = RC_bound \<longleftrightarrow> length (rr_matches r) = 1"
    and "rr_state r = RC_not_found \<longleftrightarrow> rr_matches r = []"
    and "rr_job_id r = (if rr_state r = RC_bound then Some (hd (rr_matches r)) else None)"
  using assms by (auto simp: reconcile_submission_def Let_def split: list.splits)

section \<open>REST payloads\<close>

datatype rest_level = REST_OK | REST_WARNING | REST_ERROR

record rest_result =
  rest_level :: rest_level
  rest_errors :: "json list"
  rest_warnings :: "json list"
  rest_missing :: "string list"

definition rest_is_success :: "rest_result \<Rightarrow> bool" where
  "rest_is_success r \<longleftrightarrow> rest_level r \<in> {REST_OK, REST_WARNING}"

text \<open>\<open>payload.get(key) or []\<close>, its truth value, and \<open>list(value)\<close>: keys of an object, characters of
  a text; a number or a truth value is not iterable (\<open>None\<close>, a \<open>TypeError\<close>).\<close>

fun truthy :: "json \<Rightarrow> bool" where
  "truthy JNull = False"
| "truthy (JBool b) = b"
| "truthy (JInt i) = (i \<noteq> 0)"
| "truthy (JStr s) = (s \<noteq> [])"
| "truthy (JArr vs) = (vs \<noteq> [])"
| "truthy (JObj kvs) = (kvs \<noteq> [])"

fun as_list :: "json \<Rightarrow> json list option" where
  "as_list (JArr vs) = Some vs"
| "as_list (JObj kvs) = Some (map (\<lambda>(k, v). JStr k) kvs)"
| "as_list (JStr s) = Some (map (\<lambda>c. JStr [c]) s)"
| "as_list v = None"

definition get_or_empty :: "string \<Rightarrow> json \<Rightarrow> json" where
  "get_or_empty k payload = (case jfield k payload of Some v \<Rightarrow> if truthy v then v else JArr [] | None \<Rightarrow> JArr [])"

definition check_slurm_rest_semantics :: "json \<Rightarrow> string list \<Rightarrow> string list \<Rightarrow> rest_result option" where
  "check_slurm_rest_semantics payload required_fields partial_fields =
     (let errors = get_or_empty ''errors'' payload;
          warnings = get_or_empty ''warnings'' payload;
          missing = filter (\<lambda>f. jfield f payload = None) required_fields;
          has_partial_payload = (truthy errors \<and> (\<exists>f \<in> set partial_fields. jfield f payload \<noteq> None))
      in if has_partial_payload \<and> missing = [] then
           (case (as_list errors, as_list warnings) of
              (Some es, Some ws) \<Rightarrow> Some \<lparr>rest_level = REST_WARNING, rest_errors = es, rest_warnings = ws, rest_missing = []\<rparr>
            | _ \<Rightarrow> None)
         else if truthy errors \<or> missing \<noteq> [] then
           (case (as_list errors, as_list warnings) of
              (Some es, Some ws) \<Rightarrow> Some \<lparr>rest_level = REST_ERROR, rest_errors = es, rest_warnings = ws, rest_missing = missing\<rparr>
            | _ \<Rightarrow> None)
         else if truthy warnings then
           (case as_list warnings of
              Some ws \<Rightarrow> Some \<lparr>rest_level = REST_WARNING, rest_errors = [], rest_warnings = ws, rest_missing = []\<rparr>
            | None \<Rightarrow> None)
         else Some \<lparr>rest_level = REST_OK, rest_errors = [], rest_warnings = [], rest_missing = []\<rparr>)"

text \<open>A payload that lacks a required field is never a success.\<close>

lemma missing_field_is_error:
  assumes "check_slurm_rest_semantics payload required partial = Some r"
    and "f \<in> set required" and "jfield f payload = None"
  shows "\<not> rest_is_success r" and "f \<in> set (rest_missing r)"
  using assms
  by (auto simp: check_slurm_rest_semantics_def rest_is_success_def Let_def filter_empty_conv
      split: if_splits option.splits)

section \<open>Terminal commands\<close>

text \<open>The executor of the gateway is a parameter: the return code and both outputs. A Run enters with
  its job id.\<close>

datatype terminal_error = TE_unsupported | TE_run_required

record terminal_result =
  tc_command :: string
  tc_argv :: "string list"
  tc_returncode :: int
  tc_stdout :: string
  tc_stderr :: string

definition terminal_argv :: "string \<Rightarrow> string \<Rightarrow> string option \<Rightarrow> (terminal_error, string list) result" where
  "terminal_argv command user job_id =
     (if command = ''identity'' then Inr [''id'']
      else if command = ''cluster'' then Inr [''sinfo'', ''-h'', ''-o'', ''%P|%c|%m|%G|%T'']
      else if command = ''my_jobs'' then Inr [''squeue'', ''-h'', ''-u'', user, ''-o'', ''%i|%j|%T|%R'']
      else if command = ''run_status'' then
        Inr [''sacct'', ''-nP'', ''-X'', ''-j'', the job_id, ''-o'', ''JobIDRaw,State,ExitCode,Elapsed,NodeList'']
      else Inl TE_unsupported)"

definition terminal_execute ::
    "(string list \<Rightarrow> string \<Rightarrow> int \<times> string \<times> string) \<Rightarrow> string \<Rightarrow> string \<Rightarrow> string option option
      \<Rightarrow> (terminal_error, terminal_result) result" where
  "terminal_execute run_command command user run =
     (let job_id = (case run of None \<Rightarrow> None | Some j \<Rightarrow> j) in
      ensure (command \<in> {''identity'', ''cluster'', ''my_jobs'', ''run_status''}) TE_unsupported
      (ensure (\<not> (command = ''run_status'' \<and> job_id = None)) TE_run_required
      (bind_res (terminal_argv command user job_id) (\<lambda>argv.
         let (returncode, out, err) = run_command argv user in
         Inr \<lparr>tc_command = command, tc_argv = argv, tc_returncode = returncode,
              tc_stdout = take 24000 out, tc_stderr = take 24000 err\<rparr>))))"

text \<open>Whatever the caller asks for, the program run is one of four, and the outputs are bounded.\<close>

lemma terminal_catalogue:
  assumes "terminal_execute run_command command user run = Inr r"
  shows "hd (tc_argv r) \<in> {''id'', ''sinfo'', ''squeue'', ''sacct''}"
    and "length (tc_stdout r) \<le> 24000" and "length (tc_stderr r) \<le> 24000"
  using assms
  by (auto simp: terminal_execute_def terminal_argv_def Let_def bind_res_def split: prod.splits if_splits sum.splits)

end
