(* ===== verification/RunModel.thy ===== *)
theory RunModel
  imports Clock RunStates
begin

text \<open>
  The tables of \<open>core/run_store.py\<close>: Runs, their events, their collection tasks, their evidence
  objects, and the advice that a remediation Run refers to. A Run's row is the \<open>RunRecord\<close> the store
  returns, the two columns of the submission fence and the columns of the evidence seal. The part of
  the record that only the insert writes is a record of its own, \<open>run_spec\<close>. Enumeration columns
  hold their members, JSON columns the canonical value, times the \<open>isoformat\<close> text of the clock;
  one operation reads the clock once. \<open>redact\<close> stands for \<open>redact_sensitive_structure\<close>.
\<close>

section \<open>Rows\<close>

record run_spec =
  spec_run_id :: string
  spec_owner :: string
  spec_workdir :: string
  spec_script :: string
  spec_resource_plan :: json
  spec_job_name :: "string option"
  spec_contract_id :: "string option"
  spec_parent :: "string option"
  spec_lineage_reason :: "string option"
  spec_plan_id :: "string option"
  spec_attempt :: int
  spec_workflow :: json
  spec_retry_not_before :: "string option"
  spec_workspace_revision :: "int option"
  spec_workspace_digest :: "string option"
  spec_source_revision :: "string option"
  spec_snapshot_ref :: "string option"
  spec_created_at :: string

record run_record =
  rc_spec :: run_spec
  rc_state :: run_state
  rc_collection :: collection_state
  rc_diagnosis :: diagnosis_state
  rc_capsule :: capsule_state
  rc_result :: result_status
  rc_job_id :: "string option"
  rc_exit_code :: "string option"
  rc_terminal_state :: "string option"
  rc_strategy :: "string option"
  rc_response :: json
  rc_capsule_key :: "string option"
  rc_capsule_token :: int
  rc_updated_at :: string

record seal_rec =
  seal_status :: seal_state
  seal_digest :: "string option"
  seal_marker :: "string option"
  seal_at :: "string option"
  seal_reason :: "string option"
  seal_owner :: "string option"
  seal_expires :: "string option"
  seal_token :: int

record run_row =
  rn_record :: run_record
  rn_sub_owner :: "string option"
  rn_sub_token :: int
  rn_seal :: seal_rec

abbreviation rn_spec :: "run_row \<Rightarrow> run_spec" where
  "rn_spec r \<equiv> rc_spec (rn_record r)"

abbreviation rn_id :: "run_row \<Rightarrow> string" where
  "rn_id r \<equiv> spec_run_id (rn_spec r)"

abbreviation rc_id :: "run_record \<Rightarrow> string" where
  "rc_id r \<equiv> spec_run_id (rc_spec r)"

record run_event =
  re_id :: int
  re_run :: string
  re_type :: string
  re_payload :: json
  re_created_at :: string

datatype task_status =
  CT_pending | CT_running | CT_succeeded | CT_failed_retryable | CT_failed_permanent | CT_waiting_runtime_watch

record collection_task =
  ct_id :: int
  ct_run :: string
  ct_type :: string
  ct_state :: task_status
  ct_next_attempt :: "string option"
  ct_owner :: "string option"
  ct_expires :: "string option"
  ct_token :: int
  ct_generation :: int
  ct_attempts :: int
  ct_created_at :: string
  ct_updated_at :: string

record evidence_object =
  eo_id :: string
  eo_run :: string
  eo_category :: string
  eo_logical_path :: string
  eo_store_path :: string
  eo_source_uri :: "string option"
  eo_sha256 :: "string option"
  eo_size_bytes :: "int option"
  eo_mime_type :: "string option"
  eo_collection_status :: string
  eo_collection_note :: "string option"
  eo_mutable_during_run :: bool
  eo_finalized_at :: "string option"
  eo_workspace_revision :: "int option"
  eo_workspace_digest :: "string option"
  eo_source_revision :: "string option"
  eo_snapshot_ref :: "string option"
  eo_checked_at :: "string option"
  eo_set_digest :: "string option"
  eo_invalidated_at :: "string option"
  eo_created_at :: string
  eo_updated_at :: string

record advice_row =
  ad_id :: string
  ad_run :: string
  ad_owner :: string
  ad_request_key :: string
  ad_state :: string
  ad_version :: int
  ad_payload :: json
  ad_updated_at :: string

record decision_row =
  dc_advice :: string
  dc_decision :: string
  dc_actor :: string
  dc_action_ids :: "string list"
  dc_note :: "string option"
  dc_version :: int
  dc_created_at :: string

record run_db =
  rd_runs :: "run_row list"
  rd_events :: "run_event list"
  rd_tasks :: "collection_task list"
  rd_task_seq :: int  \<comment> \<open>the last \<open>task_id\<close> SQLite generated\<close>
  rd_objects :: "evidence_object list"
  rd_advice :: "advice_row list"
  rd_decisions :: "decision_row list"

definition empty_run_db :: run_db where
  "empty_run_db = \<lparr>rd_runs = [], rd_events = [], rd_tasks = [], rd_task_seq = 0, rd_objects = [],
     rd_advice = [], rd_decisions = []\<rparr>"

datatype run_error =
  R_Value string | R_Key string | R_Type | R_Runtime string | R_Integrity | R_Overflow
| R_Fence | R_TaskFence | R_SealClaim | R_SealFence | R_CapsuleFence | R_AdviceConflict string

section \<open>Transactions\<close>

text \<open>
  A transaction either raises or returns a value and the new tables. \<open>with self.connect() as conn\<close>
  commits the one and rolls the other back.
\<close>

type_synonym 'a run_tx = "run_db \<Rightarrow> (run_error, 'a \<times> run_db) result"

definition commit :: "'a run_tx \<Rightarrow> run_db \<Rightarrow> (run_error, 'a) result \<times> run_db" where
  "commit tx db = (case tx db of Inl e \<Rightarrow> (Inl e, db) | Inr (x, db') \<Rightarrow> (Inr x, db'))"

text \<open>The read that follows the transaction in most operations.\<close>

definition then_read :: "(run_db \<Rightarrow> (run_error, 'b) result) \<Rightarrow> (run_error, 'a) result \<times> run_db \<Rightarrow> (run_error, 'b) result \<times> run_db" where
  "then_read rd out = (case out of (Inl e, db) \<Rightarrow> (Inl e, db) | (Inr _, db) \<Rightarrow> (rd db, db))"

lemma commit_cases:
  "commit tx db = (r, t) \<longleftrightarrow> (\<exists>e. tx db = Inl e \<and> r = Inl e \<and> t = db) \<or> (\<exists>x. tx db = Inr (x, t) \<and> r = Inr x)"
  by (auto simp: commit_def split: sum.splits prod.splits)

lemma snd_commit: "snd (commit tx db) = (case tx db of Inl e \<Rightarrow> db | Inr (x, t) \<Rightarrow> t)"
  by (simp add: commit_def split: sum.splits prod.splits)

lemma snd_then_read [simp]: "snd (then_read rd out) = snd out"
  by (simp add: then_read_def split: prod.splits sum.splits)

lemma then_read_cases:
  "then_read rd out = (r, t) \<longleftrightarrow>
     (\<exists>e. out = (Inl e, t) \<and> r = Inl e) \<or> (\<exists>x. out = (Inr x, t) \<and> r = rd t)"
  by (cases out; cases "fst out") (auto simp: then_read_def)

abbreviation run_exists :: "string \<Rightarrow> run_db \<Rightarrow> bool" where
  "run_exists rid db \<equiv> \<exists>r \<in> set (rd_runs db). rn_id r = rid"

section \<open>Events\<close>

definition append_event_tx :: "(json \<Rightarrow> json) \<Rightarrow> datetime \<Rightarrow> string \<Rightarrow> string \<Rightarrow> json \<Rightarrow> unit run_tx" where
  \<comment> \<open>the foreign key of \<open>run_events\<close> refuses an event of no Run\<close>
  "append_event_tx redact now rid event_type payload db =
     (if run_exists rid db then
        Inr ((), db\<lparr>rd_events := rd_events db @
          [\<lparr>re_id = int (length (rd_events db)) + 1, re_run = rid, re_type = event_type,
            re_payload = canonical (redact payload), re_created_at = isoformat now\<rparr>]\<rparr>)
      else Inl R_Integrity)"

lemma append_event_Inr:
  "append_event_tx redact now rid ty p db = Inr (x, t) \<longleftrightarrow> run_exists rid db \<and>
     t = db\<lparr>rd_events := rd_events db @
          [\<lparr>re_id = int (length (rd_events db)) + 1, re_run = rid, re_type = ty,
            re_payload = canonical (redact p), re_created_at = isoformat now\<rparr>]\<rparr>"
  by (auto simp: append_event_tx_def)

section \<open>Collection tasks\<close>

definition new_task_row :: "datetime \<Rightarrow> int \<Rightarrow> string \<Rightarrow> string \<Rightarrow> collection_task" where
  "new_task_row now tid rid task_type = \<lparr>ct_id = tid, ct_run = rid, ct_type = task_type, ct_state = CT_pending,
     ct_next_attempt = Some (isoformat now), ct_owner = None, ct_expires = None, ct_token = 0,
     ct_generation = 1, ct_attempts = 0, ct_created_at = isoformat now, ct_updated_at = isoformat now\<rparr>"

text \<open>\<open>INSERT OR IGNORE\<close>: an ignored row still uses up an id of the \<open>AUTOINCREMENT\<close> column.\<close>

definition ensure_task :: "datetime \<Rightarrow> string \<Rightarrow> string \<Rightarrow> run_db \<Rightarrow> run_db" where
  "ensure_task now rid task_type db = db\<lparr>
     rd_task_seq := rd_task_seq db + 1,
     rd_tasks := insert_ignore (\<lambda>x y. ct_run x = ct_run y \<and> ct_type x = ct_type y)
       (new_task_row now (rd_task_seq db + 1) rid task_type) (rd_tasks db)\<rparr>"

definition reactivate_succeeded_task :: "datetime \<Rightarrow> string \<Rightarrow> string \<Rightarrow> run_db \<Rightarrow> run_db" where
  "reactivate_succeeded_task now rid task_type db =
     (let db' = ensure_task now rid task_type db in
      db'\<lparr>rd_tasks := sql_update (\<lambda>t. ct_run t = rid \<and> ct_type t = task_type \<and> ct_state t = CT_succeeded)
        (\<lambda>t. t\<lparr>ct_state := CT_pending, ct_next_attempt := Some (isoformat now),
               ct_generation := ct_generation t + 1, ct_updated_at := isoformat now\<rparr>) (rd_tasks db')\<rparr>)"

definition upd_record :: "(run_record \<Rightarrow> run_record) \<Rightarrow> run_row \<Rightarrow> run_row" where
  "upd_record f r = r\<lparr>rn_record := f (rn_record r)\<rparr>"

definition collection_summary :: "string \<Rightarrow> collection_task list \<Rightarrow> collection_state" where
  "collection_summary rid tasks =
     (let states = set (map ct_state (filter (\<lambda>t. ct_run t = rid) tasks)) in
      if states = {} then CS_PENDING
      else if CT_failed_permanent \<in> states then CS_FAILED
      else if CT_failed_retryable \<in> states then CS_DEGRADED
      else if CT_running \<in> states then CS_RUNNING
      else if states = {CT_succeeded} then CS_SUCCEEDED
      else CS_PENDING)"

definition refresh_collection_state :: "datetime \<Rightarrow> string \<Rightarrow> run_db \<Rightarrow> run_db" where
  "refresh_collection_state now rid db = db\<lparr>rd_runs := sql_update (\<lambda>r. rn_id r = rid)
     (upd_record (\<lambda>c. c\<lparr>rc_collection := collection_summary rid (rd_tasks db), rc_updated_at := isoformat now\<rparr>))
     (rd_runs db)\<rparr>"

section \<open>Reading Runs\<close>

definition get_run :: "string \<Rightarrow> run_db \<Rightarrow> (run_error, run_record) result" where
  "get_run rid db =
     (case fetchone (\<lambda>r. rn_id r = rid) (rd_runs db) of
        None \<Rightarrow> Inl (R_Key rid)
      | Some r \<Rightarrow> Inr (rn_record r))"

lemma get_run_Inr: "get_run rid db = Inr c \<Longrightarrow> rc_id c = rid \<and> (\<exists>r \<in> set (rd_runs db). rn_record r = c)"
  by (auto simp: get_run_def split: option.splits dest!: fetchone_Some)

end
