(* ===== verification/RunStore.thy ===== *)
theory RunStore
  imports RunModel
begin

text \<open>
  \<open>core/run_store.py\<close>: creating Runs, the fenced submission, snapshots of the job, state changes, the
  fenced capsule build and the reads over Runs and events.
\<close>

section \<open>Texts\<close>

definition space_char :: "char \<Rightarrow> bool" where
  \<comment> \<open>\<open>str.isspace\<close> on characters of 8 bits\<close>
  "space_char c \<longleftrightarrow> (let n = of_char c :: nat in 9 \<le> n \<and> n \<le> 13 \<or> 28 \<le> n \<and> n \<le> 32 \<or> n = 133 \<or> n = 160)"

text \<open>\<open>str.split()\<close>; the first argument is the word read so far, reversed.\<close>

fun split_words :: "string \<Rightarrow> string \<Rightarrow> string list" where
  "split_words w [] = (if w = [] then [] else [rev w])"
| "split_words w (c # cs) =
     (if \<not> space_char c then split_words (c # w) cs
      else if w = [] then split_words [] cs
      else rev w # split_words [] cs)"

definition bounded_event_reason :: "string \<Rightarrow> string" where
  "bounded_event_reason value = take 512 (join '' '' (split_words [] value))"

definition reason_fields :: "string option \<Rightarrow> (string \<times> json) list" where
  "reason_fields failure_reason =
     (case failure_reason of
        None \<Rightarrow> []
      | Some s \<Rightarrow> if s = [] then [] else [(''failure_reason'', JStr (bounded_event_reason s))])"

definition hex_digest :: "string \<Rightarrow> bool" where
  \<comment> \<open>\<open>re.fullmatch(r"[0-9a-f]{64}", value)\<close>\<close>
  "hex_digest s \<longleftrightarrow> length s = 64 \<and>
     list_all (\<lambda>c. let n = of_char c :: nat in 48 \<le> n \<and> n \<le> 57 \<or> 97 \<le> n \<and> n \<le> 102) s"

definition merged :: "(string \<times> json) list \<Rightarrow> (string \<times> json) list option \<Rightarrow> json" where
  \<comment> \<open>\<open>{..., **(payload or {})}\<close>\<close>
  "merged base payload =
     (let extra = (case payload of None \<Rightarrow> [] | Some kvs \<Rightarrow> kvs)
      in JObj (filter (\<lambda>(k, v). k \<notin> fst ` set extra) base @ extra))"

section \<open>Creating Runs\<close>

text \<open>\<open>str(value)\<close> of the values an action id can be; \<open>repr_of\<close> is Python's \<open>repr\<close> of a list or dict.\<close>

fun py_str :: "(json \<Rightarrow> string) \<Rightarrow> json \<Rightarrow> string" where
  "py_str repr_of JNull = ''None''"
| "py_str repr_of (JBool b) = (if b then ''True'' else ''False'')"
| "py_str repr_of (JInt i) = int_text i"
| "py_str repr_of (JStr s) = s"
| "py_str repr_of v = repr_of v"

definition action_allowed :: "json \<Rightarrow> bool" where
  "action_allowed action \<longleftrightarrow> is_object action \<and> jfield ''policy_status'' action = Some (JStr ''allowed_preview'')"

text \<open>The actions of an advice; \<open>None\<close> when \<open>payload.get("actions", [])\<close> cannot be iterated over. The
  elements of a text or of an object are texts, of which none is an action.\<close>

definition advice_actions :: "json \<Rightarrow> json list option" where
  "advice_actions payload =
     (case jfield ''actions'' payload of None \<Rightarrow> Some [] | Some v \<Rightarrow> as_list v)"

fun partition_colon :: "string \<Rightarrow> string \<times> bool \<times> string" where
  "partition_colon [] = ([], False, [])"
| "partition_colon (c # cs) =
     (if c = CHR '':'' then ([], True, cs)
      else (case partition_colon cs of (a, found, b) \<Rightarrow> (c # a, found, b)))"

definition validate_remediation_reference ::
    "(json \<Rightarrow> string) \<Rightarrow> string \<Rightarrow> string \<Rightarrow> string \<Rightarrow> run_db \<Rightarrow> (run_error, unit) result" where
  "validate_remediation_reference repr_of parent owner plan_id db =
     (case partition_colon plan_id of (advice_id, separator, action_id) \<Rightarrow>
      if \<not> separator \<or> advice_id = [] \<or> action_id = [] then Inl (R_Value ''plan id'')
      else
        (case fetchone (\<lambda>a. ad_id a = advice_id) (rd_advice db) of
           None \<Rightarrow> Inl (R_Value ''no advice'')
         | Some advice \<Rightarrow>
             if ad_run advice \<noteq> parent \<or> ad_owner advice \<noteq> owner then Inl (R_Value ''foreign advice'')
             else if ad_state advice \<noteq> ''approved'' then Inl (R_Value ''not approved'')
             else
               (case advice_actions (ad_payload advice) of
                  None \<Rightarrow> Inl R_Type
                | Some actions \<Rightarrow>
                    let allowed = map (\<lambda>a. py_str repr_of (case jfield ''action_id'' a of None \<Rightarrow> JNull | Some v \<Rightarrow> v))
                          (filter action_allowed actions);
                        decision = fetchone (\<lambda>d. dc_advice d = advice_id \<and> dc_decision d = ''approve'')
                          (rev (rd_decisions db));
                        selected = (case decision of None \<Rightarrow> [] | Some d \<Rightarrow> dc_action_ids d)
                    in if action_id \<notin> set allowed \<or> action_id \<notin> set selected
                       then Inl (R_Value ''action not approved'') else Inr ())))"

definition open_seal :: seal_rec where
  "open_seal = \<lparr>seal_status = SEAL_OPEN, seal_digest = None, seal_marker = None, seal_at = None,
     seal_reason = None, seal_owner = None, seal_expires = None, seal_token = 0\<rparr>"

definition new_run_row :: "run_spec \<Rightarrow> run_row" where
  "new_run_row spec = \<lparr>rn_record =
     \<lparr>rc_spec = spec, rc_state = RS_VALIDATED, rc_collection = CS_PENDING, rc_diagnosis = DS_PENDING,
      rc_capsule = CAP_PENDING, rc_result = RES_UNKNOWN, rc_job_id = None, rc_exit_code = None,
      rc_terminal_state = None, rc_strategy = None, rc_response = JObj [], rc_capsule_key = None,
      rc_capsule_token = 0, rc_updated_at = spec_created_at spec\<rparr>,
     rn_sub_owner = None, rn_sub_token = 0, rn_seal = open_seal\<rparr>"

text \<open>The attempt number of the new Run, from its parent.\<close>

definition child_attempt :: "run_spec \<Rightarrow> run_db \<Rightarrow> (run_error, int) result" where
  "child_attempt a db =
     (case spec_parent a of
        Some p \<Rightarrow>
          (case fetchone (\<lambda>r. rn_id r = p) (rd_runs db) of
             None \<Rightarrow> Inl (R_Key p)
           | Some parent \<Rightarrow>
               ensure (spec_owner (rn_spec parent) = spec_owner a) (R_Value ''parent owner'')
                 (Inr (spec_attempt (rn_spec parent) + 1)))
      | None \<Rightarrow>
          ensure (spec_lineage_reason a = None \<and> spec_plan_id a = None) (R_Value ''lineage metadata'') (Inr 0))"

text \<open>
  The argument holds the caller's values; its attempt number and creation time are not read. A Run
  with \<open>lineage_reason\<close> but no parent was refused before, so the parent passed to the reference check
  is there.
\<close>

definition lineage_check :: "(json \<Rightarrow> string) \<Rightarrow> run_spec \<Rightarrow> run_db \<Rightarrow> (run_error, unit) result" where
  "lineage_check repr_of a db =
     (if spec_lineage_reason a = Some ''agent_remediation'' then
        (case spec_plan_id a of
           None \<Rightarrow> Inl (R_Value ''agent remediation requires remediation_plan_id'')
         | Some plan \<Rightarrow> validate_remediation_reference repr_of (the (spec_parent a)) (spec_owner a) plan db)
      else if spec_plan_id a \<noteq> None then Inl (R_Value ''remediation_plan_id'')
      else Inr ())"

definition stored_spec :: "datetime \<Rightarrow> int \<Rightarrow> run_spec \<Rightarrow> run_spec" where
  "stored_spec now attempt a = a\<lparr>spec_attempt := attempt, spec_created_at := isoformat now,
     spec_workflow := canonical (spec_workflow a), spec_resource_plan := canonical (spec_resource_plan a)\<rparr>"

definition create_run_tx :: "(json \<Rightarrow> json) \<Rightarrow> (json \<Rightarrow> string) \<Rightarrow> datetime \<Rightarrow> run_spec \<Rightarrow> unit run_tx" where
  "create_run_tx redact repr_of now a db =
     bind_res (child_attempt a db) (\<lambda>attempt.
     bind_res (lineage_check repr_of a db) (\<lambda>_.
     if run_exists (spec_run_id a) db then Inl R_Integrity
     else append_event_tx redact now (spec_run_id a) ''run.created''
       (JObj [(''parent_run_id'', jopt JStr (spec_parent a)),
              (''lineage_reason'', jopt JStr (spec_lineage_reason a)),
              (''remediation_plan_id'', jopt JStr (spec_plan_id a)),
              (''attempt'', JInt attempt),
              (''retry_not_before'', jopt JStr (spec_retry_not_before a))])
       (db\<lparr>rd_runs := rd_runs db @ [new_run_row (stored_spec now attempt a)]\<rparr>)))"

definition create_run ::
    "(json \<Rightarrow> json) \<Rightarrow> (json \<Rightarrow> string) \<Rightarrow> datetime \<Rightarrow> run_spec \<Rightarrow> run_db \<Rightarrow> (run_error, run_record) result \<times> run_db" where
  "create_run redact repr_of now a db =
     then_read (get_run (spec_run_id a)) (commit (create_run_tx redact repr_of now a) db)"

section \<open>The fenced submission\<close>

datatype strategy = ST_REST_NATIVE | ST_COMMAND | ST_IN_MEMORY | ST_DEMO

fun strategy_value :: "strategy \<Rightarrow> string" where
  "strategy_value ST_REST_NATIVE = ''rest_native''"
| "strategy_value ST_COMMAND = ''command''"
| "strategy_value ST_IN_MEMORY = ''in_memory''"
| "strategy_value ST_DEMO = ''demo''"

record submit_receipt =
  rcp_job_id :: string
  rcp_state :: run_state
  rcp_strategy :: strategy
  rcp_raw :: json

definition submission_claimable :: "string \<Rightarrow> int option \<Rightarrow> run_row \<Rightarrow> bool" where
  "submission_claimable rid fencing_token r \<longleftrightarrow>
     rn_id r = rid \<and> rc_job_id (rn_record r) = None \<and>
     (rc_state (rn_record r) = RS_VALIDATED \<or>
      (case fencing_token of None \<Rightarrow> False
       | Some t \<Rightarrow> rc_state (rn_record r) = RS_SUBMITTING \<and> rn_sub_token r < t))"

definition upd_claim_submission :: "datetime \<Rightarrow> string option \<Rightarrow> int option \<Rightarrow> run_row \<Rightarrow> run_row" where
  "upd_claim_submission now lease_owner fencing_token r =
     (let r' = upd_record (\<lambda>c. c\<lparr>rc_state := RS_SUBMITTING, rc_updated_at := isoformat now\<rparr>) r in
      case fencing_token of
        None \<Rightarrow> r'
      | Some t \<Rightarrow> r'\<lparr>rn_sub_owner := lease_owner, rn_sub_token := t\<rparr>)"

definition claim_submission_tx ::
    "(json \<Rightarrow> json) \<Rightarrow> datetime \<Rightarrow> string \<Rightarrow> string option \<Rightarrow> int option \<Rightarrow> bool run_tx" where
  "claim_submission_tx redact now rid lease_owner fencing_token db =
     (let p = submission_claimable rid fencing_token;
          db' = db\<lparr>rd_runs := sql_update p (upd_claim_submission now lease_owner fencing_token) (rd_runs db)\<rparr>
      in if rowcount p (rd_runs db) = 1 then
           bind_res (append_event_tx redact now rid ''run.submitting''
             (JObj [(''state'', JStr (run_state_value RS_SUBMITTING)), (''lease_owner'', jopt JStr lease_owner),
                    (''fencing_token'', jopt JInt fencing_token)]) db')
             (\<lambda>(_, t). Inr (True, t))
         else Inr (False, db'))"

definition claim_submission ::
    "(json \<Rightarrow> json) \<Rightarrow> datetime \<Rightarrow> string \<Rightarrow> string option \<Rightarrow> int option \<Rightarrow> run_db \<Rightarrow> (run_error, bool) result \<times> run_db" where
  "claim_submission redact now rid lease_owner fencing_token db =
     (case first_failure
        [((lease_owner = None) = (fencing_token = None), R_Value ''lease_owner and fencing_token''),
         (opt_ok (\<lambda>t. 0 < t) fencing_token, R_Value ''fencing_token'')] of
        Some e \<Rightarrow> (Inl e, db)
      | None \<Rightarrow> commit (claim_submission_tx redact now rid lease_owner fencing_token) db)"

definition receipt_where :: "string \<Rightarrow> string option \<Rightarrow> int option \<Rightarrow> run_row \<Rightarrow> bool" where
  "receipt_where rid lease_owner fencing_token r \<longleftrightarrow> rn_id r = rid \<and>
     (lease_owner \<noteq> None \<longrightarrow> rc_state (rn_record r) = RS_SUBMITTING \<and> rn_sub_owner r = lease_owner \<and>
        Some (rn_sub_token r) = fencing_token \<and> rc_job_id (rn_record r) = None)"

definition upd_receipt :: "datetime \<Rightarrow> submit_receipt \<Rightarrow> run_row \<Rightarrow> run_row" where
  "upd_receipt now receipt = upd_record (\<lambda>c. c\<lparr>rc_state := RS_SUBMITTED, rc_job_id := Some (rcp_job_id receipt),
     rc_strategy := Some (strategy_value (rcp_strategy receipt)), rc_response := canonical (rcp_raw receipt),
     rc_updated_at := isoformat now\<rparr>)"

definition apply_submit_receipt_tx ::
    "(json \<Rightarrow> json) \<Rightarrow> datetime \<Rightarrow> string \<Rightarrow> submit_receipt \<Rightarrow> string option \<Rightarrow> int option \<Rightarrow> unit run_tx" where
  "apply_submit_receipt_tx redact now rid receipt lease_owner fencing_token db =
     (let p = receipt_where rid lease_owner fencing_token in
      if rowcount p (rd_runs db) \<noteq> 1 then Inl R_Fence
      else
        bind_res (append_event_tx redact now rid ''run.submitted''
          (JObj [(''job_id'', JStr (rcp_job_id receipt)), (''strategy'', JStr (strategy_value (rcp_strategy receipt))),
                 (''raw_response'', rcp_raw receipt), (''lease_owner'', jopt JStr lease_owner),
                 (''fencing_token'', jopt JInt fencing_token)])
          (db\<lparr>rd_runs := sql_update p (upd_receipt now receipt) (rd_runs db)\<rparr>))
        (\<lambda>(_, t). Inr ((), ensure_task now rid ''runtime_status'' (ensure_task now rid ''submission_snapshot'' t))))"

definition apply_submit_receipt ::
    "(json \<Rightarrow> json) \<Rightarrow> datetime \<Rightarrow> string \<Rightarrow> submit_receipt \<Rightarrow> string option \<Rightarrow> int option \<Rightarrow> run_db
      \<Rightarrow> (run_error, run_record) result \<times> run_db" where
  "apply_submit_receipt redact now rid receipt lease_owner fencing_token db =
     (if (lease_owner = None) \<noteq> (fencing_token = None) then (Inl (R_Value ''lease_owner and fencing_token''), db)
      else then_read (get_run rid)
        (commit (apply_submit_receipt_tx redact now rid receipt lease_owner fencing_token) db))"

definition submission_held :: "string \<Rightarrow> string \<Rightarrow> int \<Rightarrow> run_row \<Rightarrow> bool" where
  "submission_held rid lease_owner fencing_token r \<longleftrightarrow> rn_id r = rid \<and> rc_state (rn_record r) = RS_SUBMITTING \<and>
     rn_sub_owner r = Some lease_owner \<and> rn_sub_token r = fencing_token \<and> rc_job_id (rn_record r) = None"

definition set_run_state :: "datetime \<Rightarrow> run_state \<Rightarrow> run_row \<Rightarrow> run_row" where
  "set_run_state now s = upd_record (\<lambda>c. c\<lparr>rc_state := s, rc_updated_at := isoformat now\<rparr>)"

definition fail_submission_tx ::
    "(json \<Rightarrow> json) \<Rightarrow> datetime \<Rightarrow> string \<Rightarrow> run_state \<Rightarrow> string \<Rightarrow> string \<Rightarrow> int \<Rightarrow> string option \<Rightarrow> unit run_tx" where
  "fail_submission_tx redact now rid state event_type lease_owner fencing_token failure_reason db =
     (let p = submission_held rid lease_owner fencing_token in
      if rowcount p (rd_runs db) \<noteq> 1 then Inl R_Fence
      else append_event_tx redact now rid event_type
        (JObj ([(''state'', JStr (run_state_value state)), (''lease_owner'', JStr lease_owner),
                (''fencing_token'', JInt fencing_token)] @ reason_fields failure_reason))
        (db\<lparr>rd_runs := sql_update p (set_run_state now state) (rd_runs db)\<rparr>))"

definition fail_submission ::
    "(json \<Rightarrow> json) \<Rightarrow> datetime \<Rightarrow> string \<Rightarrow> run_state \<Rightarrow> string \<Rightarrow> string \<Rightarrow> int \<Rightarrow> string option \<Rightarrow> run_db
      \<Rightarrow> (run_error, run_record) result \<times> run_db" where
  "fail_submission redact now rid state event_type lease_owner fencing_token failure_reason db =
     (case first_failure
        [(state \<in> {RS_SUBMIT_FAILED, RS_SUBMISSION_UNCERTAIN}, R_Value ''submission failure state''),
         (0 < fencing_token, R_Value ''fencing_token'')] of
        Some e \<Rightarrow> (Inl e, db)
      | None \<Rightarrow> then_read (get_run rid)
          (commit (fail_submission_tx redact now rid state event_type lease_owner fencing_token failure_reason) db))"

section \<open>Snapshots and state changes\<close>

record job_snapshot =
  js_job_id :: string
  js_run_state :: run_state
  js_flags :: "string list"
  js_exit_code :: "string option"
  js_reason :: "string option"

definition snapshot_result :: "run_state \<Rightarrow> result_status" where
  "snapshot_result s =
     (if s = RS_SUCCEEDED then RES_COMPLETE
      else if s \<in> {RS_FAILED, RS_CANCELLED} then RES_INVALID else RES_UNKNOWN)"

definition upd_snapshot :: "datetime \<Rightarrow> job_snapshot \<Rightarrow> run_row \<Rightarrow> run_row" where
  "upd_snapshot now snapshot = upd_record (\<lambda>c. c\<lparr>rc_state := js_run_state snapshot,
     rc_exit_code := js_exit_code snapshot,
     rc_terminal_state := (case js_flags snapshot of [] \<Rightarrow> None | f # _ \<Rightarrow> Some f),
     rc_result := snapshot_result (js_run_state snapshot), rc_updated_at := isoformat now\<rparr>)"

definition snapshot_tasks :: "datetime \<Rightarrow> string \<Rightarrow> run_state \<Rightarrow> run_db \<Rightarrow> run_db" where
  "snapshot_tasks now rid s db =
     (if s \<in> {RS_SUCCEEDED, RS_FAILED, RS_CANCELLED} then
        fold (ensure_task now rid)
          [''terminal_accounting'', ''logs_finalize'', ''environment_finalize'', ''outputs_inventory'', ''result_summary''] db
      else reactivate_succeeded_task now rid ''runtime_status'' db)"

definition apply_snapshot_tx :: "(json \<Rightarrow> json) \<Rightarrow> datetime \<Rightarrow> string \<Rightarrow> job_snapshot \<Rightarrow> unit run_tx" where
  "apply_snapshot_tx redact now rid snapshot db =
     bind_res (append_event_tx redact now rid ''run.snapshot''
       (JObj [(''job_id'', JStr (js_job_id snapshot)), (''state'', JStr (run_state_value (js_run_state snapshot))),
              (''raw_state_flags'', jstrs (js_flags snapshot)), (''exit_code'', jopt JStr (js_exit_code snapshot)),
              (''reason'', jopt JStr (js_reason snapshot))])
       (db\<lparr>rd_runs := sql_update (\<lambda>r. rn_id r = rid) (upd_snapshot now snapshot) (rd_runs db)\<rparr>))
     (\<lambda>(_, t). Inr ((), refresh_collection_state now rid (snapshot_tasks now rid (js_run_state snapshot) t)))"

definition apply_snapshot ::
    "(json \<Rightarrow> json) \<Rightarrow> datetime \<Rightarrow> string \<Rightarrow> job_snapshot \<Rightarrow> run_db \<Rightarrow> (run_error, run_record) result \<times> run_db" where
  "apply_snapshot redact now rid snapshot db =
     then_read (get_run rid) (commit (apply_snapshot_tx redact now rid snapshot) db)"

definition update_state_tx ::
    "(json \<Rightarrow> json) \<Rightarrow> datetime \<Rightarrow> string \<Rightarrow> run_state \<Rightarrow> string \<Rightarrow> string option \<Rightarrow> unit run_tx" where
  "update_state_tx redact now rid state event_type failure_reason db =
     append_event_tx redact now rid event_type
       (JObj ((''state'', JStr (run_state_value state)) # reason_fields failure_reason))
       (db\<lparr>rd_runs := sql_update (\<lambda>r. rn_id r = rid) (set_run_state now state) (rd_runs db)\<rparr>)"

definition update_state ::
    "(json \<Rightarrow> json) \<Rightarrow> datetime \<Rightarrow> string \<Rightarrow> run_state \<Rightarrow> string \<Rightarrow> string option \<Rightarrow> run_db
      \<Rightarrow> (run_error, run_record) result \<times> run_db" where
  "update_state redact now rid state event_type failure_reason db =
     then_read (get_run rid) (commit (update_state_tx redact now rid state event_type failure_reason) db)"

definition mark_submitting ::
    "(json \<Rightarrow> json) \<Rightarrow> datetime \<Rightarrow> string \<Rightarrow> run_db \<Rightarrow> (run_error, run_record) result \<times> run_db" where
  "mark_submitting redact now rid db = update_state redact now rid RS_SUBMITTING ''run.submitting'' None db"

definition upd_orphan :: "datetime \<Rightarrow> run_row \<Rightarrow> run_row" where
  "upd_orphan now = upd_record (\<lambda>c. c\<lparr>rc_state := RS_ORPHANED, rc_terminal_state := Some ''BACKEND_OWNERSHIP_LOST'',
     rc_result := RES_UNKNOWN, rc_updated_at := isoformat now\<rparr>)"

definition mark_backend_orphaned_tx ::
    "(json \<Rightarrow> json) \<Rightarrow> datetime \<Rightarrow> string \<Rightarrow> string \<Rightarrow> string \<Rightarrow> unit run_tx" where
  "mark_backend_orphaned_tx redact now rid backend job_id db =
     (if rowcount (\<lambda>r. rn_id r = rid) (rd_runs db) \<noteq> 1 then Inl (R_Key rid)
      else append_event_tx redact now rid ''run.backend_orphaned''
        (JObj [(''backend'', JStr backend), (''job_id'', JStr job_id),
               (''state'', JStr (run_state_value RS_ORPHANED)), (''reason'', JStr ''backend_ownership_lost'')])
        (db\<lparr>rd_runs := sql_update (\<lambda>r. rn_id r = rid) (upd_orphan now) (rd_runs db)\<rparr>))"

definition mark_backend_orphaned ::
    "(json \<Rightarrow> json) \<Rightarrow> datetime \<Rightarrow> string \<Rightarrow> string \<Rightarrow> string \<Rightarrow> run_db \<Rightarrow> (run_error, run_record) result \<times> run_db" where
  "mark_backend_orphaned redact now rid backend job_id db =
     then_read (get_run rid) (commit (mark_backend_orphaned_tx redact now rid backend job_id) db)"

text \<open>\<open>append_event\<close> returns the row it appended.\<close>

definition append_event ::
    "(json \<Rightarrow> json) \<Rightarrow> datetime \<Rightarrow> string \<Rightarrow> string \<Rightarrow> json \<Rightarrow> run_db \<Rightarrow> (run_error, run_event) result \<times> run_db" where
  "append_event redact now rid event_type payload db =
     commit (\<lambda>db. bind_res (append_event_tx redact now rid event_type payload db)
       (\<lambda>(_, t). Inr (last (rd_events t), t))) db"

section \<open>The fenced capsule build\<close>

record capsule_claim =
  cb_run_id :: string
  cb_key :: string
  cb_token :: int

definition update_capsule_state_tx ::
    "(json \<Rightarrow> json) \<Rightarrow> datetime \<Rightarrow> string \<Rightarrow> capsule_state \<Rightarrow> string \<Rightarrow> (string \<times> json) list option \<Rightarrow> unit run_tx" where
  "update_capsule_state_tx redact now rid state event_type payload db =
     (let p = (\<lambda>r. rn_id r = rid \<and> rc_capsule_key (rn_record r) = None) in
      if rowcount p (rd_runs db) \<noteq> 1 then Inl R_CapsuleFence
      else append_event_tx redact now rid event_type
        (merged [(''capsule_state'', JStr (capsule_state_value state))] payload)
        (db\<lparr>rd_runs := sql_update p
           (upd_record (\<lambda>c. c\<lparr>rc_capsule := state, rc_updated_at := isoformat now\<rparr>)) (rd_runs db)\<rparr>))"

definition update_capsule_state ::
    "(json \<Rightarrow> json) \<Rightarrow> datetime \<Rightarrow> string \<Rightarrow> capsule_state \<Rightarrow> string \<Rightarrow> (string \<times> json) list option \<Rightarrow> run_db
      \<Rightarrow> (run_error, run_record) result \<times> run_db" where
  "update_capsule_state redact now rid state event_type payload db =
     then_read (get_run rid) (commit (update_capsule_state_tx redact now rid state event_type payload) db)"

definition ready_capsule :: "string \<Rightarrow> string \<Rightarrow> int \<Rightarrow> run_row \<Rightarrow> bool" where
  "ready_capsule rid operation_key token r \<longleftrightarrow> rn_id r = rid \<and> rc_capsule (rn_record r) = CAP_READY \<and>
     rc_capsule_key (rn_record r) = Some operation_key \<and> rc_capsule_token (rn_record r) = token"

definition buildable_capsule :: "string \<Rightarrow> string \<Rightarrow> int \<Rightarrow> run_row \<Rightarrow> bool" where
  "buildable_capsule rid operation_key token r \<longleftrightarrow> rn_id r = rid \<and> rc_capsule_token (rn_record r) = token \<and>
     (rc_capsule_key (rn_record r) = None \<or> rc_capsule_key (rn_record r) = Some operation_key) \<and>
     rc_capsule (rn_record r) \<noteq> CAP_READY"

definition capsule_payload :: "capsule_state \<Rightarrow> string \<Rightarrow> int \<Rightarrow> (string \<times> json) list" where
  "capsule_payload state operation_key token =
     [(''capsule_state'', JStr (capsule_state_value state)), (''operation_key'', JStr operation_key),
      (''fencing_token'', JInt token)]"

text \<open>The branch of a Run whose capsule is READY: the next holder of the same build identity.\<close>

definition reuse_capsule_tx ::
    "(json \<Rightarrow> json) \<Rightarrow> datetime \<Rightarrow> string \<Rightarrow> string \<Rightarrow> run_record \<Rightarrow> capsule_claim run_tx" where
  "reuse_capsule_tx redact now rid operation_key current db =
     (let next_fence = rc_capsule_token current + 1; p = ready_capsule rid operation_key (rc_capsule_token current) in
      if rc_capsule_key current \<noteq> Some operation_key \<or> rc_capsule_token current \<le> 0 then Inl R_CapsuleFence
      else if rowcount p (rd_runs db) \<noteq> 1 then Inl R_CapsuleFence
      else bind_res (append_event_tx redact now rid ''capsule.reuse_claimed''
          (JObj (capsule_payload CAP_READY operation_key next_fence))
          (db\<lparr>rd_runs := sql_update p
             (upd_record (\<lambda>c. c\<lparr>rc_capsule_token := next_fence, rc_updated_at := isoformat now\<rparr>)) (rd_runs db)\<rparr>))
        (\<lambda>(_, t). Inr (\<lparr>cb_run_id = rid, cb_key = operation_key, cb_token = next_fence\<rparr>, t)))"

definition build_capsule_tx ::
    "(json \<Rightarrow> json) \<Rightarrow> datetime \<Rightarrow> string \<Rightarrow> string \<Rightarrow> run_record \<Rightarrow> capsule_claim run_tx" where
  "build_capsule_tx redact now rid operation_key current db =
     (let next_fence = rc_capsule_token current + 1; p = buildable_capsule rid operation_key (rc_capsule_token current) in
      if rc_capsule_key current \<noteq> None \<and> rc_capsule_key current \<noteq> Some operation_key then Inl R_CapsuleFence
      else if rowcount p (rd_runs db) \<noteq> 1 then Inl R_CapsuleFence
      else bind_res (append_event_tx redact now rid ''capsule.running''
          (JObj (capsule_payload CAP_RUNNING operation_key next_fence))
          (db\<lparr>rd_runs := sql_update p
             (upd_record (\<lambda>c. c\<lparr>rc_capsule := CAP_RUNNING, rc_capsule_key := Some operation_key,
                rc_capsule_token := next_fence, rc_updated_at := isoformat now\<rparr>)) (rd_runs db)\<rparr>))
        (\<lambda>(_, t). Inr (\<lparr>cb_run_id = rid, cb_key = operation_key, cb_token = next_fence\<rparr>, t)))"

definition begin_capsule_build ::
    "(json \<Rightarrow> json) \<Rightarrow> datetime \<Rightarrow> string \<Rightarrow> string \<Rightarrow> run_db \<Rightarrow> (run_error, capsule_claim) result \<times> run_db" where
  "begin_capsule_build redact now rid operation_key db =
     (if \<not> hex_digest operation_key then (Inl (R_Value ''operation_key''), db)
      else commit (\<lambda>db.
        (case get_run rid db of
           Inl e \<Rightarrow> Inl e
         | Inr current \<Rightarrow>
             if rc_capsule current = CAP_READY then reuse_capsule_tx redact now rid operation_key current db
             else build_capsule_tx redact now rid operation_key current db)) db)"

definition assert_capsule_build :: "string \<Rightarrow> string \<Rightarrow> int \<Rightarrow> run_db \<Rightarrow> (run_error, unit) result" where
  "assert_capsule_build rid operation_key fencing_token db =
     ensure (0 < fencing_token) (R_Value ''fencing_token'')
     (ensure (fetchone (\<lambda>r. rn_id r = rid \<and> rc_capsule (rn_record r) \<in> {CAP_RUNNING, CAP_READY} \<and>
                rc_capsule_key (rn_record r) = Some operation_key \<and>
                rc_capsule_token (rn_record r) = fencing_token) (rd_runs db) \<noteq> None) R_CapsuleFence
     (Inr ()))"

definition building_capsule :: "string \<Rightarrow> string \<Rightarrow> int \<Rightarrow> run_row \<Rightarrow> bool" where
  "building_capsule rid operation_key token r \<longleftrightarrow> rn_id r = rid \<and> rc_capsule (rn_record r) = CAP_RUNNING \<and>
     rc_capsule_key (rn_record r) = Some operation_key \<and> rc_capsule_token (rn_record r) = token"

definition finish_capsule_build_tx ::
    "(json \<Rightarrow> json) \<Rightarrow> datetime \<Rightarrow> string \<Rightarrow> string \<Rightarrow> int \<Rightarrow> capsule_state \<Rightarrow> string \<Rightarrow> (string \<times> json) list option \<Rightarrow> unit run_tx" where
  "finish_capsule_build_tx redact now rid operation_key fencing_token state event_type payload db =
     (case get_run rid db of
        Inl e \<Rightarrow> Inl e
      | Inr current \<Rightarrow>
          if state = CAP_READY \<and> rc_capsule current = CAP_READY \<and>
             rc_capsule_key current = Some operation_key \<and> rc_capsule_token current = fencing_token
          then Inr ((), db)
          else
            let p = building_capsule rid operation_key fencing_token in
            if rowcount p (rd_runs db) \<noteq> 1 then Inl R_CapsuleFence
            else append_event_tx redact now rid event_type
              (merged (capsule_payload state operation_key fencing_token) payload)
              (db\<lparr>rd_runs := sql_update p
                 (upd_record (\<lambda>c. c\<lparr>rc_capsule := state, rc_updated_at := isoformat now\<rparr>)) (rd_runs db)\<rparr>))"

definition finish_capsule_build ::
    "(json \<Rightarrow> json) \<Rightarrow> datetime \<Rightarrow> string \<Rightarrow> string \<Rightarrow> int \<Rightarrow> capsule_state \<Rightarrow> string \<Rightarrow> (string \<times> json) list option
      \<Rightarrow> run_db \<Rightarrow> (run_error, run_record) result \<times> run_db" where
  "finish_capsule_build redact now rid operation_key fencing_token state event_type payload db =
     (case first_failure
        [(state \<in> {CAP_PENDING, CAP_READY, CAP_FAILED}, R_Value ''finish state''),
         (0 < fencing_token, R_Value ''fencing_token'')] of
        Some e \<Rightarrow> (Inl e, db)
      | None \<Rightarrow> then_read (get_run rid)
          (commit (finish_capsule_build_tx redact now rid operation_key fencing_token state event_type payload) db))"

section \<open>Reads\<close>

definition list_child_runs :: "string \<Rightarrow> run_db \<Rightarrow> (run_error, run_record list) result" where
  "list_child_runs parent_run_id db =
     bind_res (get_run parent_run_id db) (\<lambda>parent.
       let children = sort_key (\<lambda>c. (spec_created_at (rc_spec c), rc_id c))
             (map rn_record (filter (\<lambda>r. spec_parent (rn_spec r) = Some parent_run_id) (rd_runs db)))
       in if \<exists>c \<in> set children. spec_owner (rc_spec c) \<noteq> spec_owner (rc_spec parent)
          then Inl (R_Runtime ''run children cross owner boundary'') else Inr children)"

definition list_active_job_runs :: "int \<Rightarrow> run_db \<Rightarrow> run_record list" where
  "list_active_job_runs limit db =
     (if limit \<le> 0 then []
      else take (nat limit) (sort_key (\<lambda>c. (rc_updated_at c, spec_created_at (rc_spec c)))
        (map rn_record (filter (\<lambda>r. rc_job_id (rn_record r) \<noteq> None \<and>
           rc_state (rn_record r) \<in> active_job_run_states) (rd_runs db)))))"

definition list_due_workflow_retries :: "datetime \<Rightarrow> int \<Rightarrow> run_db \<Rightarrow> run_record list" where
  "list_due_workflow_retries now limit db =
     (if limit \<le> 0 then []
      else take (nat limit) (sort_key (\<lambda>c. (the (spec_retry_not_before (rc_spec c)), spec_created_at (rc_spec c)))
        (map rn_record (filter (\<lambda>r. spec_lineage_reason (rn_spec r) = Some ''workflow_retry'' \<and>
           rc_state (rn_record r) = RS_VALIDATED \<and> rc_job_id (rn_record r) = None \<and>
           (case spec_retry_not_before (rn_spec r) of None \<Rightarrow> False | Some t \<Rightarrow> t \<le> isoformat now)) (rd_runs db)))))"

definition list_runs_ready_for_diagnosis :: "int \<Rightarrow> run_db \<Rightarrow> run_record list" where
  "list_runs_ready_for_diagnosis limit db =
     (if limit \<le> 0 then []
      else take (nat limit) (sort_key (\<lambda>c. (rc_updated_at c, spec_created_at (rc_spec c)))
        (map rn_record (filter (\<lambda>r. rc_state (rn_record r) \<in> terminal_run_states \<and>
           rc_collection (rn_record r) \<in> {CS_SUCCEEDED, CS_DEGRADED} \<and>
           rc_diagnosis (rn_record r) = DS_PENDING) (rd_runs db)))))"

definition list_events :: "string \<Rightarrow> run_db \<Rightarrow> run_event list" where
  "list_events rid db = sort_key re_id (filter (\<lambda>e. re_run e = rid) (rd_events db))"

text \<open>One page of a Run's events, and the event id to continue after.\<close>

definition list_events_page ::
    "string \<Rightarrow> string list \<Rightarrow> int \<Rightarrow> int \<Rightarrow> run_db \<Rightarrow> (run_error, run_event list \<times> int option) result" where
  "list_events_page rid event_types after_event_id limit db =
     ensure (1 \<le> limit \<and> limit \<le> 100) (R_Value ''limit'')
     (ensure (0 \<le> after_event_id) (R_Value ''after_event_id'')
     (let rows = take (nat limit + 1) (sort_key re_id (filter (\<lambda>e. re_run e = rid \<and> after_event_id < re_id e \<and>
                   (event_types = [] \<or> re_type e \<in> set event_types)) (rd_events db)));
          selected = take (nat limit) rows
      in Inr (selected, if nat limit < length rows \<and> selected \<noteq> [] then Some (re_id (last selected)) else None)))"

text \<open>
  \<open>list_run_lineage\<close> follows \<open>parent_run_id\<close> to the root. The loop remembers the Runs it has seen, so it
  ends on every table.
\<close>

function lineage_loop :: "run_db \<Rightarrow> run_record \<Rightarrow> string list \<Rightarrow> run_record list \<Rightarrow> (run_error, run_record list) result" where
  "lineage_loop db current seen lineage =
     (if rc_id current \<in> set seen then Inl (R_Runtime ''run lineage contains a cycle'')
      else
        let lineage' = lineage @ [current] in
        (case spec_parent (rc_spec current) of
           None \<Rightarrow> Inr (rev lineage')
         | Some p \<Rightarrow>
             (case get_run p db of
                Inl e \<Rightarrow> Inl e
              | Inr parent \<Rightarrow>
                  if spec_owner (rc_spec parent) \<noteq> spec_owner (rc_spec (hd lineage'))
                  then Inl (R_Runtime ''run lineage crosses owner boundary'')
                  else lineage_loop db parent (rc_id current # seen) lineage')))"
  by pat_completeness auto

termination
proof (relation "measure (\<lambda>(db, current, seen, _). card (insert (rc_id current) (rn_id ` set (rd_runs db)) - set seen))",
    goal_cases)
  case 1
  show ?case by simp
next
  case (2 db current seen lineage lineage' p parent)
  let ?ids = "rn_id ` set (rd_runs db)"
  have "rc_id parent \<in> ?ids" using get_run_Inr [OF "2"(4)] by auto
  then have "insert (rc_id parent) ?ids - set (rc_id current # seen) = ?ids - set seen - {rc_id current}"
    by auto
  also have "\<dots> \<subset> insert (rc_id current) ?ids - set seen" using "2"(1) by auto
  finally show ?case by (simp add: psubset_card_mono)
qed

declare lineage_loop.simps [simp del]

definition list_run_lineage :: "string \<Rightarrow> run_db \<Rightarrow> (run_error, run_record list) result" where
  "list_run_lineage rid db = bind_res (get_run rid db) (\<lambda>current. lineage_loop db current [] [])"

end
