(* ===== verification/Resources.thy ===== *)
theory Resources
  imports RunStore ControlRepo
begin

text \<open>
  \<open>core/resources.py\<close> and the two conversions of \<open>core/run_service.py\<close> between a plan and the JSON a Run
  keeps. Findings keep severity, code and authority; their messages, texts for people, are left out.
  Amounts of memory and hours are fractions where the code computes with floats.
\<close>

section \<open>Numbers in texts\<close>

definition strip :: "string \<Rightarrow> string" where
  \<comment> \<open>\<open>str.strip()\<close>\<close>
  "strip s = rev (dropWhile space_char (rev (dropWhile space_char s)))"

definition digit_value :: "char \<Rightarrow> nat" where
  "digit_value c = of_char c - 48"

text \<open>\<open>int(text)\<close>: white space around, a sign, digits with single underscores between them, at most 4300
  of them; \<open>None\<close> is the \<open>ValueError\<close>.\<close>

fun digits_from :: "nat \<Rightarrow> string \<Rightarrow> nat option" where
  "digits_from acc [] = Some acc"
| "digits_from acc (c # cs) =
     (if digit_char c then digits_from (10 * acc + digit_value c) cs
      else if c = CHR ''_'' \<and> cs \<noteq> [] \<and> digit_char (hd cs) then digits_from acc cs
      else None)"

definition unsigned_of_text :: "string \<Rightarrow> nat option" where
  "unsigned_of_text s =
     (if s \<noteq> [] \<and> digit_char (hd s) \<and> length (filter digit_char s) \<le> 4300 then digits_from 0 s else None)"

definition int_of_text :: "string \<Rightarrow> int option" where
  "int_of_text s =
     (let t = strip s in
      if t \<noteq> [] \<and> hd t = CHR ''-'' then map_option (\<lambda>n. - int n) (unsigned_of_text (tl t))
      else if t \<noteq> [] \<and> hd t = CHR ''+'' then map_option int (unsigned_of_text (tl t))
      else map_option int (unsigned_of_text t))"

fun split_at :: "char \<Rightarrow> string \<Rightarrow> string list" where
  \<comment> \<open>\<open>str.split(sep)\<close> for one character\<close>
  "split_at sep [] = [[]]"
| "split_at sep (c # cs) =
     (if c = sep then [] # split_at sep cs
      else (case split_at sep cs of [] \<Rightarrow> [[c]] | w # ws \<Rightarrow> (c # w) # ws))"

section \<open>Plans\<close>

datatype preflight_severity = SEV_BLOCK | SEV_WARN | SEV_INFO | SEV_UNKNOWN

record preflight_finding =
  pf_severity :: preflight_severity
  pf_code :: string
  pf_source :: string

record qos_limit =
  ql_max_cpus :: "int option"
  ql_max_gpus :: "int option"
  ql_max_memory_gb :: "int option"
  ql_max_wall_hours :: "int option"
  ql_source :: string

record array_spec =
  as_expression :: string
  as_max_concurrency :: "int option"

record resource_plan =
  rp_partition :: string
  rp_qos :: "string option"
  rp_nodes :: int
  rp_ntasks :: int
  rp_cpus_per_task :: int
  rp_memory_value :: "int option"
  rp_memory_unit :: "string option"
  rp_gpus_per_node :: "int option"
  rp_gpus_total :: "int option"
  rp_gpu_type :: "string option"
  rp_time_limit :: "string option"
  rp_array :: "array_spec option"

definition derived_cpu_upper_bound :: "resource_plan \<Rightarrow> int" where
  "derived_cpu_upper_bound p = rp_ntasks p * rp_cpus_per_task p"

definition derived_gpu_total :: "resource_plan \<Rightarrow> int" where
  "derived_gpu_total p =
     (case rp_gpus_total p of
        Some g \<Rightarrow> g
      | None \<Rightarrow> (case rp_gpus_per_node p of Some g \<Rightarrow> rp_nodes p * g | None \<Rightarrow> 0))"

definition derived_parallelism :: "resource_plan \<Rightarrow> int" where
  "derived_parallelism p =
     (case rp_array p of
        None \<Rightarrow> rp_ntasks p
      | Some a \<Rightarrow> (case as_max_concurrency a of None \<Rightarrow> rp_ntasks p | Some n \<Rightarrow> if n = 0 then rp_ntasks p else n))"

section \<open>Validation\<close>

abbreviation block :: "string \<Rightarrow> preflight_finding" where
  "block code \<equiv> \<lparr>pf_severity = SEV_BLOCK, pf_code = code, pf_source = ''A6''\<rparr>"

definition capability_warning :: "string \<Rightarrow> preflight_finding" where
  "capability_warning code = \<lparr>pf_severity = SEV_WARN, pf_code = code, pf_source = ''capability_profile''\<rparr>"

definition add_if :: "bool \<Rightarrow> 'a \<Rightarrow> 'a list" where
  \<comment> \<open>\<open>if condition: findings.append(x)\<close>\<close>
  "add_if b x = (if b then [x] else [])"

definition memory_factors :: "(string \<times> rat) list" where
  "memory_factors = [(''K'', 1 / (1024 * 1024)), (''KB'', 1 / (1024 * 1024)), (''M'', 1 / 1024), (''MB'', 1 / 1024),
     (''G'', 1), (''GB'', 1), (''T'', 1024), (''TB'', 1024)]"

definition memory_to_gb :: "int option \<Rightarrow> string option \<Rightarrow> rat option \<times> preflight_finding option" where
  "memory_to_gb value unit =
     (case value of
        None \<Rightarrow> (None, None)
      | Some v \<Rightarrow>
          let normalized = upper (strip (case unit of None \<Rightarrow> ''M'' | Some u \<Rightarrow> if u = [] then ''M'' else u)) in
          (case map_of memory_factors normalized of
             None \<Rightarrow> (None, Some (capability_warning ''RESOURCE.MEMORY_UNIT_UNKNOWN''))
           | Some factor \<Rightarrow> (Some (of_int v * factor), None)))"

definition time_parse_warning :: preflight_finding where
  "time_parse_warning = capability_warning ''RESOURCE.TIME_LIMIT_PARSE_UNKNOWN''"

text \<open>The three texts hours, minutes and seconds; \<open>None\<close> where the code warns.\<close>

definition clock_parts :: "string \<Rightarrow> (string \<times> string \<times> string) option" where
  "clock_parts text =
     (case split_at (CHR '':'') text of
        [h, m, s] \<Rightarrow> Some (h, m, s)
      | [m, s] \<Rightarrow> Some (''0'', m, s)
      | [m] \<Rightarrow> if m \<noteq> [] \<and> list_all digit_char m then Some (''0'', m, ''0'') else None
      | _ \<Rightarrow> None)"

definition clock_hours :: "int \<Rightarrow> string \<Rightarrow> rat option \<times> preflight_finding option" where
  "clock_hours days text =
     (case clock_parts text of
        None \<Rightarrow> (None, Some time_parse_warning)
      | Some (hour_text, minute_text, second_text) \<Rightarrow>
          (case (int_of_text hour_text, int_of_text minute_text, int_of_text second_text) of
             (Some h, Some m, Some s) \<Rightarrow> (Some (of_int (days * 24 + h) + of_int m / 60 + of_int s / 3600), None)
           | _ \<Rightarrow> (None, Some time_parse_warning)))"

definition time_limit_to_hours :: "string option \<Rightarrow> rat option \<times> preflight_finding option" where
  "time_limit_to_hours value =
     (case value of
        None \<Rightarrow> (None, None)
      | Some v \<Rightarrow>
          let text = strip v in
          if text = [] then (None, None)
          else if CHR ''-'' \<in> set text then
            (case int_of_text (takeWhile (\<lambda>c. c \<noteq> CHR ''-'') text) of
               None \<Rightarrow> (None, Some time_parse_warning)
             | Some days \<Rightarrow> clock_hours days (tl (dropWhile (\<lambda>c. c \<noteq> CHR ''-'') text)))
          else clock_hours 0 text)"

definition over :: "int option \<Rightarrow> rat option \<Rightarrow> bool" where
  \<comment> \<open>both known and the value above the limit\<close>
  "over limit value = (case (limit, value) of (Some l, Some v) \<Rightarrow> of_int l < v | _ \<Rightarrow> False)"

definition validate_qos_limits :: "resource_plan \<Rightarrow> qos_limit \<Rightarrow> preflight_finding list" where
  "validate_qos_limits plan limits =
     (let (memory_gb, memory_warning) = memory_to_gb (rp_memory_value plan) (rp_memory_unit plan);
          (wall_hours, wall_warning) = time_limit_to_hours (rp_time_limit plan);
          exceeded = (\<lambda>code. \<lparr>pf_severity = SEV_BLOCK, pf_code = code, pf_source = ql_source limits\<rparr>)
      in add_if (over (ql_max_cpus limits) (Some (of_int (derived_cpu_upper_bound plan)))) (exceeded ''RESOURCE.QOS_CPU_LIMIT_EXCEEDED'')
       @ add_if (over (ql_max_gpus limits) (Some (of_int (derived_gpu_total plan)))) (exceeded ''RESOURCE.QOS_GPU_LIMIT_EXCEEDED'')
       @ add_if (over (ql_max_memory_gb limits) memory_gb) (exceeded ''RESOURCE.QOS_MEMORY_LIMIT_EXCEEDED'')
       @ (case memory_warning of None \<Rightarrow> [] | Some w \<Rightarrow> [w])
       @ add_if (over (ql_max_wall_hours limits) wall_hours) (exceeded ''RESOURCE.QOS_WALLTIME_LIMIT_EXCEEDED'')
       @ (case wall_warning of None \<Rightarrow> [] | Some w \<Rightarrow> [w]))"

definition no_text :: "string option \<Rightarrow> bool" where
  \<comment> \<open>\<open>not value\<close>\<close>
  "no_text v \<longleftrightarrow> v = None \<or> v = Some []"

definition profile_findings :: "resource_plan \<Rightarrow> (string \<times> string list) list \<Rightarrow> preflight_finding list" where
  "profile_findings plan partition_qos =
     (let profile = (\<lambda>code. \<lparr>pf_severity = SEV_BLOCK, pf_code = code, pf_source = ''real107_sim_profile''\<rparr>) in
      case map_of partition_qos (rp_partition plan) of
        None \<Rightarrow> [profile ''RESOURCE.UNKNOWN_PARTITION'']
      | Some allowed_qos \<Rightarrow>
          if no_text (rp_qos plan) then [profile ''RESOURCE.QOS_REQUIRED'']
          else add_if (the (rp_qos plan) \<notin> set allowed_qos) (profile ''RESOURCE.QOS_NOT_ALLOWED''))"

definition qos_findings :: "resource_plan \<Rightarrow> (string \<times> qos_limit) list \<Rightarrow> preflight_finding list" where
  "qos_findings plan qos_limits =
     (if no_text (rp_qos plan) then []
      else (case map_of qos_limits (the (rp_qos plan)) of
              None \<Rightarrow> [capability_warning ''RESOURCE.QOS_LIMITS_UNKNOWN'']
            | Some limits \<Rightarrow> validate_qos_limits plan limits))"

definition validate_resource_plan ::
    "resource_plan \<Rightarrow> (string \<times> string list) list option \<Rightarrow> (string \<times> qos_limit) list option \<Rightarrow> preflight_finding list" where
  "validate_resource_plan plan partition_qos qos_limits =
     add_if (rp_nodes plan \<le> 0) (block ''RESOURCE.INVALID_NODES'')
     @ add_if (rp_ntasks plan \<le> 0) (block ''RESOURCE.INVALID_NTASKS'')
     @ add_if (rp_cpus_per_task plan \<le> 0) (block ''RESOURCE.INVALID_CPUS_PER_TASK'')
     @ add_if (case rp_gpus_per_node plan of None \<Rightarrow> False | Some g \<Rightarrow> g < 0) (block ''RESOURCE.INVALID_GPUS_PER_NODE'')
     @ add_if (case rp_gpus_total plan of None \<Rightarrow> False | Some g \<Rightarrow> g < 0) (block ''RESOURCE.INVALID_GPUS_TOTAL'')
     @ add_if (case (rp_gpus_per_node plan, rp_gpus_total plan) of
               (Some g, Some t) \<Rightarrow> rp_nodes plan * g \<noteq> t | _ \<Rightarrow> False) (block ''RESOURCE.GPU_TOTAL_CONFLICT'')
     @ add_if (no_text (rp_time_limit plan)) (block ''RESOURCE.TIME_LIMIT_REQUIRED'')
     @ (case partition_qos of None \<Rightarrow> [] | Some m \<Rightarrow> profile_findings plan m)
     @ (case qos_limits of None \<Rightarrow> [] | Some m \<Rightarrow> qos_findings plan m)"

definition blockers :: "preflight_finding list \<Rightarrow> preflight_finding list" where
  "blockers fs = filter (\<lambda>f. pf_severity f = SEV_BLOCK) fs"

section \<open>Plans as JSON\<close>

definition resource_plan_to_dict ::
    "resource_plan \<Rightarrow> int option \<Rightarrow> string option \<Rightarrow> string option \<Rightarrow> string option \<Rightarrow> json" where
  "resource_plan_to_dict plan workspace_revision workspace_digest source_revision platform_snapshot_ref =
     JObj ([(''partition'', JStr (rp_partition plan)), (''qos'', jopt JStr (rp_qos plan)),
        (''nodes'', JInt (rp_nodes plan)), (''ntasks'', JInt (rp_ntasks plan)),
        (''cpus_per_task'', JInt (rp_cpus_per_task plan)), (''memory_value'', jopt JInt (rp_memory_value plan)),
        (''memory_unit'', jopt JStr (rp_memory_unit plan)), (''gpus_per_node'', jopt JInt (rp_gpus_per_node plan)),
        (''gpus_total'', jopt JInt (rp_gpus_total plan)), (''gpu_type'', jopt JStr (rp_gpu_type plan)),
        (''time_limit'', jopt JStr (rp_time_limit plan))]
      @ (case rp_array plan of None \<Rightarrow> []
         | Some a \<Rightarrow> [(''array'', JObj [(''expression'', JStr (as_expression a)),
                       (''max_concurrency'', jopt JInt (as_max_concurrency a))])])
      @ (case workspace_digest of None \<Rightarrow> []
         | Some d \<Rightarrow> [(''workspace_snapshot_digest'', JStr d), (''workspace_revision'', jopt JInt workspace_revision)])
      @ (case source_revision of None \<Rightarrow> [] | Some s \<Rightarrow> [(''source_revision'', JStr s)])
      @ (case platform_snapshot_ref of None \<Rightarrow> [] | Some s \<Rightarrow> [(''platform_snapshot_ref'', JStr s)]))"

datatype plan_error = PE_Key string | PE_Value | PE_Type

fun py_int :: "json \<Rightarrow> (plan_error, int) result" where
  \<comment> \<open>\<open>int(value)\<close>\<close>
  "py_int (JInt i) = Inr i"
| "py_int (JBool b) = Inr (if b then 1 else 0)"
| "py_int (JStr s) = (case int_of_text s of None \<Rightarrow> Inl PE_Value | Some i \<Rightarrow> Inr i)"
| "py_int v = Inl PE_Type"

definition required_field :: "string \<Rightarrow> json \<Rightarrow> (plan_error, json) result" where
  \<comment> \<open>\<open>payload[key]\<close>\<close>
  "required_field k payload =
     (if is_object payload then (case jfield k payload of None \<Rightarrow> Inl (PE_Key k) | Some v \<Rightarrow> Inr v) else Inl PE_Type)"

definition optional_field :: "string \<Rightarrow> (json \<Rightarrow> (plan_error, 'a) result) \<Rightarrow> json \<Rightarrow> (plan_error, 'a option) result" where
  \<comment> \<open>\<open>None if payload.get(key) is None else f(payload[key])\<close>\<close>
  "optional_field k f payload =
     (case jfield k payload of
        None \<Rightarrow> Inr None
      | Some JNull \<Rightarrow> Inr None
      | Some v \<Rightarrow> bind_res (f v) (\<lambda>x. Inr (Some x)))"

definition array_from_dict :: "(json \<Rightarrow> string) \<Rightarrow> json \<Rightarrow> (plan_error, array_spec) result" where
  "array_from_dict repr_of array_payload =
     bind_res (required_field ''expression'' array_payload) (\<lambda>e.
     bind_res (optional_field ''max_concurrency'' py_int array_payload) (\<lambda>n.
     Inr \<lparr>as_expression = py_str repr_of e, as_max_concurrency = n\<rparr>))"

definition resource_plan_from_dict :: "(json \<Rightarrow> string) \<Rightarrow> json \<Rightarrow> (plan_error, resource_plan) result" where
  "resource_plan_from_dict repr_of payload =
     (let text = (\<lambda>v. Inr (py_str repr_of v)) in
      bind_res (required_field ''partition'' payload) (\<lambda>partition.
      bind_res (optional_field ''qos'' text payload) (\<lambda>qos.
      bind_res (bind_res (required_field ''nodes'' payload) py_int) (\<lambda>nodes.
      bind_res (bind_res (required_field ''ntasks'' payload) py_int) (\<lambda>ntasks.
      bind_res (bind_res (required_field ''cpus_per_task'' payload) py_int) (\<lambda>cpus.
      bind_res (optional_field ''memory_value'' py_int payload) (\<lambda>memory_value.
      bind_res (optional_field ''memory_unit'' text payload) (\<lambda>memory_unit.
      bind_res (optional_field ''gpus_per_node'' py_int payload) (\<lambda>gpus_per_node.
      bind_res (optional_field ''gpus_total'' py_int payload) (\<lambda>gpus_total.
      bind_res (optional_field ''gpu_type'' text payload) (\<lambda>gpu_type.
      bind_res (optional_field ''time_limit'' text payload) (\<lambda>time_limit.
      bind_res (optional_field ''array'' (array_from_dict repr_of) payload) (\<lambda>arr.
      Inr \<lparr>rp_partition = py_str repr_of partition, rp_qos = qos, rp_nodes = nodes, rp_ntasks = ntasks,
        rp_cpus_per_task = cpus, rp_memory_value = memory_value, rp_memory_unit = memory_unit,
        rp_gpus_per_node = gpus_per_node, rp_gpus_total = gpus_total, rp_gpu_type = gpu_type,
        rp_time_limit = time_limit, rp_array = arr\<rparr>)))))))))))))"

end
