(* ===== verification/RunService.thy ===== *)
theory RunService
  imports Resources
begin

text \<open>
  \<open>core/run_service.py\<close>, the parts around a submission: the workflow policy a Run carries, its dependencies,
  the preflight, the submission's intent, job name and outbox message, and the operations \<open>prepare\<close>,
  \<open>enqueue_submission\<close>, \<open>reconcile_once\<close>, \<open>cancel\<close> and the workflow retry. What comes from outside is collected in
  two records: \<open>world\<close> holds the library functions, \<open>service\<close> the settings of one \<open>RunService\<close>.
\<close>

section \<open>Errors and settings\<close>

datatype run_service_error =
  S_Value string | S_Type | S_Assert | S_Runtime string | S_Backend string | S_Transport string | S_Preflight "preflight_finding list"
| S_Uncertain "string list" | S_Dependency string | S_RetryNotReady | S_InProgress string | S_Recovery string
| S_LeaseExpired string | S_Plan plan_error | S_Run run_error | S_Control control_error

fun lift_run :: "(run_error, 'a) result \<Rightarrow> (run_service_error, 'a) result" where
  "lift_run (Inl e) = Inl (S_Run e)"
| "lift_run (Inr x) = Inr x"

fun lift_control :: "(control_error, 'a) result \<Rightarrow> (run_service_error, 'a) result" where
  "lift_control (Inl e) = Inl (S_Control e)"
| "lift_control (Inr x) = Inr x"

fun lift_plan :: "(plan_error, 'a) result \<Rightarrow> (run_service_error, 'a) result" where
  "lift_plan (Inl e) = Inl (S_Plan e)"
| "lift_plan (Inr x) = Inr x"

text \<open>Library functions: \<open>hashlib.sha256(...).hexdigest()\<close>, \<open>datetime.fromisoformat\<close> (in UTC) and \<open>timestamp\<close>,
  the redactions, \<open>repr\<close>.\<close>

record world =
  wo_sha :: "string \<Rightarrow> string"
  wo_parse :: "string \<Rightarrow> datetime option"
  wo_timestamp :: "datetime \<Rightarrow> real"
  wo_redact :: "json \<Rightarrow> json"
  wo_redact_text :: "string \<Rightarrow> string"
  wo_repr :: "json \<Rightarrow> string"
  wo_iso_ok :: "string \<Rightarrow> bool"

text \<open>The settings. \<open>sv_reconcile\<close>: reconciliation is enabled and has a backend, whose strategy and extra receipt
  fields follow; \<open>sv_workdir\<close>: the findings of the workdir preflight, when it is enabled.\<close>

record service =
  sv_dispatcher :: string
  sv_lease_seconds :: int
  sv_retry_delay_seconds :: int
  sv_max_attempts :: int
  sv_job_name_marker :: string
  sv_window_seconds :: real
  sv_reconcile :: bool
  sv_strategy :: strategy
  sv_receipt_fields :: "(string \<times> json) list"
  sv_workdir :: "(run_record \<Rightarrow> preflight_finding list) option"

section \<open>Workflow policies\<close>

record workflow_policy =
  wp_dependencies :: "string list"
  wp_max_attempts :: int
  wp_backoff_seconds :: int
  wp_automation_level :: string
  wp_require_approval :: bool
  wp_workflow_id :: "string option"
  wp_stage_id :: "string option"
  wp_stage_kind :: "string option"
  wp_recovery_attempt :: int
  wp_submitted_tasks :: "int list"
  wp_reused_tasks :: "int list"

definition default_workflow_policy :: workflow_policy where
  "default_workflow_policy = \<lparr>wp_dependencies = [], wp_max_attempts = 1, wp_backoff_seconds = 0, wp_automation_level = ''explain'',
     wp_require_approval = True, wp_workflow_id = None, wp_stage_id = None, wp_stage_kind = None,
     wp_recovery_attempt = 0, wp_submitted_tasks = [], wp_reused_tasks = []\<rparr>"

definition bounded_int :: "json \<Rightarrow> string \<Rightarrow> int \<Rightarrow> int \<Rightarrow> (run_service_error, int) result" where
  "bounded_int value name minimum maximum =
     (case value of
        JInt i \<Rightarrow> if minimum \<le> i \<and> i \<le> maximum then Inr i else Inl (S_Value name)
      | _ \<Rightarrow> Inl (S_Value name))"

definition get_default :: "string \<Rightarrow> json \<Rightarrow> json \<Rightarrow> json" where
  \<comment> \<open>\<open>payload.get(key, default)\<close>\<close>
  "get_default k dflt payload = (case jfield k payload of None \<Rightarrow> dflt | Some v \<Rightarrow> v)"

fun task_index :: "json \<Rightarrow> int option" where
  "task_index (JInt i) = (if 0 \<le> i \<and> i \<le> 1000000 then Some i else None)"
| "task_index v = None"

fun nonempty_text :: "json \<Rightarrow> string option" where
  "nonempty_text (JStr s) = (if s = [] then None else Some s)"
| "nonempty_text v = None"

text \<open>The elements of a list, if every one of them has a value.\<close>

fun all_some :: "('a \<Rightarrow> 'b option) \<Rightarrow> 'a list \<Rightarrow> 'b list option" where
  "all_some f [] = Some []"
| "all_some f (x # xs) =
     (case (f x, all_some f xs) of (Some y, Some ys) \<Rightarrow> Some (y # ys) | _ \<Rightarrow> None)"

definition bounded_task_indexes :: "json \<Rightarrow> string \<Rightarrow> (run_service_error, int list) result" where
  "bounded_task_indexes value label =
     (case value of
        JArr vs \<Rightarrow>
          if 10000 < length vs then Inl (S_Value label)
          else (case all_some task_index vs of
                  None \<Rightarrow> Inl (S_Value label)
                | Some ns \<Rightarrow> if distinct ns then Inr ns else Inl (S_Value label))
      | _ \<Rightarrow> Inl (S_Value label))"

fun hashable :: "json \<Rightarrow> bool" where
  "hashable (JArr vs) = False"
| "hashable (JObj kvs) = False"
| "hashable v = True"

text \<open>\<open>_workflow_manifest_fields\<close>: the policy with the fields of its manifest.\<close>

definition workflow_manifest_fields :: "json \<Rightarrow> workflow_policy \<Rightarrow> (run_service_error, workflow_policy) result" where
  "workflow_manifest_fields value p =
     (if value = JNull then Inr p
      else ensure (is_object value) (S_Value ''manifest'')
       (case (jfield ''workflow_id'' value, jfield ''stage_id'' value, jfield ''stage_kind'' value) of
          (Some workflow_id, Some stage_id, Some stage_kind) \<Rightarrow>
            (case (nonempty_text workflow_id, nonempty_text stage_id) of
               (Some w, Some s) \<Rightarrow>
                 if \<not> hashable stage_kind then Inl S_Type
                 else if stage_kind \<notin> JStr ` {''preflight'', ''array'', ''merge''} then Inl (S_Value ''stage kind'')
                 else
                   bind_res (bounded_task_indexes (get_default ''submitted_tasks'' (JArr []) value) ''submitted_tasks'') (\<lambda>submitted.
                   bind_res (bounded_task_indexes (get_default ''reused_verified_tasks'' (JArr []) value) ''reused_verified_tasks'') (\<lambda>reused.
                   if set submitted \<inter> set reused \<noteq> {} then Inl (S_Value ''tasks overlap'')
                   else bind_res (bounded_int (get_default ''recovery_attempt'' (JInt 0) value) ''recovery_attempt'' 0 3) (\<lambda>r.
                     Inr (p\<lparr>wp_workflow_id := Some w, wp_stage_id := Some s, wp_stage_kind := nonempty_text stage_kind,
                       wp_recovery_attempt := r, wp_submitted_tasks := submitted, wp_reused_tasks := reused\<rparr>))))
             | _ \<Rightarrow> Inl (S_Value ''manifest identity''))
        | _ \<Rightarrow> Inl (S_Value ''manifest identity'')))"

definition dependencies_of :: "json \<Rightarrow> (run_service_error, string list) result" where
  "dependencies_of v =
     (case v of
        JArr vs \<Rightarrow> (case all_some nonempty_text vs of
            None \<Rightarrow> Inl (S_Value ''dependencies'')
          | Some ds \<Rightarrow> if distinct ds then Inr ds else Inl (S_Value ''dependencies''))
      | _ \<Rightarrow> Inl (S_Value ''dependencies''))"

definition automation_levels :: "string set" where
  "automation_levels = {''explain'', ''suggest'', ''approved_execute'', ''bounded_auto''}"

text \<open>\<open>None\<close>: there is no payload.\<close>

definition policy_from_payload :: "(json \<Rightarrow> string) \<Rightarrow> json option \<Rightarrow> (run_service_error, workflow_policy) result" where
  "policy_from_payload repr_of payload =
     (case payload of
        None \<Rightarrow> Inr default_workflow_policy
      | Some v \<Rightarrow>
          if v = JNull then Inr default_workflow_policy
          else ensure (is_object v) (S_Value ''workflow'')
           (let retry_part = get_default ''retry'' (JObj []) v; automation = get_default ''automation'' (JObj []) v in
            ensure (is_object retry_part \<and> is_object automation) (S_Value ''workflow retry and automation'')
            (bind_res (dependencies_of (get_default ''dependencies'' (JArr []) v)) (\<lambda>dependencies.
             bind_res (bounded_int (get_default ''max_attempts'' (JInt 1) retry_part) ''max_attempts'' 1 10) (\<lambda>max_attempts.
             bind_res (bounded_int (get_default ''backoff_seconds'' (JInt 0) retry_part) ''backoff_seconds'' 0 86400) (\<lambda>backoff.
             let level = py_str repr_of (get_default ''level'' (JStr ''explain'') automation);
                 approval = get_default ''require_approval'' (JBool True) automation in
             bind_res (workflow_manifest_fields (get_default ''manifest'' JNull v)
               (default_workflow_policy\<lparr>wp_dependencies := dependencies, wp_max_attempts := max_attempts,
                  wp_backoff_seconds := backoff, wp_automation_level := level\<rparr>)) (\<lambda>p.
             ensure (level \<in> automation_levels) (S_Value ''automation level'')
             (case approval of
                JBool b \<Rightarrow> Inr (p\<lparr>wp_require_approval := b\<rparr>)
              | _ \<Rightarrow> Inl (S_Value ''require_approval'')))))))))"

definition policy_to_payload :: "workflow_policy \<Rightarrow> json" where
  "policy_to_payload p =
     JObj ([(''dependencies'', jstrs (wp_dependencies p)),
            (''retry'', JObj [(''max_attempts'', JInt (wp_max_attempts p)), (''backoff_seconds'', JInt (wp_backoff_seconds p))]),
            (''automation'', JObj [(''level'', JStr (wp_automation_level p)), (''require_approval'', JBool (wp_require_approval p))])]
       @ (case wp_workflow_id p of None \<Rightarrow> []
          | Some w \<Rightarrow> [(''manifest'', JObj [(''workflow_id'', JStr w), (''stage_id'', jopt JStr (wp_stage_id p)),
              (''stage_kind'', jopt JStr (wp_stage_kind p)), (''recovery_attempt'', JInt (wp_recovery_attempt p)),
              (''submitted_tasks'', JArr (map JInt (wp_submitted_tasks p))),
              (''reused_verified_tasks'', JArr (map JInt (wp_reused_tasks p)))])]))"

section \<open>Names\<close>

definition safe_name_char :: "char \<Rightarrow> bool" where
  \<comment> \<open>\<open>[A-Za-z0-9_.-]\<close>\<close>
  "safe_name_char c \<longleftrightarrow> lower_char c \<or> upper_char c \<or> digit_char c \<or> c \<in> {CHR ''_'', CHR ''.'', CHR ''-''}"

fun replace_unsafe :: "bool \<Rightarrow> string \<Rightarrow> string" where
  \<comment> \<open>\<open>re.sub(r"[^A-Za-z0-9_.-]+", "-", text)\<close>; the flag says whether the last character was an unsafe one\<close>
  "replace_unsafe b [] = []"
| "replace_unsafe b (c # cs) =
     (if safe_name_char c then c # replace_unsafe False cs
      else if b then replace_unsafe True cs
      else CHR ''-'' # replace_unsafe True cs)"

definition strip_dots :: "string \<Rightarrow> string" where
  \<comment> \<open>\<open>text.strip(".-")\<close>\<close>
  "strip_dots s = (let p = (\<lambda>c. c \<in> {CHR ''.'', CHR ''-''}) in rev (dropWhile p (rev (dropWhile p s))))"

definition submission_job_name ::
    "(string \<Rightarrow> string) \<Rightarrow> string \<Rightarrow> string \<Rightarrow> string option \<Rightarrow> (run_service_error, string) result" where
  "submission_job_name sha marker run_id original_name =
     (if \<not> (marker \<noteq> [] \<and> length marker \<le> 80 \<and> list_all safe_name_char marker) then Inl (S_Value ''job_name_marker'')
      else
        let digest = take 20 (sha run_id) in
        if no_text original_name then Inr (marker @ ''-'' @ digest)
        else
          let normalized = strip_dots (replace_unsafe False (the original_name));
              suffix = ''-p107-'' @ digest
          in Inr (take (128 - length suffix) (if normalized = [] then marker else normalized) @ suffix))"

definition submission_message_id :: "(string \<Rightarrow> string) \<Rightarrow> string \<Rightarrow> string" where
  "submission_message_id sha run_id = ''run-submit:'' @ sha run_id"

definition message_run_id :: "message \<Rightarrow> (run_service_error, string) result" where
  "message_run_id m =
     (case jfield ''run_id'' (ms_payload m) of
        Some (JStr run_id) \<Rightarrow>
          if run_id = [] then Inl (S_Backend ''payload is invalid'')
          else if ms_topic m \<noteq> ''run.submit'' \<or> ms_aggregate m \<noteq> run_id then Inl (S_Backend ''identity is inconsistent'')
          else Inr run_id
      | _ \<Rightarrow> Inl (S_Backend ''payload is invalid''))"

section \<open>The intent\<close>

record submit_intent =
  in_user :: string
  in_workdir :: string
  in_script :: string
  in_plan :: resource_plan
  in_idempotency_key :: string
  in_dependency_job_ids :: "string list"
  in_job_name :: string

definition require_retry_due :: "(string \<Rightarrow> datetime option) \<Rightarrow> datetime \<Rightarrow> run_record \<Rightarrow> (run_service_error, unit) result" where
  "require_retry_due parse now run =
     (case spec_retry_not_before (rc_spec run) of
        None \<Rightarrow> Inr ()
      | Some t \<Rightarrow> (case parse t of
            None \<Rightarrow> Inl (S_Value ''retry_not_before'')
          | Some t0 \<Rightarrow> if now < t0 then Inl S_RetryNotReady else Inr ()))"

fun dependency_job_ids :: "run_db \<Rightarrow> run_record \<Rightarrow> string list \<Rightarrow> (run_service_error, string list) result" where
  "dependency_job_ids db run [] = Inr []"
| "dependency_job_ids db run (d # ds) =
     (if d = rc_id run then Inl (S_Dependency ''itself'')
      else
        (case get_run d db of
           Inl e \<Rightarrow> Inl (S_Dependency ''does not exist'')
         | Inr dependency \<Rightarrow>
             if spec_owner (rc_spec dependency) \<noteq> spec_owner (rc_spec run) then Inl (S_Dependency ''owner'')
             else if rc_state dependency = RS_SUCCEEDED then dependency_job_ids db run ds
             else if rc_state dependency \<in> {RS_FAILED, RS_CANCELLED, RS_SUBMIT_FAILED} then Inl (S_Dependency ''did not succeed'')
             else (case rc_job_id dependency of
                 None \<Rightarrow> Inl (S_Dependency ''has not been submitted'')
               | Some j \<Rightarrow> bind_res (dependency_job_ids db run ds) (\<lambda>js. Inr (j # js)))))"

definition resolve_dependency_job_ids ::
    "world \<Rightarrow> datetime \<Rightarrow> bool \<Rightarrow> run_record \<Rightarrow> run_db \<Rightarrow> (run_service_error, string list) result \<times> run_db" where
  "resolve_dependency_job_ids w now record_event run db =
     (case bind_res (policy_from_payload (wo_repr w) (Some (spec_workflow (rc_spec run)))) (\<lambda>p.
             bind_res (dependency_job_ids db run (wp_dependencies p)) (\<lambda>js. Inr (wp_dependencies p, js))) of
        Inl e \<Rightarrow> (Inl e, db)
      | Inr (ds, js) \<Rightarrow>
          if ds \<noteq> [] \<and> record_event then
            (case append_event (wo_redact w) now (rc_id run) ''workflow.dependencies_resolved''
                    (JObj [(''dependency_run_ids'', jstrs ds), (''dependency_job_ids'', jstrs js)]) db of
               (Inl e, db') \<Rightarrow> (Inl (S_Run e), db')
             | (Inr _, db') \<Rightarrow> (Inr js, db'))
          else (Inr js, db))"

definition run_preflight :: "world \<Rightarrow> service \<Rightarrow> run_record \<Rightarrow> (run_service_error, unit) result" where
  "run_preflight w sv run =
     bind_res (lift_plan (resource_plan_from_dict (wo_repr w) (spec_resource_plan (rc_spec run)))) (\<lambda>plan.
       let findings = validate_resource_plan plan None None @ (case sv_workdir sv of None \<Rightarrow> [] | Some f \<Rightarrow> f run)
       in if blockers findings = [] then Inr () else Inl (S_Preflight findings))"

definition submission_intent ::
    "world \<Rightarrow> service \<Rightarrow> datetime \<Rightarrow> bool \<Rightarrow> run_record \<Rightarrow> run_db \<Rightarrow> (run_service_error, submit_intent) result \<times> run_db" where
  "submission_intent w sv now record_event run db =
     (if \<not> truthy (spec_resource_plan (rc_spec run)) then (Inl (S_Backend ''run has no resource_plan''), db)
      else
        (case require_retry_due (wo_parse w) now run of
           Inl e \<Rightarrow> (Inl e, db)
         | Inr _ \<Rightarrow>
             (case resolve_dependency_job_ids w now record_event run db of
                (Inl e, db') \<Rightarrow> (Inl e, db')
              | (Inr js, db') \<Rightarrow>
                  (bind_res (run_preflight w sv run) (\<lambda>_.
                   bind_res (lift_plan (resource_plan_from_dict (wo_repr w) (spec_resource_plan (rc_spec run)))) (\<lambda>plan.
                   bind_res (submission_job_name (wo_sha w) (sv_job_name_marker sv) (rc_id run) (spec_job_name (rc_spec run))) (\<lambda>name.
                   Inr \<lparr>in_user = spec_owner (rc_spec run), in_workdir = spec_workdir (rc_spec run),
                     in_script = spec_script (rc_spec run), in_plan = plan, in_idempotency_key = rc_id run @ '':submit'',
                     in_dependency_job_ids = js, in_job_name = name\<rparr>))), db'))))"

definition enqueue_submission ::
    "world \<Rightarrow> service \<Rightarrow> datetime \<Rightarrow> string \<Rightarrow> control_db \<Rightarrow> run_db \<Rightarrow> (run_service_error, message) result \<times> control_db \<times> run_db" where
  "enqueue_submission w sv now run_id cd rd =
     (let mid = submission_message_id (wo_sha w) run_id;
          put = (\<lambda>rd'. case enqueue (wo_iso_ok w) now mid ''run.submit'' run_id (JObj [(''run_id'', JStr run_id)]) None cd of
             (r, cd') \<Rightarrow> (bind_res (lift_control r) (\<lambda>(m, _). Inr m), cd', rd'))
      in case get_run run_id rd of
           Inl e \<Rightarrow> (Inl (S_Run e), cd, rd)
         | Inr run \<Rightarrow>
             if rc_job_id run \<noteq> None then
               (case get_outbox mid cd of
                  Inr m \<Rightarrow> (Inr m, cd, rd)
                | Inl (K_Key _) \<Rightarrow> put rd
                | Inl e \<Rightarrow> (Inl (S_Control e), cd, rd))
             else if rc_state run \<notin> {RS_VALIDATED, RS_SUBMITTING} then (Inl (S_Backend ''run cannot be submitted''), cd, rd)
             else if rc_state run = RS_VALIDATED then
               (case submission_intent w sv now False run rd of
                  (Inl e, rd') \<Rightarrow> (Inl e, cd, rd')
                | (Inr _, rd') \<Rightarrow> put rd')
             else put rd)"

section \<open>Preparing Runs\<close>

record run_request =
  rq_owner :: string
  rq_workdir :: string
  rq_script :: string
  rq_plan :: resource_plan
  rq_job_name :: "string option"
  rq_contract_id :: "string option"
  rq_parent :: "string option"
  rq_lineage_reason :: "string option"
  rq_plan_id :: "string option"
  rq_workflow :: workflow_policy
  rq_workspace_revision :: "int option"
  rq_workspace_digest :: "string option"
  rq_source_revision :: "string option"
  rq_snapshot_ref :: "string option"

definition request_spec :: "string \<Rightarrow> run_request \<Rightarrow> run_spec" where
  "request_spec rid q = \<lparr>spec_run_id = rid, spec_owner = rq_owner q, spec_workdir = rq_workdir q, spec_script = rq_script q,
     spec_resource_plan = resource_plan_to_dict (rq_plan q) (rq_workspace_revision q) (rq_workspace_digest q)
       (rq_source_revision q) (rq_snapshot_ref q),
     spec_job_name = rq_job_name q, spec_contract_id = rq_contract_id q, spec_parent = rq_parent q,
     spec_lineage_reason = rq_lineage_reason q, spec_plan_id = rq_plan_id q, spec_attempt = 0,
     spec_workflow = policy_to_payload (rq_workflow q), spec_retry_not_before = None,
     spec_workspace_revision = rq_workspace_revision q, spec_workspace_digest = rq_workspace_digest q,
     spec_source_revision = rq_source_revision q, spec_snapshot_ref = rq_snapshot_ref q, spec_created_at = []\<rparr>"

text \<open>The comparison of an idempotent \<open>prepare\<close>, field by field.\<close>

definition same_content :: "run_spec \<Rightarrow> run_spec \<Rightarrow> bool" where
  "same_content created a \<longleftrightarrow> spec_owner created = spec_owner a \<and> spec_contract_id created = spec_contract_id a \<and>
     spec_parent created = spec_parent a \<and> spec_lineage_reason created = spec_lineage_reason a \<and>
     spec_plan_id created = spec_plan_id a \<and> spec_workdir created = spec_workdir a \<and> spec_script created = spec_script a \<and>
     spec_job_name created = spec_job_name a \<and> python_eq (spec_resource_plan created) (spec_resource_plan a) \<and>
     python_eq (spec_workflow created) (spec_workflow a) \<and>
     spec_workspace_revision created = spec_workspace_revision a \<and> spec_workspace_digest created = spec_workspace_digest a \<and>
     spec_source_revision created = spec_source_revision a \<and> spec_snapshot_ref created = spec_snapshot_ref a"

definition prepare ::
    "world \<Rightarrow> datetime \<Rightarrow> run_request \<Rightarrow> string \<Rightarrow> bool \<Rightarrow> run_db \<Rightarrow> (run_service_error, run_record) result \<times> run_db" where
  "prepare w now request run_id idempotent db =
     (let a = request_spec run_id request;
          check = (\<lambda>created. if idempotent \<and> \<not> same_content (rc_spec created) a
                    then Inl (S_Backend ''idempotent run id refers to different content'') else Inr created)
      in case create_run (wo_redact w) (wo_repr w) now a db of
           (Inr created, db') \<Rightarrow> (check created, db')
         | (Inl R_Integrity, db') \<Rightarrow>
             if idempotent then (bind_res (lift_run (get_run run_id db')) check, db') else (Inl (S_Run R_Integrity), db')
         | (Inl e, db') \<Rightarrow> (Inl (S_Run e), db'))"

definition workflow_run_id :: "(string \<Rightarrow> string) \<Rightarrow> string \<Rightarrow> string \<Rightarrow> int \<Rightarrow> string" where
  "workflow_run_id sha workflow_id stage_id recovery_attempt =
     ''run_wf_'' @ take 24 (sha (workflow_id @ [char_of (0::nat)] @ stage_id @ [char_of (0::nat)] @ int_text recovery_attempt))"

text \<open>The checks and the Run's id of \<open>submit_workflow_stage\<close> and \<open>submit_agent_formal\<close>, which then prepare it
  idempotently and submit it.\<close>

definition workflow_stage_id ::
    "(string \<Rightarrow> string) \<Rightarrow> string \<Rightarrow> string \<Rightarrow> int \<Rightarrow> (run_service_error, string) result" where
  "workflow_stage_id sha workflow_id stage_id recovery_attempt =
     (if workflow_id = [] \<or> stage_id = [] \<or> recovery_attempt < 0 then Inl (S_Value ''workflow stage identity'')
      else Inr (workflow_run_id sha workflow_id stage_id recovery_attempt))"

definition formal_run_id :: "run_request \<Rightarrow> string \<Rightarrow> (run_service_error, string) result" where
  "formal_run_id request approval_digest =
     (if \<not> hex_digest approval_digest then Inl (S_Value ''approval digest'')
      else if rq_contract_id request = None \<or> rq_parent request = None \<or>
              rq_lineage_reason request \<noteq> Some ''agent_formal_run'' then Inl (S_Value ''lineage is incomplete'')
      else Inr (''run_formal_'' @ take 24 approval_digest))"

section \<open>After the submission\<close>

definition retry_spec :: "run_record \<Rightarrow> string \<Rightarrow> string \<Rightarrow> run_spec" where
  "retry_spec run retry_run_id not_before =
     \<lparr>spec_run_id = retry_run_id, spec_owner = spec_owner (rc_spec run), spec_workdir = spec_workdir (rc_spec run),
      spec_script = spec_script (rc_spec run), spec_resource_plan = spec_resource_plan (rc_spec run),
      spec_job_name = spec_job_name (rc_spec run), spec_contract_id = spec_contract_id (rc_spec run),
      spec_parent = Some (rc_id run), spec_lineage_reason = Some ''workflow_retry'', spec_plan_id = None, spec_attempt = 0,
      spec_workflow = spec_workflow (rc_spec run), spec_retry_not_before = Some not_before,
      spec_workspace_revision = None, spec_workspace_digest = None, spec_source_revision = None, spec_snapshot_ref = None,
      spec_created_at = []\<rparr>"

definition retry_run_id :: "(string \<Rightarrow> string) \<Rightarrow> run_record \<Rightarrow> string" where
  "retry_run_id sha run = ''run_retry_'' @ take 32 (sha (rc_id run @ '':'' @ int_text (spec_attempt (rc_spec run) + 1)))"

text \<open>\<open>_schedule_workflow_retry\<close>; \<open>Inr None\<close> where it returns \<open>None\<close>.\<close>

definition schedule_workflow_retry ::
    "world \<Rightarrow> datetime \<Rightarrow> run_record \<Rightarrow> run_db \<Rightarrow> (run_service_error, run_record option) result \<times> run_db" where
  "schedule_workflow_retry w now run db =
     (let event = (\<lambda>ty fields db. append_event (wo_redact w) now (rc_id run) ty (JObj fields) db);
          attempt = (''attempt'', JInt (spec_attempt (rc_spec run)))
      in case policy_from_payload (wo_repr w) (Some (spec_workflow (rc_spec run))) of
           Inl e \<Rightarrow> (Inl e, db)
         | Inr p \<Rightarrow>
             let most = (''max_attempts'', JInt (wp_max_attempts p));
                 stop = (\<lambda>(r, db'). (bind_res (lift_run r) (\<lambda>_. Inr None), db')) in
             if wp_max_attempts p \<le> spec_attempt (rc_spec run) + 1 then
               stop (event ''workflow.retry_exhausted'' [attempt, most] db)
             else if wp_automation_level p \<noteq> ''bounded_auto'' \<or> wp_require_approval p then
               stop (event ''workflow.retry_approval_required''
                 [attempt, most, (''automation_level'', JStr (wp_automation_level p))] db)
             else
               (case add_seconds (nat (wp_backoff_seconds p)) now of
                  None \<Rightarrow> (Inl (S_Run R_Overflow), db)
                | Some t \<Rightarrow>
                    let rid = retry_run_id (wo_sha w) run; not_before = isoformat t in
                    (case create_run (wo_redact w) (wo_repr w) now (retry_spec run rid not_before) db of
                       (Inl R_Integrity, db') \<Rightarrow> (bind_res (lift_run (get_run rid db')) (\<lambda>r. Inr (Some r)), db')
                     | (Inl e, db') \<Rightarrow> (Inl (S_Run e), db')
                     | (Inr child, db') \<Rightarrow>
                         (case event ''workflow.retry_scheduled''
                              [(''retry_run_id'', JStr (rc_id child)), (''attempt'', JInt (spec_attempt (rc_spec child))),
                               (''not_before'', JStr not_before)] db' of
                            (r, db'') \<Rightarrow> (bind_res (lift_run r) (\<lambda>_. Inr (Some child)), db'')))))"

text \<open>The backend's \<open>get_job\<close> and \<open>cancel\<close> are parameters: they answer with a snapshot or raise.\<close>

definition reconcile_once ::
    "world \<Rightarrow> datetime \<Rightarrow> (string \<Rightarrow> string \<Rightarrow> (run_service_error, job_snapshot) result) \<Rightarrow> string \<Rightarrow> run_db
      \<Rightarrow> (run_service_error, run_record) result \<times> run_db" where
  "reconcile_once w now get_job run_id db =
     (case get_run run_id db of
        Inl e \<Rightarrow> (Inl (S_Run e), db)
      | Inr run \<Rightarrow>
          (case rc_job_id run of
             None \<Rightarrow> (Inr run, db)
           | Some j \<Rightarrow>
               (case get_job (spec_owner (rc_spec run)) j of
                  Inl e \<Rightarrow> (Inl e, db)
                | Inr snapshot \<Rightarrow>
                    (case apply_snapshot (wo_redact w) now run_id snapshot db of
                       (Inl e, db') \<Rightarrow> (Inl (S_Run e), db')
                     | (Inr reconciled, db') \<Rightarrow>
                         if rc_state reconciled = RS_FAILED then
                           (case schedule_workflow_retry w now reconciled db' of
                              (Inl e, db'') \<Rightarrow> (Inl e, db'')
                            | (Inr _, db'') \<Rightarrow> (Inr reconciled, db''))
                         else (Inr reconciled, db')))))"

definition cancel ::
    "world \<Rightarrow> datetime \<Rightarrow> (string \<Rightarrow> string \<Rightarrow> (run_service_error, job_snapshot) result) \<Rightarrow> string \<Rightarrow> run_db
      \<Rightarrow> (run_service_error, run_record) result \<times> run_db" where
  "cancel w now cancel_job run_id db =
     (case get_run run_id db of
        Inl e \<Rightarrow> (Inl (S_Run e), db)
      | Inr run \<Rightarrow>
          (case rc_job_id run of
             None \<Rightarrow>
               (case update_state (wo_redact w) now run_id RS_CANCELLED ''run.cancelled'' None db of
                  (r, db') \<Rightarrow> (lift_run r, db'))
           | Some j \<Rightarrow>
               (case cancel_job (spec_owner (rc_spec run)) j of
                  Inl e \<Rightarrow> (Inl e, db)
                | Inr snapshot \<Rightarrow>
                    (case apply_snapshot (wo_redact w) now run_id snapshot db of (r, db') \<Rightarrow> (lift_run r, db')))))"

end
