(* ===== verification/Submission.thy ===== *)
theory Submission
  imports RunService
begin

text \<open>
  \<open>core/run_service.py\<close>: how a dispatcher executes a submission message. \<open>_execute_submission_message\<close> and the
  functions it calls make a dozen separate accesses to the control repository, the Run store and the Slurm
  backend, between which other dispatchers and operators act. A \<open>phase\<close> is the point between two accesses, with
  the local variables of the code; \<open>exec_step\<close> is one access and the code up to the next one. The capture of the
  baseline, between \<open>Ph_claim\<close> and \<open>Ph_renew\<close>, touches neither store. The three transactions of the repository's
  \<open>retry\<close> are one step.
\<close>

section \<open>Phases\<close>

datatype after =
  Finish "(run_service_error, run_record) result" | Candidates string "string list"

datatype retry_then = Then_raise run_service_error | Then_uncertain string run_service_error

datatype phase =
  Ph_start message
| Ph_intent message run_record
| Ph_claim message run_record submit_intent
| Ph_refused message string
| Ph_recover message run_record submit_intent
| Ph_renew message run_record submit_intent
| Ph_read_back message run_record submit_intent
| Ph_submit message run_record submit_intent
| Ph_called message run_record submit_intent real
| Ph_receipt message string submit_receipt
| Ph_apply message string submit_receipt
| Ph_reconcile message run_record submit_intent real
| Ph_bind message string submit_receipt
| Ph_retry message string retry_then
| Ph_fail message string run_state string "string option" bool after
| Ph_ack message after
| Ph_candidates string "string list"
| Ph_done "(run_service_error, run_record) result"

text \<open>What the backend answers to the call in flight: \<open>submit\<close> returns a receipt or raises, the reconciliation
  backend finds jobs or raises. An exception comes with the name of its type and its text.\<close>

datatype answer =
  A_none
| A_receipt submit_receipt
| A_transport string string
| A_backend string string
| A_jobs "string \<Rightarrow> string \<Rightarrow> real \<Rightarrow> string list"

definition submission_failure_reason :: "string \<Rightarrow> string \<Rightarrow> string" where
  "submission_failure_reason type_name message =
     (let detail = join '' '' (split_words [] message)
      in take 512 (if detail = [] then type_name else type_name @ '': '' @ detail))"

definition submit_lease_reserve_seconds :: nat where
  "submit_lease_reserve_seconds = 15"

text \<open>\<open>_lease_remaining_seconds\<close> compared with a bound: at least \<open>n\<close> seconds, and more than none.\<close>

definition remaining_at_least :: "world \<Rightarrow> nat \<Rightarrow> datetime \<Rightarrow> string option \<Rightarrow> bool" where
  "remaining_at_least w n now lease_expires_at =
     (case lease_expires_at of
        None \<Rightarrow> False
      | Some t \<Rightarrow> (case wo_parse w t of
            None \<Rightarrow> False
          | Some e \<Rightarrow> (case add_seconds n now of None \<Rightarrow> False | Some s \<Rightarrow> s \<le> e)))"

definition lease_valid :: "world \<Rightarrow> datetime \<Rightarrow> string option \<Rightarrow> bool" where
  "lease_valid w now lease_expires_at =
     (case lease_expires_at of
        None \<Rightarrow> False
      | Some t \<Rightarrow> (case wo_parse w t of None \<Rightarrow> False | Some e \<Rightarrow> now < e))"

fun conclude :: "after \<Rightarrow> phase" where
  "conclude (Finish r) = Ph_done r"
| "conclude (Candidates rid matches) = Ph_candidates rid matches"

section \<open>Steps\<close>

definition raise :: "run_service_error \<Rightarrow> phase" where
  "raise e = Ph_done (Inl e)"

definition uncertain_state :: run_state where
  "uncertain_state = RS_SUBMISSION_UNCERTAIN"

text \<open>\<open>_fail_fenced_submission\<close> with SUBMIT_FAILED.\<close>

definition failed :: "message \<Rightarrow> string \<Rightarrow> string \<Rightarrow> run_service_error \<Rightarrow> phase" where
  "failed m rid reason e = Ph_fail m rid RS_SUBMIT_FAILED ''run.submit_failed'' (Some reason) True (Finish (Inl e))"

definition step_start :: "message \<Rightarrow> run_db \<Rightarrow> phase" where
  "step_start m rd =
     (case message_run_id m of
        Inl e \<Rightarrow> raise e
      | Inr rid \<Rightarrow>
          (case get_run rid rd of
             Inl e \<Rightarrow> raise (S_Run e)
           | Inr run \<Rightarrow>
               if rc_job_id run \<noteq> None then Ph_ack m (Finish (Inr run))
               else if rc_state run \<in> {RS_SUBMIT_FAILED, RS_SUBMISSION_UNCERTAIN} then Ph_ack m (Finish (Inr run))
               else if rc_state run \<notin> {RS_VALIDATED, RS_SUBMITTING} then
                 Ph_retry m ''run cannot be submitted'' (Then_raise (S_Backend ''run cannot be submitted''))
               else Ph_intent m run))"

definition step_claim ::
    "world \<Rightarrow> datetime \<Rightarrow> message \<Rightarrow> run_record \<Rightarrow> submit_intent \<Rightarrow> run_db \<Rightarrow> phase \<times> run_db" where
  "step_claim w now m run intent rd =
     (case ms_lease_owner m of
        None \<Rightarrow> (raise S_Assert, rd)
      | Some ow \<Rightarrow>
          (case claim_submission (wo_redact w) now (rc_id run) (Some ow) (Some (ms_token m)) rd of
             (Inl e, rd') \<Rightarrow> (raise (S_Run e), rd')
           | (Inr claimed, rd') \<Rightarrow>
               (if \<not> claimed then Ph_refused m (rc_id run)
                else if rc_state run = RS_SUBMITTING then Ph_recover m run intent
                else Ph_renew m run intent, rd')))"

definition step_refused :: "message \<Rightarrow> string \<Rightarrow> run_db \<Rightarrow> phase" where
  "step_refused m rid rd =
     (case get_run rid rd of
        Inl e \<Rightarrow> raise (S_Run e)
      | Inr current \<Rightarrow>
          if rc_job_id current \<noteq> None then Ph_ack m (Finish (Inr current))
          else raise (S_InProgress ''fence is owned by another dispatcher''))"

definition recovery_required :: run_service_error where
  "recovery_required = S_Recovery ''submission recovery requires an idempotency reconciliation backend''"

definition step_recover :: "world \<Rightarrow> service \<Rightarrow> message \<Rightarrow> run_record \<Rightarrow> submit_intent \<Rightarrow> phase" where
  "step_recover w sv m run intent =
     (if \<not> sv_reconcile sv then
        Ph_retry m ''submission recovery requires an idempotency reconciliation backend''
          (Then_uncertain (rc_id run) recovery_required)
      else (case wo_parse w (ms_created_at m) of
              None \<Rightarrow> raise (S_Value ''created_at'')
            | Some t \<Rightarrow> Ph_reconcile m run intent (wo_timestamp w t)))"

definition step_renew ::
    "service \<Rightarrow> datetime \<Rightarrow> message \<Rightarrow> run_record \<Rightarrow> submit_intent \<Rightarrow> control_db \<Rightarrow> phase \<times> control_db" where
  "step_renew sv now m run intent cd =
     (case ms_lease_owner m of
        None \<Rightarrow> (raise S_Assert, cd)
      | Some ow \<Rightarrow>
          (case renew_update now (ms_id m) ow (ms_token m) (sv_lease_seconds sv) cd of
             (Inl (K_Conflict c), cd') \<Rightarrow>
               (failed m (rc_id run)
                  (submission_failure_reason ''ControlRepositoryConflict'' ''outbox lease is expired or fenced'')
                  (S_InProgress ''outbox lease is expired or fenced''), cd')
           | (Inl e, cd') \<Rightarrow> (raise (S_Control e), cd')
           | (Inr _, cd') \<Rightarrow> (Ph_read_back m run intent, cd')))"

definition step_read_back :: "message \<Rightarrow> run_record \<Rightarrow> submit_intent \<Rightarrow> control_db \<Rightarrow> phase" where
  "step_read_back m run intent cd =
     (case get_outbox (ms_id m) cd of
        Inl e \<Rightarrow> raise (S_Control e)
      | Inr renewed \<Rightarrow> Ph_submit renewed run intent)"

text \<open>The call of \<open>backend.submit\<close>: the step to \<open>Ph_called\<close>.\<close>

definition step_submit :: "world \<Rightarrow> datetime \<Rightarrow> message \<Rightarrow> run_record \<Rightarrow> submit_intent \<Rightarrow> phase" where
  "step_submit w now m run intent =
     (if remaining_at_least w submit_lease_reserve_seconds now (ms_lease_expires m)
      then Ph_called m run intent (wo_timestamp w now)
      else raise (S_LeaseExpired ''below submit reserve''))"

definition transport_failed :: "message \<Rightarrow> string \<Rightarrow> phase" where
  "transport_failed m rid =
     failed m rid ''SlurmTransportError: submission transport failed without reconciliation''
       (S_Transport ''submission transport failed without reconciliation'')"

definition step_called ::
    "service \<Rightarrow> answer \<Rightarrow> message \<Rightarrow> run_record \<Rightarrow> submit_intent \<Rightarrow> real \<Rightarrow> phase" where
  "step_called sv ans m run intent submitted_after =
     (case ans of
        A_receipt r \<Rightarrow> Ph_receipt m (rc_id run) r
      | A_transport _ _ \<Rightarrow>
          if sv_reconcile sv then Ph_reconcile m run intent submitted_after else transport_failed m (rc_id run)
      | A_backend type_name text \<Rightarrow>
          failed m (rc_id run) (submission_failure_reason type_name text) (S_Backend text)
      | _ \<Rightarrow> Ph_called m run intent submitted_after)"

definition lease_expired_text :: string where
  "lease_expired_text = ''outbox lease expired before receipt persistence; refusing to persist with a stale fencing token''"

definition step_receipt :: "world \<Rightarrow> datetime \<Rightarrow> message \<Rightarrow> string \<Rightarrow> submit_receipt \<Rightarrow> phase" where
  "step_receipt w now m rid r =
     (if lease_valid w now (ms_lease_expires m) then Ph_apply m rid r
      else failed m rid (submission_failure_reason ''SubmissionLeaseExpiredError'' lease_expired_text)
        (S_LeaseExpired lease_expired_text))"

definition step_apply :: "world \<Rightarrow> datetime \<Rightarrow> message \<Rightarrow> string \<Rightarrow> submit_receipt \<Rightarrow> run_db \<Rightarrow> phase \<times> run_db" where
  "step_apply w now m rid r rd =
     (case apply_submit_receipt (wo_redact w) now rid r (ms_lease_owner m) (Some (ms_token m)) rd of
        (Inl R_Fence, rd') \<Rightarrow> (raise (S_InProgress ''submission fence''), rd')
      | (Inl e, rd') \<Rightarrow> (raise (S_Run e), rd')
      | (Inr submitted, rd') \<Rightarrow> (Ph_ack m (Finish (Inr submitted)), rd'))"

text \<open>\<open>_reconciled_receipt_payload\<close> and the receipt of a job found again.\<close>

definition reconciled_receipt :: "service \<Rightarrow> string \<Rightarrow> submit_receipt" where
  "reconciled_receipt sv job_id = \<lparr>rcp_job_id = job_id, rcp_state = RS_SUBMITTED, rcp_strategy = sv_strategy sv,
     rcp_raw = JObj ([(''reconciled'', JBool True), (''job_id'', JStr job_id)] @ sv_receipt_fields sv)\<rparr>"

definition not_visible :: run_service_error where
  "not_visible = S_Recovery ''submission outcome is not visible yet; refusing automatic resubmit''"

definition step_reconcile ::
    "service \<Rightarrow> answer \<Rightarrow> message \<Rightarrow> run_record \<Rightarrow> submit_intent \<Rightarrow> real \<Rightarrow> phase" where
  "step_reconcile sv ans m run intent submitted_after =
     (case ans of
        A_jobs find_jobs \<Rightarrow>
          let marker = (if in_job_name intent = [] then sv_job_name_marker sv else in_job_name intent) in
          (case reconcile_submission find_jobs (spec_owner (rc_spec run)) marker submitted_after (sv_window_seconds sv) of
             None \<Rightarrow> raise (S_Value ''time_window_seconds'')
           | Some result \<Rightarrow>
               (case (rr_state result, rr_job_id result) of
                  (RC_bound, Some j) \<Rightarrow> Ph_bind m (rc_id run) (reconciled_receipt sv j)
                | (RC_not_found, _) \<Rightarrow>
                    Ph_retry m ''submission outcome is not visible yet; reconciliation required''
                      (Then_uncertain (rc_id run) not_visible)
                | _ \<Rightarrow>
                    Ph_fail m (rc_id run) uncertain_state ''run.submission_uncertain'' None True
                      (Candidates (rc_id run) (rr_matches result))))
      | A_transport _ text \<Rightarrow> raise (S_Transport text)
      | A_backend _ text \<Rightarrow> raise (S_Backend text)
      | _ \<Rightarrow> Ph_reconcile m run intent submitted_after)"

definition step_bind :: "world \<Rightarrow> datetime \<Rightarrow> message \<Rightarrow> string \<Rightarrow> submit_receipt \<Rightarrow> run_db \<Rightarrow> phase \<times> run_db" where
  "step_bind w now m rid r rd =
     (case ms_lease_owner m of
        None \<Rightarrow> (raise S_Assert, rd)
      | Some ow \<Rightarrow>
          (case apply_submit_receipt (wo_redact w) now rid r (Some ow) (Some (ms_token m)) rd of
             (Inl e, rd') \<Rightarrow> (raise (S_Run e), rd')
           | (Inr submitted, rd') \<Rightarrow> (Ph_ack m (Finish (Inr submitted)), rd')))"

definition retry_submission_message ::
    "world \<Rightarrow> service \<Rightarrow> datetime \<Rightarrow> message \<Rightarrow> string \<Rightarrow> control_db \<Rightarrow> (run_service_error, message) result \<times> control_db" where
  "retry_submission_message w sv now m error cd =
     (case ms_lease_owner m of
        None \<Rightarrow> (Inl (S_Runtime ''submission outbox ownership is unavailable''), cd)
      | Some ow \<Rightarrow>
          (case retry (wo_redact_text w) now (ms_id m) ow (ms_token m) error (sv_retry_delay_seconds sv)
                  (sv_max_attempts sv) cd of
             (r, cd') \<Rightarrow> (lift_control r, cd')))"

definition step_retry ::
    "world \<Rightarrow> service \<Rightarrow> datetime \<Rightarrow> message \<Rightarrow> string \<Rightarrow> retry_then \<Rightarrow> control_db \<Rightarrow> phase \<times> control_db" where
  "step_retry w sv now m error next_step cd =
     (case retry_submission_message w sv now m error cd of
        (Inl e, cd') \<Rightarrow> (raise e, cd')
      | (Inr retried, cd') \<Rightarrow>
          (case next_step of
             Then_raise e \<Rightarrow> raise e
           | Then_uncertain rid e \<Rightarrow>
               if ms_state retried = OB_dead_letter
               then Ph_fail m rid uncertain_state ''run.submission_uncertain'' None False (Finish (Inl e))
               else raise e, cd'))"

definition step_fail ::
    "world \<Rightarrow> datetime \<Rightarrow> message \<Rightarrow> string \<Rightarrow> run_state \<Rightarrow> string \<Rightarrow> string option \<Rightarrow> bool \<Rightarrow> after \<Rightarrow> run_db
      \<Rightarrow> phase \<times> run_db" where
  "step_fail w now m rid state event_type reason acknowledge_it out rd =
     (case ms_lease_owner m of
        None \<Rightarrow> (raise S_Assert, rd)
      | Some ow \<Rightarrow>
          (case fail_submission (wo_redact w) now rid state event_type ow (ms_token m) reason rd of
             (Inl R_Fence, rd') \<Rightarrow> (raise (S_InProgress ''submission fence''), rd')
           | (Inl e, rd') \<Rightarrow> (raise (S_Run e), rd')
           | (Inr _, rd') \<Rightarrow> (if acknowledge_it then Ph_ack m out else conclude out, rd')))"

definition step_ack :: "datetime \<Rightarrow> message \<Rightarrow> after \<Rightarrow> control_db \<Rightarrow> phase \<times> control_db" where
  "step_ack now m out cd =
     (case ms_lease_owner m of
        None \<Rightarrow> (conclude out, cd)
      | Some ow \<Rightarrow>
          (case acknowledge now (ms_id m) ow (ms_token m) cd of
             (Inl (K_Conflict _), cd') \<Rightarrow> (conclude out, cd')
           | (Inl e, cd') \<Rightarrow> (raise (S_Control e), cd')
           | (Inr _, cd') \<Rightarrow> (conclude out, cd')))"

definition step_candidates :: "world \<Rightarrow> datetime \<Rightarrow> string \<Rightarrow> string list \<Rightarrow> run_db \<Rightarrow> phase \<times> run_db" where
  "step_candidates w now rid matches rd =
     (case append_event (wo_redact w) now rid ''run.submission_candidates'' (JObj [(''candidate_job_ids'', jstrs matches)]) rd of
        (Inl e, rd') \<Rightarrow> (raise (S_Run e), rd')
      | (Inr _, rd') \<Rightarrow> (raise (S_Uncertain matches), rd'))"

fun exec_step :: "world \<Rightarrow> service \<Rightarrow> datetime \<Rightarrow> answer \<Rightarrow> phase \<Rightarrow> control_db \<Rightarrow> run_db \<Rightarrow> phase \<times> control_db \<times> run_db" where
  "exec_step w sv now ans (Ph_start m) cd rd = (step_start m rd, cd, rd)"
| "exec_step w sv now ans (Ph_intent m run) cd rd =
     (case submission_intent w sv now True run rd of
        (Inl e, rd') \<Rightarrow> (raise e, cd, rd')
      | (Inr intent, rd') \<Rightarrow> (Ph_claim m run intent, cd, rd'))"
| "exec_step w sv now ans (Ph_claim m run intent) cd rd =
     (case step_claim w now m run intent rd of (p, rd') \<Rightarrow> (p, cd, rd'))"
| "exec_step w sv now ans (Ph_refused m rid) cd rd = (step_refused m rid rd, cd, rd)"
| "exec_step w sv now ans (Ph_recover m run intent) cd rd = (step_recover w sv m run intent, cd, rd)"
| "exec_step w sv now ans (Ph_renew m run intent) cd rd =
     (case step_renew sv now m run intent cd of (p, cd') \<Rightarrow> (p, cd', rd))"
| "exec_step w sv now ans (Ph_read_back m run intent) cd rd = (step_read_back m run intent cd, cd, rd)"
| "exec_step w sv now ans (Ph_submit m run intent) cd rd = (step_submit w now m run intent, cd, rd)"
| "exec_step w sv now ans (Ph_called m run intent t) cd rd = (step_called sv ans m run intent t, cd, rd)"
| "exec_step w sv now ans (Ph_receipt m rid r) cd rd = (step_receipt w now m rid r, cd, rd)"
| "exec_step w sv now ans (Ph_apply m rid r) cd rd = (case step_apply w now m rid r rd of (p, rd') \<Rightarrow> (p, cd, rd'))"
| "exec_step w sv now ans (Ph_reconcile m run intent t) cd rd = (step_reconcile sv ans m run intent t, cd, rd)"
| "exec_step w sv now ans (Ph_bind m rid r) cd rd = (case step_bind w now m rid r rd of (p, rd') \<Rightarrow> (p, cd, rd'))"
| "exec_step w sv now ans (Ph_retry m error next_step) cd rd =
     (case step_retry w sv now m error next_step cd of (p, cd') \<Rightarrow> (p, cd', rd))"
| "exec_step w sv now ans (Ph_fail m rid state ty reason a out) cd rd =
     (case step_fail w now m rid state ty reason a out rd of (p, rd') \<Rightarrow> (p, cd, rd'))"
| "exec_step w sv now ans (Ph_ack m out) cd rd = (case step_ack now m out cd of (p, cd') \<Rightarrow> (p, cd', rd))"
| "exec_step w sv now ans (Ph_candidates rid matches) cd rd =
     (case step_candidates w now rid matches rd of (p, rd') \<Rightarrow> (p, cd, rd'))"
| "exec_step w sv now ans (Ph_done r) cd rd = (Ph_done r, cd, rd)"

section \<open>A whole execution\<close>

text \<open>One dispatcher alone: the outer function of a message, with the clock and the backend's answer at each
  step. Twelve steps are enough (\<open>execution_ends\<close>).\<close>

fun run_phases ::
    "world \<Rightarrow> service \<Rightarrow> (datetime \<times> answer) list \<Rightarrow> phase \<Rightarrow> control_db \<Rightarrow> run_db \<Rightarrow> phase \<times> control_db \<times> run_db" where
  "run_phases w sv [] p cd rd = (p, cd, rd)"
| "run_phases w sv ((now, ans) # outside) p cd rd =
     (case exec_step w sv now ans p cd rd of (p', cd', rd') \<Rightarrow> run_phases w sv outside p' cd' rd')"

definition execute_submission_message ::
    "world \<Rightarrow> service \<Rightarrow> (datetime \<times> answer) list \<Rightarrow> message \<Rightarrow> control_db \<Rightarrow> run_db
      \<Rightarrow> (run_service_error, run_record) result option \<times> control_db \<times> run_db" where
  \<comment> \<open>\<open>None\<close>: the backend has not answered\<close>
  "execute_submission_message w sv outside m cd rd =
     (case run_phases w sv outside (Ph_start m) cd rd of
        (Ph_done r, cd', rd') \<Rightarrow> (Some r, cd', rd')
      | (_, cd', rd') \<Rightarrow> (None, cd', rd'))"

text \<open>\<open>submit_prepared\<close> with a control repository.\<close>

definition submit_prepared ::
    "world \<Rightarrow> service \<Rightarrow> datetime \<Rightarrow> (datetime \<times> answer) list \<Rightarrow> string \<Rightarrow> control_db \<Rightarrow> run_db
      \<Rightarrow> (run_service_error, run_record) result option \<times> control_db \<times> run_db" where
  "submit_prepared w sv now outside run_id cd rd =
     (case get_run run_id rd of
        Inl e \<Rightarrow> (Some (Inl (S_Run e)), cd, rd)
      | Inr existing \<Rightarrow>
          if rc_job_id existing \<noteq> None then (Some (Inr existing), cd, rd)
          else
            (case enqueue_submission w sv now run_id cd rd of
               (Inl e, cd1, rd1) \<Rightarrow> (Some (Inl e), cd1, rd1)
             | (Inr m, cd1, rd1) \<Rightarrow>
                 (case get_run run_id rd1 of
                    Inl e \<Rightarrow> (Some (Inl (S_Run e)), cd1, rd1)
                  | Inr run \<Rightarrow>
                      if rc_job_id run \<noteq> None then (Some (Inr run), cd1, rd1)
                      else
                        (case claim_outbox_message now (ms_id m) (sv_dispatcher sv) (sv_lease_seconds sv) cd1 of
                           (Inl e, cd2) \<Rightarrow> (Some (Inl (S_Control e)), cd2, rd1)
                         | (Inr None, cd2) \<Rightarrow>
                             (case get_run run_id rd1 of
                                Inl e \<Rightarrow> (Some (Inl (S_Run e)), cd2, rd1)
                              | Inr current \<Rightarrow>
                                  (Some (if rc_job_id current \<noteq> None then Inr current
                                         else Inl (S_InProgress ''run submission is already in progress'')), cd2, rd1))
                         | (Inr (Some claimed), cd2) \<Rightarrow> execute_submission_message w sv outside claimed cd2 rd1))))"

end
