(* ===== verification/Dispatch.thy ===== *)
theory Dispatch
  imports Submission
begin

text \<open>
  \<open>core/run_service.py\<close>, the callers of the submission: the dispatcher's loop over due messages, the submission of
  due workflow retries, preparing and submitting in one call, and the inline path of a deployment without a
  control repository, where one thread claims the Run without a fence and calls the backend itself. One caller
  alone; the interleaved view of the first two is the system of \<open>SubmissionSafety\<close>.
\<close>

section \<open>The dispatcher's loop\<close>

record dispatch_error =
  de_message_id :: string
  de_run_id :: string
  de_error :: run_service_error

record dispatch_batch =
  db_checked :: nat
  db_succeeded :: "run_record list"
  db_errors :: "dispatch_error list"

text \<open>The outside of one round: the clock at the claim, the clock and the backend's answers during the execution,
  the clock at the retry and the text of the exception. \<open>None\<close>: a backend that does not answer.\<close>

record round_outside =
  ro_claimed_at :: datetime
  ro_outside :: "(datetime \<times> answer) list"
  ro_retried_at :: datetime
  ro_text :: string

definition run_id_of_round :: "message \<Rightarrow> string" where
  "run_id_of_round m = (case message_run_id m of Inl _ \<Rightarrow> ms_aggregate m | Inr rid \<Rightarrow> rid)"

definition dispatch_round ::
    "world \<Rightarrow> service \<Rightarrow> round_outside \<Rightarrow> message \<Rightarrow> dispatch_batch \<Rightarrow> control_db \<Rightarrow> run_db
      \<Rightarrow> dispatch_batch option \<times> control_db \<times> run_db" where
  "dispatch_round w sv ro m b cd rd =
     (let b' = b\<lparr>db_checked := db_checked b + 1\<rparr> in
      case execute_submission_message w sv (ro_outside ro) m cd rd of
        (None, cd', rd') \<Rightarrow> (None, cd', rd')
      | (Some (Inr run), cd', rd') \<Rightarrow>
          (Some (if rc_job_id run \<noteq> None then b'\<lparr>db_succeeded := db_succeeded b @ [run]\<rparr> else b'), cd', rd')
      | (Some (Inl e), cd', rd') \<Rightarrow>
          (Some (b'\<lparr>db_errors := db_errors b @ [\<lparr>de_message_id = ms_id m, de_run_id = run_id_of_round m, de_error = e\<rparr>]\<rparr>),
           snd (retry_submission_message w sv (ro_retried_at ro) m (ro_text ro) cd'), rd'))"

fun dispatch_loop ::
    "world \<Rightarrow> service \<Rightarrow> round_outside list \<Rightarrow> dispatch_batch \<Rightarrow> control_db \<Rightarrow> run_db
      \<Rightarrow> (run_service_error, dispatch_batch) result option \<times> control_db \<times> run_db" where
  "dispatch_loop w sv [] b cd rd = (Some (Inr b), cd, rd)"
| "dispatch_loop w sv (ro # ros) b cd rd =
     (case claim_outbox (ro_claimed_at ro) (sv_dispatcher sv) 1 (sv_lease_seconds sv) [''run.submit''] cd of
        (Inl e, cd') \<Rightarrow> (Some (Inl (S_Control e)), cd', rd)
      | (Inr [], cd') \<Rightarrow> (Some (Inr b), cd', rd)
      | (Inr (m # _), cd') \<Rightarrow>
          (case dispatch_round w sv ro m b cd' rd of
             (None, cd2, rd2) \<Rightarrow> (None, cd2, rd2)
           | (Some b', cd2, rd2) \<Rightarrow> dispatch_loop w sv ros b' cd2 rd2))"

text \<open>\<open>limit\<close> rounds, each with its outside.\<close>

definition dispatch_due_submissions ::
    "world \<Rightarrow> service \<Rightarrow> int \<Rightarrow> (nat \<Rightarrow> round_outside) \<Rightarrow> control_db \<Rightarrow> run_db
      \<Rightarrow> (run_service_error, dispatch_batch) result option \<times> control_db \<times> run_db" where
  "dispatch_due_submissions w sv limit outside cd rd =
     (if limit \<le> 0 \<or> 1000 < limit then (Some (Inl (S_Value ''limit'')), cd, rd)
      else dispatch_loop w sv (map outside [0..<nat limit]) \<lparr>db_checked = 0, db_succeeded = [], db_errors = []\<rparr> cd rd)"

section \<open>Due workflow retries\<close>

fun submit_each ::
    "world \<Rightarrow> service \<Rightarrow> (nat \<Rightarrow> datetime \<times> (datetime \<times> answer) list) \<Rightarrow> nat \<Rightarrow> run_record list \<Rightarrow> run_record list
      \<Rightarrow> control_db \<Rightarrow> run_db \<Rightarrow> (run_service_error, run_record list) result option \<times> control_db \<times> run_db" where
  "submit_each w sv outside n submitted [] cd rd = (Some (Inr submitted), cd, rd)"
| "submit_each w sv outside n submitted (run # runs) cd rd =
     (case submit_prepared w sv (fst (outside n)) (snd (outside n)) (rc_id run) cd rd of
        (None, cd', rd') \<Rightarrow> (None, cd', rd')
      | (Some (Inl e), cd', rd') \<Rightarrow> (Some (Inl e), cd', rd')
      | (Some (Inr r), cd', rd') \<Rightarrow> submit_each w sv outside (Suc n) (submitted @ [r]) runs cd' rd')"

definition submit_due_workflow_retries ::
    "world \<Rightarrow> service \<Rightarrow> datetime \<Rightarrow> (nat \<Rightarrow> datetime \<times> (datetime \<times> answer) list) \<Rightarrow> int \<Rightarrow> control_db \<Rightarrow> run_db
      \<Rightarrow> (run_service_error, run_record list) result option \<times> control_db \<times> run_db" where
  "submit_due_workflow_retries w sv now outside limit cd rd =
     submit_each w sv outside 0 [] (list_due_workflow_retries now limit rd) cd rd"

section \<open>Preparing and submitting\<close>

text \<open>\<open>submit\<close>, \<open>submit_workflow_stage\<close> and \<open>submit_agent_formal\<close> with a control repository; the fresh id of
  \<open>submit\<close> is the argument \<open>run_id\<close>.\<close>

definition prepare_and_submit ::
    "world \<Rightarrow> service \<Rightarrow> datetime \<Rightarrow> (datetime \<times> answer) list \<Rightarrow> run_request \<Rightarrow> string \<Rightarrow> bool \<Rightarrow> control_db \<Rightarrow> run_db
      \<Rightarrow> (run_service_error, run_record) result option \<times> control_db \<times> run_db" where
  "prepare_and_submit w sv now outside request run_id idempotent cd rd =
     (case prepare w now request run_id idempotent rd of
        (Inl e, rd') \<Rightarrow> (Some (Inl e), cd, rd')
      | (Inr run, rd') \<Rightarrow> submit_prepared w sv now outside (rc_id run) cd rd')"

definition submit ::
    "world \<Rightarrow> service \<Rightarrow> datetime \<Rightarrow> (datetime \<times> answer) list \<Rightarrow> run_request \<Rightarrow> string \<Rightarrow> control_db \<Rightarrow> run_db
      \<Rightarrow> (run_service_error, run_record) result option \<times> control_db \<times> run_db" where
  "submit w sv now outside request fresh_id cd rd = prepare_and_submit w sv now outside request fresh_id False cd rd"

definition submit_workflow_stage ::
    "world \<Rightarrow> service \<Rightarrow> datetime \<Rightarrow> (datetime \<times> answer) list \<Rightarrow> run_request \<Rightarrow> string \<Rightarrow> string \<Rightarrow> int
      \<Rightarrow> control_db \<Rightarrow> run_db \<Rightarrow> (run_service_error, run_record) result option \<times> control_db \<times> run_db" where
  "submit_workflow_stage w sv now outside request workflow_id stage_id recovery_attempt cd rd =
     (case workflow_stage_id (wo_sha w) workflow_id stage_id recovery_attempt of
        Inl e \<Rightarrow> (Some (Inl e), cd, rd)
      | Inr run_id \<Rightarrow> prepare_and_submit w sv now outside request run_id True cd rd)"

definition submit_agent_formal ::
    "world \<Rightarrow> service \<Rightarrow> datetime \<Rightarrow> (datetime \<times> answer) list \<Rightarrow> run_request \<Rightarrow> string
      \<Rightarrow> control_db \<Rightarrow> run_db \<Rightarrow> (run_service_error, run_record) result option \<times> control_db \<times> run_db" where
  "submit_agent_formal w sv now outside request approval_digest cd rd =
     (case formal_run_id request approval_digest of
        Inl e \<Rightarrow> (Some (Inl e), cd, rd)
      | Inr run_id \<Rightarrow> prepare_and_submit w sv now outside request run_id True cd rd)"

section \<open>The inline path\<close>

definition inline_failed ::
    "world \<Rightarrow> datetime \<Rightarrow> string \<Rightarrow> string \<Rightarrow> string \<Rightarrow> run_service_error \<Rightarrow> run_db \<Rightarrow> (run_service_error, run_record) result \<times> run_db" where
  "inline_failed w now rid type_name text e rd =
     (case update_state (wo_redact w) now rid RS_SUBMIT_FAILED ''run.submit_failed''
             (Some (submission_failure_reason type_name text)) rd of
        (Inl e', rd') \<Rightarrow> (Inl (S_Run e'), rd')
      | (Inr _, rd') \<Rightarrow> (Inl e, rd'))"

definition inline_receipt ::
    "world \<Rightarrow> datetime \<Rightarrow> string \<Rightarrow> submit_receipt \<Rightarrow> run_db \<Rightarrow> (run_service_error, run_record) result \<times> run_db" where
  "inline_receipt w now rid r rd =
     (case apply_submit_receipt (wo_redact w) now rid r None None rd of (x, rd') \<Rightarrow> (lift_run x, rd'))"

text \<open>\<open>found\<close> is what the reconciliation backend answers, \<open>second\<close> the answer to the second \<open>submit\<close>. A
  \<open>SlurmBackendError\<close> of the second call is not caught.\<close>

definition apply_reconcile_result ::
    "world \<Rightarrow> service \<Rightarrow> datetime \<Rightarrow> answer \<Rightarrow> answer \<Rightarrow> run_record \<Rightarrow> submit_intent \<Rightarrow> real \<Rightarrow> run_db
      \<Rightarrow> (run_service_error, run_record) result option \<times> run_db" where
  "apply_reconcile_result w sv now found second run intent submitted_after rd =
     (let rid = rc_id run; marker = (if in_job_name intent = [] then sv_job_name_marker sv else in_job_name intent);
          answer = (\<lambda>(r, rd'). (Some r, rd')) in
      case found of
        A_jobs find_jobs \<Rightarrow>
          (case reconcile_submission find_jobs (spec_owner (rc_spec run)) marker submitted_after (sv_window_seconds sv) of
             None \<Rightarrow> (Some (Inl (S_Value ''time_window_seconds'')), rd)
           | Some result \<Rightarrow>
               (case (rr_state result, rr_job_id result) of
                  (RC_bound, Some j) \<Rightarrow> answer (inline_receipt w now rid (reconciled_receipt sv j) rd)
                | (RC_not_found, _) \<Rightarrow>
                    (case second of
                       A_receipt r \<Rightarrow> answer (inline_receipt w now rid r rd)
                     | A_transport ty text \<Rightarrow> answer (inline_failed w now rid ty text (S_Transport text) rd)
                     | A_backend _ text \<Rightarrow> (Some (Inl (S_Backend text)), rd)
                     | _ \<Rightarrow> (None, rd))
                | _ \<Rightarrow>
                    (case update_state (wo_redact w) now rid RS_SUBMISSION_UNCERTAIN ''run.submission_uncertain'' None rd of
                       (Inl e, rd') \<Rightarrow> (Some (Inl (S_Run e)), rd')
                     | (Inr _, rd') \<Rightarrow>
                         (case append_event (wo_redact w) now rid ''run.submission_uncertain''
                                 (JObj [(''candidate_job_ids'', jstrs (rr_matches result))]) rd' of
                            (Inl e, rd2) \<Rightarrow> (Some (Inl (S_Run e)), rd2)
                          | (Inr _, rd2) \<Rightarrow> (Some (Inl (S_Uncertain (rr_matches result))), rd2)))))
      | A_transport _ text \<Rightarrow> (Some (Inl (S_Transport text)), rd)
      | A_backend _ text \<Rightarrow> (Some (Inl (S_Backend text)), rd)
      | _ \<Rightarrow> (None, rd))"

text \<open>The checks before the claim, and the call with its outcome.\<close>

definition inline_intent ::
    "world \<Rightarrow> service \<Rightarrow> datetime \<Rightarrow> run_record \<Rightarrow> run_db \<Rightarrow> (run_service_error, submit_intent) result \<times> run_db" where
  "inline_intent w sv now run rd =
     (if rc_state run = RS_SUBMITTING then (Inl (S_InProgress ''run submission is already in progress''), rd)
      else if rc_state run \<noteq> RS_VALIDATED then (Inl (S_Backend ''run cannot be submitted''), rd)
      else submission_intent w sv now True run rd)"

definition inline_call ::
    "world \<Rightarrow> service \<Rightarrow> datetime \<Rightarrow> answer \<Rightarrow> answer \<Rightarrow> answer \<Rightarrow> run_record \<Rightarrow> submit_intent \<Rightarrow> run_db
      \<Rightarrow> (run_service_error, run_record) result option \<times> run_db" where
  "inline_call w sv now first found second run intent rd =
     (let rid = rc_id run; answer = (\<lambda>(r, rd'). (Some r, rd')) in
      case first of
        A_receipt r \<Rightarrow> answer (inline_receipt w now rid r rd)
      | A_transport ty text \<Rightarrow>
          if sv_reconcile sv then apply_reconcile_result w sv now found second run intent (wo_timestamp w now) rd
          else answer (inline_failed w now rid ty text (S_Transport text) rd)
      | A_backend ty text \<Rightarrow> answer (inline_failed w now rid ty text (S_Backend text) rd)
      | _ \<Rightarrow> (None, rd))"

definition submit_prepared_inline ::
    "world \<Rightarrow> service \<Rightarrow> datetime \<Rightarrow> answer \<Rightarrow> answer \<Rightarrow> answer \<Rightarrow> string \<Rightarrow> run_db
      \<Rightarrow> (run_service_error, run_record) result option \<times> run_db" where
  "submit_prepared_inline w sv now first found second run_id rd =
     (case get_run run_id rd of
        Inl e \<Rightarrow> (Some (Inl (S_Run e)), rd)
      | Inr run \<Rightarrow>
          if rc_job_id run \<noteq> None then (Some (Inr run), rd)
          else
            (case inline_intent w sv now run rd of
               (Inl e, rd1) \<Rightarrow> (Some (Inl e), rd1)
             | (Inr intent, rd1) \<Rightarrow>
                 (case claim_submission (wo_redact w) now run_id None None rd1 of
                    (Inl e, rd2) \<Rightarrow> (Some (Inl (S_Run e)), rd2)
                  | (Inr False, rd2) \<Rightarrow>
                      (Some (case get_run run_id rd2 of
                         Inl e \<Rightarrow> Inl (S_Run e)
                       | Inr current \<Rightarrow> if rc_job_id current \<noteq> None then Inr current
                           else Inl (S_InProgress ''run submission is already in progress'')), rd2)
                  | (Inr True, rd2) \<Rightarrow> inline_call w sv now first found second run intent rd2)))"

end
