(* ===== verification/CollectionStore.thy ===== *)
theory CollectionStore
  imports RunStore
begin

text \<open>
  \<open>core/run_store.py\<close>: the collection tasks of a Run. A task is taken under a lease with a fencing
  token, by the outbox dispatcher (\<open>claim_collection_task\<close>, whose token is that of the message) or by the
  polling worker (\<open>acquire_due_collection_tasks\<close>), and settled under it. Every change refreshes the Run's
  \<open>collection_state\<close>.
\<close>

section \<open>Reading\<close>

definition get_collection_task :: "int \<Rightarrow> run_db \<Rightarrow> (run_error, collection_task) result" where
  "get_collection_task tid db =
     (case fetchone (\<lambda>t. ct_id t = tid) (rd_tasks db) of None \<Rightarrow> Inl (R_Key ''task'') | Some t \<Rightarrow> Inr t)"

definition list_collection_tasks :: "string \<Rightarrow> run_db \<Rightarrow> collection_task list" where
  "list_collection_tasks rid db = sort_key ct_id (filter (\<lambda>t. ct_run t = rid) (rd_tasks db))"

definition task_ready :: "string \<Rightarrow> collection_task \<Rightarrow> bool" where
  \<comment> \<open>\<open>state IN ('pending', 'failed_retryable') AND (next_attempt_at IS NULL OR next_attempt_at <= now)\<close>\<close>
  "task_ready now_text t \<longleftrightarrow> ct_state t \<in> {CT_pending, CT_failed_retryable} \<and>
     (case ct_next_attempt t of None \<Rightarrow> True | Some at_text \<Rightarrow> at_text \<le> now_text)"

definition task_lapsed :: "string \<Rightarrow> collection_task \<Rightarrow> bool" where
  \<comment> \<open>\<open>state = 'running' AND lease_expires_at IS NOT NULL AND lease_expires_at <= now\<close>\<close>
  "task_lapsed now_text t \<longleftrightarrow> ct_state t = CT_running \<and>
     (case ct_expires t of None \<Rightarrow> False | Some e \<Rightarrow> e \<le> now_text)"

definition task_type_rank :: "string \<Rightarrow> int" where
  "task_type_rank ty =
     (if ty = ''submission_snapshot'' then 10 else if ty = ''runtime_status'' then 20
      else if ty = ''terminal_accounting'' then 30 else if ty = ''logs_finalize'' then 40
      else if ty = ''environment_finalize'' then 50 else if ty = ''outputs_inventory'' then 60
      else if ty = ''result_summary'' then 90 else 80)"

definition list_due_collection_tasks :: "datetime \<Rightarrow> int \<Rightarrow> run_db \<Rightarrow> collection_task list" where
  "list_due_collection_tasks now limit db =
     (if limit \<le> 0 then []
      else take (nat limit) (sort_key (\<lambda>t. (task_type_rank (ct_type t), ct_updated_at t, ct_created_at t))
        (filter (task_ready (isoformat now)) (rd_tasks db))))"

definition list_collection_tasks_for_dispatch :: "datetime \<Rightarrow> int \<Rightarrow> run_db \<Rightarrow> collection_task list" where
  "list_collection_tasks_for_dispatch now limit db =
     (if limit \<le> 0 then []
      else take (nat limit) (sort_key (\<lambda>t. (ct_updated_at t, ct_created_at t, ct_id t))
        (filter (\<lambda>t. task_ready (isoformat now) t \<or> task_lapsed (isoformat now) t) (rd_tasks db))))"

section \<open>Taking tasks\<close>

text \<open>The end of every operation: an event of the task's Run, and the Run's summary.\<close>

definition task_event_tx :: "(json \<Rightarrow> json) \<Rightarrow> datetime \<Rightarrow> string \<Rightarrow> (string \<times> json) list \<Rightarrow> collection_task \<Rightarrow> unit run_tx" where
  "task_event_tx redact now event_type entries t db =
     bind_res (append_event_tx redact now (ct_run t) event_type (JObj entries) db)
       (\<lambda>(_, db'). Inr ((), refresh_collection_state now (ct_run t) db'))"

definition acquired_fields :: "string \<Rightarrow> string \<Rightarrow> int \<Rightarrow> int \<Rightarrow> collection_task \<Rightarrow> (string \<times> json) list" where
  "acquired_fields lease_owner lease_expires_at fencing_token generation t =
     [(''task_id'', JInt (ct_id t)), (''task_type'', JStr (ct_type t)), (''lease_owner'', JStr lease_owner),
      (''lease_expires_at'', JStr lease_expires_at), (''fencing_token'', JInt fencing_token),
      (''generation'', JInt generation)]"

definition task_claimable :: "string \<Rightarrow> int \<Rightarrow> int \<Rightarrow> int \<Rightarrow> collection_task \<Rightarrow> bool" where
  "task_claimable now_text tid fencing_token generation t \<longleftrightarrow> ct_id t = tid \<and> ct_generation t = generation \<and>
     (task_ready now_text t \<or> ct_state t = CT_running \<and> ct_token t < fencing_token)"

definition upd_task_claim :: "string \<Rightarrow> string \<Rightarrow> string option \<Rightarrow> int \<Rightarrow> collection_task \<Rightarrow> collection_task" where
  "upd_task_claim now_text lease_owner lease_expires_at fencing_token t = t\<lparr>ct_state := CT_running,
     ct_owner := Some lease_owner, ct_expires := lease_expires_at, ct_token := fencing_token,
     ct_attempts := ct_attempts t + 1, ct_updated_at := now_text\<rparr>"

definition claim_collection_task_tx ::
    "(json \<Rightarrow> json) \<Rightarrow> datetime \<Rightarrow> int \<Rightarrow> string \<Rightarrow> int \<Rightarrow> int \<Rightarrow> string \<Rightarrow> bool run_tx" where
  "claim_collection_task_tx redact now tid lease_owner fencing_token generation lease_expires_at db =
     (let p = task_claimable (isoformat now) tid fencing_token generation;
          db' = db\<lparr>rd_tasks := sql_update p
            (upd_task_claim (isoformat now) lease_owner (Some lease_expires_at) fencing_token) (rd_tasks db)\<rparr>
      in if rowcount p (rd_tasks db) \<noteq> 1 then Inr (False, db')
         else bind_res (get_collection_task tid db') (\<lambda>t.
           bind_res (task_event_tx redact now ''collection.task_acquired''
             (acquired_fields lease_owner lease_expires_at fencing_token generation t) t db') (\<lambda>(_, db2).
           Inr (True, db2))))"

definition claim_collection_task ::
    "(json \<Rightarrow> json) \<Rightarrow> datetime \<Rightarrow> int \<Rightarrow> string \<Rightarrow> int \<Rightarrow> int \<Rightarrow> string \<Rightarrow> run_db
      \<Rightarrow> (run_error, collection_task option) result \<times> run_db" where
  "claim_collection_task redact now tid lease_owner fencing_token generation lease_expires_at db =
     (case first_failure [(0 < fencing_token, R_Value ''fencing_token''), (0 < generation, R_Value ''generation'')] of
        Some e \<Rightarrow> (Inl e, db)
      | None \<Rightarrow>
          (case commit (claim_collection_task_tx redact now tid lease_owner fencing_token generation lease_expires_at) db of
             (Inl e, db') \<Rightarrow> (Inl e, db')
           | (Inr False, db') \<Rightarrow> (Inr None, db')
           | (Inr True, db') \<Rightarrow> (bind_res (get_collection_task tid db') (\<lambda>t. Inr (Some t)), db')))"

text \<open>The loop of \<open>acquire_due_collection_tasks\<close> over the selected rows, inside one transaction.\<close>

definition takeable :: "string \<Rightarrow> collection_task \<Rightarrow> bool" where
  "takeable now_text t \<longleftrightarrow> task_ready now_text t \<or> task_lapsed now_text t"

definition upd_task_acquire :: "string \<Rightarrow> string \<Rightarrow> string option \<Rightarrow> collection_task \<Rightarrow> collection_task" where
  "upd_task_acquire now_text lease_owner lease_expires_at t =
     upd_task_claim now_text lease_owner lease_expires_at (ct_token t + 1) t"

fun acquire_rows ::
    "(json \<Rightarrow> json) \<Rightarrow> datetime \<Rightarrow> string \<Rightarrow> string \<Rightarrow> collection_task list \<Rightarrow> collection_task list run_tx" where
  "acquire_rows redact now lease_owner expires [] db = Inr ([], db)"
| "acquire_rows redact now lease_owner expires (row # rows) db =
     (let p = (\<lambda>t. ct_id t = ct_id row \<and> takeable (isoformat now) t);
          db' = db\<lparr>rd_tasks := sql_update p (upd_task_acquire (isoformat now) lease_owner (Some expires)) (rd_tasks db)\<rparr>
      in if rowcount p (rd_tasks db) \<noteq> 1 then acquire_rows redact now lease_owner expires rows db'
         else bind_res (get_collection_task (ct_id row) db') (\<lambda>t.
           bind_res (task_event_tx redact now ''collection.task_acquired''
             (acquired_fields lease_owner expires (ct_token t) (ct_generation t) t) t db') (\<lambda>(_, db2).
           bind_res (acquire_rows redact now lease_owner expires rows db2) (\<lambda>(ts, db3). Inr (t # ts, db3)))))"

definition acquire_due_collection_tasks ::
    "(json \<Rightarrow> json) \<Rightarrow> datetime \<Rightarrow> string \<Rightarrow> int \<Rightarrow> int \<Rightarrow> run_db \<Rightarrow> (run_error, collection_task list) result \<times> run_db" where
  "acquire_due_collection_tasks redact now lease_owner limit lease_seconds db =
     (if limit \<le> 0 then (Inr [], db)
      else if lease_seconds \<le> 0 then (Inl (R_Value ''lease_seconds''), db)
      else
        (case add_seconds (nat lease_seconds) now of
           None \<Rightarrow> (Inl R_Overflow, db)
         | Some e \<Rightarrow> commit (\<lambda>db. acquire_rows redact now lease_owner (isoformat e)
             (take (nat limit) (sort_key (\<lambda>t. (ct_updated_at t, ct_created_at t))
                (filter (takeable (isoformat now)) (rd_tasks db)))) db) db))"

text \<open>The unconditional variant.\<close>

definition mark_collection_task_running ::
    "(json \<Rightarrow> json) \<Rightarrow> datetime \<Rightarrow> int \<Rightarrow> string \<Rightarrow> string option \<Rightarrow> run_db
      \<Rightarrow> (run_error, collection_task) result \<times> run_db" where
  "mark_collection_task_running redact now tid lease_owner lease_expires_at db =
     then_read (get_collection_task tid) (commit (\<lambda>db.
       let db' = db\<lparr>rd_tasks := sql_update (\<lambda>t. ct_id t = tid)
             (upd_task_acquire (isoformat now) lease_owner lease_expires_at) (rd_tasks db)\<rparr>
       in bind_res (get_collection_task tid db') (\<lambda>t.
            task_event_tx redact now ''collection.task_running''
              [(''task_id'', JInt (ct_id t)), (''task_type'', JStr (ct_type t))] t db')) db)"

section \<open>Settling tasks\<close>

text \<open>The three conditions under which a task is settled: anyone, the lease owner, the lease owner under
  its token.\<close>

definition settle_where :: "int \<Rightarrow> string option \<Rightarrow> int option \<Rightarrow> collection_task \<Rightarrow> bool" where
  "settle_where tid lease_owner fencing_token t \<longleftrightarrow> ct_id t = tid \<and>
     (case lease_owner of None \<Rightarrow> True
      | Some ow \<Rightarrow> ct_state t = CT_running \<and> ct_owner t = Some ow \<and>
          (case fencing_token of None \<Rightarrow> True | Some k \<Rightarrow> ct_token t = k))"

definition upd_task_settle :: "string \<Rightarrow> task_status \<Rightarrow> string option \<Rightarrow> collection_task \<Rightarrow> collection_task" where
  "upd_task_settle now_text st next_attempt t = t\<lparr>ct_state := st, ct_next_attempt := next_attempt,
     ct_owner := None, ct_expires := None, ct_updated_at := now_text\<rparr>"

definition settle_tx ::
    "(json \<Rightarrow> json) \<Rightarrow> datetime \<Rightarrow> int \<Rightarrow> string option \<Rightarrow> int option \<Rightarrow> (collection_task \<Rightarrow> collection_task)
      \<Rightarrow> string \<Rightarrow> (collection_task \<Rightarrow> (string \<times> json) list) \<Rightarrow> unit run_tx" where
  "settle_tx redact now tid lease_owner fencing_token f event_type entries db =
     (let p = settle_where tid lease_owner fencing_token;
          db' = db\<lparr>rd_tasks := sql_update p f (rd_tasks db)\<rparr>
      in if rowcount p (rd_tasks db) \<noteq> 1 then Inl R_TaskFence
         else bind_res (get_collection_task tid db') (\<lambda>t. task_event_tx redact now event_type (entries t) t db'))"

definition json_fields :: "json \<Rightarrow> (string \<times> json) list" where
  "json_fields v = (case v of JObj kvs \<Rightarrow> kvs | _ \<Rightarrow> [])"

definition mark_collection_task_succeeded ::
    "(json \<Rightarrow> json) \<Rightarrow> datetime \<Rightarrow> int \<Rightarrow> (string \<times> json) list option \<Rightarrow> string option \<Rightarrow> int option \<Rightarrow> run_db
      \<Rightarrow> (run_error, collection_task) result \<times> run_db" where
  "mark_collection_task_succeeded redact now tid payload lease_owner fencing_token db =
     (if fencing_token \<noteq> None \<and> lease_owner = None then (Inl (R_Value ''fencing_token requires lease_owner''), db)
      else then_read (get_collection_task tid) (commit (settle_tx redact now tid lease_owner fencing_token
        (\<lambda>t. upd_task_settle (isoformat now) CT_succeeded (ct_next_attempt t) t) ''collection.task_succeeded''
        (\<lambda>t. json_fields (merged [(''task_id'', JInt (ct_id t)), (''task_type'', JStr (ct_type t)),
               (''fencing_token'', jopt JInt fencing_token), (''generation'', JInt (ct_generation t))] payload))) db))"

text \<open>\<open>None\<close> for the delay that overflows the calendar.\<close>

definition retry_at :: "datetime \<Rightarrow> bool \<Rightarrow> int option \<Rightarrow> string option option" where
  "retry_at now retryable retry_delay_seconds =
     (case retry_delay_seconds of
        None \<Rightarrow> Some None
      | Some d \<Rightarrow> if retryable \<and> 0 < d then map_option (\<lambda>t. Some (isoformat t)) (add_seconds (nat d) now) else Some None)"

definition mark_collection_task_failed ::
    "(json \<Rightarrow> json) \<Rightarrow> datetime \<Rightarrow> int \<Rightarrow> string \<Rightarrow> bool \<Rightarrow> string option \<Rightarrow> string option \<Rightarrow> bool \<Rightarrow> int option \<Rightarrow> int option
      \<Rightarrow> run_db \<Rightarrow> (run_error, collection_task) result \<times> run_db" where
  "mark_collection_task_failed redact now tid message retryable lease_owner error_code auth_required
       retry_delay_seconds fencing_token db =
     (if fencing_token \<noteq> None \<and> lease_owner = None then (Inl (R_Value ''fencing_token requires lease_owner''), db)
      else
        (case retry_at now retryable retry_delay_seconds of
           None \<Rightarrow> (Inl R_Overflow, db)
         | Some next_attempt_at \<Rightarrow>
             then_read (get_collection_task tid) (commit (settle_tx redact now tid lease_owner fencing_token
               (upd_task_settle (isoformat now) (if retryable then CT_failed_retryable else CT_failed_permanent) next_attempt_at)
               ''collection.task_failed''
               (\<lambda>t. [(''task_id'', JInt (ct_id t)), (''task_type'', JStr (ct_type t)), (''message'', JStr message),
                     (''retryable'', JBool retryable), (''error_code'', jopt JStr error_code),
                     (''auth_required'', JBool auth_required), (''retry_delay_seconds'', jopt JInt retry_delay_seconds),
                     (''fencing_token'', jopt JInt fencing_token), (''generation'', JInt (ct_generation t))])) db)))"

section \<open>Waiting for the runtime watch\<close>

definition shift_logs_finalize ::
    "(json \<Rightarrow> json) \<Rightarrow> datetime \<Rightarrow> string \<Rightarrow> task_status set \<Rightarrow> task_status \<Rightarrow> string option \<Rightarrow> string \<Rightarrow> bool run_tx" where
  "shift_logs_finalize redact now rid from st next_attempt event_type db =
     (let p = (\<lambda>t. ct_run t = rid \<and> ct_type t = ''logs_finalize'' \<and> ct_state t \<in> from);
          db' = db\<lparr>rd_tasks := sql_update p (\<lambda>t. t\<lparr>ct_state := st, ct_next_attempt := next_attempt,
                     ct_updated_at := isoformat now\<rparr>) (rd_tasks db)\<rparr>
      in if rowcount p (rd_tasks db) = 0 then Inr (False, db')
         else bind_res (append_event_tx redact now rid event_type (JObj []) db') (\<lambda>(_, db2).
           Inr (rowcount p (rd_tasks db) = 1, refresh_collection_state now rid db2)))"

definition defer_logs_finalize_for_runtime_watch ::
    "(json \<Rightarrow> json) \<Rightarrow> datetime \<Rightarrow> string \<Rightarrow> run_db \<Rightarrow> (run_error, bool) result \<times> run_db" where
  "defer_logs_finalize_for_runtime_watch redact now rid db =
     commit (shift_logs_finalize redact now rid {CT_pending, CT_failed_retryable} CT_waiting_runtime_watch None
       ''runtime_watch.terminal_drain_started'') db"

definition release_logs_finalize_after_runtime_watch ::
    "(json \<Rightarrow> json) \<Rightarrow> datetime \<Rightarrow> string \<Rightarrow> run_db \<Rightarrow> (run_error, bool) result \<times> run_db" where
  "release_logs_finalize_after_runtime_watch redact now rid db =
     commit (shift_logs_finalize redact now rid {CT_waiting_runtime_watch} CT_pending (Some (isoformat now))
       ''runtime_watch.terminal_drain_completed'') db"

end
