(* ===== verification/SealStore.thy ===== *)
theory SealStore
  imports RunStore
begin

text \<open>
  \<open>core/run_store.py\<close>: the evidence seal of a Run and its evidence objects. Sealing is prepared under a
  fenced claim that expires; a sealed or invalidated seal is final. Evidence objects are written while
  the seal is open; the trigger \<open>evidence_objects_integrity_guard\<close> freezes the checked ones.
\<close>

section \<open>The seal\<close>

definition get_evidence_seal :: "string \<Rightarrow> run_db \<Rightarrow> (run_error, seal_rec) result" where
  "get_evidence_seal rid db =
     (case fetchone (\<lambda>r. rn_id r = rid) (rd_runs db) of None \<Rightarrow> Inl (R_Key rid) | Some r \<Rightarrow> Inr (rn_seal r))"

definition after_now :: "string \<Rightarrow> string option \<Rightarrow> bool" where
  \<comment> \<open>\<open>IS NOT NULL AND > now\<close>\<close>
  "after_now now_text e \<longleftrightarrow> (case e of None \<Rightarrow> False | Some t \<Rightarrow> now_text < t)"

definition sealable :: "string \<Rightarrow> string \<Rightarrow> run_row \<Rightarrow> bool" where
  "sealable rid now_text r \<longleftrightarrow> rn_id r = rid \<and> rc_state (rn_record r) \<in> terminal_run_states \<and>
     rc_collection (rn_record r) = CS_SUCCEEDED \<and>
     (seal_status (rn_seal r) = SEAL_OPEN \<or>
      seal_status (rn_seal r) = SEAL_PREPARING \<and> \<not> after_now now_text (seal_expires (rn_seal r)))"

definition touch :: "string \<Rightarrow> run_row \<Rightarrow> run_row" where
  "touch now_text = upd_record (\<lambda>c. c\<lparr>rc_updated_at := now_text\<rparr>)"

definition upd_seal :: "string \<Rightarrow> (seal_rec \<Rightarrow> seal_rec) \<Rightarrow> run_row \<Rightarrow> run_row" where
  "upd_seal now_text f r = (touch now_text r)\<lparr>rn_seal := f (rn_seal r)\<rparr>"

definition upd_begin_seal :: "string \<Rightarrow> string \<Rightarrow> string \<Rightarrow> run_row \<Rightarrow> run_row" where
  "upd_begin_seal now_text claim_owner expires = upd_seal now_text (\<lambda>s. s\<lparr>seal_status := SEAL_PREPARING,
     seal_owner := Some claim_owner, seal_expires := Some expires, seal_token := seal_token s + 1\<rparr>)"

definition begin_evidence_seal_tx :: "string \<Rightarrow> string \<Rightarrow> string \<Rightarrow> string \<Rightarrow> unit run_tx" where
  "begin_evidence_seal_tx now_text rid claim_owner expires db =
     (case fetchone (\<lambda>r. rn_id r = rid) (rd_runs db) of
        None \<Rightarrow> Inl (R_Key rid)
      | Some r \<Rightarrow>
          if seal_status (rn_seal r) = SEAL_INVALID then Inl (R_Value ''seal is invalid'')
          else if seal_status (rn_seal r) = SEAL_SEALED then Inr ((), db)
          else if rc_state (rn_record r) \<notin> terminal_run_states then Inl (R_Value ''not terminal'')
          else if rc_collection (rn_record r) \<noteq> CS_SUCCEEDED then Inl (R_Value ''incomplete collection'')
          else if seal_status (rn_seal r) = SEAL_PREPARING \<and> after_now now_text (seal_expires (rn_seal r))
          then Inl R_SealClaim
          else if rowcount (sealable rid now_text) (rd_runs db) \<noteq> 1 then Inl R_SealClaim
          else Inr ((), db\<lparr>rd_runs := sql_update (sealable rid now_text)
                 (upd_begin_seal now_text claim_owner expires) (rd_runs db)\<rparr>))"

definition begin_evidence_seal ::
    "datetime \<Rightarrow> string \<Rightarrow> string \<Rightarrow> int \<Rightarrow> run_db \<Rightarrow> (run_error, seal_rec) result \<times> run_db" where
  "begin_evidence_seal now rid claim_owner lease_seconds db =
     (case first_failure
        [(\<not> list_all space_char claim_owner, R_Value ''claim owner''), (0 < lease_seconds, R_Value ''lease_seconds''),
         (add_seconds (nat lease_seconds) now \<noteq> None, R_Overflow)] of
        Some e \<Rightarrow> (Inl e, db)
      | None \<Rightarrow> then_read (get_evidence_seal rid) (commit (begin_evidence_seal_tx (isoformat now) rid claim_owner
          (isoformat (the (add_seconds (nat lease_seconds) now)))) db))"

definition seal_held :: "string \<Rightarrow> string \<Rightarrow> string \<Rightarrow> int \<Rightarrow> run_row \<Rightarrow> bool" where
  "seal_held now_text rid claim_owner fencing_token r \<longleftrightarrow> rn_id r = rid \<and> seal_status (rn_seal r) = SEAL_PREPARING \<and>
     seal_owner (rn_seal r) = Some claim_owner \<and> seal_token (rn_seal r) = fencing_token \<and>
     after_now now_text (seal_expires (rn_seal r))"

definition renew_evidence_seal_claim ::
    "datetime \<Rightarrow> string \<Rightarrow> string \<Rightarrow> int \<Rightarrow> int \<Rightarrow> run_db \<Rightarrow> (run_error, seal_rec) result \<times> run_db" where
  "renew_evidence_seal_claim now rid claim_owner fencing_token lease_seconds db =
     (case first_failure
        [(0 < fencing_token, R_Value ''fencing_token''), (0 < lease_seconds, R_Value ''lease_seconds''),
         (add_seconds (nat lease_seconds) now \<noteq> None, R_Overflow)] of
        Some e \<Rightarrow> (Inl e, db)
      | None \<Rightarrow> then_read (get_evidence_seal rid) (commit (\<lambda>db.
          let p = seal_held (isoformat now) rid claim_owner fencing_token in
          if rowcount p (rd_runs db) \<noteq> 1 then Inl R_SealFence
          else Inr ((), db\<lparr>rd_runs := sql_update p (upd_seal (isoformat now)
                 (\<lambda>s. s\<lparr>seal_expires := Some (isoformat (the (add_seconds (nat lease_seconds) now)))\<rparr>)) (rd_runs db)\<rparr>)) db))"

definition upd_complete_seal :: "string \<Rightarrow> string \<Rightarrow> string \<Rightarrow> run_row \<Rightarrow> run_row" where
  "upd_complete_seal now_text digest marker_ref = upd_seal now_text (\<lambda>s. s\<lparr>seal_status := SEAL_SEALED,
     seal_digest := Some digest, seal_marker := Some marker_ref, seal_at := Some now_text,
     seal_reason := None, seal_owner := None, seal_expires := None\<rparr>)"

definition complete_evidence_seal_tx :: "string \<Rightarrow> string \<Rightarrow> string \<Rightarrow> int \<Rightarrow> string \<Rightarrow> string \<Rightarrow> unit run_tx" where
  "complete_evidence_seal_tx now_text rid claim_owner fencing_token digest marker_ref db =
     (case fetchone (\<lambda>r. rn_id r = rid) (rd_runs db) of
        None \<Rightarrow> Inl (R_Key rid)
      | Some r \<Rightarrow>
          if seal_status (rn_seal r) = SEAL_SEALED then
            (if seal_digest (rn_seal r) \<noteq> Some digest \<or> seal_marker (rn_seal r) \<noteq> Some marker_ref
             then Inl (R_Value ''replay changed immutable facts'') else Inr ((), db))
          else
            let p = seal_held now_text rid claim_owner fencing_token in
            if rowcount p (rd_runs db) \<noteq> 1 then Inl R_SealFence
            else Inr ((), db\<lparr>rd_runs := sql_update p (upd_complete_seal now_text digest marker_ref) (rd_runs db)\<rparr>))"

definition complete_evidence_seal ::
    "datetime \<Rightarrow> string \<Rightarrow> string \<Rightarrow> int \<Rightarrow> string \<Rightarrow> string \<Rightarrow> run_db \<Rightarrow> (run_error, seal_rec) result \<times> run_db" where
  "complete_evidence_seal now rid claim_owner fencing_token digest marker_ref db =
     (case first_failure
        [(0 < fencing_token, R_Value ''fencing_token''), (hex_digest digest, R_Value ''digest''),
         (marker_ref \<noteq> [], R_Value ''marker'')] of
        Some e \<Rightarrow> (Inl e, db)
      | None \<Rightarrow> then_read (get_evidence_seal rid)
          (commit (complete_evidence_seal_tx (isoformat now) rid claim_owner fencing_token digest marker_ref) db))"

definition seal_invalid_reason :: "string \<Rightarrow> string" where
  "seal_invalid_reason reason =
     (let bounded = bounded_event_reason reason in if bounded = [] then ''evidence_seal_invalid'' else bounded)"

definition upd_invalidate_seal :: "string \<Rightarrow> string \<Rightarrow> run_row \<Rightarrow> run_row" where
  "upd_invalidate_seal now_text reason = upd_seal now_text (\<lambda>s. s\<lparr>seal_status := SEAL_INVALID,
     seal_reason := Some reason, seal_owner := None, seal_expires := None\<rparr>)"

definition invalidate_evidence_seal ::
    "datetime \<Rightarrow> string \<Rightarrow> string \<Rightarrow> int \<Rightarrow> string \<Rightarrow> run_db \<Rightarrow> (run_error, seal_rec) result \<times> run_db" where
  "invalidate_evidence_seal now rid claim_owner fencing_token reason db =
     (if fencing_token \<le> 0 then (Inl (R_Value ''fencing_token''), db)
      else then_read (get_evidence_seal rid) (commit (\<lambda>db.
        let p = seal_held (isoformat now) rid claim_owner fencing_token in
        if rowcount p (rd_runs db) = 0 then
          (if run_exists rid db then Inl R_SealFence else Inl (R_Key rid))
        else Inr ((), db\<lparr>rd_runs := sql_update p
               (upd_invalidate_seal (isoformat now) (seal_invalid_reason reason)) (rd_runs db)\<rparr>)) db))"

section \<open>Evidence objects\<close>

text \<open>The columns of \<open>_evidence_object_values\<close>, which the freezing compares.\<close>

definition object_values :: "evidence_object \<Rightarrow> evidence_object" where
  "object_values obj = obj\<lparr>eo_run := [], eo_checked_at := None, eo_set_digest := None, eo_invalidated_at := None,
     eo_created_at := [], eo_updated_at := []\<rparr>"

text \<open>The trigger: what an update may do to a row that has been checked or invalidated.\<close>

definition object_guard :: "evidence_object \<Rightarrow> evidence_object \<Rightarrow> bool" where
  "object_guard old new \<longleftrightarrow>
     (eo_checked_at old = None \<and> eo_invalidated_at old = None) \<or>
     (object_values new = object_values old \<and> eo_run new = eo_run old \<and>
      (eo_checked_at new = eo_checked_at old \<and> eo_set_digest new = eo_set_digest old \<and>
         eo_invalidated_at new = eo_invalidated_at old \<or>
       eo_checked_at old \<noteq> None \<and> eo_set_digest old = None \<and> eo_invalidated_at old = None \<and>
         eo_checked_at new = eo_checked_at old \<and> eo_set_digest new \<noteq> None \<and> eo_invalidated_at new = None \<or>
       eo_checked_at old \<noteq> None \<and> eo_invalidated_at old = None \<and>
         eo_checked_at new = None \<and> eo_set_digest new = None \<and> eo_invalidated_at new \<noteq> None))"

definition update_objects ::
    "(evidence_object \<Rightarrow> bool) \<Rightarrow> (evidence_object \<Rightarrow> evidence_object) \<Rightarrow> run_db \<Rightarrow> (run_error, run_db) result" where
  "update_objects p f db =
     (if \<forall>x \<in> set (rd_objects db). p x \<longrightarrow> object_guard x (f x)
      then Inr (db\<lparr>rd_objects := sql_update p f (rd_objects db)\<rparr>) else Inl R_Integrity)"

definition object_at :: "string \<Rightarrow> string \<Rightarrow> evidence_object \<Rightarrow> bool" where
  "object_at rid path x \<longleftrightarrow> eo_run x = rid \<and> eo_logical_path x = path"

definition upd_object :: "string \<Rightarrow> evidence_object \<Rightarrow> evidence_object \<Rightarrow> evidence_object" where
  \<comment> \<open>\<open>DO UPDATE SET\<close>: everything but the key columns and the times of creation and invalidation\<close>
  "upd_object now_text obj x = obj\<lparr>eo_id := eo_id x, eo_run := eo_run x, eo_logical_path := eo_logical_path x,
     eo_checked_at := coalesce (eo_checked_at x) (eo_checked_at obj),
     eo_set_digest := coalesce (eo_set_digest x) (eo_set_digest obj),
     eo_invalidated_at := eo_invalidated_at x, eo_created_at := eo_created_at x, eo_updated_at := now_text\<rparr>"

definition upsert_object :: "string \<Rightarrow> string \<Rightarrow> evidence_object \<Rightarrow> run_db \<Rightarrow> (run_error, run_db) result" where
  "upsert_object now_text rid obj db =
     (if \<exists>x \<in> set (rd_objects db). object_at rid (eo_logical_path obj) x
      then update_objects (object_at rid (eo_logical_path obj)) (upd_object now_text obj) db
      else if \<exists>x \<in> set (rd_objects db). eo_id x = eo_id obj then Inl R_Integrity
      else Inr (db\<lparr>rd_objects := rd_objects db @ [obj\<lparr>eo_run := rid, eo_invalidated_at := None,
             eo_created_at := now_text, eo_updated_at := now_text\<rparr>]\<rparr>))"

text \<open>The loop of \<open>upsert_evidence_objects\<close>; \<open>finalized\<close> is read once, before it.\<close>

fun upsert_loop :: "string \<Rightarrow> string \<Rightarrow> bool \<Rightarrow> evidence_object list \<Rightarrow> run_db \<Rightarrow> (run_error, run_db) result" where
  "upsert_loop now_text rid finalized [] db = Inr db"
| "upsert_loop now_text rid finalized (obj # objs) db =
     (let existing = fetchone (object_at rid (eo_logical_path obj)) (rd_objects db) in
      if finalized \<and> (case existing of None \<Rightarrow> True | Some x \<Rightarrow> eo_checked_at x = None)
      then Inl (R_Value ''object set is immutable'')
      else if (case existing of None \<Rightarrow> False
               | Some x \<Rightarrow> eo_checked_at x \<noteq> None \<and> object_values x \<noteq> object_values obj)
      then Inl (R_Value ''object is immutable'')
      else bind_res (upsert_object now_text rid obj db) (upsert_loop now_text rid finalized objs))"

definition list_evidence_objects :: "string \<Rightarrow> string option \<Rightarrow> run_db \<Rightarrow> evidence_object list" where
  "list_evidence_objects rid category db =
     (case category of
        None \<Rightarrow> sort_key (\<lambda>x. (eo_category x, eo_logical_path x)) (filter (\<lambda>x. eo_run x = rid) (rd_objects db))
      | Some c \<Rightarrow> sort_key eo_logical_path (filter (\<lambda>x. eo_run x = rid \<and> eo_category x = c) (rd_objects db)))"

definition upsert_evidence_objects ::
    "datetime \<Rightarrow> string \<Rightarrow> evidence_object list \<Rightarrow> run_db \<Rightarrow> (run_error, evidence_object list) result \<times> run_db" where
  "upsert_evidence_objects now rid objects db =
     then_read (\<lambda>db. Inr (list_evidence_objects rid None db)) (commit (\<lambda>db.
       bind_res (get_evidence_seal rid db) (\<lambda>seal.
         if seal_status seal \<noteq> SEAL_OPEN then Inl (R_Value ''writes are forbidden after seal preparation'')
         else bind_res (upsert_loop (isoformat now) rid
                (\<exists>x \<in> set (rd_objects db). eo_run x = rid \<and> eo_set_digest x \<noteq> None) objects db)
              (\<lambda>db'. Inr ((), db')))) db)"

definition dict_fromkeys :: "string list \<Rightarrow> string list" where
  \<comment> \<open>\<open>tuple(dict.fromkeys(p for p in paths if p))\<close>\<close>
  "dict_fromkeys paths = rev (remdups (rev (filter (\<lambda>p. p \<noteq> []) paths)))"

text \<open>The identity of one object in the set digest, and the text that is hashed: \<open>json.dumps\<close> escapes every
  character outside the printable ASCII ones.\<close>

definition digest_entry :: "evidence_object \<Rightarrow> json" where
  "digest_entry x = JObj
     [(''object_id'', JStr (eo_id x)), (''logical_path'', JStr (eo_logical_path x)),
      (''sha256'', jopt JStr (eo_sha256 x)), (''size_bytes'', jopt JInt (eo_size_bytes x)),
      (''workspace_revision'', jopt JInt (eo_workspace_revision x)),
      (''workspace_digest'', jopt JStr (eo_workspace_digest x)),
      (''source_revision'', jopt JStr (eo_source_revision x)),
      (''platform_snapshot_ref'', jopt JStr (eo_snapshot_ref x))]"

definition ascii_escape :: "char \<Rightarrow> string" where
  "ascii_escape c =
     (let n = of_char c :: nat in
      if n < 127 then [c]
      else [char_of (92::nat), CHR ''u'', CHR ''0'', CHR ''0'', hex_digit (n div 16), hex_digit (n mod 16)])"

definition dumps_ascii :: "json \<Rightarrow> string" where
  "dumps_ascii v = concat (map ascii_escape (dumps v))"

definition object_set_digest :: "(string \<Rightarrow> string) \<Rightarrow> evidence_object list \<Rightarrow> string" where
  "object_set_digest sha rows = sha (dumps_ascii (JArr (map digest_entry rows)))"

definition named_objects :: "string \<Rightarrow> string list \<Rightarrow> evidence_object \<Rightarrow> bool" where
  "named_objects rid paths x \<longleftrightarrow> eo_run x = rid \<and> eo_logical_path x \<in> set paths"

definition mark_integrity_tx :: "(string \<Rightarrow> string) \<Rightarrow> string \<Rightarrow> string \<Rightarrow> string list \<Rightarrow> string run_tx" where
  "mark_integrity_tx sha now_text rid paths db =
     (let rows = sort_key eo_logical_path (filter (named_objects rid paths) (rd_objects db));
          digest = object_set_digest sha rows;
          prior = filter (\<lambda>d. d \<noteq> []) (List.map_filter eo_set_digest rows);
          persisted = remdups (List.map_filter eo_checked_at rows)
      in if length rows \<noteq> length paths then Inl (R_Value ''unknown objects'')
         else if \<exists>x \<in> set rows. eo_invalidated_at x \<noteq> None then Inl (R_Value ''invalidated'')
         else if prior \<noteq> [] \<and> set prior \<noteq> {digest} then Inl (R_Value ''set digest changed'')
         else if 1 < length persisted then Inl (R_Value ''timestamps are inconsistent'')
         else
           let checked = (case persisted of [] \<Rightarrow> now_text | t # _ \<Rightarrow> t) in
           bind_res (update_objects (named_objects rid paths)
             (\<lambda>x. x\<lparr>eo_checked_at := coalesce (eo_checked_at x) (Some checked)\<rparr>) db) (\<lambda>db'.
           bind_res (update_objects (named_objects rid paths) (\<lambda>x. x\<lparr>eo_set_digest := Some digest\<rparr>) db') (\<lambda>db2.
           Inr (digest, db2))))"

definition mark_evidence_integrity_checked ::
    "(string \<Rightarrow> string) \<Rightarrow> datetime \<Rightarrow> string \<Rightarrow> string list \<Rightarrow> string option \<Rightarrow> run_db \<Rightarrow> (run_error, string) result \<times> run_db" where
  "mark_evidence_integrity_checked sha now rid logical_paths checked_at db =
     (let paths = dict_fromkeys logical_paths;
          now_text = (case checked_at of Some t \<Rightarrow> if t = [] then isoformat now else t | None \<Rightarrow> isoformat now)
      in if paths = [] then (Inl (R_Value ''requires objects''), db)
         else commit (mark_integrity_tx sha now_text rid paths) db)"

definition revoke_evidence_integrity ::
    "datetime \<Rightarrow> string \<Rightarrow> string list \<Rightarrow> run_db \<Rightarrow> (run_error, unit) result \<times> run_db" where
  "revoke_evidence_integrity now rid logical_paths db =
     (let paths = dict_fromkeys logical_paths in
      if paths = [] then (Inr (), db)
      else commit (\<lambda>db. bind_res (update_objects (named_objects rid paths)
             (\<lambda>x. x\<lparr>eo_checked_at := None, eo_set_digest := None, eo_invalidated_at := Some (isoformat now)\<rparr>) db)
             (\<lambda>db'. Inr ((), db'))) db)"

end
