(* ===== verification/RunSafety.thy ===== *)
theory RunSafety
  imports RunStore CollectionStore SealStore "HOL-Library.Sublist"
begin

text \<open>
  What the Run store keeps of its tables. \<open>run_row_step\<close> has one rule per \<open>UPDATE runs\<close> statement,
  \<open>run_step\<close> one per operation that changes state; every operation is a run of statements, so what holds
  along the rows' steps holds along every history of the store.
\<close>

section \<open>Row steps\<close>

text \<open>
  \<open>update_state\<close> and \<open>apply_snapshot\<close> are called with every state but VALIDATED: \<open>services/\<close>, \<open>worker/\<close> and
  \<open>core/run_service.py\<close> pass SUBMIT_FAILED, SUBMISSION_UNCERTAIN, CANCELLED, UNKNOWN and SUBMITTING, and a
  snapshot's state is one that a Slurm reading has (\<open>slurm_run_states\<close>) or SUBMITTED.
\<close>

inductive run_row_step :: "run_row \<Rightarrow> run_row \<Rightarrow> bool" where
  rs_refresh: "run_row_step r (upd_record (\<lambda>c. c\<lparr>rc_collection := x, rc_updated_at := t\<rparr>) r)"
| rs_claim: "submission_claimable (rn_id r) tok r \<Longrightarrow> opt_ok (\<lambda>t. 0 < t) tok \<Longrightarrow>
    run_row_step r (upd_claim_submission now ow tok r)"
| rs_receipt: "receipt_where (rn_id r) (Some ow) tok r \<Longrightarrow> run_row_step r (upd_receipt now rcpt r)"
| rs_state: "s \<noteq> RS_VALIDATED \<Longrightarrow> run_row_step r (set_run_state now s r)"
| rs_snapshot: "js_run_state snap \<noteq> RS_VALIDATED \<Longrightarrow> run_row_step r (upd_snapshot now snap r)"
| rs_orphan: "run_row_step r (upd_orphan now r)"
| rs_capsule_state: "rc_capsule_key (rn_record r) = None \<Longrightarrow>
    run_row_step r (upd_record (\<lambda>c. c\<lparr>rc_capsule := cs, rc_updated_at := t\<rparr>) r)"
| rs_capsule_reuse: "ready_capsule (rn_id r) k tok r \<Longrightarrow>
    run_row_step r (upd_record (\<lambda>c. c\<lparr>rc_capsule_token := tok + 1, rc_updated_at := t\<rparr>) r)"
| rs_capsule_build: "buildable_capsule (rn_id r) k tok r \<Longrightarrow>
    run_row_step r (upd_record (\<lambda>c. c\<lparr>rc_capsule := CAP_RUNNING, rc_capsule_key := Some k,
      rc_capsule_token := tok + 1, rc_updated_at := t\<rparr>) r)"
| rs_capsule_finish: "building_capsule (rn_id r) k tok r \<Longrightarrow>
    run_row_step r (upd_record (\<lambda>c. c\<lparr>rc_capsule := cs, rc_updated_at := t\<rparr>) r)"
| rs_seal_begin: "sealable (rn_id r) t r \<Longrightarrow> run_row_step r (upd_begin_seal t ow ex r)"
| rs_seal_renew: "seal_held t (rn_id r) ow tok r \<Longrightarrow> run_row_step r (upd_seal t (\<lambda>s. s\<lparr>seal_expires := ex\<rparr>) r)"
| rs_seal_complete: "seal_held t (rn_id r) ow tok r \<Longrightarrow> run_row_step r (upd_complete_seal t dg mk r)"
| rs_seal_invalidate: "seal_held t (rn_id r) ow tok r \<Longrightarrow> run_row_step r (upd_invalidate_seal t reason r)"

lemmas run_upd_defs = Let_def upd_record_def upd_claim_submission_def upd_receipt_def set_run_state_def upd_snapshot_def
  upd_orphan_def touch_def upd_seal_def upd_begin_seal_def upd_complete_seal_def upd_invalidate_seal_def

lemma run_row_step_spec: "run_row_step r r' \<Longrightarrow> rn_spec r' = rn_spec r"
  by (induction rule: run_row_step.induct) (auto simp: run_upd_defs split: option.splits)

text \<open>A fresh row: what \<open>create_run\<close> inserts, with the attempt number that its parent gives.\<close>

definition fresh_run :: "run_row \<Rightarrow> bool" where
  "fresh_run r \<longleftrightarrow> (\<exists>spec. r = new_run_row spec)"

definition run_inv :: "run_row \<Rightarrow> bool" where
  "run_inv r \<longleftrightarrow> 0 \<le> rn_sub_token r \<and> (rc_state (rn_record r) = RS_VALIDATED \<longrightarrow> rn_sub_token r = 0) \<and>
     0 \<le> rc_capsule_token (rn_record r) \<and> 0 \<le> seal_token (rn_seal r) \<and>
     (seal_status (rn_seal r) = SEAL_OPEN \<longrightarrow> seal_token (rn_seal r) = 0 \<and> seal_digest (rn_seal r) = None)"

lemma fresh_run_inv: "fresh_run r \<Longrightarrow> run_inv r"
  by (auto simp: fresh_run_def run_inv_def new_run_row_def open_seal_def)

lemma run_row_step_inv: "run_row_step r r' \<Longrightarrow> run_inv r \<Longrightarrow> run_inv r'"
proof (induction rule: run_row_step.induct)
  case (rs_claim r tok now ow)
  then show ?case
    by (auto simp: run_inv_def run_upd_defs submission_claimable_def split: option.splits)
next
  case (rs_seal_begin r t ow ex)
  then show ?case by (auto simp: run_inv_def run_upd_defs sealable_def)
qed (auto simp: run_inv_def run_upd_defs ready_capsule_def buildable_capsule_def seal_held_def)

text \<open>One statement on the table of Runs. A new Run's attempt number and owner fit its parent's.\<close>

definition lineage_link :: "run_spec \<Rightarrow> run_row list \<Rightarrow> bool" where
  "lineage_link spec s \<longleftrightarrow>
     (case spec_parent spec of
        None \<Rightarrow> spec_attempt spec = 0
      | Some p \<Rightarrow> \<exists>q \<in> set s. rn_id q = p \<and> spec_owner (rn_spec q) = spec_owner spec \<and>
          spec_attempt spec = spec_attempt (rn_spec q) + 1)"

inductive run_stmt :: "run_row list \<Rightarrow> run_row list \<Rightarrow> bool" where
  rt_insert: "fresh_run r \<Longrightarrow> rn_id r \<notin> rn_id ` set s \<Longrightarrow> lineage_link (rn_spec r) s \<Longrightarrow> run_stmt s (s @ [r])"
| rt_update: "r \<in> set s \<Longrightarrow> run_row_step r r' \<Longrightarrow> run_stmt s (put_row rn_id r' s)"

abbreviation run_stmts :: "run_row list \<Rightarrow> run_row list \<Rightarrow> bool" where
  "run_stmts \<equiv> run_stmt\<^sup>*\<^sup>*"

interpretation runs: row_machine rn_id fresh_run run_inv run_row_step run_stmt
proof (unfold_locales, goal_cases)
  case (1 r r')
  then show ?case by (simp add: run_row_step_spec)
next
  case (2 r)
  then show ?case by (rule fresh_run_inv)
next
  case (3 r r')
  then show ?case by (simp add: run_row_step_inv)
next
  case (4 s t)
  from 4(2) show ?case by (cases rule: run_stmt.cases) auto
qed

definition runs_ok :: "run_db \<Rightarrow> bool" where
  "runs_ok db \<longleftrightarrow> table_ok rn_id run_inv (rd_runs db)"

lemma runs_okD: "runs_ok db \<Longrightarrow> keyed rn_id (rd_runs db)"
  by (simp add: runs_ok_def table_okD)

text \<open>An update whose condition pins the Run is no statement or one.\<close>

lemma run_update_stmts:
  assumes "keyed rn_id s" and "\<And>x. p x \<Longrightarrow> rn_id x = rid"
    and "\<And>x. x \<in> set s \<Longrightarrow> p x \<Longrightarrow> run_row_step x (f x)"
  shows "run_stmts s (sql_update p f s)"
proof (cases "fetchone p s")
  case None
  then show ?thesis by (simp add: fetchone_None sql_update_none)
next
  case (Some r)
  then have r: "r \<in> set s" "p r" using fetchone_Some by fastforce+
  with assms(3) have step: "run_row_step r (f r)" by simp
  then have "rn_id (f r) = rn_id r" by (simp add: run_row_step_spec)
  with sql_update_fetched [OF assms(1,2) Some] have "sql_update p f s = put_row rn_id (f r) s" by simp
  with rt_update [OF r(1) step] show ?thesis by auto
qed

lemma refresh_stmts: "keyed rn_id (rd_runs db) \<Longrightarrow> run_stmts (rd_runs db) (rd_runs (refresh_collection_state now rid db))"
  unfolding refresh_collection_state_def
  by (simp, rule run_update_stmts [where rid = rid]) (auto intro: rs_refresh)

section \<open>Operations as runs of statements\<close>

text \<open>What an operation does to the Runs and their events: statements on the one, an extension of the other.\<close>

definition run_effect :: "run_db \<Rightarrow> run_db \<Rightarrow> bool" where
  "run_effect db db' \<longleftrightarrow> run_stmts (rd_runs db) (rd_runs db') \<and> prefix (rd_events db) (rd_events db')"

lemma run_effect_refl [simp, intro]: "run_effect db db"
  by (simp add: run_effect_def)

lemma run_effect_trans [trans]: "run_effect a b \<Longrightarrow> run_effect b c \<Longrightarrow> run_effect a c"
  by (auto simp: run_effect_def intro: rtranclp_trans prefix_order.trans)

lemma run_effect_ok: "run_effect db db' \<Longrightarrow> runs_ok db \<Longrightarrow> runs_ok db'"
  unfolding run_effect_def runs_ok_def by (blast intro: runs.run_ok)

text \<open>The parts of a transaction.\<close>

lemma effect_update:
  assumes "runs_ok db" and "\<And>x. p x \<Longrightarrow> rn_id x = rid"
    and "\<And>x. x \<in> set (rd_runs db) \<Longrightarrow> p x \<Longrightarrow> run_row_step x (f x)"
  shows "run_effect db (db\<lparr>rd_runs := sql_update p f (rd_runs db)\<rparr>)"
  using run_update_stmts [OF runs_okD [OF assms(1)] assms(2,3)] by (simp add: run_effect_def)

lemma effect_event: "append_event_tx redact now rid ty pl db = Inr (x, db') \<Longrightarrow> run_effect db db'"
  by (auto simp: append_event_Inr run_effect_def)

lemma effect_refresh: "runs_ok db \<Longrightarrow> run_effect db (refresh_collection_state now rid db)"
  using refresh_stmts [OF runs_okD] by (simp add: run_effect_def refresh_collection_state_def)

lemma effect_other:
  "rd_runs db' = rd_runs db \<Longrightarrow> rd_events db' = rd_events db \<Longrightarrow> run_effect db db'"
  by (simp add: run_effect_def)

lemma ensure_task_runs [simp]:
  "rd_runs (ensure_task now rid ty db) = rd_runs db" "rd_events (ensure_task now rid ty db) = rd_events db"
  "rd_objects (ensure_task now rid ty db) = rd_objects db"
  by (simp_all add: ensure_task_def)

lemma snapshot_tasks_runs [simp]:
  "rd_runs (snapshot_tasks now rid s db) = rd_runs db" "rd_events (snapshot_tasks now rid s db) = rd_events db"
  "rd_objects (snapshot_tasks now rid s db) = rd_objects db"
  by (simp_all add: snapshot_tasks_def reactivate_succeeded_task_def Let_def)

text \<open>Update, then event: the shape of most operations.\<close>

lemma effect_update_event:
  assumes "append_event_tx redact now rid ty pl (db\<lparr>rd_runs := sql_update p f (rd_runs db)\<rparr>) = Inr (x, db')"
    and "runs_ok db" and "\<And>x. p x \<Longrightarrow> rn_id x = rid" and "\<And>x. p x \<Longrightarrow> run_row_step x (f x)"
  shows "run_effect db db'"
  using effect_update [OF assms(2,3)] assms(4) effect_event [OF assms(1)] by (blast intro: run_effect_trans)

lemma create_effect:
  assumes "create_run_tx redact repr_of now a db = Inr (x, db')"
  shows "run_effect db db'"
proof -
  from assms obtain attempt where new: "\<not> run_exists (spec_run_id a) db"
    and at: "child_attempt a db = Inr attempt"
    and ev: "append_event_tx redact now (spec_run_id a) ''run.created''
       (JObj [(''parent_run_id'', jopt JStr (spec_parent a)),
              (''lineage_reason'', jopt JStr (spec_lineage_reason a)),
              (''remediation_plan_id'', jopt JStr (spec_plan_id a)),
              (''attempt'', JInt attempt),
              (''retry_not_before'', jopt JStr (spec_retry_not_before a))])
       (db\<lparr>rd_runs := rd_runs db @ [new_run_row (stored_spec now attempt a)]\<rparr>) = Inr (x, db')"
    by (auto simp: create_run_tx_def bind_res_Inr_iff split: if_splits)
  have "run_stmt (rd_runs db) (rd_runs db @ [new_run_row (stored_spec now attempt a)])"
  proof (rule rt_insert)
    show "fresh_run (new_run_row (stored_spec now attempt a))" by (auto simp: fresh_run_def)
    show "rn_id (new_run_row (stored_spec now attempt a)) \<notin> rn_id ` set (rd_runs db)"
      using new by (auto simp: new_run_row_def stored_spec_def)
    show "lineage_link (rn_spec (new_run_row (stored_spec now attempt a))) (rd_runs db)"
      using at by (auto simp: child_attempt_def lineage_link_def new_run_row_def stored_spec_def
          split: option.splits dest!: fetchone_Some)
  qed
  then have "run_effect db (db\<lparr>rd_runs := rd_runs db @ [new_run_row (stored_spec now attempt a)]\<rparr>)"
    by (auto simp: run_effect_def)
  then show ?thesis using effect_event [OF ev] by (rule run_effect_trans)
qed

lemma claim_effect:
  assumes "claim_submission_tx redact now rid ow tok db = Inr (x, db')" and "runs_ok db"
    and tok: "opt_ok (\<lambda>t. 0 < t) tok"
  shows "run_effect db db'"
proof -
  have u: "run_effect db (db\<lparr>rd_runs := sql_update (submission_claimable rid tok) (upd_claim_submission now ow tok) (rd_runs db)\<rparr>)"
    using assms(2) by (rule effect_update [where rid = rid])
      (auto simp: submission_claimable_def intro!: rs_claim tok)
  from assms(1) show ?thesis
    by (auto simp: claim_submission_tx_def Let_def bind_res_Inr_iff u split: if_splits
        intro: run_effect_trans [OF u effect_event])
qed

lemma receipt_effect:
  assumes "apply_submit_receipt_tx redact now rid rcpt (Some ow) tok db = Inr (x, db')" and "runs_ok db"
  shows "run_effect db db'"
proof -
  from assms(1) obtain y t where ev: "append_event_tx redact now rid ''run.submitted''
          (JObj [(''job_id'', JStr (rcp_job_id rcpt)), (''strategy'', JStr (strategy_value (rcp_strategy rcpt))),
                 (''raw_response'', rcp_raw rcpt), (''lease_owner'', jopt JStr (Some ow)),
                 (''fencing_token'', jopt JInt tok)])
          (db\<lparr>rd_runs := sql_update (receipt_where rid (Some ow) tok) (upd_receipt now rcpt) (rd_runs db)\<rparr>) = Inr (y, t)"
    and db': "db' = ensure_task now rid ''runtime_status'' (ensure_task now rid ''submission_snapshot'' t)"
    by (auto simp: apply_submit_receipt_tx_def Let_def bind_res_Inr_iff split: if_splits)
  from ev assms(2) have "run_effect db t"
    by (rule effect_update_event) (auto simp: receipt_where_def intro!: rs_receipt [where ow = ow and tok = tok])
  moreover have "run_effect t db'" using db' by (intro effect_other) simp_all
  ultimately show ?thesis by (rule run_effect_trans)
qed

lemma fail_effect:
  assumes "fail_submission_tx redact now rid s ty ow tok reason db = Inr (x, db')" and "runs_ok db" and "s \<noteq> RS_VALIDATED"
  shows "run_effect db db'"
  using assms(1) unfolding fail_submission_tx_def Let_def
  by (simp split: if_splits, elim effect_update_event [OF _ assms(2)])
    (auto simp: submission_held_def assms(3) intro: rs_state)

lemma snapshot_effect:
  assumes "apply_snapshot_tx redact now rid snap db = Inr (x, db')" and "runs_ok db" and "js_run_state snap \<noteq> RS_VALIDATED"
  shows "run_effect db db'"
proof -
  from assms(1) obtain y t where ev: "append_event_tx redact now rid ''run.snapshot''
       (JObj [(''job_id'', JStr (js_job_id snap)), (''state'', JStr (run_state_value (js_run_state snap))),
              (''raw_state_flags'', jstrs (js_flags snap)), (''exit_code'', jopt JStr (js_exit_code snap)),
              (''reason'', jopt JStr (js_reason snap))])
       (db\<lparr>rd_runs := sql_update (\<lambda>r. rn_id r = rid) (upd_snapshot now snap) (rd_runs db)\<rparr>) = Inr (y, t)"
    and db': "db' = refresh_collection_state now rid (snapshot_tasks now rid (js_run_state snap) t)"
    by (auto simp: apply_snapshot_tx_def bind_res_Inr_iff)
  from ev assms(2) have t: "run_effect db t"
    by (rule effect_update_event) (auto simp: assms(3) intro: rs_snapshot)
  also have "run_effect t (snapshot_tasks now rid (js_run_state snap) t)" by (rule effect_other) simp_all
  finally have "run_effect db (snapshot_tasks now rid (js_run_state snap) t)" .
  moreover from this have "runs_ok (snapshot_tasks now rid (js_run_state snap) t)" using assms(2) by (rule run_effect_ok)
  ultimately show ?thesis unfolding db' by (blast intro: run_effect_trans effect_refresh)
qed

lemma update_state_effect:
  assumes "update_state_tx redact now rid s ty reason db = Inr (x, db')" and "runs_ok db" and "s \<noteq> RS_VALIDATED"
  shows "run_effect db db'"
  using assms(1) unfolding update_state_tx_def
  by (rule effect_update_event [OF _ assms(2)]) (auto simp: assms(3) intro: rs_state)

lemma orphan_effect:
  assumes "mark_backend_orphaned_tx redact now rid b j db = Inr (x, db')" and "runs_ok db"
  shows "run_effect db db'"
  using assms(1) unfolding mark_backend_orphaned_tx_def
  by (simp split: if_splits, elim effect_update_event [OF _ assms(2)]) (auto intro: rs_orphan)

lemma capsule_state_effect:
  assumes "update_capsule_state_tx redact now rid s ty pl db = Inr (x, db')" and "runs_ok db"
  shows "run_effect db db'"
  using assms(1) unfolding update_capsule_state_tx_def Let_def
  by (simp split: if_splits, elim effect_update_event [OF _ assms(2)]) (auto intro: rs_capsule_state)

lemma reuse_capsule_effect:
  assumes "reuse_capsule_tx redact now rid k cur db = Inr (x, db')" and "runs_ok db"
  shows "run_effect db db'"
proof -
  from assms(1) obtain y where ev: "append_event_tx redact now rid ''capsule.reuse_claimed''
          (JObj (capsule_payload CAP_READY k (rc_capsule_token cur + 1)))
          (db\<lparr>rd_runs := sql_update (ready_capsule rid k (rc_capsule_token cur))
             (upd_record (\<lambda>c. c\<lparr>rc_capsule_token := rc_capsule_token cur + 1, rc_updated_at := isoformat now\<rparr>)) (rd_runs db)\<rparr>)
        = Inr (y, db')"
    by (auto simp: reuse_capsule_tx_def Let_def bind_res_Inr_iff split: if_splits)
  then show ?thesis using assms(2)
    by (rule effect_update_event) (auto simp: ready_capsule_def intro!: rs_capsule_reuse)
qed

lemma build_capsule_effect:
  assumes "build_capsule_tx redact now rid k cur db = Inr (x, db')" and "runs_ok db"
  shows "run_effect db db'"
proof -
  from assms(1) obtain y where ev: "append_event_tx redact now rid ''capsule.running''
          (JObj (capsule_payload CAP_RUNNING k (rc_capsule_token cur + 1)))
          (db\<lparr>rd_runs := sql_update (buildable_capsule rid k (rc_capsule_token cur))
             (upd_record (\<lambda>c. c\<lparr>rc_capsule := CAP_RUNNING, rc_capsule_key := Some k,
                rc_capsule_token := rc_capsule_token cur + 1, rc_updated_at := isoformat now\<rparr>)) (rd_runs db)\<rparr>)
        = Inr (y, db')"
    by (auto simp: build_capsule_tx_def Let_def bind_res_Inr_iff split: if_splits)
  then show ?thesis using assms(2)
    by (rule effect_update_event) (auto simp: buildable_capsule_def intro!: rs_capsule_build)
qed

lemma finish_capsule_effect:
  assumes "finish_capsule_build_tx redact now rid k tok s ty pl db = Inr (x, db')" and "runs_ok db"
  shows "run_effect db db'"
  using assms(1) unfolding finish_capsule_build_tx_def Let_def
  by (simp split: if_splits sum.splits, elim disjE conjE effect_update_event [OF _ assms(2)])
    (auto simp: building_capsule_def intro!: rs_capsule_finish)

text \<open>Operations on collection tasks.\<close>

lemma task_event_effect:
  assumes "task_event_tx redact now ty es t db = Inr (x, db')" and "runs_ok db"
  shows "run_effect db db'"
proof -
  from assms(1) obtain y db1 where ev: "append_event_tx redact now (ct_run t) ty (JObj es) db = Inr (y, db1)"
    and db': "db' = refresh_collection_state now (ct_run t) db1"
    by (auto simp: task_event_tx_def bind_res_Inr_iff)
  have e: "run_effect db db1" by (rule effect_event [OF ev])
  with assms(2) have "runs_ok db1" by (blast intro: run_effect_ok)
  with e show ?thesis unfolding db' by (blast intro: run_effect_trans effect_refresh)
qed

lemma effect_tasks: "run_effect db (db\<lparr>rd_tasks := ts\<rparr>)"
  by (rule effect_other) simp_all

lemma runs_ok_tasks [simp]: "runs_ok (db\<lparr>rd_tasks := ts\<rparr>) = runs_ok db"
  by (simp add: runs_ok_def)

lemma effect_tasks_event:
  assumes "task_event_tx redact now ty es t (db\<lparr>rd_tasks := ts\<rparr>) = Inr (x, db')" and "runs_ok db"
  shows "run_effect db db'"
  using effect_tasks task_event_effect [OF assms(1)] assms(2) by (auto intro: run_effect_trans)

lemma claim_task_effect:
  assumes "claim_collection_task_tx redact now tid ow tok gen ex db = Inr (x, db')" and "runs_ok db"
  shows "run_effect db db'"
  using assms(1) unfolding claim_collection_task_tx_def Let_def
  by (auto simp: bind_res_Inr_iff effect_tasks split: if_splits elim: effect_tasks_event [OF _ assms(2)])

lemma acquire_rows_effect:
  "acquire_rows redact now ow ex rows db = Inr (ts, db') \<Longrightarrow> runs_ok db \<Longrightarrow> run_effect db db'"
proof (induction redact now ow ex rows db arbitrary: ts db' rule: acquire_rows.induct)
  case (1 redact now ow ex db)
  then show ?case by simp
next
  case (2 redact now ow ex row rows db)
  let ?p = "\<lambda>t. ct_id t = ct_id row \<and> takeable (isoformat now) t"
  let ?db = "db\<lparr>rd_tasks := sql_update ?p (upd_task_acquire (isoformat now) ow (Some ex)) (rd_tasks db)\<rparr>"
  have first: "run_effect db ?db" by (rule effect_tasks)
  have ok: "runs_ok ?db" using "2.prems"(2) by simp
  show ?case
  proof (cases "rowcount ?p (rd_tasks db) = 1")
    case False
    then have "acquire_rows redact now ow ex rows ?db = Inr (ts, db')"
      using "2.prems"(1) by (simp add: Let_def)
    with "2.IH"(1) [OF refl refl _ _ ok] False first show ?thesis by (blast intro: run_effect_trans)
  next
    case True
    with "2.prems"(1) obtain t db2 y ts' where
      g: "get_collection_task (ct_id row) ?db = Inr t" and
      ev: "task_event_tx redact now ''collection.task_acquired'' (acquired_fields ow ex (ct_token t) (ct_generation t) t) t ?db = Inr (y, db2)" and
      rest: "acquire_rows redact now ow ex rows db2 = Inr (ts', db')"
      by (auto simp: Let_def bind_res_Inr_iff)
    have e2: "run_effect ?db db2" using ev ok by (rule task_event_effect)
    with ok have "runs_ok db2" by (blast intro: run_effect_ok)
    with "2.IH"(2) [OF refl refl] True g ev rest have "run_effect db2 db'" by auto
    with first e2 show ?thesis by (blast intro: run_effect_trans)
  qed
qed

lemma settle_effect:
  assumes "settle_tx redact now tid ow tok f ty es db = Inr (x, db')" and "runs_ok db"
  shows "run_effect db db'"
  using assms(1) unfolding settle_tx_def Let_def
  by (auto simp: bind_res_Inr_iff split: if_splits elim: effect_tasks_event [OF _ assms(2)])

lemma shift_effect:
  assumes "shift_logs_finalize redact now rid from st nx ty db = Inr (x, db')" and "runs_ok db"
  shows "run_effect db db'"
proof -
  let ?p = "\<lambda>t. ct_run t = rid \<and> ct_type t = ''logs_finalize'' \<and> ct_state t \<in> from"
  let ?db = "db\<lparr>rd_tasks := sql_update ?p (\<lambda>t. t\<lparr>ct_state := st, ct_next_attempt := nx, ct_updated_at := isoformat now\<rparr>) (rd_tasks db)\<rparr>"
  show ?thesis
  proof (cases "rowcount ?p (rd_tasks db) = 0")
    case True
    with assms(1) have "db' = ?db" by (simp add: shift_logs_finalize_def Let_def)
    then show ?thesis by (simp add: effect_tasks)
  next
    case False
    with assms(1) obtain y db2 where ev: "append_event_tx redact now rid ty (JObj []) ?db = Inr (y, db2)"
      and db': "db' = refresh_collection_state now rid db2"
      by (auto simp: shift_logs_finalize_def Let_def bind_res_Inr_iff)
    have "run_effect db db2" using effect_tasks effect_event [OF ev] by (blast intro: run_effect_trans)
    moreover from this assms(2) have "runs_ok db2" by (blast intro: run_effect_ok)
    ultimately show ?thesis unfolding db' by (blast intro: run_effect_trans effect_refresh)
  qed
qed

text \<open>Operations on the seal, and on evidence objects.\<close>

lemma begin_seal_effect:
  assumes "begin_evidence_seal_tx nt rid ow ex db = Inr (x, db')" and "runs_ok db"
  shows "run_effect db db'"
proof -
  have "run_effect db (db\<lparr>rd_runs := sql_update (sealable rid nt) (upd_begin_seal nt ow ex) (rd_runs db)\<rparr>)"
    using assms(2) by (rule effect_update [where rid = rid]) (auto simp: sealable_def intro!: rs_seal_begin)
  with assms(1) show ?thesis
    by (auto simp: begin_evidence_seal_tx_def split: option.splits if_splits)
qed

lemma seal_update_effect:
  assumes "runs_ok db" and "\<And>x. seal_held nt rid ow tok x \<Longrightarrow> run_row_step x (f x)"
  shows "run_effect db (db\<lparr>rd_runs := sql_update (seal_held nt rid ow tok) f (rd_runs db)\<rparr>)"
  using assms(1) by (rule effect_update [where rid = rid]) (auto simp: seal_held_def intro!: assms(2))

lemma complete_seal_effect:
  assumes "complete_evidence_seal_tx nt rid ow tok dg mk db = Inr (x, db')" and "runs_ok db"
  shows "run_effect db db'"
proof -
  have "run_effect db (db\<lparr>rd_runs := sql_update (seal_held nt rid ow tok) (upd_complete_seal nt dg mk) (rd_runs db)\<rparr>)"
    using assms(2) by (rule seal_update_effect) (auto simp: seal_held_def intro!: rs_seal_complete)
  with assms(1) show ?thesis
    by (auto simp: complete_evidence_seal_tx_def Let_def split: option.splits if_splits)
qed

lemma update_objects_Inr: "update_objects p f db = Inr db' \<longleftrightarrow>
    (\<forall>x \<in> set (rd_objects db). p x \<longrightarrow> object_guard x (f x)) \<and>
    db' = db\<lparr>rd_objects := sql_update p f (rd_objects db)\<rparr>"
  by (auto simp: update_objects_def)

lemma upsert_object_runs:
  "upsert_object nt rid obj db = Inr db' \<Longrightarrow>
     rd_runs db' = rd_runs db \<and> rd_events db' = rd_events db \<and> rd_tasks db' = rd_tasks db"
  by (auto simp: upsert_object_def update_objects_Inr split: if_splits)

lemma upsert_loop_runs:
  "upsert_loop nt rid fin objs db = Inr db' \<Longrightarrow>
     rd_runs db' = rd_runs db \<and> rd_events db' = rd_events db \<and> rd_tasks db' = rd_tasks db"
proof (induction objs arbitrary: db)
  case Nil
  then show ?case by simp
next
  case (Cons obj objs)
  then obtain db1 where "upsert_object nt rid obj db = Inr db1" "upsert_loop nt rid fin objs db1 = Inr db'"
    by (auto simp: Let_def bind_res_Inr_iff split: if_splits)
  with Cons.IH upsert_object_runs show ?case by metis
qed

lemma mark_integrity_runs:
  "mark_integrity_tx sha nt rid paths db = Inr (d, db') \<Longrightarrow>
     rd_runs db' = rd_runs db \<and> rd_events db' = rd_events db \<and> rd_tasks db' = rd_tasks db"
  by (auto simp: mark_integrity_tx_def Let_def bind_res_Inr_iff update_objects_Inr split: if_splits)

section \<open>Every operation\<close>

text \<open>
  The submission is the fenced one, as in a deployment with a control repository, and a snapshot is of a
  Run that has a job: \<open>reconcile_once\<close> and \<open>cancel\<close> look it up first.
\<close>

definition has_job :: "string \<Rightarrow> run_db \<Rightarrow> bool" where
  "has_job rid db \<longleftrightarrow> (\<exists>r \<in> set (rd_runs db). rn_id r = rid \<and> rc_job_id (rn_record r) \<noteq> None)"

inductive run_step ::
    "(json \<Rightarrow> json) \<Rightarrow> (json \<Rightarrow> string) \<Rightarrow> (string \<Rightarrow> string) \<Rightarrow> run_db \<Rightarrow> run_db \<Rightarrow> bool"
  for redact repr_of sha where
  st_create: "run_step redact repr_of sha db (snd (create_run redact repr_of now a db))"
| st_claim: "run_step redact repr_of sha db (snd (claim_submission redact now rid (Some ow) (Some tok) db))"
| st_receipt: "run_step redact repr_of sha db (snd (apply_submit_receipt redact now rid rcpt (Some ow) (Some tok) db))"
| st_fail: "run_step redact repr_of sha db (snd (fail_submission redact now rid s ty ow tok reason db))"
| st_snapshot: "has_job rid db \<Longrightarrow> js_run_state snap \<noteq> RS_VALIDATED \<Longrightarrow>
    run_step redact repr_of sha db (snd (apply_snapshot redact now rid snap db))"
| st_state: "s \<noteq> RS_VALIDATED \<Longrightarrow> run_step redact repr_of sha db (snd (update_state redact now rid s ty reason db))"
| st_orphan: "run_step redact repr_of sha db (snd (mark_backend_orphaned redact now rid b j db))"
| st_event: "run_step redact repr_of sha db (snd (append_event redact now rid ty pl db))"
| st_capsule_state: "run_step redact repr_of sha db (snd (update_capsule_state redact now rid cs ty fs db))"
| st_capsule_begin: "run_step redact repr_of sha db (snd (begin_capsule_build redact now rid k db))"
| st_capsule_finish: "run_step redact repr_of sha db (snd (finish_capsule_build redact now rid k tok cs ty fs db))"
| st_task_claim: "run_step redact repr_of sha db (snd (claim_collection_task redact now tid ow tok gen ex db))"
| st_task_acquire: "run_step redact repr_of sha db (snd (acquire_due_collection_tasks redact now ow limit secs db))"
| st_task_running: "run_step redact repr_of sha db (snd (mark_collection_task_running redact now tid ow ex' db))"
| st_task_succeeded: "run_step redact repr_of sha db (snd (mark_collection_task_succeeded redact now tid fs ow' tok' db))"
| st_task_failed: "run_step redact repr_of sha db
    (snd (mark_collection_task_failed redact now tid msg retryable ow' code auth delay tok' db))"
| st_defer: "run_step redact repr_of sha db (snd (defer_logs_finalize_for_runtime_watch redact now rid db))"
| st_release: "run_step redact repr_of sha db (snd (release_logs_finalize_after_runtime_watch redact now rid db))"
| st_seal_begin: "run_step redact repr_of sha db (snd (begin_evidence_seal now rid ow secs db))"
| st_seal_renew: "run_step redact repr_of sha db (snd (renew_evidence_seal_claim now rid ow tok secs db))"
| st_seal_complete: "run_step redact repr_of sha db (snd (complete_evidence_seal now rid ow tok dg mk db))"
| st_seal_invalidate: "run_step redact repr_of sha db (snd (invalidate_evidence_seal now rid ow tok reason' db))"
| st_upsert: "run_step redact repr_of sha db (snd (upsert_evidence_objects now rid objs db))"
| st_checked: "run_step redact repr_of sha db (snd (mark_evidence_integrity_checked sha now rid paths at_time db))"
| st_revoke: "run_step redact repr_of sha db (snd (revoke_evidence_integrity now rid paths db))"

lemma run_commit_effect: "(\<And>x t. tx db = Inr (x, t) \<Longrightarrow> run_effect db t) \<Longrightarrow> run_effect db (snd (commit tx db))"
  by (auto simp: snd_commit split: sum.splits)

lemma run_step_effect:
  assumes "run_step redact repr_of sha db db'" and ok: "runs_ok db"
  shows "run_effect db db'"
  using assms
proof (induction rule: run_step.induct)
  case (st_create db now a)
  show ?case unfolding create_run_def snd_then_read by (rule run_commit_effect, rule create_effect)
next
  case (st_claim db now rid ow tok)
  then show ?case unfolding claim_submission_def
    by (auto intro!: run_commit_effect claim_effect split: option.splits if_splits)
next
  case (st_receipt db now rid rcpt ow tok)
  then show ?case unfolding apply_submit_receipt_def by (auto intro!: run_commit_effect receipt_effect)
next
  case (st_fail db now rid s ty ow tok reason)
  then show ?case unfolding fail_submission_def
    by (auto intro!: run_commit_effect elim!: fail_effect split: option.splits if_splits)
next
  case (st_snapshot rid db snap now)
  then show ?case unfolding apply_snapshot_def by (auto intro!: run_commit_effect elim!: snapshot_effect)
next
  case (st_state s db now rid ty reason)
  then show ?case unfolding update_state_def by (auto intro!: run_commit_effect elim!: update_state_effect)
next
  case (st_orphan db now rid b j)
  then show ?case unfolding mark_backend_orphaned_def by (auto intro!: run_commit_effect elim!: orphan_effect)
next
  case (st_event db now rid ty pl)
  then show ?case unfolding append_event_def
    by (auto intro!: run_commit_effect simp: bind_res_Inr_iff elim!: effect_event)
next
  case (st_capsule_state db now rid cs ty fs)
  then show ?case unfolding update_capsule_state_def by (auto intro!: run_commit_effect elim!: capsule_state_effect)
next
  case (st_capsule_begin db now rid k)
  then show ?case unfolding begin_capsule_build_def
    by (auto intro!: run_commit_effect elim!: reuse_capsule_effect build_capsule_effect split: sum.splits if_splits)
next
  case (st_capsule_finish db now rid k tok cs ty fs)
  then show ?case unfolding finish_capsule_build_def
    by (auto intro!: run_commit_effect elim!: finish_capsule_effect split: option.splits if_splits)
next
  case (st_task_claim db now tid ow tok gen ex)
  have "run_effect db (snd (commit (claim_collection_task_tx redact now tid ow tok gen ex) db))"
    by (rule run_commit_effect, rule claim_task_effect) (use st_task_claim in auto)
  then show ?case unfolding claim_collection_task_def
    by (auto split: option.splits sum.splits prod.splits bool.splits if_splits)
next
  case (st_task_acquire db now ow limit secs)
  then show ?case unfolding acquire_due_collection_tasks_def
    by (auto intro!: run_commit_effect elim!: acquire_rows_effect split: option.splits)
next
  case (st_task_running db now tid ow ex')
  then show ?case unfolding mark_collection_task_running_def
    by (auto intro!: run_commit_effect simp: Let_def bind_res_Inr_iff elim!: effect_tasks_event)
next
  case (st_task_succeeded db now tid fs ow' tok')
  then show ?case unfolding mark_collection_task_succeeded_def by (auto intro!: run_commit_effect elim!: settle_effect)
next
  case (st_task_failed db now tid msg retryable ow' code auth delay tok')
  then show ?case unfolding mark_collection_task_failed_def
    by (auto intro!: run_commit_effect elim!: settle_effect split: option.splits)
next
  case (st_defer db now rid)
  then show ?case unfolding defer_logs_finalize_for_runtime_watch_def by (auto intro!: run_commit_effect elim!: shift_effect)
next
  case (st_release db now rid)
  then show ?case unfolding release_logs_finalize_after_runtime_watch_def by (auto intro!: run_commit_effect elim!: shift_effect)
next
  case (st_seal_begin db now rid ow secs)
  then show ?case unfolding begin_evidence_seal_def
    by (auto intro!: run_commit_effect elim!: begin_seal_effect split: option.splits)
next
  case (st_seal_renew db now rid ow tok secs)
  then show ?case unfolding renew_evidence_seal_claim_def
    by (auto intro!: run_commit_effect simp: Let_def split: option.splits if_splits)
      (auto intro!: seal_update_effect simp: seal_held_def intro: rs_seal_renew)
next
  case (st_seal_complete db now rid ow tok dg mk)
  then show ?case unfolding complete_evidence_seal_def
    by (auto intro!: run_commit_effect elim!: complete_seal_effect split: option.splits)
next
  case (st_seal_invalidate db now rid ow tok reason')
  then show ?case unfolding invalidate_evidence_seal_def
    by (auto intro!: run_commit_effect simp: Let_def split: if_splits)
      (auto intro!: seal_update_effect simp: seal_held_def intro: rs_seal_invalidate)
next
  case (st_upsert db now rid objs)
  show ?case unfolding upsert_evidence_objects_def snd_then_read
    by (rule run_commit_effect) (auto simp: bind_res_Inr_iff split: if_splits dest!: upsert_loop_runs intro!: effect_other)
next
  case (st_checked db now rid paths at_time)
  show ?case unfolding mark_evidence_integrity_checked_def Let_def
    by (auto intro!: run_commit_effect effect_other dest!: mark_integrity_runs)
next
  case (st_revoke db now rid paths)
  show ?case unfolding revoke_evidence_integrity_def Let_def
    by (auto intro!: run_commit_effect effect_other simp: bind_res_Inr_iff update_objects_Inr)
qed

lemma run_steps_effect: "(run_step redact repr_of sha)\<^sup>*\<^sup>* db db' \<Longrightarrow> runs_ok db \<Longrightarrow> run_effect db db' \<and> runs_ok db'"
  by (induction rule: rtranclp_induct) (auto intro: run_effect_trans run_step_effect run_effect_ok)

lemma runs_ok_empty [simp]: "runs_ok empty_run_db"
  by (simp add: runs_ok_def empty_run_db_def)

definition reachable_runs :: "(json \<Rightarrow> json) \<Rightarrow> (json \<Rightarrow> string) \<Rightarrow> (string \<Rightarrow> string) \<Rightarrow> run_db \<Rightarrow> bool" where
  "reachable_runs redact repr_of sha db \<longleftrightarrow> (run_step redact repr_of sha)\<^sup>*\<^sup>* empty_run_db db"

lemma reachable_runs_ok: "reachable_runs redact repr_of sha db \<Longrightarrow> runs_ok db"
  unfolding reachable_runs_def using run_steps_effect runs_ok_empty by blast

section \<open>Histories of a Run\<close>

text \<open>What stays, along every history, of what a Run's row has said.\<close>

definition record_extends :: "run_record \<Rightarrow> run_record \<Rightarrow> bool" where
  "record_extends c c' \<longleftrightarrow> rc_spec c' = rc_spec c \<and>
     (rc_state c \<noteq> RS_VALIDATED \<longrightarrow> rc_state c' \<noteq> RS_VALIDATED) \<and>
     (rc_job_id c \<noteq> None \<longrightarrow> rc_job_id c' = rc_job_id c) \<and>
     rc_capsule_token c \<le> rc_capsule_token c' \<and>
     (rc_capsule_key c \<noteq> None \<longrightarrow> rc_capsule_key c' = rc_capsule_key c) \<and>
     (rc_capsule_key c \<noteq> None \<and> rc_capsule c = CAP_READY \<longrightarrow> rc_capsule c' = CAP_READY)"

definition seal_extends :: "seal_rec \<Rightarrow> seal_rec \<Rightarrow> bool" where
  "seal_extends s s' \<longleftrightarrow> seal_token s \<le> seal_token s' \<and>
     (seal_status s \<noteq> SEAL_OPEN \<longrightarrow> seal_status s' \<noteq> SEAL_OPEN) \<and>
     (seal_status s \<in> {SEAL_SEALED, SEAL_INVALID} \<longrightarrow> s' = s)"

definition run_extends :: "run_row \<Rightarrow> run_row \<Rightarrow> bool" where
  "run_extends r r' \<longleftrightarrow> record_extends (rn_record r) (rn_record r') \<and> rn_sub_token r \<le> rn_sub_token r' \<and>
     seal_extends (rn_seal r) (rn_seal r')"

lemmas extends_defs = run_extends_def record_extends_def seal_extends_def

lemma run_extends_refl: "run_extends r r"
  by (simp add: extends_defs)

lemma record_extends_trans: "record_extends a b \<Longrightarrow> record_extends b c \<Longrightarrow> record_extends a c"
  unfolding record_extends_def by (metis order_trans)

lemma seal_extends_trans: "seal_extends a b \<Longrightarrow> seal_extends b c \<Longrightarrow> seal_extends a c"
  unfolding seal_extends_def by (metis order_trans)

lemma run_extends_trans: "run_extends r x \<Longrightarrow> run_extends x y \<Longrightarrow> run_extends r y"
  unfolding run_extends_def by (blast intro: order_trans record_extends_trans seal_extends_trans)

lemma run_row_step_extends: "run_row_step r r' \<Longrightarrow> run_inv r \<Longrightarrow> run_extends r r'"
proof (induction rule: run_row_step.induct)
  case (rs_claim r tok now ow)
  then show ?case
    by (auto simp: extends_defs run_inv_def run_upd_defs submission_claimable_def split: option.splits)
next
  case (rs_receipt r ow tok now rcpt)
  then show ?case by (simp add: extends_defs run_upd_defs receipt_where_def)
qed (auto simp: extends_defs run_upd_defs ready_capsule_def buildable_capsule_def building_capsule_def
    sealable_def seal_held_def)

lemma runs_extend:
  assumes "run_stmts s t" and "table_ok rn_id run_inv s" and "row_of rn_id k s = Some r"
  shows "\<exists>r'. row_of rn_id k t = Some r' \<and> run_extends r r'"
  using assms run_extends_refl
  by (rule runs.run_rel [where R = run_extends]) (blast intro: run_extends_trans run_row_step_extends)

text \<open>Lineage: every Run's parent is in the table, with the owner and the attempt number that fit.\<close>

lemma lineage_links:
  assumes "run_stmts s t" and ok: "table_ok rn_id run_inv s"
    and "\<And>r. r \<in> set s \<Longrightarrow> lineage_link (rn_spec r) s"
  shows "r \<in> set t \<Longrightarrow> lineage_link (rn_spec r) t"
  using assms(1)
proof (induction arbitrary: r rule: rtranclp_induct)
  case base
  then show ?case by (rule assms(3))
next
  case (step t u)
  have keyed: "keyed rn_id t" using runs.run_ok [OF step.hyps(1) ok] by (rule table_okD)
  have mono: "lineage_link spec u" if "lineage_link spec t" for spec
  proof -
    have kept: "\<exists>q' \<in> set u. rn_spec q' = rn_spec q" if "q \<in> set t" for q
      using step.hyps(2)
    proof (cases rule: run_stmt.cases)
      case (rt_update x x')
      have spec: "rn_spec x' = rn_spec x" using rt_update(3) by (rule run_row_step_spec)
      show ?thesis
      proof (cases "rn_id q = rn_id x'")
        case True
        with spec have "rn_id q = rn_id x" by simp
        with keyed that rt_update(2) have "q = x" by (rule keyed_eqI)
        moreover have "x' \<in> set u" using rt_update(1,2) that True by (force simp: put_row_def)
        ultimately show ?thesis using spec by metis
      next
        case False
        then show ?thesis using rt_update(1) that by (force simp: put_row_def)
      qed
    qed (use that in auto)
    show ?thesis
    proof (cases "spec_parent spec")
      case None
      with that show ?thesis by (simp add: lineage_link_def)
    next
      case (Some p)
      with that obtain q where q: "q \<in> set t" "rn_id q = p" "spec_owner (rn_spec q) = spec_owner spec"
        "spec_attempt spec = spec_attempt (rn_spec q) + 1"
        by (auto simp: lineage_link_def)
      from kept [OF q(1)] obtain q' where "q' \<in> set u" "rn_spec q' = rn_spec q" by blast
      with q Some show ?thesis by (auto simp: lineage_link_def intro!: bexI [of _ q'])
    qed
  qed
  from step.hyps(2) show ?case
  proof (cases rule: run_stmt.cases)
    case (rt_insert x)
    then show ?thesis using step.prems step.IH mono by auto
  next
    case (rt_update x x')
    then have "r = x' \<or> r \<in> set t" using step.prems by (auto dest: set_put_row)
    then show ?thesis using step.IH mono rt_update run_row_step_spec by metis
  qed
qed

end
