(* ===== verification/RunCollect.thy ===== *)
theory RunCollect
  imports RunSafety
begin

text \<open>
  The Run's \<open>collection_state\<close> is the summary of its collection tasks in every reachable state, so a Run
  whose collection has succeeded has no task left. And what a Run's row can become.
\<close>

section \<open>Collection summaries\<close>

definition tasks_ok :: "run_db \<Rightarrow> bool" where
  "tasks_ok db \<longleftrightarrow> keyed ct_id (rd_tasks db) \<and>
     (\<forall>t \<in> set (rd_tasks db). ct_id t \<le> rd_task_seq db \<and> has_job (ct_run t) db)"

definition collected_but :: "string option \<Rightarrow> run_db \<Rightarrow> bool" where
  "collected_but but db \<longleftrightarrow> tasks_ok db \<and>
     (\<forall>r \<in> set (rd_runs db). but \<noteq> Some (rn_id r) \<longrightarrow> rc_collection (rn_record r) = collection_summary (rn_id r) (rd_tasks db))"

abbreviation collected :: "run_db \<Rightarrow> bool" where
  "collected \<equiv> collected_but None"

lemma collected_weaken: "collected db \<Longrightarrow> collected_but x db"
  by (auto simp: collected_but_def)

lemma summary_cong:
  "filter (\<lambda>t. ct_run t = rid) ts = filter (\<lambda>t. ct_run t = rid) ts' \<Longrightarrow> collection_summary rid ts = collection_summary rid ts'"
  by (simp add: collection_summary_def)

lemma summary_no_task: "(\<And>t. t \<in> set ts \<Longrightarrow> ct_run t \<noteq> rid) \<Longrightarrow> collection_summary rid ts = CS_PENDING"
  by (auto simp: collection_summary_def filter_empty_conv)

lemma tasks_ok_cong:
  "rd_tasks db' = rd_tasks db \<Longrightarrow> rd_task_seq db' = rd_task_seq db \<Longrightarrow> (\<And>rid. has_job rid db \<Longrightarrow> has_job rid db')
     \<Longrightarrow> tasks_ok db \<Longrightarrow> tasks_ok db'"
  by (auto simp: tasks_ok_def)

lemma collected_event:
  assumes "append_event_tx redact now rid ty pl db = Inr (x, db')" and "collected_but b db"
  shows "collected_but b db'"
  using assms by (auto simp: append_event_Inr collected_but_def tasks_ok_def has_job_def)

lemma bex_sql_update: "(\<exists>r \<in> set (sql_update p f rows). Q r) \<longleftrightarrow> (\<exists>r \<in> set rows. Q (if p r then f r else r))"
  by (induction rows) auto

lemma ball_sql_update: "(\<forall>r \<in> set (sql_update p f rows). Q r) \<longleftrightarrow> (\<forall>r \<in> set rows. Q (if p r then f r else r))"
  by (induction rows) auto

lemma has_job_refresh: "has_job x (refresh_collection_state now rid db) \<longleftrightarrow> has_job x db"
  unfolding has_job_def refresh_collection_state_def
  by (auto simp: bex_sql_update upd_record_def split: if_splits)

lemma collected_refresh: "collected_but (Some rid) db \<Longrightarrow> collected (refresh_collection_state now rid db)"
  unfolding collected_but_def tasks_ok_def has_job_refresh
  by (auto simp: refresh_collection_state_def set_sql_update upd_record_def)

text \<open>An update of Runs that keeps summaries and jobs.\<close>

lemma collected_update_runs:
  assumes "collected_but b db"
    and f: "\<And>x. x \<in> set (rd_runs db) \<Longrightarrow> p x \<Longrightarrow> rn_id (f x) = rn_id x \<and>
      rc_collection (rn_record (f x)) = rc_collection (rn_record x) \<and>
      (rc_job_id (rn_record x) \<noteq> None \<longrightarrow> rc_job_id (rn_record (f x)) \<noteq> None)"
  shows "collected_but b (db\<lparr>rd_runs := sql_update p f (rd_runs db)\<rparr>)"
proof -
  have jobs: "has_job rid (db\<lparr>rd_runs := sql_update p f (rd_runs db)\<rparr>)" if "has_job rid db" for rid
  proof -
    from that obtain r where r: "r \<in> set (rd_runs db)" "rn_id r = rid" "rc_job_id (rn_record r) \<noteq> None"
      by (auto simp: has_job_def)
    then have "rn_id (if p r then f r else r) = rid \<and> rc_job_id (rn_record (if p r then f r else r)) \<noteq> None"
      using f [of r] by simp
    with r(1) have "\<exists>y \<in> set (sql_update p f (rd_runs db)). rn_id y = rid \<and> rc_job_id (rn_record y) \<noteq> None"
      unfolding bex_sql_update by blast
    then show ?thesis by (simp add: has_job_def)
  qed
  have "tasks_ok (db\<lparr>rd_runs := sql_update p f (rd_runs db)\<rparr>)"
    by (rule tasks_ok_cong [of _ db, OF _ _ jobs]) (use assms(1) in \<open>simp_all add: collected_but_def\<close>)
  moreover have "rc_collection (rn_record (if p r then f r else r)) = collection_summary (rn_id (if p r then f r else r)) (rd_tasks db)"
    if "r \<in> set (rd_runs db)" "b \<noteq> Some (rn_id (if p r then f r else r))" for r
    using assms(1) f [OF that(1)] that by (auto simp: collected_but_def)
  ultimately show ?thesis
    by (simp add: collected_but_def ball_sql_update)
qed

lemma collected_update_event:
  assumes "append_event_tx redact now rid ty pl (db\<lparr>rd_runs := sql_update p f (rd_runs db)\<rparr>) = Inr (x, db')"
    and "collected_but b db"
    and "\<And>x. p x \<Longrightarrow> rn_id (f x) = rn_id x \<and> rc_collection (rn_record (f x)) = rc_collection (rn_record x) \<and>
      (rc_job_id (rn_record x) \<noteq> None \<longrightarrow> rc_job_id (rn_record (f x)) \<noteq> None)"
  shows "collected_but b db'"
  using collected_event [OF assms(1)] collected_update_runs [OF assms(2)] assms(3) by blast

text \<open>An update of one task.\<close>

lemma filter_sql_update:
  assumes "\<And>t. t \<in> set ts \<Longrightarrow> p t \<Longrightarrow> \<not> q t \<and> \<not> q (f t)"
  shows "filter q (sql_update p f ts) = filter q ts"
  using assms by (induction ts) auto

lemma collected_update_tasks:
  assumes c: "collected db" and p: "\<And>t. t \<in> set (rd_tasks db) \<Longrightarrow> p t \<Longrightarrow> ct_run t = rid"
    and f: "\<And>t. ct_id (f t) = ct_id t \<and> ct_run (f t) = ct_run t"
  shows "collected_but (Some rid) (db\<lparr>rd_tasks := sql_update p f (rd_tasks db)\<rparr>)"
proof -
  have "tasks_ok (db\<lparr>rd_tasks := sql_update p f (rd_tasks db)\<rparr>)"
    using c f by (auto simp: collected_but_def tasks_ok_def keyed_sql_update set_sql_update has_job_def)
  moreover have "collection_summary i (sql_update p f (rd_tasks db)) = collection_summary i (rd_tasks db)" if "i \<noteq> rid" for i
    using p f that by (intro summary_cong filter_sql_update) auto
  ultimately show ?thesis using c by (auto simp: collected_but_def)
qed

lemma task_of_id:
  assumes "collected db" and g: "get_collection_task tid (db\<lparr>rd_tasks := sql_update p f (rd_tasks db)\<rparr>) = Inr t"
    and p: "\<And>t. p t \<Longrightarrow> ct_id t = tid" and f: "\<And>t. ct_id (f t) = ct_id t \<and> ct_run (f t) = ct_run t"
    and "u \<in> set (rd_tasks db)" and "p u"
  shows "ct_run u = ct_run t"
proof -
  have k: "keyed ct_id (rd_tasks db)" using assms(1) by (simp add: collected_but_def tasks_ok_def)
  from g have "t \<in> set (sql_update p f (rd_tasks db))" "ct_id t = tid"
    by (auto simp: get_collection_task_def split: option.splits dest!: fetchone_Some)
  then obtain v where v: "v \<in> set (rd_tasks db)" "ct_id v = tid" "ct_run v = ct_run t"
    using f by (auto simp: set_sql_update split: if_splits)
  with k p assms(5,6) have "u = v" by (metis keyed_eqI)
  with v show ?thesis by simp
qed

lemma collected_task_event:
  assumes ev: "task_event_tx redact now ty es t (db\<lparr>rd_tasks := sql_update p f (rd_tasks db)\<rparr>) = Inr (x, db')"
    and c: "collected db" and g: "get_collection_task tid (db\<lparr>rd_tasks := sql_update p f (rd_tasks db)\<rparr>) = Inr t"
    and p: "\<And>t. p t \<Longrightarrow> ct_id t = tid" and f: "\<And>t. ct_id (f t) = ct_id t \<and> ct_run (f t) = ct_run t"
  shows "collected db'"
proof -
  from ev obtain y db1 where "append_event_tx redact now (ct_run t) ty (JObj es) (db\<lparr>rd_tasks := sql_update p f (rd_tasks db)\<rparr>) = Inr (y, db1)"
    and db': "db' = refresh_collection_state now (ct_run t) db1"
    by (auto simp: task_event_tx_def bind_res_Inr_iff)
  moreover have "collected_but (Some (ct_run t)) (db\<lparr>rd_tasks := sql_update p f (rd_tasks db)\<rparr>)"
    using c by (rule collected_update_tasks) (use task_of_id [OF c g p f] f in auto)
  ultimately show ?thesis unfolding db' by (blast intro: collected_refresh collected_event)
qed

text \<open>New tasks.\<close>

lemma keyed_insert_ignore:
  "keyed key ts \<Longrightarrow> key t \<notin> key ` set ts \<Longrightarrow> keyed key (insert_ignore clash t ts)"
  by (simp add: insert_ignore_def keyed_append)

lemma ensure_task_ok:
  assumes "tasks_ok db" and "has_job rid db"
  shows "tasks_ok (ensure_task now rid ty db)"
proof -
  have "rd_task_seq db + 1 \<notin> ct_id ` set (rd_tasks db)" using assms(1) by (force simp: tasks_ok_def)
  with assms show ?thesis
    by (auto simp: tasks_ok_def ensure_task_def new_task_row_def has_job_def insert_ignore_def keyed_append split: if_splits) 
qed

lemma ensure_task_filter:
  "i \<noteq> rid \<Longrightarrow> filter (\<lambda>t. ct_run t = i) (rd_tasks (ensure_task now rid ty db)) = filter (\<lambda>t. ct_run t = i) (rd_tasks db)"
  by (simp add: ensure_task_def insert_ignore_def new_task_row_def)

lemma collected_ensure_task:
  assumes "collected_but (Some rid) db" and "has_job rid db"
  shows "collected_but (Some rid) (ensure_task now rid ty db)"
  using assms ensure_task_ok [of db rid now ty] ensure_task_filter [THEN summary_cong]
  unfolding collected_but_def by (metis ensure_task_runs(1) option.inject)

lemma has_job_ensure_task [simp]: "has_job x (ensure_task now rid ty db) = has_job x db"
  by (simp add: has_job_def)

section \<open>Operations keep the summaries\<close>

lemma create_collected:
  assumes "create_run_tx redact repr_of now a db = Inr (x, db')" and c: "collected db"
  shows "collected db'"
proof -
  let ?db = "\<lambda>attempt. db\<lparr>rd_runs := rd_runs db @ [new_run_row (stored_spec now attempt a)]\<rparr>"
  from assms(1) obtain attempt pl y where new: "\<not> run_exists (spec_run_id a) db"
    and ev: "append_event_tx redact now (spec_run_id a) ''run.created'' pl (?db attempt) = Inr (y, db')"
    by (auto simp: create_run_tx_def bind_res_Inr_iff split: if_splits)
  have ok: "tasks_ok db" using c by (simp add: collected_but_def)
  then have "tasks_ok (?db attempt)" by (auto simp: tasks_ok_def has_job_def)
  moreover have "collection_summary (spec_run_id a) (rd_tasks db) = CS_PENDING"
    using ok new by (intro summary_no_task) (auto simp: tasks_ok_def has_job_def)
  ultimately have "collected (?db attempt)"
    using c by (auto simp: collected_but_def new_run_row_def stored_spec_def)
  with ev show ?thesis by (rule collected_event)
qed

lemma claim_collected:
  assumes "claim_submission_tx redact now rid ow tok db = Inr (x, db')" and "collected db"
  shows "collected db'"
proof -
  have "collected (db\<lparr>rd_runs := sql_update (submission_claimable rid tok) (upd_claim_submission now ow tok) (rd_runs db)\<rparr>)"
    using assms(2) by (rule collected_update_runs) (auto simp: run_upd_defs split: option.splits)
  with assms(1) show ?thesis
    by (auto simp: claim_submission_tx_def Let_def bind_res_Inr_iff split: if_splits intro: collected_event)
qed

lemma fail_collected:
  assumes "fail_submission_tx redact now rid s ty ow tok reason db = Inr (x, db')" and "collected db"
  shows "collected db'"
  using assms(1) unfolding fail_submission_tx_def Let_def
  by (simp split: if_splits, elim collected_update_event [OF _ assms(2)]) (auto simp: run_upd_defs)

lemma update_state_collected:
  assumes "update_state_tx redact now rid s ty reason db = Inr (x, db')" and "collected db"
  shows "collected db'"
  using assms(1) unfolding update_state_tx_def
  by (rule collected_update_event [OF _ assms(2)]) (auto simp: run_upd_defs)

lemma orphan_collected:
  assumes "mark_backend_orphaned_tx redact now rid b j db = Inr (x, db')" and "collected db"
  shows "collected db'"
  using assms(1) unfolding mark_backend_orphaned_tx_def
  by (simp split: if_splits, elim collected_update_event [OF _ assms(2)]) (auto simp: run_upd_defs)

lemma capsule_state_collected:
  assumes "update_capsule_state_tx redact now rid s ty pl db = Inr (x, db')" and "collected db"
  shows "collected db'"
  using assms(1) unfolding update_capsule_state_tx_def Let_def
  by (simp split: if_splits, elim collected_update_event [OF _ assms(2)]) (auto simp: run_upd_defs)

lemma reuse_capsule_collected:
  assumes "reuse_capsule_tx redact now rid k cur db = Inr (x, db')" and "collected db"
  shows "collected db'"
  using assms(1) unfolding reuse_capsule_tx_def Let_def
  by (simp add: bind_res_Inr_iff split: if_splits, elim exE conjE collected_update_event [OF _ assms(2)])
    (auto simp: run_upd_defs)

lemma build_capsule_collected:
  assumes "build_capsule_tx redact now rid k cur db = Inr (x, db')" and "collected db"
  shows "collected db'"
  using assms(1) unfolding build_capsule_tx_def Let_def
  by (simp add: bind_res_Inr_iff split: if_splits, elim exE conjE collected_update_event [OF _ assms(2)])
    (auto simp: run_upd_defs)

lemma finish_capsule_collected:
  assumes "finish_capsule_build_tx redact now rid k tok s ty pl db = Inr (x, db')" and "collected db"
  shows "collected db'"
  using assms unfolding finish_capsule_build_tx_def Let_def
  by (simp split: if_splits sum.splits, elim disjE conjE collected_update_event [OF _ assms(2)])
    (auto simp: run_upd_defs)

text \<open>A Run without a job has no task; the receipt gives it two pending ones.\<close>

lemma summary_pending: "(\<And>t. t \<in> set ts \<Longrightarrow> ct_run t = rid \<Longrightarrow> ct_state t = CT_pending) \<Longrightarrow> collection_summary rid ts = CS_PENDING"
  by (auto simp: collection_summary_def Let_def image_iff)

lemma ensure_task_pending:
  assumes "\<And>t. t \<in> set (rd_tasks db) \<Longrightarrow> ct_run t = rid \<Longrightarrow> ct_state t = CT_pending"
    and "t \<in> set (rd_tasks (ensure_task now rid ty db))" and "ct_run t = rid"
  shows "ct_state t = CT_pending"
proof -
  have "t \<in> set (rd_tasks db) \<or> t = new_task_row now (rd_task_seq db + 1) rid ty"
    using assms(2) by (auto simp: ensure_task_def insert_ignore_def split: if_splits)
  moreover have "ct_state (new_task_row now (rd_task_seq db + 1) rid ty) = CT_pending"
    by (simp add: new_task_row_def)
  ultimately show ?thesis using assms(1,3) by auto
qed

lemma receipt_collected:
  assumes tx: "apply_submit_receipt_tx redact now rid rcpt (Some ow) tok db = Inr (x, db')"
    and ok: "runs_ok db" and c: "collected db"
  shows "collected db'"
proof -
  let ?p = "receipt_where rid (Some ow) tok"
  let ?db = "db\<lparr>rd_runs := sql_update ?p (upd_receipt now rcpt) (rd_runs db)\<rparr>"
  from tx obtain y t pl where rc: "rowcount ?p (rd_runs db) = 1"
    and ev: "append_event_tx redact now rid ''run.submitted'' pl ?db = Inr (y, t)"
    and db': "db' = ensure_task now rid ''runtime_status'' (ensure_task now rid ''submission_snapshot'' t)"
    by (auto simp: apply_submit_receipt_tx_def Let_def bind_res_Inr_iff split: if_splits)
  from rc obtain r where r: "r \<in> set (rd_runs db)" "?p r" using rowcount_pos [of ?p "rd_runs db"] by auto
  have none: "ct_run u \<noteq> rid" if "u \<in> set (rd_tasks db)" for u
  proof
    assume "ct_run u = rid"
    with c that obtain r' where r': "r' \<in> set (rd_runs db)" "rn_id r' = rid" "rc_job_id (rn_record r') \<noteq> None"
      by (auto simp: collected_but_def tasks_ok_def has_job_def)
    with r have "r' = r" by (intro keyed_eqI [OF runs_okD [OF ok]]) (auto simp: receipt_where_def)
    with r r' show False by (simp add: receipt_where_def)
  qed
  have "collected ?db" using c by (rule collected_update_runs) (auto simp: run_upd_defs)
  with ev have t: "collected t" by (rule collected_event)
  have tt: "rd_tasks t = rd_tasks db" "rd_runs t = sql_update ?p (upd_receipt now rcpt) (rd_runs db)"
    using ev by (auto simp: append_event_Inr)
  have job: "has_job rid t"
    unfolding has_job_def tt(2) bex_sql_update using r by (auto simp: receipt_where_def run_upd_defs)
  then have but: "collected_but (Some rid) db'"
    unfolding db' by (rule collected_ensure_task [OF collected_ensure_task [OF collected_weaken [OF t]]])
      (simp_all add: job)
  have "collection_summary rid (rd_tasks db') = CS_PENDING"
    unfolding db' by (rule summary_pending) (use none tt in \<open>auto elim!: ensure_task_pending [rotated]\<close>)
  moreover have "rc_collection (rn_record q) = CS_PENDING" if "q \<in> set (rd_runs db')" "rn_id q = rid" for q
    using that t none summary_no_task [of "rd_tasks db" rid] unfolding db' by (simp add: collected_but_def tt)
  ultimately show ?thesis using but by (auto simp: collected_but_def)
qed

lemma snapshot_collected:
  assumes tx: "apply_snapshot_tx redact now rid snap db = Inr (x, db')" and c: "collected db" and job: "has_job rid db"
  shows "collected db'"
proof -
  let ?db = "db\<lparr>rd_runs := sql_update (\<lambda>r. rn_id r = rid) (upd_snapshot now snap) (rd_runs db)\<rparr>"
  from tx obtain y t pl where ev: "append_event_tx redact now rid ''run.snapshot'' pl ?db = Inr (y, t)"
    and db': "db' = refresh_collection_state now rid (snapshot_tasks now rid (js_run_state snap) t)"
    by (auto simp: apply_snapshot_tx_def bind_res_Inr_iff)
  have "collected ?db" using c by (rule collected_update_runs) (auto simp: run_upd_defs)
  with ev have t: "collected t" by (rule collected_event)
  have "has_job rid t"
    using job ev unfolding append_event_Inr
    by (auto simp: has_job_def bex_sql_update run_upd_defs)
  have step: "collected_but (Some rid) u \<and> has_job rid u \<Longrightarrow>
      collected_but (Some rid) (ensure_task now rid ty u) \<and> has_job rid (ensure_task now rid ty u)" for u ty
    by (auto intro: collected_ensure_task)
  have base: "collected_but (Some rid) t \<and> has_job rid t"
    using collected_weaken [OF t] \<open>has_job rid t\<close> by blast
  have "collected_but (Some rid) (snapshot_tasks now rid (js_run_state snap) t)"
  proof (cases "js_run_state snap \<in> {RS_SUCCEEDED, RS_FAILED, RS_CANCELLED}")
    case True
    have "collected_but (Some rid) (fold (ensure_task now rid) tys u) \<and> has_job rid (fold (ensure_task now rid) tys u)"
      if "collected_but (Some rid) u \<and> has_job rid u" for tys u
      using that by (induction tys arbitrary: u) (simp_all add: step)
    with base True show ?thesis unfolding snapshot_tasks_def by (simp only: if_True)
  next
    case False
    let ?u = "ensure_task now rid ''runtime_status'' t"
    have u: "collected_but (Some rid) ?u" using step [OF base] by blast
    let ?p = "\<lambda>k. ct_run k = rid \<and> ct_type k = ''runtime_status'' \<and> ct_state k = CT_succeeded"
    let ?f = "\<lambda>k. k\<lparr>ct_state := CT_pending, ct_next_attempt := Some (isoformat now),
               ct_generation := ct_generation k + 1, ct_updated_at := isoformat now\<rparr>"
    have "tasks_ok (?u\<lparr>rd_tasks := sql_update ?p ?f (rd_tasks ?u)\<rparr>)"
      using u by (auto simp: collected_but_def tasks_ok_def keyed_sql_update ball_sql_update has_job_def)
    moreover have "collection_summary i (sql_update ?p ?f (rd_tasks ?u)) = collection_summary i (rd_tasks ?u)" if "i \<noteq> rid" for i
      using that by (intro summary_cong filter_sql_update) auto
    ultimately have "collected_but (Some rid) (?u\<lparr>rd_tasks := sql_update ?p ?f (rd_tasks ?u)\<rparr>)"
      using u by (auto simp: collected_but_def)
    with False show ?thesis by (simp add: snapshot_tasks_def reactivate_succeeded_task_def Let_def)
  qed
  then show ?thesis unfolding db' by (rule collected_refresh)
qed

text \<open>Operations on tasks.\<close>

lemma upd_task_keys [simp]:
  "ct_id (upd_task_claim nt ow ex tok t) = ct_id t" "ct_run (upd_task_claim nt ow ex tok t) = ct_run t"
  "ct_id (upd_task_acquire nt ow ex t) = ct_id t" "ct_run (upd_task_acquire nt ow ex t) = ct_run t"
  "ct_id (upd_task_settle nt st nx t) = ct_id t" "ct_run (upd_task_settle nt st nx t) = ct_run t"
  by (simp_all add: upd_task_claim_def upd_task_acquire_def upd_task_settle_def)

lemma update_none: "rowcount p ts = 0 \<Longrightarrow> sql_update p f ts = ts"
  by (rule sql_update_none) (simp add: rowcount_zero)

lemma rowcount_key:
  assumes "keyed key ts" and "\<And>t. p t \<Longrightarrow> key t = k"
  shows "rowcount p ts = 0 \<or> rowcount p ts = 1"
  by (simp add: rowcount_pinned [OF assms] split: option.split)

lemma collected_keyed: "collected db \<Longrightarrow> keyed ct_id (rd_tasks db)"
  by (simp add: collected_but_def tasks_ok_def)

lemma unmatched_task:
  assumes "collected db" and "\<And>t. p t \<Longrightarrow> ct_id t = tid" and "rowcount p (rd_tasks db) \<noteq> 1"
  shows "db\<lparr>rd_tasks := sql_update p f (rd_tasks db)\<rparr> = db"
proof -
  have "rowcount p (rd_tasks db) = 0"
    using rowcount_key [of ct_id "rd_tasks db" p tid, OF collected_keyed [OF assms(1)] assms(2)] assms(3) by blast
  then show ?thesis by (simp add: update_none)
qed

lemma claim_task_collected:
  assumes tx: "claim_collection_task_tx redact now tid ow tok gen ex db = Inr (x, db')" and c: "collected db"
  shows "collected db'"
proof -
  let ?p = "task_claimable (isoformat now) tid tok gen"
  let ?f = "upd_task_claim (isoformat now) ow (Some ex) tok"
  have p: "\<And>t. ?p t \<Longrightarrow> ct_id t = tid" by (simp add: task_claimable_def)
  show ?thesis
  proof (cases "rowcount ?p (rd_tasks db) = 1")
    case False
    with tx c unmatched_task [OF c p False] show ?thesis by (simp add: claim_collection_task_tx_def Let_def)
  next
    case True
    with tx obtain t y where g: "get_collection_task tid (db\<lparr>rd_tasks := sql_update ?p ?f (rd_tasks db)\<rparr>) = Inr t"
      and ev: "task_event_tx redact now ''collection.task_acquired'' (acquired_fields ow ex tok gen t) t
        (db\<lparr>rd_tasks := sql_update ?p ?f (rd_tasks db)\<rparr>) = Inr (y, db')"
      by (auto simp: claim_collection_task_tx_def Let_def bind_res_Inr_iff)
    from ev c g p show ?thesis by (rule collected_task_event) simp_all
  qed
qed

lemma acquire_rows_collected:
  "acquire_rows redact now ow ex rows db = Inr (ts, db') \<Longrightarrow> collected db \<Longrightarrow> collected db'"
proof (induction redact now ow ex rows db arbitrary: ts db' rule: acquire_rows.induct)
  case (1 redact now ow ex db)
  then show ?case by simp
next
  case (2 redact now ow ex row rows db)
  let ?p = "\<lambda>t. ct_id t = ct_id row \<and> takeable (isoformat now) t"
  let ?f = "upd_task_acquire (isoformat now) ow (Some ex)"
  let ?db = "db\<lparr>rd_tasks := sql_update ?p ?f (rd_tasks db)\<rparr>"
  have p: "\<And>t. ?p t \<Longrightarrow> ct_id t = ct_id row" by simp
  show ?case
  proof (cases "rowcount ?p (rd_tasks db) = 1")
    case False
    then have "acquire_rows redact now ow ex rows ?db = Inr (ts, db')"
      using "2.prems"(1) by (simp add: Let_def)
    moreover have "?db = db" using "2.prems"(2) p False by (rule unmatched_task)
    ultimately show ?thesis using "2.IH"(1) [OF refl refl] False "2.prems"(2) by auto
  next
    case True
    with "2.prems"(1) obtain t db2 y ts' where
      g: "get_collection_task (ct_id row) ?db = Inr t" and
      ev: "task_event_tx redact now ''collection.task_acquired'' (acquired_fields ow ex (ct_token t) (ct_generation t) t) t ?db = Inr (y, db2)" and
      rest: "acquire_rows redact now ow ex rows db2 = Inr (ts', db')"
      by (auto simp: Let_def bind_res_Inr_iff)
    have "collected db2" using ev "2.prems"(2) g p by (rule collected_task_event) simp_all
    with "2.IH"(2) [OF refl refl] True g ev rest show ?thesis by auto
  qed
qed

lemma settle_collected:
  assumes tx: "settle_tx redact now tid ow tok f ty es db = Inr (x, db')" and c: "collected db"
    and f: "\<And>t. ct_id (f t) = ct_id t \<and> ct_run (f t) = ct_run t"
  shows "collected db'"
proof -
  let ?p = "settle_where tid ow tok"
  from tx obtain t where g: "get_collection_task tid (db\<lparr>rd_tasks := sql_update ?p f (rd_tasks db)\<rparr>) = Inr t"
    and ev: "task_event_tx redact now ty (es t) t (db\<lparr>rd_tasks := sql_update ?p f (rd_tasks db)\<rparr>) = Inr (x, db')"
    by (auto simp: settle_tx_def Let_def bind_res_Inr_iff split: if_splits)
  from ev c g _ f show ?thesis by (rule collected_task_event) (simp add: settle_where_def)
qed

lemma shift_collected:
  assumes tx: "shift_logs_finalize redact now rid from st nx ty db = Inr (x, db')" and c: "collected db"
  shows "collected db'"
proof -
  let ?p = "\<lambda>t. ct_run t = rid \<and> ct_type t = ''logs_finalize'' \<and> ct_state t \<in> from"
  let ?f = "\<lambda>t. t\<lparr>ct_state := st, ct_next_attempt := nx, ct_updated_at := isoformat now\<rparr>"
  let ?db = "db\<lparr>rd_tasks := sql_update ?p ?f (rd_tasks db)\<rparr>"
  show ?thesis
  proof (cases "rowcount ?p (rd_tasks db) = 0")
    case True
    with tx have "db' = db" by (simp add: shift_logs_finalize_def Let_def update_none)
    with c show ?thesis by simp
  next
    case False
    with tx obtain y db2 where ev: "append_event_tx redact now rid ty (JObj []) ?db = Inr (y, db2)"
      and db': "db' = refresh_collection_state now rid db2"
      by (auto simp: shift_logs_finalize_def Let_def bind_res_Inr_iff)
    have "collected_but (Some rid) ?db" using c by (rule collected_update_tasks) auto
    with ev have "collected_but (Some rid) db2" by (rule collected_event)
    then show ?thesis unfolding db' by (rule collected_refresh)
  qed
qed

text \<open>Operations on the seal and on evidence objects.\<close>

lemma collected_cong:
  assumes "rd_tasks db' = rd_tasks db" "rd_task_seq db' = rd_task_seq db" "rd_runs db' = rd_runs db" and "collected_but b db"
  shows "collected_but b db'"
  using assms by (simp add: collected_but_def tasks_ok_def has_job_def)

lemma begin_seal_collected:
  assumes "begin_evidence_seal_tx nt rid ow ex db = Inr (x, db')" and "collected db"
  shows "collected db'"
proof -
  have "collected (db\<lparr>rd_runs := sql_update (sealable rid nt) (upd_begin_seal nt ow ex) (rd_runs db)\<rparr>)"
    using assms(2) by (rule collected_update_runs) (auto simp: run_upd_defs)
  with assms show ?thesis by (auto simp: begin_evidence_seal_tx_def split: option.splits if_splits)
qed

lemma complete_seal_collected:
  assumes "complete_evidence_seal_tx nt rid ow tok dg mk db = Inr (x, db')" and "collected db"
  shows "collected db'"
proof -
  have "collected (db\<lparr>rd_runs := sql_update (seal_held nt rid ow tok) (upd_complete_seal nt dg mk) (rd_runs db)\<rparr>)"
    using assms(2) by (rule collected_update_runs) (auto simp: run_upd_defs)
  with assms show ?thesis
    by (auto simp: complete_evidence_seal_tx_def Let_def split: option.splits if_splits)
qed

lemma upsert_object_seq: "upsert_object nt rid obj db = Inr db' \<Longrightarrow> rd_task_seq db' = rd_task_seq db"
  by (auto simp: upsert_object_def update_objects_Inr split: if_splits)

lemma upsert_loop_seq: "upsert_loop nt rid fin objs db = Inr db' \<Longrightarrow> rd_task_seq db' = rd_task_seq db"
proof (induction objs arbitrary: db)
  case Nil
  then show ?case by simp
next
  case (Cons obj objs)
  then obtain db1 where "upsert_object nt rid obj db = Inr db1" "upsert_loop nt rid fin objs db1 = Inr db'"
    by (auto simp: Let_def bind_res_Inr_iff split: if_splits)
  with Cons.IH upsert_object_seq show ?case by metis
qed

lemma mark_integrity_seq: "mark_integrity_tx sha nt rid paths db = Inr (d, db') \<Longrightarrow> rd_task_seq db' = rd_task_seq db"
  by (auto simp: mark_integrity_tx_def Let_def bind_res_Inr_iff update_objects_Inr split: if_splits)

lemma commit_collected:
  "collected db \<Longrightarrow> (\<And>x t. tx db = Inr (x, t) \<Longrightarrow> collected t) \<Longrightarrow> collected (snd (commit tx db))"
  by (auto simp: snd_commit split: sum.splits)

lemma run_step_collected:
  assumes "run_step redact repr_of sha db db'" and "runs_ok db" and "collected db"
  shows "collected db'"
  using assms
proof (induction rule: run_step.induct)
  case (st_create db now a)
  then show ?case unfolding create_run_def by (auto intro!: commit_collected elim!: create_collected)
next
  case (st_claim db now rid ow tok)
  then show ?case unfolding claim_submission_def
    by (auto intro!: commit_collected elim!: claim_collected split: option.splits if_splits)
next
  case (st_receipt db now rid rcpt ow tok)
  then show ?case unfolding apply_submit_receipt_def by (auto intro!: commit_collected elim!: receipt_collected)
next
  case (st_fail db now rid s ty ow tok reason)
  then show ?case unfolding fail_submission_def
    by (auto intro!: commit_collected elim!: fail_collected split: option.splits if_splits)
next
  case (st_snapshot rid db snap now)
  then show ?case unfolding apply_snapshot_def by (auto intro!: commit_collected elim!: snapshot_collected)
next
  case (st_state s db now rid ty reason)
  then show ?case unfolding update_state_def by (auto intro!: commit_collected elim!: update_state_collected)
next
  case (st_orphan db now rid b j)
  then show ?case unfolding mark_backend_orphaned_def by (auto intro!: commit_collected elim!: orphan_collected)
next
  case (st_event db now rid ty pl)
  then show ?case unfolding append_event_def
    by (auto intro!: commit_collected simp: bind_res_Inr_iff elim!: collected_event)
next
  case (st_capsule_state db now rid cs ty fs)
  then show ?case unfolding update_capsule_state_def by (auto intro!: commit_collected elim!: capsule_state_collected)
next
  case (st_capsule_begin db now rid k)
  then show ?case unfolding begin_capsule_build_def
    by (auto intro!: commit_collected elim!: reuse_capsule_collected build_capsule_collected split: sum.splits if_splits)
next
  case (st_capsule_finish db now rid k tok cs ty fs)
  then show ?case unfolding finish_capsule_build_def
    by (auto intro!: commit_collected elim!: finish_capsule_collected split: option.splits if_splits)
next
  case (st_task_claim db now tid ow tok gen ex)
  have "collected (snd (commit (claim_collection_task_tx redact now tid ow tok gen ex) db))"
    by (rule commit_collected, rule st_task_claim, rule claim_task_collected) (use st_task_claim in auto)
  with st_task_claim show ?case unfolding claim_collection_task_def
    by (auto split: option.splits sum.splits prod.splits bool.splits if_splits)
next
  case (st_task_acquire db now ow limit secs)
  then show ?case unfolding acquire_due_collection_tasks_def
    by (auto intro!: commit_collected elim!: acquire_rows_collected split: option.splits)
next
  case (st_task_running db now tid ow ex')
  then show ?case unfolding mark_collection_task_running_def
    by (auto intro!: commit_collected simp: Let_def bind_res_Inr_iff elim!: collected_task_event)
next
  case (st_task_succeeded db now tid fs ow' tok')
  then show ?case unfolding mark_collection_task_succeeded_def
    by (auto intro!: commit_collected elim!: settle_collected)
next
  case (st_task_failed db now tid msg retryable ow' code auth delay tok')
  then show ?case unfolding mark_collection_task_failed_def
    by (auto intro!: commit_collected elim!: settle_collected split: option.splits)
next
  case (st_defer db now rid)
  then show ?case unfolding defer_logs_finalize_for_runtime_watch_def by (auto intro!: commit_collected elim!: shift_collected)
next
  case (st_release db now rid)
  then show ?case unfolding release_logs_finalize_after_runtime_watch_def by (auto intro!: commit_collected elim!: shift_collected)
next
  case (st_seal_begin db now rid ow secs)
  then show ?case unfolding begin_evidence_seal_def
    by (auto intro!: commit_collected elim!: begin_seal_collected split: option.splits)
next
  case (st_seal_renew db now rid ow tok secs)
  then show ?case unfolding renew_evidence_seal_claim_def
    by (auto intro!: commit_collected collected_update_runs simp: Let_def run_upd_defs split: option.splits if_splits)
next
  case (st_seal_complete db now rid ow tok dg mk)
  then show ?case unfolding complete_evidence_seal_def
    by (auto intro!: commit_collected elim!: complete_seal_collected split: option.splits)
next
  case (st_seal_invalidate db now rid ow tok reason')
  then show ?case unfolding invalidate_evidence_seal_def
    by (auto intro!: commit_collected collected_update_runs simp: Let_def run_upd_defs split: if_splits)
next
  case (st_upsert db now rid objs)
  have "collected t" if "upsert_loop nt rid fin objs db = Inr t" for nt fin t
    by (rule collected_cong [OF _ _ _ st_upsert(2)]) (use upsert_loop_runs [OF that] upsert_loop_seq [OF that] in auto)
  with st_upsert show ?case unfolding upsert_evidence_objects_def snd_then_read
    by (auto intro!: commit_collected simp: bind_res_Inr_iff split: if_splits)
next
  case (st_checked db now rid paths at_time)
  have "collected t" if "mark_integrity_tx sha nt rid ps db = Inr (d, t)" for nt ps d t
    by (rule collected_cong [OF _ _ _ st_checked(2)]) (use mark_integrity_runs [OF that] mark_integrity_seq [OF that] in auto)
  with st_checked show ?case unfolding mark_evidence_integrity_checked_def Let_def
    by (auto intro!: commit_collected)
next
  case (st_revoke db now rid paths)
  then show ?case unfolding revoke_evidence_integrity_def Let_def
    by (auto intro!: commit_collected simp: bind_res_Inr_iff update_objects_Inr intro: collected_cong)
qed

lemma reachable_collected:
  assumes "reachable_runs redact repr_of sha db"
  shows "collected db"
proof -
  have "(run_step redact repr_of sha)\<^sup>*\<^sup>* s t \<Longrightarrow> runs_ok s \<Longrightarrow> collected s \<Longrightarrow> collected t" for s t
  proof (induction rule: rtranclp_induct)
    case base
    then show ?case by simp
  next
    case (step t u)
    then have "runs_ok t" using run_steps_effect by blast
    with step show ?case by (blast intro: run_step_collected)
  qed
  moreover have "collected empty_run_db" by (simp add: collected_but_def tasks_ok_def empty_run_db_def)
  ultimately show ?thesis using assms unfolding reachable_runs_def by (blast intro: runs_ok_empty)
qed

end
