(* ===== verification/SealSafety.thy ===== *)
theory SealSafety
  imports RunCollect
begin

text \<open>
  Evidence objects under the seal and under the integrity guard; and the fenced claims of the seal and of
  the capsule build as instances of the lease locale.
\<close>

section \<open>Evidence objects\<close>

definition frozen :: "evidence_object \<Rightarrow> bool" where
  "frozen x \<longleftrightarrow> eo_checked_at x \<noteq> None \<or> eo_invalidated_at x \<noteq> None"

definition object_kept :: "evidence_object \<Rightarrow> evidence_object \<Rightarrow> bool" where
  "object_kept x y \<longleftrightarrow> eo_id y = eo_id x \<and>
     (frozen x \<longrightarrow> frozen y \<and> eo_run y = eo_run x \<and> object_values y = object_values x)"

lemma object_kept_refl: "object_kept x x"
  by (simp add: object_kept_def)

lemma object_kept_trans: "object_kept x y \<Longrightarrow> object_kept y z \<Longrightarrow> object_kept x z"
  by (simp add: object_kept_def)

text \<open>What the guard lets through keeps a frozen object.\<close>

lemma object_guard_kept: "object_guard x y \<Longrightarrow> eo_id y = eo_id x \<Longrightarrow> object_kept x y"
  by (auto simp: object_guard_def object_kept_def frozen_def)

definition seal_closed :: "string \<Rightarrow> run_db \<Rightarrow> bool" where
  "seal_closed rid db \<longleftrightarrow> (\<exists>r \<in> set (rd_runs db). rn_id r = rid \<and> seal_status (rn_seal r) \<noteq> SEAL_OPEN)"

definition run_objects :: "string \<Rightarrow> run_db \<Rightarrow> evidence_object list" where
  \<comment> \<open>the contents of a Run's evidence objects, in the order of their insertion\<close>
  "run_objects rid db = map object_values (filter (\<lambda>x. eo_run x = rid) (rd_objects db))"

definition object_effect :: "run_db \<Rightarrow> run_db \<Rightarrow> bool" where
  "object_effect db db' \<longleftrightarrow>
     (\<forall>x \<in> set (rd_objects db). \<exists>y \<in> set (rd_objects db'). object_kept x y) \<and>
     (\<forall>rid. seal_closed rid db \<longrightarrow> run_objects rid db' = run_objects rid db)"

lemma object_effect_refl: "rd_objects db' = rd_objects db \<Longrightarrow> object_effect db db'"
  by (auto simp: object_effect_def run_objects_def intro: object_kept_refl)

lemma object_effect_trans:
  assumes "object_effect a b" and "object_effect b c" and "\<And>i. seal_closed i a \<Longrightarrow> seal_closed i b"
  shows "object_effect a c"
proof -
  have "\<exists>z \<in> set (rd_objects c). object_kept x z" if "x \<in> set (rd_objects a)" for x
  proof -
    from assms(1) that obtain y where y: "y \<in> set (rd_objects b)" "object_kept x y" by (auto simp: object_effect_def)
    with assms(2) obtain z where "z \<in> set (rd_objects c)" "object_kept y z" by (auto simp: object_effect_def)
    with y show ?thesis by (blast intro: object_kept_trans)
  qed
  moreover have "run_objects i c = run_objects i a" if "seal_closed i a" for i
    using assms that by (simp add: object_effect_def)
  ultimately show ?thesis by (simp add: object_effect_def)
qed

lemma object_effect_update:
  assumes "update_objects p f db = Inr db'"
    and f: "\<And>x. eo_id (f x) = eo_id x \<and> eo_run (f x) = eo_run x \<and> object_values (f x) = object_values x"
  shows "object_effect db db'"
proof -
  from assms(1) have g: "\<And>x. x \<in> set (rd_objects db) \<Longrightarrow> p x \<Longrightarrow> object_guard x (f x)"
    and db': "rd_objects db' = sql_update p f (rd_objects db)"
    by (auto simp: update_objects_Inr)
  have "\<exists>y \<in> set (rd_objects db'). object_kept x y" if "x \<in> set (rd_objects db)" for x
  proof
    show "(if p x then f x else x) \<in> set (rd_objects db')" using that by (auto simp: db' sql_update_def)
    show "object_kept x (if p x then f x else x)"
      using g [OF that] f by (auto intro: object_guard_kept object_kept_refl)
  qed
  moreover have "run_objects rid db' = run_objects rid db" for rid
  proof -
    have "map object_values (filter (\<lambda>x. eo_run x = rid) (sql_update p f xs)) =
        map object_values (filter (\<lambda>x. eo_run x = rid) xs)" for xs
      using f by (induction xs) auto
    then show ?thesis by (simp add: run_objects_def db')
  qed
  ultimately show ?thesis by (simp add: object_effect_def)
qed

lemma upsert_object_effect:
  assumes "upsert_object nt rid obj db = Inr db'"
  shows "\<forall>x \<in> set (rd_objects db). \<exists>y \<in> set (rd_objects db'). object_kept x y"
    and "i \<noteq> rid \<Longrightarrow> run_objects i db' = run_objects i db"
proof -
  let ?p = "object_at rid (eo_logical_path obj)" and ?f = "upd_object nt obj"
  have f: "eo_id (?f x) = eo_id x" "eo_run (?f x) = eo_run x" for x by (simp_all add: upd_object_def)
  show "\<forall>x \<in> set (rd_objects db). \<exists>y \<in> set (rd_objects db'). object_kept x y"
  proof
    fix x
    assume x: "x \<in> set (rd_objects db)"
    show "\<exists>y \<in> set (rd_objects db'). object_kept x y"
    proof (cases "\<exists>x \<in> set (rd_objects db). ?p x")
      case True
      with assms have g: "\<And>x. x \<in> set (rd_objects db) \<Longrightarrow> ?p x \<Longrightarrow> object_guard x (?f x)"
        and db': "rd_objects db' = sql_update ?p ?f (rd_objects db)"
        by (auto simp: upsert_object_def update_objects_Inr)
      have "(if ?p x then ?f x else x) \<in> set (rd_objects db')" using x by (auto simp: db' sql_update_def)
      moreover have "object_kept x (if ?p x then ?f x else x)"
        using g [OF x] f by (auto intro: object_guard_kept object_kept_refl)
      ultimately show ?thesis by blast
    next
      case False
      with assms have "set (rd_objects db) \<subseteq> set (rd_objects db')"
        by (auto simp: upsert_object_def split: if_splits)
      with x object_kept_refl show ?thesis by blast
    qed
  qed
  show "run_objects i db' = run_objects i db" if "i \<noteq> rid"
  proof (cases "\<exists>x \<in> set (rd_objects db). ?p x")
    case True
    with assms have db': "rd_objects db' = sql_update ?p ?f (rd_objects db)"
      by (auto simp: upsert_object_def update_objects_Inr)
    have "filter (\<lambda>x. eo_run x = i) (sql_update ?p ?f (rd_objects db)) = filter (\<lambda>x. eo_run x = i) (rd_objects db)"
      using that f by (intro filter_sql_update) (auto simp: object_at_def)
    then show ?thesis by (simp add: run_objects_def db')
  next
    case False
    with assms that show ?thesis by (auto simp: upsert_object_def run_objects_def split: if_splits)
  qed
qed

lemma upsert_loop_effect:
  assumes "upsert_loop nt rid fin objs db = Inr db'"
  shows "(\<forall>x \<in> set (rd_objects db). \<exists>y \<in> set (rd_objects db'). object_kept x y) \<and>
    (\<forall>i. i \<noteq> rid \<longrightarrow> run_objects i db' = run_objects i db)"
  using assms
proof (induction objs arbitrary: db)
  case Nil
  then show ?case by (auto intro: object_kept_refl)
next
  case (Cons obj objs)
  then obtain db1 where o: "upsert_object nt rid obj db = Inr db1" and l: "upsert_loop nt rid fin objs db1 = Inr db'"
    by (auto simp: Let_def bind_res_Inr_iff split: if_splits)
  from upsert_object_effect [OF o] Cons.IH [OF l] show ?case by (metis object_kept_trans)
qed

lemma mark_integrity_effect:
  assumes "mark_integrity_tx sha nt rid paths db = Inr (d, db')"
  shows "object_effect db db'"
proof -
  from assms obtain checked db1 where
    a: "update_objects (named_objects rid paths) (\<lambda>x. x\<lparr>eo_checked_at := coalesce (eo_checked_at x) (Some checked)\<rparr>) db = Inr db1" and
    b: "update_objects (named_objects rid paths) (\<lambda>x. x\<lparr>eo_set_digest := Some d\<rparr>) db1 = Inr db'"
    by (auto simp: mark_integrity_tx_def Let_def bind_res_Inr_iff split: if_splits)
  have "object_effect db db1" by (rule object_effect_update [OF a]) (simp add: object_values_def)
  moreover have "object_effect db1 db'" by (rule object_effect_update [OF b]) (simp add: object_values_def)
  ultimately show ?thesis
    by (rule object_effect_trans) (use a in \<open>auto simp: update_objects_Inr seal_closed_def\<close>)
qed

text \<open>The other operations leave the objects alone.\<close>

lemma append_event_objects: "append_event_tx redact now rid ty pl db = Inr (x, t) \<Longrightarrow> rd_objects t = rd_objects db"
  by (auto simp: append_event_Inr)

lemma refresh_objects [simp]: "rd_objects (refresh_collection_state now rid db) = rd_objects db"
  by (simp add: refresh_collection_state_def)

lemma task_event_objects: "task_event_tx redact now ty es t db = Inr (x, db') \<Longrightarrow> rd_objects db' = rd_objects db"
  by (auto simp: task_event_tx_def bind_res_Inr_iff dest: append_event_objects)

lemma acquire_rows_objects: "acquire_rows redact now ow ex rows db = Inr (ts, db') \<Longrightarrow> rd_objects db' = rd_objects db"
proof (induction redact now ow ex rows db arbitrary: ts db' rule: acquire_rows.induct)
  case (1 redact now ow ex db)
  then show ?case by simp
next
  case (2 redact now ow ex row rows db)
  let ?p = "\<lambda>t. ct_id t = ct_id row \<and> takeable (isoformat now) t"
  let ?db = "db\<lparr>rd_tasks := sql_update ?p (upd_task_acquire (isoformat now) ow (Some ex)) (rd_tasks db)\<rparr>"
  show ?case
  proof (cases "rowcount ?p (rd_tasks db) = 1")
    case False
    then have "acquire_rows redact now ow ex rows ?db = Inr (ts, db')" using "2.prems" by (simp add: Let_def)
    with "2.IH"(1) [OF refl refl] False show ?thesis by auto
  next
    case True
    with "2.prems" obtain t db2 y ts' where
      g: "get_collection_task (ct_id row) ?db = Inr t" and
      ev: "task_event_tx redact now ''collection.task_acquired'' (acquired_fields ow ex (ct_token t) (ct_generation t) t) t ?db = Inr (y, db2)" and
      rest: "acquire_rows redact now ow ex rows db2 = Inr (ts', db')"
      by (auto simp: Let_def bind_res_Inr_iff)
    have "rd_objects db' = rd_objects db2" using "2.IH"(2) [OF refl refl] True g ev rest by auto
    also have "\<dots> = rd_objects db" using task_event_objects [OF ev] by simp
    finally show ?thesis .
  qed
qed

lemma commit_objects:
  "(\<And>x t. tx db = Inr (x, t) \<Longrightarrow> rd_objects t = rd_objects db) \<Longrightarrow> rd_objects (snd (commit tx db)) = rd_objects db"
  by (auto simp: snd_commit split: sum.splits)

lemmas plain_tx_defs = create_run_tx_def claim_submission_tx_def apply_submit_receipt_tx_def fail_submission_tx_def
  apply_snapshot_tx_def update_state_tx_def mark_backend_orphaned_tx_def update_capsule_state_tx_def
  reuse_capsule_tx_def build_capsule_tx_def finish_capsule_build_tx_def claim_collection_task_tx_def
  settle_tx_def shift_logs_finalize_def begin_evidence_seal_tx_def complete_evidence_seal_tx_def

lemmas plain_op_defs = create_run_def claim_submission_def apply_submit_receipt_def fail_submission_def
  apply_snapshot_def update_state_def mark_backend_orphaned_def append_event_def update_capsule_state_def
  begin_capsule_build_def finish_capsule_build_def acquire_due_collection_tasks_def
  mark_collection_task_running_def mark_collection_task_succeeded_def mark_collection_task_failed_def
  defer_logs_finalize_for_runtime_watch_def release_logs_finalize_after_runtime_watch_def
  begin_evidence_seal_def renew_evidence_seal_claim_def complete_evidence_seal_def invalidate_evidence_seal_def

lemma run_step_objects:
  assumes "run_step redact repr_of sha db db'" and ok: "runs_ok db"
  shows "object_effect db db'"
  using assms
proof (induction rule: run_step.induct)
  case (st_upsert db now rid objs)
  have "object_effect db t" if s: "get_evidence_seal rid db = Inr s" "seal_status s = SEAL_OPEN"
    and l: "upsert_loop nt rid fin objs db = Inr t" for s nt fin t
  proof -
    from s obtain r where r: "r \<in> set (rd_runs db)" "rn_id r = rid" "seal_status (rn_seal r) = SEAL_OPEN"
      by (auto simp: get_evidence_seal_def split: option.splits dest!: fetchone_Some)
    have "\<not> seal_closed rid db"
    proof
      assume "seal_closed rid db"
      then obtain r' where r': "r' \<in> set (rd_runs db)" "rn_id r' = rid" "seal_status (rn_seal r') \<noteq> SEAL_OPEN"
        by (auto simp: seal_closed_def)
      with r have "r' = r" by (intro keyed_eqI [OF runs_okD [OF st_upsert]]) auto
      with r r' show False by simp
    qed
    with upsert_loop_effect [OF l] show ?thesis by (auto simp: object_effect_def)
  qed
  then show ?case unfolding upsert_evidence_objects_def snd_then_read snd_commit
    by (auto simp: bind_res_Inr_iff split: sum.splits if_splits intro: object_effect_refl)
next
  case (st_checked db now rid paths at_time)
  show ?case unfolding mark_evidence_integrity_checked_def Let_def
    by (auto simp: snd_commit split: sum.splits if_splits intro: object_effect_refl dest: mark_integrity_effect)
next
  case (st_revoke db now rid paths)
  have "object_effect db t" if "update_objects (named_objects rid ps)
      (\<lambda>x. x\<lparr>eo_checked_at := None, eo_set_digest := None, eo_invalidated_at := Some (isoformat now)\<rparr>) db = Inr t" for ps t
    using that by (rule object_effect_update) (simp add: object_values_def)
  then show ?case unfolding revoke_evidence_integrity_def Let_def
    by (auto simp: snd_commit bind_res_Inr_iff split: sum.splits if_splits intro: object_effect_refl)
next
  case (st_task_claim db now tid ow tok gen ex)
  have "rd_objects (snd (commit (claim_collection_task_tx redact now tid ow tok gen ex) db)) = rd_objects db"
    by (rule commit_objects) (auto simp: plain_tx_defs Let_def bind_res_Inr_iff split: if_splits dest!: task_event_objects)
  then show ?case unfolding claim_collection_task_def
    by (auto intro: object_effect_refl split: option.splits sum.splits prod.splits bool.splits if_splits)
next
  case (st_task_acquire db now ow limit secs)
  show ?case unfolding acquire_due_collection_tasks_def
    by (auto intro!: object_effect_refl commit_objects split: option.splits dest: acquire_rows_objects)
qed (unfold plain_op_defs, auto intro!: object_effect_refl commit_objects
    simp: plain_tx_defs Let_def bind_res_Inr_iff split: option.splits sum.splits if_splits
    dest!: append_event_objects task_event_objects)

lemma run_effect_row:
  assumes "run_effect db db'" and "runs_ok db" and "row_of rn_id rid (rd_runs db) = Some r"
  shows "\<exists>r'. row_of rn_id rid (rd_runs db') = Some r' \<and> run_extends r r'"
  using assms unfolding run_effect_def runs_ok_def by (blast intro: runs_extend)

lemma run_step_closed:
  assumes "run_step redact repr_of sha db db'" and ok: "runs_ok db" and "seal_closed rid db"
  shows "seal_closed rid db'"
proof -
  from assms(3) obtain r where r: "r \<in> set (rd_runs db)" "rn_id r = rid" "seal_status (rn_seal r) \<noteq> SEAL_OPEN"
    by (auto simp: seal_closed_def)
  then have "row_of rn_id rid (rd_runs db) = Some r" by (simp add: row_of_Some_iff runs_okD [OF ok])
  from run_effect_row [OF run_step_effect [OF assms(1) ok] ok this] r(3) show ?thesis
    by (auto simp: seal_closed_def extends_defs dest!: row_of_SomeD)
qed

lemma run_steps_objects:
  assumes "(run_step redact repr_of sha)\<^sup>*\<^sup>* db db'" and "runs_ok db"
  shows "object_effect db db' \<and> (\<forall>rid. seal_closed rid db \<longrightarrow> seal_closed rid db')"
  using assms(1)
proof (induction rule: rtranclp_induct)
  case base
  then show ?case by (simp add: object_effect_refl)
next
  case (step t u)
  have "runs_ok t" using run_steps_effect [OF step.hyps(1) assms(2)] by simp
  with step.IH run_step_objects [OF step.hyps(2)] run_step_closed [OF step.hyps(2)] show ?case
    by (blast intro: object_effect_trans)
qed

section \<open>Fenced claims\<close>

text \<open>The seal: \<open>holds\<close> is the condition of every write under a seal claim, at some time; a claim is a call of
  \<open>begin_evidence_seal\<close> that was granted.\<close>

record seal_claim =
  sc_owner :: string
  sc_token :: int

definition seal_token_of :: "string \<Rightarrow> run_db \<Rightarrow> int" where
  "seal_token_of rid db = row_measure rn_id 0 (\<lambda>r. seal_token (rn_seal r)) rid (rd_runs db)"

definition seal_accepted :: "string \<Rightarrow> seal_claim \<Rightarrow> run_db \<Rightarrow> bool" where
  "seal_accepted rid c db \<longleftrightarrow> (\<exists>now_text. rowcount (seal_held now_text rid (sc_owner c) (sc_token c)) (rd_runs db) = 1)"

definition seal_granted :: "string \<Rightarrow> seal_claim \<Rightarrow> run_db \<Rightarrow> run_db \<Rightarrow> bool" where
  "seal_granted rid c db db' \<longleftrightarrow> (\<exists>now secs s. begin_evidence_seal now rid (sc_owner c) secs db = (Inr s, db') \<and>
     seal_status s = SEAL_PREPARING \<and> sc_token c = seal_token s)"

definition capsule_token_of :: "string \<Rightarrow> run_db \<Rightarrow> int" where
  "capsule_token_of rid db = row_measure rn_id 0 (\<lambda>r. rc_capsule_token (rn_record r)) rid (rd_runs db)"

definition capsule_accepted :: "string \<Rightarrow> capsule_claim \<Rightarrow> run_db \<Rightarrow> bool" where
  "capsule_accepted rid c db \<longleftrightarrow> assert_capsule_build rid (cb_key c) (cb_token c) db = Inr ()"

definition capsule_granted ::
    "(json \<Rightarrow> json) \<Rightarrow> string \<Rightarrow> capsule_claim \<Rightarrow> run_db \<Rightarrow> run_db \<Rightarrow> bool" where
  "capsule_granted redact rid c db db' \<longleftrightarrow> (\<exists>now. begin_capsule_build redact now rid (cb_key c) db = (Inr c, db'))"

lemma row_of_matching:
  assumes "keyed rn_id rows" and "r \<in> set rows" and "rn_id r = rid"
  shows "row_of rn_id rid rows = Some r"
  using assms by (simp add: row_of_Some_iff)

lemma token_mono:
  assumes "run_effect db db'" and "runs_ok db" and m: "\<And>r r'. run_extends r r' \<Longrightarrow> m r \<le> m r'"
    and nn: "\<And>r. run_inv r \<Longrightarrow> 0 \<le> m r"
  shows "row_measure rn_id (0::int) m rid (rd_runs db) \<le> row_measure rn_id 0 m rid (rd_runs db')"
proof (cases "row_of rn_id rid (rd_runs db)")
  case None
  have "runs_ok db'" using assms(1,2) by (rule run_effect_ok)
  then have "0 \<le> row_measure rn_id 0 m rid (rd_runs db')"
    using nn by (auto simp: row_measure_def runs_ok_def split: option.splits dest!: row_of_SomeD dest: table_okD)
  with None show ?thesis by (simp add: row_measure_def)
next
  case (Some r)
  from run_effect_row [OF assms(1,2) Some] m Some show ?thesis by (auto simp: row_measure_def)
qed

lemma seal_granted_token:
  assumes "seal_granted rid c db db'" and ok: "runs_ok db"
  shows "seal_token_of rid db < seal_token_of rid db' \<and> sc_token c = seal_token_of rid db'"
proof -
  from assms(1) obtain now secs s where g: "begin_evidence_seal now rid (sc_owner c) secs db = (Inr s, db')"
    and st: "seal_status s = SEAL_PREPARING" "sc_token c = seal_token s"
    by (auto simp: seal_granted_def)
  define ex where "ex = isoformat (the (add_seconds (nat secs) now))"
  from g have b: "begin_evidence_seal_tx (isoformat now) rid (sc_owner c) ex db = Inr ((), db')"
    and s: "get_evidence_seal rid db' = Inr s"
    by (simp_all add: begin_evidence_seal_def then_read_cases commit_cases ex_def del: first_failure.simps split: option.splits)
  note s = s st
  from b obtain r where f: "fetchone (\<lambda>r. rn_id r = rid) (rd_runs db) = Some r"
    by (auto simp: begin_evidence_seal_tx_def split: option.splits)
  then have r: "row_of rn_id rid (rd_runs db) = Some r" by (simp add: row_of_def)
  let ?p = "sealable rid (isoformat now)" and ?f = "upd_begin_seal (isoformat now) (sc_owner c) ex"
  have p: "\<And>x. ?p x \<Longrightarrow> rn_id x = rid" by (simp add: sealable_def)
  have notsealed: "seal_status (rn_seal r) \<noteq> SEAL_SEALED"
    using b f s r by (auto simp: begin_evidence_seal_tx_def get_evidence_seal_def split: if_splits)
  with b f have rows: "rd_runs db' = sql_update ?p ?f (rd_runs db)" "rowcount ?p (rd_runs db) = 1"
    by (auto simp: begin_evidence_seal_tx_def split: if_splits)
  have "?p r" using rows(2) rowcount_pinned [OF runs_okD [OF ok] p] r by (auto split: if_splits)
  then have "row_of rn_id rid (rd_runs db') = Some (?f r)"
    unfolding rows(1) by (subst row_of_sql_update) (auto simp: r run_upd_defs sealable_def)
  moreover from this have "s = rn_seal (?f r)" using s(1) by (simp add: get_evidence_seal_def row_of_def)
  ultimately show ?thesis using r s(3) by (simp add: seal_token_of_def row_measure_def run_upd_defs)
qed

lemma capsule_granted_token:
  assumes "capsule_granted redact rid c db db'" and ok: "runs_ok db"
  shows "capsule_token_of rid db < capsule_token_of rid db' \<and> cb_token c = capsule_token_of rid db'"
proof -
  define k where "k = cb_key c"
  from assms(1) obtain now cur where g: "get_run rid db = Inr cur"
    and b: "(if rc_capsule cur = CAP_READY then reuse_capsule_tx redact now rid k cur db
             else build_capsule_tx redact now rid k cur db) = Inr (c, db')"
    unfolding k_def by (auto simp: capsule_granted_def begin_capsule_build_def commit_cases split: if_splits sum.splits)
  from g obtain r where r: "row_of rn_id rid (rd_runs db) = Some r" "rn_record r = cur"
    by (auto simp: get_run_def row_of_def split: option.splits)
  obtain p f where pf: "rd_runs db' = sql_update p (upd_record f) (rd_runs db)" "rowcount p (rd_runs db) = 1"
    and p: "\<And>x. p x \<Longrightarrow> rn_id x = rid" and f: "\<And>x. rc_spec (f x) = rc_spec x \<and> rc_capsule_token (f x) = rc_capsule_token cur + 1"
    and c: "cb_token c = rc_capsule_token cur + 1"
  proof (cases "rc_capsule cur = CAP_READY")
    case True
    with b show ?thesis
      by (intro that [of "ready_capsule rid k (rc_capsule_token cur)"
            "\<lambda>x. x\<lparr>rc_capsule_token := rc_capsule_token cur + 1, rc_updated_at := isoformat now\<rparr>"])
        (auto simp: reuse_capsule_tx_def Let_def bind_res_Inr_iff append_event_Inr ready_capsule_def split: if_splits)
  next
    case False
    with b show ?thesis
      by (intro that [of "buildable_capsule rid k (rc_capsule_token cur)"
            "\<lambda>x. x\<lparr>rc_capsule := CAP_RUNNING, rc_capsule_key := Some k,
                rc_capsule_token := rc_capsule_token cur + 1, rc_updated_at := isoformat now\<rparr>"])
        (auto simp: build_capsule_tx_def Let_def bind_res_Inr_iff append_event_Inr buildable_capsule_def split: if_splits)
  qed
  have "p r" using pf(2) rowcount_pinned [OF runs_okD [OF ok] p] r by (auto split: if_splits)
  then have "row_of rn_id rid (rd_runs db') = Some (upd_record f r)"
    unfolding pf(1) by (subst row_of_sql_update) (auto simp: r f upd_record_def)
  then show ?thesis using r c f by (simp add: capsule_token_of_def row_measure_def upd_record_def)
qed

interpretation seal_lease: fenced_lease runs_ok "run_step redact repr_of sha" seal_token_of sc_token seal_accepted seal_granted
  for redact repr_of sha
proof (unfold_locales, goal_cases)
  case (1 s t)
  then show ?case by (blast intro: run_effect_ok run_step_effect)
next
  case (2 s t k)
  then show ?case unfolding seal_token_of_def
    by (intro token_mono run_step_effect) (auto simp: extends_defs run_inv_def)
next
  case (3 s k l)
  then obtain nt where "rowcount (seal_held nt k (sc_owner l) (sc_token l)) (rd_runs s) = 1"
    by (auto simp: seal_accepted_def)
  then have "0 < rowcount (seal_held nt k (sc_owner l) (sc_token l)) (rd_runs s)" by simp
  then obtain r where r: "r \<in> set (rd_runs s)" "seal_held nt k (sc_owner l) (sc_token l) r"
    by (auto simp: rowcount_pos)
  then have "row_of rn_id k (rd_runs s) = Some r"
    by (intro row_of_matching runs_okD [OF 3(1)]) (auto simp: seal_held_def)
  with r show ?case by (simp add: seal_token_of_def row_measure_def seal_held_def)
next
  case (4 s k l t)
  then obtain now secs x where "begin_evidence_seal now k (sc_owner l) secs s = (Inr x, t)" by (auto simp: seal_granted_def)
  then show ?case using st_seal_begin [of redact repr_of sha s now k "sc_owner l" secs] by simp
next
  case (5 s k l t)
  then show ?case by (simp add: seal_granted_token)
qed

interpretation capsule_lease: fenced_lease runs_ok "run_step redact repr_of sha" capsule_token_of cb_token capsule_accepted
    "capsule_granted redact"
  for redact repr_of sha
proof (unfold_locales, goal_cases)
  case (1 s t)
  then show ?case by (blast intro: run_effect_ok run_step_effect)
next
  case (2 s t k)
  then show ?case unfolding capsule_token_of_def
    by (intro token_mono run_step_effect) (auto simp: extends_defs run_inv_def)
next
  case (3 s k l)
  then obtain r where r: "r \<in> set (rd_runs s)" "rn_id r = k" "rc_capsule_token (rn_record r) = cb_token l"
    by (auto simp: capsule_accepted_def assert_capsule_build_def dest!: fetchone_Some)
  then have "row_of rn_id k (rd_runs s) = Some r" by (intro row_of_matching runs_okD [OF 3(1)]) auto
  with r show ?case by (simp add: capsule_token_of_def row_measure_def)
next
  case (4 s k l t)
  then obtain now where "begin_capsule_build redact now k (cb_key l) s = (Inr l, t)" by (auto simp: capsule_granted_def)
  then show ?case using st_capsule_begin [of redact repr_of sha s now k "cb_key l"] by simp
next
  case (5 s k l t)
  then show ?case by (simp add: capsule_granted_token)
qed

end
