(* ===== verification/RunProps.thy ===== *)
theory RunProps
  imports SealSafety
begin

text \<open>
  The properties of the Run store: what a Run's row keeps for good, lineage, and what the evidence seal
  promises. The first section holds one concrete history, at which the properties are applied.
\<close>

section \<open>A concrete history\<close>

definition r_time :: "nat \<Rightarrow> datetime" where
  "r_time s = DateTime 2026 1 5 10 0 s 0"

definition r_spec :: "string \<Rightarrow> string option \<Rightarrow> run_spec" where
  "r_spec rid parent = \<lparr>spec_run_id = rid, spec_owner = ''ann'', spec_workdir = ''/w'', spec_script = ''run.sh'',
     spec_resource_plan = JObj [(''nodes'', JInt 1)], spec_job_name = None, spec_contract_id = None,
     spec_parent = parent, spec_lineage_reason = None, spec_plan_id = None, spec_attempt = 0,
     spec_workflow = JObj [], spec_retry_not_before = None, spec_workspace_revision = None,
     spec_workspace_digest = None, spec_source_revision = None, spec_snapshot_ref = None, spec_created_at = []\<rparr>"

abbreviation r_step :: "run_db \<Rightarrow> run_db \<Rightarrow> bool" where
  "r_step \<equiv> run_step (\<lambda>j. j) (\<lambda>j. []) (\<lambda>s. s)"

definition r_db1 :: run_db where
  "r_db1 = snd (create_run (\<lambda>j. j) (\<lambda>j. []) (r_time 1) (r_spec ''a'' None) empty_run_db)"

definition r_db2 :: run_db where
  "r_db2 = snd (create_run (\<lambda>j. j) (\<lambda>j. []) (r_time 2) (r_spec ''b'' (Some ''a'')) r_db1)"

definition r_db3 :: run_db where
  "r_db3 = snd (claim_submission (\<lambda>j. j) (r_time 3) ''a'' (Some ''w'') (Some 1) r_db2)"

definition r_receipt :: submit_receipt where
  "r_receipt = \<lparr>rcp_job_id = ''77'', rcp_state = RS_SUBMITTED, rcp_strategy = ST_COMMAND, rcp_raw = JObj []\<rparr>"

definition r_db4 :: run_db where
  "r_db4 = snd (apply_submit_receipt (\<lambda>j. j) (r_time 4) ''a'' r_receipt (Some ''w'') (Some 1) r_db3)"

lemma r_reachable:
  "reachable_runs (\<lambda>j. j) (\<lambda>j. []) (\<lambda>s. s) r_db1" "r_step r_db1 r_db2" "r_step r_db2 r_db3" "r_step r_db3 r_db4"
  by (auto simp: reachable_runs_def r_db1_def r_db2_def r_db3_def r_db4_def intro: run_step.intros)

lemma reachable_runs_step:
  "reachable_runs redact repr_of sha db \<Longrightarrow> (run_step redact repr_of sha)\<^sup>*\<^sup>* db db' \<Longrightarrow> reachable_runs redact repr_of sha db'"
  by (auto simp: reachable_runs_def)

definition r_row :: "string \<Rightarrow> string option \<Rightarrow> int \<Rightarrow> nat \<Rightarrow> run_row" where
  "r_row rid parent attempt s = new_run_row (stored_spec (r_time s) attempt (r_spec rid parent))"

lemma r_rows: "rd_runs r_db1 = [r_row ''a'' None 0 1]" "rd_runs r_db2 = [r_row ''a'' None 0 1, r_row ''b'' (Some ''a'') 1 2]"
  and r_tasks: "rd_tasks r_db1 = []" "rd_task_seq r_db1 = 0"
  by (simp_all add: r_db1_def r_db2_def create_run_def create_run_tx_def child_attempt_def lineage_check_def
      r_spec_def append_event_tx_def commit_def bind_res_def then_read_def empty_run_db_def new_run_row_def
      stored_spec_def r_row_def)

section \<open>Runs\<close>

text \<open>C15. A Run's history: whatever the store's clients do after a Run was created, its row stays with the
  same specification (owner, directory, script, plan, lineage, provenance); once it left VALIDATED it never
  returns there, so it is never up for a first submission again; a recorded job id never changes; the three
  fencing tokens never decrease; a READY capsule keeps its state and build identity; an evidence seal that is
  sealed or invalid never changes; and no event is dropped or rewritten.\<close>

theorem run_history:
  assumes "reachable_runs redact repr_of sha db"
    and "(run_step redact repr_of sha)\<^sup>*\<^sup>* db db'" and "r \<in> set (rd_runs db)"
  shows "prefix (rd_events db) (rd_events db') \<and> (\<exists>r' \<in> set (rd_runs db'). rn_spec r' = rn_spec r \<and>
    (rc_state (rn_record r) \<noteq> RS_VALIDATED \<longrightarrow> rc_state (rn_record r') \<noteq> RS_VALIDATED) \<and>
    (rc_job_id (rn_record r) \<noteq> None \<longrightarrow> rc_job_id (rn_record r') = rc_job_id (rn_record r)) \<and>
    rn_sub_token r \<le> rn_sub_token r' \<and> rc_capsule_token (rn_record r) \<le> rc_capsule_token (rn_record r') \<and>
    seal_token (rn_seal r) \<le> seal_token (rn_seal r') \<and>
    (rc_capsule (rn_record r) = CAP_READY \<and> rc_capsule_key (rn_record r) \<noteq> None \<longrightarrow>
       rc_capsule (rn_record r') = CAP_READY \<and> rc_capsule_key (rn_record r') = rc_capsule_key (rn_record r)) \<and>
    (seal_status (rn_seal r) \<in> {SEAL_SEALED, SEAL_INVALID} \<longrightarrow> rn_seal r' = rn_seal r))"
proof -
  have ok: "runs_ok db" using assms(1) by (rule reachable_runs_ok)
  have e: "run_effect db db'" using run_steps_effect [OF assms(2) ok] by simp
  have "row_of rn_id (rn_id r) (rd_runs db) = Some r"
    using assms(3) by (intro row_of_matching runs_okD [OF ok]) auto
  from run_effect_row [OF e ok this] obtain r' where "r' \<in> set (rd_runs db')" "run_extends r r'"
    by (auto dest: row_of_SomeD)
  with e show ?thesis by (auto simp: run_effect_def extends_defs intro!: bexI [of _ r'])
qed

lemma run_history_witness: "\<exists>r' \<in> set (rd_runs r_db4). rn_spec r' = rn_spec (r_row ''a'' None 0 1)"
proof -
  have "r_step\<^sup>*\<^sup>* r_db1 r_db4"
    by (rule rtranclp.rtrancl_into_rtrancl [OF rtranclp.rtrancl_into_rtrancl
          [OF r_into_rtranclp [of r_step, OF r_reachable(2)] r_reachable(3)] r_reachable(4)])
  moreover have "r_row ''a'' None 0 1 \<in> set (rd_runs r_db1)" by (simp add: r_rows)
  ultimately show ?thesis using run_history [OF r_reachable(1)] by blast
qed

text \<open>Lineage.\<close>

lemma reachable_links:
  assumes "reachable_runs redact repr_of sha db" and "r \<in> set (rd_runs db)"
  shows "lineage_link (rn_spec r) (rd_runs db)"
proof -
  have "run_stmts (rd_runs empty_run_db) (rd_runs db)"
    using assms(1) run_steps_effect runs_ok_empty unfolding reachable_runs_def run_effect_def by blast
  then show ?thesis
    by (rule lineage_links) (use assms(2) in \<open>auto simp: empty_run_db_def\<close>)
qed

lemma stmts_attempt: "run_stmts [] t \<Longrightarrow> r \<in> set t \<Longrightarrow> 0 \<le> spec_attempt (rn_spec r)"
proof (induction arbitrary: r rule: rtranclp_induct)
  case base
  then show ?case by simp
next
  case (step t u)
  from step.hyps(2) show ?case
  proof (cases rule: run_stmt.cases)
    case (rt_insert x)
    have "0 \<le> spec_attempt (rn_spec x)"
      using rt_insert(4) step.IH by (fastforce simp: lineage_link_def split: option.splits)
    with rt_insert(1) step show ?thesis by auto
  next
    case (rt_update x x')
    have "rn_spec x' = rn_spec x" using rt_update(3) by (rule run_row_step_spec)
    with rt_update step.IH [OF rt_update(2)] step.IH [of r] step.prems show ?thesis
      by (auto dest: set_put_row)
  qed
qed

lemma reachable_attempt:
  assumes "reachable_runs redact repr_of sha db" and "r \<in> set (rd_runs db)"
  shows "0 \<le> spec_attempt (rn_spec r)"
proof -
  have "run_stmts (rd_runs empty_run_db) (rd_runs db)"
    using assms(1) run_steps_effect runs_ok_empty unfolding reachable_runs_def run_effect_def by blast
  then show ?thesis by (intro stmts_attempt [OF _ assms(2)]) (simp add: empty_run_db_def)
qed

text \<open>\<open>p\<close> is the chain from the root to \<open>c\<close>.\<close>

definition root_path :: "run_record list \<Rightarrow> run_record \<Rightarrow> bool" where
  "root_path p c \<longleftrightarrow> p \<noteq> [] \<and> last p = c \<and>
     (\<forall>i < length p. spec_owner (rc_spec (p ! i)) = spec_owner (rc_spec c) \<and> spec_attempt (rc_spec (p ! i)) = int i \<and>
        spec_parent (rc_spec (p ! i)) = (if i = 0 then None else Some (rc_id (p ! (i - 1)))))"

lemma root_path_snoc:
  assumes "root_path p q" and "spec_owner (rc_spec q) = spec_owner (rc_spec c)"
    and "spec_attempt (rc_spec c) = int (length p)" and "spec_parent (rc_spec c) = Some (rc_id q)"
  shows "root_path (p @ [c]) c"
proof -
  have "p \<noteq> []" and "p ! (length p - 1) = q" using assms(1) by (auto simp: root_path_def last_conv_nth)
  with assms show ?thesis by (auto simp: root_path_def nth_append less_Suc_eq)
qed

lemma root_path_length: "root_path p c \<Longrightarrow> length p = nat (spec_attempt (rc_spec c)) + 1"
  by (auto simp: root_path_def last_conv_nth)

lemma lineage_loop_step:
  assumes "rc_id c \<notin> set seen" and "spec_parent (rc_spec c) = Some p" and "get_run p db = Inr q"
    and "spec_owner (rc_spec q) = spec_owner (rc_spec (hd (lin @ [c])))"
  shows "lineage_loop db c seen lin = lineage_loop db q (rc_id c # seen) (lin @ [c])"
  using assms by (subst lineage_loop.simps) (simp del: lineage_loop.simps)

lemma hd_snoc: "hd ((xs @ [x]) @ [y]) = hd (xs @ [x])"
  by (cases xs) simp_all

lemma lineage_loop_path:
  assumes ok: "runs_ok db" and links: "\<And>r. r \<in> set (rd_runs db) \<Longrightarrow> lineage_link (rn_spec r) (rd_runs db)"
    and nonneg: "\<And>r. r \<in> set (rd_runs db) \<Longrightarrow> 0 \<le> spec_attempt (rn_spec r)"
  shows "r \<in> set (rd_runs db) \<Longrightarrow> spec_attempt (rn_spec r) = int n \<Longrightarrow>
    (\<And>q. q \<in> set (rd_runs db) \<Longrightarrow> rn_id q \<in> set seen \<Longrightarrow> int n < spec_attempt (rn_spec q)) \<Longrightarrow>
    spec_owner (rn_spec r) = spec_owner (rc_spec (hd (lin @ [rn_record r]))) \<Longrightarrow>
    \<exists>p. lineage_loop db (rn_record r) seen lin = Inr (p @ rev lin) \<and> root_path p (rn_record r)"
proof (induction n arbitrary: r seen lin rule: less_induct)
  case (less n)
  have fresh: "rn_id r \<notin> set seen" using less.prems(1-3) by fastforce
  show ?case
  proof (cases "spec_parent (rn_spec r)")
    case None
    then have "spec_attempt (rn_spec r) = 0" using links [OF less.prems(1)] by (simp add: lineage_link_def)
    with None fresh show ?thesis
      by (subst lineage_loop.simps) (auto simp: Let_def root_path_def)
  next
    case (Some p)
    with links [OF less.prems(1)] obtain q where q: "q \<in> set (rd_runs db)" "rn_id q = p"
      "spec_owner (rn_spec q) = spec_owner (rn_spec r)" "spec_attempt (rn_spec r) = spec_attempt (rn_spec q) + 1"
      by (auto simp: lineage_link_def)
    have get: "get_run p db = Inr (rn_record q)"
      using row_of_matching [OF runs_okD [OF ok] q(1,2)] by (simp add: get_run_def row_of_def)
    let ?m = "nat (spec_attempt (rn_spec q))"
    have m: "?m < n" "spec_attempt (rn_spec q) = int ?m" using nonneg [OF q(1)] q(4) less.prems(2) by auto
    have "\<exists>pth. lineage_loop db (rn_record q) (rn_id r # seen) (lin @ [rn_record r]) = Inr (pth @ rev (lin @ [rn_record r])) \<and>
        root_path pth (rn_record q)"
    proof (rule less.IH [OF m(1) q(1) m(2)])
      fix x
      assume x: "x \<in> set (rd_runs db)" "rn_id x \<in> set (rn_id r # seen)"
      show "int ?m < spec_attempt (rn_spec x)"
      proof (cases "rn_id x = rn_id r")
        case True
        then have "x = r" using x(1) less.prems(1) by (intro keyed_eqI [OF runs_okD [OF ok]])
        with q(4) m(2) show ?thesis by simp
      next
        case False
        with x less.prems(3) [of x] m show ?thesis by simp
      qed
    next
      show "spec_owner (rn_spec q) = spec_owner (rc_spec (hd ((lin @ [rn_record r]) @ [rn_record q])))"
        unfolding hd_snoc using trans [OF q(3) less.prems(4)] .
    qed
    then obtain pth where loop: "lineage_loop db (rn_record q) (rn_id r # seen) (lin @ [rn_record r]) =
        Inr (pth @ rev (lin @ [rn_record r]))" and pth: "root_path pth (rn_record q)" by blast
    have own: "spec_owner (rn_spec q) = spec_owner (rc_spec (hd (lin @ [rn_record r])))"
      using q(3) less.prems(4) by (rule trans)
    have "lineage_loop db (rn_record r) seen lin = Inr (pth @ rev (lin @ [rn_record r]))"
      by (rule lineage_loop_step [OF fresh Some get own, unfolded loop])
    then have "lineage_loop db (rn_record r) seen lin = Inr ((pth @ [rn_record r]) @ rev lin)" by simp
    moreover have "root_path (pth @ [rn_record r]) (rn_record r)"
      using pth q(3) by (rule root_path_snoc) (use root_path_length [OF pth] q m Some in auto)
    ultimately show ?thesis by blast
  qed
qed

text \<open>C22. Following a Run's lineage always ends, at a root: for every Run the store holds,
  \<open>list_run_lineage\<close> returns (neither the cycle nor the owner check nor a missing parent ever fires) the chain
  of its ancestors, oldest first and itself last, all of one owner, the \<open>i\<close>-th being attempt \<open>i\<close> and the child
  of the one before.\<close>

theorem lineage_returns:
  assumes "reachable_runs redact repr_of sha db" and "get_run rid db = Inr c"
  shows "\<exists>l. list_run_lineage rid db = Inr l \<and> l \<noteq> [] \<and> last l = c \<and>
    (\<forall>i < length l. spec_owner (rc_spec (l ! i)) = spec_owner (rc_spec c) \<and> spec_attempt (rc_spec (l ! i)) = int i \<and>
       spec_parent (rc_spec (l ! i)) = (if i = 0 then None else Some (rc_id (l ! (i - 1)))))"
proof -
  from get_run_Inr [OF assms(2)] obtain r where r: "r \<in> set (rd_runs db)" "rn_record r = c" by blast
  have "\<exists>p. lineage_loop db (rn_record r) [] [] = Inr (p @ rev []) \<and> root_path p (rn_record r)"
    using reachable_runs_ok [OF assms(1)] reachable_links [OF assms(1)] reachable_attempt [OF assms(1)] r(1)
    by (rule lineage_loop_path [where n = "nat (spec_attempt (rn_spec r))"])
      (use reachable_attempt [OF assms(1) r(1)] in auto)
  with r(2) assms(2) show ?thesis by (simp add: list_run_lineage_def root_path_def)
qed

lemma lineage_returns_witness:
  "\<exists>l. list_run_lineage ''b'' r_db2 = Inr l \<and> last l = rn_record (r_row ''b'' (Some ''a'') 1 2)"
proof -
  have "reachable_runs (\<lambda>j. j) (\<lambda>j. []) (\<lambda>s. s) r_db2"
    using r_reachable by (meson reachable_runs_step r_into_rtranclp)
  moreover have "get_run ''b'' r_db2 = Inr (rn_record (r_row ''b'' (Some ''a'') 1 2))"
    by (simp add: get_run_def r_rows r_row_def new_run_row_def stored_spec_def r_spec_def)
  ultimately show ?thesis using lineage_returns by blast
qed

section \<open>Slurm readings\<close>

text \<open>What a Slurm reading can say: whatever Slurm answers, the state \<open>normalize_slurm_state\<close> gives is one of
  the seven a job has there (never VALIDATED, SUBMITTING or another state of the control plane's own, so no
  reading can put a Run back before its submission), the flags come back in capitals without the empty ones,
  and the first flag the table knows decides, whatever unknown flags precede it.\<close>

theorem normalize_slurm_state_type:
  "fst (normalize_slurm_state raw) \<in> {RS_PENDING, RS_RUNNING, RS_COMPLETING, RS_SUCCEEDED, RS_FAILED, RS_CANCELLED, RS_UNKNOWN}
   \<and> snd (normalize_slurm_state (Raw_Flags fs)) = map upper (filter (\<lambda>f. f \<noteq> []) fs)
   \<and> fst (normalize_slurm_state (Raw_Flags fs)) =
       (case filter (\<lambda>f. lookup_flag (upper f) \<in> fst ` set slurm_to_run_state) fs of
          [] \<Rightarrow> RS_UNKNOWN
        | f # _ \<Rightarrow> the (map_of slurm_to_run_state (lookup_flag (upper f))))"
proof (intro conjI)
  show "fst (normalize_slurm_state raw) \<in> {RS_PENDING, RS_RUNNING, RS_COMPLETING, RS_SUCCEEDED, RS_FAILED, RS_CANCELLED, RS_UNKNOWN}"
    using first_known_range slurm_run_states_cases by (simp add: normalize_slurm_state_def Let_def) blast
  show "snd (normalize_slurm_state (Raw_Flags fs)) = map upper (filter (\<lambda>f. f \<noteq> []) fs)"
    by (simp add: normalize_slurm_state_def Let_def)
  have empty: "lookup_flag (upper []) \<notin> fst ` set slurm_to_run_state"
    by (simp add: upper_def lookup_flag_def slurm_to_run_state_def)
  have "first_known (map upper (filter (\<lambda>f. f \<noteq> []) fs)) =
      (case filter (\<lambda>f. lookup_flag (upper f) \<in> fst ` set slurm_to_run_state) fs of
          [] \<Rightarrow> RS_UNKNOWN
        | f # _ \<Rightarrow> the (map_of slurm_to_run_state (lookup_flag (upper f))))"
  proof (induction fs)
    case (Cons f fs)
    have known: "map_of slurm_to_run_state k = Some x \<Longrightarrow> k \<in> fst ` set slurm_to_run_state" for k x
      by (force dest: map_of_SomeD)
    have unknown: "map_of slurm_to_run_state k = None \<Longrightarrow> k \<notin> fst ` set slurm_to_run_state" for k
      by (simp add: map_of_eq_None_iff)
    from Cons empty show ?case
      by (cases "f = []"; cases "map_of slurm_to_run_state (lookup_flag (upper f))")
        (simp_all add: known unknown)
  qed simp
  then show "fst (normalize_slurm_state (Raw_Flags fs)) =
       (case filter (\<lambda>f. lookup_flag (upper f) \<in> fst ` set slurm_to_run_state) fs of
          [] \<Rightarrow> RS_UNKNOWN
        | f # _ \<Rightarrow> the (map_of slurm_to_run_state (lookup_flag (upper f))))"
    by (simp add: normalize_slurm_state_def Let_def)
qed

section \<open>Evidence seals\<close>

text \<open>A Run that is submitted, whose two tasks succeed, that is cancelled and sealed twice.\<close>

definition q_db2 :: run_db where
  "q_db2 = snd (claim_submission (\<lambda>j. j) (r_time 2) ''a'' (Some ''w'') (Some 1) r_db1)"
definition q_db3 :: run_db where
  "q_db3 = snd (apply_submit_receipt (\<lambda>j. j) (r_time 3) ''a'' r_receipt (Some ''w'') (Some 1) q_db2)"
definition q_db4 :: run_db where
  "q_db4 = snd (mark_collection_task_succeeded (\<lambda>j. j) (r_time 4) 1 None None None q_db3)"
definition q_db5 :: run_db where
  "q_db5 = snd (mark_collection_task_succeeded (\<lambda>j. j) (r_time 5) 2 None None None q_db4)"
definition q_db6 :: run_db where
  "q_db6 = snd (update_state (\<lambda>j. j) (r_time 6) ''a'' RS_CANCELLED ''run.cancelled'' None q_db5)"
definition q_db7 :: run_db where
  "q_db7 = snd (begin_evidence_seal (r_time 7) ''a'' ''s1'' 10 q_db6)"
definition q_db8 :: run_db where
  "q_db8 = snd (begin_evidence_seal (r_time 20) ''a'' ''s2'' 10 q_db7)"

lemma q_steps: "r_step r_db1 q_db2" "r_step q_db2 q_db3" "r_step q_db3 q_db4" "r_step q_db4 q_db5" "r_step q_db5 q_db6"
  by (auto simp: q_db2_def q_db3_def q_db4_def q_db5_def q_db6_def intro: run_step.intros)

lemma q_reachable: "reachable_runs (\<lambda>j. j) (\<lambda>j. []) (\<lambda>s. s) q_db6"
  using r_reachable(1) q_steps by (meson reachable_runs_step r_into_rtranclp)

definition q_row :: "run_state \<Rightarrow> collection_state \<Rightarrow> nat \<Rightarrow> run_row" where
  "q_row s cs t = (let r = upd_receipt (r_time 3) r_receipt (upd_claim_submission (r_time 2) (Some ''w'') (Some 1) (r_row ''a'' None 0 1))
     in upd_record (\<lambda>c. c\<lparr>rc_state := s, rc_collection := cs, rc_updated_at := isoformat (r_time t)\<rparr>) r)"

definition q_task :: "int \<Rightarrow> string \<Rightarrow> nat option \<Rightarrow> collection_task" where
  "q_task tid ty done_at = (let t = new_task_row (r_time 3) tid ''a'' ty in
     case done_at of None \<Rightarrow> t | Some n \<Rightarrow> upd_task_settle (isoformat (r_time n)) CT_succeeded (ct_next_attempt t) t)"

lemmas q_eval = then_read_def commit_def bind_res_def append_event_tx_def refresh_collection_state_def run_upd_defs
  sql_update_def rowcount_def q_row_def r_row_def new_run_row_def stored_spec_def r_spec_def open_seal_def

lemma q2_rows: "rd_runs q_db2 = [upd_claim_submission (r_time 2) (Some ''w'') (Some 1) (r_row ''a'' None 0 1)]"
  "rd_tasks q_db2 = []" "rd_task_seq q_db2 = 0"
  by (simp_all add: q_db2_def claim_submission_def claim_submission_tx_def submission_claimable_def r_rows
      r_tasks q_eval split: option.split)

lemma q3_rows: "rd_runs q_db3 = [q_row RS_SUBMITTED CS_PENDING 3]"
  "rd_tasks q_db3 = [q_task 1 ''submission_snapshot'' None, q_task 2 ''runtime_status'' None]"
  by (simp_all add: q_db3_def apply_submit_receipt_def apply_submit_receipt_tx_def receipt_where_def q2_rows
      r_receipt_def q_eval ensure_task_def insert_ignore_def new_task_row_def q_task_def)

lemma q_task_sel [simp]: "ct_id (q_task i ty n) = i" "ct_run (q_task i ty n) = ''a''" "ct_type (q_task i ty n) = ty"
  "ct_state (q_task i ty n) = (if n = None then CT_pending else CT_succeeded)"
  by (auto simp: q_task_def Let_def new_task_row_def upd_task_settle_def split: option.splits)

lemma q_task_settle: "upd_task_settle (isoformat (r_time n)) CT_succeeded (ct_next_attempt (q_task i ty None)) (q_task i ty None)
    = q_task i ty (Some n)"
  by (simp add: q_task_def Let_def)

lemma q_summary: "collection_summary ''a'' [q_task i a (Some n), q_task j b m] = (if m = None then CS_PENDING else CS_SUCCEEDED)"
  by (cases m) (simp_all add: collection_summary_def Let_def del: set_map set_filter)

lemmas settle_eval = mark_collection_task_succeeded_def settle_tx_def settle_where_def task_event_tx_def
  get_collection_task_def q_summary q_task_settle

lemma q4_rows: "rd_runs q_db4 = [q_row RS_SUBMITTED CS_PENDING 4]"
  "rd_tasks q_db4 = [q_task 1 ''submission_snapshot'' (Some 4), q_task 2 ''runtime_status'' None]"
  by (simp_all add: q_db4_def settle_eval q3_rows q_eval)

lemma q5_rows: "rd_runs q_db5 = [q_row RS_SUBMITTED CS_SUCCEEDED 5]"
  "rd_tasks q_db5 = [q_task 1 ''submission_snapshot'' (Some 4), q_task 2 ''runtime_status'' (Some 5)]"
  by (simp_all add: q_db5_def settle_eval q4_rows q_eval)

lemma q6_rows: "rd_runs q_db6 = [q_row RS_CANCELLED CS_SUCCEEDED 6]" "rd_tasks q_db6 = rd_tasks q_db5"
  by (simp_all add: q_db6_def update_state_def update_state_tx_def q5_rows q_eval)

definition q_sealed :: "nat \<Rightarrow> string \<Rightarrow> run_row \<Rightarrow> run_row" where
  "q_sealed n who = upd_begin_seal (isoformat (r_time n)) who (isoformat (r_time (n + 10)))"

lemma q7: "begin_evidence_seal (r_time 7) ''a'' ''s1'' 10 q_db6 =
    (Inr (rn_seal (q_sealed 7 ''s1'' (q_row RS_CANCELLED CS_SUCCEEDED 6))), q_db7)"
  and q7_rows: "rd_runs q_db7 = [q_sealed 7 ''s1'' (q_row RS_CANCELLED CS_SUCCEEDED 6)]"
  by (simp_all add: q_db7_def begin_evidence_seal_def begin_evidence_seal_tx_def sealable_def get_evidence_seal_def
      space_char_def terminal_run_states_def q6_rows q_sealed_def r_time_def q_eval split: option.split)

lemma q8: "begin_evidence_seal (r_time 20) ''a'' ''s2'' 10 q_db7 =
    (Inr (rn_seal (q_sealed 20 ''s2'' (q_sealed 7 ''s1'' (q_row RS_CANCELLED CS_SUCCEEDED 6)))), q_db8)"
proof -
  have "isoformat (r_time 17) < isoformat (r_time 20)"
    by (subst isoformat_less) (simp_all add: r_time_def clock_simps days_in_month_def)
  then show ?thesis
    by (simp add: q_db8_def begin_evidence_seal_def begin_evidence_seal_tx_def sealable_def get_evidence_seal_def
        after_now_def space_char_def terminal_run_states_def q7_rows q_sealed_def r_time_def q_eval split: option.split)
qed

lemma q_seal_steps: "r_step q_db6 q_db7" "r_step q_db7 q_db8"
  by (auto simp: q_db7_def q_db8_def intro: run_step.intros)

text \<open>C14. Evidence is sealed only when it is complete: if a worker's \<open>begin_evidence_seal\<close> is granted a new claim,
  then the Run has ended, it has collection tasks, and every one of them has succeeded.\<close>

theorem sealing_needs_complete_collection:
  assumes "reachable_runs redact repr_of sha db"
    and "begin_evidence_seal now rid who n db = (Inr s, db')" and "seal_status s = SEAL_PREPARING"
  shows "\<exists>r \<in> set (rd_runs db). rn_id r = rid \<and> rc_state (rn_record r) \<in> terminal_run_states \<and>
    (\<exists>t \<in> set (rd_tasks db). ct_run t = rid) \<and> (\<forall>t \<in> set (rd_tasks db). ct_run t = rid \<longrightarrow> ct_state t = CT_succeeded)"
proof -
  have ok: "runs_ok db" and col: "collected db"
    using assms(1) by (rule reachable_runs_ok, rule reachable_collected)
  from assms(2) obtain ex where tx: "begin_evidence_seal_tx (isoformat now) rid who ex db = Inr ((), db')"
    and s: "get_evidence_seal rid db' = Inr s"
    by (auto simp: begin_evidence_seal_def then_read_cases commit_cases simp del: first_failure.simps split: option.splits)
  from tx obtain r where r: "fetchone (\<lambda>r. rn_id r = rid) (rd_runs db) = Some r"
    by (auto simp: begin_evidence_seal_tx_def split: option.splits)
  have "seal_status (rn_seal r) \<noteq> SEAL_SEALED"
    using tx s r assms(3) by (auto simp: begin_evidence_seal_tx_def get_evidence_seal_def split: if_splits)
  with tx r have st: "rc_state (rn_record r) \<in> terminal_run_states" "rc_collection (rn_record r) = CS_SUCCEEDED"
    by (auto simp: begin_evidence_seal_tx_def split: if_splits)
  have in_runs: "r \<in> set (rd_runs db)" "rn_id r = rid" using fetchone_Some [OF r] by auto
  have sum: "collection_summary rid (rd_tasks db) = CS_SUCCEEDED"
    using col in_runs st(2) by (auto simp: collected_but_def)
  then have states: "ct_state ` {t \<in> set (rd_tasks db). ct_run t = rid} = {CT_succeeded}"
    by (simp add: collection_summary_def Let_def split: if_splits)
  with in_runs st(1) show ?thesis by (intro bexI [of _ r]) auto
qed

lemma sealing_needs_complete_collection_witness:
  "\<exists>r \<in> set (rd_runs q_db6). rn_id r = ''a'' \<and> rc_state (rn_record r) \<in> terminal_run_states"
proof -
  have "seal_status (rn_seal (q_sealed 7 ''s1'' (q_row RS_CANCELLED CS_SUCCEEDED 6))) = SEAL_PREPARING"
    by (simp add: q_sealed_def run_upd_defs)
  from sealing_needs_complete_collection [OF q_reachable q7 this] show ?thesis by blast
qed

text \<open>C20. Sealed evidence does not change: from the moment a seal was begun on a Run, its evidence objects stay
  the same, in contents and in number, whatever is done with the store; and an object whose integrity was once
  checked (or revoked) keeps its contents and stays one or the other, on any Run.\<close>

theorem evidence_frozen:
  assumes "reachable_runs redact repr_of sha db" and "(run_step redact repr_of sha)\<^sup>*\<^sup>* db db'"
  shows "(seal_closed rid db \<longrightarrow> map object_values (filter (\<lambda>x. eo_run x = rid) (rd_objects db')) =
       map object_values (filter (\<lambda>x. eo_run x = rid) (rd_objects db))) \<and>
    (\<forall>x \<in> set (rd_objects db). eo_checked_at x \<noteq> None \<or> eo_invalidated_at x \<noteq> None \<longrightarrow>
       (\<exists>y \<in> set (rd_objects db'). eo_id y = eo_id x \<and> eo_run y = eo_run x \<and> object_values y = object_values x \<and>
          (eo_checked_at y \<noteq> None \<or> eo_invalidated_at y \<noteq> None)))"
proof -
  have e: "object_effect db db'" using run_steps_objects [OF assms(2) reachable_runs_ok [OF assms(1)]] by simp
  then show ?thesis unfolding object_effect_def run_objects_def object_kept_def frozen_def by blast
qed

definition q_object :: evidence_object where
  "q_object = \<lparr>eo_id = ''e1'', eo_run = ''a'', eo_category = ''log'', eo_logical_path = ''out.log'', eo_store_path = ''/s/out.log'',
     eo_source_uri = None, eo_sha256 = None, eo_size_bytes = Some 3, eo_mime_type = None, eo_collection_status = ''collected'',
     eo_collection_note = None, eo_mutable_during_run = False, eo_finalized_at = None, eo_workspace_revision = None,
     eo_workspace_digest = None, eo_source_revision = None, eo_snapshot_ref = None, eo_checked_at = None,
     eo_set_digest = None, eo_invalidated_at = None, eo_created_at = [], eo_updated_at = []\<rparr>"

definition q_db9 :: run_db where
  "q_db9 = snd (upsert_evidence_objects (r_time 21) ''a'' [q_object] q_db7)"

lemma evidence_frozen_witness: "seal_closed ''a'' q_db7 \<and>
   map object_values (filter (\<lambda>x. eo_run x = ''a'') (rd_objects q_db9)) =
   map object_values (filter (\<lambda>x. eo_run x = ''a'') (rd_objects q_db7))"
proof -
  have "reachable_runs (\<lambda>j. j) (\<lambda>j. []) (\<lambda>s. s) q_db7"
    using q_reachable q_seal_steps(1) by (meson reachable_runs_step r_into_rtranclp)
  moreover have "r_step\<^sup>*\<^sup>* q_db7 q_db9" unfolding q_db9_def by (intro r_into_rtranclp st_upsert)
  moreover have "seal_closed ''a'' q_db7"
    by (simp add: seal_closed_def q7_rows q_sealed_def run_upd_defs q_row_def r_row_def new_run_row_def stored_spec_def r_spec_def)
  ultimately show ?thesis using evidence_frozen by blast
qed

lemma refused_seal_ops:
  assumes ok: "runs_ok db" and refused: "\<not> seal_accepted rid c db"
  shows "snd (renew_evidence_seal_claim t rid (sc_owner c) (sc_token c) m db) = db"
    and "snd (invalidate_evidence_seal t rid (sc_owner c) (sc_token c) why db) = db"
    and "snd (complete_evidence_seal t rid (sc_owner c) (sc_token c) dg mk db) = db"
    and "\<forall>x. fst (renew_evidence_seal_claim t rid (sc_owner c) (sc_token c) m db) \<noteq> Inr x"
    and "\<forall>x. fst (invalidate_evidence_seal t rid (sc_owner c) (sc_token c) why db) \<noteq> Inr x"
    and "\<forall>x. fst (complete_evidence_seal t rid (sc_owner c) (sc_token c) dg mk db) = Inr x \<longrightarrow>
       seal_status x = SEAL_SEALED \<and> seal_digest x = Some dg \<and> seal_marker x = Some mk"
proof -
  let ?p = "\<lambda>nt. seal_held nt rid (sc_owner c) (sc_token c)"
  have "rowcount (?p nt) (rd_runs db) \<le> 1" for nt
    by (subst rowcount_pinned [OF runs_okD [OF ok], where k = rid]) (auto simp: seal_held_def split: option.split)
  moreover have not1: "rowcount (?p nt) (rd_runs db) \<noteq> 1" for nt using refused by (simp add: seal_accepted_def)
  ultimately have none: "rowcount (?p nt) (rd_runs db) = 0" for nt by (metis le_neq_implies_less less_one)
  show "snd (renew_evidence_seal_claim t rid (sc_owner c) (sc_token c) m db) = db"
    and "\<forall>x. fst (renew_evidence_seal_claim t rid (sc_owner c) (sc_token c) m db) \<noteq> Inr x"
    by (simp_all add: renew_evidence_seal_claim_def Let_def none commit_def then_read_def
        del: first_failure.simps split: option.split)
  show "snd (invalidate_evidence_seal t rid (sc_owner c) (sc_token c) why db) = db"
    and "\<forall>x. fst (invalidate_evidence_seal t rid (sc_owner c) (sc_token c) why db) \<noteq> Inr x"
    by (simp_all add: invalidate_evidence_seal_def Let_def none commit_def then_read_def)
  show "snd (complete_evidence_seal t rid (sc_owner c) (sc_token c) dg mk db) = db"
    by (simp add: complete_evidence_seal_def complete_evidence_seal_tx_def Let_def none commit_def
        del: first_failure.simps split: option.split)
  show "\<forall>x. fst (complete_evidence_seal t rid (sc_owner c) (sc_token c) dg mk db) = Inr x \<longrightarrow>
       seal_status x = SEAL_SEALED \<and> seal_digest x = Some dg \<and> seal_marker x = Some mk"
    by (simp add: complete_evidence_seal_def complete_evidence_seal_tx_def Let_def none commit_def then_read_def
        get_evidence_seal_def del: first_failure.simps split: option.split)
qed

text \<open>Once a second worker has been given the claim on a Run's seal, the first one (whose lease ran out while it
  was preparing the seal) is powerless in every later state of the store: it can neither renew its claim, nor
  complete the seal, nor invalidate it, and trying changes nothing; completing fails unless the seal is by then
  the very seal it asks for.\<close>

theorem superseded_sealer_is_powerless:
  assumes "reachable_runs redact repr_of sha db" and "seal_accepted rid old db"
    and "begin_evidence_seal now rid who n db = (Inr s, db')" and "seal_status s = SEAL_PREPARING"
    and "(run_step redact repr_of sha)\<^sup>*\<^sup>* db' later"
  shows "snd (renew_evidence_seal_claim t rid (sc_owner old) (sc_token old) m later) = later \<and>
    snd (invalidate_evidence_seal t rid (sc_owner old) (sc_token old) why later) = later \<and>
    snd (complete_evidence_seal t rid (sc_owner old) (sc_token old) dg mk later) = later \<and>
    (\<forall>x. fst (renew_evidence_seal_claim t rid (sc_owner old) (sc_token old) m later) \<noteq> Inr x) \<and>
    (\<forall>x. fst (invalidate_evidence_seal t rid (sc_owner old) (sc_token old) why later) \<noteq> Inr x) \<and>
    (\<forall>x. fst (complete_evidence_seal t rid (sc_owner old) (sc_token old) dg mk later) = Inr x \<longrightarrow>
       seal_status x = SEAL_SEALED \<and> seal_digest x = Some dg \<and> seal_marker x = Some mk)"
proof -
  have ok: "runs_ok db" using assms(1) by (rule reachable_runs_ok)
  have granted: "seal_granted rid \<lparr>sc_owner = who, sc_token = seal_token s\<rparr> db db'"
    using assms(3,4) by (auto simp: seal_granted_def)
  have refused: "\<not> seal_accepted rid old later"
    using ok assms(2) granted assms(5) by (rule seal_lease.superseded)
  have step: "run_step redact repr_of sha db db'" using ok granted by (rule seal_lease.claim_step)
  have later: "runs_ok later"
    using assms(5) run_effect_ok [OF run_step_effect [OF step ok] ok] by (rule seal_lease.run_inv)
  show ?thesis using refused_seal_ops [OF later refused] by blast
qed

lemma Nil_less_isoformat: "[] < isoformat t"
  by (cases "isoformat t") (simp_all add: isoformat_def)

lemma superseded_sealer_is_powerless_witness:
  "snd (complete_evidence_seal (r_time 21) ''a'' ''s1'' 1 (replicate 64 CHR ''0'') ''m'' q_db8) = q_db8"
proof -
  have "reachable_runs (\<lambda>j. j) (\<lambda>j. []) (\<lambda>s. s) q_db7"
    using q_reachable q_seal_steps(1) by (meson reachable_runs_step r_into_rtranclp)
  moreover have "seal_accepted ''a'' \<lparr>sc_owner = ''s1'', sc_token = 1\<rparr> q_db7"
    unfolding seal_accepted_def
  proof (intro exI [of _ "[]"])
    show "rowcount (seal_held [] ''a'' (sc_owner \<lparr>sc_owner = ''s1'', sc_token = 1\<rparr>)
       (sc_token \<lparr>sc_owner = ''s1'', sc_token = 1\<rparr>)) (rd_runs q_db7) = 1"
      by (simp add: q7_rows q_sealed_def q_eval seal_held_def after_now_def Nil_less_isoformat)
  qed
  moreover have "seal_status (rn_seal (q_sealed 20 ''s2'' (q_sealed 7 ''s1'' (q_row RS_CANCELLED CS_SUCCEEDED 6)))) = SEAL_PREPARING"
    by (simp add: q_sealed_def run_upd_defs)
  ultimately show ?thesis
    using superseded_sealer_is_powerless [OF _ _ q8 _ rtranclp.rtrancl_refl] by fastforce
qed

end
