(* ===== verification/SubmissionSafety.thy ===== *)
theory SubmissionSafety
  imports Submission ControlProps RunProps
begin

text \<open>
  Many dispatchers at work. A state \<open>sys\<close> has both stores, the threads (each idle or at a phase of a message it
  claimed) and, as a record for the proofs, the Runs for which \<open>backend.submit\<close> was called. A step is one access
  of one thread, its end or its crash, or any operation of the control repository or of the Run store by anyone
  else. The invariant shows that no Run is submitted twice.
\<close>

section \<open>The system\<close>

datatype thread = Th_idle | Th_run bool message phase
  \<comment> \<open>whether in the loop of \<open>dispatch_due_submissions\<close>, the message as claimed, the phase\<close>

record sys =
  sy_control :: control_db
  sy_runs :: run_db
  sy_threads :: "nat \<Rightarrow> thread"
  sy_calls :: "string list"

definition start_sys :: sys where
  "start_sys = \<lparr>sy_control = empty_control, sy_runs = empty_run_db, sy_threads = (\<lambda>_. Th_idle), sy_calls = []\<rparr>"

text \<open>The messages on the topic have the id of their Run: nothing but \<open>enqueue_submission\<close> puts them there.\<close>

definition submit_ids :: "world \<Rightarrow> control_db \<Rightarrow> bool" where
  "submit_ids w cd \<longleftrightarrow> (\<forall>m \<in> set (cd_outbox cd). ms_topic m = ''run.submit'' \<longrightarrow>
     ms_id m = submission_message_id (wo_sha w) (ms_aggregate m))"

fun called :: "phase \<Rightarrow> phase \<Rightarrow> string list" where
  "called (Ph_submit m run intent) (Ph_called _ _ _ _) = [rc_id run]"
| "called _ _ = []"

inductive sys_step :: "world \<Rightarrow> (nat \<Rightarrow> service) \<Rightarrow> sys \<Rightarrow> sys \<Rightarrow> bool" for w svs where
  ss_claim_one: "sy_threads s i = Th_idle \<Longrightarrow>
    claim_outbox_message now (submission_message_id (wo_sha w) rid) (sv_dispatcher (svs i)) (sv_lease_seconds (svs i))
      (sy_control s) = (Inr (Some m), cd) \<Longrightarrow>
    sys_step w svs s (s\<lparr>sy_control := cd, sy_threads := (sy_threads s)(i := Th_run False m (Ph_start m))\<rparr>)"
| ss_claim_next: "sy_threads s i = Th_idle \<Longrightarrow>
    claim_outbox now (sv_dispatcher (svs i)) 1 (sv_lease_seconds (svs i)) [''run.submit''] (sy_control s) = (Inr [m], cd) \<Longrightarrow>
    sys_step w svs s (s\<lparr>sy_control := cd, sy_threads := (sy_threads s)(i := Th_run True m (Ph_start m))\<rparr>)"
| ss_exec: "sy_threads s i = Th_run d m p \<Longrightarrow>
    exec_step w (svs i) now ans p (sy_control s) (sy_runs s) = (p', cd, rd) \<Longrightarrow>
    sys_step w svs s (s\<lparr>sy_control := cd, sy_runs := rd, sy_threads := (sy_threads s)(i := Th_run d m p'),
      sy_calls := sy_calls s @ called p p'\<rparr>)"
| ss_end: "sy_threads s i = Th_run d m (Ph_done r) \<Longrightarrow>
    cd = (case r of Inr _ \<Rightarrow> sy_control s
          | Inl e \<Rightarrow> if d then snd (retry_submission_message w (svs i) now m error (sy_control s)) else sy_control s) \<Longrightarrow>
    sys_step w svs s (s\<lparr>sy_control := cd, sy_threads := (sy_threads s)(i := Th_idle)\<rparr>)"
| ss_crash: "sys_step w svs s (s\<lparr>sy_threads := (sy_threads s)(i := Th_idle)\<rparr>)"
| ss_control: "control_step (wo_iso_ok w) (wo_redact_text w) (sy_control s) cd \<Longrightarrow> submit_ids w cd \<Longrightarrow>
    sys_step w svs s (s\<lparr>sy_control := cd\<rparr>)"
| ss_run: "run_step (wo_redact w) (wo_repr w) (wo_sha w) (sy_runs s) rd \<Longrightarrow> sys_step w svs s (s\<lparr>sy_runs := rd\<rparr>)"

definition reachable_sys :: "world \<Rightarrow> (nat \<Rightarrow> service) \<Rightarrow> sys \<Rightarrow> bool" where
  "reachable_sys w svs s \<longleftrightarrow> (sys_step w svs)\<^sup>*\<^sup>* start_sys s"

section \<open>Accesses are operations of the stores\<close>

abbreviation control_moves :: "world \<Rightarrow> control_db \<Rightarrow> control_db \<Rightarrow> bool" where
  "control_moves w \<equiv> (control_step (wo_iso_ok w) (wo_redact_text w))\<^sup>=\<^sup>="

abbreviation run_moves :: "world \<Rightarrow> run_db \<Rightarrow> run_db \<Rightarrow> bool" where
  "run_moves w \<equiv> (run_step (wo_redact w) (wo_repr w) (wo_sha w))\<^sup>=\<^sup>="

lemma renew_update_outbox: "snd (renew_update now mid ow tok n cd) = snd (renew_outbox now mid ow tok n cd)"
  by (simp add: renew_outbox_def split: prod.split sum.split)

lemma outbox_renew_moves: "control_moves w cd (snd (renew_update now mid ow tok n cd))"
  unfolding renew_update_outbox by (simp add: c_renew_outbox)

lemma retry_moves: "control_moves w cd (snd (retry_submission_message w sv now m error cd))"
  using c_retry [of "wo_iso_ok w" "wo_redact_text w" cd now "ms_id m" "the (ms_lease_owner m)" "ms_token m" error
      "sv_retry_delay_seconds sv" "sv_max_attempts sv"]
  by (auto simp: retry_submission_message_def split: option.split prod.split)

lemma submission_intent_moves: "run_moves w rd (snd (submission_intent w sv now b run rd))"
proof -
  have ev: "run_moves w rd d" if "append_event (wo_redact w) t rid ty pl rd = (r, d)" for t rid ty pl r d
    using st_event [of "wo_redact w" "wo_repr w" "wo_sha w" rd t rid ty pl] that by simp
  then have "run_moves w rd (snd (resolve_dependency_job_ids w now b run rd))"
    by (auto simp: resolve_dependency_job_ids_def split: sum.split prod.split)
  then show ?thesis
    by (auto simp: submission_intent_def split: sum.split prod.split)
qed

lemma step_claim_moves: "run_moves w rd (snd (step_claim w now m run intent rd))"
  using st_claim [of "wo_redact w" "wo_repr w" "wo_sha w" rd now "rc_id run" "the (ms_lease_owner m)" "ms_token m"]
  by (auto simp: step_claim_def split: option.split prod.split sum.split)

lemma receipt_moves: "run_moves w rd (snd (apply_submit_receipt (wo_redact w) now rid r ow (Some tok) rd))"
  using st_receipt [of "wo_redact w" "wo_repr w" "wo_sha w" rd now rid r "the ow" tok]
  by (cases ow) (auto simp: apply_submit_receipt_def)

lemma step_apply_moves: "run_moves w rd (snd (step_apply w now m rid r rd))"
  using receipt_moves [of w rd now rid r "ms_lease_owner m" "ms_token m"]
  by (auto simp: step_apply_def split: prod.split sum.split run_error.split)

lemma step_bind_moves: "run_moves w rd (snd (step_bind w now m rid r rd))"
  using receipt_moves [of w rd now rid r "ms_lease_owner m" "ms_token m"]
  by (auto simp: step_bind_def split: option.split prod.split sum.split)

lemma step_fail_moves: "run_moves w rd (snd (step_fail w now m rid st ty reason a out rd))"
  using st_fail [of "wo_redact w" "wo_repr w" "wo_sha w" rd now rid st ty "the (ms_lease_owner m)" "ms_token m" reason]
  by (auto simp: step_fail_def split: option.split prod.split sum.split run_error.split)

lemma step_candidates_moves: "run_moves w rd (snd (step_candidates w now rid ms rd))"
  using st_event [of "wo_redact w" "wo_repr w" "wo_sha w" rd now rid]
  by (auto simp: step_candidates_def split: prod.split sum.split) (metis snd_conv)+

lemma step_ack_moves: "control_moves w cd (snd (step_ack now m out cd))"
  using c_acknowledge [of "wo_iso_ok w" "wo_redact_text w" cd now "ms_id m" "the (ms_lease_owner m)" "ms_token m"]
  by (auto simp: step_ack_def split: option.split prod.split sum.split control_error.split)

lemma step_renew_moves: "control_moves w cd (snd (step_renew sv now m run intent cd))"
  using outbox_renew_moves [of w cd now "ms_id m" "the (ms_lease_owner m)" "ms_token m" "sv_lease_seconds sv"]
  by (auto simp: step_renew_def split: option.split prod.split sum.split control_error.split)

lemma step_retry_moves: "control_moves w cd (snd (step_retry w sv now m error nx cd))"
  using retry_moves [of w cd sv now m error] by (auto simp: step_retry_def split: prod.split sum.split)

text \<open>Every access is at most one operation of each store.\<close>

lemma exec_moves:
  assumes "exec_step w sv now ans p cd rd = (p', cd', rd')"
  shows "control_moves w cd cd' \<and> run_moves w rd rd'"
proof (cases p)
  case (Ph_intent m run)
  with assms show ?thesis
    using submission_intent_moves [of w rd sv now True run] by (auto split: prod.splits sum.splits)
next
  case (Ph_claim m run intent)
  with assms show ?thesis using step_claim_moves [of w rd now m run intent] by (auto split: prod.splits)
next
  case (Ph_renew m run intent)
  with assms show ?thesis using step_renew_moves [of w cd sv now m run intent] by (auto split: prod.splits)
next
  case (Ph_apply m rid r)
  with assms show ?thesis using step_apply_moves [of w rd now m rid r] by (auto split: prod.splits)
next
  case (Ph_bind m rid r)
  with assms show ?thesis using step_bind_moves [of w rd now m rid r] by (auto split: prod.splits)
next
  case (Ph_retry m error nx)
  with assms show ?thesis using step_retry_moves [of w cd sv now m error nx] by (auto split: prod.splits)
next
  case (Ph_fail m rid st ty reason a out)
  with assms show ?thesis using step_fail_moves [of w rd now m rid st ty reason a out] by (auto split: prod.splits)
next
  case (Ph_ack m out)
  with assms show ?thesis using step_ack_moves [of w cd now m out] by (auto split: prod.splits)
next
  case (Ph_candidates rid ms)
  with assms show ?thesis using step_candidates_moves [of w rd now rid ms] by (auto split: prod.splits)
qed (use assms in auto)

section \<open>What a phase may still do\<close>

text \<open>Up to the renewal a thread works under the message it claimed; once it has read a state other than SUBMITTING it
  is armed, and
  once the renewal was granted it is cleared to call the backend.\<close>

fun holding :: "phase \<Rightarrow> message option" where
  "holding (Ph_start m) = Some m"
| "holding (Ph_intent m run) = Some m"
| "holding (Ph_claim m run intent) = Some m"
| "holding (Ph_renew m run intent) = Some m"
| "holding _ = None"

fun armed :: "phase \<Rightarrow> string option" where
  "armed (Ph_intent m run) = (if rc_state run = RS_SUBMITTING then None else Some (rc_id run))"
| "armed (Ph_claim m run intent) = (if rc_state run = RS_SUBMITTING then None else Some (rc_id run))"
| "armed (Ph_renew m run intent) = Some (rc_id run)"
| "armed _ = None"

fun claimed :: "phase \<Rightarrow> string option" where
  "claimed (Ph_renew m run intent) = Some (rc_id run)"
| "claimed _ = None"

fun cleared :: "phase \<Rightarrow> string option" where
  "cleared (Ph_read_back m run intent) = Some (rc_id run)"
| "cleared (Ph_submit m run intent) = Some (rc_id run)"
| "cleared _ = None"

text \<open>A Run that is out of VALIDATED.\<close>

definition left :: "string \<Rightarrow> run_db \<Rightarrow> bool" where
  "left rid rd \<longleftrightarrow> (\<exists>r. row_of rn_id rid (rd_runs rd) = Some r \<and> rc_state (rn_record r) \<noteq> RS_VALIDATED)"

lemma left_step:
  assumes "run_moves w rd rd'" and "runs_ok rd" and "left rid rd"
  shows "left rid rd'"
proof (cases "rd' = rd")
  case False
  with assms(1) have "run_effect rd rd'" using run_step_effect [OF _ assms(2)] by auto
  with assms(3) show ?thesis
    using run_effect_row [OF _ assms(2)] by (fastforce simp: left_def extends_defs)
qed (use assms in simp)

lemma left_get: "left rid rd \<Longrightarrow> get_run rid rd = Inr run \<Longrightarrow> rc_state run \<noteq> RS_VALIDATED"
  by (auto simp: left_def get_run_def row_of_def)

lemma claim_leaves:
  assumes "claim_submission redact now rid (Some ow) (Some tok) rd = (Inr True, rd')" and ok: "runs_ok rd"
  shows "left rid rd'"
proof -
  let ?p = "submission_claimable rid (Some tok)" and ?f = "upd_claim_submission now (Some ow) (Some tok)"
  have p: "\<And>x. ?p x \<Longrightarrow> rn_id x = rid" by (simp add: submission_claimable_def)
  from assms(1) have rows: "rowcount ?p (rd_runs rd) = 1" "rd_runs rd' = sql_update ?p ?f (rd_runs rd)"
    by (auto simp: claim_submission_def commit_cases claim_submission_tx_def Let_def bind_res_Inr_iff append_event_Inr
        simp del: first_failure.simps split: option.splits if_splits)
  then obtain r where r: "row_of rn_id rid (rd_runs rd) = Some r" "?p r"
    using rowcount_pinned [OF runs_okD [OF ok] p] by (auto split: option.splits if_splits)
  then have "row_of rn_id rid (rd_runs rd') = Some (?f r)"
    unfolding rows(2) by (subst row_of_sql_update) (auto simp: run_upd_defs)
  then show ?thesis by (simp add: left_def run_upd_defs)
qed

lemma renew_granted_token:
  assumes "renew_update now mid ow tok n cd = (Inr x, cd')" and ok: "control_ok cd"
  shows "message_token_of mid cd = tok"
proof -
  define p where "p m \<longleftrightarrow> outbox_held mid ow tok m \<and> (case ms_lease_expires m of None \<Rightarrow> False | Some e \<Rightarrow> isoformat now < e)" for m
  have "rowcount p (cd_outbox cd) = 1"
    using assms(1) unfolding renew_update_def Let_def p_def [symmetric]
    by (simp del: first_failure.simps split: option.splits if_splits)
  then obtain r where r: "r \<in> set (cd_outbox cd)" "p r" using rowcount_pos [of p "cd_outbox cd"] by auto
  then have held: "outbox_held mid ow tok r" by (simp add: p_def)
  then have "row_of ms_id mid (cd_outbox cd) = Some r"
    using r(1) control_okD(2) [OF ok] by (simp add: row_of_Some_iff outbox_held_def)
  with held show ?thesis by (simp add: message_token_of_def row_measure_def outbox_held_def)
qed

text \<open>One access of a thread, seen through these functions.\<close>

definition past_call :: "phase \<Rightarrow> bool" where
  "past_call p \<longleftrightarrow> holding p = None \<and> armed p = None \<and> claimed p = None \<and> cleared p = None"

lemma past_conclude [simp]: "past_call (conclude out)"
  by (cases out) (simp_all add: past_call_def)

lemma past_raise [simp]: "past_call (raise e)" "past_call (failed m rid reason e)" "past_call (transport_failed m rid)"
  by (simp_all add: past_call_def raise_def failed_def transport_failed_def)

lemma past_phases [simp]: "past_call (Ph_called m run i t)" "past_call (Ph_receipt m rid r)" "past_call (Ph_apply m rid r)"
  "past_call (Ph_reconcile m run i t)" "past_call (Ph_bind m rid r)" "past_call (Ph_retry m tx nx)" "past_call (Ph_fail m rid st ty re a out)"
  "past_call (Ph_ack m out)" "past_call (Ph_candidates rid ms)" "past_call (Ph_done res)" "past_call (Ph_refused m rid)" "past_call (Ph_recover m run i)"
  by (simp_all add: past_call_def)

lemmas past_steps = step_refused_def step_recover_def step_called_def step_receipt_def step_apply_def step_reconcile_def
  step_bind_def step_retry_def step_fail_def step_ack_def step_candidates_def Let_def

text \<open>What a thread can do next: it goes from the start to the intent if the Run is VALIDATED or SUBMITTING, to the
  claim, to the renewal if the claim was granted and it did not read SUBMITTING, is cleared if the renewal was
  granted, calls the backend once, and is never armed again.\<close>

lemma exec_cases:
  assumes "exec_step w sv now ans p cd rd = (p', cd', rd')"
  obtains (past_call) "past_call p'" "called p p' = []"
  | (read) m run where "p = Ph_start m" "p' = Ph_intent m run" "message_run_id m = Inr (rc_id run)" "get_run (rc_id run) rd = Inr run"
      "rc_state run \<in> {RS_VALIDATED, RS_SUBMITTING}" "cd' = cd" "rd' = rd"
  | (intent) m run i where "p = Ph_intent m run" "p' = Ph_claim m run i" "cd' = cd"
  | (claim) m run i ow where "p = Ph_claim m run i" "p' = Ph_renew m run i" "rc_state run \<noteq> RS_SUBMITTING" "cd' = cd"
      "claim_submission (wo_redact w) now (rc_id run) (Some ow) (Some (ms_token m)) rd = (Inr True, rd')"
  | (renew) m run i ow x where "p = Ph_renew m run i" "p' = Ph_read_back m run i" "rd' = rd"
      "renew_update now (ms_id m) ow (ms_token m) (sv_lease_seconds sv) cd = (Inr x, cd')"
  | (reread) m m' run i where "p = Ph_read_back m run i" "p' = Ph_submit m' run i" "cd' = cd" "rd' = rd"
  | (call) m run i t where "p = Ph_submit m run i" "p' = Ph_called m run i t" "cd' = cd" "rd' = rd"
proof (cases p)
  case (Ph_start m)
  show ?thesis
  proof (cases "past_call p'")
    case True
    then show ?thesis using that(1) Ph_start by simp
  next
    case False
    with assms Ph_start show ?thesis
      by (auto simp: step_start_def split: sum.splits if_splits intro!: that(2) dest: get_run_Inr)
  qed
next
  case (Ph_intent m run)
  with assms show ?thesis using that(1,3) by (auto split: sum.splits prod.splits)
next
  case (Ph_claim m run i)
  with assms show ?thesis using that(1,4) by (auto simp: step_claim_def split: option.splits sum.splits prod.splits if_splits)
next
  case (Ph_renew m run i)
  with assms show ?thesis using that(1,5)
    by (auto simp: step_renew_def split: option.splits sum.splits prod.splits control_error.splits)
next
  case (Ph_read_back m run i)
  with assms show ?thesis using that(1,6) by (auto simp: step_read_back_def split: sum.splits)
next
  case (Ph_submit m run i)
  with assms show ?thesis using that(1,7) by (auto simp: step_submit_def raise_def split: if_splits)
qed (use assms that(1) in \<open>auto simp: past_steps split: sum.splits prod.splits option.splits if_splits run_error.splits
  control_error.splits answer.splits reconcile_state.splits retry_then.splits\<close>)

section \<open>No new messages\<close>

text \<open>Only \<open>enqueue\<close> adds messages: after any other operation the outbox has the messages it had, under the same
  ids, topics and aggregates.\<close>

definition same_messages :: "control_db \<Rightarrow> control_db \<Rightarrow> bool" where
  "same_messages cd cd' \<longleftrightarrow> (\<forall>m' \<in> set (cd_outbox cd'). \<exists>m \<in> set (cd_outbox cd).
     ms_id m' = ms_id m \<and> ms_topic m' = ms_topic m \<and> ms_aggregate m' = ms_aggregate m)"

lemma same_messages_refl [simp]: "same_messages cd cd"
  by (auto simp: same_messages_def)

lemma submit_ids_same: "same_messages cd cd' \<Longrightarrow> submit_ids w cd \<Longrightarrow> submit_ids w cd'"
  unfolding same_messages_def submit_ids_def by metis

lemma same_messages_update:
  "(\<And>m. ms_id (f m) = ms_id m \<and> ms_topic (f m) = ms_topic m \<and> ms_aggregate (f m) = ms_aggregate m) \<Longrightarrow>
     same_messages cd (cd\<lparr>cd_outbox := sql_update p f (cd_outbox cd)\<rparr>)"
  by (auto simp: same_messages_def set_sql_update split: if_splits)

lemma finish_same: "same_messages cd (snd (finish now mid ow tok st av err cd))"
  by (simp add: finish_def same_messages_update upd_finish_def)

lemma retry_same: "same_messages cd (snd (retry redact now mid ow tok error delay most cd))"
proof -
  have "same_messages cd t" if "finish now mid ow tok st av err cd = (x, t)" for st av err x t
    using finish_same [of cd now mid ow tok st av err] that by simp
  then show ?thesis unfolding retry_def
    by (auto simp del: first_failure.simps split: option.split sum.split prod.split)
qed

lemma retry_message_same: "same_messages cd (snd (retry_submission_message w sv now m error cd))"
  using retry_same [of cd "wo_redact_text w" now "ms_id m" "the (ms_lease_owner m)" "ms_token m" error]
  by (auto simp: retry_submission_message_def split: option.split prod.split) (metis snd_conv)

lemma renew_update_same: "same_messages cd (snd (renew_update now mid ow tok n cd))"
  by (auto simp: renew_update_def Let_def simp del: first_failure.simps split: option.split intro!: same_messages_update)

lemma exec_same:
  assumes "exec_step w sv now ans p cd rd = (p', cd', rd')"
  shows "same_messages cd cd'"
proof (cases p)
  case (Ph_renew m run i)
  have "same_messages cd (snd (step_renew sv now m run i cd))"
    using renew_update_same [of cd now "ms_id m" "the (ms_lease_owner m)" "ms_token m" "sv_lease_seconds sv"]
    by (auto simp: step_renew_def split: option.split prod.split sum.split control_error.split)
  with assms Ph_renew show ?thesis by (auto split: prod.splits)
next
  case (Ph_retry m error nx)
  have "same_messages cd (snd (step_retry w sv now m error nx cd))"
    using retry_message_same [of cd w sv now m error] by (auto simp: step_retry_def split: prod.split sum.split)
  with assms Ph_retry show ?thesis by (auto split: prod.splits)
next
  case (Ph_ack m out)
  have "same_messages cd (snd (step_ack now m out cd))"
    using finish_same [of cd now "ms_id m" "the (ms_lease_owner m)" "ms_token m" OB_succeeded None None]
    by (auto simp: step_ack_def acknowledge_def split: option.split prod.split sum.split control_error.split)
  with assms Ph_ack show ?thesis by (auto split: prod.splits)
qed (use assms in \<open>auto split: prod.splits sum.splits\<close>)

lemma same_messages_put:
  assumes "r \<in> set (cd_outbox cd)" and "ms_id m = ms_id r \<and> ms_topic m = ms_topic r \<and> ms_aggregate m = ms_aggregate r"
  shows "same_messages cd (cd\<lparr>cd_outbox := put_row ms_id m (cd_outbox cd)\<rparr>)"
  unfolding same_messages_def
proof
  fix x
  assume "x \<in> set (cd_outbox (cd\<lparr>cd_outbox := put_row ms_id m (cd_outbox cd)\<rparr>))"
  then have "x = m \<or> x \<in> set (cd_outbox cd)" by (auto dest: set_put_row)
  with assms show "\<exists>y \<in> set (cd_outbox cd). ms_id x = ms_id y \<and> ms_topic x = ms_topic y \<and> ms_aggregate x = ms_aggregate y"
    by blast
qed

lemma claim_one_same:
  assumes "control_ok cd" and "claim_outbox_message now mid ow n cd = (r, cd')"
  shows "same_messages cd cd'"
  using claim_message_cases [OF assms(1), of now mid ow n] assms(2)
  by (auto intro!: same_messages_put simp: ms_claimed_def upd_outbox_claim_def)

lemma claim_next_same:
  assumes "control_ok cd" and "claim_outbox now ow limit n topics cd = (r, cd')"
  shows "same_messages cd cd'"
proof (cases "claim_args_ok now ow limit n topics")
  case True
  with claim_outbox_batch(1) [OF assms(1) True] assms(2) show ?thesis
    by (auto simp: ms_claimed_def upd_outbox_claim_def intro!: same_messages_update)
next
  case False
  from claim_outbox_refused [OF False, of cd] assms(2) show ?thesis by auto
qed

end
