(* ===== verification/SubmissionInv.thy ===== *)
theory SubmissionInv
  imports SubmissionSafety
begin

text \<open>
  The invariant behind at-most-once submission. A dispatcher that reads VALIDATED has claimed the message
  before; when one of them has its renewal granted, it holds the newest token, so every other armed dispatcher
  holds an older one and can never have its own renewal granted; and the Run has left VALIDATED, so nobody is
  armed any more.
\<close>

definition phase_of :: "sys \<Rightarrow> nat \<Rightarrow> phase" where
  "phase_of s i = (case sy_threads s i of Th_idle \<Rightarrow> Ph_done (Inl S_Assert) | Th_run d m p \<Rightarrow> p)"

abbreviation mid_of :: "world \<Rightarrow> string \<Rightarrow> string" where
  "mid_of w rid \<equiv> submission_message_id (wo_sha w) rid"

definition passed :: "sys \<Rightarrow> string \<Rightarrow> bool" where
  "passed s rid \<longleftrightarrow> rid \<in> set (sy_calls s) \<or> (\<exists>i. cleared (phase_of s i) = Some rid)"

definition holders_ok :: "world \<Rightarrow> sys \<Rightarrow> bool" where
  "holders_ok w s \<longleftrightarrow> (\<forall>i m. holding (phase_of s i) = Some m \<longrightarrow>
     (ms_topic m = ''run.submit'' \<longrightarrow> ms_id m = mid_of w (ms_aggregate m)) \<and>
     ms_token m \<le> message_token_of (ms_id m) (sy_control s) \<and>
     (\<forall>j m'. j \<noteq> i \<longrightarrow> holding (phase_of s j) = Some m' \<longrightarrow> ms_id m' = ms_id m \<longrightarrow> ms_token m' \<noteq> ms_token m))"

definition armed_ok :: "world \<Rightarrow> sys \<Rightarrow> bool" where
  "armed_ok w s \<longleftrightarrow> (\<forall>i m rid. holding (phase_of s i) = Some m \<longrightarrow> armed (phase_of s i) = Some rid \<longrightarrow> ms_id m = mid_of w rid)"

definition claimed_ok :: "sys \<Rightarrow> bool" where
  "claimed_ok s \<longleftrightarrow> (\<forall>i rid. claimed (phase_of s i) = Some rid \<longrightarrow> left rid (sy_runs s))"

definition passed_ok :: "world \<Rightarrow> sys \<Rightarrow> bool" where
  "passed_ok w s \<longleftrightarrow> (\<forall>rid. passed s rid \<longrightarrow> left rid (sy_runs s) \<and>
     (\<forall>i m. armed (phase_of s i) = Some rid \<longrightarrow> holding (phase_of s i) = Some m \<longrightarrow>
        ms_token m < message_token_of (mid_of w rid) (sy_control s)))"

definition once_ok :: "sys \<Rightarrow> bool" where
  "once_ok s \<longleftrightarrow> distinct (sy_calls s) \<and>
     (\<forall>i rid. cleared (phase_of s i) = Some rid \<longrightarrow> rid \<notin> set (sy_calls s) \<and> (\<forall>j. cleared (phase_of s j) = Some rid \<longrightarrow> j = i))"

definition sys_inv :: "world \<Rightarrow> sys \<Rightarrow> bool" where
  "sys_inv w s \<longleftrightarrow> control_ok (sy_control s) \<and> runs_ok (sy_runs s) \<and> submit_ids w (sy_control s) \<and>
     holders_ok w s \<and> armed_ok w s \<and> claimed_ok s \<and> passed_ok w s \<and> once_ok s"

lemma control_moves_ok: "control_moves w cd cd' \<Longrightarrow> control_ok cd \<Longrightarrow> control_ok cd'"
  by (auto intro: control_ok_step)

lemma control_moves_token: "control_moves w cd cd' \<Longrightarrow> control_ok cd \<Longrightarrow> message_token_of k cd \<le> message_token_of k cd'"
  by (auto intro: message_token_mono)

lemma run_moves_ok: "run_moves w rd rd' \<Longrightarrow> runs_ok rd \<Longrightarrow> runs_ok rd'"
  by (auto intro: run_effect_ok run_step_effect)

lemma phase_of_update:
  "phase_of (s\<lparr>sy_control := cd, sy_runs := rd, sy_threads := (sy_threads s)(i := t), sy_calls := cs\<rparr>) j =
     (if j = i then (case t of Th_idle \<Rightarrow> Ph_done (Inl S_Assert) | Th_run d m p \<Rightarrow> p) else phase_of s j)"
  by (simp add: phase_of_def)

lemma armed_holds: "armed p = Some rid \<Longrightarrow> \<exists>m. holding p = Some m"
  by (cases p) auto

lemma cleared_free: "cleared p = Some rid \<Longrightarrow> armed p = None \<and> holding p = None \<and> claimed p = None"
  by (cases p) auto

text \<open>One thread moves, or the stores move under all of them.\<close>

lemma sys_inv_thread:
  assumes inv: "sys_inv w s" and cm: "control_moves w (sy_control s) cd" and rm: "run_moves w (sy_runs s) rd"
    and ids: "submit_ids w cd"
    and p': "(case t of Th_idle \<Rightarrow> Ph_done (Inl S_Assert) | Th_run d m p \<Rightarrow> p) = p'"
    and hold: "\<And>m. holding p' = Some m \<Longrightarrow> holding (phase_of s i) = Some m"
    and arm: "\<And>rid m. armed p' = Some rid \<Longrightarrow> holding p' = Some m \<Longrightarrow>
      ms_id m = mid_of w rid \<and> (armed (phase_of s i) = Some rid \<or> \<not> left rid (sy_runs s))"
    and clm: "\<And>rid. claimed p' = Some rid \<Longrightarrow> left rid rd"
    and clr: "\<And>rid. cleared p' = Some rid \<Longrightarrow> cleared (phase_of s i) = Some rid \<or>
      (\<exists>m. left rid rd \<and> armed (phase_of s i) = Some rid \<and> holding (phase_of s i) = Some m \<and>
         ms_token m = message_token_of (mid_of w rid) (sy_control s))"
    and calls: "cs = sy_calls s \<or> (\<exists>rid. cs = sy_calls s @ [rid] \<and> cleared (phase_of s i) = Some rid \<and> cleared p' = None)"
  shows "sys_inv w (s\<lparr>sy_control := cd, sy_runs := rd, sy_threads := (sy_threads s)(i := t), sy_calls := cs\<rparr>)"
    (is "sys_inv w ?s")
proof -
  have ok: "control_ok (sy_control s)" "runs_ok (sy_runs s)" and h: "holders_ok w s" and a: "armed_ok w s"
    and c: "claimed_ok s" and pass: "passed_ok w s" and once: "once_ok s"
    using inv by (simp_all add: sys_inv_def)
  note tok = control_moves_token [OF cm ok(1)]
  note stays = left_step [OF rm ok(2)]
  have ph: "phase_of ?s j = (if j = i then p' else phase_of s j)" for j using p' by (simp add: phase_of_update)
  have held: "holding (phase_of ?s j) = Some m \<Longrightarrow> holding (phase_of s j) = Some m" for j m
    using hold by (simp add: ph split: if_splits)
  have "holders_ok w ?s"
    unfolding holders_ok_def
  proof (intro allI impI)
    fix j m
    assume "holding (phase_of ?s j) = Some m"
    then have j: "holding (phase_of s j) = Some m" by (rule held)
    have "ms_token m \<le> message_token_of (ms_id m) cd"
      using h j by (auto simp: holders_ok_def intro: order_trans [OF _ tok])
    moreover have "ms_token m' \<noteq> ms_token m" if "k \<noteq> j" "holding (phase_of ?s k) = Some m'" "ms_id m' = ms_id m" for k m'
      using h j that(1,3) held [OF that(2)] unfolding holders_ok_def by blast
    ultimately show "(ms_topic m = ''run.submit'' \<longrightarrow> ms_id m = mid_of w (ms_aggregate m)) \<and>
      ms_token m \<le> message_token_of (ms_id m) (sy_control ?s) \<and>
      (\<forall>k m'. k \<noteq> j \<longrightarrow> holding (phase_of ?s k) = Some m' \<longrightarrow> ms_id m' = ms_id m \<longrightarrow> ms_token m' \<noteq> ms_token m)"
      using h j by (auto simp: holders_ok_def)
  qed
  moreover have armed': "armed_ok w ?s"
    using a arm unfolding armed_ok_def ph by (auto split: if_splits)
  moreover have "claimed_ok ?s"
    using c clm stays unfolding claimed_ok_def ph by (auto split: if_splits)
  moreover have was: "passed s rid \<or> (cleared p' = Some rid \<and> cleared (phase_of s i) \<noteq> Some rid)" if "passed ?s rid" for rid
    using that calls by (auto simp: passed_def ph split: if_splits)
  have "passed_ok w ?s"
    unfolding passed_ok_def
  proof (intro allI impI conjI)
    fix rid
    assume "passed ?s rid"
    then consider (old) "passed s rid" | (new) "cleared p' = Some rid" "cleared (phase_of s i) \<noteq> Some rid" using was by blast
    then show "left rid (sy_runs ?s)"
      using pass stays clr unfolding passed_ok_def by cases auto
    fix j m
    assume j: "armed (phase_of ?s j) = Some rid" "holding (phase_of ?s j) = Some m"
    from \<open>passed ?s rid\<close> consider (old) "passed s rid" | (new) "cleared p' = Some rid" "cleared (phase_of s i) \<noteq> Some rid"
      using was by blast
    then have "ms_token m < message_token_of (mid_of w rid) (sy_control s)"
    proof cases
      case old
      have "armed (phase_of s j) = Some rid"
        using j old pass arm [of rid m] by (cases "j = i") (auto simp: ph passed_ok_def)
      with old pass held [OF j(2)] show ?thesis by (auto simp: passed_ok_def)
    next
      case new
      from clr [OF new(1)] new(2) obtain m' where m': "armed (phase_of s i) = Some rid" "holding (phase_of s i) = Some m'"
        "ms_token m' = message_token_of (mid_of w rid) (sy_control s)" by blast
      have "j \<noteq> i" using j(1) cleared_free [OF new(1)] by (auto simp: ph)
      moreover from this have "armed (phase_of s j) = Some rid" "holding (phase_of s j) = Some m" using j by (simp_all add: ph)
      moreover from this m' a have "ms_id m = mid_of w rid" "ms_id m' = mid_of w rid" by (auto simp: armed_ok_def)
      ultimately have "ms_token m \<le> message_token_of (mid_of w rid) (sy_control s)" "ms_token m \<noteq> ms_token m'"
        using h m'(2) unfolding holders_ok_def by metis+
      with m'(3) show ?thesis by simp
    qed
    with tok show "ms_token m < message_token_of (mid_of w rid) (sy_control ?s)" by (auto intro: less_le_trans)
  qed
  moreover have fresh: "\<not> passed s rid" if "cleared p' = Some rid" "cleared (phase_of s i) \<noteq> Some rid" for rid
  proof
    assume "passed s rid"
    moreover from clr [OF that(1)] that(2) obtain m where "armed (phase_of s i) = Some rid"
      "holding (phase_of s i) = Some m" "ms_token m = message_token_of (mid_of w rid) (sy_control s)" by blast
    ultimately show False using pass unfolding passed_ok_def by (metis less_irrefl)
  qed
  have "once_ok ?s"
    unfolding once_ok_def
  proof (intro conjI allI impI)
    show "distinct (sy_calls ?s)" using once calls by (auto simp: once_ok_def)
    fix j rid
    assume j: "cleared (phase_of ?s j) = Some rid"
    note once' = once [unfolded once_ok_def, THEN conjunct2, rule_format]
    have other: "cleared (phase_of s k) = Some rid" if "k \<noteq> i" "cleared (phase_of ?s k) = Some rid" for k
      using that by (simp add: ph)
    have mine: "cleared p' = Some rid" if "k = i" "cleared (phase_of ?s k) = Some rid" for k
      using that by (simp add: ph)
    show "rid \<notin> set (sy_calls ?s)"
    proof (cases "cleared (phase_of s j) = Some rid")
      case True
      then have "rid \<notin> set (sy_calls s)" using once' by blast
      moreover have "cs \<noteq> sy_calls s @ [rid] \<or> cleared (phase_of s i) \<noteq> Some rid \<or> cleared p' \<noteq> None"
        using once' [OF True] j mine by fastforce
      ultimately show ?thesis using calls by auto
    next
      case False
      then have "j = i" using other j by blast
      with False mine j fresh show ?thesis using calls by (auto simp: passed_def)
    qed
    fix k
    assume k: "cleared (phase_of ?s k) = Some rid"
    show "k = j"
    proof (cases "k = i \<or> j = i")
      case False
      with j k other once' show ?thesis by metis
    next
      case True
      then have p: "cleared p' = Some rid" using j k mine by blast
      then have "cleared (phase_of s i) = Some rid \<or> \<not> passed s rid" using fresh by blast
      with True j k other once' show ?thesis unfolding passed_def by metis
    qed
  qed
  ultimately show ?thesis
    using ids control_moves_ok [OF cm ok(1)] run_moves_ok [OF rm ok(2)] by (simp add: sys_inv_def)
qed

text \<open>A thread that claims a message holds a token that was never issued before.\<close>

lemma sys_inv_claim:
  assumes inv: "sys_inv w s" and idle: "sy_threads s i = Th_idle" and issued: "delivery_issued mid m (sy_control s) cd"
    and ids: "submit_ids w cd"
  shows "sys_inv w (s\<lparr>sy_control := cd, sy_threads := (sy_threads s)(i := Th_run d m (Ph_start m))\<rparr>)"
    (is "sys_inv w ?s")
proof -
  have ok: "control_ok (sy_control s)" and h: "holders_ok w s" and a: "armed_ok w s" and c: "claimed_ok s"
    and pass: "passed_ok w s" and once: "once_ok s"
    using inv by (simp_all add: sys_inv_def)
  note step = delivery_issued_step [OF ok issued, of "wo_iso_ok w" "wo_redact_text w"]
  note tok = message_token_mono [OF ok step]
  note fresh = delivery_issued_fresh [OF ok issued]
  have mid: "ms_id m = mid" using issued by (simp add: delivery_issued_def)
  have ph: "phase_of ?s j = (if j = i then Ph_start m else phase_of s j)" for j
    by (simp add: phase_of_def)
  have i: "phase_of s i = Ph_done (Inl S_Assert)" using idle by (simp add: phase_of_def)
  have row: "m \<in> set (cd_outbox cd)"
    using delivery_issued_row [OF ok issued] by (auto simp: row_of_Some_iff control_okD(2) [OF control_ok_step [OF ok step]])
  have passed: "passed ?s rid \<longleftrightarrow> passed s rid" for rid
  proof -
    have "cleared (phase_of ?s j) = cleared (phase_of s j)" for j by (simp add: ph i)
    then show ?thesis by (simp add: passed_def)
  qed
  have old: "ms_token m' < ms_token m" if "holding (phase_of s j) = Some m'" "ms_id m' = mid" for j m'
    using h that fresh unfolding holders_ok_def by fastforce
  have "holders_ok w ?s"
    unfolding holders_ok_def
  proof (intro allI impI)
    fix j n
    assume j: "holding (phase_of ?s j) = Some n"
    have "(ms_topic n = ''run.submit'' \<longrightarrow> ms_id n = mid_of w (ms_aggregate n)) \<and> ms_token n \<le> message_token_of (ms_id n) cd"
    proof (cases "j = i")
      case True
      with j have "n = m" by (simp add: ph)
      with row ids fresh mid show ?thesis by (auto simp: submit_ids_def)
    next
      case False
      with j h show ?thesis unfolding holders_ok_def ph by (auto intro: order_trans [OF _ tok])
    qed
    moreover have "ms_token n' \<noteq> ms_token n"
      if k: "k \<noteq> j" "holding (phase_of ?s k) = Some n'" "ms_id n' = ms_id n" for k n'
    proof (cases "k = i \<or> j = i")
      case True
      then show ?thesis using k j old [of j n] old [of k n'] mid by (auto simp: ph split: if_splits)
    next
      case False
      then show ?thesis using k j h unfolding holders_ok_def ph by (metis (full_types))
    qed
    ultimately show "(ms_topic n = ''run.submit'' \<longrightarrow> ms_id n = mid_of w (ms_aggregate n)) \<and>
        ms_token n \<le> message_token_of (ms_id n) (sy_control ?s) \<and>
        (\<forall>k n'. k \<noteq> j \<longrightarrow> holding (phase_of ?s k) = Some n' \<longrightarrow> ms_id n' = ms_id n \<longrightarrow> ms_token n' \<noteq> ms_token n)"
      by simp
  qed
  moreover have "armed_ok w ?s" using a unfolding armed_ok_def ph by (auto split: if_splits)
  moreover have "claimed_ok ?s" using c unfolding claimed_ok_def ph by (auto split: if_splits)
  moreover have "passed_ok w ?s"
    unfolding passed_ok_def passed
    using pass tok by (auto simp: ph passed_ok_def split: if_splits) (meson less_le_trans)+
  moreover have "once_ok ?s" using once unfolding once_ok_def ph by (auto split: if_splits)
  ultimately show ?thesis
    using inv ids control_ok_step [OF ok step] by (simp add: sys_inv_def)
qed

text \<open>The system in the shape of \<open>sys_inv_thread\<close>.\<close>

lemma sys_shape:
  "s\<lparr>sy_control := cd, sy_threads := ts\<rparr> = s\<lparr>sy_control := cd, sy_runs := sy_runs s, sy_threads := ts, sy_calls := sy_calls s\<rparr>"
  "s\<lparr>sy_threads := ts\<rparr> = s\<lparr>sy_control := sy_control s, sy_runs := sy_runs s, sy_threads := ts, sy_calls := sy_calls s\<rparr>"
  "s\<lparr>sy_control := cd\<rparr> = s\<lparr>sy_control := cd, sy_runs := sy_runs s, sy_threads := (sy_threads s)(0 := sy_threads s 0), sy_calls := sy_calls s\<rparr>"
  "s\<lparr>sy_runs := rd\<rparr> = s\<lparr>sy_control := sy_control s, sy_runs := rd, sy_threads := (sy_threads s)(0 := sy_threads s 0), sy_calls := sy_calls s\<rparr>"
  by (simp_all add: fun_upd_triv)

text \<open>The stores move and thread \<open>i\<close> stays where it is or drops its work.\<close>

lemma sys_inv_spent:
  assumes inv: "sys_inv w s" and "control_moves w (sy_control s) cd" and "run_moves w (sy_runs s) rd" and "submit_ids w cd"
    and t: "t = sy_threads s i \<or> past_call (case t of Th_idle \<Rightarrow> Ph_done (Inl S_Assert) | Th_run d m p \<Rightarrow> p)"
  shows "sys_inv w (s\<lparr>sy_control := cd, sy_runs := rd, sy_threads := (sy_threads s)(i := t), sy_calls := sy_calls s\<rparr>)"
proof -
  let ?p = "case t of Th_idle \<Rightarrow> Ph_done (Inl S_Assert) | Th_run d m p \<Rightarrow> p"
  have p: "?p = phase_of s i \<or> past_call ?p" using t by (auto simp: phase_of_def)
  have inv': "armed_ok w s" "claimed_ok s" "runs_ok (sy_runs s)" using inv by (simp_all add: sys_inv_def)
  show ?thesis
  proof (rule sys_inv_thread [OF assms(1-4) refl])
    show "holding ?p = Some m \<Longrightarrow> holding (phase_of s i) = Some m" for m
      using p by (auto simp: past_call_def)
    show "armed ?p = Some rid \<Longrightarrow> holding ?p = Some m \<Longrightarrow>
        ms_id m = mid_of w rid \<and> (armed (phase_of s i) = Some rid \<or> \<not> left rid (sy_runs s))" for rid m
      using p inv'(1) by (auto simp: past_call_def armed_ok_def)
    show "claimed ?p = Some rid \<Longrightarrow> left rid rd" for rid
      using p inv'(2) left_step [OF assms(3) inv'(3)] by (auto simp: past_call_def claimed_ok_def)
  qed (use p in \<open>auto simp: past_call_def\<close>)
qed

lemma sys_inv_exec:
  assumes inv: "sys_inv w s" and thread: "sy_threads s i = Th_run d m0 p"
    and step: "exec_step w (svs i) now ans p (sy_control s) (sy_runs s) = (p', cd, rd)"
  shows "sys_inv w (s\<lparr>sy_control := cd, sy_runs := rd, sy_threads := (sy_threads s)(i := Th_run d m0 p'),
      sy_calls := sy_calls s @ called p p'\<rparr>)"
proof -
  have ok: "control_ok (sy_control s)" "runs_ok (sy_runs s)" and ids: "submit_ids w cd" and h: "holders_ok w s"
    and a: "armed_ok w s" and c: "claimed_ok s"
    using inv submit_ids_same [OF exec_same [OF step]] by (auto simp: sys_inv_def)
  have i: "phase_of s i = p" using thread by (simp add: phase_of_def)
  note moves = exec_moves [OF step, THEN conjunct1] exec_moves [OF step, THEN conjunct2]
  note mine = sys_inv_thread [OF inv moves ids, where t = "Th_run d m0 p'" and p' = p' and i = i, simplified]
  note arms = a [unfolded armed_ok_def, rule_format, of i]
  show ?thesis
    using step
  proof (cases rule: exec_cases)
    case past_call
    then show ?thesis using sys_inv_spent [OF inv moves ids] by simp
  next
    case (read m run)
    from read(3) have "ms_topic m = ''run.submit''" "ms_aggregate m = rc_id run"
      by (auto simp: message_run_id_def split: option.splits json.splits if_splits)
    moreover from this have "ms_id m = mid_of w (rc_id run)" using h [unfolded holders_ok_def, rule_format, of i m] i read(1) by simp
    ultimately show ?thesis using read left_get [of "rc_id run" "sy_runs s" run]
      by (intro mine) (auto simp: i split: if_splits)
  next
    case (intent m run n)
    then show ?thesis using arms by (intro mine) (auto simp: i split: if_splits)
  next
    case (claim m run n ow)
    then show ?thesis using arms claim_leaves [OF claim(5) ok(2)]
      by (intro mine) (auto simp: i split: if_splits)
  next
    case (renew m run n ow x)
    have "left (rc_id run) rd" using c [unfolded claimed_ok_def, rule_format, of i "rc_id run"] renew(1,3) i by simp
    moreover have "ms_token m = message_token_of (mid_of w (rc_id run)) (sy_control s)"
      using renew_granted_token [OF renew(4) ok(1)] arms [of m "rc_id run"] i renew(1) by simp
    ultimately show ?thesis using renew by (intro mine) (auto simp: i)
  next
    case reread
    then show ?thesis by (intro mine) (auto simp: i)
  next
    case call
    then show ?thesis by (intro mine) (auto simp: i)
  qed
qed

lemma sys_inv_step: "sys_step w svs s s' \<Longrightarrow> sys_inv w s \<Longrightarrow> sys_inv w s'"
proof (induction rule: sys_step.induct)
  case (ss_claim_one s i now rid m cd)
  then have ok: "control_ok (sy_control s)" and ids: "submit_ids w (sy_control s)" by (simp_all add: sys_inv_def)
  have "delivery_issued (ms_id m) m (sy_control s) cd"
    using claim_message_cases [OF ok, of now "mid_of w rid" "sv_dispatcher (svs i)" "sv_lease_seconds (svs i)"] ss_claim_one(2)
    unfolding delivery_issued_def by (auto simp: ms_claimed_def upd_outbox_claim_def)
  from sys_inv_claim [OF ss_claim_one(3,1) this submit_ids_same [OF claim_one_same [OF ok ss_claim_one(2)] ids]]
  show ?case .
next
  case (ss_claim_next s i now m cd)
  then have ok: "control_ok (sy_control s)" and ids: "submit_ids w (sy_control s)" by (simp_all add: sys_inv_def)
  have "delivery_issued (ms_id m) m (sy_control s) cd"
    using ss_claim_next(2) unfolding delivery_issued_def by (metis list.set_intros(1))
  from sys_inv_claim [OF ss_claim_next(3,1) this submit_ids_same [OF claim_next_same [OF ok ss_claim_next(2)] ids]]
  show ?case .
next
  case (ss_exec s i d m p now ans p' cd rd)
  then show ?case by (intro sys_inv_exec)
next
  case (ss_end s i d m r cd now error)
  have "control_moves w (sy_control s) cd" "same_messages (sy_control s) cd"
    using ss_end(2) retry_moves retry_message_same by (auto split: sum.splits)
  moreover from this(2) ss_end(3) have "submit_ids w cd" by (auto simp: sys_inv_def intro: submit_ids_same)
  ultimately show ?case using ss_end(3) by (subst sys_shape(1), intro sys_inv_spent) simp_all
next
  case (ss_crash s i)
  then show ?case by (subst sys_shape(2), intro sys_inv_spent) (simp_all add: sys_inv_def)
next
  case (ss_control s cd)
  then show ?case by (subst sys_shape(3), intro sys_inv_spent) simp_all
next
  case (ss_run s rd)
  then show ?case by (subst sys_shape(4), intro sys_inv_spent) (simp_all add: sys_inv_def)
qed

lemma sys_inv_start: "sys_inv w start_sys"
  by (simp add: sys_inv_def start_sys_def submit_ids_def holders_ok_def armed_ok_def claimed_ok_def passed_ok_def
      once_ok_def passed_def phase_of_def empty_control_def)
    (simp add: empty_control_def [symmetric])

lemma sys_inv_reachable: "reachable_sys w svs s \<Longrightarrow> sys_inv w s"
  unfolding reachable_sys_def by (induction rule: rtranclp_induct) (auto intro: sys_inv_start sys_inv_step)

end
