(* ===== verification/ResourceProps.thy ===== *)
theory ResourceProps
  imports Resources
begin

text \<open>
  The properties of the resource plans: what validation lets through, that a plan survives being stored with
  its Run, and how walltimes are read.
\<close>

section \<open>Validation\<close>

lemma blockers_append: "blockers (xs @ ys) = [] \<longleftrightarrow> blockers xs = [] \<and> blockers ys = []"
  by (simp add: blockers_def)

lemma blockers_add_if: "blockers (add_if b f) = [] \<longleftrightarrow> (b \<longrightarrow> pf_severity f \<noteq> SEV_BLOCK)"
  by (simp add: blockers_def add_if_def)

lemma blockers_Nil [simp]: "blockers [] = []"
  by (simp add: blockers_def)

lemma memory_warns: "snd (memory_to_gb v u) = Some w \<Longrightarrow> pf_severity w \<noteq> SEV_BLOCK"
  by (auto simp: memory_to_gb_def capability_warning_def Let_def split: option.splits)

lemma clock_warns: "snd (clock_hours d t) = Some w \<Longrightarrow> pf_severity w \<noteq> SEV_BLOCK"
  by (auto simp: clock_hours_def time_parse_warning_def capability_warning_def split: option.splits)

lemma time_warns: "snd (time_limit_to_hours v) = Some w \<Longrightarrow> pf_severity w \<noteq> SEV_BLOCK"
  by (auto simp: time_limit_to_hours_def Let_def time_parse_warning_def capability_warning_def clock_warns
      split: option.splits if_splits)

lemma blockers_optional: "(\<And>w. ow = Some w \<Longrightarrow> pf_severity w \<noteq> SEV_BLOCK) \<Longrightarrow> blockers (case ow of None \<Rightarrow> [] | Some w \<Rightarrow> [w]) = []"
  by (auto simp: blockers_def split: option.split)

lemma over_iff: "over limit value \<longleftrightarrow> (\<exists>n v. limit = Some n \<and> value = Some v \<and> of_int n < v)"
  by (auto simp: over_def split: option.split)

lemma qos_limits_admit_iff:
  "blockers (validate_qos_limits plan l) = [] \<longleftrightarrow>
     (\<forall>n. ql_max_cpus l = Some n \<longrightarrow> rp_ntasks plan * rp_cpus_per_task plan \<le> n) \<and>
     (\<forall>n. ql_max_gpus l = Some n \<longrightarrow> derived_gpu_total plan \<le> n) \<and>
     (\<forall>n gb. ql_max_memory_gb l = Some n \<longrightarrow> fst (memory_to_gb (rp_memory_value plan) (rp_memory_unit plan)) = Some gb \<longrightarrow> gb \<le> of_int n) \<and>
     (\<forall>n h. ql_max_wall_hours l = Some n \<longrightarrow> fst (time_limit_to_hours (rp_time_limit plan)) = Some h \<longrightarrow> h \<le> of_int n)"
proof -
  obtain gb mw where m: "memory_to_gb (rp_memory_value plan) (rp_memory_unit plan) = (gb, mw)" by fastforce
  obtain h tw where t: "time_limit_to_hours (rp_time_limit plan) = (h, tw)" by fastforce
  have mw: "blockers (case mw of None \<Rightarrow> [] | Some w \<Rightarrow> [w]) = []"
    using memory_warns [of "rp_memory_value plan" "rp_memory_unit plan"] m by (intro blockers_optional) simp
  have tw: "blockers (case tw of None \<Rightarrow> [] | Some w \<Rightarrow> [w]) = []"
    using time_warns [of "rp_time_limit plan"] t by (intro blockers_optional) simp
  show ?thesis
    unfolding validate_qos_limits_def m t
    by (simp add: Let_def blockers_append blockers_add_if mw tw over_iff derived_cpu_upper_bound_def flip: of_int_mult)
      (auto simp: not_less)
qed

lemma qos_findings_admit_iff:
  "blockers (qos_findings plan m) = [] \<longleftrightarrow>
     (\<forall>q l. rp_qos plan = Some q \<longrightarrow> q \<noteq> [] \<longrightarrow> map_of m q = Some l \<longrightarrow> blockers (validate_qos_limits plan l) = [])"
  by (auto simp: qos_findings_def no_text_def blockers_def capability_warning_def split: option.split)

lemma profile_admit_iff:
  "blockers (profile_findings plan m) = [] \<longleftrightarrow>
     (\<exists>allowed q. map_of m (rp_partition plan) = Some allowed \<and> rp_qos plan = Some q \<and> q \<noteq> [] \<and> q \<in> set allowed)"
  by (auto simp: profile_findings_def no_text_def blockers_def add_if_def split: option.split)

text \<open>What a plan must satisfy to be submitted: without a cluster profile, no finding blocks it exactly when
  nodes, tasks and CPUs are positive, GPU counts are not negative and agree with each other, and a time limit is
  given. With a profile, its partition must be known and its QoS be one of the partition's; and where the QoS
  has limits, CPUs, GPUs, memory and hours (the last two where they can be read) must be within them.\<close>

theorem plan_admitted_iff:
  "blockers (validate_resource_plan plan qos_map limit_map) = [] \<longleftrightarrow>
     0 < rp_nodes plan \<and> 0 < rp_ntasks plan \<and> 0 < rp_cpus_per_task plan \<and>
     (\<forall>g. rp_gpus_per_node plan = Some g \<longrightarrow> 0 \<le> g) \<and> (\<forall>t. rp_gpus_total plan = Some t \<longrightarrow> 0 \<le> t) \<and>
     (\<forall>g t. rp_gpus_per_node plan = Some g \<longrightarrow> rp_gpus_total plan = Some t \<longrightarrow> t = rp_nodes plan * g) \<and>
     (\<exists>c cs. rp_time_limit plan = Some (c # cs)) \<and>
     (\<forall>m. qos_map = Some m \<longrightarrow> (\<exists>allowed q. map_of m (rp_partition plan) = Some allowed \<and> rp_qos plan = Some q \<and> q \<noteq> [] \<and> q \<in> set allowed)) \<and>
     (\<forall>m q l. limit_map = Some m \<longrightarrow> rp_qos plan = Some q \<longrightarrow> q \<noteq> [] \<longrightarrow> map_of m q = Some l \<longrightarrow>
        (\<forall>n. ql_max_cpus l = Some n \<longrightarrow> rp_ntasks plan * rp_cpus_per_task plan \<le> n) \<and>
        (\<forall>n. ql_max_gpus l = Some n \<longrightarrow> derived_gpu_total plan \<le> n) \<and>
        (\<forall>n gb. ql_max_memory_gb l = Some n \<longrightarrow> fst (memory_to_gb (rp_memory_value plan) (rp_memory_unit plan)) = Some gb \<longrightarrow> gb \<le> of_int n) \<and>
        (\<forall>n h. ql_max_wall_hours l = Some n \<longrightarrow> fst (time_limit_to_hours (rp_time_limit plan)) = Some h \<longrightarrow> h \<le> of_int n))"
proof -
  have qos: "blockers (case qos_map of None \<Rightarrow> [] | Some m \<Rightarrow> profile_findings plan m) = [] \<longleftrightarrow>
      (\<forall>m. qos_map = Some m \<longrightarrow> blockers (profile_findings plan m) = [])" by (simp split: option.split)
  have limits: "blockers (case limit_map of None \<Rightarrow> [] | Some m \<Rightarrow> qos_findings plan m) = [] \<longleftrightarrow>
      (\<forall>m. limit_map = Some m \<longrightarrow> blockers (qos_findings plan m) = [])" by (simp split: option.split)
  have negative: "(case v of None \<Rightarrow> False | Some g \<Rightarrow> g < 0) \<longleftrightarrow> \<not> (\<forall>g. v = Some g \<longrightarrow> 0 \<le> g)" for v :: "int option"
    by (auto split: option.split)
  have agree: "(case (v, w) of (Some g, Some t) \<Rightarrow> n * g \<noteq> t | _ \<Rightarrow> False) \<longleftrightarrow>
      \<not> (\<forall>g t. v = Some g \<longrightarrow> w = Some t \<longrightarrow> t = n * g)" for v w :: "int option" and n
    by (auto split: option.split)
  have severity_block: "(b \<longrightarrow> SEV_BLOCK \<noteq> SEV_BLOCK) \<longleftrightarrow> \<not> b" for b by simp
  have given: "\<not> no_text v \<longleftrightarrow> (\<exists>c cs. v = Some (c # cs))" for v
    by (cases v; cases "the v") (auto simp: no_text_def)
  show ?thesis
    unfolding validate_resource_plan_def blockers_append blockers_add_if qos limits profile_admit_iff
      qos_findings_admit_iff qos_limits_admit_iff
    by (simp only: given not_le negative agree severity_block preflight_finding.simps simp_thms not_ex de_Morgan_conj not_less imp_conjL) blast
qed

lemma plan_admitted_iff_witness:
  fixes plan :: resource_plan
  defines "plan \<equiv> \<lparr>rp_partition = ''gpu'', rp_qos = Some ''normal'', rp_nodes = 2, rp_ntasks = 4, rp_cpus_per_task = 2,
    rp_memory_value = None, rp_memory_unit = None, rp_gpus_per_node = Some 1, rp_gpus_total = Some 2, rp_gpu_type = None,
    rp_time_limit = Some ''10'', rp_array = None\<rparr>"
  shows "blockers (validate_resource_plan plan (Some [(''gpu'', [''normal''])])
      (Some [(''normal'', \<lparr>ql_max_cpus = Some 8, ql_max_gpus = Some 2, ql_max_memory_gb = None, ql_max_wall_hours = None,
         ql_source = ''A6''\<rparr>)])) = []"
  unfolding plan_admitted_iff by (simp add: plan_def derived_gpu_total_def)

section \<open>Plans as JSON\<close>

lemma map_of_filter_key: "map_of xs k = map_of (filter (\<lambda>x. fst x = k) xs) k"
  by (induction xs) auto

lemma filter_sort_key_fst: "filter (\<lambda>x. fst x = k) (sort_key fst xs) = filter (\<lambda>x. fst x = k) xs"
  by (rule sort_key_stable)

lemma map_of_sort_key: "map_of (sort_key fst xs) k = map_of xs k"
  using map_of_filter_key [of "sort_key fst xs" k] map_of_filter_key [of xs k]
  by (simp add: filter_sort_key_fst)

lemma jfield_canonical: "jfield k (canonical v) = map_option canonical (jfield k v)"
proof (cases v)
  case (JObj kvs)
  have "map_of (map (\<lambda>(k, v). (k, canonical v)) kvs) k = map_option canonical (map_of kvs k)"
    by (induction kvs) auto
  with JObj show ?thesis by (simp add: map_of_sort_key)
qed simp_all

lemma canonical_jopt: "(\<And>x. canonical (f x) = f x) \<Longrightarrow> canonical (jopt f v) = jopt f v"
  by (simp add: jopt_def split: option.split)

lemma is_object_canonical: "is_object (canonical v) = is_object v"
  by (cases v) simp_all

lemma optional_field_Some:
  "jfield k p = Some v \<Longrightarrow> v \<noteq> JNull \<Longrightarrow> optional_field k f p = bind_res (f v) (\<lambda>x. Inr (Some x))"
  by (cases v) (simp_all add: optional_field_def)

lemma optional_jopt:
  assumes "jfield k p = Some (jopt g v)" and "\<And>x. f (g x) = Inr x" and "\<And>x. g x \<noteq> JNull"
  shows "optional_field k f p = Inr v"
proof (cases v)
  case None
  with assms(1) show ?thesis by (simp add: optional_field_def jopt_def)
next
  case (Some x)
  with assms show ?thesis by (simp add: optional_field_Some [of k p "g x"] jopt_def)
qed

lemma plan_fields:
  fixes plan revision digest source snapshot
  defines "d \<equiv> resource_plan_to_dict plan revision digest source snapshot"
  shows "is_object d" "jfield ''partition'' d = Some (JStr (rp_partition plan))"
    "jfield ''qos'' d = Some (jopt JStr (rp_qos plan))" "jfield ''nodes'' d = Some (JInt (rp_nodes plan))"
    "jfield ''ntasks'' d = Some (JInt (rp_ntasks plan))" "jfield ''cpus_per_task'' d = Some (JInt (rp_cpus_per_task plan))"
    "jfield ''memory_value'' d = Some (jopt JInt (rp_memory_value plan))"
    "jfield ''memory_unit'' d = Some (jopt JStr (rp_memory_unit plan))"
    "jfield ''gpus_per_node'' d = Some (jopt JInt (rp_gpus_per_node plan))"
    "jfield ''gpus_total'' d = Some (jopt JInt (rp_gpus_total plan))" "jfield ''gpu_type'' d = Some (jopt JStr (rp_gpu_type plan))"
    "jfield ''time_limit'' d = Some (jopt JStr (rp_time_limit plan))"
  unfolding d_def resource_plan_to_dict_def by simp_all

definition array_json :: "array_spec \<Rightarrow> json" where
  "array_json a = JObj [(''expression'', JStr (as_expression a)), (''max_concurrency'', jopt JInt (as_max_concurrency a))]"

lemma array_field:
  "jfield ''array'' (resource_plan_to_dict plan revision digest source snapshot) = map_option array_json (rp_array plan)"
  unfolding resource_plan_to_dict_def
  by (cases "rp_array plan"; cases digest; cases source; cases snapshot) (simp_all add: array_json_def)

lemma array_json_from_dict: "array_from_dict repr_of (canonical (array_json a)) = Inr a"
proof -
  have "jfield ''expression'' (canonical (array_json a)) = Some (JStr (as_expression a))"
    "jfield ''max_concurrency'' (canonical (array_json a)) = Some (jopt JInt (as_max_concurrency a))"
    by (simp_all add: jfield_canonical array_json_def canonical_jopt)
  then show ?thesis
    by (simp add: array_from_dict_def required_field_def is_object_canonical optional_jopt array_json_def)
qed

text \<open>A payload with the entries of a plan, whatever else it holds, is read as that plan.\<close>

definition plan_entries :: "resource_plan \<Rightarrow> json \<Rightarrow> bool" where
  "plan_entries plan d \<longleftrightarrow> is_object d \<and> jfield ''partition'' d = Some (JStr (rp_partition plan)) \<and>
     jfield ''qos'' d = Some (jopt JStr (rp_qos plan)) \<and> jfield ''nodes'' d = Some (JInt (rp_nodes plan)) \<and>
     jfield ''ntasks'' d = Some (JInt (rp_ntasks plan)) \<and> jfield ''cpus_per_task'' d = Some (JInt (rp_cpus_per_task plan)) \<and>
     jfield ''memory_value'' d = Some (jopt JInt (rp_memory_value plan)) \<and>
     jfield ''memory_unit'' d = Some (jopt JStr (rp_memory_unit plan)) \<and>
     jfield ''gpus_per_node'' d = Some (jopt JInt (rp_gpus_per_node plan)) \<and>
     jfield ''gpus_total'' d = Some (jopt JInt (rp_gpus_total plan)) \<and> jfield ''gpu_type'' d = Some (jopt JStr (rp_gpu_type plan)) \<and>
     jfield ''time_limit'' d = Some (jopt JStr (rp_time_limit plan)) \<and>
     jfield ''array'' d \<in> {map_option array_json (rp_array plan), Some (jopt array_json (rp_array plan))}"

lemma plan_from_entries:
  assumes "plan_entries plan d"
  shows "resource_plan_from_dict repr_of (canonical d) = Inr plan"
proof -
  have obj: "is_object (canonical d)" using assms by (simp add: is_object_canonical plan_entries_def)
  have str: "jfield k d = Some (jopt JStr v) \<Longrightarrow> optional_field k (\<lambda>v. Inr (py_str repr_of v)) (canonical d) = Inr v" for k v
    by (rule optional_jopt [of _ _ JStr]) (simp_all add: jfield_canonical canonical_jopt)
  have num: "jfield k d = Some (jopt JInt v) \<Longrightarrow> optional_field k py_int (canonical d) = Inr v" for k v
    by (rule optional_jopt [of _ _ JInt]) (simp_all add: jfield_canonical canonical_jopt)
  have arr: "optional_field ''array'' (array_from_dict repr_of) (canonical d) = Inr (rp_array plan)"
  proof (cases "rp_array plan")
    case None
    with assms show ?thesis by (auto simp: optional_field_def jfield_canonical plan_entries_def jopt_def)
  next
    case (Some a)
    with assms have "jfield ''array'' d = Some (array_json a)" by (auto simp: plan_entries_def jopt_def)
    then have "optional_field ''array'' (array_from_dict repr_of) (canonical d) =
        bind_res (array_from_dict repr_of (canonical (array_json a))) (\<lambda>x. Inr (Some x))"
      by (intro optional_field_Some) (simp_all add: jfield_canonical array_json_def)
    with Some show ?thesis by (simp add: array_json_from_dict)
  qed
  from assms show ?thesis
    using obj by (simp add: resource_plan_from_dict_def Let_def arr str num required_field_def jfield_canonical plan_entries_def)
qed

lemma plan_read_back:
  "resource_plan_from_dict repr_of (canonical (resource_plan_to_dict plan revision digest source snapshot)) = Inr plan"
  by (rule plan_from_entries) (simp add: plan_entries_def plan_fields array_field)

text \<open>A resource plan survives being stored: what \<open>prepare\<close> writes into the Run (with or without the
  workspace and provenance entries) and the store keeps as canonical JSON is read back at submission as the
  same plan, an array job's specification included.\<close>

theorem stored_plan_roundtrip:
  "resource_plan_from_dict repr_of (canonical (resource_plan_to_dict plan revision digest source snapshot)) = Inr plan"
  by (rule plan_read_back)

section \<open>Walltimes\<close>

lemma digit_char_of: "d < 10 \<Longrightarrow> digit_char (char_of (48 + d)) \<and> digit_value (char_of (48 + d)) = d"
  by (simp add: digit_char_def digit_value_def Let_def of_char_of)

lemma nat_text_digits: "list_all digit_char (nat_text n) \<and> nat_text n \<noteq> [] \<and> length (nat_text n) \<le> n + 1"
proof (induction n rule: nat_text.induct)
  case (1 n)
  show ?case
  proof (cases "n < 10")
    case True
    then have "nat_text n = [char_of (48 + n)]" by (subst nat_text.simps) simp
    with True show ?thesis by (simp add: digit_char_of)
  next
    case False
    then have "nat_text n = nat_text (n div 10) @ [char_of (48 + n mod 10)]" by (subst nat_text.simps) simp
    moreover have "length (nat_text (n div 10)) \<le> n div 10 + 1" "n div 10 + 1 \<le> n" using "1.IH" [OF False] False by auto
    ultimately show ?thesis using "1.IH" [OF False] by (simp add: digit_char_of)
  qed
qed

lemma digits_from_snoc:
  "list_all digit_char xs \<Longrightarrow> digit_char c \<Longrightarrow>
     digits_from a (xs @ [c]) = map_option (\<lambda>v. 10 * v + digit_value c) (digits_from a xs)"
  by (induction xs arbitrary: a) auto

lemma digits_from_nat_text: "digits_from 0 (nat_text n) = Some n"
proof (induction n rule: nat_text.induct)
  case (1 n)
  show ?case
  proof (cases "n < 10")
    case True
    then have "nat_text n = [char_of (48 + n)]" by (subst nat_text.simps) simp
    with True show ?thesis by (simp add: digit_char_of)
  next
    case False
    have "digits_from 0 (nat_text (n div 10) @ [char_of (48 + n mod 10)]) = Some (10 * (n div 10) + n mod 10)"
      using "1.IH" [OF False] nat_text_digits by (subst digits_from_snoc) (auto simp: digit_char_of)
    moreover from False have "nat_text n = nat_text (n div 10) @ [char_of (48 + n mod 10)]" by (subst nat_text.simps) simp
    ultimately show ?thesis by simp
  qed
qed

lemma digit_char_not: "digit_char c \<Longrightarrow> \<not> space_char c \<and> c \<noteq> CHR ''-'' \<and> c \<noteq> CHR ''+'' \<and> c \<noteq> CHR '':''"
  by (auto simp: digit_char_def space_char_def Let_def)

lemma strip_solid: "list_all (\<lambda>c. \<not> space_char c) s \<Longrightarrow> strip s = s"
proof -
  assume "list_all (\<lambda>c. \<not> space_char c) s"
  then have "dropWhile space_char s = s" "dropWhile space_char (rev s) = rev s"
    by (auto simp: dropWhile_eq_self_iff list_all_iff hd_rev)
  then show ?thesis by (simp add: strip_def)
qed

lemma int_of_nat_text: "n < 4300 \<Longrightarrow> int_of_text (nat_text n) = Some (int n)"
proof -
  assume n: "n < 4300"
  obtain c cs where t: "nat_text n = c # cs" using nat_text_digits [of n] by (cases "nat_text n") auto
  have digits: "list_all digit_char (nat_text n)" using nat_text_digits by blast
  then have "strip (nat_text n) = nat_text n"
    using digit_char_not by (intro strip_solid) (simp add: list_all_iff)
  moreover have "digit_char c" using digits t by simp
  moreover have "length (filter digit_char (nat_text n)) \<le> 4300"
    using n nat_text_digits [of n] length_filter_le [of digit_char "nat_text n"] by linarith
  ultimately show ?thesis
    using digits_from_nat_text [of n] digit_char_not [of c] unfolding t
    by (simp add: int_of_text_def Let_def unsigned_of_text_def)
qed

lemma split_at_fresh: "sep \<notin> set xs \<Longrightarrow> split_at sep xs = [xs]"
  by (induction xs) auto

lemma split_at_append: "sep \<notin> set xs \<Longrightarrow> split_at sep (xs @ sep # ys) = xs # split_at sep ys"
  by (induction xs) auto

lemma before_sep: "sep \<notin> set xs \<Longrightarrow> takeWhile (\<lambda>c. c \<noteq> sep) (xs @ sep # ys) = xs"
  "sep \<notin> set xs \<Longrightarrow> dropWhile (\<lambda>c. c \<noteq> sep) (xs @ sep # ys) = sep # ys"
  by (induction xs) auto

text \<open>Walltimes of days and hours are misread: the time limit \<open>d-h:m\<close>, which Slurm grants as \<open>d\<close> days, \<open>h\<close>
  hours and \<open>m\<close> minutes, is taken for \<open>d\<close> days, \<open>h\<close> minutes and \<open>m\<close> seconds, and \<open>d-h\<close> (\<open>d\<close> days and \<open>h\<close>
  hours) for \<open>d\<close> days and \<open>h\<close> minutes. The QoS check on the wall time then lets through a plan that is above
  the limit: nearly a day too long.\<close>

theorem walltime_days_hours_misread:
  assumes "d < 4300" and "h < 24" and "m < 60"
  shows "time_limit_to_hours (Some (nat_text d @ ''-'' @ nat_text h @ '':'' @ nat_text m)) =
      (Some (24 * of_nat d + of_nat h / 60 + of_nat m / 3600), None) \<and>
    time_limit_to_hours (Some (nat_text d @ ''-'' @ nat_text h)) = (Some (24 * of_nat d + of_nat h / 60), None) \<and>
    (0 < h \<or> 0 < m \<longrightarrow>
      24 * of_nat d + of_nat h / 60 + of_nat m / 3600 < (24 * of_nat d + of_nat h + of_nat m / 60 :: rat))"
proof -
  have digits: "c \<in> set (nat_text n) \<Longrightarrow> digit_char c" for c n
    using nat_text_digits [of n] by (simp add: list_all_iff)
  then have fresh: "CHR ''-'' \<notin> set (nat_text n)" "CHR '':'' \<notin> set (nat_text n)" for n
    using digit_char_not by blast+
  have solid: "strip (nat_text d @ ''-'' @ nat_text h @ rest) = nat_text d @ ''-'' @ nat_text h @ rest"
    if "\<And>c. c \<in> set rest \<Longrightarrow> digit_char c \<or> c = CHR '':''" for rest
  proof (rule strip_solid)
    have "space_char (CHR ''-'') = False" "space_char (CHR '':'') = False" by (simp_all add: space_char_def)
    with that show "list_all (\<lambda>c. \<not> space_char c) (nat_text d @ ''-'' @ nat_text h @ rest)"
      using digits digit_char_not by (auto simp: list_all_iff)
  qed
  have days: "takeWhile (\<lambda>c. c \<noteq> CHR ''-'') (nat_text d @ ''-'' @ rest) = nat_text d"
    "dropWhile (\<lambda>c. c \<noteq> CHR ''-'') (nat_text d @ ''-'' @ rest) = ''-'' @ rest" for rest
    using before_sep [OF fresh(1) [of d]] by simp_all
  have solid1: "strip (nat_text d @ ''-'' @ nat_text h @ '':'' @ nat_text m) = nat_text d @ ''-'' @ nat_text h @ '':'' @ nat_text m"
    by (rule solid) (auto dest: digits)
  have solid2: "strip (nat_text d @ ''-'' @ nat_text h) = nat_text d @ ''-'' @ nat_text h"
    using solid [of "[]"] by simp
  have parts: "clock_parts (nat_text h @ '':'' @ nat_text m) = Some (''0'', nat_text h, nat_text m)"
    "clock_parts (nat_text h) = Some (''0'', nat_text h, ''0'')"
    using fresh(2) nat_text_digits [of h]
    by (simp_all add: clock_parts_def split_at_append split_at_fresh)
  have zero: "int_of_text ''0'' = Some 0" using int_of_nat_text [of 0] by (simp add: nat_text.simps char_of_def bit_iff_odd)
  have numbers: "int_of_text (nat_text d) = Some (int d)" "int_of_text (nat_text h) = Some (int h)"
    "int_of_text (nat_text m) = Some (int m)"
    using assms by (auto intro!: int_of_nat_text)
  have "time_limit_to_hours (Some (nat_text d @ ''-'' @ nat_text h @ '':'' @ nat_text m)) =
      (Some (24 * of_nat d + of_nat h / 60 + of_nat m / 3600), None)"
    unfolding time_limit_to_hours_def option.case Let_def solid1 days
    using parts numbers zero by (simp add: clock_hours_def)
  moreover have "time_limit_to_hours (Some (nat_text d @ ''-'' @ nat_text h)) = (Some (24 * of_nat d + of_nat h / 60), None)"
    unfolding time_limit_to_hours_def option.case Let_def solid2 days
    using parts numbers zero by (simp add: clock_hours_def)
  moreover have "24 * of_nat d + of_nat h / 60 + of_nat m / 3600 < (24 * of_nat d + of_nat h + of_nat m / 60 :: rat)"
    if "0 < h \<or> 0 < m"
  proof -
    have "(of_nat h :: rat) / 60 \<le> of_nat h" "(of_nat m :: rat) / 3600 \<le> of_nat m / 60" by simp_all
    moreover have "0 < h \<Longrightarrow> (of_nat h :: rat) / 60 < of_nat h" "0 < m \<Longrightarrow> (of_nat m :: rat) / 3600 < of_nat m / 60" by simp_all
    ultimately show ?thesis using that by linarith
  qed
  ultimately show ?thesis by blast
qed

lemma walltime_days_hours_misread_witness:
  "time_limit_to_hours (Some ''1-12:30'') = (Some (24 + 12 / 60 + 30 / 3600), None) \<and>
   24 + 12 / 60 + 30 / 3600 < (24 + 12 + 30 / 60 :: rat)"
  using walltime_days_hours_misread [of 1 12 30] by (simp add: nat_text.simps char_of_def bit_iff_odd)

end
