(* ===== verification/RunServiceProps.thy ===== *)
theory RunServiceProps
  imports RunService ResourceProps RunProps
begin

text \<open>
  The properties of workflow policies, job names, idempotent preparation and retries in \<open>core/run_service.py\<close>.
\<close>

section \<open>Workflow policies\<close>

definition tasks_within :: "int list \<Rightarrow> bool" where
  "tasks_within ns \<longleftrightarrow> length ns \<le> 10000 \<and> distinct ns \<and> (\<forall>i \<in> set ns. 0 \<le> i \<and> i \<le> 1000000)"

definition policy_ok :: "workflow_policy \<Rightarrow> bool" where
  "policy_ok p \<longleftrightarrow> distinct (wp_dependencies p) \<and> [] \<notin> set (wp_dependencies p) \<and>
     1 \<le> wp_max_attempts p \<and> wp_max_attempts p \<le> 10 \<and> 0 \<le> wp_backoff_seconds p \<and> wp_backoff_seconds p \<le> 86400 \<and>
     wp_automation_level p \<in> automation_levels \<and>
     (case wp_workflow_id p of
        None \<Rightarrow> wp_stage_id p = None \<and> wp_stage_kind p = None \<and> wp_recovery_attempt p = 0 \<and>
          wp_submitted_tasks p = [] \<and> wp_reused_tasks p = []
      | Some i \<Rightarrow> i \<noteq> [] \<and> (\<exists>s. s \<noteq> [] \<and> wp_stage_id p = Some s) \<and>
          wp_stage_kind p \<in> Some ` {''preflight'', ''array'', ''merge''} \<and>
          0 \<le> wp_recovery_attempt p \<and> wp_recovery_attempt p \<le> 3 \<and>
          tasks_within (wp_submitted_tasks p) \<and> tasks_within (wp_reused_tasks p) \<and>
          set (wp_submitted_tasks p) \<inter> set (wp_reused_tasks p) = {})"

lemma all_some_Some: "all_some f xs = Some ys \<longleftrightarrow> map f xs = map Some ys"
proof (induction xs arbitrary: ys)
  case (Cons x xs)
  show ?case by (cases ys) (auto simp: Cons.IH [symmetric] split: option.split)
qed auto

lemma all_some_map: "(\<And>x. x \<in> set xs \<Longrightarrow> f (g x) = Some x) \<Longrightarrow> all_some f (map g xs) = Some xs"
  by (simp add: all_some_Some)

lemma map_Some_mem: "map f xs = map Some ys \<Longrightarrow> y \<in> set ys \<Longrightarrow> \<exists>x \<in> set xs. f x = Some y"
  by (metis (no_types, lifting) image_iff list.set_map option.inject)

lemma task_index_Some: "task_index v = Some i \<longleftrightarrow> v = JInt i \<and> 0 \<le> i \<and> i \<le> 1000000"
  by (cases v) auto

lemma nonempty_text_Some: "nonempty_text v = Some s \<longleftrightarrow> v = JStr s \<and> s \<noteq> []"
  by (cases v) auto

lemma bounded_int_Inr: "bounded_int v n a b = Inr i \<longleftrightarrow> v = JInt i \<and> a \<le> i \<and> i \<le> b"
  by (cases v) (auto simp: bounded_int_def)

lemma bounded_task_indexes_Inr: "bounded_task_indexes v l = Inr ns \<Longrightarrow> tasks_within ns"
  by (cases v) (auto simp: bounded_task_indexes_def tasks_within_def all_some_Some task_index_Some
      split: if_splits option.splits dest: map_Some_mem map_eq_imp_length_eq)

lemma bounded_task_indexes_map: "tasks_within ns \<Longrightarrow> bounded_task_indexes (JArr (map JInt ns)) l = Inr ns"
  by (simp add: bounded_task_indexes_def tasks_within_def all_some_map)

lemma dependencies_of_Inr: "dependencies_of v = Inr ds \<Longrightarrow> distinct ds \<and> [] \<notin> set ds"
  by (cases v) (auto simp: dependencies_of_def all_some_Some nonempty_text_Some split: if_splits option.splits dest!: map_Some_mem)

lemma dependencies_of_jstrs: "distinct ds \<Longrightarrow> [] \<notin> set ds \<Longrightarrow> dependencies_of (jstrs ds) = Inr ds"
  by (subst dependencies_of_def, simp add: jstrs_def, subst all_some_map) (auto simp: nonempty_text_Some)

lemma manifest_fields_ok:
  assumes "workflow_manifest_fields v p = Inr q" and "wp_workflow_id p = None" "wp_stage_id p = None" "wp_stage_kind p = None"
    "wp_recovery_attempt p = 0" "wp_submitted_tasks p = []" "wp_reused_tasks p = []"
    and base: "distinct (wp_dependencies p)" "[] \<notin> set (wp_dependencies p)" "1 \<le> wp_max_attempts p" "wp_max_attempts p \<le> 10"
    "0 \<le> wp_backoff_seconds p" "wp_backoff_seconds p \<le> 86400" "wp_automation_level p \<in> automation_levels"
  shows "policy_ok q"
proof (cases "v = JNull")
  case True
  with assms show ?thesis by (simp add: workflow_manifest_fields_def policy_ok_def)
next
  case False
  with assms(1) base show ?thesis
    by (auto simp: policy_ok_def workflow_manifest_fields_def bind_res_Inr_iff ensure_Inr_iff bounded_int_Inr nonempty_text_Some
        split: option.splits if_splits dest: bounded_task_indexes_Inr)
qed

lemma case_bool_Inr: "(case a of JBool b \<Rightarrow> Inr (f b) | _ \<Rightarrow> Inl e) = Inr p \<longleftrightarrow> (\<exists>b. a = JBool b \<and> p = f b)"
  by (cases a) auto

lemma policy_from_payload_ok:
  assumes "policy_from_payload repr_of v = Inr p"
  shows "policy_ok p"
proof (cases "v = None \<or> v = Some JNull")
  case True
  with assms show ?thesis
    by (auto simp: policy_from_payload_def policy_ok_def default_workflow_policy_def automation_levels_def)
next
  case False
  then obtain u where u: "v = Some u" "u \<noteq> JNull" by auto
  from assms u obtain ds most wait level q b where parts: "distinct ds" "[] \<notin> set ds" "1 \<le> most \<and> most \<le> 10" "0 \<le> wait \<and> wait \<le> 86400"
    "level \<in> automation_levels" and p: "p = q\<lparr>wp_require_approval := b\<rparr>"
    and q: "workflow_manifest_fields (get_default ''manifest'' JNull u) (default_workflow_policy\<lparr>wp_dependencies := ds,
        wp_max_attempts := most, wp_backoff_seconds := wait, wp_automation_level := level\<rparr>) = Inr q"
    unfolding policy_from_payload_def
    by (auto simp: Let_def bind_res_Inr_iff ensure_Inr_iff bounded_int_Inr case_bool_Inr dest!: dependencies_of_Inr)
  from q have "policy_ok q" by (rule manifest_fields_ok) (use parts in \<open>auto simp: default_workflow_policy_def\<close>)
  then show ?thesis unfolding p by (simp add: policy_ok_def split: option.splits)
qed

lemma canonical_jstrs: "canonical (jstrs xs) = jstrs xs"
  by (simp add: jstrs_def comp_def)

lemma get_default_canonical:
  "get_default k d (canonical v) = (case jfield k v of None \<Rightarrow> d | Some x \<Rightarrow> canonical x)"
  by (simp add: get_default_def jfield_canonical split: option.split)

definition manifest_json :: "workflow_policy \<Rightarrow> json" where
  "manifest_json p = JObj [(''workflow_id'', jopt JStr (wp_workflow_id p)), (''stage_id'', jopt JStr (wp_stage_id p)),
     (''stage_kind'', jopt JStr (wp_stage_kind p)), (''recovery_attempt'', JInt (wp_recovery_attempt p)),
     (''submitted_tasks'', JArr (map JInt (wp_submitted_tasks p))),
     (''reused_verified_tasks'', JArr (map JInt (wp_reused_tasks p)))]"

lemma policy_fields:
  "is_object (policy_to_payload p)" "policy_to_payload p \<noteq> JNull"
  "jfield ''dependencies'' (policy_to_payload p) = Some (jstrs (wp_dependencies p))"
  "jfield ''retry'' (policy_to_payload p) = Some (JObj [(''max_attempts'', JInt (wp_max_attempts p)),
     (''backoff_seconds'', JInt (wp_backoff_seconds p))])"
  "jfield ''automation'' (policy_to_payload p) = Some (JObj [(''level'', JStr (wp_automation_level p)),
     (''require_approval'', JBool (wp_require_approval p))])"
  "jfield ''manifest'' (policy_to_payload p) = map_option (\<lambda>_. manifest_json p) (wp_workflow_id p)"
  by (simp_all add: policy_to_payload_def manifest_json_def jopt_def split: option.split)

lemma manifest_roundtrip:
  assumes "policy_ok p" and "wp_workflow_id p = Some i"
  shows "workflow_manifest_fields (canonical (manifest_json p)) q =
    Inr (q\<lparr>wp_workflow_id := wp_workflow_id p, wp_stage_id := wp_stage_id p, wp_stage_kind := wp_stage_kind p,
       wp_recovery_attempt := wp_recovery_attempt p, wp_submitted_tasks := wp_submitted_tasks p, wp_reused_tasks := wp_reused_tasks p\<rparr>)"
proof -
  from assms obtain s k where sk: "wp_stage_id p = Some s" "s \<noteq> []" "wp_stage_kind p = Some k"
    "k \<in> {''preflight'', ''array'', ''merge''}" "i \<noteq> []"
    and r: "0 \<le> wp_recovery_attempt p" "wp_recovery_attempt p \<le> 3"
    and tasks: "tasks_within (wp_submitted_tasks p)" "tasks_within (wp_reused_tasks p)"
      "set (wp_submitted_tasks p) \<inter> set (wp_reused_tasks p) = {}"
    by (auto simp: policy_ok_def)
  have fields: "jfield ''workflow_id'' (canonical (manifest_json p)) = Some (JStr i)"
    "jfield ''stage_id'' (canonical (manifest_json p)) = Some (JStr s)"
    "jfield ''stage_kind'' (canonical (manifest_json p)) = Some (JStr k)"
    "get_default ''submitted_tasks'' (JArr []) (canonical (manifest_json p)) = JArr (map JInt (wp_submitted_tasks p))"
    "get_default ''reused_verified_tasks'' (JArr []) (canonical (manifest_json p)) = JArr (map JInt (wp_reused_tasks p))"
    "get_default ''recovery_attempt'' (JInt 0) (canonical (manifest_json p)) = JInt (wp_recovery_attempt p)"
    using sk assms(2) by (simp_all add: get_default_def manifest_json_def jopt_def comp_def)
  have obj: "is_object (canonical (manifest_json p))" "canonical (manifest_json p) \<noteq> JNull"
    by (simp_all add: manifest_json_def)
  have kind: "\<not> (JStr k \<notin> JStr ` {''preflight'', ''array'', ''merge''})" "nonempty_text (JStr k) = Some k"
    "nonempty_text (JStr i) = Some i" "nonempty_text (JStr s) = Some s" "hashable (JStr k)"
    using sk by auto
  have numbers: "bounded_task_indexes (JArr (map JInt (wp_submitted_tasks p))) l = Inr (wp_submitted_tasks p)"
    "bounded_task_indexes (JArr (map JInt (wp_reused_tasks p))) l = Inr (wp_reused_tasks p)"
    "bounded_int (JInt (wp_recovery_attempt p)) l 0 3 = Inr (wp_recovery_attempt p)" for l
    using tasks r by (simp_all add: bounded_task_indexes_map bounded_int_def)
  show ?thesis
    unfolding workflow_manifest_fields_def fields option.case prod.case kind numbers
    using obj tasks(3) sk(1,3) assms(2) kind(5) sk(4) by (simp add: kind numbers)
qed

lemma policy_read_back:
  assumes ok: "policy_ok p"
  shows "policy_from_payload repr_of (Some (canonical (policy_to_payload p))) = Inr p"
proof -
  from ok have base: "distinct (wp_dependencies p)" "[] \<notin> set (wp_dependencies p)" "1 \<le> wp_max_attempts p" "wp_max_attempts p \<le> 10"
    "0 \<le> wp_backoff_seconds p" "wp_backoff_seconds p \<le> 86400" "wp_automation_level p \<in> automation_levels"
    by (simp_all add: policy_ok_def)
  let ?u = "canonical (policy_to_payload p)"
  have obj: "is_object ?u" "?u \<noteq> JNull" by (simp_all add: policy_to_payload_def)
  have fields: "get_default ''dependencies'' (JArr []) ?u = jstrs (wp_dependencies p)"
    "get_default ''retry'' (JObj []) ?u = canonical (JObj [(''max_attempts'', JInt (wp_max_attempts p)), (''backoff_seconds'', JInt (wp_backoff_seconds p))])"
    "get_default ''automation'' (JObj []) ?u = canonical (JObj [(''level'', JStr (wp_automation_level p)), (''require_approval'', JBool (wp_require_approval p))])"
    "get_default ''manifest'' JNull ?u = (case wp_workflow_id p of None \<Rightarrow> JNull | Some _ \<Rightarrow> canonical (manifest_json p))"
    by (simp_all only: get_default_canonical policy_fields option.case canonical_jstrs) (simp split: option.split)
  have inner: "get_default ''max_attempts'' (JInt 1) (canonical (JObj [(''max_attempts'', JInt a), (''backoff_seconds'', JInt b)])) = JInt a"
    "get_default ''backoff_seconds'' (JInt 0) (canonical (JObj [(''max_attempts'', JInt a), (''backoff_seconds'', JInt b)])) = JInt b"
    "get_default ''level'' (JStr ''explain'') (canonical (JObj [(''level'', JStr l), (''require_approval'', JBool c)])) = JStr l"
    "get_default ''require_approval'' (JBool True) (canonical (JObj [(''level'', JStr l), (''require_approval'', JBool c)])) = JBool c"
    for a b l c by (simp_all add: get_default_def)
  have man: "workflow_manifest_fields (case wp_workflow_id p of None \<Rightarrow> JNull | Some _ \<Rightarrow> canonical (manifest_json p))
      (default_workflow_policy\<lparr>wp_dependencies := wp_dependencies p, wp_max_attempts := wp_max_attempts p,
         wp_backoff_seconds := wp_backoff_seconds p, wp_automation_level := wp_automation_level p\<rparr>)
    = Inr (p\<lparr>wp_require_approval := True\<rparr>)"
  proof (cases "wp_workflow_id p")
    case None
    with ok show ?thesis by (auto simp: workflow_manifest_fields_def policy_ok_def default_workflow_policy_def)
  next
    case (Some i)
    with manifest_roundtrip [OF ok Some] show ?thesis by (simp add: default_workflow_policy_def)
  qed
  show ?thesis
    unfolding policy_from_payload_def option.case fields Let_def inner py_str.simps man dependencies_of_jstrs [OF base(1,2)]
    using obj base by (simp add: bounded_int_def is_object_canonical man)
qed

text \<open>C37. Workflow policies: whatever payload is accepted gives a policy within its bounds (one to ten attempts, a
  back-off of at most a day, unique dependencies, a known automation level, a manifest that is complete and whose
  submitted and reused tasks do not overlap), and such a policy, written to the Run and read back, is the same.\<close>

theorem workflow_policy_roundtrip:
  assumes "policy_from_payload repr_of v = Inr p"
  shows "policy_ok p \<and> policy_from_payload repr_of' (Some (canonical (policy_to_payload p))) = Inr p"
  using policy_from_payload_ok [OF assms] policy_read_back by blast

lemma workflow_policy_roundtrip_witness:
  "policy_ok (default_workflow_policy\<lparr>wp_dependencies := [''run_a'']\<rparr>)"
  using workflow_policy_roundtrip [of "\<lambda>_. []" "Some (JObj [(''dependencies'', JArr [JStr ''run_a''])])"
      "default_workflow_policy\<lparr>wp_dependencies := [''run_a'']\<rparr>"]
  by (simp add: policy_from_payload_def get_default_def dependencies_of_def bounded_int_def workflow_manifest_fields_def
      default_workflow_policy_def automation_levels_def)

section \<open>Job names\<close>

lemma replace_unsafe_safe: "list_all safe_name_char (replace_unsafe b s)"
  by (induction b s rule: replace_unsafe.induct) (auto simp: safe_name_char_def)

lemma strip_dots_safe: "list_all safe_name_char s \<Longrightarrow> list_all safe_name_char (strip_dots s)"
  by (auto simp: strip_dots_def Let_def list_all_iff dest!: set_dropWhileD)

text \<open>Job names: the name under which a Run is submitted is one Slurm accepts (letters, digits, dot, dash and
  underscore, at most 128 of them), however long or odd the name the user gave, and it always ends in the first
  twenty digits of the hash of the Run's id, by which reconciliation finds the job again: two Runs submitted
  under the same name have the same such digits.\<close>

theorem job_name_bounds:
  assumes "submission_job_name sha marker rid given = Inr n" and "\<And>x. list_all safe_name_char (sha x)"
    and "\<And>x. 20 \<le> length (sha x)"
  shows "length n \<le> 128 \<and> list_all safe_name_char n \<and> drop (length n - 20) n = take 20 (sha rid) \<and>
    (submission_job_name sha marker' rid' given' = Inr n \<longrightarrow> take 20 (sha rid') = take 20 (sha rid))"
proof -
  have tail: "drop (length m - 20) m = take 20 (sha r)" if "submission_job_name sha p r g = Inr m" for p r g m
    using that assms(3) [of r]
    by (auto simp: submission_job_name_def Let_def min_def split: if_splits)
  have safe: "list_all safe_name_char (take 20 (sha rid))" using assms(2) by (metis append_take_drop_id list_all_append)
  have "length n \<le> 128 \<and> list_all safe_name_char n"
  proof (cases "no_text given")
    case True
    with assms(1) safe show ?thesis by (auto simp: submission_job_name_def Let_def safe_name_char_def split: if_splits)
  next
    case False
    let ?base = "if strip_dots (replace_unsafe False (the given)) = [] then marker else strip_dots (replace_unsafe False (the given))"
    from False assms(1) have n: "n = take (128 - (6 + length (take 20 (sha rid)))) ?base @ ''-p107-'' @ take 20 (sha rid)"
      and "list_all safe_name_char marker"
      by (auto simp: submission_job_name_def Let_def split: if_splits)
    moreover have "list_all safe_name_char ?base"
      using calculation(2) strip_dots_safe [OF replace_unsafe_safe] by simp
    then have "list_all safe_name_char (take k ?base)" for k by (metis append_take_drop_id list_all_append)
    moreover have "list_all safe_name_char ''-p107-''"
      by (simp add: safe_name_char_def lower_char_def digit_char_def)
    ultimately show ?thesis using safe unfolding n by simp
  qed
  moreover have "take 20 (sha rid') = take 20 (sha rid)" if "submission_job_name sha marker' rid' given' = Inr n"
    using tail [OF that] tail [OF assms(1)] by simp
  ultimately show ?thesis using tail [OF assms(1)] by blast
qed

lemma job_name_bounds_witness:
  "\<exists>n. submission_job_name (\<lambda>_. replicate 64 CHR ''a'') ''pilot107-run'' ''run_1'' (Some ''my job (v2)'') = Inr n \<and> length n \<le> 128"
proof -
  let ?n = "''my-job-v2-p107-'' @ replicate 20 CHR ''a''"
  have "submission_job_name (\<lambda>_. replicate 64 CHR ''a'') ''pilot107-run'' ''run_1'' (Some ''my job (v2)'') = Inr ?n"
    by (simp add: submission_job_name_def Let_def no_text_def safe_name_char_def lower_char_def upper_char_def digit_char_def
        strip_dots_def)
  moreover from job_name_bounds [OF this] have "length ?n \<le> 128"
    by (simp add: safe_name_char_def lower_char_def)
  ultimately show ?thesis by blast
qed

section \<open>Idempotent preparation\<close>

lemma same_content_stored: "same_content (stored_spec now n a) a"
  by (simp add: same_content_def stored_spec_def python_eq_canonical)

lemma child_attempt_mono:
  assumes "run_effect d d'" and "runs_ok d" and "child_attempt a d = Inr n"
  shows "child_attempt a d' = Inr n"
proof (cases "spec_parent a")
  case None
  with assms(3) show ?thesis by (simp add: child_attempt_def)
next
  case (Some p)
  with assms(3) obtain x where x: "row_of rn_id p (rd_runs d) = Some x" "spec_owner (rn_spec x) = spec_owner a"
    "n = spec_attempt (rn_spec x) + 1"
    by (auto simp: child_attempt_def row_of_def ensure_Inr_iff split: option.splits)
  from run_effect_row [OF assms(1,2) x(1)] obtain x' where "row_of rn_id p (rd_runs d') = Some x'" "run_extends x x'" by blast
  with x Some show ?thesis by (simp add: child_attempt_def row_of_def extends_defs)
qed

lemma plain_lineage: "spec_lineage_reason a \<noteq> Some ''agent_remediation'' \<Longrightarrow>
    lineage_check repr_of a d = (if spec_plan_id a \<noteq> None then Inl (R_Value ''remediation_plan_id'') else Inr ())"
  by (simp add: lineage_check_def)

lemma run_exists_get: "get_run rid d = Inr r \<Longrightarrow> run_exists rid d"
  by (auto simp: get_run_def split: option.splits dest!: fetchone_Some)

lemma create_run_refused:
  "child_attempt a d = Inr n \<Longrightarrow> lineage_check repr_of a d = Inr () \<Longrightarrow> run_exists (spec_run_id a) d \<Longrightarrow>
     create_run redact repr_of t a d = (Inl R_Integrity, d)"
  by (simp add: create_run_def create_run_tx_def commit_def then_read_def)

text \<open>What a successful idempotent \<open>prepare\<close> leaves behind.\<close>

lemma prepare_leaves:
  assumes "prepare w t q rid True db = (Inr r, db1)" and "rq_lineage_reason q \<noteq> Some ''agent_remediation''" and ok: "runs_ok db"
  shows "get_run rid db1 = Inr r \<and> same_content (rc_spec r) (request_spec rid q) \<and> spec_plan_id (request_spec rid q) = None \<and>
    run_effect db db1 \<and> (\<exists>n. child_attempt (request_spec rid q) db1 = Inr n)"
proof -
  let ?a = "request_spec rid q" and ?c = "create_run (wo_redact w) (wo_repr w) t (request_spec rid q) db"
  have id: "spec_run_id ?a = rid" and plain: "spec_lineage_reason ?a \<noteq> Some ''agent_remediation''"
    using assms(2) by (simp_all add: request_spec_def)
  have eff: "run_effect db (snd ?c)" using ok by (intro run_step_effect [OF st_create])
  have db1: "snd ?c = db1" and r: "same_content (rc_spec r) ?a"
    and res: "fst ?c = Inr r \<or> fst ?c = Inl R_Integrity \<and> get_run rid db1 = Inr r"
    using assms(1) by (auto simp: prepare_def Let_def bind_res_Inr_iff split: prod.splits sum.splits run_error.splits if_splits)
      (cases "get_run rid (snd ?c)"; auto)+
  have att: "(\<exists>n. child_attempt ?a db = Inr n) \<and> spec_plan_id ?a = None"
    using res by (auto simp: create_run_def then_read_def commit_def create_run_tx_def plain_lineage [OF plain] bind_res_def
        child_attempt_def ensure_Inr_iff ensure_def split: sum.splits option.splits if_splits)
  moreover have "get_run rid db1 = Inr r"
  proof (cases "fst ?c = Inr r")
    case True
    then show ?thesis using db1 unfolding create_run_def id
      by (auto simp: then_read_def split: prod.splits sum.splits)
  next
    case False
    with res show ?thesis by simp
  qed
  ultimately show ?thesis using eff r child_attempt_mono [OF _ ok] unfolding db1 by blast
qed


definition p_world :: world where
  "p_world = \<lparr>wo_sha = (\<lambda>_. replicate 64 CHR ''a''), wo_parse = (\<lambda>t. if t = ''2025-01-01T00:01:05+00:00'' then Some (DateTime 2025 1 1 0 1 5 0) else None), wo_timestamp = (\<lambda>_. 0), wo_redact = (\<lambda>j. j),
     wo_redact_text = (\<lambda>s. s), wo_repr = (\<lambda>_. []), wo_iso_ok = (\<lambda>_. True)\<rparr>"

definition p_plan :: resource_plan where
  "p_plan = \<lparr>rp_partition = ''debug'', rp_qos = None, rp_nodes = 1, rp_ntasks = 1, rp_cpus_per_task = 2, rp_memory_value = None,
     rp_memory_unit = None, rp_gpus_per_node = None, rp_gpus_total = None, rp_gpu_type = None, rp_time_limit = Some ''10'',
     rp_array = None\<rparr>"

definition p_request :: run_request where
  "p_request = \<lparr>rq_owner = ''ann'', rq_workdir = ''/w'', rq_script = ''run.sh'', rq_plan = p_plan, rq_job_name = None,
     rq_contract_id = None, rq_parent = None, rq_lineage_reason = None, rq_plan_id = None, rq_workflow = default_workflow_policy,
     rq_workspace_revision = None, rq_workspace_digest = None, rq_source_revision = None, rq_snapshot_ref = None\<rparr>"

lemma p_prepare:
  "prepare p_world t p_request ''r1'' True empty_run_db =
     (Inr (rn_record (new_run_row (stored_spec t 0 (request_spec ''r1'' p_request)))),
      snd (prepare p_world t p_request ''r1'' True empty_run_db))"
proof -
  have "spec_lineage_reason (request_spec ''r1'' p_request) = None" "spec_parent (request_spec ''r1'' p_request) = None"
    "spec_plan_id (request_spec ''r1'' p_request) = None" "spec_run_id (request_spec ''r1'' p_request) = ''r1''"
    by (simp_all add: request_spec_def p_request_def)
  moreover have "rc_spec (rn_record (new_run_row x)) = x" for x by (simp add: new_run_row_def)
  moreover have "spec_run_id (stored_spec t 0 a) = spec_run_id a" for a by (simp add: stored_spec_def)
  ultimately show ?thesis
    by (simp add: prepare_def create_run_def create_run_tx_def child_attempt_def lineage_check_def append_event_tx_def
        commit_def then_read_def get_run_def empty_run_db_def same_content_stored Let_def)
qed


end
