(* ===== verification/SubmissionProps.thy ===== *)
theory SubmissionProps
  imports SubmissionInv RunServiceProps
begin

text \<open>
  The properties of the submission of Runs: at most one call of the backend per Run, the end of every execution, a
  submission without interference, and two ways in which the outcome of a call is lost.
\<close>

section \<open>At most once\<close>

text \<open>C1. At-most-once submission. Any number of dispatchers, each with its own settings, claim submission messages
  and execute them, interleaved access by access with one another, with crashes at any point, and with any other
  operation of the control repository and of the Run store; leases expire at any time, since every access reads
  whatever clock it likes. However they interleave, \<open>backend.submit\<close> is never called twice for one Run.\<close>

theorem submitted_at_most_once:
  assumes "reachable_sys w svs s"
  shows "distinct (sy_calls s)"
  using sys_inv_reachable [OF assms] by (simp add: sys_inv_def once_ok_def)

section \<open>Executions end\<close>

text \<open>The steps a phase may still take.\<close>

fun phase_rank :: "phase \<Rightarrow> nat" where
  "phase_rank (Ph_done _) = 0"
| "phase_rank (Ph_candidates _ _) = 1"
| "phase_rank (Ph_ack _ _) = 2"
| "phase_rank (Ph_fail _ _ _ _ _ _ _) = 3"
| "phase_rank (Ph_apply _ _ _) = 3"
| "phase_rank (Ph_bind _ _ _) = 3"
| "phase_rank (Ph_refused _ _) = 3"
| "phase_rank (Ph_receipt _ _ _) = 4"
| "phase_rank (Ph_retry _ _ _) = 4"
| "phase_rank (Ph_reconcile _ _ _ _) = 5"
| "phase_rank (Ph_called _ _ _ _) = 6"
| "phase_rank (Ph_recover _ _ _) = 6"
| "phase_rank (Ph_submit _ _ _) = 7"
| "phase_rank (Ph_read_back _ _ _) = 8"
| "phase_rank (Ph_renew _ _ _) = 9"
| "phase_rank (Ph_claim _ _ _) = 10"
| "phase_rank (Ph_intent _ _) = 11"
| "phase_rank (Ph_start _) = 12"

text \<open>The backend answers: \<open>submit\<close> returns or raises, and so does the search for jobs.\<close>

fun answered :: "phase \<Rightarrow> answer \<Rightarrow> bool" where
  "answered (Ph_called _ _ _ _) ans = (case ans of A_none \<Rightarrow> False | A_jobs _ \<Rightarrow> False | _ \<Rightarrow> True)"
| "answered (Ph_reconcile _ _ _ _) ans = (case ans of A_none \<Rightarrow> False | A_receipt _ \<Rightarrow> False | _ \<Rightarrow> True)"
| "answered _ _ = True"

fun all_answered :: "world \<Rightarrow> service \<Rightarrow> (datetime \<times> answer) list \<Rightarrow> phase \<Rightarrow> control_db \<Rightarrow> run_db \<Rightarrow> bool" where
  "all_answered w sv [] p cd rd = True"
| "all_answered w sv ((now, ans) # outside) p cd rd =
     (answered p ans \<and>
      (case exec_step w sv now ans p cd rd of (p', cd', rd') \<Rightarrow> all_answered w sv outside p' cd' rd'))"

lemma rank_conclude [simp]: "phase_rank (conclude out) \<le> 1"
  by (cases out) simp_all

lemma rank_raise [simp]: "phase_rank (raise e) = 0"
  by (simp add: raise_def)

lemma rank_failed [simp]: "phase_rank (failed m rid reason e) = 3" "phase_rank (transport_failed m rid) = 3"
  by (simp_all add: failed_def transport_failed_def)

lemma exec_rank:
  assumes "exec_step w sv now ans p cd rd = (p', cd', rd')" and "answered p ans"
  shows "phase_rank p' \<le> phase_rank p - 1"
proof (cases p)
  case (Ph_start m)
  with assms(1) show ?thesis by (auto simp: step_start_def split: sum.splits if_splits)
next
  case (Ph_intent m run)
  with assms(1) show ?thesis by (auto split: sum.splits prod.splits)
next
  case (Ph_claim m run i)
  with assms(1) show ?thesis by (auto simp: step_claim_def split: option.splits sum.splits prod.splits if_splits)
next
  case (Ph_renew m run i)
  with assms(1) show ?thesis by (auto simp: step_renew_def split: option.splits sum.splits prod.splits control_error.splits)
next
  case (Ph_read_back m run i)
  with assms(1) show ?thesis by (auto simp: step_read_back_def split: sum.splits)
next
  case (Ph_submit m run i)
  with assms(1) show ?thesis by (auto simp: step_submit_def split: if_splits)
next
  case (Ph_reconcile m run i t)
  with assms show ?thesis
    by (auto simp: step_reconcile_def Let_def split: answer.splits option.splits reconcile_state.splits)
next
  case (Ph_ack m out)
  with assms(1) show ?thesis
    using rank_conclude [of out] by (auto simp: step_ack_def split: option.splits sum.splits prod.splits control_error.splits)
next
  case (Ph_fail m rid st ty reason a out)
  with assms(1) show ?thesis
    using rank_conclude [of out] by (auto simp: step_fail_def split: option.splits sum.splits prod.splits run_error.splits if_splits)
qed (use assms in \<open>auto simp: past_steps split: sum.splits prod.splits option.splits if_splits run_error.splits
  control_error.splits answer.splits reconcile_state.splits retry_then.splits\<close>)

lemma run_phases_rank:
  "run_phases w sv outside p cd rd = (p', cd', rd') \<Longrightarrow> all_answered w sv outside p cd rd \<Longrightarrow>
     phase_rank p' \<le> phase_rank p - length outside"
proof (induction outside arbitrary: p cd rd)
  case (Cons x outside)
  obtain now ans where x: "x = (now, ans)" by (cases x)
  obtain q c r where q: "exec_step w sv now ans p cd rd = (q, c, r)" by (cases "exec_step w sv now ans p cd rd")
  with Cons x have "phase_rank p' \<le> phase_rank q - length outside" "phase_rank q \<le> phase_rank p - 1"
    using exec_rank by auto
  then show ?case by simp
qed simp

lemma phase_rank_0: "phase_rank p = 0 \<Longrightarrow> \<exists>r. p = Ph_done r"
  by (cases p) simp_all


lemma errors_answer:
  "all_answered w sv (replicate n (now, A_transport ty text)) p cd rd"
proof (induction n arbitrary: p cd rd)
  case (Suc n)
  have "answered p (A_transport ty text)" by (cases p) simp_all
  with Suc show ?case by (auto split: prod.split)
qed simp

section \<open>A submission\<close>

definition s_service :: service where
  "s_service = \<lparr>sv_dispatcher = ''w1'', sv_lease_seconds = 60, sv_retry_delay_seconds = 5, sv_max_attempts = 5,
     sv_job_name_marker = ''pilot107-run'', sv_window_seconds = 60, sv_reconcile = False, sv_strategy = ST_REST_NATIVE,
     sv_receipt_fields = [], sv_workdir = None\<rparr>"

definition s_mid :: string where
  "s_mid = submission_message_id (wo_sha p_world) ''r1''"

definition s_msg :: message where
  "s_msg = new_message c_t0 s_mid ''run.submit'' ''r1'' (JObj [(''run_id'', JStr ''r1'')]) (isoformat c_t0)"

definition s_held :: message where
  "s_held = ms_claimed ''w1'' ''2025-01-01T00:01:00+00:00'' ''2025-01-01T00:00:00+00:00'' s_msg"

definition s_renewed :: message where
  "s_renewed = s_held\<lparr>ms_lease_expires := Some ''2025-01-01T00:01:05+00:00'', ms_updated_at := ''2025-01-01T00:00:05+00:00''\<rparr>"

lemmas s_msg_defs = s_renewed_def s_held_def s_msg_def new_message_def ms_claimed_def upd_outbox_claim_def

definition s_row :: run_row where
  "s_row = new_run_row (stored_spec c_t0 0 (request_spec ''r1'' p_request))"

definition s_runs :: run_db where
  "s_runs = snd (create_run (wo_redact p_world) (wo_repr p_world) c_t0 (request_spec ''r1'' p_request) empty_run_db)"

definition s_claimed :: run_db where
  "s_claimed = snd (claim_submission (wo_redact p_world) c_t1 ''r1'' (Some ''w1'') (Some 1) s_runs)"

lemma s_ref [simp]: "ref_ok s_mid" "ref_ok ''run.submit''" "name_ok ''run.submit''"
  by (simp_all add: ref_ok_def name_ok_def s_mid_def submission_message_id_def p_world_def lower_char_def upper_char_def digit_char_def list_all_iff)

lemma s_enqueue: "enqueue iso_ok c_t0 s_mid ''run.submit'' ''r1'' (JObj [(''run_id'', JStr ''r1'')]) None empty_control =
    (Inr (s_msg, True), c_box s_msg)"
  by (simp add: enqueue_def Let_def empty_control_def c_box_def insert_ignore_def s_msg_def new_message_def row_to_outbox_def)

lemma s_claim: "claim_outbox_message c_t0 s_mid ''w1'' 60 (c_box s_msg) = (Inr (Some s_held), c_box s_held)"
proof -
  have "due ''2025-01-01T00:00:00+00:00'' s_msg" by (simp add: due_def s_msg_defs c_after)
  moreover have "ms_id s_msg = s_mid" "ms_id s_held = s_mid" "is_object (ms_payload s_held)" by (simp_all add: s_msg_defs)
  ultimately show ?thesis
    by (simp add: claim_outbox_message_def c_after Let_def claim_where_def rowcount_def row_to_outbox_def)
      (simp add: s_held_def ms_claimed_def)
qed

lemma s_create: "rd_runs s_runs = [s_row]"
proof -
  have "spec_lineage_reason (request_spec ''r1'' p_request) = None" "spec_parent (request_spec ''r1'' p_request) = None"
    "spec_plan_id (request_spec ''r1'' p_request) = None" "spec_run_id (request_spec ''r1'' p_request) = ''r1''"
    by (simp_all add: request_spec_def p_request_def)
  moreover have "rc_spec (rn_record (new_run_row x)) = x" for x by (simp add: new_run_row_def)
  moreover have "spec_run_id (stored_spec t 0 a) = spec_run_id a" for a t by (simp add: stored_spec_def)
  ultimately show ?thesis
    by (simp add: s_runs_def s_row_def create_run_def create_run_tx_def child_attempt_def lineage_check_def append_event_tx_def
        commit_def then_read_def get_run_def empty_run_db_def Let_def)
qed

lemma s_row_simps [simp]: "rn_id s_row = ''r1''" "rc_state (rn_record s_row) = RS_VALIDATED" "rc_job_id (rn_record s_row) = None"
  "rn_sub_token s_row = 0" "rc_id (rn_record s_row) = ''r1''"
  by (simp_all add: s_row_def new_run_row_def stored_spec_def request_spec_def)

lemma s_get: "get_run ''r1'' s_runs = Inr (rn_record s_row)"
  by (simp add: get_run_def s_create)

lemma s_claim_run: "claim_submission (wo_redact p_world) c_t1 ''r1'' (Some ''w1'') (Some 1) s_runs = (Inr True, s_claimed) \<and>
    rd_runs s_claimed = [upd_claim_submission c_t1 (Some ''w1'') (Some 1) s_row]"
proof -
  have "submission_claimable ''r1'' (Some 1) s_row" by (simp add: submission_claimable_def)
  moreover have "rn_id (upd_claim_submission c_t1 (Some ''w1'') (Some 1) s_row) = ''r1''"
    by (simp add: run_upd_defs)
  ultimately show ?thesis
    unfolding s_claimed_def
    by (simp add: claim_submission_def claim_submission_tx_def s_create commit_def append_event_tx_def Let_def rowcount_def)
qed

lemma s_intent:
  assumes "sv_workdir sv = None" and "sv_job_name_marker sv = ''pilot107-run''"
  shows "\<exists>i. submission_intent p_world sv c_t1 True (rn_record s_row) rd = (Inr i, rd)"
proof -
  have plan: "resource_plan_from_dict r (spec_resource_plan (rc_spec (rn_record s_row))) = Inr p_plan" for r
    by (simp add: s_row_def new_run_row_def stored_spec_def request_spec_def p_request_def plan_read_back)
  have "truthy (spec_resource_plan (rc_spec (rn_record s_row)))"
    by (simp add: s_row_def new_run_row_def stored_spec_def request_spec_def p_request_def resource_plan_to_dict_def Let_def)
  moreover have "policy_from_payload (wo_repr p_world) (Some (spec_workflow (rc_spec (rn_record s_row)))) = Inr default_workflow_policy"
    using policy_read_back [of default_workflow_policy]
    by (simp add: s_row_def new_run_row_def stored_spec_def request_spec_def p_request_def policy_ok_def default_workflow_policy_def automation_levels_def)
  moreover have "spec_retry_not_before (rc_spec (rn_record s_row)) = None" "spec_job_name (rc_spec (rn_record s_row)) = None"
    by (simp_all add: s_row_def new_run_row_def stored_spec_def request_spec_def p_request_def)
  moreover have "wp_dependencies default_workflow_policy = []" by (simp add: default_workflow_policy_def)
  moreover have "blockers (validate_resource_plan p_plan None None) = []"
    by (simp add: validate_resource_plan_def p_plan_def blockers_def profile_findings_def qos_findings_def no_text_def add_if_def Let_def)
  moreover note assms
  moreover have "\<exists>n. submission_job_name (wo_sha p_world) ''pilot107-run'' ''r1'' None = Inr n"
    by (simp add: submission_job_name_def p_world_def no_text_def Let_def safe_name_char_def lower_char_def digit_char_def)
  ultimately show ?thesis
    by (auto simp: submission_intent_def require_retry_due_def resolve_dependency_job_ids_def run_preflight_def plan)
qed

text \<open>One execution, as steps of the system.\<close>

definition at_phase :: "phase \<Rightarrow> control_db \<Rightarrow> run_db \<Rightarrow> string list \<Rightarrow> bool" where
  "at_phase p cd rd calls \<longleftrightarrow> (\<exists>s d m. reachable_sys p_world (\<lambda>_. s_service) s \<and> sy_threads s 0 = Th_run d m p \<and>
     sy_control s = cd \<and> sy_runs s = rd \<and> sy_calls s = calls)"

lemma at_phase_step:
  assumes "at_phase p cd rd calls" and "exec_step p_world s_service now ans p cd rd = (p', cd', rd')"
  shows "at_phase p' cd' rd' (calls @ called p p')"
proof -
  from assms(1) obtain s d m where s: "reachable_sys p_world (\<lambda>_. s_service) s" "sy_threads s 0 = Th_run d m p"
    "sy_control s = cd" "sy_runs s = rd" "sy_calls s = calls" unfolding at_phase_def by blast
  let ?t = "s\<lparr>sy_control := cd', sy_runs := rd', sy_threads := (sy_threads s)(0 := Th_run d m p'), sy_calls := sy_calls s @ called p p'\<rparr>"
  have "sys_step p_world (\<lambda>_. s_service) s ?t" using s assms(2) by (intro ss_exec) simp_all
  with s(1) have "reachable_sys p_world (\<lambda>_. s_service) ?t" unfolding reachable_sys_def by (rule rtranclp.rtrancl_into_rtrancl)
  with s show ?thesis unfolding at_phase_def by (intro exI [of _ ?t] exI [of _ d] exI [of _ m]) simp
qed

lemma s_start: "at_phase (Ph_start s_held) (c_box s_held) s_runs []"
proof -
  let ?step = "sys_step p_world (\<lambda>_. s_service)"
  let ?s1 = "start_sys\<lparr>sy_runs := s_runs\<rparr>" and ?s2 = "start_sys\<lparr>sy_runs := s_runs, sy_control := c_box s_msg\<rparr>"
  let ?s3 = "start_sys\<lparr>sy_runs := s_runs, sy_control := c_box s_held, sy_threads := (\<lambda>_. Th_idle)(0 := Th_run False s_held (Ph_start s_held))\<rparr>"
  have "?step start_sys ?s1"
    using st_create [of "wo_redact p_world" "wo_repr p_world" "wo_sha p_world" empty_run_db c_t0 "request_spec ''r1'' p_request"]
    by (intro ss_run) (simp add: s_runs_def start_sys_def)
  moreover have "?step ?s1 ?s2"
  proof -
    have "control_step (wo_iso_ok p_world) (wo_redact_text p_world) empty_control (c_box s_msg)"
      using c_enqueue [of "wo_iso_ok p_world" "wo_redact_text p_world" empty_control c_t0 s_mid "''run.submit''" "''r1''"
          "JObj [(''run_id'', JStr ''r1'')]" None] by (simp add: s_enqueue)
    moreover have "submit_ids p_world (c_box s_msg)" by (simp add: submit_ids_def s_msg_defs s_mid_def)
    ultimately have "?step ?s1 (?s1\<lparr>sy_control := c_box s_msg\<rparr>)" by (intro ss_control) (simp_all add: start_sys_def)
    then show ?thesis by simp
  qed
  moreover have "?step ?s2 ?s3"
  proof -
    have "?step ?s2 (?s2\<lparr>sy_control := c_box s_held, sy_threads := (sy_threads ?s2)(0 := Th_run False s_held (Ph_start s_held))\<rparr>)"
      by (rule ss_claim_one [of _ _ c_t0 _ "''r1''"]) (simp_all add: start_sys_def s_service_def s_claim [unfolded s_mid_def])
    then show ?thesis by (simp add: start_sys_def)
  qed
  ultimately have "reachable_sys p_world (\<lambda>_. s_service) ?s3"
    unfolding reachable_sys_def by (meson rtranclp.rtrancl_into_rtrancl rtranclp.rtrancl_refl)
  then show ?thesis unfolding at_phase_def by (intro exI [of _ ?s3] exI [of _ False] exI [of _ s_held]) (simp add: start_sys_def)
qed

lemma s_called: "\<exists>i t. at_phase (Ph_called s_renewed (rn_record s_row) i t) (c_box s_renewed) s_claimed [''r1'']"
proof -
  let ?run = "rn_record s_row"
  obtain i where i: "submission_intent p_world s_service c_t1 True ?run s_runs = (Inr i, s_runs)"
    using s_intent [of s_service s_runs] by (auto simp: s_service_def)
  have "message_run_id s_held = Inr ''r1''" by (simp add: message_run_id_def s_msg_defs)
  then have "exec_step p_world s_service c_t0 A_none (Ph_start s_held) (c_box s_held) s_runs = (Ph_intent s_held ?run, c_box s_held, s_runs)"
    by (simp add: step_start_def s_get)
  from at_phase_step [OF s_start this] have "at_phase (Ph_intent s_held ?run) (c_box s_held) s_runs []" by simp
  from at_phase_step [OF this, of c_t1 A_none] i have "at_phase (Ph_claim s_held ?run i) (c_box s_held) s_runs []" by simp
  moreover have "step_claim p_world c_t1 s_held ?run i s_runs = (Ph_renew s_held ?run i, s_claimed)"
    using s_claim_run by (simp add: step_claim_def) (simp add: s_msg_defs)
  ultimately have "at_phase (Ph_renew s_held ?run i) (c_box s_held) s_claimed []"
    using at_phase_step [of "Ph_claim s_held ?run i" "c_box s_held" s_runs "[]" c_t1 A_none] by simp
  moreover have "step_renew s_service c_t1 s_held ?run i (c_box s_held) = (Ph_read_back s_held ?run i, c_box s_renewed)"
  proof -
    have "outbox_held s_mid ''w1'' 1 s_held" "ms_lease_expires s_held = Some ''2025-01-01T00:01:00+00:00''"
      "ms_lease_owner s_held = Some ''w1''" "ms_id s_held = s_mid" "ms_token s_held = 1"
      by (simp_all add: outbox_held_def s_msg_defs)
    then show ?thesis
      by (simp add: step_renew_def renew_update_def c_after Let_def less_char_def rowcount_def s_service_def)
        (simp add: s_renewed_def)
  qed
  ultimately have "at_phase (Ph_read_back s_held ?run i) (c_box s_renewed) s_claimed []"
    using at_phase_step [of "Ph_renew s_held ?run i" "c_box s_held" s_claimed "[]" c_t1 A_none] by simp
  moreover have "get_outbox (ms_id s_held) (c_box s_renewed) = Inr s_renewed"
    by (simp add: get_outbox_def row_to_outbox_def s_msg_defs)
  ultimately have "at_phase (Ph_submit s_renewed ?run i) (c_box s_renewed) s_claimed []"
    using at_phase_step [of "Ph_read_back s_held ?run i" "c_box s_renewed" s_claimed "[]" c_t1 A_none]
    by (simp add: step_read_back_def)
  moreover have "remaining_at_least p_world submit_lease_reserve_seconds c_t1 (ms_lease_expires s_renewed)"
    by (simp add: remaining_at_least_def submit_lease_reserve_seconds_def s_renewed_def p_world_def c_t1_def days_in_month_def
        less_eq_datetime_def Let_def)
  ultimately have "at_phase (Ph_called s_renewed ?run i (wo_timestamp p_world c_t1)) (c_box s_renewed) s_claimed [''r1'']"
    using at_phase_step [of "Ph_submit s_renewed ?run i" "c_box s_renewed" s_claimed "[]" c_t1 A_none] by (simp add: step_submit_def)
  then show ?thesis by blast
qed


lemma submitted_at_most_once_witness:
  "\<exists>s. reachable_sys p_world (\<lambda>_. s_service) s \<and> sy_calls s = [''r1''] \<and> distinct (sy_calls s)"
proof -
  obtain s where "reachable_sys p_world (\<lambda>_. s_service) s" "sy_calls s = [''r1'']"
    using s_called unfolding at_phase_def by blast
  with submitted_at_most_once [OF this(1)] show ?thesis by blast
qed

section \<open>What becomes of a receipt\<close>

text \<open>The message's holder holds the Run's fence: the Run is SUBMITTING under its owner and token and has no job.\<close>

definition fence_held :: "message \<Rightarrow> string \<Rightarrow> run_db \<Rightarrow> run_row \<Rightarrow> bool" where
  "fence_held m rid rd x \<longleftrightarrow> runs_ok rd \<and> x \<in> set (rd_runs rd) \<and> 0 < ms_token m \<and>
     (\<exists>ow. ms_lease_owner m = Some ow \<and> submission_held rid ow (ms_token m) x)"

lemma run_update:
  assumes "runs_ok rd" and "x \<in> set (rd_runs rd)" and "p x" and "\<And>y. p y \<Longrightarrow> rn_id y = rid" and "\<And>y. rn_id (f y) = rn_id y"
  shows "rowcount p (rd_runs rd) = 1" and "fetchone (\<lambda>y. rn_id y = rid) (sql_update p f (rd_runs rd)) = Some (f x)"
    and "\<exists>y \<in> set (sql_update p f (rd_runs rd)). rn_id y = rid"
proof -
  note k = runs_okD [OF assms(1)]
  have x: "row_of rn_id rid (rd_runs rd) = Some x" using assms(2-4) k by (simp add: row_of_Some_iff)
  then show "rowcount p (rd_runs rd) = 1" using rowcount_pinned [OF k assms(4)] assms(3) by simp
  from x have u: "row_of rn_id rid (sql_update p f (rd_runs rd)) = Some (f x)"
    using assms(3,5) by (subst row_of_sql_update) auto
  then show "fetchone (\<lambda>y. rn_id y = rid) (sql_update p f (rd_runs rd)) = Some (f x)" by (simp add: row_of_def)
  from row_of_SomeD [OF u] show "\<exists>y \<in> set (sql_update p f (rd_runs rd)). rn_id y = rid" by blast
qed

lemma fail_held:
  assumes "fence_held m rid rd x" and "ms_lease_owner m = Some ow" and "st \<in> {RS_SUBMIT_FAILED, RS_SUBMISSION_UNCERTAIN}"
  shows "\<exists>rd'. fail_submission redact now rid st ty ow (ms_token m) reason rd = (Inr (rn_record (set_run_state now st x)), rd') \<and>
    get_run rid rd' = Inr (rn_record (set_run_state now st x))"
proof -
  from assms have x: "runs_ok rd" "x \<in> set (rd_runs rd)" "submission_held rid ow (ms_token m) x" "0 < ms_token m"
    by (auto simp: fence_held_def)
  note u = run_update [of rd x "submission_held rid ow (ms_token m)" rid "set_run_state now st", OF x(1-3)]
  show ?thesis
    using u assms(3) x(4)
    by (auto simp: fail_submission_def fail_submission_tx_def then_read_def commit_def append_event_tx_def get_run_def
        submission_held_def run_upd_defs)
qed

lemma receipt_held:
  assumes "fence_held m rid rd x"
  shows "\<exists>rd'. apply_submit_receipt redact now rid r (ms_lease_owner m) (Some (ms_token m)) rd = (Inr (rn_record (upd_receipt now r x)), rd') \<and>
    get_run rid rd' = Inr (rn_record (upd_receipt now r x))"
proof -
  from assms obtain ow where x: "runs_ok rd" "x \<in> set (rd_runs rd)" "ms_lease_owner m = Some ow" "submission_held rid ow (ms_token m) x"
    by (auto simp: fence_held_def)
  have p: "receipt_where rid (Some ow) (Some (ms_token m)) x" using x(4) by (simp add: receipt_where_def submission_held_def)
  note u = run_update [of rd x "receipt_where rid (Some ow) (Some (ms_token m))" rid "upd_receipt now r", OF x(1,2) p]
  show ?thesis
    using u x(3)
    by (auto simp: apply_submit_receipt_def apply_submit_receipt_tx_def then_read_def commit_def append_event_tx_def get_run_def
        receipt_where_def run_upd_defs ensure_task_def Let_def bind_res_def)
qed

text \<open>C36. A receipt that arrives in time is recorded: while the lease is valid and the dispatcher holds both fences (the
  Run's and the message's), the three accesses after \<open>backend.submit\<close> make the Run SUBMITTED with the job's id, take the
  message out of circulation as succeeded, and return that Run.\<close>

theorem receipt_is_recorded:
  assumes "fence_held m rid rd x" and "lease_valid w t1 (ms_lease_expires m)" and "control_ok cd"
    and "y \<in> set (cd_outbox cd)" and "outbox_held (ms_id m) (the (ms_lease_owner m)) (ms_token m) y"
  shows "\<exists>c cd' rd' y'. run_phases w sv [(t1, a1), (t2, a2), (t3, a3)] (Ph_receipt m rid r) cd rd = (Ph_done (Inr c), cd', rd') \<and>
    get_run rid rd' = Inr c \<and> rc_state c = RS_SUBMITTED \<and> rc_job_id c = Some (rcp_job_id r) \<and>
    y' \<in> set (cd_outbox cd') \<and> ms_id y' = ms_id m \<and> ms_state y' = OB_succeeded"
proof -
  from receipt_held [OF assms(1)] obtain rd' where a: "apply_submit_receipt (wo_redact w) t2 rid r (ms_lease_owner m) (Some (ms_token m)) rd =
      (Inr (rn_record (upd_receipt t2 r x)), rd')" "get_run rid rd' = Inr (rn_record (upd_receipt t2 r x))" by blast
  from assms(1) obtain ow where ow: "ms_lease_owner m = Some ow" "0 < ms_token m" by (auto simp: fence_held_def)
  let ?p = "outbox_held (ms_id m) ow (ms_token m)" and ?f = "upd_finish OB_succeeded None None (isoformat t3)"
  have y: "?p y" using assms(5) ow by simp
  then have "row_of ms_id (ms_id m) (cd_outbox cd) = Some y"
    using assms(4) by (simp add: row_of_Some_iff [OF control_okD(2) [OF assms(3)]] outbox_held_def)
  with y have "rowcount ?p (cd_outbox cd) = 1"
    using rowcount_pinned [OF control_okD(2) [OF assms(3)], of ?p "ms_id m"] by (simp add: outbox_held_def)
  then have "acknowledge t3 (ms_id m) ow (ms_token m) cd = (Inr (), cd\<lparr>cd_outbox := sql_update ?p ?f (cd_outbox cd)\<rparr>)"
    using ow by (simp add: acknowledge_def finish_def)
  then have "run_phases w sv [(t1, a1), (t2, a2), (t3, a3)] (Ph_receipt m rid r) cd rd =
      (Ph_done (Inr (rn_record (upd_receipt t2 r x))), cd\<lparr>cd_outbox := sql_update ?p ?f (cd_outbox cd)\<rparr>, rd')"
    using assms(2) a ow by (simp add: step_receipt_def step_apply_def step_ack_def)
  moreover have "?f y \<in> set (cd_outbox (cd\<lparr>cd_outbox := sql_update ?p ?f (cd_outbox cd)\<rparr>))"
    using assms(4,5) ow by (auto simp: set_sql_update)
  moreover have "rc_state (rn_record (upd_receipt t2 r x)) = RS_SUBMITTED"
    "rc_job_id (rn_record (upd_receipt t2 r x)) = Some (rcp_job_id r)" by (simp_all add: run_upd_defs)
  moreover have "ms_id (?f y) = ms_id m" "ms_state (?f y) = OB_succeeded"
    using assms(5) by (simp_all add: upd_finish_def outbox_held_def)
  ultimately show ?thesis using a(2) by blast
qed


text \<open>C28. Cancelling a Run whose submission is in flight loses its job: \<open>cancel\<close> sees no job id, marks the Run CANCELLED
  without regard to the fence or to Slurm, and the receipt of the job that Slurm then accepts is refused as fenced
  (without the cancellation it would have been recorded), so the job runs and no Run names it.\<close>

theorem cancel_loses_job:
  assumes "fence_held m rid rd x"
  shows "\<exists>c rd'. cancel w t1 cancel_job rid rd = (Inr c, rd') \<and> get_run rid rd' = Inr c \<and> rc_state c = RS_CANCELLED \<and>
    rc_job_id c = None \<and>
    exec_step w sv t2 a (Ph_apply m rid r) cd rd' = (raise (S_InProgress ''submission fence''), cd, rd') \<and>
    (\<exists>c' rd''. exec_step w sv t2 a (Ph_apply m rid r) cd rd = (Ph_ack m (Finish (Inr c')), cd, rd'') \<and>
       rc_job_id c' = Some (rcp_job_id r))"
proof -
  from assms obtain ow where x: "runs_ok rd" "x \<in> set (rd_runs rd)" and ow: "ms_lease_owner m = Some ow"
    and held: "submission_held rid ow (ms_token m) x"
    by (auto simp: fence_held_def)
  have id: "rn_id x = rid" and job: "rc_job_id (rn_record x) = None" using held by (auto simp: submission_held_def)
  let ?c = "rn_record (set_run_state t1 RS_CANCELLED x)"
  note u = run_update [of rd x "\<lambda>y. rn_id y = rid" rid "set_run_state t1 RS_CANCELLED", OF x id]
  have get: "get_run rid rd = Inr (rn_record x)"
    using row_of_Some_iff [OF runs_okD [OF x(1)], of rid x] x(2) id by (simp add: get_run_def row_of_def)
  define rd' where "rd' = snd (update_state (wo_redact w) t1 rid RS_CANCELLED ''run.cancelled'' None rd)"
  have up: "update_state (wo_redact w) t1 rid RS_CANCELLED ''run.cancelled'' None rd = (Inr ?c, rd')"
    and runs: "rd_runs rd' = sql_update (\<lambda>y. rn_id y = rid) (set_run_state t1 RS_CANCELLED) (rd_runs rd)"
    using u id unfolding rd'_def
    by (auto simp: update_state_def update_state_tx_def then_read_def commit_def append_event_tx_def get_run_def run_upd_defs)
  have get': "get_run rid rd' = Inr ?c" using u(2) id by (simp add: get_run_def runs run_upd_defs)
  have "rowcount (receipt_where rid (Some ow) (Some (ms_token m))) (rd_runs rd') = 0"
    unfolding rowcount_zero runs ball_sql_update by (simp add: receipt_where_def run_upd_defs)
  then have "apply_submit_receipt (wo_redact w) t2 rid r (Some ow) (Some (ms_token m)) rd' = (Inl R_Fence, rd')"
    by (simp add: apply_submit_receipt_def apply_submit_receipt_tx_def then_read_def commit_def)
  then have "exec_step w sv t2 a (Ph_apply m rid r) cd rd' = (raise (S_InProgress ''submission fence''), cd, rd')"
    by (simp add: step_apply_def ow)
  moreover from receipt_held [OF assms, of "wo_redact w" t2 r]
  have "\<exists>c' rd''. exec_step w sv t2 a (Ph_apply m rid r) cd rd = (Ph_ack m (Finish (Inr c')), cd, rd'') \<and>
      rc_job_id c' = Some (rcp_job_id r)"
    by (auto simp: step_apply_def run_upd_defs)
  moreover have "cancel w t1 cancel_job rid rd = (Inr ?c, rd')" using get job up by (simp add: cancel_def)
  moreover have "rc_state ?c = RS_CANCELLED" "rc_job_id ?c = None" using job by (simp_all add: run_upd_defs)
  ultimately show ?thesis using get' by blast
qed

lemma s_fence: "fence_held s_renewed ''r1'' s_claimed (upd_claim_submission c_t1 (Some ''w1'') (Some 1) s_row)"
proof -
  have "runs_ok s_claimed"
    unfolding s_claimed_def s_runs_def
    by (rule run_effect_ok [OF run_step_effect [OF st_claim]]; (rule run_effect_ok [OF run_step_effect [OF st_create]])?) simp_all
  then show ?thesis using s_claim_run by (auto simp: fence_held_def submission_held_def s_msg_defs run_upd_defs)
qed

definition s_receipt :: submit_receipt where
  "s_receipt = \<lparr>rcp_job_id = ''4711'', rcp_state = RS_SUBMITTED, rcp_strategy = ST_REST_NATIVE, rcp_raw = JObj []\<rparr>"

lemma receipt_is_recorded_witness:
  "\<exists>c cd' rd' y'. run_phases p_world s_service [(c_t1, A_none), (c_t1, A_none), (c_t1, A_none)] (Ph_receipt s_renewed ''r1'' s_receipt)
       (c_box s_renewed) s_claimed = (Ph_done (Inr c), cd', rd') \<and>
    get_run ''r1'' rd' = Inr c \<and> rc_state c = RS_SUBMITTED \<and> rc_job_id c = Some (rcp_job_id s_receipt) \<and>
    y' \<in> set (cd_outbox cd') \<and> ms_id y' = ms_id s_renewed \<and> ms_state y' = OB_succeeded"
proof (rule receipt_is_recorded [OF s_fence])
  show "lease_valid p_world c_t1 (ms_lease_expires s_renewed)"
    by (simp add: lease_valid_def s_renewed_def p_world_def c_t1_def clock_simps)
  show "control_ok (c_box s_renewed)" by (simp add: control_ok_def table_ok_def keyed_def msg_inv_def s_msg_defs)
  show "s_renewed \<in> set (cd_outbox (c_box s_renewed))" by simp
qed (simp add: outbox_held_def s_msg_defs)


lemma cancel_loses_job_witness:
  "\<exists>c rd'. cancel p_world c_t1 (\<lambda>_ _. Inl S_Type) ''r1'' s_claimed = (Inr c, rd') \<and> rc_state c = RS_CANCELLED \<and> rc_job_id c = None"
  using cancel_loses_job [OF s_fence, of p_world c_t1 "\<lambda>_ _. Inl S_Type"] by blast

end
