(* ===== verification/DispatchProps.thy ===== *)
theory DispatchProps
  imports Dispatch SubmissionProps
begin

text \<open>
  The dispatcher's loop and \<open>submit_prepared\<close>, run by one thread, are runs of the interleaved system, so what
  holds there in every reachable state holds of them.
\<close>

section \<open>Executions are steps\<close>

abbreviation sys_steps :: "world \<Rightarrow> (nat \<Rightarrow> service) \<Rightarrow> sys \<Rightarrow> sys \<Rightarrow> bool" where
  "sys_steps w svs \<equiv> (sys_step w svs)\<^sup>*\<^sup>*"

definition stores :: "sys \<Rightarrow> control_db \<times> run_db" where
  "stores s = (sy_control s, sy_runs s)"

lemma reachable_sys_steps: "reachable_sys w svs s \<Longrightarrow> sys_steps w svs s t \<Longrightarrow> reachable_sys w svs t"
  unfolding reachable_sys_def by (rule rtranclp_trans)

lemma reachable_sysD:
  assumes "reachable_sys w svs s"
  shows "control_ok (sy_control s)" and "runs_ok (sy_runs s)" and "submit_ids w (sy_control s)"
  using sys_inv_reachable [OF assms] by (simp_all add: sys_inv_def)

lemma run_phases_steps:
  assumes "sy_threads s i = Th_run d m p" and "run_phases w (svs i) outside p (sy_control s) (sy_runs s) = (p', cd, rd)"
  shows "\<exists>t. sys_steps w svs s t \<and> sy_threads t i = Th_run d m p' \<and> stores t = (cd, rd)"
  using assms
proof (induction outside arbitrary: s p)
  case Nil
  then show ?case by (auto simp: stores_def)
next
  case (Cons x outside)
  obtain now ans where x: "x = (now, ans)" by (cases x)
  obtain q c r where q: "exec_step w (svs i) now ans p (sy_control s) (sy_runs s) = (q, c, r)"
    by (cases "exec_step w (svs i) now ans p (sy_control s) (sy_runs s)")
  let ?s = "s\<lparr>sy_control := c, sy_runs := r, sy_threads := (sy_threads s)(i := Th_run d m q), sy_calls := sy_calls s @ called p q\<rparr>"
  have "sys_step w svs s ?s" using Cons.prems(1) q by (rule ss_exec)
  moreover have "\<exists>t. sys_steps w svs ?s t \<and> sy_threads t i = Th_run d m p' \<and> stores t = (cd, rd)"
    using Cons.prems(2) q x by (intro Cons.IH [of ?s q]) simp_all
  ultimately show ?case by (meson converse_rtranclp_into_rtranclp)
qed

text \<open>One message from the claim to the end, in the loop or not.\<close>

lemma execution_steps:
  assumes "sy_threads s i = Th_run d m (Ph_start m)"
    and "execute_submission_message w (svs i) outside m (sy_control s) (sy_runs s) = (Some r, cd, rd)"
  shows "\<exists>t. sys_steps w svs s t \<and> sy_threads t i = Th_idle \<and> stores t =
    (case r of Inr _ \<Rightarrow> cd | Inl e \<Rightarrow> if d then snd (retry_submission_message w (svs i) now m error cd) else cd, rd)"
proof -
  from assms(2) obtain p where p: "run_phases w (svs i) outside (Ph_start m) (sy_control s) (sy_runs s) = (Ph_done r, cd, rd)"
    by (auto simp: execute_submission_message_def split: prod.splits phase.splits)
  from run_phases_steps [of s i d m "Ph_start m" w svs, OF assms(1) p] obtain t where t: "sys_steps w svs s t" "sy_threads t i = Th_run d m (Ph_done r)"
    "stores t = (cd, rd)" by blast
  let ?c = "case r of Inr _ \<Rightarrow> sy_control t
    | Inl e \<Rightarrow> if d then snd (retry_submission_message w (svs i) now m error (sy_control t)) else sy_control t"
  have "sys_step w svs t (t\<lparr>sy_control := ?c, sy_threads := (sy_threads t)(i := Th_idle)\<rparr>)"
    using t(2) by (rule ss_end) (rule refl)
  with t show ?thesis
    by (intro exI [of _ "t\<lparr>sy_control := ?c, sy_threads := (sy_threads t)(i := Th_idle)\<rparr>"] conjI
        rtranclp.rtrancl_into_rtrancl [OF t(1)]) (auto simp: stores_def split: sum.split)
qed

lemma execution_waits:
  assumes "sy_threads s i = Th_run d m (Ph_start m)"
    and "execute_submission_message w (svs i) outside m (sy_control s) (sy_runs s) = (None, cd, rd)"
  shows "\<exists>t. sys_steps w svs s t \<and> stores t = (cd, rd)"
proof -
  from assms(2) obtain p where "run_phases w (svs i) outside (Ph_start m) (sy_control s) (sy_runs s) = (p, cd, rd)"
    by (auto simp: execute_submission_message_def split: prod.splits phase.splits)
  from run_phases_steps [of s i d m "Ph_start m" w svs, OF assms(1) this] show ?thesis by blast
qed

section \<open>The loop\<close>

lemma claim_next_one:
  assumes "claim_outbox now ow 1 n topics cd = (Inr (m # ms), cd')" and "control_ok cd"
  shows "ms = []"
proof -
  have args: "claim_args_ok now ow 1 n topics"
    using claim_outbox_refused [of now ow 1 n topics cd] assms(1) by fastforce
  have "length (due_rows (isoformat now) topics 1 (cd_outbox cd)) \<le> 1" by (simp add: due_rows_def)
  with claim_outbox_batch(1) [OF assms(2) args] assms(1) show ?thesis by (auto simp: Cons_eq_map_conv)
qed

lemma dispatch_loop_steps:
  assumes "reachable_sys w svs s" and "sy_threads s i = Th_idle"
    and "dispatch_loop w (svs i) ros b (sy_control s) (sy_runs s) = (res, cd, rd)"
  shows "\<exists>t. sys_steps w svs s t \<and> stores t = (cd, rd)"
  using assms
proof (induction ros arbitrary: s b)
  case Nil
  then show ?case by (auto simp: stores_def)
next
  case (Cons ro ros)
  note inv = reachable_sysD [OF Cons.prems(1)]
  let ?claim = "claim_outbox (ro_claimed_at ro) (sv_dispatcher (svs i)) 1 (sv_lease_seconds (svs i)) [''run.submit'']"
  obtain r c where claim: "?claim (sy_control s) = (r, c)" by (cases "?claim (sy_control s)")
  have ids: "submit_ids w c" using submit_ids_same [OF claim_next_same [OF inv(1) claim] inv(3)] .
  show ?case
  proof (cases "\<exists>m ms. r = Inr (m # ms)")
    case False
    with Cons.prems(3) claim have "cd = c" "rd = sy_runs s" by (auto split: sum.splits list.splits)
    moreover have "sys_step w svs s (s\<lparr>sy_control := c\<rparr>)"
      using c_claim [of "wo_iso_ok w" "wo_redact_text w" "sy_control s" "ro_claimed_at ro" "sv_dispatcher (svs i)" 1
          "sv_lease_seconds (svs i)" "[''run.submit'']"] claim ids
      by (intro ss_control) simp_all
    ultimately show ?thesis by (intro exI [of _ "s\<lparr>sy_control := c\<rparr>"]) (auto simp: stores_def)
  next
    case True
    then obtain m where r: "r = Inr [m]" using claim_next_one [OF _ inv(1)] claim by blast
    let ?s = "s\<lparr>sy_control := c, sy_threads := (sy_threads s)(i := Th_run True m (Ph_start m))\<rparr>"
    have first: "sys_step w svs s ?s" using Cons.prems(2) claim r by (intro ss_claim_next) simp_all
    obtain e c1 r1 where ex: "execute_submission_message w (svs i) (ro_outside ro) m c (sy_runs s) = (e, c1, r1)"
      by (cases "execute_submission_message w (svs i) (ro_outside ro) m c (sy_runs s)")
    show ?thesis
    proof (cases e)
      case None
      with ex Cons.prems(3) claim r have "cd = c1" "rd = r1" by (simp_all add: dispatch_round_def)
      with execution_waits [of ?s i True m w svs "ro_outside ro" c1 r1] ex None first show ?thesis
        by (auto intro: converse_rtranclp_into_rtranclp)
    next
      case (Some res')
      let ?c2 = "case res' of Inr _ \<Rightarrow> c1 | Inl e \<Rightarrow> snd (retry_submission_message w (svs i) (ro_retried_at ro) m (ro_text ro) c1)"
      from execution_steps [of ?s i True m w svs "ro_outside ro" res' c1 r1 "ro_retried_at ro" "ro_text ro"] ex Some
      obtain t where t: "sys_steps w svs ?s t" "sy_threads t i = Th_idle" "stores t = (?c2, r1)"
        by (auto split: sum.splits)
      from first t(1) have st: "sys_steps w svs s t" by (rule converse_rtranclp_into_rtranclp)
      have "\<exists>b'. dispatch_round w (svs i) ro m b c (sy_runs s) = (Some b', ?c2, r1)"
        using ex Some by (auto simp: dispatch_round_def Let_def split: sum.split)
      then obtain b' where "dispatch_loop w (svs i) ros b' (sy_control t) (sy_runs t) = (res, cd, rd)"
        using Cons.prems(3) claim r t(3) by (auto simp: stores_def)
      from Cons.IH [OF reachable_sys_steps [OF Cons.prems(1) st] t(2) this] st show ?thesis
        by (meson rtranclp_trans)
    qed
  qed
qed

text \<open>C16. The dispatcher refines the system: a pass of \<open>dispatch_due_submissions\<close> by a thread that starts in a
  reachable state of the interleaved system, with any clock and any answers of the backend, leaves both stores as
  a run of the system leaves them. What holds in all reachable states (at-most-once submission, and the
  invariants of the stores) therefore holds before, after and in the middle of passes.\<close>

theorem dispatch_refines_system:
  assumes "reachable_sys w svs s" and "sy_threads s i = Th_idle"
    and "dispatch_due_submissions w (svs i) limit outside (sy_control s) (sy_runs s) = (res, cd, rd)"
  shows "\<exists>t. reachable_sys w svs t \<and> sys_steps w svs s t \<and> stores t = (cd, rd)"
proof (cases "limit \<le> 0 \<or> 1000 < limit")
  case True
  with assms show ?thesis by (auto simp: dispatch_due_submissions_def stores_def)
next
  case False
  with assms(3) have "dispatch_loop w (svs i) (map outside [0..<nat limit]) \<lparr>db_checked = 0, db_succeeded = [], db_errors = []\<rparr>
      (sy_control s) (sy_runs s) = (res, cd, rd)" by (simp add: dispatch_due_submissions_def)
  from dispatch_loop_steps [OF assms(1,2) this] assms(1) show ?thesis by (blast intro: reachable_sys_steps)
qed

lemma dispatch_refines_system_witness:
  "\<exists>t. reachable_sys p_world (\<lambda>_. s_service) t \<and> sys_steps p_world (\<lambda>_. s_service) start_sys t \<and>
     stores t = (empty_control, empty_run_db)"
proof (rule dispatch_refines_system)
  show "reachable_sys p_world (\<lambda>_. s_service) start_sys" by (simp add: reachable_sys_def)
  let ?ro = "\<lambda>_::nat. \<lparr>ro_claimed_at = c_t1, ro_outside = [], ro_retried_at = c_t1, ro_text = []\<rparr>"
  have "claim_args_ok c_t1 ''w1'' 1 60 [''run.submit'']" by (simp add: claim_args_ok_def c_after)
  from claim_outbox_batch(1) [OF control_ok_empty this]
  have "claim_outbox c_t1 ''w1'' 1 60 [''run.submit''] empty_control = (Inr [], empty_control)"
    by (simp add: empty_control_def due_rows_def)
  then show "dispatch_due_submissions p_world s_service 1 ?ro (sy_control start_sys) (sy_runs start_sys) =
      (Some (Inr \<lparr>db_checked = 0, db_succeeded = [], db_errors = []\<rparr>), empty_control, empty_run_db)"
    by (simp add: dispatch_due_submissions_def start_sys_def s_service_def)
qed (simp add: start_sys_def)

section \<open>The inline path\<close>

lemma intent_keeps_runs: "submission_intent w sv now b run rd = (x, rd1) \<Longrightarrow> rd_runs rd1 = rd_runs rd"
  by (auto simp: submission_intent_def resolve_dependency_job_ids_def append_event_def then_read_def commit_def append_event_tx_def
      split: sum.splits prod.splits if_splits)

text \<open>Without a control repository a Run can be stranded: when \<open>submit\<close> fails in transport, the reconciliation finds
  no job and the second \<open>submit\<close> raises a backend error, which is not caught, the Run stays SUBMITTING without a
  job, and every later \<open>submit_prepared\<close> refuses it as in progress (after the first call the same error makes it
  SUBMIT_FAILED).\<close>

theorem inline_second_error_strands:
  assumes "runs_ok rd" and "get_run rid rd = Inr run" and "rc_state run = RS_VALIDATED" and "rc_job_id run = None"
    and "submission_intent w sv now True run rd = (Inr intent, rd1)" and "sv_reconcile sv" and "0 \<le> sv_window_seconds sv"
    and "\<And>u n t. find_jobs u n t = []"
  shows "\<exists>rd2 run2. submit_prepared_inline w sv now (A_transport ty text) (A_jobs find_jobs) (A_backend ty2 text2) rid rd =
      (Some (Inl (S_Backend text2)), rd2) \<and>
    get_run rid rd2 = Inr run2 \<and> rc_state run2 = RS_SUBMITTING \<and> rc_job_id run2 = None \<and>
    (\<forall>now' a b c. submit_prepared_inline w sv now' a b c rid rd2 =
       (Some (Inl (S_InProgress ''run submission is already in progress'')), rd2))"
proof -
  note runs = intent_keeps_runs [OF assms(5)]
  from assms(2) obtain x where x: "x \<in> set (rd_runs rd1)" "rn_id x = rid" "rn_record x = run"
    unfolding runs by (auto simp: get_run_def split: option.splits dest!: fetchone_Some)
  have ok: "runs_ok rd1" using assms(1) runs by (simp add: runs_ok_def)
  let ?p = "submission_claimable rid None" and ?f = "upd_claim_submission now None None"
  have p: "?p x" using x assms(3,4) by (simp add: submission_claimable_def)
  note u = run_update [of rd1 x ?p rid ?f, OF ok x(1) p]
  obtain rd2 where claim: "claim_submission (wo_redact w) now rid None None rd1 = (Inr True, rd2)"
    and rows: "rd_runs rd2 = sql_update ?p ?f (rd_runs rd1)"
    using u by (auto simp: claim_submission_def claim_submission_tx_def commit_def append_event_tx_def Let_def
        submission_claimable_def run_upd_defs)
  let ?run2 = "rn_record (?f x)"
  have get: "get_run rid rd2 = Inr ?run2"
    using u(2) by (simp add: get_run_def rows submission_claimable_def run_upd_defs)
  have st: "rc_state ?run2 = RS_SUBMITTING" "rc_job_id ?run2 = None" "rc_id run = rid"
    using x assms(4) by (auto simp: run_upd_defs)
  have "submit_prepared_inline w sv now (A_transport ty text) (A_jobs find_jobs) (A_backend ty2 text2) rid rd =
      (Some (Inl (S_Backend text2)), rd2)"
    using assms claim st(3)
    by (simp add: submit_prepared_inline_def inline_intent_def inline_call_def apply_reconcile_result_def reconcile_submission_def Let_def)
  moreover have "submit_prepared_inline w sv now' a b c rid rd2 =
      (Some (Inl (S_InProgress ''run submission is already in progress'')), rd2)" for now' a b c
    using get st by (simp add: submit_prepared_inline_def inline_intent_def)
  ultimately show ?thesis using get st by blast
qed

lemma inline_second_error_strands_witness:
  "\<exists>rd2 run2. submit_prepared_inline p_world (s_service\<lparr>sv_reconcile := True\<rparr>) c_t1 (A_transport ''SlurmTransportError'' ''timeout'')
      (A_jobs (\<lambda>_ _ _. [])) (A_backend ''SlurmBackendError'' ''invalid partition'') ''r1'' s_runs =
      (Some (Inl (S_Backend ''invalid partition'')), rd2) \<and> get_run ''r1'' rd2 = Inr run2 \<and> rc_state run2 = RS_SUBMITTING"
proof -
  have ok: "runs_ok s_runs" unfolding s_runs_def by (rule run_effect_ok [OF run_step_effect [OF st_create]]) simp_all
  obtain i where "submission_intent p_world (s_service\<lparr>sv_reconcile := True\<rparr>) c_t1 True (rn_record s_row) s_runs = (Inr i, s_runs)"
    using s_intent [of "s_service\<lparr>sv_reconcile := True\<rparr>" s_runs] by (auto simp: s_service_def)
  from inline_second_error_strands [OF ok s_get _ _ this, of "\<lambda>_ _ _. []" "''SlurmTransportError''" "''timeout''"
      "''SlurmBackendError''" "''invalid partition''"]
  show ?thesis by (auto simp: s_service_def)
qed

end
