(* ===== verification/Workflow.thy ===== *)
theory Workflow
  imports Dispatch WatchService
begin

text \<open>
  \<open>core/workflow_manifest.py\<close>, the manifest table of \<open>core/run_store.py\<close> and the array expressions of
  \<open>core/materializer.py\<close>. A manifest is a document of stages with their submission decisions and the truth about
  their artifacts, saved as a whole under a version; the service reads it, acts on Runs and saves it by
  compare-and-swap. Values that the code itself never writes into a manifest (an artifact field of another
  type, an iterable that is no list) are type errors here. Memory is computed with fractions.
\<close>

section \<open>Manifests\<close>

record resource_ceiling =
  wc_cpus :: "int option"
  wc_memory_mib :: "int option"
  wc_gpus :: "int option"

definition unbounded :: resource_ceiling where
  "unbounded = \<lparr>wc_cpus = None, wc_memory_mib = None, wc_gpus = None\<rparr>"

record artifact_truth =
  at_task :: int
  at_artifact :: string
  at_sha256 :: "string option"
  at_metadata :: string
  at_metadata_sha256 :: "string option"
  at_marker :: string
  at_complete :: bool

definition verified :: "artifact_truth \<Rightarrow> bool" where
  "verified t \<longleftrightarrow> 0 \<le> at_task t \<and> at_artifact t \<noteq> [] \<and> \<not> no_text (at_sha256 t) \<and> at_metadata t \<noteq> [] \<and>
     \<not> no_text (at_metadata_sha256 t) \<and> at_marker t \<noteq> [] \<and> at_complete t"

record stage_decision =
  sd_run_id :: string
  sd_job_id :: "string option"
  sd_digest :: string
  sd_run_state :: string
  sd_submitted :: "int list"
  sd_reused :: "int list"
  sd_attempt :: int

record workflow_stage =
  sg_id :: string
  sg_kind :: string
  sg_request :: run_request
  sg_dependencies :: "string list"
  sg_tasks :: "int list"
  sg_truth :: "artifact_truth list"
  sg_decisions :: "stage_decision list"

record workflow_manifest =
  mf_workflow_id :: string
  mf_owner :: string
  mf_stages :: "workflow_stage list"
  mf_state :: string
  mf_version :: int
  mf_cancelled_by :: "string option"

datatype workflow_error =
  W_Value string | W_Key string | W_Type | W_Runtime string | W_Stop | W_Conflict | W_Fence | W_Integrity
| W_Index | W_Gate string | W_Limit "string list" int int int | W_Plan plan_error | W_Run run_error | W_Service run_service_error

text \<open>\<open>WorkflowStage.__post_init__\<close>.\<close>

definition stage_error :: "workflow_stage \<Rightarrow> workflow_error option" where
  "stage_error s = first_failure
     [(sg_id s \<noteq> [], W_Value ''stage_id''),
      (sg_kind s \<in> {''preflight'', ''array'', ''merge''}, W_Value ''stage kind''),
      (sg_kind s = ''array'' \<longrightarrow> sg_tasks s \<noteq> [], W_Value ''array stage requires tasks''),
      (sg_kind s \<noteq> ''array'' \<longrightarrow> sg_tasks s = [], W_Value ''only array stages''),
      (distinct (sg_tasks s) \<and> (\<forall>t \<in> set (sg_tasks s). 0 \<le> t), W_Value ''array tasks'')]"

definition make_stage :: "workflow_stage \<Rightarrow> (workflow_error, workflow_stage) result" where
  "make_stage s = (case stage_error s of Some e \<Rightarrow> Inl e | None \<Rightarrow> Inr s)"

definition manifest_stage :: "workflow_manifest \<Rightarrow> string \<Rightarrow> (workflow_error, workflow_stage) result" where
  "manifest_stage mf sid = (case fetchone (\<lambda>s. sg_id s = sid) (mf_stages mf) of None \<Rightarrow> Inl (W_Key sid) | Some s \<Rightarrow> Inr s)"

section \<open>Stages\<close>

definition verified_tasks :: "workflow_stage \<Rightarrow> int set" where
  "verified_tasks s = at_task ` set (filter verified (sg_truth s))"

definition stage_succeeded :: "workflow_stage \<Rightarrow> bool" where
  "stage_succeeded s \<longleftrightarrow> sg_decisions s \<noteq> [] \<and> (\<forall>d \<in> set (sg_decisions s). sd_run_state d = run_state_value RS_SUCCEEDED)"

definition stage_failed :: "workflow_stage \<Rightarrow> bool" where
  "stage_failed s \<longleftrightarrow>
     (\<exists>d \<in> set (sg_decisions s). sd_run_state d \<in> {run_state_value RS_FAILED, run_state_value RS_CANCELLED})"

definition stage_complete :: "workflow_stage \<Rightarrow> bool" where
  "stage_complete s \<longleftrightarrow> stage_succeeded s \<and> (sg_kind s = ''array'' \<longrightarrow> verified_tasks s = set (sg_tasks s))"

definition replace_stage :: "workflow_manifest \<Rightarrow> workflow_stage \<Rightarrow> workflow_manifest" where
  "replace_stage mf s = mf\<lparr>mf_stages := map (\<lambda>x. if sg_id x = sg_id s then s else x) (mf_stages mf)\<rparr>"

definition stage_parallelism :: "workflow_stage \<Rightarrow> int" where
  "stage_parallelism s =
     (if sg_kind s \<noteq> ''array'' then 1
      else case rp_array (rq_plan (sg_request s)) of
          None \<Rightarrow> int (length (sg_tasks s))
        | Some a \<Rightarrow> (case as_max_concurrency a of
            None \<Rightarrow> int (length (sg_tasks s))
          | Some n \<Rightarrow> min n (int (length (sg_tasks s)))))"

definition memory_mib_factor :: "string \<Rightarrow> rat option" where
  "memory_mib_factor u =
     (if u \<in> {''K'', ''KB''} then Some (1 / 1024) else if u \<in> {''M'', ''MB''} then Some 1
      else if u \<in> {''G'', ''GB''} then Some 1024 else if u \<in> {''T'', ''TB''} then Some (1024 * 1024) else None)"

text \<open>\<open>int\<close> of a fraction rounds toward zero.\<close>

definition truncate :: "rat \<Rightarrow> int" where
  "truncate x = (if x < 0 then - \<lfloor>- x\<rfloor> else \<lfloor>x\<rfloor>)"

definition memory_mib :: "resource_plan \<Rightarrow> (workflow_error, int) result" where
  "memory_mib plan =
     (case rp_memory_value plan of
        None \<Rightarrow> Inr 0
      | Some v \<Rightarrow>
          (case memory_mib_factor (upper (if no_text (rp_memory_unit plan) then ''M'' else the (rp_memory_unit plan))) of
             None \<Rightarrow> Inl (W_Value ''memory unit'')
           | Some f \<Rightarrow> Inr (truncate (of_int v * f))))"

section \<open>Dependency layers\<close>

lemma layer_progress:
  assumes "layer = filter (\<lambda>s. sg_id s \<in> set remaining \<and> p s) stages" and "layer \<noteq> []"
  shows "length (filter (\<lambda>i. i \<notin> sg_id ` set layer) remaining) < length remaining"
proof -
  obtain s where s: "s \<in> set layer" using assms(2) by (meson ex_in_conv set_empty)
  with assms(1) have "sg_id s \<in> set remaining" by simp
  with s show ?thesis by (intro length_filter_less [of "sg_id s"]) auto
qed

text \<open>\<open>remaining\<close> is the set of ids still in the dictionary; the test of the layer makes the loop end.\<close>

function layers_loop :: "workflow_stage list \<Rightarrow> string list \<Rightarrow> string set \<Rightarrow> (workflow_error, workflow_stage list list) result" where
  "layers_loop stages remaining resolved =
     (if remaining = [] then Inr []
      else
        let layer = filter (\<lambda>s. sg_id s \<in> set remaining \<and> set (sg_dependencies s) \<subseteq> resolved) stages in
        if layer = [] then Inl (W_Value ''cycle'')
        else bind_res (layers_loop stages (filter (\<lambda>i. i \<notin> sg_id ` set layer) remaining) (resolved \<union> sg_id ` set layer))
               (\<lambda>ls. Inr (layer # ls)))"
  by pat_completeness auto
termination
  by (relation "measure (\<lambda>(stages, remaining, resolved). length remaining)", simp, simp only: in_measure prod.case, rule layer_progress [OF refl])

declare layers_loop.simps [simp del]

text \<open>The keys of the dictionary: each id once.\<close>

definition dependency_layers :: "workflow_stage list \<Rightarrow> (workflow_error, workflow_stage list list) result" where
  "dependency_layers stages = layers_loop stages (remdups (map sg_id stages)) {}"

section \<open>Validation\<close>

definition stages_error :: "workflow_manifest \<Rightarrow> workflow_stage \<Rightarrow> workflow_error option" where
  "stages_error mf s = first_failure
     [(rq_owner (sg_request s) = mf_owner mf, W_Value ''stage owner''),
      (set (sg_dependencies s) \<subseteq> sg_id ` set (mf_stages mf), W_Value ''dependency is unknown''),
      (sg_id s \<notin> set (sg_dependencies s), W_Value ''cycle'')]"

fun layer_peak :: "workflow_stage list \<Rightarrow> (workflow_error, int \<times> int \<times> int) result" where
  "layer_peak [] = Inr (0, 0, 0)"
| "layer_peak (s # ss) =
     (let p = stage_parallelism s; plan = rq_plan (sg_request s) in
      bind_res (memory_mib plan) (\<lambda>mib.
      bind_res (layer_peak ss) (\<lambda>(c, m, g).
        Inr (derived_cpu_upper_bound plan * p + c, mib * p + m, derived_gpu_total plan * p + g))))"

definition exceeds :: "int option \<Rightarrow> int \<Rightarrow> bool" where
  "exceeds limit n \<longleftrightarrow> (case limit of None \<Rightarrow> False | Some l \<Rightarrow> l < n)"

fun layers_within :: "resource_ceiling \<Rightarrow> workflow_stage list list \<Rightarrow> (workflow_error, unit) result" where
  "layers_within limits [] = Inr ()"
| "layers_within limits (layer # ls) =
     bind_res (layer_peak layer) (\<lambda>(c, m, g).
       if exceeds (wc_cpus limits) c \<or> exceeds (wc_memory_mib limits) m \<or> exceeds (wc_gpus limits) g
       then Inl (W_Limit (map sg_id layer) c m g) else layers_within limits ls)"

fun first_error :: "('a \<Rightarrow> 'e option) \<Rightarrow> 'a list \<Rightarrow> 'e option" where
  "first_error f [] = None"
| "first_error f (x # xs) = (case f x of Some e \<Rightarrow> Some e | None \<Rightarrow> first_error f xs)"

definition validate_manifest :: "workflow_manifest \<Rightarrow> resource_ceiling \<Rightarrow> (workflow_error, unit) result" where
  "validate_manifest mf limits =
     (if mf_workflow_id mf = [] \<or> mf_owner mf = [] \<or> mf_stages mf = [] then Inl (W_Value ''identity'')
      else if \<not> distinct (map sg_id (mf_stages mf)) then Inl (W_Value ''stage ids must be unique'')
      else case first_error (stages_error mf) (mf_stages mf) of
          Some e \<Rightarrow> Inl e
        | None \<Rightarrow> bind_res (dependency_layers (mf_stages mf)) (layers_within limits))"

section \<open>Array expressions\<close>

definition range_text :: "int \<Rightarrow> int \<Rightarrow> string" where
  "range_text a b = (if a = b then int_text a else int_text a @ ''-'' @ int_text b)"

fun task_ranges :: "int \<Rightarrow> int \<Rightarrow> int list \<Rightarrow> (int \<times> int) list" where
  "task_ranges start previous [] = [(start, previous)]"
| "task_ranges start previous (t # ts) =
     (if t = previous + 1 then task_ranges start t ts else (start, previous) # task_ranges t t ts)"

definition compress_array_tasks :: "int list \<Rightarrow> (workflow_error, string) result" where
  "compress_array_tasks tasks =
     (let selected = sort (remdups tasks) in
      if selected = [] then Inl (W_Value ''at least one task'')
      else if hd selected < 0 \<or> 1000000 < last selected then Inl (W_Value ''outside the supported range'')
      else Inr (join '','' (map (\<lambda>(a, b). range_text a b) (task_ranges (hd selected) (hd selected) (tl selected)))))"

end
