(* ===== verification/WorkflowService.thy ===== *)
theory WorkflowService
  imports Workflow
begin

text \<open>
  The stored form of manifests, the table \<open>workflow_manifests\<close> of \<open>core/run_store.py\<close> with its compare-and-swap, and
  the operations of \<open>WorkflowService\<close>: create, status, save, resume, reconcile, artifact truth, recovery and
  cancellation. One call alone; between its accesses other callers are kept apart by the version.
\<close>

section \<open>Manifests as JSON\<close>

definition plan_payload :: "resource_plan \<Rightarrow> json" where
  "plan_payload plan =
     JObj [(''partition'', JStr (rp_partition plan)), (''qos'', jopt JStr (rp_qos plan)),
       (''nodes'', JInt (rp_nodes plan)), (''ntasks'', JInt (rp_ntasks plan)),
       (''cpus_per_task'', JInt (rp_cpus_per_task plan)), (''memory_value'', jopt JInt (rp_memory_value plan)),
       (''memory_unit'', jopt JStr (rp_memory_unit plan)), (''gpus_per_node'', jopt JInt (rp_gpus_per_node plan)),
       (''gpus_total'', jopt JInt (rp_gpus_total plan)), (''gpu_type'', jopt JStr (rp_gpu_type plan)),
       (''time_limit'', jopt JStr (rp_time_limit plan)),
       (''array'', jopt (\<lambda>a. JObj [(''expression'', JStr (as_expression a)), (''max_concurrency'', jopt JInt (as_max_concurrency a))])
          (rp_array plan))]"

definition run_request_payload :: "run_request \<Rightarrow> json" where
  "run_request_payload q =
     JObj [(''owner'', JStr (rq_owner q)), (''workdir'', JStr (rq_workdir q)), (''script'', JStr (rq_script q)),
       (''job_name'', jopt JStr (rq_job_name q)), (''contract_id'', jopt JStr (rq_contract_id q)),
       (''parent_run_id'', jopt JStr (rq_parent q)), (''lineage_reason'', jopt JStr (rq_lineage_reason q)),
       (''remediation_plan_id'', jopt JStr (rq_plan_id q)), (''workflow'', policy_to_payload (rq_workflow q)),
       (''resource_plan'', plan_payload (rq_plan q))]"

definition lift_field :: "(plan_error, 'a) result \<Rightarrow> (workflow_error, 'a) result" where
  "lift_field r = (case r of Inl e \<Rightarrow> Inl (W_Plan e) | Inr x \<Rightarrow> Inr x)"

definition lift_service :: "(run_service_error, 'a) result \<Rightarrow> (workflow_error, 'a) result" where
  "lift_service r = (case r of Inl e \<Rightarrow> Inl (W_Service e) | Inr x \<Rightarrow> Inr x)"

definition text_field :: "(json \<Rightarrow> string) \<Rightarrow> string \<Rightarrow> json \<Rightarrow> (workflow_error, string) result" where
  "text_field repr_of k v = lift_field (bind_res (required_field k v) (\<lambda>x. Inr (py_str repr_of x)))"

definition optional_text :: "(json \<Rightarrow> string) \<Rightarrow> string \<Rightarrow> json \<Rightarrow> (workflow_error, string option) result" where
  "optional_text repr_of k v = lift_field (optional_field k (\<lambda>x. Inr (py_str repr_of x)) v)"

definition run_request_from_payload :: "(json \<Rightarrow> string) \<Rightarrow> json \<Rightarrow> (workflow_error, run_request) result" where
  "run_request_from_payload repr_of v =
     bind_res (lift_field (required_field ''resource_plan'' v)) (\<lambda>raw_plan.
     bind_res (text_field repr_of ''owner'' v) (\<lambda>owner.
     bind_res (text_field repr_of ''workdir'' v) (\<lambda>workdir.
     bind_res (text_field repr_of ''script'' v) (\<lambda>script.
     bind_res (optional_text repr_of ''job_name'' v) (\<lambda>job_name.
     bind_res (optional_text repr_of ''contract_id'' v) (\<lambda>contract_id.
     bind_res (optional_text repr_of ''parent_run_id'' v) (\<lambda>parent.
     bind_res (optional_text repr_of ''lineage_reason'' v) (\<lambda>lineage_reason.
     bind_res (optional_text repr_of ''remediation_plan_id'' v) (\<lambda>plan_id.
     bind_res (lift_service (policy_from_payload repr_of (jfield ''workflow'' v))) (\<lambda>workflow.
     bind_res (lift_field (resource_plan_from_dict repr_of raw_plan)) (\<lambda>plan.
     Inr \<lparr>rq_owner = owner, rq_workdir = path_text (parse_path workdir), rq_script = script, rq_plan = plan,
       rq_job_name = job_name, rq_contract_id = contract_id, rq_parent = parent, rq_lineage_reason = lineage_reason,
       rq_plan_id = plan_id, rq_workflow = workflow, rq_workspace_revision = None, rq_workspace_digest = None,
       rq_source_revision = None, rq_snapshot_ref = None\<rparr>)))))))))))"

definition truth_payload :: "artifact_truth \<Rightarrow> json" where
  "truth_payload t =
     JObj [(''task_index'', JInt (at_task t)), (''artifact_path'', JStr (at_artifact t)),
       (''artifact_sha256'', jopt JStr (at_sha256 t)), (''metadata_path'', JStr (at_metadata t)),
       (''metadata_sha256'', jopt JStr (at_metadata_sha256 t)), (''complete_marker_path'', JStr (at_marker t)),
       (''complete'', JBool (at_complete t))]"

fun text_option :: "json \<Rightarrow> string option option" where
  "text_option JNull = Some None"
| "text_option (JStr s) = Some (Some s)"
| "text_option _ = None"

text \<open>\<open>ArtifactTruth(**value)\<close>: exactly these keys.\<close>

definition truth_from_payload :: "json \<Rightarrow> artifact_truth option" where
  "truth_from_payload v =
     (case v of
        JObj kvs \<Rightarrow>
          if set (map fst kvs) \<noteq> {''task_index'', ''artifact_path'', ''artifact_sha256'', ''metadata_path'',
               ''metadata_sha256'', ''complete_marker_path'', ''complete''} then None
          else
            (case (map_of kvs ''task_index'', map_of kvs ''artifact_path'', map_of kvs ''artifact_sha256'',
                   map_of kvs ''metadata_path'', map_of kvs ''metadata_sha256'', map_of kvs ''complete_marker_path'',
                   map_of kvs ''complete'') of
               (Some (JInt i), Some (JStr a), Some ah, Some (JStr m), Some mh, Some (JStr c), Some (JBool b)) \<Rightarrow>
                 (case (text_option ah, text_option mh) of
                    (Some ah', Some mh') \<Rightarrow>
                      Some \<lparr>at_task = i, at_artifact = a, at_sha256 = ah', at_metadata = m, at_metadata_sha256 = mh',
                        at_marker = c, at_complete = b\<rparr>
                  | _ \<Rightarrow> None)
             | _ \<Rightarrow> None)
      | _ \<Rightarrow> None)"

definition jints :: "int list \<Rightarrow> json" where
  "jints ns = JArr (map JInt ns)"

definition decision_payload :: "stage_decision \<Rightarrow> json" where
  "decision_payload d =
     JObj [(''run_id'', JStr (sd_run_id d)), (''job_id'', jopt JStr (sd_job_id d)), (''request_digest'', JStr (sd_digest d)),
       (''run_state'', JStr (sd_run_state d)), (''submitted_tasks'', jints (sd_submitted d)),
       (''reused_verified_tasks'', jints (sd_reused d)), (''recovery_attempt'', JInt (sd_attempt d))]"

fun all_ok :: "('a \<Rightarrow> ('e, 'b) result) \<Rightarrow> 'a list \<Rightarrow> ('e, 'b list) result" where
  "all_ok f [] = Inr []"
| "all_ok f (x # xs) = bind_res (f x) (\<lambda>y. bind_res (all_ok f xs) (\<lambda>ys. Inr (y # ys)))"

text \<open>\<open>tuple(f(value) for value in item.get(key, []))\<close>.\<close>

definition list_field :: "string \<Rightarrow> (json \<Rightarrow> (workflow_error, 'a) result) \<Rightarrow> json \<Rightarrow> (workflow_error, 'a list) result" where
  "list_field k f v =
     (if \<not> is_object v then Inl W_Type
      else case get_default k (JArr []) v of JArr xs \<Rightarrow> all_ok f xs | _ \<Rightarrow> Inl W_Type)"

definition int_item :: "json \<Rightarrow> (workflow_error, int) result" where
  "int_item v = lift_field (py_int v)"

definition decision_from_payload :: "(json \<Rightarrow> string) \<Rightarrow> json \<Rightarrow> (workflow_error, stage_decision) result" where
  "decision_from_payload repr_of v =
     bind_res (text_field repr_of ''run_id'' v) (\<lambda>run_id.
     bind_res (optional_text repr_of ''job_id'' v) (\<lambda>job_id.
     bind_res (text_field repr_of ''request_digest'' v) (\<lambda>digest.
     bind_res (text_field repr_of ''run_state'' v) (\<lambda>run_state.
     bind_res (list_field ''submitted_tasks'' int_item v) (\<lambda>submitted.
     bind_res (list_field ''reused_verified_tasks'' int_item v) (\<lambda>reused.
     bind_res (int_item (get_default ''recovery_attempt'' (JInt 0) v)) (\<lambda>attempt.
     Inr \<lparr>sd_run_id = run_id, sd_job_id = job_id, sd_digest = digest, sd_run_state = run_state, sd_submitted = submitted,
       sd_reused = reused, sd_attempt = attempt\<rparr>)))))))"

definition stage_payload :: "workflow_stage \<Rightarrow> json" where
  "stage_payload s =
     JObj [(''stage_id'', JStr (sg_id s)), (''kind'', JStr (sg_kind s)), (''request'', run_request_payload (sg_request s)),
       (''dependencies'', jstrs (sg_dependencies s)), (''array_tasks'', jints (sg_tasks s)),
       (''artifact_truth'', JArr (map truth_payload (sg_truth s))),
       (''decisions'', JArr (map decision_payload (sg_decisions s)))]"

definition stage_from_payload :: "(json \<Rightarrow> string) \<Rightarrow> json \<Rightarrow> (workflow_error, workflow_stage) result" where
  "stage_from_payload repr_of v =
     bind_res (text_field repr_of ''stage_id'' v) (\<lambda>sid.
     bind_res (text_field repr_of ''kind'' v) (\<lambda>kind.
     bind_res (lift_field (required_field ''request'' v)) (\<lambda>q.
     bind_res (run_request_from_payload repr_of q) (\<lambda>request.
     bind_res (list_field ''dependencies'' (\<lambda>x. Inr (py_str repr_of x)) v) (\<lambda>dependencies.
     bind_res (list_field ''array_tasks'' int_item v) (\<lambda>tasks.
     bind_res (list_field ''artifact_truth'' (\<lambda>x. case truth_from_payload x of None \<Rightarrow> Inl W_Type | Some t \<Rightarrow> Inr t) v) (\<lambda>truth.
     bind_res (list_field ''decisions'' (decision_from_payload repr_of) v) (\<lambda>decisions.
     make_stage \<lparr>sg_id = sid, sg_kind = kind, sg_request = request, sg_dependencies = dependencies, sg_tasks = tasks,
       sg_truth = truth, sg_decisions = decisions\<rparr>))))))))"

definition manifest_payload :: "workflow_manifest \<Rightarrow> json" where
  "manifest_payload mf =
     JObj [(''schema_version'', JInt 1), (''workflow_id'', JStr (mf_workflow_id mf)), (''owner'', JStr (mf_owner mf)),
       (''state'', JStr (mf_state mf)), (''cancelled_by'', jopt JStr (mf_cancelled_by mf)),
       (''stages'', JArr (map stage_payload (mf_stages mf)))]"

definition manifest_from_payload :: "(json \<Rightarrow> string) \<Rightarrow> json \<Rightarrow> int \<Rightarrow> (workflow_error, workflow_manifest) result" where
  "manifest_from_payload repr_of v version =
     (if jfield ''schema_version'' v \<notin> {Some (JInt 1), Some (JBool True)} then Inl (W_Value ''schema version'')
      else
        bind_res (bind_res (lift_field (required_field ''stages'' v)) (\<lambda>x. case x of JArr xs \<Rightarrow> all_ok (stage_from_payload repr_of) xs
           | _ \<Rightarrow> Inl W_Type)) (\<lambda>stages.
        bind_res (text_field repr_of ''workflow_id'' v) (\<lambda>wid.
        bind_res (text_field repr_of ''owner'' v) (\<lambda>owner.
        bind_res (optional_text repr_of ''cancelled_by'' v) (\<lambda>cancelled_by.
        Inr \<lparr>mf_workflow_id = wid, mf_owner = owner, mf_stages = stages,
          mf_state = py_str repr_of (get_default ''state'' (JStr ''pending'') v), mf_version = version,
          mf_cancelled_by = cancelled_by\<rparr>)))))"

text \<open>\<open>json.dumps\<close> with \<open>ensure_ascii\<close>.\<close>

definition ascii_char :: "char \<Rightarrow> string" where
  "ascii_char c =
     (let n = of_char c :: nat in
      if n < 127 then [c] else [char_of (92::nat), CHR ''u'', CHR ''0'', CHR ''0'', hex_digit (n div 16), hex_digit (n mod 16)])"

definition request_digest :: "(string \<Rightarrow> string) \<Rightarrow> run_request \<Rightarrow> string" where
  "request_digest sha q = sha (concat (map ascii_char (dumps (run_request_payload q))))"

section \<open>The table\<close>

record manifest_row =
  mr_workflow :: string
  mr_owner :: string
  mr_version :: int
  mr_json :: json
  mr_created_at :: string
  mr_updated_at :: string

type_synonym manifest_table = "manifest_row list"

definition get_workflow_manifest :: "string \<Rightarrow> string \<Rightarrow> manifest_table \<Rightarrow> (workflow_error, int \<times> json) result" where
  "get_workflow_manifest wid owner t =
     (case fetchone (\<lambda>r. mr_workflow r = wid \<and> mr_owner r = owner) t of
        None \<Rightarrow> Inl (W_Key wid)
      | Some r \<Rightarrow> if is_object (mr_json r) then Inr (mr_version r, mr_json r) else Inl (W_Runtime ''not an object''))"

definition create_workflow_manifest ::
    "datetime \<Rightarrow> string \<Rightarrow> string \<Rightarrow> json \<Rightarrow> manifest_table \<Rightarrow> (workflow_error, int \<times> json) result \<times> manifest_table" where
  "create_workflow_manifest now wid owner manifest t =
     (if \<exists>r \<in> set t. mr_workflow r = wid then (Inl W_Integrity, t)
      else
        (let t' = t @ [\<lparr>mr_workflow = wid, mr_owner = owner, mr_version = 1, mr_json = canonical manifest,
                        mr_created_at = isoformat now, mr_updated_at = isoformat now\<rparr>]
         in (get_workflow_manifest wid owner t', t')))"

definition manifest_at :: "string \<Rightarrow> string \<Rightarrow> int \<Rightarrow> manifest_row \<Rightarrow> bool" where
  "manifest_at wid owner version r \<longleftrightarrow> mr_workflow r = wid \<and> mr_owner r = owner \<and> mr_version r = version"

definition upd_manifest :: "datetime \<Rightarrow> json \<Rightarrow> manifest_row \<Rightarrow> manifest_row" where
  "upd_manifest now manifest r =
     r\<lparr>mr_version := mr_version r + 1, mr_json := canonical manifest, mr_updated_at := isoformat now\<rparr>"

definition update_workflow_manifest ::
    "datetime \<Rightarrow> string \<Rightarrow> string \<Rightarrow> int \<Rightarrow> json \<Rightarrow> manifest_table \<Rightarrow> (workflow_error, int \<times> json) result \<times> manifest_table" where
  "update_workflow_manifest now wid owner expected_version manifest t =
     (if expected_version \<le> 0 then (Inl (W_Value ''expected_version''), t)
      else if rowcount (manifest_at wid owner expected_version) t \<noteq> 1 then (Inl W_Fence, t)
      else
        (let t' = sql_update (manifest_at wid owner expected_version) (upd_manifest now manifest) t
         in (get_workflow_manifest wid owner t', t')))"

definition manifest_active :: "manifest_row \<Rightarrow> bool" where
  "manifest_active r \<longleftrightarrow> is_object (mr_json r) \<and>
     jfield ''state'' (mr_json r) \<notin> {Some (JStr ''cancelled''), Some (JStr ''completed'')}"

definition list_active_workflow_manifests :: "int \<Rightarrow> manifest_table \<Rightarrow> (workflow_error, (string \<times> string) list) result" where
  "list_active_workflow_manifests limit t =
     (if limit \<le> 0 \<or> 1000 < limit then Inl (W_Value ''limit'')
      else Inr (take (nat limit) (map (\<lambda>r. (mr_workflow r, mr_owner r)) (filter manifest_active
             (take 1000 (sort_key (\<lambda>r. (mr_updated_at r, mr_workflow r)) t))))))"

section \<open>Operations\<close>

record workflow_db =
  wf_table :: manifest_table
  wf_control :: control_db
  wf_runs :: run_db

text \<open>A call returns, raises, or (\<open>None\<close>) waits for a backend that does not answer.\<close>

type_synonym 'a workflow_op = "workflow_db \<Rightarrow> (workflow_error, 'a) result option \<times> workflow_db"

definition give :: "(workflow_error, 'a) result \<Rightarrow> 'a workflow_op" where
  "give r db = (Some r, db)"

definition bind_op :: "'a workflow_op \<Rightarrow> ('a \<Rightarrow> 'b workflow_op) \<Rightarrow> 'b workflow_op" where
  "bind_op f g db =
     (case f db of
        (Some (Inr x), db') \<Rightarrow> g x db'
      | (Some (Inl e), db') \<Rightarrow> (Some (Inl e), db')
      | (None, db') \<Rightarrow> (None, db'))"

definition on_runs :: "(run_db \<Rightarrow> (run_service_error, 'a) result \<times> run_db) \<Rightarrow> 'a workflow_op" where
  "on_runs f db = (case f (wf_runs db) of (r, rd) \<Rightarrow> (Some (lift_service r), db\<lparr>wf_runs := rd\<rparr>))"

text \<open>The environment of a call: the Run service it was given (\<open>None\<close>: none), the clock at its saves, and for each Run
  and stage the clock and the answers of the backend.\<close>

record workflow_env =
  we_world :: world
  we_service :: "service option"
  we_saved_at :: "nat \<Rightarrow> datetime"
  we_reconciled_at :: "string \<Rightarrow> datetime"
  we_get_job :: "string \<Rightarrow> string \<Rightarrow> (run_service_error, job_snapshot) result"
  we_cancel_job :: "string \<Rightarrow> string \<Rightarrow> (run_service_error, job_snapshot) result"
  we_submitted_at :: "string \<Rightarrow> datetime"
  we_outside :: "string \<Rightarrow> (datetime \<times> answer) list"

definition manifest_status :: "workflow_env \<Rightarrow> string \<Rightarrow> string \<Rightarrow> workflow_manifest workflow_op" where
  "manifest_status env wid actor db =
     (Some (bind_res (get_workflow_manifest wid actor (wf_table db)) (\<lambda>(version, payload).
        manifest_from_payload (wo_repr (we_world env)) payload version)), db)"

definition manifest_save :: "workflow_env \<Rightarrow> nat \<Rightarrow> workflow_manifest \<Rightarrow> int \<Rightarrow> workflow_manifest workflow_op" where
  "manifest_save env n mf expected_version db =
     (case update_workflow_manifest (we_saved_at env n) (mf_workflow_id mf) (mf_owner mf) expected_version
             (manifest_payload (mf\<lparr>mf_version := 0\<rparr>)) (wf_table db) of
        (r, t) \<Rightarrow>
          (Some (case r of
             Inl W_Fence \<Rightarrow> Inl W_Conflict
           | Inl e \<Rightarrow> Inl e
           | Inr (version, payload) \<Rightarrow> manifest_from_payload (wo_repr (we_world env)) payload version),
           db\<lparr>wf_table := t\<rparr>))"

definition manifest_create :: "workflow_env \<Rightarrow> workflow_manifest \<Rightarrow> workflow_manifest workflow_op" where
  "manifest_create env mf db =
     (case validate_manifest mf unbounded of
        Inl e \<Rightarrow> (Some (Inl e), db)
      | Inr _ \<Rightarrow>
          if mf_version mf \<notin> {0, 1} then (Some (Inl (W_Value ''version'')), db)
          else
            (case create_workflow_manifest (we_saved_at env 0) (mf_workflow_id mf) (mf_owner mf)
                    (manifest_payload (mf\<lparr>mf_version := 0\<rparr>)) (wf_table db) of
               (r, t) \<Rightarrow>
                 (Some (bind_res r (\<lambda>(version, payload). manifest_from_payload (wo_repr (we_world env)) payload version)),
                  db\<lparr>wf_table := t\<rparr>)))"

subsection \<open>Reconciliation\<close>

definition workflow_terminal :: "run_state set" where
  "workflow_terminal = {RS_SUCCEEDED, RS_FAILED, RS_CANCELLED}"

text \<open>\<open>RunState(value)\<close>.\<close>

definition run_state_of :: "string \<Rightarrow> run_state option" where
  "run_state_of v = find (\<lambda>s. run_state_value s = v)
     [RS_DRAFT, RS_VALIDATED, RS_SUBMITTING, RS_SUBMITTED, RS_PENDING, RS_RUNNING, RS_COMPLETING, RS_SUCCEEDED, RS_FAILED,
      RS_CANCELLED, RS_UNKNOWN, RS_SUBMIT_FAILED, RS_COLLECTION_FAILED, RS_AUTH_REQUIRED, RS_SUBMISSION_UNCERTAIN,
      RS_EVIDENCE_PARTIAL, RS_ORPHANED]"

definition refreshed :: "stage_decision \<Rightarrow> run_record \<Rightarrow> stage_decision" where
  "refreshed d run = d\<lparr>sd_job_id := rc_job_id run, sd_run_state := run_state_value (rc_state run)\<rparr>"

definition reconcile_decision :: "workflow_env \<Rightarrow> stage_decision \<Rightarrow> stage_decision workflow_op" where
  "reconcile_decision env d =
     (case run_state_of (sd_run_state d) of
        None \<Rightarrow> give (Inl (W_Value ''run_state''))
      | Some decision_state \<Rightarrow>
          bind_op (on_runs (\<lambda>rd. (lift_run (get_run (sd_run_id d) rd), rd))) (\<lambda>run.
            if decision_state \<notin> workflow_terminal \<and> rc_job_id run \<noteq> None then
              bind_op (on_runs (reconcile_once (we_world env) (we_reconciled_at env (rc_id run)) (we_get_job env) (rc_id run)))
                (\<lambda>run'. give (Inr (refreshed d run')))
            else give (Inr (refreshed d run))))"

fun each_op :: "('a \<Rightarrow> 'b workflow_op) \<Rightarrow> 'a list \<Rightarrow> 'b list workflow_op" where
  "each_op f [] = give (Inr [])"
| "each_op f (x # xs) = bind_op (f x) (\<lambda>y. bind_op (each_op f xs) (\<lambda>ys. give (Inr (y # ys))))"

definition each_decision :: "(stage_decision \<Rightarrow> stage_decision workflow_op) \<Rightarrow> workflow_stage \<Rightarrow> workflow_stage workflow_op" where
  "each_decision f s = bind_op (each_op f (sg_decisions s)) (\<lambda>ds. give (Inr (s\<lparr>sg_decisions := ds\<rparr>)))"

definition completed_state :: "workflow_stage list \<Rightarrow> string \<Rightarrow> string" where
  "completed_state stages state = (if stages \<noteq> [] \<and> (\<forall>s \<in> set stages. stage_complete s) then ''completed'' else state)"

definition manifest_reconcile :: "workflow_env \<Rightarrow> string \<Rightarrow> string \<Rightarrow> workflow_manifest workflow_op" where
  "manifest_reconcile env wid actor =
     bind_op (manifest_status env wid actor) (\<lambda>mf.
       if we_service env = None \<or> mf_state mf = ''cancelled'' then give (Inr mf)
       else
         bind_op (each_op (each_decision (reconcile_decision env)) (mf_stages mf)) (\<lambda>stages.
           let state = completed_state stages (mf_state mf) in
           if stages = mf_stages mf \<and> state = mf_state mf then give (Inr mf)
           else manifest_save env 0 (mf\<lparr>mf_stages := stages, mf_state := state\<rparr>) (mf_version mf)))"

subsection \<open>Submission of stages\<close>

text \<open>The last decision's Run of a dependency; an empty list is an \<open>IndexError\<close>.\<close>

definition dependency_run :: "workflow_manifest \<Rightarrow> string \<Rightarrow> (workflow_error, string) result" where
  "dependency_run mf sid =
     bind_res (manifest_stage mf sid) (\<lambda>s. if sg_decisions s = [] then Inl W_Index else Inr (sd_run_id (last (sg_decisions s))))"

definition stage_workflow ::
    "workflow_manifest \<Rightarrow> workflow_stage \<Rightarrow> string list \<Rightarrow> int \<Rightarrow> int list \<Rightarrow> int list \<Rightarrow> workflow_policy" where
  "stage_workflow mf s runs recovery_attempt tasks reused =
     (rq_workflow (sg_request s))\<lparr>wp_dependencies := runs, wp_workflow_id := Some (mf_workflow_id mf), wp_stage_id := Some (sg_id s),
        wp_stage_kind := Some (sg_kind s), wp_recovery_attempt := recovery_attempt, wp_submitted_tasks := tasks,
        wp_reused_tasks := reused\<rparr>"

definition run_stage ::
    "workflow_env \<Rightarrow> service \<Rightarrow> run_request \<Rightarrow> string \<Rightarrow> string \<Rightarrow> int \<Rightarrow> run_record workflow_op" where
  "run_stage env sv request wid sid recovery_attempt db =
     (case submit_workflow_stage (we_world env) sv (we_submitted_at env sid) (we_outside env sid) request wid sid recovery_attempt
             (wf_control db) (wf_runs db) of
        (r, cd, rd) \<Rightarrow> (map_option lift_service r, db\<lparr>wf_control := cd, wf_runs := rd\<rparr>))"

definition submit_stage ::
    "workflow_env \<Rightarrow> workflow_manifest \<Rightarrow> workflow_stage \<Rightarrow> int \<Rightarrow> int list option \<Rightarrow> int list \<Rightarrow> workflow_stage workflow_op" where
  "submit_stage env mf s recovery_attempt submitted_tasks reused =
     (case we_service env of
        None \<Rightarrow> give (Inl (W_Runtime ''assert''))
      | Some sv \<Rightarrow>
          bind_op (give (all_ok (dependency_run mf) (sg_dependencies s))) (\<lambda>runs.
            let tasks = (case submitted_tasks of Some ts \<Rightarrow> ts | None \<Rightarrow> if sg_kind s = ''array'' then sg_tasks s else []);
                request = (sg_request s)\<lparr>rq_workflow := stage_workflow mf s runs recovery_attempt tasks reused\<rparr>
            in bind_op (run_stage env sv request (mf_workflow_id mf) (sg_id s) recovery_attempt) (\<lambda>run.
              give (Inr (s\<lparr>sg_decisions := sg_decisions s @ [\<lparr>sd_run_id = rc_id run, sd_job_id = rc_job_id run,
                sd_digest = request_digest (wo_sha (we_world env)) request, sd_run_state = run_state_value (rc_state run),
                sd_submitted = tasks, sd_reused = reused, sd_attempt = recovery_attempt\<rparr>]\<rparr>)))))"

definition merge_gap :: "workflow_stage list \<Rightarrow> workflow_error option" where
  "merge_gap dependencies = first_error (\<lambda>d. if sg_kind d = ''array'' \<and> \<not> set (sg_tasks d) \<subseteq> verified_tasks d
     then Some (W_Gate (sg_id d)) else None) dependencies"

text \<open>\<open>next(item for item in stages if item.stage_id == dep)\<close>.\<close>

definition find_stage :: "workflow_stage list \<Rightarrow> string \<Rightarrow> (workflow_error, workflow_stage) result" where
  "find_stage stages sid = (case fetchone (\<lambda>s. sg_id s = sid) stages of None \<Rightarrow> Inl W_Stop | Some s \<Rightarrow> Inr s)"

definition stage_waits :: "workflow_stage \<Rightarrow> workflow_stage list \<Rightarrow> bool" where
  "stage_waits s dependencies \<longleftrightarrow> (\<exists>d \<in> set dependencies. stage_failed d) \<or> (\<exists>d \<in> set dependencies. sg_decisions d = []) \<or>
     (sg_kind s = ''merge'' \<and> (\<exists>d \<in> set dependencies. \<not> stage_succeeded d))"

fun resume_loop ::
    "workflow_env \<Rightarrow> workflow_manifest \<Rightarrow> workflow_stage list \<Rightarrow> workflow_stage list \<Rightarrow> workflow_stage list workflow_op" where
  "resume_loop env mf visited [] = give (Inr visited)"
| "resume_loop env mf visited (s # rest) =
     (if sg_decisions s \<noteq> [] then resume_loop env mf (visited @ [s]) rest
      else
        bind_op (give (all_ok (find_stage (visited @ s # rest)) (sg_dependencies s))) (\<lambda>dependencies.
          if stage_waits s dependencies then resume_loop env mf (visited @ [s]) rest
          else if sg_kind s = ''merge'' \<and> merge_gap dependencies \<noteq> None then give (Inl (the (merge_gap dependencies)))
          else
            bind_op (submit_stage env (mf\<lparr>mf_stages := visited @ s # rest\<rparr>) s 0 None []) (\<lambda>s'.
              resume_loop env mf (visited @ [s']) rest)))"

definition manifest_resume :: "workflow_env \<Rightarrow> string \<Rightarrow> string \<Rightarrow> workflow_manifest workflow_op" where
  "manifest_resume env wid actor =
     bind_op (manifest_status env wid actor) (\<lambda>first.
       if mf_state first \<in> {''cancelled'', ''completed''} then give (Inr first)
       else if we_service env = None then give (Inl (W_Runtime ''workflow run service is unavailable''))
       else
         bind_op (manifest_reconcile env wid actor) (\<lambda>mf.
         bind_op (resume_loop env mf [] (mf_stages mf)) (\<lambda>stages.
           let state = completed_state stages (if \<exists>s \<in> set stages. sg_decisions s \<noteq> [] then ''running'' else mf_state mf);
               updated = mf\<lparr>mf_stages := stages, mf_state := state\<rparr>
           in if updated = mf then give (Inr mf) else manifest_save env 1 updated (mf_version mf))))"

subsection \<open>Artifacts and recovery\<close>

definition merge_truth :: "artifact_truth list \<Rightarrow> artifact_truth list \<Rightarrow> artifact_truth list" where
  "merge_truth old new =
     map (\<lambda>k. the (fetchone (\<lambda>t. at_task t = k) (rev (old @ new)))) (sort (remdups (map at_task (old @ new))))"

definition record_artifact_truth ::
    "workflow_env \<Rightarrow> string \<Rightarrow> string \<Rightarrow> artifact_truth list \<Rightarrow> string \<Rightarrow> workflow_manifest workflow_op" where
  "record_artifact_truth env wid sid truth actor =
     bind_op (manifest_status env wid actor) (\<lambda>mf.
     bind_op (give (manifest_stage mf sid)) (\<lambda>s.
       if sg_kind s \<noteq> ''array'' then give (Inl (W_Value ''array stage''))
       else if \<not> distinct (map at_task truth) \<or> \<not> at_task ` set truth \<subseteq> set (sg_tasks s) then give (Inl (W_Value ''task indexes''))
       else manifest_save env 0 (replace_stage mf (s\<lparr>sg_truth := merge_truth (sg_truth s) truth\<rparr>)) (mf_version mf)))"

record recovery_plan =
  rv_stage :: string
  rv_expression :: string
  rv_missing :: "int list"
  rv_reuses :: "int list"
  rv_attempt :: int

fun plan_recovery_loop :: "workflow_stage list \<Rightarrow> (workflow_error, recovery_plan) result" where
  "plan_recovery_loop [] = Inl (W_Gate ''no recoverable missing array tasks'')"
| "plan_recovery_loop (s # ss) =
     (let missing = filter (\<lambda>t. t \<notin> verified_tasks s) (sg_tasks s) in
      if sg_kind s \<noteq> ''array'' \<or> sg_decisions s = [] \<or> \<not> stage_succeeded s \<or> missing = [] then plan_recovery_loop ss
      else
        let attempt = Max (sd_attempt ` set (sg_decisions s)) + 1 in
        if 3 < attempt then Inl (W_Gate ''array recovery attempt limit reached'')
        else bind_res (compress_array_tasks missing) (\<lambda>e.
          Inr \<lparr>rv_stage = sg_id s, rv_expression = e, rv_missing = missing,
            rv_reuses = filter (\<lambda>t. t \<in> verified_tasks s) (sg_tasks s), rv_attempt = attempt\<rparr>))"

definition plan_recovery :: "workflow_env \<Rightarrow> string \<Rightarrow> string \<Rightarrow> recovery_plan workflow_op" where
  "plan_recovery env wid actor =
     bind_op (manifest_status env wid actor) (\<lambda>mf. give (plan_recovery_loop (mf_stages mf)))"

definition recovery_request :: "workflow_stage \<Rightarrow> recovery_plan \<Rightarrow> run_request" where
  "recovery_request s p =
     (let q = sg_request s; plan = rq_plan q in
      q\<lparr>rq_plan := plan\<lparr>rp_array := Some \<lparr>as_expression = rv_expression p,
          as_max_concurrency = (case rp_array plan of None \<Rightarrow> None | Some a \<Rightarrow> as_max_concurrency a)\<rparr>\<rparr>,
        rq_parent := Some (sd_run_id (last (sg_decisions s))), rq_lineage_reason := Some ''workflow_array_recovery''\<rparr>)"

definition manifest_recover :: "workflow_env \<Rightarrow> string \<Rightarrow> string \<Rightarrow> workflow_manifest workflow_op" where
  "manifest_recover env wid actor =
     (if we_service env = None then give (Inl (W_Runtime ''workflow run service is unavailable''))
      else
        bind_op (manifest_reconcile env wid actor) (\<lambda>mf.
        bind_op (plan_recovery env wid actor) (\<lambda>p.
        bind_op (give (manifest_stage mf (rv_stage p))) (\<lambda>s.
          if \<exists>d \<in> set (sg_decisions s). sd_attempt d = rv_attempt p then give (Inr mf)
          else if sg_decisions s = [] then give (Inl W_Index)
          else
            bind_op (submit_stage env mf (s\<lparr>sg_request := recovery_request s p\<rparr>) (rv_attempt p) (Some (rv_missing p)) (rv_reuses p))
              (\<lambda>s'. manifest_save env 1 (replace_stage mf (s'\<lparr>sg_request := sg_request s\<rparr>)) (mf_version mf))))))"

subsection \<open>Cancellation\<close>

definition cancel_decision :: "workflow_env \<Rightarrow> stage_decision \<Rightarrow> stage_decision workflow_op" where
  "cancel_decision env d =
     bind_op (on_runs (\<lambda>rd. (lift_run (get_run (sd_run_id d) rd), rd))) (\<lambda>run.
       if rc_state run \<notin> workflow_terminal then
         bind_op (on_runs (cancel (we_world env) (we_reconciled_at env (rc_id run)) (we_cancel_job env) (rc_id run)))
           (\<lambda>run'. give (Inr (refreshed d run')))
       else give (Inr (refreshed d run)))"

definition manifest_cancel :: "workflow_env \<Rightarrow> string \<Rightarrow> string \<Rightarrow> workflow_manifest workflow_op" where
  "manifest_cancel env wid actor =
     bind_op (manifest_status env wid actor) (\<lambda>mf.
       if mf_state mf = ''cancelled'' then give (Inr mf)
       else if we_service env = None then give (Inl (W_Runtime ''workflow run service is unavailable''))
       else
         bind_op (each_op (each_decision (cancel_decision env)) (mf_stages mf)) (\<lambda>stages.
           manifest_save env 0 (mf\<lparr>mf_stages := stages, mf_state := ''cancelled'', mf_cancelled_by := Some actor\<rparr>) (mf_version mf)))"

end
