(* ===== verification/WorkflowProps.thy ===== *)
theory WorkflowProps
  imports Workflow ResourceProps "HOL-Library.Multiset"
begin

text \<open>
  The order of stages (\<open>_dependency_layers\<close>), the resource peak of a layer and the array expressions of a recovery.
\<close>

section \<open>Dependency layers\<close>

text \<open>A list of stages in which every stage comes after the stages it depends on.\<close>

definition topological :: "workflow_stage list \<Rightarrow> bool" where
  "topological ss \<longleftrightarrow> (\<forall>k < length ss. set (sg_dependencies (ss ! k)) \<subseteq> sg_id ` set (take k ss))"

text \<open>Layers: each of them depends on the layers before it and on \<open>resolved\<close>.\<close>

fun layered :: "string set \<Rightarrow> workflow_stage list list \<Rightarrow> bool" where
  "layered resolved [] \<longleftrightarrow> True"
| "layered resolved (l # ls) \<longleftrightarrow> l \<noteq> [] \<and> (\<forall>s \<in> set l. set (sg_dependencies s) \<subseteq> resolved) \<and>
     layered (resolved \<union> sg_id ` set l) ls"

lemma filter_partition_mset:
  "mset (filter (\<lambda>s. f s \<in> R) xs) = mset (filter (\<lambda>s. f s \<in> R \<and> p s) xs) + mset (filter (\<lambda>s. f s \<in> R \<and> \<not> p s) xs)"
  by (induction xs) auto

lemma layers_loop_ok:
  assumes "layers_loop stages remaining resolved = Inr ls" and "distinct (map sg_id stages)"
  shows "mset (concat ls) = mset (filter (\<lambda>s. sg_id s \<in> set remaining) stages) \<and> layered resolved ls"
  using assms
proof (induction stages remaining resolved arbitrary: ls rule: layers_loop.induct)
  case (1 stages remaining resolved)
  let ?layer = "filter (\<lambda>s. sg_id s \<in> set remaining \<and> set (sg_dependencies s) \<subseteq> resolved) stages"
  show ?case
  proof (cases "remaining = []")
    case True
    with 1(2) show ?thesis by (simp add: layers_loop.simps)
  next
    case False
    with 1(2) obtain ls' where l: "?layer \<noteq> []" "ls = ?layer # ls'"
      and rest: "layers_loop stages (filter (\<lambda>i. i \<notin> sg_id ` set ?layer) remaining) (resolved \<union> sg_id ` set ?layer) = Inr ls'"
      by (auto simp: layers_loop.simps [of stages remaining resolved] Let_def bind_res_Inr_iff split: if_splits)
    from 1(1) [OF False refl l(1) rest 1(3)] have IH: "mset (concat ls') =
        mset (filter (\<lambda>s. sg_id s \<in> set (filter (\<lambda>i. i \<notin> sg_id ` set ?layer) remaining)) stages)"
      and lay: "layered (resolved \<union> sg_id ` set ?layer) ls'" by blast+
    have "sg_id s \<in> sg_id ` set ?layer \<longleftrightarrow> s \<in> set ?layer" if "s \<in> set stages" for s
      using 1(3) that by (auto simp: distinct_map inj_on_def)
    then have same: "filter (\<lambda>s. sg_id s \<in> set (filter (\<lambda>i. i \<notin> sg_id ` set ?layer) remaining)) stages =
        filter (\<lambda>s. sg_id s \<in> set remaining \<and> \<not> set (sg_dependencies s) \<subseteq> resolved) stages"
      by (intro filter_cong) auto
    have "mset (concat ls) = mset ?layer + mset (concat ls')" by (simp only: l(2) concat.simps mset_append)
    also have "\<dots> = mset (filter (\<lambda>s. sg_id s \<in> set remaining) stages)"
      by (simp only: IH same filter_partition_mset [of sg_id "set remaining" stages "\<lambda>s. set (sg_dependencies s) \<subseteq> resolved"])
    finally have "mset (concat ls) = mset (filter (\<lambda>s. sg_id s \<in> set remaining) stages)" .
    moreover have "layered resolved ls" unfolding l(2) using lay l(1) by simp
    ultimately show ?thesis by blast
  qed
qed

lemma layered_topological:
  "layered resolved ls \<Longrightarrow> k < length (concat ls) \<Longrightarrow>
     set (sg_dependencies (concat ls ! k)) \<subseteq> resolved \<union> sg_id ` set (take k (concat ls))"
proof (induction ls arbitrary: resolved k)
  case (Cons l ls)
  show ?case
  proof (cases "k < length l")
    case True
    then have "l ! k \<in> set l" by simp
    with Cons.prems True show ?thesis by (auto simp: nth_append)
  next
    case False
    with Cons.prems have "set (sg_dependencies (concat ls ! (k - length l))) \<subseteq>
        (resolved \<union> sg_id ` set l) \<union> sg_id ` set (take (k - length l) (concat ls))"
      by (intro Cons.IH) auto
    with False show ?thesis by (auto simp: nth_append)
  qed
qed simp

text \<open>A stage of an order that is first among the remaining ones depends on none of them.\<close>

lemma layers_loop_error:
  assumes "layers_loop stages remaining resolved = Inl e" and "distinct (map sg_id stages)"
    and "sg_id ` set stages = set remaining \<union> resolved"
  shows "e = W_Value ''cycle'' \<and> (\<nexists>order. mset order = mset stages \<and> topological order)"
  using assms
proof (induction stages remaining resolved rule: layers_loop.induct)
  case (1 stages remaining resolved)
  let ?layer = "filter (\<lambda>s. sg_id s \<in> set remaining \<and> set (sg_dependencies s) \<subseteq> resolved) stages"
  from 1(2) have some: "remaining \<noteq> []" by (auto simp: layers_loop.simps)
  show ?case
  proof (cases "?layer = []")
    case True
    with 1(2) some have e: "e = W_Value ''cycle''" by (simp add: layers_loop.simps [of stages remaining resolved])
    have False if order: "mset order = mset stages" and topo: "topological order" for order
    proof -
      from order have same: "set order = set stages" by (metis set_mset_mset)
      let ?P = "\<lambda>k. k < length order \<and> sg_id (order ! k) \<in> set remaining"
      from some 1(4) same have "\<exists>k. ?P k" by (metis Un_iff hd_in_set imageE in_set_conv_nth)
      then have least: "?P (LEAST k. ?P k)" by (rule LeastI_ex)
      define k where "k = (LEAST k. ?P k)"
      have k: "k < length order" "sg_id (order ! k) \<in> set remaining" using least by (simp_all add: k_def)
      have before: "sg_id s \<in> resolved" if "s \<in> set (take k order)" for s
      proof -
        from that obtain j where j: "j < k" "j < length order" "s = order ! j" by (auto simp: in_set_conv_nth)
        then have "\<not> ?P j" unfolding k_def by (blast dest: not_less_Least)
        with j have "sg_id s \<notin> set remaining" by simp
        moreover have "s \<in> set stages" unfolding same [symmetric] j(3) using j(2) by (rule nth_mem)
        then have "sg_id s \<in> set remaining \<union> resolved" unfolding 1(4) [symmetric] by (rule imageI)
        ultimately show ?thesis by simp
      qed
      then have "set (sg_dependencies (order ! k)) \<subseteq> resolved" using topo k(1) by (fastforce simp: topological_def)
      with k same have "order ! k \<in> set ?layer" by auto
      with True show False by simp
    qed
    with e show ?thesis by blast
  next
    case False
    with 1(2) some have rest: "layers_loop stages (filter (\<lambda>i. i \<notin> sg_id ` set ?layer) remaining) (resolved \<union> sg_id ` set ?layer) = Inl e"
      by (auto simp: layers_loop.simps [of stages remaining resolved] Let_def bind_res_def split: sum.splits)
    have "sg_id ` set stages = set (filter (\<lambda>i. i \<notin> sg_id ` set ?layer) remaining) \<union> (resolved \<union> sg_id ` set ?layer)"
      using 1(4) by auto
    from 1(1) [OF some refl False rest 1(3) this] show ?thesis .
  qed
qed

text \<open>C25. The order of a workflow: when no two stages share an id, the dependency layers hold every stage exactly
  once, no layer is empty, and every stage's dependencies are in earlier layers, so that the layers in a row are an
  order in which the stages can run; and the cycle is reported exactly when there is no such order.\<close>

theorem dependency_layers_order:
  assumes "distinct (map sg_id stages)"
  shows "case dependency_layers stages of
      Inr layers \<Rightarrow> mset (concat layers) = mset stages \<and> layered {} layers \<and> topological (concat layers)
    | Inl e \<Rightarrow> e = W_Value ''cycle'' \<and> (\<nexists>order. mset order = mset stages \<and> topological order)"
proof (cases "dependency_layers stages")
  case (Inl e)
  then show ?thesis using layers_loop_error [of stages "remdups (map sg_id stages)" "{}" e] assms
    by (simp add: dependency_layers_def)
next
  case (Inr layers)
  then have ok: "mset (concat layers) = mset (filter (\<lambda>s. sg_id s \<in> set (remdups (map sg_id stages))) stages) \<and> layered {} layers"
    using assms unfolding dependency_layers_def by (intro layers_loop_ok)
  then have "mset (concat layers) = mset stages \<and> layered {} layers" by (simp add: filter_id_conv)
  moreover have "topological (concat layers)"
    using ok layered_topological [of "{}" layers] by (simp add: topological_def)
  ultimately show ?thesis using Inr by simp
qed

definition example_stage :: "string \<Rightarrow> string list \<Rightarrow> run_request \<Rightarrow> workflow_stage" where
  "example_stage sid deps q = \<lparr>sg_id = sid, sg_kind = ''merge'', sg_request = q, sg_dependencies = deps, sg_tasks = [],
     sg_truth = [], sg_decisions = []\<rparr>"

lemma dependency_layers_order_witness:
  "\<forall>q. \<nexists>order. mset order = mset [example_stage ''a'' [''b''] q, example_stage ''b'' [''a''] q] \<and> topological order"
proof
  fix q
  let ?ss = "[example_stage ''a'' [''b''] q, example_stage ''b'' [''a''] q]"
  have "dependency_layers ?ss = Inl (W_Value ''cycle'')"
    by (simp add: dependency_layers_def layers_loop.simps example_stage_def)
  with dependency_layers_order [of ?ss] show "\<nexists>order. mset order = mset ?ss \<and> topological order"
    by (simp add: example_stage_def)
qed

section \<open>Array expressions\<close>

lemma nat_text_length: "n < 10 ^ k \<Longrightarrow> 0 < k \<Longrightarrow> length (nat_text n) \<le> k"
proof (induction n arbitrary: k rule: nat_text.induct)
  case (1 n)
  show ?case
  proof (cases "n < 10")
    case True
    with 1(3) show ?thesis by (subst nat_text.simps) simp
  next
    case False
    with 1(2,3) obtain j where j: "k = Suc j" "0 < j" by (cases k; cases "k - 1") auto
    with 1(2) have "n div 10 < 10 ^ j" by (simp add: less_mult_imp_div_less)
    from 1(1) [OF False this j(2)] False j show ?thesis by (subst nat_text.simps) simp
  qed
qed

text \<open>The indexes of an array task, read back from their texts.\<close>

lemma task_text:
  assumes "0 \<le> i" and "i \<le> 1000000"
  shows "int_of_text (int_text i) = Some i" "int_text i \<noteq> []" "CHR '','' \<notin> set (int_text i)" "CHR ''-'' \<notin> set (int_text i)"
proof -
  have t: "int_text i = nat_text (nat i)" using assms by (simp add: int_text_def)
  have digits: "list_all digit_char (nat_text (nat i))" "nat_text (nat i) \<noteq> []" using nat_text_digits by blast+
  have "length (nat_text (nat i)) \<le> 7" using assms by (intro nat_text_length) (auto simp: nat_less_iff)
  then have "length (filter digit_char (nat_text (nat i))) \<le> 4300"
    using length_filter_le [of digit_char "nat_text (nat i)"] by linarith
  moreover have "strip (nat_text (nat i)) = nat_text (nat i)"
    using digits digit_char_not by (intro strip_solid) (simp add: list_all_iff)
  moreover have "digit_char (hd (nat_text (nat i)))" using digits by (cases "nat_text (nat i)") auto
  ultimately show "int_of_text (int_text i) = Some i"
    using digits assms digits_from_nat_text digit_char_not [of "hd (nat_text (nat i))"] unfolding t
    by (simp add: int_of_text_def Let_def unsigned_of_text_def)
  show "int_text i \<noteq> []" unfolding t by (rule digits)
  have "\<not> digit_char (CHR '','')" by (simp add: digit_char_def Let_def)
  then show "CHR '','' \<notin> set (int_text i)" using digits unfolding t by (auto simp: list_all_iff)
  show "CHR ''-'' \<notin> set (int_text i)" using digits digit_char_not unfolding t by (auto simp: list_all_iff)
qed

text \<open>What Slurm reads in an array expression of indexes and ranges.\<close>

definition read_range :: "string \<Rightarrow> int list option" where
  "read_range w =
     (case split_at (CHR ''-'') w of
        [a] \<Rightarrow> map_option (\<lambda>x. [x]) (int_of_text a)
      | [a, b] \<Rightarrow> (case (int_of_text a, int_of_text b) of (Some x, Some y) \<Rightarrow> Some [x..y] | _ \<Rightarrow> None)
      | _ \<Rightarrow> None)"

fun read_ranges :: "string list \<Rightarrow> int list option" where
  "read_ranges [] = Some []"
| "read_ranges (w # ws) = (case (read_range w, read_ranges ws) of (Some x, Some y) \<Rightarrow> Some (x @ y) | _ \<Rightarrow> None)"

definition read_expression :: "string \<Rightarrow> int list option" where
  "read_expression e = read_ranges (split_at (CHR '','') e)"

lemma read_range_text:
  assumes "0 \<le> a" and "a \<le> b" and "b \<le> 1000000"
  shows "read_range (range_text a b) = Some [a..b]" "CHR '','' \<notin> set (range_text a b)"
proof -
  note ta = task_text [of a] and tb = task_text [of b]
  show "read_range (range_text a b) = Some [a..b]"
    using assms ta tb split_at_append [of "CHR ''-''" "int_text a" "int_text b"]
    by (auto simp: read_range_def range_text_def split_at_fresh)
  show "CHR '','' \<notin> set (range_text a b)" using assms ta tb by (auto simp: range_text_def)
qed

lemma split_join:
  "ws \<noteq> [] \<Longrightarrow> (\<And>w. w \<in> set ws \<Longrightarrow> CHR '','' \<notin> set w) \<Longrightarrow> split_at (CHR '','') (join '','' ws) = ws"
proof (induction ws)
  case (Cons w ws)
  then show ?case using split_at_append [of "CHR '',''" w] by (cases ws) (simp_all add: split_at_fresh)
qed simp

lemma read_expression_join:
  assumes "rs \<noteq> []" and "\<And>a b. (a, b) \<in> set rs \<Longrightarrow> 0 \<le> a \<and> a \<le> b \<and> b \<le> 1000000"
  shows "read_expression (join '','' (map (\<lambda>(a, b). range_text a b) rs)) = Some (concat (map (\<lambda>(a, b). [a..b]) rs))"
proof -
  have "split_at (CHR '','') (join '','' (map (\<lambda>(a, b). range_text a b) rs)) = map (\<lambda>(a, b). range_text a b) rs"
    using assms by (intro split_join) (auto dest: read_range_text(2))
  moreover have "read_ranges (map (\<lambda>(a, b). range_text a b) rs) = Some (concat (map (\<lambda>(a, b). [a..b]) rs))"
    using assms(2)
  proof (induction rs)
    case (Cons r rs)
    obtain a b where r: "r = (a, b)" by fastforce
    with Cons.prems have "read_range (range_text a b) = Some [a..b]" by (intro read_range_text) auto
    moreover have "read_ranges (map (\<lambda>(a, b). range_text a b) rs) = Some (concat (map (\<lambda>(a, b). [a..b]) rs))"
      using Cons.prems by (intro Cons.IH) auto
    ultimately show ?case using r by simp
  qed simp
  ultimately show ?thesis by (simp add: read_expression_def)
qed

lemma task_ranges_expand:
  assumes "sorted_wrt (<) (previous # ts)" and "start \<le> previous"
  shows "concat (map (\<lambda>(a, b). [a..b]) (task_ranges start previous ts)) = [start..previous] @ ts"
    "(a, b) \<in> set (task_ranges start previous ts) \<Longrightarrow> start \<le> a \<and> a \<le> b \<and> b \<in> set (previous # ts)"
  using assms
proof (induction start previous ts rule: task_ranges.induct)
  case (2 start previous t ts)
  {
    case 1
    with 2 show ?case by (auto simp: upto_rec2 [of start])
  next
    case 2
    with "2.IH" show ?case by (force split: if_splits)
  }
qed auto

lemma task_ranges_some: "task_ranges start previous ts \<noteq> []"
  by (induction start previous ts rule: task_ranges.induct) auto

lemma compress_exact:
  "case compress_array_tasks tasks of
     Inr e \<Rightarrow> read_expression e = Some (sort (remdups tasks)) \<and> tasks \<noteq> [] \<and> set tasks \<subseteq> {0..1000000}
   | Inl _ \<Rightarrow> tasks = [] \<or> \<not> set tasks \<subseteq> {0..1000000}"
proof (cases "sort (remdups tasks)")
  case Nil
  then have "remdups tasks = []" by (metis length_0_conv length_sort)
  then show ?thesis by (simp add: compress_array_tasks_def)
next
  case (Cons t ts)
  have members: "set (t # ts) = set tasks" using Cons by (metis set_remdups set_sort)
  have sorted: "sorted_wrt (<) (t # ts)"
    using Cons by (metis distinct_remdups distinct_sort sorted_sort strict_sorted_iff)
  then have ends: "t \<le> x \<and> x \<le> last (t # ts)" if "x \<in> set (t # ts)" for x
    using that by (induction ts arbitrary: t rule: rev_induct) (auto simp: sorted_wrt_append order.strict_implies_order)
  show ?thesis
  proof (cases "t < 0 \<or> 1000000 < last (t # ts)")
    case True
    moreover have "t \<in> set tasks" "last (t # ts) \<in> set tasks" using members last_in_set [of "t # ts"] by auto
    ultimately show ?thesis using Cons by (auto simp: compress_array_tasks_def Let_def)
  next
    case False
    have within: "set tasks \<subseteq> {0..1000000}"
    proof
      fix x assume "x \<in> set tasks"
      then have "t \<le> x \<and> x \<le> last (t # ts)" unfolding members [symmetric] by (rule ends)
      with False show "x \<in> {0..1000000}" by auto
    qed
    have "0 \<le> a \<and> a \<le> b \<and> b \<le> 1000000" if "(a, b) \<in> set (task_ranges t t ts)" for a b
    proof -
      from task_ranges_expand(2) [OF sorted order.refl that] have "t \<le> a" "a \<le> b" "b \<in> set tasks"
        unfolding members by blast+
      moreover from this(3) within have "b \<le> 1000000" by auto
      ultimately show ?thesis using False by linarith
    qed
    then have "read_expression (join '','' (map (\<lambda>(a, b). range_text a b) (task_ranges t t ts))) =
        Some (concat (map (\<lambda>(a, b). [a..b]) (task_ranges t t ts)))"
      by (intro read_expression_join task_ranges_some) blast
    then show ?thesis
      using Cons within members False task_ranges_expand(1) [OF sorted order.refl]
      by (auto simp: compress_array_tasks_def Let_def)
  qed
qed

text \<open>C39. The array expression of a recovery names exactly the missing tasks: read as Slurm reads it, an index or
  a range of indexes between commas, it gives the tasks in order, each once; it is refused exactly when there is
  no task or one lies outside zero to a million.\<close>

theorem compress_array_tasks_exact:
  "case compress_array_tasks tasks of
     Inr e \<Rightarrow> read_expression e = Some (sort (remdups tasks)) \<and> tasks \<noteq> [] \<and> set tasks \<subseteq> {0..1000000}
   | Inl _ \<Rightarrow> tasks = [] \<or> (\<exists>t. t \<in> set tasks \<and> (t < 0 \<or> 1000000 < t))"
  using compress_exact [of tasks] by (fastforce split: sum.splits simp: not_le)

end
