(* ===== verification/WorkflowServiceProps.thy ===== *)
theory WorkflowServiceProps
  imports WorkflowService WorkflowProps RunServiceProps DispatchProps
begin

text \<open>
  The stored form of workflow manifests (what is saved is what is read), the compare-and-swap on their versions and
  the list of active manifests.
\<close>

section \<open>Reading payloads\<close>

lemma all_ok_map: "(\<And>x. x \<in> set xs \<Longrightarrow> f (g x) = Inr x) \<Longrightarrow> all_ok f (map g xs) = Inr xs"
  by (induction xs) auto

lemma all_ok_Inr: "all_ok f xs = Inr ys \<longleftrightarrow> list_all2 (\<lambda>x y. f x = Inr y) xs ys"
  by (induction xs arbitrary: ys) (auto simp: bind_res_Inr_iff list_all2_Cons1)

lemma text_field_read:
  "is_object d \<Longrightarrow> jfield k d = Some (JStr s) \<Longrightarrow> text_field repr_of k (canonical d) = Inr s"
  by (simp add: text_field_def required_field_def is_object_canonical jfield_canonical lift_field_def)

lemma optional_text_read:
  "jfield k d = Some (jopt JStr v) \<Longrightarrow> optional_text repr_of k (canonical d) = Inr v"
  unfolding optional_text_def
  by (subst optional_jopt [of _ _ JStr v]) (simp_all add: jfield_canonical canonical_jopt lift_field_def)

lemma list_field_read:
  assumes "is_object d" and "jfield k d = Some (JArr (map g xs))"
    and "\<And>x. x \<in> set xs \<Longrightarrow> f (canonical (g x)) = Inr (h x)"
  shows "list_field k f (canonical d) = Inr (map h xs)"
proof -
  have "all_ok f (map (\<lambda>x. canonical (g x)) xs) = Inr (map h xs)"
    using assms(3) by (induction xs) auto
  then show ?thesis
    using assms(1,2) by (simp add: list_field_def is_object_canonical get_default_canonical comp_def)
qed

lemma truth_read: "truth_from_payload (canonical (truth_payload t)) = Some t"
proof -
  let ?v = "truth_payload t"
  obtain kvs where k: "?v = JObj kvs" by (simp add: truth_payload_def)
  have names: "set (map fst kvs) = {''task_index'', ''artifact_path'', ''artifact_sha256'',
      ''metadata_path'', ''metadata_sha256'', ''complete_marker_path'', ''complete''}"
    using k by (auto simp: truth_payload_def)
  have keys: "set (map fst (sort_key fst (map (\<lambda>(k, v). (k, canonical v)) kvs))) = set (map fst kvs)"
    by (auto simp: image_image case_prod_beta)
  have fields: "map_of (sort_key fst (map (\<lambda>(k, v). (k, canonical v)) kvs)) k = map_option canonical (jfield k ?v)" for k
    using jfield_canonical [of k ?v] unfolding k by simp
  have entries: "jfield ''task_index'' ?v = Some (JInt (at_task t))" "jfield ''artifact_path'' ?v = Some (JStr (at_artifact t))"
    "jfield ''artifact_sha256'' ?v = Some (jopt JStr (at_sha256 t))" "jfield ''metadata_path'' ?v = Some (JStr (at_metadata t))"
    "jfield ''metadata_sha256'' ?v = Some (jopt JStr (at_metadata_sha256 t))"
    "jfield ''complete_marker_path'' ?v = Some (JStr (at_marker t))" "jfield ''complete'' ?v = Some (JBool (at_complete t))"
    by (simp_all add: truth_payload_def)
  have opt: "text_option (jopt JStr x) = Some x" for x by (cases x) (simp_all add: jopt_def)
  have canon: "canonical ?v = JObj (sort_key fst (map (\<lambda>(k, v). (k, canonical v)) kvs))" unfolding k by simp
  show ?thesis
    unfolding truth_from_payload_def canon json.case keys names fields entries
    by (simp add: canonical_jopt opt)
qed

lemma decision_read: "decision_from_payload repr_of (canonical (decision_payload d)) = Inr d"
proof -
  let ?v = "decision_payload d"
  have obj: "is_object ?v" by (simp add: decision_payload_def)
  have entries: "jfield ''run_id'' ?v = Some (JStr (sd_run_id d))" "jfield ''job_id'' ?v = Some (jopt JStr (sd_job_id d))"
    "jfield ''request_digest'' ?v = Some (JStr (sd_digest d))" "jfield ''run_state'' ?v = Some (JStr (sd_run_state d))"
    "jfield ''submitted_tasks'' ?v = Some (JArr (map JInt (sd_submitted d)))"
    "jfield ''reused_verified_tasks'' ?v = Some (JArr (map JInt (sd_reused d)))"
    "jfield ''recovery_attempt'' ?v = Some (JInt (sd_attempt d))"
    by (simp_all add: decision_payload_def jints_def)
  have ints: "list_field k int_item (canonical ?v) = Inr ns" if "jfield k ?v = Some (JArr (map JInt ns))" for k ns
    using list_field_read [where f = int_item and h = "\<lambda>x. x", OF obj that] by (simp add: int_item_def lift_field_def)
  show ?thesis
    unfolding decision_from_payload_def
    by (simp add: text_field_read [OF obj] optional_text_read entries ints get_default_canonical int_item_def lift_field_def)
qed

section \<open>Round trip\<close>

definition stored_request :: "run_request \<Rightarrow> run_request" where
  "stored_request q = q\<lparr>rq_workspace_revision := None, rq_workspace_digest := None, rq_source_revision := None, rq_snapshot_ref := None\<rparr>"

definition request_ok :: "run_request \<Rightarrow> bool" where
  "request_ok q \<longleftrightarrow> policy_ok (rq_workflow q) \<and> path_text (parse_path (rq_workdir q)) = rq_workdir q"

definition stored_stage :: "workflow_stage \<Rightarrow> workflow_stage" where
  "stored_stage s = s\<lparr>sg_request := stored_request (sg_request s)\<rparr>"

definition stages_ok :: "workflow_manifest \<Rightarrow> bool" where
  "stages_ok mf \<longleftrightarrow> (\<forall>s \<in> set (mf_stages mf). stage_error s = None \<and> request_ok (sg_request s))"

definition stored_manifest :: "workflow_manifest \<Rightarrow> int \<Rightarrow> workflow_manifest" where
  "stored_manifest mf version = mf\<lparr>mf_stages := map stored_stage (mf_stages mf), mf_version := version\<rparr>"

lemma request_read:
  assumes "request_ok q"
  shows "run_request_from_payload repr_of (canonical (run_request_payload q)) = Inr (stored_request q)"
proof -
  let ?v = "run_request_payload q"
  have obj: "is_object ?v" by (simp add: run_request_payload_def)
  have entries: "jfield ''owner'' ?v = Some (JStr (rq_owner q))" "jfield ''workdir'' ?v = Some (JStr (rq_workdir q))"
    "jfield ''script'' ?v = Some (JStr (rq_script q))" "jfield ''job_name'' ?v = Some (jopt JStr (rq_job_name q))"
    "jfield ''contract_id'' ?v = Some (jopt JStr (rq_contract_id q))" "jfield ''parent_run_id'' ?v = Some (jopt JStr (rq_parent q))"
    "jfield ''lineage_reason'' ?v = Some (jopt JStr (rq_lineage_reason q))"
    "jfield ''remediation_plan_id'' ?v = Some (jopt JStr (rq_plan_id q))"
    "jfield ''workflow'' ?v = Some (policy_to_payload (rq_workflow q))" "jfield ''resource_plan'' ?v = Some (plan_payload (rq_plan q))"
    by (simp_all add: run_request_payload_def)
  have "jfield ''array'' (plan_payload p) = Some (jopt array_json (rp_array p))" for p
    by (simp add: plan_payload_def array_json_def jopt_def split: option.split)
  then have "plan_entries p (plan_payload p)" for p by (simp add: plan_entries_def plan_payload_def)
  from plan_from_entries [OF this] have plan: "lift_field (resource_plan_from_dict repr_of (canonical (plan_payload p))) = Inr p" for p
    by (simp add: lift_field_def)
  have policy: "lift_service (policy_from_payload repr_of (Some (canonical (policy_to_payload (rq_workflow q))))) = Inr (rq_workflow q)"
    using assms by (simp add: policy_read_back request_ok_def lift_service_def)
  have required: "lift_field (required_field ''resource_plan'' (canonical ?v)) = Inr (canonical (plan_payload (rq_plan q)))"
    using obj entries by (simp add: required_field_def is_object_canonical jfield_canonical lift_field_def)
  show ?thesis
    using assms unfolding run_request_from_payload_def
    by (simp add: required text_field_read [OF obj] optional_text_read entries jfield_canonical policy plan request_ok_def stored_request_def)
qed

lemma stage_read:
  assumes "stage_error s = None" and "request_ok (sg_request s)"
  shows "stage_from_payload repr_of (canonical (stage_payload s)) = Inr (stored_stage s)"
proof -
  let ?v = "stage_payload s"
  have obj: "is_object ?v" by (simp add: stage_payload_def)
  have entries: "jfield ''stage_id'' ?v = Some (JStr (sg_id s))" "jfield ''kind'' ?v = Some (JStr (sg_kind s))"
    "jfield ''request'' ?v = Some (run_request_payload (sg_request s))"
    "jfield ''dependencies'' ?v = Some (JArr (map JStr (sg_dependencies s)))"
    "jfield ''array_tasks'' ?v = Some (JArr (map JInt (sg_tasks s)))"
    "jfield ''artifact_truth'' ?v = Some (JArr (map truth_payload (sg_truth s)))"
    "jfield ''decisions'' ?v = Some (JArr (map decision_payload (sg_decisions s)))"
    by (simp_all add: stage_payload_def jints_def jstrs_def)
  have ints: "int_item (JInt i) = Inr i" for i by (simp add: int_item_def lift_field_def)
  note lists = list_field_read [OF obj entries(4), of "\<lambda>x. Inr (py_str repr_of x)" "\<lambda>x. x"]
    list_field_read [OF obj entries(5), of int_item "\<lambda>x. x"]
    list_field_read [OF obj entries(6), of "\<lambda>x. case truth_from_payload x of None \<Rightarrow> Inl W_Type | Some t \<Rightarrow> Inr t" "\<lambda>x. x"]
    list_field_read [OF obj entries(7), of "decision_from_payload repr_of" "\<lambda>x. x"]
  have required: "lift_field (required_field ''request'' (canonical ?v)) = Inr (canonical (run_request_payload (sg_request s)))"
    using obj entries by (simp add: required_field_def is_object_canonical jfield_canonical lift_field_def)
  have "stage_error (stored_stage s) = None" using assms(1) by (simp add: stage_error_def stored_stage_def)
  then have "make_stage (stored_stage s) = Inr (stored_stage s)" by (simp add: make_stage_def)
  moreover have "\<lparr>sg_id = sg_id s, sg_kind = sg_kind s, sg_request = stored_request (sg_request s), sg_dependencies = sg_dependencies s,
      sg_tasks = sg_tasks s, sg_truth = sg_truth s, sg_decisions = sg_decisions s\<rparr> = stored_stage s"
    by (simp add: stored_stage_def)
  ultimately show ?thesis
    unfolding stage_from_payload_def
    using lists by (simp add: required text_field_read [OF obj] entries request_read [OF assms(2)] truth_read decision_read ints)
qed

lemma manifest_read:
  assumes "stages_ok mf"
  shows "manifest_from_payload repr_of (canonical (manifest_payload mf)) version = Inr (stored_manifest mf version)"
proof -
  let ?v = "manifest_payload mf"
  have obj: "is_object ?v" by (simp add: manifest_payload_def)
  have entries: "jfield ''schema_version'' ?v = Some (JInt 1)" "jfield ''workflow_id'' ?v = Some (JStr (mf_workflow_id mf))"
    "jfield ''owner'' ?v = Some (JStr (mf_owner mf))" "jfield ''state'' ?v = Some (JStr (mf_state mf))"
    "jfield ''cancelled_by'' ?v = Some (jopt JStr (mf_cancelled_by mf))"
    "jfield ''stages'' ?v = Some (JArr (map stage_payload (mf_stages mf)))"
    by (simp_all add: manifest_payload_def)
  have required: "lift_field (required_field ''stages'' (canonical ?v)) = Inr (JArr (map (\<lambda>s. canonical (stage_payload s)) (mf_stages mf)))"
    using obj entries by (simp add: required_field_def is_object_canonical jfield_canonical lift_field_def comp_def)
  have "all_ok (stage_from_payload repr_of) (map (\<lambda>s. canonical (stage_payload s)) ss) = Inr (map stored_stage ss)"
    if "\<forall>s \<in> set ss. stage_error s = None \<and> request_ok (sg_request s)" for ss
    using that by (induction ss) (simp_all add: stage_read)
  then have "all_ok (stage_from_payload repr_of) (map (\<lambda>s. canonical (stage_payload s)) (mf_stages mf)) = Inr (map stored_stage (mf_stages mf))"
    using assms by (simp add: stages_ok_def)
  then show ?thesis
    unfolding manifest_from_payload_def
    by (simp add: required text_field_read [OF obj] optional_text_read entries jfield_canonical get_default_canonical stored_manifest_def)
qed

section \<open>Saving\<close>

lemma payload_object: "is_object (manifest_payload mf)"
  by (simp add: manifest_payload_def)

lemma payload_version: "manifest_payload (mf\<lparr>mf_version := v\<rparr>) = manifest_payload mf"
  by (simp add: manifest_payload_def)

lemma manifest_at_workflow: "manifest_at wid owner v r \<Longrightarrow> mr_workflow r = wid"
  by (simp add: manifest_at_def)

lemma get_row:
  assumes "keyed mr_workflow t" and "row_of mr_workflow wid t = Some r" and "mr_owner r = owner" and "is_object (mr_json r)"
  shows "get_workflow_manifest wid owner t = Inr (mr_version r, mr_json r)"
  using fetchone_pinned [OF assms(1), of "\<lambda>r. mr_workflow r = wid \<and> mr_owner r = owner" wid] assms row_of_SomeD [OF assms(2)]
  by (simp add: get_workflow_manifest_def)

abbreviation manifest_table_put :: "datetime \<Rightarrow> workflow_manifest \<Rightarrow> manifest_row \<Rightarrow> manifest_table \<Rightarrow> manifest_table" where
  "manifest_table_put now mf r t \<equiv> put_row mr_workflow (upd_manifest now (manifest_payload mf) r) t"

lemma put_read:
  assumes "keyed mr_workflow t" and "row_of mr_workflow wid t = Some r" and "manifest_at wid owner v r"
  shows "get_workflow_manifest wid owner (manifest_table_put now mf r t) = Inr (v + 1, canonical (manifest_payload mf))"
proof -
  have "row_of mr_workflow wid (manifest_table_put now mf r t) = Some (upd_manifest now (manifest_payload mf) r)"
    using assms by (simp add: row_of_put_row upd_manifest_def manifest_at_def)
  from get_row [OF _ this, of owner] show ?thesis
    using assms by (simp add: upd_manifest_def manifest_at_def is_object_canonical payload_object)
qed

text \<open>A save is refused and changes nothing, or it replaces the row whose version it names.\<close>

lemma manifest_save_cases:
  assumes "keyed mr_workflow (wf_table db)"
  obtains (refused) e where "manifest_save env n mf v db = (Some (Inl e), db)" "0 < v \<longrightarrow> e = W_Conflict"
      "\<And>r. row_of mr_workflow (mf_workflow_id mf) (wf_table db) = Some r \<Longrightarrow>
         \<not> (0 < v \<and> manifest_at (mf_workflow_id mf) (mf_owner mf) v r)"
  | (saved) r where "row_of mr_workflow (mf_workflow_id mf) (wf_table db) = Some r"
      "manifest_at (mf_workflow_id mf) (mf_owner mf) v r" "0 < v"
      "manifest_save env n mf v db =
        (Some (manifest_from_payload (wo_repr (we_world env)) (canonical (manifest_payload mf)) (v + 1)),
         db\<lparr>wf_table := manifest_table_put (we_saved_at env n) mf r (wf_table db)\<rparr>)"
proof -
  let ?t = "wf_table db" and ?at = "manifest_at (mf_workflow_id mf) (mf_owner mf) v"
  note count = rowcount_pinned [of mr_workflow ?t ?at "mf_workflow_id mf", OF assms manifest_at_workflow]
  show ?thesis
  proof (cases "\<exists>r. row_of mr_workflow (mf_workflow_id mf) ?t = Some r \<and> ?at r \<and> 0 < v")
    case True
    then obtain r where r: "row_of mr_workflow (mf_workflow_id mf) ?t = Some r" "?at r" "0 < v" by blast
    from row_of_SomeD [OF r(1)] have "sql_update ?at (upd_manifest now (manifest_payload mf)) ?t = manifest_table_put now mf r ?t" for now
      using r assms by (intro sql_update_put [where k = "mf_workflow_id mf"]) (auto simp: upd_manifest_def manifest_at_workflow)
    with r count show ?thesis
      by (intro saved [OF r]) (simp add: manifest_save_def update_workflow_manifest_def payload_version put_read [OF assms r(1,2)])
  next
    case False
    with count have none: "0 < v \<longrightarrow> rowcount ?at ?t = 0" by (auto split: option.splits)
    then have "\<exists>e. manifest_save env n mf v db = (Some (Inl e), db) \<and> (0 < v \<longrightarrow> e = W_Conflict)"
      by (cases "0 < v") (auto simp: manifest_save_def update_workflow_manifest_def)
    with False show ?thesis by (blast intro: refused)
  qed
qed

text \<open>C24. What is saved is what is read: a save of a manifest under the version of the stored one succeeds, answers the
  manifest with the next version, and every later \<open>status\<close> gives exactly that answer; stages, decisions, artifact
  truth, policies and plans survive. Only the provenance of the stages' requests (workspace revision and digest,
  source revision, platform snapshot) is not stored and comes back empty.\<close>

theorem manifest_survives_save:
  assumes "keyed mr_workflow (wf_table db)" and "row_of mr_workflow (mf_workflow_id mf) (wf_table db) = Some r"
    and "manifest_at (mf_workflow_id mf) (mf_owner mf) v r" and "0 < v" and "stages_ok mf"
  shows "\<exists>db'. manifest_save env n mf v db = (Some (Inr (stored_manifest mf (v + 1))), db') \<and>
    manifest_status env' (mf_workflow_id mf) (mf_owner mf) db' = (Some (Inr (stored_manifest mf (v + 1))), db')"
  using assms(1)
proof (cases rule: manifest_save_cases [where mf = mf and v = v and env = env and n = n])
  case refused
  with assms show ?thesis by blast
next
  case (saved r')
  with assms show ?thesis by (simp add: manifest_read manifest_status_def put_read)
qed

text \<open>A workflow of an array of two tasks, which has succeeded with both artifacts verified, and the merge after it.\<close>

definition w_truth :: "int \<Rightarrow> artifact_truth" where
  "w_truth n = \<lparr>at_task = n, at_artifact = ''a'', at_sha256 = Some ''h'', at_metadata = ''m'', at_metadata_sha256 = Some ''h'',
     at_marker = ''c'', at_complete = True\<rparr>"

definition w_decision :: stage_decision where
  "w_decision = \<lparr>sd_run_id = ''run_1'', sd_job_id = Some ''7'', sd_digest = ''d'', sd_run_state = ''SUCCEEDED'', sd_submitted = [0, 1],
     sd_reused = [], sd_attempt = 0\<rparr>"

definition w_all :: "artifact_truth list" where
  "w_all = [w_truth 0, w_truth 1]"

definition w_array :: "artifact_truth list \<Rightarrow> workflow_stage" where
  "w_array ts = \<lparr>sg_id = ''parts'', sg_kind = ''array'', sg_request = p_request, sg_dependencies = [], sg_tasks = [0, 1],
     sg_truth = ts, sg_decisions = [w_decision]\<rparr>"

definition w_merge :: workflow_stage where
  "w_merge = example_stage ''merge'' [''parts''] p_request"

definition w_manifest :: "artifact_truth list \<Rightarrow> workflow_manifest" where
  "w_manifest ts = \<lparr>mf_workflow_id = ''wf'', mf_owner = ''ann'', mf_stages = [w_array ts, w_merge], mf_state = ''running'', mf_version = 1,
     mf_cancelled_by = None\<rparr>"

definition w_row :: "artifact_truth list \<Rightarrow> manifest_row" where
  "w_row ts = \<lparr>mr_workflow = ''wf'', mr_owner = ''ann'', mr_version = 1, mr_json = canonical (manifest_payload (w_manifest ts)),
     mr_created_at = ''2026'', mr_updated_at = ''2026''\<rparr>"

definition w_db :: "artifact_truth list \<Rightarrow> run_db \<Rightarrow> control_db \<Rightarrow> workflow_db" where
  "w_db ts rd cd = \<lparr>wf_table = [w_row ts], wf_control = cd, wf_runs = rd\<rparr>"

definition w_env :: workflow_env where
  "w_env = \<lparr>we_world = p_world, we_service = Some s_service, we_saved_at = (\<lambda>_. c_t1), we_reconciled_at = (\<lambda>_. c_t1),
     we_get_job = (\<lambda>_ _. Inl (S_Value ''no answer'')), we_cancel_job = (\<lambda>_ _. Inl (S_Value ''no answer'')), we_submitted_at = (\<lambda>_. c_t1),
     we_outside = (\<lambda>_. [])\<rparr>"

lemma w_request_ok: "request_ok p_request"
  by (simp add: request_ok_def p_request_def policy_ok_def default_workflow_policy_def automation_levels_def parse_path_def path_text_def)

lemma w_stages_ok: "stages_ok (w_manifest ts)"
  by (simp add: stages_ok_def w_manifest_def w_array_def w_merge_def example_stage_def stage_error_def w_request_ok)

lemma w_table: "keyed mr_workflow (wf_table (w_db ts rd cd))" "row_of mr_workflow ''wf'' (wf_table (w_db ts rd cd)) = Some (w_row ts)"
  by (simp_all add: w_db_def keyed_def w_row_def)

lemma manifest_survives_save_witness:
  "\<forall>rd cd. \<exists>db'. manifest_save w_env 0 (w_manifest w_all) 1 (w_db w_all rd cd) = (Some (Inr (stored_manifest (w_manifest w_all) 2)), db')"
proof (intro allI)
  fix rd cd
  have "mf_workflow_id (w_manifest w_all) = ''wf''" "manifest_at (mf_workflow_id (w_manifest w_all)) (mf_owner (w_manifest w_all)) 1 (w_row w_all)"
    by (simp_all add: w_manifest_def manifest_at_def w_row_def)
  with manifest_survives_save [where mf = "w_manifest w_all" and v = 1 and db = "w_db w_all rd cd" and r = "w_row w_all" and env = w_env and n = 0 and env' = w_env]
    w_table [of w_all rd cd] w_stages_ok
  show "\<exists>db'. manifest_save w_env 0 (w_manifest w_all) 1 (w_db w_all rd cd) = (Some (Inr (stored_manifest (w_manifest w_all) 2)), db')" by auto
qed

section \<open>Histories of a workflow\<close>

text \<open>Creations and saves by any callers, one after the other; the result lists the saves that took effect.\<close>

datatype manifest_call = Create_call workflow_env workflow_manifest | Save_call workflow_env nat workflow_manifest int

fun run_calls :: "manifest_call list \<Rightarrow> workflow_db \<Rightarrow> workflow_db \<times> (workflow_manifest \<times> int) list" where
  "run_calls [] db = (db, [])"
| "run_calls (Create_call env mf # cs) db = run_calls cs (snd (manifest_create env mf db))"
| "run_calls (Save_call env n mf v # cs) db =
     (case manifest_save env n mf v db of (r, db') \<Rightarrow>
       (case run_calls cs db' of (db'', saves) \<Rightarrow>
         (db'', if wf_table db' = wf_table db then saves else (mf, v) # saves)))"

lemma manifest_create_table:
  "wf_table (snd (manifest_create env mf db)) = wf_table db \<or>
   (\<exists>r. mr_workflow r \<notin> mr_workflow ` set (wf_table db) \<and> wf_table (snd (manifest_create env mf db)) = wf_table db @ [r])"
  by (auto simp: manifest_create_def create_workflow_manifest_def Let_def split: sum.splits prod.splits)

lemma put_changes:
  assumes "row_of mr_workflow wid t = Some r" and "mr_workflow r = wid"
  shows "manifest_table_put now mf r t \<noteq> t"
proof -
  have "row_of mr_workflow wid (manifest_table_put now mf r t) = Some (upd_manifest now (manifest_payload mf) r)"
    using assms by (simp add: row_of_put_row upd_manifest_def)
  moreover have "mr_version (upd_manifest now (manifest_payload mf) r) \<noteq> mr_version r" by (simp add: upd_manifest_def)
  ultimately show ?thesis using assms(1) by (metis option.inject)
qed

text \<open>The end of a history of saves of one workflow.\<close>

definition serial_end :: "manifest_row \<Rightarrow> (workflow_manifest \<times> int) list \<Rightarrow> manifest_row \<Rightarrow> bool" where
  "serial_end r mine r' \<longleftrightarrow> map snd mine = [mr_version r .. mr_version r + int (length mine) - 1] \<and>
     mr_workflow r' = mr_workflow r \<and> mr_owner r' = mr_owner r \<and> mr_version r' = mr_version r + int (length mine) \<and>
     mr_json r' = (if mine = [] then mr_json r else canonical (manifest_payload (fst (last mine))))"

lemma serial_end_Nil: "serial_end r [] r"
  by (simp add: serial_end_def)

lemma serial_end_Cons:
  assumes "serial_end (upd_manifest now (manifest_payload mf) r) mine r'" and "mr_version r = v"
  shows "serial_end r ((mf, v) # mine) r'"
  using assms by (auto simp: serial_end_def upd_manifest_def upto_rec1 algebra_simps)

text \<open>C6. No update of a workflow is lost: take any creations and saves by any number of callers. The saves of a workflow
  that took effect carry, in order, the versions that follow one another from the version it had, each exactly once;
  so every such save was made from the result of the one before it, and every other save of that workflow was refused
  and changed nothing. The workflow ends with the content of the last of them, at the version after it.\<close>

theorem saves_are_serial:
  assumes "keyed mr_workflow (wf_table db)" and "row_of mr_workflow wid (wf_table db) = Some r"
    and "run_calls calls db = (db', saves)"
  shows "\<exists>r'. row_of mr_workflow wid (wf_table db') = Some r' \<and> serial_end r (filter (\<lambda>(mf, v). mf_workflow_id mf = wid) saves) r'"
  using assms
proof (induction calls db arbitrary: r saves rule: run_calls.induct)
  case (1 db)
  then show ?case by (auto intro: serial_end_Nil)
next
  case (2 env mf cs db)
  have row: "row_of mr_workflow wid (wf_table (snd (manifest_create env mf db))) = Some r"
    and key: "keyed mr_workflow (wf_table (snd (manifest_create env mf db)))"
    using manifest_create_table [of env mf db] 2(2,3) by (auto simp: row_of_append keyed_append)
  show ?case using 2(1) [OF key row] 2(4) by simp
next
  case (3 env n mf v cs db)
  obtain x db1 where save: "manifest_save env n mf v db = (x, db1)" by fastforce
  obtain saves1 where rest: "run_calls cs db1 = (db', saves1)"
    and saves: "saves = (if wf_table db1 = wf_table db then saves1 else (mf, v) # saves1)"
    using 3(4) save by (auto split: prod.splits)
  note IH = 3(1) [OF save [symmetric] _ _ rest]
  from 3(2) show ?case
  proof (cases rule: manifest_save_cases [where mf = mf and v = v and env = env and n = n])
    case refused
    with save have "db1 = db" by simp
    with IH [of r] 3(2,3) saves show ?thesis by simp
  next
    case (saved r0)
    let ?t = "manifest_table_put (we_saved_at env n) mf r0 (wf_table db)" and ?r = "upd_manifest (we_saved_at env n) (manifest_payload mf) r0"
    from saved(4) save have t: "wf_table db1 = ?t" by auto
    from saved(2) have r0: "mr_workflow r0 = mf_workflow_id mf" "mr_version r0 = v" by (simp_all add: manifest_at_def)
    from put_changes [OF saved(1) r0(1)] saves t have new: "saves = (mf, v) # saves1" by simp
    have key: "keyed mr_workflow ?t" using 3(2) by simp
    show ?thesis
    proof (cases "mf_workflow_id mf = wid")
      case True
      with saved(1) 3(3) have "r0 = r" by simp
      moreover have "row_of mr_workflow wid ?t = Some ?r" using saved(1) True r0 by (simp add: row_of_put_row upd_manifest_def)
      ultimately show ?thesis using IH [of ?r] key True r0(2) unfolding t new by (auto intro: serial_end_Cons)
    next
      case False
      with 3(3) r0 have "row_of mr_workflow wid ?t = Some r" by (simp add: row_of_put_row upd_manifest_def)
      then show ?thesis using IH [of r] key False unfolding t new by simp
    qed
  qed
qed

text \<open>Two saves from the same version: at most one of them takes effect.\<close>

lemma saves_are_serial_witness:
  "\<forall>rd cd. length (snd (run_calls [Save_call w_env 0 (w_manifest w_all) 1, Save_call w_env 0 ((w_manifest w_all)\<lparr>mf_state := ''cancelled''\<rparr>) 1] (w_db w_all rd cd))) \<le> 1"
proof (intro allI)
  fix rd cd
  let ?b = "(w_manifest w_all)\<lparr>mf_state := ''cancelled''\<rparr>"
  obtain db' saves where run: "run_calls [Save_call w_env 0 (w_manifest w_all) 1, Save_call w_env 0 ?b 1] (w_db w_all rd cd) = (db', saves)" by fastforce
  from saves_are_serial [OF w_table [of w_all rd cd] run] have end_of: "map snd (filter (\<lambda>(mf, v). mf_workflow_id mf = ''wf'') saves) =
      [1 .. 1 + int (length (filter (\<lambda>(mf, v). mf_workflow_id mf = ''wf'') saves)) - 1]"
    by (auto simp: serial_end_def w_row_def)
  from run have "saves \<in> {[], [((w_manifest w_all), 1)], [(?b, 1)], [((w_manifest w_all), 1), (?b, 1)]}"
    by (auto split: prod.splits if_splits)
  with end_of have "length saves \<le> 1" by (auto simp: w_manifest_def upto_rec1)
  with run show "length (snd (run_calls [Save_call w_env 0 (w_manifest w_all) 1, Save_call w_env 0 ?b 1] (w_db w_all rd cd))) \<le> 1" by simp
qed

section \<open>Active workflows\<close>

lemma late_rows_hidden:
  fixes k :: "'a \<Rightarrow> 'k::linorder"
  assumes many: "n \<le> length (filter (\<lambda>q. \<not> p q) t)"
    and late: "\<And>r q. r \<in> set t \<Longrightarrow> q \<in> set t \<Longrightarrow> p r \<Longrightarrow> \<not> p q \<Longrightarrow> k q < k r"
  shows "filter p (take n (sort_key k t)) = []"
proof (rule ccontr)
  let ?s = "sort_key k t"
  assume "filter p (take n ?s) \<noteq> []"
  then obtain r where "r \<in> set (take n ?s)" "p r" by (auto simp: filter_empty_conv)
  then obtain i where i: "i < n" "i < length ?s" "p (?s ! i)" by (auto simp: in_set_conv_nth)
  have "j < i" if "j < length ?s" "\<not> p (?s ! j)" for j
  proof (rule ccontr)
    assume "\<not> j < i"
    then have "k (?s ! i) \<le> k (?s ! j)"
      using sorted_nth_mono [OF sorted_sort_key [of k t], of i j] that(1) i(2) by simp
    moreover have "?s ! i \<in> set t" "?s ! j \<in> set t" using i(2) that(1) by (metis nth_mem set_sort)+
    ultimately show False using late [of "?s ! i" "?s ! j"] i(3) that(2) by (simp add: not_le)
  qed
  then have "{j. j < length ?s \<and> \<not> p (?s ! j)} \<subseteq> {..<i}" by auto
  then have "card {j. j < length ?s \<and> \<not> p (?s ! j)} \<le> card {..<i}" by (intro card_mono) simp_all
  then have "card {j. j < length ?s \<and> \<not> p (?s ! j)} \<le> i" by simp
  then have "length (filter (\<lambda>q. \<not> p q) ?s) \<le> i" by (simp add: length_filter_conv_card)
  moreover have "length (filter (\<lambda>q. \<not> p q) ?s) = length (filter (\<lambda>q. \<not> p q) t)"
    by (simp only: filter_sort length_sort)
  ultimately show False using many i(1) by simp
qed

text \<open>C30. Finished workflows hide the active ones: the worker's list reads the thousand manifests that were updated first
  and only then drops the cancelled and completed ones. Once a thousand finished workflows were last updated before
  every active one, the list is empty for every limit, and no active workflow is ever resumed again.\<close>

theorem finished_workflows_hide_active:
  assumes "1000 \<le> length (filter (\<lambda>q. \<not> manifest_active q) t)"
    and "\<And>r q. r \<in> set t \<Longrightarrow> q \<in> set t \<Longrightarrow> manifest_active r \<Longrightarrow> \<not> manifest_active q \<Longrightarrow>
      (mr_updated_at q, mr_workflow q) < (mr_updated_at r, mr_workflow r)"
    and "1 \<le> limit" and "limit \<le> 1000"
  shows "list_active_workflow_manifests limit t = Inr []"
  using late_rows_hidden [where p = manifest_active and k = "\<lambda>r. (mr_updated_at r, mr_workflow r)", OF assms(1,2)] assms(3,4)
  by (simp add: list_active_workflow_manifests_def)

definition finished_row :: "nat \<Rightarrow> manifest_row" where
  "finished_row n = \<lparr>mr_workflow = replicate n (CHR ''w''), mr_owner = ''ann'', mr_version = 3,
     mr_json = JObj [(''state'', JStr ''completed'')], mr_created_at = ''2025'', mr_updated_at = ''2025''\<rparr>"

definition running_row :: manifest_row where
  "running_row = \<lparr>mr_workflow = ''mine'', mr_owner = ''ann'', mr_version = 1, mr_json = JObj [(''state'', JStr ''pending'')],
     mr_created_at = ''2026'', mr_updated_at = ''2026''\<rparr>"

lemma finished_workflows_hide_active_witness:
  "manifest_active running_row \<and> keyed mr_workflow (map finished_row [0..<1000] @ [running_row]) \<and>
   list_active_workflow_manifests 100 (map finished_row [0..<1000] @ [running_row]) = Inr []"
proof -
  have act: "manifest_active running_row" "\<not> manifest_active (finished_row n)" for n
    by (simp_all add: manifest_active_def running_row_def finished_row_def)
  let ?t = "map finished_row [0..<1000] @ [running_row]"
  have before: "(mr_updated_at (finished_row n), mr_workflow (finished_row n)) < (mr_updated_at running_row, mr_workflow running_row)" for n
    by (simp add: finished_row_def running_row_def)
  have "list_active_workflow_manifests 100 ?t = Inr []"
  proof (rule finished_workflows_hide_active)
    have "filter (\<lambda>q. \<not> manifest_active q) ?t = map finished_row [0..<1000]"
      by (simp add: act filter_map comp_def del: upt_conv_Cons)
    then show "1000 \<le> length (filter (\<lambda>q. \<not> manifest_active q) ?t)" by (simp only: length_map length_upt)
    show "(mr_updated_at q, mr_workflow q) < (mr_updated_at r, mr_workflow r)"
      if r: "r \<in> set ?t" "manifest_active r" and q: "q \<in> set ?t" "\<not> manifest_active q" for r q
    proof -
      have "r = running_row" using r act by auto
      moreover obtain n where "q = finished_row n" using q act by auto
      ultimately show ?thesis using before by simp
    qed
  qed simp_all
  moreover have "''mine'' \<noteq> replicate n (CHR ''w'')" for n
  proof
    assume "''mine'' = replicate n (CHR ''w'')"
    then have "CHR ''m'' \<in> set (replicate n (CHR ''w''))" by (metis list.set_intros(1))
    then show False by simp
  qed
  moreover have "map mr_workflow ?t = map (\<lambda>n. replicate n (CHR ''w'')) [0..<1000] @ [''mine'']"
    by (simp add: comp_def finished_row_def running_row_def del: upt_conv_Cons)
  ultimately have "keyed mr_workflow ?t \<and> list_active_workflow_manifests 100 ?t = Inr []"
    by (auto simp: keyed_def distinct_map inj_on_def simp del: upt_conv_Cons map_append list.map)
  then show ?thesis using act by blast
qed

end
