(* ===== verification/WorkflowRunProps.thy ===== *)
theory WorkflowRunProps
  imports WorkflowServiceProps
begin

text \<open>
  What \<open>resume\<close>, \<open>plan_recovery\<close>, \<open>recover\<close> and \<open>cancel\<close> do to the stages of a workflow.
\<close>

section \<open>Loaded manifests\<close>

lemma split_slash_parts: "CHR ''/'' \<notin> set p \<Longrightarrow> split_slash (p @ rest) =
    (case split_slash rest of [] \<Rightarrow> [p] | q # qs \<Rightarrow> (p @ q) # qs)"
proof (induction p)
  case Nil
  show ?case by (induction rest) (auto split: list.splits)
qed (auto split: list.splits)

lemma split_slash_nonempty: "split_slash s \<noteq> []"
  by (induction s) (auto split: list.splits)

lemma split_slash_no_slash: "p \<in> set (split_slash s) \<Longrightarrow> CHR ''/'' \<notin> set p"
  by (induction s arbitrary: p) (auto split: list.splits if_splits)

lemma split_slash_join:
  "ps \<noteq> [] \<Longrightarrow> (\<And>p. p \<in> set ps \<Longrightarrow> CHR ''/'' \<notin> set p) \<Longrightarrow> split_slash (join ''/'' ps) = ps"
proof (induction ps)
  case (Cons p ps)
  then show ?case
    using split_slash_parts [of p "[]"] split_slash_parts [of p "''/'' @ join ''/'' ps"] by (cases ps) auto
qed simp

lemma path_text_normal: "path_text (parse_path (path_text (parse_path s))) = path_text (parse_path s)"
proof -
  let ?p = "parse_path s"
  let ?root = "pa_root ?p" and ?parts = "pa_parts ?p"
  have root: "?root \<in> {[], ''/'', ''//''}" by (simp add: parse_path_def)
  have part: "CHR ''/'' \<notin> set q \<and> q \<noteq> [] \<and> q \<noteq> ''.''" if "q \<in> set ?parts" for q
    using that by (auto simp: parse_path_def dest: split_slash_no_slash)
  show ?thesis
  proof (cases "?parts = []")
    case True
    then have "path_text ?p \<in> {''.'', ''/'', ''//''}" using root by (auto simp: path_text_def)
    moreover have "path_text (parse_path x) = x" if "x \<in> {''.'', ''/'', ''//''}" for x
      using that by (auto simp: parse_path_def path_text_def)
    ultimately show ?thesis by blast
  next
    case False
    then obtain q qs where parts: "?parts = q # qs" by (cases ?parts) auto
    from part [of q] parts obtain c cs where q: "q = c # cs" "c \<noteq> CHR ''/''" by (cases q) auto
    obtain u where first: "join ''/'' ?parts = c # u" using parts q by (cases qs) auto
    have cut: "split_slash (c # u) = ?parts" using part False unfolding first [symmetric] by (intro split_slash_join) auto
    have lead: "split_slash (CHR ''/'' # x) = [] # split_slash x" for x by simp
    have keep: "filter (\<lambda>p. p \<noteq> [] \<and> p \<noteq> ''.'') ?parts = ?parts" using part by (simp add: filter_id_conv)
    have pick: "\<lparr>pa_root = r, pa_parts = filter (\<lambda>p. p \<noteq> [] \<and> p \<noteq> ''.'') ?parts\<rparr> = \<lparr>pa_root = r, pa_parts = ?parts\<rparr>" for r
      by (simp only: keep)
    from root consider "?root = []" | "?root = ''/''" | "?root = ''//''" by blast
    then have "parse_path (?root @ join ''/'' ?parts) = \<lparr>pa_root = ?root, pa_parts = ?parts\<rparr>"
      unfolding first
    proof cases
      case 1
      then show "parse_path (?root @ c # u) = \<lparr>pa_root = ?root, pa_parts = ?parts\<rparr>"
        unfolding 1 using pick [of "[]"] q(2) by (simp add: parse_path_def [of "c # u"] cut del: split_slash.simps)
    next
      case 2
      then show "parse_path (?root @ c # u) = \<lparr>pa_root = ?root, pa_parts = ?parts\<rparr>"
        unfolding 2 using pick [of "''/''"] q(2) by (simp add: parse_path_def [of "CHR ''/'' # c # u"] cut lead del: split_slash.simps)
    next
      case 3
      then show "parse_path (?root @ c # u) = \<lparr>pa_root = ?root, pa_parts = ?parts\<rparr>"
        unfolding 3 using pick [of "''//''"] q(2)
        by (simp add: parse_path_def [of "CHR ''/'' # CHR ''/'' # c # u"] cut lead del: split_slash.simps)
    qed
    with False show ?thesis by (simp add: path_text_def)
  qed
qed

lemma request_loaded:
  "run_request_from_payload repr_of v = Inr q \<Longrightarrow> request_ok q \<and> stored_request q = q"
  by (auto simp: run_request_from_payload_def bind_res_Inr_iff request_ok_def stored_request_def path_text_normal lift_service_def
      split: sum.splits dest: policy_from_payload_ok)

lemma all_ok_source: "all_ok f xs = Inr ys \<Longrightarrow> y \<in> set ys \<Longrightarrow> \<exists>x \<in> set xs. f x = Inr y"
  by (induction xs arbitrary: ys) (auto simp: bind_res_Inr_iff)

text \<open>A stage and a manifest as the service has them after reading them.\<close>

definition loaded_stage :: "workflow_stage \<Rightarrow> bool" where
  "loaded_stage s \<longleftrightarrow> stage_error s = None \<and> request_ok (sg_request s) \<and> stored_request (sg_request s) = sg_request s"

definition loaded :: "workflow_manifest \<Rightarrow> bool" where
  "loaded mf \<longleftrightarrow> (\<forall>s \<in> set (mf_stages mf). loaded_stage s)"

lemma stage_loaded: "stage_from_payload repr_of v = Inr s \<Longrightarrow> loaded_stage s"
  by (auto simp: stage_from_payload_def bind_res_Inr_iff make_stage_def loaded_stage_def split: option.splits dest!: request_loaded)

lemma all_ok_all: "all_ok f xs = Inr ys \<Longrightarrow> (\<And>x y. f x = Inr y \<Longrightarrow> p y) \<Longrightarrow> \<forall>y \<in> set ys. p y"
  by (induction xs arbitrary: ys) (auto simp: bind_res_Inr_iff)

lemma all_ok_found: "all_ok f xs = Inr ys \<Longrightarrow> x \<in> set xs \<Longrightarrow> \<exists>y \<in> set ys. f x = Inr y"
  by (induction xs arbitrary: ys) (auto simp: bind_res_Inr_iff)

lemma case_arr_Inr: "(case v of JArr xs \<Rightarrow> f xs | _ \<Rightarrow> Inl e) = Inr y \<longleftrightarrow> (\<exists>xs. v = JArr xs \<and> f xs = Inr y)"
  by (cases v) auto

lemma manifest_loaded:
  assumes "manifest_from_payload repr_of v n = Inr mf"
  shows "loaded mf \<and> mf_version mf = n"
proof -
  from assms obtain xs where "all_ok (stage_from_payload repr_of) xs = Inr (mf_stages mf)" and "mf_version mf = n"
    by (auto simp: manifest_from_payload_def bind_res_Inr_iff case_arr_Inr split: if_splits)
  with all_ok_all [OF this(1), of loaded_stage] show ?thesis using stage_loaded by (simp add: loaded_def)
qed

lemma loaded_stored: "loaded mf \<Longrightarrow> stages_ok mf \<and> stored_manifest mf v = mf\<lparr>mf_version := v\<rparr>"
  by (auto simp: loaded_def loaded_stage_def stages_ok_def stored_manifest_def stored_stage_def intro!: map_idI workflow_manifest.equality)

section \<open>What an operation leaves alone\<close>

text \<open>Everything between a read of the manifest and its save leaves the table of manifests alone.\<close>

definition keeps_table :: "'a workflow_op \<Rightarrow> bool" where
  "keeps_table f \<longleftrightarrow> (\<forall>db. wf_table (snd (f db)) = wf_table db)"

lemma keeps_give: "keeps_table (give r)"
  by (simp add: keeps_table_def give_def)

lemma keeps_on_runs: "keeps_table (on_runs f)"
  by (simp add: keeps_table_def on_runs_def split: prod.split)

lemma keeps_bind: "keeps_table f \<Longrightarrow> (\<And>x. keeps_table (g x)) \<Longrightarrow> keeps_table (bind_op f g)"
  by (simp add: keeps_table_def bind_op_def split: prod.split option.split sum.split) (metis snd_conv)

lemma keeps_run_stage: "keeps_table (run_stage env sv q wid sid n)"
  by (simp add: keeps_table_def run_stage_def split: prod.split)

lemma keeps_status: "keeps_table (manifest_status env wid actor)"
  by (simp add: keeps_table_def manifest_status_def)

lemmas keeps_intros = keeps_give keeps_on_runs keeps_bind keeps_run_stage keeps_status

lemma keeps_each: "(\<And>x. keeps_table (f x)) \<Longrightarrow> keeps_table (each_op f xs)"
  by (induction xs) (auto intro!: keeps_intros)

lemma keeps_reconcile_decision: "keeps_table (reconcile_decision env d)"
  by (auto simp: reconcile_decision_def intro!: keeps_intros split: option.split)

lemma keeps_cancel_decision: "keeps_table (cancel_decision env d)"
  by (auto simp: cancel_decision_def intro!: keeps_intros)

lemma keeps_each_decision: "(\<And>d. keeps_table (f d)) \<Longrightarrow> keeps_table (each_decision f s)"
  by (auto simp: each_decision_def intro!: keeps_intros keeps_each)

lemma keeps_submit_stage: "keeps_table (submit_stage env mf s n ts reused)"
  by (auto simp: submit_stage_def Let_def intro!: keeps_intros split: option.split)

lemma keeps_resume_loop: "keeps_table (resume_loop env mf visited rest)"
  by (induction rest arbitrary: visited) (auto intro!: keeps_intros keeps_submit_stage)

lemma bind_op_Inr:
  assumes "bind_op f g db = (Some (Inr y), db')"
  obtains x db1 where "f db = (Some (Inr x), db1)" "g x db1 = (Some (Inr y), db')"
  using assms by (auto simp: bind_op_def split: prod.splits option.splits sum.splits)

lemma give_Inr: "give r db = (Some (Inr x), db') \<longleftrightarrow> r = Inr x \<and> db' = db"
  by (auto simp: give_def)

text \<open>A save that returned read back what it stored.\<close>

lemma save_returned:
  assumes "manifest_save env n mf v db = (Some (Inr mf'), db')" and "keyed mr_workflow (wf_table db)"
  shows "loaded mf' \<and> mf_version mf' = v + 1 \<and> keyed mr_workflow (wf_table db') \<and> (stages_ok mf \<longrightarrow> mf' = stored_manifest mf (v + 1))"
  using assms(2)
proof (cases rule: manifest_save_cases [where mf = mf and v = v and env = env and n = n])
  case refused
  with assms show ?thesis by simp
next
  case (saved r)
  with assms show ?thesis by (auto dest: manifest_loaded simp: manifest_read)
qed

lemma status_returned: "manifest_status env wid actor db = (Some (Inr mf), db') \<Longrightarrow> loaded mf \<and> db' = db"
  by (auto simp: manifest_status_def bind_res_Inr_iff dest: manifest_loaded)

lemma reconcile_returned:
  assumes "manifest_reconcile env wid actor db = (Some (Inr mf), db1)" and "keyed mr_workflow (wf_table db)"
  shows "loaded mf \<and> keyed mr_workflow (wf_table db1)"
proof -
  from assms(1) obtain mf0 where status: "manifest_status env wid actor db = (Some (Inr mf0), db)"
    and rest: "(if we_service env = None \<or> mf_state mf0 = ''cancelled'' then give (Inr mf0)
       else bind_op (each_op (each_decision (reconcile_decision env)) (mf_stages mf0)) (\<lambda>stages.
           let state = completed_state stages (mf_state mf0) in
           if stages = mf_stages mf0 \<and> state = mf_state mf0 then give (Inr mf0)
           else manifest_save env 0 (mf0\<lparr>mf_stages := stages, mf_state := state\<rparr>) (mf_version mf0))) db = (Some (Inr mf), db1)"
    unfolding manifest_reconcile_def by (rule bind_op_Inr) (use status_returned in blast)
  show ?thesis
  proof (cases "we_service env = None \<or> mf_state mf0 = ''cancelled''")
    case True
    with rest status_returned [OF status] assms(2) show ?thesis by (auto simp: give_Inr)
  next
    case False
    with rest obtain stages db2 where each: "each_op (each_decision (reconcile_decision env)) (mf_stages mf0) db = (Some (Inr stages), db2)"
      and last: "(let state = completed_state stages (mf_state mf0) in
           if stages = mf_stages mf0 \<and> state = mf_state mf0 then give (Inr mf0)
           else manifest_save env 0 (mf0\<lparr>mf_stages := stages, mf_state := state\<rparr>) (mf_version mf0)) db2 = (Some (Inr mf), db1)"
      by (auto elim: bind_op_Inr)
    have "keeps_table (each_op (each_decision (reconcile_decision env)) (mf_stages mf0))"
      by (intro keeps_each keeps_each_decision keeps_reconcile_decision)
    with each assms(2) have "keyed mr_workflow (wf_table db2)" unfolding keeps_table_def by (metis snd_conv)
    with last status_returned [OF status] show ?thesis
      by (auto simp: Let_def give_Inr split: if_splits dest!: save_returned)
  qed
qed

section \<open>Resuming\<close>

text \<open>A stage after the loop of \<open>resume\<close>: as before, or opened by its first decision, with all dependencies decided and
  none failed; a merge with all of them succeeded and every task of their arrays verified.\<close>

definition opened :: "workflow_stage list \<Rightarrow> workflow_stage \<Rightarrow> workflow_stage \<Rightarrow> bool" where
  "opened stages s s' \<longleftrightarrow> s' = s \<or>
     (sg_decisions s = [] \<and>
      (\<exists>d. s' = s\<lparr>sg_decisions := [d]\<rparr> \<and> sd_attempt d = 0 \<and> sd_submitted d = (if sg_kind s = ''array'' then sg_tasks s else [])) \<and>
      (\<forall>i \<in> set (sg_dependencies s). \<exists>q \<in> set stages. sg_id q = i \<and> sg_decisions q \<noteq> [] \<and> \<not> stage_failed q \<and>
         (sg_kind s = ''merge'' \<longrightarrow> stage_succeeded q \<and> (sg_kind q = ''array'' \<longrightarrow> set (sg_tasks q) \<subseteq> verified_tasks q))))"

lemma submit_stage_returned:
  assumes "submit_stage env mf s 0 None [] db = (Some (Inr s'), db')" and "sg_decisions s = []"
  shows "\<exists>d. s' = s\<lparr>sg_decisions := [d]\<rparr> \<and> sd_attempt d = 0 \<and> sd_submitted d = (if sg_kind s = ''array'' then sg_tasks s else [])"
  using assms by (auto simp: submit_stage_def give_Inr Let_def split: option.splits elim!: bind_op_Inr)

lemma find_stage_Inr: "find_stage stages i = Inr q \<Longrightarrow> q \<in> set stages \<and> sg_id q = i"
  by (auto simp: find_stage_def split: option.splits dest: fetchone_Some)

lemma list_all2_partner: "list_all2 p xs ys \<Longrightarrow> x \<in> set xs \<Longrightarrow> \<exists>y \<in> set ys. p x y"
  by (induction rule: list_all2_induct) auto

lemma merge_gap_None: "merge_gap ds = None \<Longrightarrow> q \<in> set ds \<Longrightarrow> sg_kind q = ''array'' \<Longrightarrow> set (sg_tasks q) \<subseteq> verified_tasks q"
  unfolding merge_gap_def by (induction ds) (auto split: if_splits option.splits)

lemma resume_loop_opens:
  assumes "resume_loop env mf visited rest db = (Some (Inr stages), db')"
  shows "\<exists>tail. stages = visited @ tail \<and> list_all2 (opened stages) rest tail"
  using assms
proof (induction rest arbitrary: visited db)
  case Nil
  then show ?case by (simp add: give_Inr)
next
  case (Cons s rest)
  show ?case
  proof (cases "sg_decisions s = []")
    case False
    with Cons.prems Cons.IH [of "visited @ [s]" db] show ?thesis by (auto simp: opened_def intro: exI [of _ "s # tail" for tail])
  next
    case True
    with Cons.prems obtain ds where found: "all_ok (find_stage (visited @ s # rest)) (sg_dependencies s) = Inr ds"
      and go: "(if stage_waits s ds then resume_loop env mf (visited @ [s]) rest
          else if sg_kind s = ''merge'' \<and> merge_gap ds \<noteq> None then give (Inl (the (merge_gap ds)))
          else bind_op (submit_stage env (mf\<lparr>mf_stages := visited @ s # rest\<rparr>) s 0 None [])
            (\<lambda>s'. resume_loop env mf (visited @ [s']) rest)) db = (Some (Inr stages), db')"
      by (auto simp: give_Inr elim!: bind_op_Inr)
    show ?thesis
    proof (cases "stage_waits s ds")
      case True
      with go Cons.IH [of "visited @ [s]" db] show ?thesis by (auto simp: opened_def intro: exI [of _ "s # tail" for tail])
    next
      case False
      with go have gap: "sg_kind s = ''merge'' \<longrightarrow> merge_gap ds = None" by (auto simp: give_Inr split: if_splits)
      with False go obtain s' db1 where sub: "submit_stage env (mf\<lparr>mf_stages := visited @ s # rest\<rparr>) s 0 None [] db = (Some (Inr s'), db1)"
        and later: "resume_loop env mf (visited @ [s']) rest db1 = (Some (Inr stages), db')"
        by (auto elim!: bind_op_Inr)
      from Cons.IH [OF later] obtain tail where tail: "stages = visited @ s' # tail" "list_all2 (opened stages) rest tail" by auto
      have "\<exists>q \<in> set stages. sg_id q = i \<and> sg_decisions q \<noteq> [] \<and> \<not> stage_failed q \<and>
         (sg_kind s = ''merge'' \<longrightarrow> stage_succeeded q \<and> (sg_kind q = ''array'' \<longrightarrow> set (sg_tasks q) \<subseteq> verified_tasks q))"
        if "i \<in> set (sg_dependencies s)" for i
      proof -
        from all_ok_found [OF found that] obtain q where q: "q \<in> set ds" "find_stage (visited @ s # rest) i = Inr q" by blast
        from find_stage_Inr [OF q(2)] have there: "q \<in> set visited \<or> q = s \<or> q \<in> set rest" "sg_id q = i" by auto
        from False q(1) have decided: "sg_decisions q \<noteq> []" "\<not> stage_failed q" "sg_kind s = ''merge'' \<longrightarrow> stage_succeeded q"
          by (auto simp: stage_waits_def)
        have "q \<in> set stages"
        proof (cases "q \<in> set rest")
          case True
          from list_all2_partner [OF tail(2) True] obtain q' where "q' \<in> set tail" "opened stages q q'" by blast
          with decided(1) tail(1) show ?thesis by (auto simp: opened_def)
        next
          case False
          with there(1) decided(1) \<open>sg_decisions s = []\<close> tail(1) show ?thesis by auto
        qed
        with there(2) decided gap merge_gap_None [OF _ q(1)] show ?thesis by blast
      qed
      with submit_stage_returned [OF sub True] True have "opened stages s s'" by (auto simp: opened_def)
      with tail show ?thesis by auto
    qed
  qed
qed

lemma loaded_decisions: "loaded_stage (s\<lparr>sg_decisions := ds\<rparr>) = loaded_stage s"
  by (simp add: loaded_stage_def stage_error_def)

lemma opened_loaded: "opened stages s s' \<Longrightarrow> loaded_stage s' = loaded_stage s"
  unfolding opened_def by (elim disjE conjE exE) (simp_all add: loaded_decisions)

lemma all_opened_loaded: "list_all2 (opened stages) ss ss' \<Longrightarrow> \<forall>s \<in> set ss. loaded_stage s \<Longrightarrow> \<forall>s \<in> set ss'. loaded_stage s"
  by (induction rule: list_all2_induct) (auto simp: opened_loaded)

text \<open>C5. Resuming opens a stage only through its gate. Compare the manifest that \<open>resume\<close> returns with the one it read
  and reconciled: stage by stage nothing changed, or a stage without decisions got its first one, for attempt zero
  and for all of its tasks, and then each of its dependencies has a decision and none of them failed or was
  cancelled. A merge stage is opened only when every dependency has succeeded and every task of every array it
  depends on has an artifact, a metadata file and a completion marker that are verified.\<close>

theorem resume_opens_through_gates:
  assumes "keyed mr_workflow (wf_table db)" and "manifest_status env wid actor db = (Some (Inr first), db)"
    and "mf_state first \<notin> {''cancelled'', ''completed''}"
    and "manifest_reconcile env wid actor db = (Some (Inr mf), db1)"
    and "manifest_resume env wid actor db = (Some (Inr mf'), db')"
  shows "list_all2 (opened (mf_stages mf')) (mf_stages mf) (mf_stages mf')"
proof -
  from assms(2-5) obtain stages db2 where loop: "resume_loop env mf [] (mf_stages mf) db1 = (Some (Inr stages), db2)"
    and fin: "(let state = completed_state stages (if \<exists>s \<in> set stages. sg_decisions s \<noteq> [] then ''running'' else mf_state mf);
               updated = mf\<lparr>mf_stages := stages, mf_state := state\<rparr>
           in if updated = mf then give (Inr mf) else manifest_save env 1 updated (mf_version mf)) db2 = (Some (Inr mf'), db')"
    unfolding manifest_resume_def by (auto simp: give_Inr split: if_splits elim!: bind_op_Inr)
  from resume_loop_opens [OF loop] have opens: "list_all2 (opened stages) (mf_stages mf) stages" by simp
  have mf: "loaded mf" "keyed mr_workflow (wf_table db1)" using reconcile_returned [OF assms(4,1)] by blast+
  then have "keyed mr_workflow (wf_table db2)"
    using keeps_resume_loop [of env mf "[]" "mf_stages mf"] loop unfolding keeps_table_def by (metis snd_conv)
  note keyed2 = this
  have "mf_stages mf' = stages"
  proof (cases "mf_stages mf' = mf_stages mf \<and> stages = mf_stages mf")
    case False
    from fin obtain state where "(if mf\<lparr>mf_stages := stages, mf_state := state\<rparr> = mf then give (Inr mf)
        else manifest_save env 1 (mf\<lparr>mf_stages := stages, mf_state := state\<rparr>) (mf_version mf)) db2 = (Some (Inr mf'), db')"
      by (auto simp: Let_def)
    moreover have "loaded (mf\<lparr>mf_stages := stages, mf_state := state\<rparr>)"
      using all_opened_loaded [OF opens] mf(1) by (simp add: loaded_def)
    ultimately show ?thesis
      using loaded_stored [of "mf\<lparr>mf_stages := stages, mf_state := state\<rparr>" "mf_version mf + 1"] save_returned [OF _ keyed2]
      by (auto simp: give_Inr split: if_splits dest: arg_cong [where f = mf_stages])
  qed simp
  with opens show ?thesis by simp
qed

text \<open>The merge of the example, whose Run an earlier \<open>resume\<close> has already submitted.\<close>

definition w_merge_request :: run_request where
  "w_merge_request = p_request\<lparr>rq_workflow := stage_workflow (w_manifest w_all) w_merge [''run_1''] 0 [] []\<rparr>"

definition w_rid :: string where
  "w_rid = ''run_wf_'' @ replicate 24 CHR ''a''"

lemma w_rid_new: "w_rid \<noteq> ''run_1''" "''run_1'' \<noteq> w_rid"
  by (simp_all add: w_rid_def)

definition w_run :: "string \<Rightarrow> string \<Rightarrow> run_state \<Rightarrow> run_request \<Rightarrow> run_row" where
  "w_run rid job state q = (let r = new_run_row (stored_spec c_t1 0 (request_spec rid q)) in
     r\<lparr>rn_record := (rn_record r)\<lparr>rc_job_id := Some job, rc_state := state\<rparr>\<rparr>)"

definition w_runs :: run_db where
  "w_runs = empty_run_db\<lparr>rd_runs := [w_run ''run_1'' ''7'' RS_SUCCEEDED p_request,
     w_run w_rid ''8'' RS_SUBMITTED w_merge_request]\<rparr>"

lemma w_status: "manifest_status w_env ''wf'' ''ann'' (w_db ts rd cd) = (Some (Inr (w_manifest ts)), w_db ts rd cd)"
proof -
  have "get_workflow_manifest ''wf'' ''ann'' (wf_table (w_db ts rd cd)) = Inr (1, canonical (manifest_payload (w_manifest ts)))"
    using get_row [OF w_table, where owner = "''ann''"] by (simp add: w_row_def is_object_canonical payload_object)
  moreover have "stored_manifest (w_manifest ts) 1 = (w_manifest ts)"
    by (simp add: stored_manifest_def w_manifest_def stored_stage_def stored_request_def w_array_def w_merge_def example_stage_def p_request_def)
  ultimately show ?thesis using manifest_read [OF w_stages_ok] by (simp add: manifest_status_def)
qed

lemma w_get: "get_run ''run_1'' w_runs = Inr (rn_record (w_run ''run_1'' ''7'' RS_SUCCEEDED p_request))"
  "get_run w_rid w_runs = Inr (rn_record (w_run w_rid ''8'' RS_SUBMITTED w_merge_request))"
  by (simp_all add: get_run_def w_runs_def w_run_def Let_def new_run_row_def stored_spec_def request_spec_def w_rid_new)

lemma w_record: "rc_job_id (rn_record (w_run rid job st q)) = Some job" "rc_state (rn_record (w_run rid job st q)) = st"
  "rc_id (rn_record (w_run rid job st q)) = rid"
  by (simp_all add: w_run_def Let_def new_run_row_def stored_spec_def request_spec_def)

lemma w_reconcile: "manifest_reconcile w_env ''wf'' ''ann'' (w_db ts w_runs cd) = (Some (Inr (w_manifest ts)), w_db ts w_runs cd)"
proof -
  have "run_state_of ''SUCCEEDED'' = Some RS_SUCCEEDED" by (simp add: run_state_of_def)
  then have "reconcile_decision w_env w_decision (w_db ts w_runs cd) = (Some (Inr w_decision), w_db ts w_runs cd)"
    by (simp add: reconcile_decision_def w_decision_def bind_op_def on_runs_def w_db_def w_get lift_service_def w_record give_def
        refreshed_def workflow_terminal_def)
  then have "each_op (each_decision (reconcile_decision w_env)) (mf_stages (w_manifest ts)) (w_db ts w_runs cd) =
      (Some (Inr (mf_stages (w_manifest ts))), w_db ts w_runs cd)"
    by (simp add: w_manifest_def w_array_def w_merge_def example_stage_def each_decision_def bind_op_def give_def)
  moreover have "completed_state (mf_stages (w_manifest ts)) (mf_state (w_manifest ts)) = mf_state (w_manifest ts)"
    by (simp add: completed_state_def w_manifest_def w_merge_def example_stage_def stage_complete_def stage_succeeded_def)
  moreover have "we_service w_env \<noteq> None" "mf_state (w_manifest ts) \<noteq> ''cancelled''" by (simp_all add: w_env_def w_manifest_def)
  ultimately show ?thesis
    unfolding manifest_reconcile_def by (simp add: bind_op_def w_status give_def)
qed

lemma w_prepare: "prepare p_world c_t1 w_merge_request w_rid True w_runs =
    (Inr (rn_record (w_run w_rid ''8'' RS_SUBMITTED w_merge_request)), w_runs)"
proof -
  let ?a = "request_spec w_rid w_merge_request"
  have plain: "spec_parent ?a = None" "spec_plan_id ?a = None" "spec_lineage_reason ?a = None" "spec_run_id ?a = w_rid"
    by (simp_all add: request_spec_def w_merge_request_def p_request_def)
  have "create_run (wo_redact p_world) (wo_repr p_world) c_t1 ?a w_runs = (Inl R_Integrity, w_runs)"
    by (rule create_run_refused [of _ _ 0])
      (use plain run_exists_get [OF w_get(2)] in \<open>simp_all add: child_attempt_def lineage_check_def\<close>)
  moreover have "rc_spec (rn_record (w_run w_rid ''8'' RS_SUBMITTED w_merge_request)) = stored_spec c_t1 0 ?a"
    by (simp add: w_run_def Let_def new_run_row_def)
  ultimately show ?thesis by (simp add: prepare_def Let_def w_get same_content_stored)
qed

definition w_opened :: workflow_stage where
  "w_opened = w_merge\<lparr>sg_decisions := [\<lparr>sd_run_id = w_rid, sd_job_id = Some ''8'',
     sd_digest = request_digest (wo_sha p_world) w_merge_request, sd_run_state = ''SUBMITTED'', sd_submitted = [], sd_reused = [],
     sd_attempt = 0\<rparr>]\<rparr>"

lemma w_submit: "submit_stage w_env (w_manifest w_all) w_merge 0 None [] (w_db w_all w_runs cd) = (Some (Inr w_opened), w_db w_all w_runs cd)"
proof -
  have deps: "all_ok (dependency_run (w_manifest w_all)) (sg_dependencies w_merge) = Inr [''run_1'']"
    by (simp add: w_merge_def example_stage_def dependency_run_def manifest_stage_def w_manifest_def w_array_def w_decision_def)
  have request: "(sg_request w_merge)\<lparr>rq_workflow := stage_workflow (w_manifest w_all) w_merge [''run_1''] 0 [] []\<rparr> = w_merge_request"
    by (simp add: w_merge_request_def w_merge_def example_stage_def)
  have stage_rid: "workflow_stage_id (wo_sha p_world) ''wf'' ''merge'' 0 = Inr w_rid"
    by (simp add: workflow_stage_id_def workflow_run_id_def p_world_def w_rid_def)
  have env: "we_world w_env = p_world" "we_submitted_at w_env sid = c_t1" "we_outside w_env sid = []" for sid
    by (simp_all add: w_env_def)
  have run: "run_stage w_env s_service w_merge_request ''wf'' ''merge'' 0 (w_db w_all w_runs cd) =
      (Some (Inr (rn_record (w_run w_rid ''8'' RS_SUBMITTED w_merge_request))), w_db w_all w_runs cd)"
    by (simp add: run_stage_def submit_workflow_stage_def env stage_rid prepare_and_submit_def w_prepare submit_prepared_def w_record
        w_get w_db_def lift_service_def)
  have "we_service w_env = Some s_service" "mf_workflow_id (w_manifest w_all) = ''wf''" "sg_id w_merge = ''merge''" "sg_kind w_merge = ''merge''"
    "we_world w_env = p_world" "sg_decisions w_merge = []"
    by (simp_all add: w_env_def w_manifest_def w_merge_def example_stage_def)
  then show ?thesis
    by (simp add: submit_stage_def bind_op_def give_def deps request run Let_def w_opened_def w_record)
qed

lemma w_loop: "resume_loop w_env (w_manifest w_all) [] (mf_stages (w_manifest w_all)) (w_db w_all w_runs cd) = (Some (Inr [(w_array w_all), w_opened]), w_db w_all w_runs cd)"
proof -
  have "filter verified (sg_truth (w_array w_all)) = [w_truth 0, w_truth 1]" by (simp add: w_array_def w_all_def w_truth_def verified_def no_text_def)
  then have "verified_tasks (w_array w_all) = {0, 1}" by (simp only: verified_tasks_def) (simp add: w_truth_def)
  then have "merge_gap [(w_array w_all)] = None" "\<not> stage_waits w_merge [(w_array w_all)]"
    by (simp_all add: merge_gap_def) (simp_all add: w_array_def stage_waits_def stage_failed_def stage_succeeded_def w_decision_def)
  moreover have "find_stage [(w_array w_all), w_merge] ''parts'' = Inr (w_array w_all)" by (simp add: find_stage_def w_array_def)
  moreover have "sg_dependencies w_merge = [''parts'']" "sg_kind w_merge = ''merge''" "sg_decisions w_merge = []" "sg_decisions (w_array w_all) \<noteq> []"
    "mf_stages (w_manifest w_all) = [(w_array w_all), w_merge]"
    by (simp_all add: w_merge_def example_stage_def w_array_def w_manifest_def)
  moreover have "(w_manifest w_all)\<lparr>mf_stages := [(w_array w_all), w_merge]\<rparr> = (w_manifest w_all)" by (simp add: w_manifest_def)
  with w_submit have "submit_stage w_env ((w_manifest w_all)\<lparr>mf_stages := [(w_array w_all), w_merge]\<rparr>) w_merge 0 None [] (w_db w_all w_runs cd) =
      (Some (Inr w_opened), w_db w_all w_runs cd)" by simp
  ultimately show ?thesis by (simp add: bind_op_def give_def)
qed

lemma resume_opens_through_gates_witness:
  "\<forall>cd. \<exists>mf' db'. manifest_resume w_env ''wf'' ''ann'' (w_db w_all w_runs cd) = (Some (Inr mf'), db') \<and> mf_stages mf' = [(w_array w_all), w_opened] \<and>
     list_all2 (opened (mf_stages mf')) [(w_array w_all), w_merge] (mf_stages mf')"
proof
  fix cd
  let ?mf = "(w_manifest w_all)\<lparr>mf_stages := [(w_array w_all), w_opened], mf_state := ''running''\<rparr>"
  have facts: "mf_state (w_manifest w_all) = ''running''" "mf_version (w_manifest w_all) = 1" "mf_stages (w_manifest w_all) = [(w_array w_all), w_merge]"
    "\<exists>y. we_service w_env = Some y" "sg_decisions (w_array w_all) \<noteq> []"
    by (simp_all add: w_manifest_def w_env_def w_array_def)
  have "completed_state [(w_array w_all), w_opened] ''running'' = ''running''"
    by (simp add: completed_state_def stage_complete_def stage_succeeded_def w_opened_def w_merge_def example_stage_def)
  moreover have "?mf \<noteq> (w_manifest w_all)" by (simp add: w_manifest_def w_opened_def w_merge_def example_stage_def)
  moreover have "stages_ok ?mf"
    by (simp add: stages_ok_def w_opened_def w_array_def w_merge_def example_stage_def stage_error_def w_request_ok)
  with manifest_survives_save [where mf = ?mf and v = 1 and db = "w_db w_all w_runs cd" and r = "w_row w_all" and env = w_env and n = 1 and env' = w_env]
    w_table [of w_all w_runs cd]
  obtain db' where save: "manifest_save w_env 1 ?mf 1 (w_db w_all w_runs cd) = (Some (Inr (stored_manifest ?mf 2)), db')"
    by (auto simp: w_manifest_def manifest_at_def w_row_def)
  ultimately have resume: "manifest_resume w_env ''wf'' ''ann'' (w_db w_all w_runs cd) = (Some (Inr (stored_manifest ?mf 2)), db')"
    using w_loop [of cd] by (simp add: manifest_resume_def bind_op_def w_status w_reconcile facts give_def Let_def)
  have "mf_stages (stored_manifest ?mf 2) = [(w_array w_all), w_opened]"
    by (simp add: stored_manifest_def stored_stage_def stored_request_def w_array_def w_opened_def w_merge_def example_stage_def p_request_def)
  with resume_opens_through_gates [OF w_table(1) w_status _ w_reconcile resume] resume facts
  show "\<exists>mf' db'. manifest_resume w_env ''wf'' ''ann'' (w_db w_all w_runs cd) = (Some (Inr mf'), db') \<and> mf_stages mf' = [(w_array w_all), w_opened] \<and>
     list_all2 (opened (mf_stages mf')) [(w_array w_all), w_merge] (mf_stages mf')" by auto
qed

section \<open>A closed gate\<close>

text \<open>A merge whose dependencies have all succeeded, one of them an array with a task that is not verified.\<close>

definition gate_closed :: "workflow_stage list \<Rightarrow> workflow_stage \<Rightarrow> bool" where
  "gate_closed stages s \<longleftrightarrow> sg_kind s = ''merge'' \<and> sg_decisions s = [] \<and>
     (\<forall>i \<in> set (sg_dependencies s). \<exists>q \<in> set stages. sg_id q = i \<and> stage_succeeded q) \<and>
     (\<exists>q \<in> set stages. sg_id q \<in> set (sg_dependencies s) \<and> stage_succeeded q \<and> sg_kind q = ''array'' \<and>
        \<not> set (sg_tasks q) \<subseteq> verified_tasks q)"

lemma succeeded_decided: "stage_succeeded q \<Longrightarrow> sg_decisions q \<noteq> [] \<and> \<not> stage_failed q"
  by (auto simp: stage_succeeded_def stage_failed_def)

lemma merge_gap_Some: "q \<in> set ds \<Longrightarrow> sg_kind q = ''array'' \<Longrightarrow> \<not> set (sg_tasks q) \<subseteq> verified_tasks q \<Longrightarrow> merge_gap ds \<noteq> None"
  using merge_gap_None by blast

lemma gate_closed_raises:
  assumes "gate_closed stages s" and "distinct (map sg_id stages)" and "all_ok (find_stage stages) (sg_dependencies s) = Inr ds"
  shows "\<not> stage_waits s ds \<and> merge_gap ds \<noteq> None"
proof -
  have same: "d = q" if "d \<in> set stages" "q \<in> set stages" "sg_id d = sg_id q" for d q
    using that assms(2) by (auto simp: distinct_map inj_on_def)
  have "stage_succeeded d" if "d \<in> set ds" for d
  proof -
    from all_ok_source [OF assms(3) that] obtain i where i: "i \<in> set (sg_dependencies s)" "find_stage stages i = Inr d" by blast
    from assms(1) i(1) obtain q where "q \<in> set stages" "sg_id q = i" "stage_succeeded q" by (auto simp: gate_closed_def)
    with same [of d q] find_stage_Inr [OF i(2)] show ?thesis by simp
  qed
  then have "\<not> stage_waits s ds" using succeeded_decided by (auto simp: stage_waits_def)
  moreover from assms(1) obtain q where q: "q \<in> set stages" "sg_id q \<in> set (sg_dependencies s)" "sg_kind q = ''array''"
      "\<not> set (sg_tasks q) \<subseteq> verified_tasks q" by (auto simp: gate_closed_def)
  from all_ok_found [OF assms(3) q(2)] obtain d where "d \<in> set ds" "find_stage stages (sg_id q) = Inr d" by blast
  with find_stage_Inr [of stages "sg_id q" d] same [of d q] q(1) have "q \<in> set ds" by simp
  from merge_gap_Some [OF this q(3,4)] have "merge_gap ds \<noteq> None" .
  ultimately show ?thesis by blast
qed

lemma gate_closed_other:
  assumes "gate_closed (us @ x # vs) s" and "sg_decisions x = []"
  shows "gate_closed (us @ y # vs) s"
proof -
  have "q \<in> set (us @ y # vs)" if "q \<in> set (us @ x # vs)" "stage_succeeded q" for q
    using that assms(2) succeeded_decided by auto
  with assms(1) show ?thesis unfolding gate_closed_def by (elim conjE, intro conjI) blast+
qed

lemma bind_op_not_Inr:
  assumes "\<And>x db1. f db = (Some (Inr x), db1) \<Longrightarrow> fst (g x db1) \<noteq> Some (Inr y)"
  shows "fst (bind_op f g db) \<noteq> Some (Inr y)"
  using assms by (auto simp: bind_op_def split: prod.splits option.splits sum.splits)

lemma submit_stage_id: "submit_stage env mf s n ts reused db = (Some (Inr s'), db') \<Longrightarrow> sg_id s' = sg_id s"
  by (auto simp: submit_stage_def give_Inr Let_def split: option.splits elim!: bind_op_Inr)

lemma resume_loop_blocked:
  assumes "distinct (map sg_id (visited @ rest))" and "s \<in> set rest" and "gate_closed (visited @ rest) s"
  shows "fst (resume_loop env mf visited rest db) \<noteq> Some (Inr stages)"
  using assms
proof (induction rest arbitrary: visited db)
  case (Cons x rest)
  have skip: "fst (resume_loop env mf (visited @ [x]) rest db) \<noteq> Some (Inr stages)" if "x \<noteq> s"
    using Cons.IH [of "visited @ [x]" db] Cons.prems that by simp
  show ?case
  proof (cases "sg_decisions x = []")
    case False
    with Cons.prems(3) have "x \<noteq> s" by (auto simp: gate_closed_def)
    with False skip show ?thesis by simp
  next
    case True
    have "fst ((if stage_waits x ds then resume_loop env mf (visited @ [x]) rest
          else if sg_kind x = ''merge'' \<and> merge_gap ds \<noteq> None then give (Inl (the (merge_gap ds)))
          else bind_op (submit_stage env (mf\<lparr>mf_stages := visited @ x # rest\<rparr>) x 0 None [])
            (\<lambda>x'. resume_loop env mf (visited @ [x']) rest)) db) \<noteq> Some (Inr stages)"
      if found: "all_ok (find_stage (visited @ x # rest)) (sg_dependencies x) = Inr ds" for ds
    proof (cases "x = s")
      case True
      with gate_closed_raises [of "visited @ x # rest" s ds] Cons.prems found have "\<not> stage_waits x ds \<and> merge_gap ds \<noteq> None"
        "sg_kind x = ''merge''" by (auto simp: gate_closed_def)
      then show ?thesis by (simp add: give_def)
    next
      case False
      have "fst (resume_loop env mf (visited @ [x']) rest db1) \<noteq> Some (Inr stages)" if "sg_id x' = sg_id x" for x' db1
        using Cons.IH [of "visited @ [x']" db1] Cons.prems False that gate_closed_other [OF Cons.prems(3) True, of x'] by simp
      then show ?thesis using skip False by (auto simp: give_def intro!: bind_op_not_Inr dest: submit_stage_id)
    qed
    with True show ?thesis by (auto simp: give_Inr intro!: bind_op_not_Inr)
  qed
qed simp

text \<open>A closed gate blocks the whole workflow: while some merge stage waits only for the artifacts of an array that has
  succeeded, \<open>resume\<close> never returns, whatever else it could do. It raises the gate's error after having submitted the
  stages before the merge, and saves nothing: their Runs exist, their decisions are not recorded, and the stages
  after the merge, which do not depend on it, are not submitted at all.\<close>

theorem closed_gate_blocks_resume:
  assumes "manifest_status env wid actor db = (Some (Inr first), db)" and "mf_state first \<notin> {''cancelled'', ''completed''}"
    and "manifest_reconcile env wid actor db = (Some (Inr mf), db1)"
    and "distinct (map sg_id (mf_stages mf))" and "s \<in> set (mf_stages mf)" and "gate_closed (mf_stages mf) s"
  shows "fst (manifest_resume env wid actor db) \<noteq> Some (Inr mf')
    \<and> (we_service env \<noteq> None \<longrightarrow> wf_table (snd (manifest_resume env wid actor db)) = wf_table db1)"
proof (cases "we_service env = None")
  case True
  with assms(1,2) show ?thesis by (simp add: manifest_resume_def bind_op_def give_def)
next
  case False
  obtain r db2 where loop: "resume_loop env mf [] (mf_stages mf) db1 = (r, db2)" by fastforce
  have "r \<noteq> Some (Inr x)" for x using resume_loop_blocked [of "[]" "mf_stages mf" s env mf db1 x] assms(4-6) loop by simp
  moreover have "wf_table db2 = wf_table db1"
    using keeps_resume_loop [of env mf "[]" "mf_stages mf"] loop unfolding keeps_table_def by (metis snd_conv)
  ultimately show ?thesis
    using assms(1-3) loop False by (cases r) (auto simp: manifest_resume_def bind_op_def give_def split: sum.splits)
qed

lemma w_half_verified: "verified_tasks (w_array [w_truth 0]) = {0}"
proof -
  have "filter verified (sg_truth (w_array [w_truth 0])) = [w_truth 0]" by (simp add: w_array_def w_truth_def verified_def no_text_def)
  then show ?thesis by (simp only: verified_tasks_def) (simp add: w_truth_def)
qed

lemma closed_gate_blocks_resume_witness:
  "\<forall>cd mf'. gate_closed (mf_stages (w_manifest [w_truth 0])) w_merge \<and>
     fst (manifest_resume w_env ''wf'' ''ann'' (w_db [w_truth 0] w_runs cd)) \<noteq> Some (Inr mf')"
proof (intro allI)
  fix cd mf'
  let ?mf = "w_manifest [w_truth 0]"
  have stages: "mf_stages ?mf = [w_array [w_truth 0], w_merge]" "mf_state ?mf = ''running''" by (simp_all add: w_manifest_def)
  have parts: "sg_id (w_array [w_truth 0]) = ''parts''" "sg_kind (w_array [w_truth 0]) = ''array''" "set (sg_tasks (w_array [w_truth 0])) = {0, 1}"
    "stage_succeeded (w_array [w_truth 0])"
    by (simp_all add: w_array_def stage_succeeded_def w_decision_def)
  have merge: "sg_id w_merge = ''merge''" "sg_kind w_merge = ''merge''" "sg_decisions w_merge = []" "sg_dependencies w_merge = [''parts'']"
    by (simp_all add: w_merge_def example_stage_def)
  have "gate_closed (mf_stages ?mf) w_merge" using parts merge w_half_verified by (simp add: gate_closed_def stages)
  with closed_gate_blocks_resume [where s = w_merge and mf' = mf', OF w_status _ w_reconcile] stages parts merge
  show "gate_closed (mf_stages ?mf) w_merge \<and> fst (manifest_resume w_env ''wf'' ''ann'' (w_db [w_truth 0] w_runs cd)) \<noteq> Some (Inr mf')"
    by simp
qed

section \<open>Recovery\<close>

lemma stage_error_tasks: "stage_error s = None \<Longrightarrow> distinct (sg_tasks s)"
  unfolding stage_error_def first_failure_None by simp

lemma plan_recovery_of:
  assumes "plan_recovery_loop ss = Inr p" and "\<And>s. s \<in> set ss \<Longrightarrow> distinct (sg_tasks s)"
  shows "\<exists>s \<in> set ss. sg_id s = rv_stage p \<and> sg_kind s = ''array'' \<and> stage_succeeded s \<and>
     rv_missing p = filter (\<lambda>t. t \<notin> verified_tasks s) (sg_tasks s) \<and> rv_missing p \<noteq> [] \<and>
     rv_reuses p = filter (\<lambda>t. t \<in> verified_tasks s) (sg_tasks s) \<and>
     read_expression (rv_expression p) = Some (sort (rv_missing p)) \<and>
     rv_attempt p \<le> 3 \<and> (\<forall>d \<in> set (sg_decisions s). sd_attempt d < rv_attempt p)"
  using assms
proof (induction ss)
  case (Cons s ss)
  let ?missing = "filter (\<lambda>t. t \<notin> verified_tasks s) (sg_tasks s)"
  show ?case
  proof (cases "sg_kind s \<noteq> ''array'' \<or> sg_decisions s = [] \<or> \<not> stage_succeeded s \<or> ?missing = []")
    case True
    with Cons.prems(1) have "plan_recovery_loop ss = Inr p" by (simp only: plan_recovery_loop.simps Let_def if_True)
    with Cons show ?thesis by auto
  next
    case False
    with Cons.prems(1) obtain e where e: "compress_array_tasks ?missing = Inr e" "\<not> 3 < Max (sd_attempt ` set (sg_decisions s)) + 1"
      and p: "p = \<lparr>rv_stage = sg_id s, rv_expression = e, rv_missing = ?missing,
            rv_reuses = filter (\<lambda>t. t \<in> verified_tasks s) (sg_tasks s), rv_attempt = Max (sd_attempt ` set (sg_decisions s)) + 1\<rparr>"
      by (auto simp only: plan_recovery_loop.simps Let_def if_False bind_res_Inr_iff sum.inject split: if_splits)
    have "distinct ?missing" using Cons.prems(2) by simp
    with compress_exact [of ?missing] e(1) have "read_expression e = Some (sort ?missing)"
      by (simp add: distinct_remdups_id)
    moreover define m where "m = Max (sd_attempt ` set (sg_decisions s)) + 1"
    moreover have "sd_attempt d < m" if "d \<in> set (sg_decisions s)" for d
      using that Max_ge [of "sd_attempt ` set (sg_decisions s)" "sd_attempt d"] unfolding m_def by simp
    moreover have "m \<le> 3" using e(2) unfolding m_def by (rule leI)
    moreover have "p = \<lparr>rv_stage = sg_id s, rv_expression = e, rv_missing = ?missing,
        rv_reuses = filter (\<lambda>t. t \<in> verified_tasks s) (sg_tasks s), rv_attempt = m\<rparr>" unfolding p m_def by (rule refl)
    ultimately show ?thesis using False by (intro bexI [of _ s]) simp_all
  qed
qed simp


definition w_plan :: recovery_plan where
  "w_plan = \<lparr>rv_stage = ''parts'', rv_expression = int_text 1, rv_missing = [1], rv_reuses = [0], rv_attempt = 1\<rparr>"

lemma w_recovery: "plan_recovery_loop (mf_stages (w_manifest [w_truth 0])) =
    Inr w_plan"
proof -
  have "compress_array_tasks [1] = Inr (int_text 1)" by (simp add: compress_array_tasks_def range_text_def)
  moreover have "sg_kind (w_array [w_truth 0]) = ''array''" "sg_id (w_array [w_truth 0]) = ''parts''" "sg_tasks (w_array [w_truth 0]) = [0, 1]"
    "sg_decisions (w_array [w_truth 0]) = [w_decision]" "sd_attempt w_decision = 0" "stage_succeeded (w_array [w_truth 0])"
    by (simp_all add: w_array_def w_decision_def stage_succeeded_def)
  ultimately show ?thesis by (simp add: w_manifest_def w_half_verified w_plan_def)
qed



definition w_cancelled :: workflow_manifest where
  "w_cancelled = (w_manifest [w_truth 0])\<lparr>mf_state := ''cancelled'', mf_cancelled_by := Some ''ann''\<rparr>"

definition w_cancelled_db :: "run_db \<Rightarrow> control_db \<Rightarrow> workflow_db" where
  "w_cancelled_db rd cd = \<lparr>wf_table = [(w_row [])\<lparr>mr_json := canonical (manifest_payload w_cancelled)\<rparr>], wf_control = cd, wf_runs = rd\<rparr>"


end
