(* ===== verification/AgentSessions.thy ===== *)
theory AgentSessions
  imports RunStore ControlRepo
begin

text \<open>
  \<open>agent/session.py\<close> and the SQLite store of \<open>agent/store.py\<close>: Sessions, their Turns with leases, the event log of
  a Turn and its tool invocations. A raise rolls the transaction back, a return commits it. JSON columns hold the
  canonical value; \<open>sha\<close> is the hash of the message. Where the code reads the clock twice (for the present and for
  the end of the lease) there are two arguments.
\<close>

section \<open>Records\<close>

datatype session_state = SE_IDLE | SE_QUEUED | SE_RUNNING

datatype turn_state = TU_QUEUED | TU_RUNNING | TU_INTERRUPTED | TU_COMPLETED | TU_CANCELLED | TU_FAILED

definition terminal_turn_states :: "turn_state set" where
  "terminal_turn_states = {TU_COMPLETED, TU_CANCELLED, TU_FAILED}"

datatype agent_error =
  A_Conflict string | A_Invariant string | A_Value string | A_Key string | A_Type string | A_Runtime string | A_Overflow | A_Integrity

record agent_session =
  se_id :: string
  se_owner :: string
  se_request :: string
  se_profile :: string
  se_model :: string
  se_source :: json
  se_state :: session_state
  se_version :: int
  se_checkpoint :: "json option"
  se_usage :: json
  se_outcome :: "json option"
  se_created_at :: string
  se_updated_at :: string

record agent_turn =
  tu_id :: string
  tu_session :: string
  tu_owner :: string
  tu_request :: string
  tu_digest :: string
  tu_message :: string
  tu_version :: int
  tu_state :: turn_state
  tu_cancel :: bool
  tu_lease_owner :: "string option"
  tu_lease_expires :: "string option"
  tu_token :: int
  tu_sequence :: int
  tu_checkpoint :: "json option"
  tu_error :: "json option"
  tu_created_at :: string
  tu_started_at :: "string option"
  tu_finished_at :: "string option"

record turn_lease =
  le_turn :: string
  le_session :: string
  le_owner :: string
  le_worker :: string
  le_version :: int
  le_token :: int
  le_expires :: string

record turn_event =
  ev_id :: int
  ev_turn :: string
  ev_session :: string
  ev_owner :: string
  ev_sequence :: int
  ev_type :: string
  ev_payload :: json
  ev_created_at :: string

datatype invocation_state = IN_RUNNING | IN_COMPLETED | IN_FAILED

record tool_invocation =
  in_id :: string
  in_key :: string
  in_turn :: string
  in_session :: string
  in_owner :: string
  in_tool :: string
  in_digest :: string
  in_state :: invocation_state
  in_result :: "json option"
  in_error :: "json option"
  in_bytes :: int
  in_created_at :: string
  in_updated_at :: string

record tool_usage =
  tg_invocations :: int
  tg_bytes :: int
  tg_commands :: int

record agent_db =
  ad_sessions :: "agent_session list"
  ad_turns :: "agent_turn list"
  ad_events :: "turn_event list"
  ad_event_seq :: int  \<comment> \<open>the last \<open>event_id\<close> SQLite generated\<close>
  ad_invocations :: "tool_invocation list"

definition empty_agent_db :: agent_db where
  "empty_agent_db = \<lparr>ad_sessions = [], ad_turns = [], ad_events = [], ad_event_seq = 0, ad_invocations = []\<rparr>"

type_synonym 'a agent_call = "(agent_error, 'a) result \<times> agent_db"

section \<open>Checks\<close>

definition checked_call :: "(bool \<times> agent_error) list \<Rightarrow> (agent_db \<Rightarrow> 'a agent_call) \<Rightarrow> agent_db \<Rightarrow> 'a agent_call" where
  "checked_call cs f db = (case first_failure cs of Some e \<Rightarrow> (Inl e, db) | None \<Rightarrow> f db)"

definition turn_message_ok :: "string \<Rightarrow> bool" where
  "turn_message_ok m \<longleftrightarrow> \<not> list_all space_char m \<and> length m \<le> 65536 \<and> CHR 0x00 \<notin> set m"

definition page_limit_ok :: "int \<Rightarrow> int \<Rightarrow> bool" where
  "page_limit_ok maximum n \<longleftrightarrow> 0 < n \<and> n \<le> maximum"

definition optional_object :: "json option \<Rightarrow> bool" where
  "optional_object v \<longleftrightarrow> (case v of None \<Rightarrow> True | Some x \<Rightarrow> is_object x)"

section \<open>Sessions\<close>

definition new_session :: "datetime \<Rightarrow> string \<Rightarrow> string \<Rightarrow> string \<Rightarrow> string \<Rightarrow> string \<Rightarrow> json \<Rightarrow> agent_session" where
  "new_session now sid owner request_key profile model source =
     \<lparr>se_id = sid, se_owner = owner, se_request = request_key, se_profile = profile, se_model = model,
      se_source = canonical source, se_state = SE_IDLE, se_version = 1, se_checkpoint = None, se_usage = JObj [],
      se_outcome = None, se_created_at = isoformat now, se_updated_at = isoformat now\<rparr>"

definition session_clash :: "agent_session \<Rightarrow> agent_session \<Rightarrow> bool" where
  "session_clash a b \<longleftrightarrow> se_id a = se_id b \<or> se_owner a = se_owner b \<and> se_request a = se_request b"

definition create_session ::
    "datetime \<Rightarrow> string \<Rightarrow> string \<Rightarrow> string \<Rightarrow> string \<Rightarrow> string \<Rightarrow> json \<Rightarrow> agent_db \<Rightarrow> (agent_session \<times> bool) agent_call" where
  "create_session now fresh owner request_key profile model source = checked_call
     [(ref_ok owner, A_Value ''owner''), (ref_ok request_key, A_Value ''request_key''), (ref_ok profile, A_Value ''profile_id''),
      (ref_ok model, A_Value ''model_profile_id''), (is_object source, A_Type ''source'')]
     (\<lambda>db.
        let row = new_session now (''session-'' @ fresh) owner request_key profile model source;
            created = (\<forall>s \<in> set (ad_sessions db). \<not> session_clash s row);
            db' = db\<lparr>ad_sessions := insert_ignore session_clash row (ad_sessions db)\<rparr>
        in (case fetchone (\<lambda>s. se_owner s = owner \<and> se_request s = request_key) (ad_sessions db') of
              None \<Rightarrow> Inl (A_Runtime ''session insert'')
            | Some s \<Rightarrow>
                if se_profile s \<noteq> profile \<or> se_model s \<noteq> model \<or> se_source s \<noteq> canonical source
                then Inl (A_Conflict ''request_key'') else Inr (s, created), db'))"

definition get_session :: "string \<Rightarrow> string \<Rightarrow> agent_db \<Rightarrow> (agent_error, agent_session) result" where
  "get_session sid owner db = checked [(ref_ok sid, A_Value ''session_id''), (ref_ok owner, A_Value ''owner'')]
     (case fetchone (\<lambda>s. se_id s = sid \<and> se_owner s = owner) (ad_sessions db) of
        None \<Rightarrow> Inl (A_Key sid) | Some s \<Rightarrow> Inr s)"

text \<open>The cursor of a page: \<open>updated_at|session_id\<close>, split at the last bar. \<open>iso_ok\<close> is \<open>datetime.fromisoformat\<close>
  with a time zone.\<close>

definition encode_cursor :: "string \<Rightarrow> string \<Rightarrow> string" where
  "encode_cursor updated_at sid = updated_at @ ''|'' @ sid"

fun rsplit_bar :: "string \<Rightarrow> (string \<times> string) option" where
  \<comment> \<open>\<open>value.rsplit("|", 1)\<close>, \<open>None\<close> when it is not two parts\<close>
  "rsplit_bar [] = None"
| "rsplit_bar (c # cs) =
     (case rsplit_bar cs of
        Some (a, b) \<Rightarrow> Some (c # a, b)
      | None \<Rightarrow> if c = CHR ''|'' then Some ([], cs) else None)"

definition decode_cursor :: "(string \<Rightarrow> bool) \<Rightarrow> string \<Rightarrow> (agent_error, string \<times> string) result" where
  "decode_cursor iso_ok v =
     (case rsplit_bar v of
        None \<Rightarrow> Inl (A_Value ''before cursor'')
      | Some (u, i) \<Rightarrow>
          checked [(iso_ok u, A_Value ''before cursor''), (ref_ok i, A_Value ''before session_id'')] (Inr (u, i)))"

definition session_before :: "(string \<times> string) option \<Rightarrow> agent_session \<Rightarrow> bool" where
  "session_before before s \<longleftrightarrow>
     (case before of None \<Rightarrow> True
      | Some (u, i) \<Rightarrow> se_updated_at s < u \<or> se_updated_at s = u \<and> se_id s < i)"

definition list_sessions_page ::
    "(string \<Rightarrow> bool) \<Rightarrow> string \<Rightarrow> session_state set \<Rightarrow> string option \<Rightarrow> int \<Rightarrow> agent_db
      \<Rightarrow> (agent_error, agent_session list \<times> string option) result" where
  "list_sessions_page iso_ok owner states before limit db =
     checked [(ref_ok owner, A_Value ''owner''), (page_limit_ok 100 limit, A_Value ''limit'')]
       (bind_res (case before of None \<Rightarrow> Inr None | Some v \<Rightarrow> bind_res (decode_cursor iso_ok v) (\<lambda>c. Inr (Some c))) (\<lambda>bound.
          let rows = take (nat limit + 1) (rev (sort_key (\<lambda>s. (se_updated_at s, se_id s))
                (filter (\<lambda>s. se_owner s = owner \<and> (states = {} \<or> se_state s \<in> states) \<and> session_before bound s)
                  (ad_sessions db))));
              records = take (nat limit) rows
          in Inr (records,
               if nat limit < length rows \<and> records \<noteq> []
               then Some (encode_cursor (se_updated_at (last records)) (se_id (last records))) else None)))"

text \<open>The update that moves a Session on; it takes effect only from the given states.\<close>

definition move_session ::
    "string \<Rightarrow> string \<Rightarrow> session_state set \<Rightarrow> (agent_session \<Rightarrow> agent_session) \<Rightarrow> string \<Rightarrow> agent_db \<Rightarrow> unit agent_call" where
  "move_session sid owner from_states f refused db =
     (case fetchone (\<lambda>s. se_id s = sid \<and> se_owner s = owner) (ad_sessions db) of
        None \<Rightarrow> (Inl (A_Invariant ''Turn refers to a missing Session''), db)
      | Some s0 \<Rightarrow>
          let p = (\<lambda>s. se_id s = sid \<and> se_owner s = owner \<and> se_version s = se_version s0 \<and> se_state s \<in> from_states)
          in if rowcount p (ad_sessions db) \<noteq> 1 then (Inl (A_Conflict refused), db)
             else (Inr (), db\<lparr>ad_sessions := sql_update p f (ad_sessions db)\<rparr>))"

section \<open>Turns\<close>

definition new_turn :: "(string \<Rightarrow> string) \<Rightarrow> datetime \<Rightarrow> string \<Rightarrow> string \<Rightarrow> string \<Rightarrow> string \<Rightarrow> string \<Rightarrow> agent_turn" where
  "new_turn sha now tid sid owner request_key message =
     \<lparr>tu_id = tid, tu_session = sid, tu_owner = owner, tu_request = request_key, tu_digest = ''sha256:'' @ sha message,
      tu_message = message, tu_version = 1, tu_state = TU_QUEUED, tu_cancel = False, tu_lease_owner = None,
      tu_lease_expires = None, tu_token = 0, tu_sequence = 0, tu_checkpoint = None, tu_error = None,
      tu_created_at = isoformat now, tu_started_at = None, tu_finished_at = None\<rparr>"

definition session_due :: "string \<Rightarrow> string \<Rightarrow> int \<Rightarrow> agent_session \<Rightarrow> bool" where
  "session_due sid owner version s \<longleftrightarrow> se_id s = sid \<and> se_owner s = owner \<and> se_state s = SE_IDLE \<and> se_version s = version"

definition upd_session :: "datetime \<Rightarrow> session_state \<Rightarrow> agent_session \<Rightarrow> agent_session" where
  "upd_session now state s = s\<lparr>se_state := state, se_version := se_version s + 1, se_updated_at := isoformat now\<rparr>"

definition create_turn ::
    "(string \<Rightarrow> string) \<Rightarrow> datetime \<Rightarrow> string \<Rightarrow> string \<Rightarrow> string \<Rightarrow> string \<Rightarrow> string \<Rightarrow> int \<Rightarrow> agent_db
      \<Rightarrow> (agent_turn \<times> bool) agent_call" where
  "create_turn sha now fresh sid owner request_key message expected_version = checked_call
     [(ref_ok sid, A_Value ''session_id''), (ref_ok owner, A_Value ''owner''), (ref_ok request_key, A_Value ''request_key''),
      (turn_message_ok message, A_Value ''message''), (0 < expected_version, A_Value ''expected_state_version'')]
     (\<lambda>db.
        case fetchone (\<lambda>t. tu_session t = sid \<and> tu_request t = request_key) (ad_turns db) of
          Some t \<Rightarrow>
            (if tu_owner t \<noteq> owner \<or> tu_digest t \<noteq> ''sha256:'' @ sha message \<or> tu_message t \<noteq> message
             then Inl (A_Conflict ''request_key'') else Inr (t, False), db)
        | None \<Rightarrow>
            (case fetchone (\<lambda>s. se_id s = sid \<and> se_owner s = owner) (ad_sessions db) of
               None \<Rightarrow> (Inl (A_Key sid), db)
             | Some s \<Rightarrow>
                 if se_version s \<noteq> expected_version \<or> se_state s \<noteq> SE_IDLE then (Inl (A_Conflict ''stale or not idle''), db)
                 else if rowcount (session_due sid owner expected_version) (ad_sessions db) \<noteq> 1
                 then (Inl (A_Conflict ''Session state changed''), db)
                 else if \<exists>t \<in> set (ad_turns db). tu_id t = ''turn-'' @ fresh then (Inl A_Integrity, db)
                 else
                   (let row = new_turn sha now (''turn-'' @ fresh) sid owner request_key message
                    in (Inr (row, True),
                        db\<lparr>ad_sessions := sql_update (session_due sid owner expected_version) (upd_session now SE_QUEUED) (ad_sessions db),
                           ad_turns := ad_turns db @ [row]\<rparr>))))"

definition get_turn :: "string \<Rightarrow> string \<Rightarrow> agent_db \<Rightarrow> (agent_error, agent_turn) result" where
  "get_turn tid owner db = checked [(ref_ok tid, A_Value ''turn_id''), (ref_ok owner, A_Value ''owner'')]
     (case fetchone (\<lambda>t. tu_id t = tid \<and> tu_owner t = owner) (ad_turns db) of None \<Rightarrow> Inl (A_Key tid) | Some t \<Rightarrow> Inr t)"

definition get_turn_for_dispatch :: "string \<Rightarrow> agent_db \<Rightarrow> (agent_error, agent_turn) result" where
  "get_turn_for_dispatch tid db = checked [(ref_ok tid, A_Value ''turn_id'')]
     (case fetchone (\<lambda>t. tu_id t = tid) (ad_turns db) of None \<Rightarrow> Inl (A_Key tid) | Some t \<Rightarrow> Inr t)"

subsection \<open>Leases\<close>

definition turn_claimable :: "string \<Rightarrow> agent_turn \<Rightarrow> bool" where
  "turn_claimable now t \<longleftrightarrow> tu_state t \<in> {TU_QUEUED, TU_INTERRUPTED} \<or>
     tu_state t = TU_RUNNING \<and> (case tu_lease_expires t of None \<Rightarrow> False | Some e \<Rightarrow> e \<le> now)"

definition upd_turn_claim :: "string \<Rightarrow> string \<Rightarrow> string \<Rightarrow> int \<Rightarrow> agent_turn \<Rightarrow> agent_turn" where
  "upd_turn_claim now worker expires token t =
     t\<lparr>tu_state := TU_RUNNING, tu_version := tu_version t + 1, tu_lease_owner := Some worker, tu_lease_expires := Some expires,
       tu_token := token, tu_started_at := coalesce (tu_started_at t) (Some now), tu_finished_at := None\<rparr>"

definition lease_of :: "agent_turn \<Rightarrow> (agent_error, turn_lease) result" where
  "lease_of t =
     (case (tu_lease_owner t, tu_lease_expires t) of
        (Some w, Some e) \<Rightarrow> Inr \<lparr>le_turn = tu_id t, le_session = tu_session t, le_owner = tu_owner t, le_worker = w,
          le_version = tu_version t, le_token = tu_token t, le_expires = e\<rparr>
      | _ \<Rightarrow> Inl (A_Invariant ''claimed Turn has no lease''))"

text \<open>The unique index on the owner of a running Turn: a violation rolls back and the call returns \<open>None\<close>.\<close>

definition owner_busy :: "agent_turn \<Rightarrow> agent_db \<Rightarrow> bool" where
  "owner_busy t db \<longleftrightarrow> (\<exists>u \<in> set (ad_turns db). tu_id u \<noteq> tu_id t \<and> tu_owner u = tu_owner t \<and> tu_state u = TU_RUNNING)"

definition claim_turn ::
    "datetime \<Rightarrow> datetime \<Rightarrow> string \<Rightarrow> string \<Rightarrow> int \<Rightarrow> agent_db \<Rightarrow> turn_lease option agent_call" where
  "claim_turn now base tid worker lease_seconds = checked_call
     [(ref_ok tid, A_Value ''turn_id''), (ref_ok worker, A_Value ''worker_id''), (0 < lease_seconds, A_Value ''lease_seconds''),
      (after_seconds lease_seconds base \<noteq> None, A_Overflow)]
     (\<lambda>db.
        case fetchone (\<lambda>t. tu_id t = tid \<and> turn_claimable (isoformat now) t) (ad_turns db) of
          None \<Rightarrow> (Inr None, db)
        | Some t \<Rightarrow>
            if owner_busy t db then (Inr None, db)
            else
              (let p = (\<lambda>u. tu_id u = tid \<and> tu_version u = tu_version t \<and> tu_token u = tu_token t \<and> turn_claimable (isoformat now) u);
                   f = upd_turn_claim (isoformat now) worker (the (after_seconds lease_seconds base)) (tu_token t + 1)
               in if rowcount p (ad_turns db) \<noteq> 1 then (Inl (A_Conflict ''claimed concurrently''), db)
                  else
                    (case move_session (tu_session t) (tu_owner t) {SE_QUEUED, SE_RUNNING} (upd_session now SE_RUNNING)
                            ''Session changed while claiming Turn'' (db\<lparr>ad_turns := sql_update p f (ad_turns db)\<rparr>) of
                       (Inl e, _) \<Rightarrow> (Inl e, db)
                     | (Inr _, db') \<Rightarrow>
                         (case fetchone (\<lambda>u. tu_id u = tid) (ad_turns db') of
                            None \<Rightarrow> (Inl (A_Runtime ''claimed Turn disappeared''), db')
                          | Some u \<Rightarrow> (bind_res (lease_of u) (\<lambda>l. Inr (Some l)), db')))))"

text \<open>The condition under which a write of a claim is accepted; \<open>renew\<close> and \<open>append_event\<close> also want the lease to be live.\<close>

definition turn_held :: "turn_lease \<Rightarrow> agent_turn \<Rightarrow> bool" where
  "turn_held l t \<longleftrightarrow> tu_id t = le_turn l \<and> tu_state t = TU_RUNNING \<and> tu_lease_owner t = Some (le_worker l) \<and> tu_token t = le_token l"

definition lease_live :: "string \<Rightarrow> agent_turn \<Rightarrow> bool" where
  "lease_live now t \<longleftrightarrow> (case tu_lease_expires t of None \<Rightarrow> False | Some e \<Rightarrow> now < e)"

definition renew_turn :: "datetime \<Rightarrow> datetime \<Rightarrow> turn_lease \<Rightarrow> int \<Rightarrow> agent_db \<Rightarrow> turn_lease agent_call" where
  "renew_turn now base l lease_seconds = checked_call
     [(0 < lease_seconds, A_Value ''lease_seconds''), (after_seconds lease_seconds base \<noteq> None, A_Overflow)]
     (\<lambda>db.
        let p = (\<lambda>t. turn_held l t \<and> lease_live (isoformat now) t);
            turns = sql_update p (\<lambda>t. t\<lparr>tu_lease_expires := after_seconds lease_seconds base\<rparr>) (ad_turns db)
        in if rowcount p (ad_turns db) \<noteq> 1 then (Inl (A_Conflict ''expired or fenced''), db)
           else
             (case fetchone (\<lambda>t. tu_id t = le_turn l) turns of
                None \<Rightarrow> (Inl (A_Runtime ''renewed Turn disappeared''), db\<lparr>ad_turns := turns\<rparr>)
              | Some t \<Rightarrow> (lease_of t, db\<lparr>ad_turns := turns\<rparr>)))"

subsection \<open>Events\<close>

definition new_event :: "datetime \<Rightarrow> int \<Rightarrow> turn_lease \<Rightarrow> int \<Rightarrow> string \<Rightarrow> json \<Rightarrow> turn_event" where
  "new_event now eid l sequence event_type payload =
     \<lparr>ev_id = eid, ev_turn = le_turn l, ev_session = le_session l, ev_owner = le_owner l, ev_sequence = sequence,
      ev_type = event_type, ev_payload = canonical payload, ev_created_at = isoformat now\<rparr>"

definition turn_bound :: "turn_lease \<Rightarrow> agent_turn \<Rightarrow> bool" where
  "turn_bound l t \<longleftrightarrow> turn_held l t \<and> tu_session t = le_session l \<and> tu_owner t = le_owner l"

definition event_due :: "string \<Rightarrow> turn_lease \<Rightarrow> int \<Rightarrow> agent_turn \<Rightarrow> bool" where
  "event_due now l sequence t \<longleftrightarrow> turn_bound l t \<and> lease_live now t \<and> tu_sequence t = sequence - 1"

text \<open>The trigger \<open>agent_turn_checkpoint_pointer\<close>: the checkpoint of an event becomes the Turn's in the same
  transaction; \<open>None\<close> is its \<open>RAISE(ABORT)\<close>.\<close>

definition payload_checkpoint :: "json \<Rightarrow> json option" where
  "payload_checkpoint p = (case jfield ''checkpoint'' p of Some v \<Rightarrow> if is_object v then Some v else None | None \<Rightarrow> None)"

definition event_turn :: "turn_event \<Rightarrow> agent_turn \<Rightarrow> bool" where
  "event_turn e t \<longleftrightarrow> tu_id t = ev_turn e \<and> tu_session t = ev_session e \<and> tu_owner t = ev_owner e"

definition checkpoint_pointer :: "turn_event \<Rightarrow> agent_turn list \<Rightarrow> agent_turn list option" where
  "checkpoint_pointer e turns =
     (if ev_type e \<noteq> ''checkpoint'' then Some turns
      else
        (case payload_checkpoint (ev_payload e) of
           None \<Rightarrow> None
         | Some c \<Rightarrow>
             if \<exists>t \<in> set turns. event_turn e t
             then Some (sql_update (event_turn e) (\<lambda>t. t\<lparr>tu_checkpoint := Some c\<rparr>) turns) else None))"

definition append_turn_event ::
    "datetime \<Rightarrow> string \<Rightarrow> turn_lease \<Rightarrow> int \<Rightarrow> string \<Rightarrow> json \<Rightarrow> agent_db \<Rightarrow> turn_event agent_call" where
  "append_turn_event now tid l sequence event_type payload = checked_call
     [(0 < sequence, A_Value ''sequence''), (name_ok event_type, A_Value ''event_type''), (is_object payload, A_Type ''payload''),
      (le_turn l = tid, A_Conflict ''claim is bound to a different Turn'')]
     (\<lambda>db.
        case fetchone (\<lambda>e. ev_turn e = tid \<and> ev_sequence e = sequence) (ad_events db) of
          Some e \<Rightarrow>
            (if ev_type e \<noteq> event_type \<or> \<not> python_eq (ev_payload e) payload
             then Inl (A_Conflict ''event sequence has different content'') else Inr e, db)
        | None \<Rightarrow>
            if rowcount (event_due (isoformat now) l sequence) (ad_turns db) \<noteq> 1
            then (Inl (A_Conflict ''non-contiguous or fenced''), db)
            else
              (let e = new_event now (ad_event_seq db + 1) l sequence event_type payload
               in case checkpoint_pointer e
                      (sql_update (event_due (isoformat now) l sequence) (\<lambda>t. t\<lparr>tu_sequence := sequence\<rparr>) (ad_turns db)) of
                    None \<Rightarrow> (Inl A_Integrity, db)
                  | Some turns \<Rightarrow>
                      (Inr e, db\<lparr>ad_turns := turns, ad_events := ad_events db @ [e], ad_event_seq := ad_event_seq db + 1\<rparr>)))"

definition list_turn_events_page ::
    "string \<Rightarrow> string \<Rightarrow> int \<Rightarrow> int \<Rightarrow> agent_db \<Rightarrow> (agent_error, turn_event list \<times> int option) result" where
  "list_turn_events_page sid owner after_event_id limit db =
     checked [(ref_ok sid, A_Value ''session_id''), (ref_ok owner, A_Value ''owner''), (0 \<le> after_event_id, A_Value ''after_event_id''),
              (page_limit_ok 100 limit, A_Value ''limit'')]
       (bind_res (get_session sid owner db) (\<lambda>_.
          let rows = take (nat limit + 1) (sort_key ev_id
                (filter (\<lambda>e. ev_session e = sid \<and> ev_owner e = owner \<and> after_event_id < ev_id e) (ad_events db)));
              records = take (nat limit) rows
          in Inr (records, if nat limit < length rows \<and> records \<noteq> [] then Some (ev_id (last records)) else None)))"

subsection \<open>Cancel, complete, interrupt\<close>

definition cancel_due :: "string \<Rightarrow> string \<Rightarrow> int \<Rightarrow> agent_turn \<Rightarrow> bool" where
  "cancel_due tid owner version t \<longleftrightarrow> tu_id t = tid \<and> tu_owner t = owner \<and> tu_version t = version \<and>
     tu_state t \<in> {TU_QUEUED, TU_RUNNING, TU_INTERRUPTED}"

definition request_turn_cancel :: "string \<Rightarrow> string \<Rightarrow> int \<Rightarrow> agent_db \<Rightarrow> agent_turn agent_call" where
  "request_turn_cancel tid owner expected_version = checked_call
     [(ref_ok tid, A_Value ''turn_id''), (ref_ok owner, A_Value ''owner''), (0 < expected_version, A_Value ''expected_state_version'')]
     (\<lambda>db.
        case fetchone (\<lambda>t. tu_id t = tid \<and> tu_owner t = owner) (ad_turns db) of
          None \<Rightarrow> (Inl (A_Key tid), db)
        | Some t \<Rightarrow>
            if tu_state t \<in> terminal_turn_states \<or> tu_cancel t then (Inr t, db)
            else if tu_version t \<noteq> expected_version then (Inl (A_Conflict ''Turn state version is stale''), db)
            else if rowcount (cancel_due tid owner expected_version) (ad_turns db) \<noteq> 1
            then (Inl (A_Conflict ''Turn changed while requesting cancel''), db)
            else
              (let turns = sql_update (cancel_due tid owner expected_version)
                     (\<lambda>u. u\<lparr>tu_cancel := True, tu_version := tu_version u + 1\<rparr>) (ad_turns db)
               in (case fetchone (\<lambda>u. tu_id u = tid) turns of
                     None \<Rightarrow> Inl (A_Runtime ''cancelled Turn disappeared'') | Some u \<Rightarrow> Inr u,
                   db\<lparr>ad_turns := turns\<rparr>)))"

definition upd_turn_end :: "datetime \<Rightarrow> turn_state \<Rightarrow> json option \<Rightarrow> json option \<Rightarrow> agent_turn \<Rightarrow> agent_turn" where
  "upd_turn_end now state checkpoint err t =
     t\<lparr>tu_state := state, tu_version := tu_version t + 1, tu_lease_owner := None, tu_lease_expires := None,
       tu_checkpoint := map_option canonical checkpoint, tu_error := map_option canonical err,
       tu_finished_at := Some (isoformat now)\<rparr>"

text \<open>The write that ends a claim: the Turn, then its Session, in one transaction.\<close>

definition end_claim ::
    "turn_lease \<Rightarrow> (agent_turn \<Rightarrow> agent_turn) \<Rightarrow> (agent_session \<Rightarrow> agent_session) \<Rightarrow> agent_db \<Rightarrow> agent_turn agent_call" where
  "end_claim l f g db =
     (if rowcount (turn_bound l) (ad_turns db) \<noteq> 1 then (Inl (A_Conflict ''fenced''), db)
      else
        (case move_session (le_session l) (le_owner l) {SE_RUNNING} g ''Session changed''
                (db\<lparr>ad_turns := sql_update (turn_bound l) f (ad_turns db)\<rparr>) of
           (Inl e, _) \<Rightarrow> (Inl e, db)
         | (Inr _, db') \<Rightarrow>
             (case fetchone (\<lambda>t. tu_id t = le_turn l) (ad_turns db') of
                None \<Rightarrow> Inl (A_Runtime ''Turn disappeared'') | Some t \<Rightarrow> Inr t, db')))"

definition outcome_state :: "json \<Rightarrow> turn_state" where
  "outcome_state outcome =
     (case jfield ''status'' outcome of
        Some (JStr s) \<Rightarrow> if s \<in> {''cancelled'', ''aborted''} then TU_CANCELLED else if s = ''failed'' then TU_FAILED else TU_COMPLETED
      | _ \<Rightarrow> TU_COMPLETED)"

definition complete_turn ::
    "datetime \<Rightarrow> string \<Rightarrow> turn_lease \<Rightarrow> json option \<Rightarrow> json \<Rightarrow> json \<Rightarrow> agent_db \<Rightarrow> agent_turn agent_call" where
  "complete_turn now tid l checkpoint usage outcome = checked_call
     [(optional_object checkpoint, A_Type ''final_checkpoint''), (is_object usage, A_Type ''resource_usage''),
      (is_object outcome, A_Type ''outcome''), (le_turn l = tid, A_Conflict ''claim is bound to a different Turn'')]
     (end_claim l (upd_turn_end now (outcome_state outcome) checkpoint None)
        (\<lambda>s. (upd_session now SE_IDLE s)\<lparr>se_checkpoint := map_option canonical checkpoint, se_usage := canonical usage,
                se_outcome := Some (canonical outcome)\<rparr>))"

definition interrupt_turn ::
    "datetime \<Rightarrow> string \<Rightarrow> turn_lease \<Rightarrow> json option \<Rightarrow> json \<Rightarrow> agent_db \<Rightarrow> agent_turn agent_call" where
  "interrupt_turn now tid l checkpoint err = checked_call
     [(optional_object checkpoint, A_Type ''checkpoint''), (is_object err, A_Type ''error''),
      (le_turn l = tid, A_Conflict ''claim is bound to a different Turn'')]
     (end_claim l (upd_turn_end now TU_INTERRUPTED checkpoint (Some err))
        (\<lambda>s. (upd_session now SE_QUEUED s)\<lparr>se_checkpoint := map_option canonical checkpoint\<rparr>))"

definition list_recoverable_turns :: "datetime \<Rightarrow> int \<Rightarrow> agent_db \<Rightarrow> (agent_error, agent_turn list) result" where
  "list_recoverable_turns now limit db = checked [(page_limit_ok 1000 limit, A_Value ''limit'')]
     (Inr (take (nat limit) (sort_key (\<lambda>t. (tu_created_at t, tu_id t)) (filter (turn_claimable (isoformat now)) (ad_turns db)))))"

section \<open>Tool invocations\<close>

text \<open>The capability a tool call carries: the Turn is running, not cancelled, at this version and token, on a live lease.\<close>

definition turn_capable :: "string \<Rightarrow> string \<Rightarrow> int \<Rightarrow> int \<Rightarrow> agent_turn \<Rightarrow> bool" where
  "turn_capable now owner version token t \<longleftrightarrow> tu_owner t = owner \<and> tu_state t = TU_RUNNING \<and> \<not> tu_cancel t \<and>
     tu_version t = version \<and> tu_token t = token \<and> lease_live now t"

definition invocation_clash :: "tool_invocation \<Rightarrow> tool_invocation \<Rightarrow> bool" where
  "invocation_clash a b \<longleftrightarrow> in_id a = in_id b \<or> in_turn a = in_turn b \<and> in_key a = in_key b"

definition reserve_tool_invocation ::
    "datetime \<Rightarrow> string \<Rightarrow> string \<Rightarrow> string \<Rightarrow> string \<Rightarrow> string \<Rightarrow> int \<Rightarrow> int \<Rightarrow> string \<Rightarrow> string \<Rightarrow> agent_db
      \<Rightarrow> (tool_invocation \<times> bool) agent_call" where
  "reserve_tool_invocation now iid key owner sid tid version token tool digest = checked_call
     [(ref_ok iid, A_Value ''invocation_id''), (ref_ok key, A_Value ''idempotency_key''), (ref_ok owner, A_Value ''owner''),
      (ref_ok sid, A_Value ''session_id''), (ref_ok tid, A_Value ''turn_id''), (ref_ok digest, A_Value ''arguments_digest''),
      (name_ok tool, A_Value ''tool_name''), (0 < version, A_Value ''expected_state_version''),
      (0 < token, A_Value ''expected_fencing_token'')]
     (\<lambda>db.
        let row = \<lparr>in_id = iid, in_key = key, in_turn = tid, in_session = sid, in_owner = owner, in_tool = tool,
                   in_digest = digest, in_state = IN_RUNNING, in_result = None, in_error = None, in_bytes = 0,
                   in_created_at = isoformat now, in_updated_at = isoformat now\<rparr>;
            capable = (\<exists>t \<in> set (ad_turns db). tu_id t = tid \<and> tu_session t = sid \<and> turn_capable (isoformat now) owner version token t);
            created = (capable \<and> (\<forall>x \<in> set (ad_invocations db). \<not> invocation_clash x row));
            db' = db\<lparr>ad_invocations := if capable then insert_ignore invocation_clash row (ad_invocations db) else ad_invocations db\<rparr>
        in (case fetchone (\<lambda>x. in_turn x = tid \<and> in_key x = key \<and> in_owner x = owner) (ad_invocations db') of
              None \<Rightarrow> (Inl (A_Conflict ''Turn capability is stale or fenced''), db)
            | Some x \<Rightarrow>
                (if in_id x \<noteq> iid \<or> in_session x \<noteq> sid \<or> in_tool x \<noteq> tool \<or> in_digest x \<noteq> digest
                 then Inl (A_Conflict ''idempotency_key'') else Inr (x, created), db')))"

definition finish_due :: "string \<Rightarrow> string \<Rightarrow> string \<Rightarrow> int \<Rightarrow> int \<Rightarrow> agent_db \<Rightarrow> tool_invocation \<Rightarrow> bool" where
  "finish_due now iid owner version token db x \<longleftrightarrow> in_id x = iid \<and> in_owner x = owner \<and> in_state x = IN_RUNNING \<and>
     (\<exists>t \<in> set (ad_turns db). tu_id t = in_turn x \<and> turn_capable now (in_owner x) version token t)"

definition json_option_eq :: "json option \<Rightarrow> json option \<Rightarrow> bool" where
  "json_option_eq a b \<longleftrightarrow> (case (a, b) of (None, None) \<Rightarrow> True | (Some x, Some y) \<Rightarrow> python_eq x y | _ \<Rightarrow> False)"

definition finish_tool_invocation ::
    "datetime \<Rightarrow> string \<Rightarrow> string \<Rightarrow> int \<Rightarrow> int \<Rightarrow> json option \<Rightarrow> json option \<Rightarrow> int \<Rightarrow> agent_db \<Rightarrow> tool_invocation agent_call" where
  "finish_tool_invocation now iid owner version token res err bytes = checked_call
     [(ref_ok iid, A_Value ''invocation_id''), (ref_ok owner, A_Value ''owner''), (0 < version, A_Value ''expected_state_version''),
      (0 < token, A_Value ''expected_fencing_token''), (0 \<le> bytes, A_Value ''bytes_returned''),
      ((res = None) \<noteq> (err = None), A_Value ''exactly one of result or error''),
      (optional_object res, A_Type ''result''), (optional_object err, A_Type ''error'')]
     (\<lambda>db.
        let state = (if res \<noteq> None then IN_COMPLETED else IN_FAILED);
            p = finish_due (isoformat now) iid owner version token db;
            rows = sql_update p (\<lambda>x. x\<lparr>in_state := state, in_result := map_option canonical res, in_error := map_option canonical err,
                     in_bytes := bytes, in_updated_at := isoformat now\<rparr>) (ad_invocations db)
        in if rowcount p (ad_invocations db) \<noteq> 1 then
             (case fetchone (\<lambda>x. in_id x = iid \<and> in_owner x = owner) (ad_invocations db) of
                None \<Rightarrow> Inl (A_Conflict ''complete, stale or fenced'')
              | Some x \<Rightarrow>
                  if in_state x = state \<and> json_option_eq (in_result x) res \<and> json_option_eq (in_error x) err \<and> in_bytes x = bytes
                  then Inr x else Inl (A_Conflict ''complete, stale or fenced''), db)
           else
             (case fetchone (\<lambda>x. in_id x = iid) rows of
                None \<Rightarrow> Inl (A_Runtime ''completed invocation disappeared'') | Some x \<Rightarrow> Inr x,
              db\<lparr>ad_invocations := rows\<rparr>))"

definition get_turn_tool_usage ::
    "datetime \<Rightarrow> string \<Rightarrow> string \<Rightarrow> int \<Rightarrow> int \<Rightarrow> agent_db \<Rightarrow> (agent_error, tool_usage) result" where
  "get_turn_tool_usage now tid owner version token db = checked
     [(ref_ok tid, A_Value ''turn_id''), (ref_ok owner, A_Value ''owner''), (0 < version, A_Value ''expected_state_version''),
      (0 < token, A_Value ''expected_fencing_token''),
      (\<exists>t \<in> set (ad_turns db). tu_id t = tid \<and> tu_owner t = owner \<and> tu_state t = TU_RUNNING \<and> tu_version t = version \<and>
         tu_token t = token \<and> lease_live (isoformat now) t, A_Conflict ''Turn capability is stale or fenced'')]
     (let rows = filter (\<lambda>x. in_turn x = tid \<and> in_owner x = owner) (ad_invocations db)
      in Inr \<lparr>tg_invocations = int (length rows), tg_bytes = sum_list (map in_bytes rows),
              tg_commands = int (length (filter (\<lambda>x. in_tool x \<in> {''sandbox_exec'', ''builder_build_submit''}) rows))\<rparr>)"

end
