(* ===== verification/AgentTurns.thy ===== *)
theory AgentTurns
  imports AgentSessions
begin

text \<open>
  \<open>services/agent_session_service.py\<close> (submission and recovery of Turns) and \<open>worker/agent_turn_worker.py\<close> (the
  dispatch of a Turn's message) over the Session store and the outbox. Each store access reads the clock anew:
  \<open>tw_now n\<close> is its \<open>n\<close>th reading. The agent daemon is a parameter: the events it streams, with the number of
  heartbeats that fall before each, and how the stream ends. Event hints are not modelled, since the code ignores their
  outcome, nor is the text of the capability: \<open>tw_signs\<close> says whether it is signed and the
  request that carries it is valid. The calls of other actors between two store accesses of one dispatch are not modelled.
\<close>

section \<open>State and operations\<close>

record client_event =
  ce_sequence :: int
  ce_type :: string
  ce_payload :: json

datatype client_end = CE_Done | CE_Client string "json option" | CE_Other

datatype turn_fault =
  TF_Agent agent_error | TF_Control control_error | TF_Client string "json option" | TF_Value string | TF_Heartbeat | TF_Other

record turn_world =
  tw_iso :: "string \<Rightarrow> bool"
  tw_redact :: "string \<Rightarrow> string"
  tw_sha :: "string \<Rightarrow> string"
  tw_now :: "nat \<Rightarrow> datetime"
  tw_worker :: string
  tw_seconds :: int
  tw_max :: int
  tw_rebuilds :: "agent_turn \<Rightarrow> bool"
  tw_signs :: "turn_lease \<Rightarrow> agent_session \<Rightarrow> bool"
  tw_stream :: "agent_session \<Rightarrow> agent_turn \<Rightarrow> turn_lease \<Rightarrow> (nat \<times> client_event) list \<times> nat \<times> client_end"
  tw_cancels :: "string \<Rightarrow> client_end"
  tw_projects :: bool
  tw_blocks :: "string \<Rightarrow> string \<Rightarrow> bool"

record turn_sys =
  ts_agents :: agent_db
  ts_control :: control_db
  ts_clock :: nat

type_synonym 'a turn_op = "turn_sys \<Rightarrow> (turn_fault, 'a) result \<times> turn_sys"

definition t_return :: "'a \<Rightarrow> 'a turn_op" where
  "t_return x s = (Inr x, s)"

definition t_raise :: "turn_fault \<Rightarrow> 'a turn_op" where
  "t_raise e s = (Inl e, s)"

definition t_bind :: "'a turn_op \<Rightarrow> ('a \<Rightarrow> 'b turn_op) \<Rightarrow> 'b turn_op" where
  "t_bind f g s = (case f s of (Inl e, s') \<Rightarrow> (Inl e, s') | (Inr x, s') \<Rightarrow> g x s')"

text \<open>An access to the Session store reads the clock at most twice, one to the outbox once.\<close>

definition on_agents :: "turn_world \<Rightarrow> (datetime \<Rightarrow> datetime \<Rightarrow> agent_db \<Rightarrow> 'a agent_call) \<Rightarrow> 'a turn_op" where
  "on_agents w f s =
     (case f (tw_now w (ts_clock s)) (tw_now w (ts_clock s + 1)) (ts_agents s) of
        (r, db) \<Rightarrow> (case r of Inl e \<Rightarrow> Inl (TF_Agent e) | Inr x \<Rightarrow> Inr x, s\<lparr>ts_agents := db, ts_clock := ts_clock s + 2\<rparr>))"

definition read_agents :: "(agent_db \<Rightarrow> (agent_error, 'a) result) \<Rightarrow> 'a turn_op" where
  "read_agents f s = (case f (ts_agents s) of Inl e \<Rightarrow> Inl (TF_Agent e) | Inr x \<Rightarrow> Inr x, s)"

definition on_control :: "turn_world \<Rightarrow> (datetime \<Rightarrow> control_db \<Rightarrow> (control_error, 'a) result \<times> control_db) \<Rightarrow> 'a turn_op" where
  "on_control w f s =
     (case f (tw_now w (ts_clock s)) (ts_control s) of
        (r, db) \<Rightarrow> (case r of Inl e \<Rightarrow> Inl (TF_Control e) | Inr x \<Rightarrow> Inr x, s\<lparr>ts_control := db, ts_clock := ts_clock s + 1\<rparr>))"

section \<open>The service\<close>

definition turn_topic :: string where
  "turn_topic = ''agent.turn.execute.v1''"

definition turn_message_id :: "string \<Rightarrow> string" where
  "turn_message_id tid = ''agent-turn:'' @ tid"

definition enqueue_turn :: "turn_world \<Rightarrow> string \<Rightarrow> (message \<times> bool) turn_op" where
  "enqueue_turn w tid =
     on_control w (\<lambda>now. enqueue (tw_iso w) now (turn_message_id tid) turn_topic tid (JObj [(''turn_id'', JStr tid)]) None)"

definition submit_turn_message ::
    "turn_world \<Rightarrow> string \<Rightarrow> string \<Rightarrow> string \<Rightarrow> string \<Rightarrow> string \<Rightarrow> int \<Rightarrow> (agent_turn \<times> bool) turn_op" where
  "submit_turn_message w fresh sid owner request_key msg v =
     t_bind (on_agents w (\<lambda>now _. create_turn (tw_sha w) now fresh sid owner request_key msg v)) (\<lambda>(t, created).
     t_bind (enqueue_turn w (tu_id t)) (\<lambda>_. t_return (t, created)))"

definition enqueue_result_explanation ::
    "turn_world \<Rightarrow> string \<Rightarrow> string \<Rightarrow> string \<Rightarrow> string \<Rightarrow> string \<Rightarrow> agent_turn turn_op" where
  "enqueue_result_explanation w fresh sid owner run digest =
     t_bind (read_agents (get_session sid owner)) (\<lambda>se.
     t_bind (submit_turn_message w fresh sid owner (''formal-run:'' @ run @ '':result-explanation'')
       (''Explain terminal formal Run '' @ run @ '' using Evidence bundle sha256:'' @ digest @
        ''. Report scheduler and collection facts, but state explicitly that scheduler success does not establish scientific validity.'')
       (se_version se)) (\<lambda>(t, _). t_return t))"

fun enqueue_turns :: "turn_world \<Rightarrow> agent_turn list \<Rightarrow> nat \<Rightarrow> nat turn_op" where
  "enqueue_turns w [] n = t_return n"
| "enqueue_turns w (t # ts) n =
     t_bind (enqueue_turn w (tu_id t)) (\<lambda>(_, created). enqueue_turns w ts (if created then n + 1 else n))"

definition recover_pending_turns :: "turn_world \<Rightarrow> int \<Rightarrow> nat turn_op" where
  "recover_pending_turns w limit =
     t_bind (on_agents w (\<lambda>now _ db. (list_recoverable_turns now limit db, db))) (\<lambda>ts. enqueue_turns w ts 0)"

section \<open>The worker\<close>

definition message_turn :: "message \<Rightarrow> (turn_fault, string) result" where
  "message_turn m =
     (case jfield ''turn_id'' (ms_payload m) of
        Some (JStr v) \<Rightarrow> if ms_topic m = turn_topic \<and> v = ms_aggregate m then Inr v else Inl (TF_Value ''message'')
      | _ \<Rightarrow> Inl (TF_Value ''message''))"

definition ack_turn :: "turn_world \<Rightarrow> message \<Rightarrow> unit turn_op" where
  "ack_turn w m = on_control w (\<lambda>now. acknowledge now (ms_id m) (tw_worker w) (ms_token m))"

definition retry_turn :: "turn_world \<Rightarrow> message \<Rightarrow> string \<Rightarrow> int \<Rightarrow> unit turn_op" where
  "retry_turn w m err delay =
     t_bind (on_control w (\<lambda>now. retry (tw_redact w) now (ms_id m) (tw_worker w) (ms_token m) err delay (tw_max w))) (\<lambda>_. t_return ())"

definition error_payload :: "string \<Rightarrow> json" where
  "error_payload code =
     JObj [(''code'', JStr code), (''message'', JStr ''Agent Turn was interrupted''), (''retryable'', JBool True)]"

definition interrupt_and_retry :: "turn_world \<Rightarrow> message \<Rightarrow> turn_lease \<Rightarrow> json option \<Rightarrow> string \<Rightarrow> unit turn_op" where
  "interrupt_and_retry w m l checkpoint code =
     t_bind (on_agents w (\<lambda>now _. interrupt_turn now (le_turn l) l checkpoint (error_payload code))) (\<lambda>_.
     retry_turn w m ''Agent Turn was interrupted'' 0)"

text \<open>\<open>_object_or_none\<close>, \<open>_object_or_empty\<close>, and Python's \<open>a or b\<close> on two optional objects.\<close>

definition object_or_none :: "json option \<Rightarrow> json option" where
  "object_or_none v = (case v of Some x \<Rightarrow> if is_object x then Some x else None | None \<Rightarrow> None)"

definition object_or_empty :: "json option \<Rightarrow> json" where
  "object_or_empty v = (case object_or_none v of Some x \<Rightarrow> x | None \<Rightarrow> JObj [])"

definition or_else :: "json option \<Rightarrow> json option \<Rightarrow> json option" where
  "or_else a b = (if a = None \<or> a = Some (JObj []) then b else a)"

definition project_profiles :: "string set" where
  "project_profiles = {''experiment_builder'', ''run_diagnosis_repair'', ''market_application'', ''template_publication''}"

definition call_client :: "client_end \<Rightarrow> unit turn_op" where
  "call_client r = (case r of CE_Done \<Rightarrow> t_return () | CE_Client c cp \<Rightarrow> t_raise (TF_Client c cp) | CE_Other \<Rightarrow> t_raise TF_Other)"

definition block_generative_project :: "turn_world \<Rightarrow> turn_lease \<Rightarrow> agent_session \<Rightarrow> unit turn_op" where
  "block_generative_project w l se =
     (if \<not> tw_projects w \<or> se_profile se \<notin> project_profiles then t_return ()
      else case jfield ''project_id'' (se_source se) of
             Some (JStr p) \<Rightarrow> if tw_blocks w p (le_owner l) then t_return () else t_raise TF_Other
           | _ \<Rightarrow> t_raise (TF_Value ''Project Session scope is invalid''))"

definition finish_terminal ::
    "turn_world \<Rightarrow> message \<Rightarrow> turn_lease \<Rightarrow> client_event \<Rightarrow> json option \<Rightarrow> agent_session \<Rightarrow> unit turn_op" where
  "finish_terminal w m l ev checkpoint se =
     t_bind
       (if ce_type ev = ''turn_completed'' then
          t_return (object_or_empty (jfield ''usage'' (ce_payload ev)),
            JObj [(''status'', JStr ''completed''),
                  (''result'', case jfield ''result'' (ce_payload ev) of Some r \<Rightarrow> r | None \<Rightarrow> JNull)])
        else
          (let err = object_or_empty (jfield ''error'' (ce_payload ev)); code = jfield ''code'' err in
           t_bind (if code = Some (JStr ''aborted'') then t_return True
                   else t_bind (read_agents (get_turn (le_turn l) (le_owner l))) (\<lambda>t. t_return (tu_cancel t))) (\<lambda>cancelled.
           t_bind (if code = Some (JStr ''provider_unavailable'') then block_generative_project w l se else t_return ()) (\<lambda>_.
           t_return (JObj [], JObj [(''status'', JStr (if cancelled then ''aborted'' else ''failed'')), (''error'', err)])))))
       (\<lambda>(usage, outcome).
        t_bind (on_agents w (\<lambda>now _. complete_turn now (le_turn l) l checkpoint usage outcome)) (\<lambda>_. ack_turn w m))"

definition aborted_payload :: json where
  "aborted_payload = JObj [(''error'', JObj [(''code'', JStr ''aborted''), (''message'', JStr ''The Turn was aborted.''),
     (''retryable'', JBool False)])]"

definition cancel_and_complete :: "turn_world \<Rightarrow> message \<Rightarrow> turn_lease \<Rightarrow> json option \<Rightarrow> int \<Rightarrow> unit turn_op" where
  "cancel_and_complete w m l checkpoint i =
     t_bind (call_client (tw_cancels w (le_turn l))) (\<lambda>_.
     t_bind (on_agents w (\<lambda>now _. append_turn_event now (le_turn l) l i ''turn_failed'' aborted_payload)) (\<lambda>_.
     t_bind (on_agents w (\<lambda>now _. complete_turn now (le_turn l) l checkpoint (JObj [])
       (JObj [(''status'', JStr ''aborted''), (''error'', JObj [(''code'', JStr ''aborted'')])]))) (\<lambda>_.
     ack_turn w m)))"

subsection \<open>The stream\<close>

record turn_loop =
  lo_checkpoint :: "json option"
  lo_cancel :: bool
  lo_terminal :: "client_event option"
  lo_failed :: bool

text \<open>One beat renews the lease of the Turn and then that of the message; the first failure ends the heartbeat.\<close>

definition renew_dispatch_leases :: "turn_world \<Rightarrow> message \<Rightarrow> turn_lease \<Rightarrow> unit turn_op" where
  "renew_dispatch_leases w m l =
     t_bind (on_agents w (\<lambda>now base. renew_turn now base l (tw_seconds w))) (\<lambda>_.
     t_bind (on_control w (\<lambda>now. renew_outbox now (ms_id m) (tw_worker w) (ms_token m) (tw_seconds w))) (\<lambda>_. t_return ()))"

fun beats :: "turn_world \<Rightarrow> message \<Rightarrow> turn_lease \<Rightarrow> nat \<Rightarrow> bool \<Rightarrow> turn_sys \<Rightarrow> bool \<times> turn_sys" where
  "beats w m l 0 failed s = (failed, s)"
| "beats w m l (Suc n) failed s =
     (if failed then (True, s)
      else case renew_dispatch_leases w m l s of (r, s') \<Rightarrow> beats w m l n (case r of Inl _ \<Rightarrow> True | Inr _ \<Rightarrow> False) s')"

definition checkpoint_after :: "client_event \<Rightarrow> json option \<Rightarrow> json option" where
  "checkpoint_after ev checkpoint =
     (let c = object_or_none (jfield ''checkpoint'' (ce_payload ev)) in
      if ce_type ev = ''checkpoint'' then c else if ce_type ev = ''turn_completed'' then or_else c checkpoint else checkpoint)"

text \<open>The body of the loop for one event. The record is what the \<open>except\<close> clauses see of the local variables.\<close>

definition turn_event_body ::
    "turn_world \<Rightarrow> turn_lease \<Rightarrow> int \<Rightarrow> client_event \<Rightarrow> turn_loop \<Rightarrow> turn_sys \<Rightarrow> (turn_fault option \<times> turn_loop) \<times> turn_sys" where
  "turn_event_body w l start ev lo s =
     (case on_agents w (\<lambda>now _. append_turn_event now (le_turn l) l (start + ce_sequence ev) (ce_type ev) (ce_payload ev)) s of
        (Inl e, s1) \<Rightarrow> ((Some e, lo), s1)
      | (Inr _, s1) \<Rightarrow>
          let lo1 = lo\<lparr>lo_checkpoint := checkpoint_after ev (lo_checkpoint lo)\<rparr> in
          (case read_agents (get_turn (le_turn l) (le_owner l)) s1 of
             (Inl e, s2) \<Rightarrow> ((Some e, lo1), s2)
           | (Inr t, s2) \<Rightarrow>
               if tu_cancel t \<and> \<not> lo_cancel lo1 \<and> tw_cancels w (le_turn l) \<noteq> CE_Done
               then ((case tw_cancels w (le_turn l) of CE_Client c cp \<Rightarrow> Some (TF_Client c cp) | _ \<Rightarrow> Some TF_Other, lo1), s2)
               else
                 ((None, lo1\<lparr>lo_cancel := lo_cancel lo1 \<or> tu_cancel t,
                    lo_terminal := if ce_type ev \<in> {''turn_completed'', ''turn_failed''} then Some ev else lo_terminal lo1\<rparr>), s2)))"

fun turn_stream ::
    "turn_world \<Rightarrow> message \<Rightarrow> turn_lease \<Rightarrow> int \<Rightarrow> (nat \<times> client_event) list \<Rightarrow> turn_loop \<Rightarrow> turn_sys
      \<Rightarrow> (turn_fault option \<times> turn_loop) \<times> turn_sys" where
  "turn_stream w m l start [] lo s = ((None, lo), s)"
| "turn_stream w m l start ((k, ev) # evs) lo s =
     (case beats w m l k (lo_failed lo) s of
        (failed, s1) \<Rightarrow>
          let lo1 = lo\<lparr>lo_failed := failed\<rparr> in
          if failed then ((Some TF_Heartbeat, lo1), s1)
          else
            (case turn_event_body w l start ev lo1 s1 of
               ((Some e, lo2), s2) \<Rightarrow> ((Some e, lo2), s2)
             | ((None, lo2), s2) \<Rightarrow> turn_stream w m l start evs lo2 s2))"

text \<open>The two \<open>except\<close> clauses: interrupt, retry the message, and raise again.\<close>

definition turn_failed_by :: "turn_world \<Rightarrow> message \<Rightarrow> turn_lease \<Rightarrow> json option \<Rightarrow> turn_fault \<Rightarrow> bool turn_op" where
  "turn_failed_by w m l checkpoint e =
     t_bind
       (case e of
          TF_Client c cp \<Rightarrow> interrupt_and_retry w m l (or_else cp checkpoint) c
        | _ \<Rightarrow> interrupt_and_retry w m l checkpoint ''internal_error'')
       (\<lambda>_. t_raise e)"

text \<open>The stream, the clauses that catch its failures, and what follows it.\<close>

definition run_turn :: "turn_world \<Rightarrow> message \<Rightarrow> turn_lease \<Rightarrow> agent_turn \<Rightarrow> agent_session \<Rightarrow> bool turn_op" where
  "run_turn w m l t se s =
     (let start = (if tu_checkpoint t \<noteq> None then tu_sequence t else 0);
          (evs, k, ending) = tw_stream w se t l;
          lo = \<lparr>lo_checkpoint = tu_checkpoint t, lo_cancel = False, lo_terminal = None, lo_failed = False\<rparr>
      in case turn_stream w m l start evs lo s of
           ((Some e, lo1), s1) \<Rightarrow> turn_failed_by w m l (lo_checkpoint lo1) e s1
         | ((None, lo1), s1) \<Rightarrow>
             (case beats w m l k (lo_failed lo1) s1 of
                (failed, s2) \<Rightarrow>
                  (case ending of
                     CE_Client c cp \<Rightarrow> turn_failed_by w m l (lo_checkpoint lo1) (TF_Client c cp) s2
                   | CE_Other \<Rightarrow> turn_failed_by w m l (lo_checkpoint lo1) TF_Other s2
                   | CE_Done \<Rightarrow>
                       if failed then (Inl TF_Heartbeat, s2)
                       else
                         (case lo_terminal lo1 of
                            None \<Rightarrow>
                              t_bind (interrupt_and_retry w m l (lo_checkpoint lo1) ''stream_ended'')
                                (\<lambda>_. t_raise (TF_Client ''protocol_error'' (lo_checkpoint lo1))) s2
                          | Some ev \<Rightarrow> t_bind (finish_terminal w m l ev (lo_checkpoint lo1) se) (\<lambda>_. t_return True) s2))))"

subsection \<open>Dispatch\<close>

definition dispatch_claimed :: "turn_world \<Rightarrow> message \<Rightarrow> turn_lease \<Rightarrow> bool turn_op" where
  "dispatch_claimed w m l =
     t_bind (read_agents (get_turn (le_turn l) (le_owner l))) (\<lambda>t.
       if tu_cancel t then
         t_bind (cancel_and_complete w m l (tu_checkpoint t) (tu_sequence t + 1)) (\<lambda>_. t_return True)
       else
         t_bind (read_agents (get_session (le_session l) (le_owner l))) (\<lambda>se.
           if \<not> tw_rebuilds w t then
             t_bind (interrupt_and_retry w m l (tu_checkpoint t) ''checkpoint_repair_error'') (\<lambda>_. t_raise TF_Other)
           else if \<not> tw_signs w l se then t_raise (TF_Value ''capability'')
           else run_turn w m l t se))"

definition dispatch_turn :: "turn_world \<Rightarrow> message \<Rightarrow> bool turn_op" where
  "dispatch_turn w m =
     (case message_turn m of
        Inl e \<Rightarrow> t_raise e
      | Inr tid \<Rightarrow>
          t_bind (on_agents w (\<lambda>now base. claim_turn now base tid (tw_worker w) (tw_seconds w))) (\<lambda>claim.
            case claim of
              None \<Rightarrow>
                t_bind (read_agents (get_turn_for_dispatch tid)) (\<lambda>t.
                  if tu_state t \<in> terminal_turn_states then t_bind (ack_turn w m) (\<lambda>_. t_return True)
                  else t_bind (retry_turn w m ''Agent Turn is not currently claimable'' 1) (\<lambda>_. t_return False))
            | Some l \<Rightarrow> dispatch_claimed w m l))"

record dispatch_result =
  dr_checked :: nat
  dr_succeeded :: nat
  dr_errors :: "string list"

text \<open>The loop of \<open>dispatch_due\<close>, with the number of messages still allowed; a failed dispatch is recorded.\<close>

fun turn_dispatch_loop :: "turn_world \<Rightarrow> nat \<Rightarrow> dispatch_result \<Rightarrow> dispatch_result turn_op" where
  "turn_dispatch_loop w 0 r s = (Inr r, s)"
| "turn_dispatch_loop w (Suc n) r s =
     (case on_control w (\<lambda>now. claim_outbox now (tw_worker w) 1 (tw_seconds w) [turn_topic]) s of
        (Inl e, s1) \<Rightarrow> (Inl e, s1)
      | (Inr [], s1) \<Rightarrow> (Inr r, s1)
      | (Inr (m # _), s1) \<Rightarrow>
          (case dispatch_turn w m s1 of
             (Inl _, s2) \<Rightarrow> turn_dispatch_loop w n (r\<lparr>dr_checked := dr_checked r + 1, dr_errors := dr_errors r @ [ms_aggregate m]\<rparr>) s2
           | (Inr ok, s2) \<Rightarrow>
               turn_dispatch_loop w n (r\<lparr>dr_checked := dr_checked r + 1, dr_succeeded := dr_succeeded r + (if ok then 1 else 0)\<rparr>) s2))"

definition dispatch_turns_due :: "turn_world \<Rightarrow> int \<Rightarrow> dispatch_result turn_op" where
  "dispatch_turns_due w limit =
     (if limit \<le> 0 then t_raise (TF_Value ''limit'')
      else turn_dispatch_loop w (nat limit) \<lparr>dr_checked = 0, dr_succeeded = 0, dr_errors = []\<rparr>)"

end
