(* ===== verification/AgentSessionSafety.thy ===== *)
theory AgentSessionSafety
  imports AgentSessions ControlSafety
begin

text \<open>
  The Session store as a machine. Each operation either leaves the database as it is or makes one \<open>agent_move\<close>; the
  moves keep \<open>agent_ok\<close>, which relates a Session to its Turns and a Turn to its log. The Turns and the tool invocations
  are row machines, and the leases of Turns are fenced.
\<close>

section \<open>Steps\<close>

inductive agent_step :: "(string \<Rightarrow> string) \<Rightarrow> agent_db \<Rightarrow> agent_db \<Rightarrow> bool" for sha where
  as_session: "agent_step sha db (snd (create_session now fresh owner key profile model source db))"
| as_turn: "agent_step sha db (snd (create_turn sha now fresh sid owner key msg v db))"
| as_claim: "agent_step sha db (snd (claim_turn now base tid worker n db))"
| as_renew: "agent_step sha db (snd (renew_turn now base l n db))"
| as_event: "agent_step sha db (snd (append_turn_event now tid l i et payload db))"
| as_cancel: "agent_step sha db (snd (request_turn_cancel tid owner v db))"
| as_complete: "agent_step sha db (snd (complete_turn now tid l checkpoint usage outcome db))"
| as_interrupt: "agent_step sha db (snd (interrupt_turn now tid l checkpoint err db))"
| as_reserve: "agent_step sha db (snd (reserve_tool_invocation now iid key owner sid tid v token tool digest db))"
| as_finish: "agent_step sha db (snd (finish_tool_invocation now iid owner v token res err bytes db))"

section \<open>Rows\<close>

definition active_turn :: "agent_turn \<Rightarrow> bool" where
  "active_turn t \<longleftrightarrow> tu_state t \<notin> terminal_turn_states"

inductive turn_step :: "agent_turn \<Rightarrow> agent_turn \<Rightarrow> bool" where
  ts_claim: "turn_claimable now t \<Longrightarrow> turn_step t (upd_turn_claim now w e (tu_token t + 1) t)"
| ts_renew: "tu_state t = TU_RUNNING \<Longrightarrow> lease_live now t \<Longrightarrow> turn_step t (t\<lparr>tu_lease_expires := Some e\<rparr>)"
| ts_event: "tu_state t = TU_RUNNING \<Longrightarrow> lease_live now t \<Longrightarrow> i = tu_sequence t + 1 \<Longrightarrow>
    turn_step t (t\<lparr>tu_sequence := i, tu_checkpoint := c\<rparr>)"
| ts_cancel: "active_turn t \<Longrightarrow> \<not> tu_cancel t \<Longrightarrow> turn_step t (t\<lparr>tu_cancel := True, tu_version := tu_version t + 1\<rparr>)"
| ts_end: "tu_state t = TU_RUNNING \<Longrightarrow> st \<in> insert TU_INTERRUPTED terminal_turn_states \<Longrightarrow>
    turn_step t (upd_turn_end now st c e t)"

definition fresh_turn :: "agent_turn \<Rightarrow> bool" where
  "fresh_turn t \<longleftrightarrow> tu_state t = TU_QUEUED \<and> tu_version t = 1 \<and> \<not> tu_cancel t \<and> tu_lease_owner t = None \<and>
     tu_lease_expires t = None \<and> tu_token t = 0 \<and> tu_sequence t = 0 \<and> tu_finished_at t = None"

definition turn_ok :: "agent_turn \<Rightarrow> bool" where
  "turn_ok t \<longleftrightarrow> (tu_state t = TU_RUNNING \<longleftrightarrow> tu_lease_owner t \<noteq> None) \<and>
     (tu_lease_owner t = None \<longleftrightarrow> tu_lease_expires t = None) \<and> 1 \<le> tu_version t \<and> 0 \<le> tu_token t \<and> 0 \<le> tu_sequence t \<and>
     tu_token t < tu_version t \<and> (tu_state t = TU_QUEUED \<longrightarrow> tu_token t = 0) \<and> (tu_state t \<noteq> TU_QUEUED \<longrightarrow> 1 \<le> tu_token t)"

lemmas turn_upd_defs = upd_turn_claim_def upd_turn_end_def

lemma turn_step_id: "turn_step t t' \<Longrightarrow> tu_id t' = tu_id t"
  by (induction rule: turn_step.induct) (simp_all add: turn_upd_defs)

lemma turn_step_frozen: "turn_step t t' \<Longrightarrow> tu_session t' = tu_session t \<and> tu_owner t' = tu_owner t \<and>
    tu_request t' = tu_request t \<and> tu_digest t' = tu_digest t \<and> tu_message t' = tu_message t"
  by (induction rule: turn_step.induct) (simp_all add: turn_upd_defs)

lemma turn_step_mono: "turn_step t t' \<Longrightarrow> tu_token t \<le> tu_token t' \<and> tu_version t \<le> tu_version t' \<and>
    tu_sequence t \<le> tu_sequence t' \<and> (tu_cancel t \<longrightarrow> tu_cancel t')"
  by (induction rule: turn_step.induct) (simp_all add: turn_upd_defs)

lemma fresh_turn_ok: "fresh_turn t \<Longrightarrow> turn_ok t"
  by (simp add: fresh_turn_def turn_ok_def)

lemma turn_ok_step: "turn_ok t \<Longrightarrow> turn_step t t' \<Longrightarrow> turn_ok t'"
  by (erule turn_step.cases)
    (auto simp: turn_ok_def turn_upd_defs terminal_turn_states_def lease_live_def active_turn_def split: option.splits)

lemma terminal_no_step: "turn_step t t' \<Longrightarrow> active_turn t"
  by (erule turn_step.cases) (auto simp: active_turn_def turn_claimable_def terminal_turn_states_def)

definition turn_moves :: "agent_turn list \<Rightarrow> agent_turn list \<Rightarrow> bool" where
  "turn_moves s t \<longleftrightarrow> t = s \<or> (\<exists>r. fresh_turn r \<and> tu_id r \<notin> tu_id ` set s \<and> t = s @ [r]) \<or>
     (\<exists>r r'. r \<in> set s \<and> turn_step r r' \<and> t = put_row tu_id r' s)"

lemma turn_moves_cases: "table_ok tu_id turn_ok s \<Longrightarrow> turn_moves s t \<Longrightarrow>
   t = s \<or> (\<exists>r. fresh_turn r \<and> tu_id r \<notin> tu_id ` set s \<and> t = s @ [r]) \<or>
     (\<exists>r r'. r \<in> set s \<and> turn_step r r' \<and> t = put_row tu_id r' s)"
  by (simp add: turn_moves_def)

interpretation turns: row_machine tu_id fresh_turn turn_ok turn_step turn_moves
  by unfold_locales (fact turn_step_id fresh_turn_ok turn_ok_step turn_moves_cases)+

inductive invocation_step :: "tool_invocation \<Rightarrow> tool_invocation \<Rightarrow> bool" where
  is_finish: "in_state x = IN_RUNNING \<Longrightarrow> (res = None) \<noteq> (err = None) \<Longrightarrow> 0 \<le> bytes \<Longrightarrow>
    invocation_step x (x\<lparr>in_state := if res \<noteq> None then IN_COMPLETED else IN_FAILED, in_result := res, in_error := err,
      in_bytes := bytes, in_updated_at := now\<rparr>)"

definition fresh_invocation :: "tool_invocation \<Rightarrow> bool" where
  "fresh_invocation x \<longleftrightarrow> in_state x = IN_RUNNING \<and> in_result x = None \<and> in_error x = None \<and> in_bytes x = 0"

definition invocation_ok :: "tool_invocation \<Rightarrow> bool" where
  "invocation_ok x \<longleftrightarrow> 0 \<le> in_bytes x \<and>
     (case in_state x of
        IN_RUNNING \<Rightarrow> in_result x = None \<and> in_error x = None
      | IN_COMPLETED \<Rightarrow> in_result x \<noteq> None \<and> in_error x = None
      | IN_FAILED \<Rightarrow> in_result x = None \<and> in_error x \<noteq> None)"

lemma invocation_step_id: "invocation_step x x' \<Longrightarrow> in_id x' = in_id x"
  by (induction rule: invocation_step.induct) simp

lemma fresh_invocation_ok: "fresh_invocation x \<Longrightarrow> invocation_ok x"
  by (simp add: fresh_invocation_def invocation_ok_def)

lemma invocation_ok_step: "invocation_ok x \<Longrightarrow> invocation_step x x' \<Longrightarrow> invocation_ok x'"
  by (erule invocation_step.cases) (auto simp: invocation_ok_def)

definition invocation_moves :: "tool_invocation list \<Rightarrow> tool_invocation list \<Rightarrow> bool" where
  "invocation_moves s t \<longleftrightarrow> t = s \<or> (\<exists>r. fresh_invocation r \<and> in_id r \<notin> in_id ` set s \<and> t = s @ [r]) \<or>
     (\<exists>r r'. r \<in> set s \<and> invocation_step r r' \<and> t = put_row in_id r' s)"

lemma invocation_moves_cases: "table_ok in_id invocation_ok s \<Longrightarrow> invocation_moves s t \<Longrightarrow>
   t = s \<or> (\<exists>r. fresh_invocation r \<and> in_id r \<notin> in_id ` set s \<and> t = s @ [r]) \<or>
     (\<exists>r r'. r \<in> set s \<and> invocation_step r r' \<and> t = put_row in_id r' s)"
  by (simp add: invocation_moves_def)

interpretation invocations: row_machine in_id fresh_invocation invocation_ok invocation_step invocation_moves
  by unfold_locales (fact invocation_step_id fresh_invocation_ok invocation_ok_step invocation_moves_cases)+

section \<open>The invariant\<close>

definition active_of :: "string \<Rightarrow> agent_turn list \<Rightarrow> agent_turn set" where
  "active_of sid turns = {t \<in> set turns. tu_session t = sid \<and> active_turn t}"

text \<open>An idle Session has no Turn in progress; a queued or running one has exactly one, in the matching state.\<close>

definition session_ok :: "agent_turn list \<Rightarrow> agent_session \<Rightarrow> bool" where
  "session_ok turns s \<longleftrightarrow> 1 \<le> se_version s \<and>
     (case se_state s of
        SE_IDLE \<Rightarrow> active_of (se_id s) turns = {}
      | SE_QUEUED \<Rightarrow> \<exists>t. active_of (se_id s) turns = {t} \<and> tu_state t \<in> {TU_QUEUED, TU_INTERRUPTED}
      | SE_RUNNING \<Rightarrow> \<exists>t. active_of (se_id s) turns = {t} \<and> tu_state t = TU_RUNNING)"

definition turns_placed :: "agent_db \<Rightarrow> bool" where
  "turns_placed db \<longleftrightarrow> (\<forall>t \<in> set (ad_turns db). \<exists>s \<in> set (ad_sessions db). se_id s = tu_session t \<and> se_owner s = tu_owner t)"

definition one_running :: "agent_turn list \<Rightarrow> bool" where
  "one_running turns \<longleftrightarrow> (\<forall>t \<in> set turns. \<forall>u \<in> set turns.
     tu_state t = TU_RUNNING \<longrightarrow> tu_state u = TU_RUNNING \<longrightarrow> tu_owner t = tu_owner u \<longrightarrow> t = u)"

definition turn_log :: "string \<Rightarrow> agent_db \<Rightarrow> turn_event list" where
  "turn_log tid db = filter (\<lambda>e. ev_turn e = tid) (ad_events db)"

definition log_ok :: "agent_db \<Rightarrow> bool" where
  "log_ok db \<longleftrightarrow> (\<forall>t \<in> set (ad_turns db). map ev_sequence (turn_log (tu_id t) db) = [1..tu_sequence t]) \<and>
     (\<forall>e \<in> set (ad_events db). ev_id e \<le> ad_event_seq db \<and> (\<exists>t \<in> set (ad_turns db). event_turn e t)) \<and>
     sorted_wrt (<) (map ev_id (ad_events db))"

definition invocations_placed :: "agent_db \<Rightarrow> bool" where
  "invocations_placed db \<longleftrightarrow> (\<forall>x \<in> set (ad_invocations db). \<exists>t \<in> set (ad_turns db).
       tu_id t = in_turn x \<and> tu_session t = in_session x \<and> tu_owner t = in_owner x) \<and>
     keyed (\<lambda>x. (in_turn x, in_key x)) (ad_invocations db)"

definition agent_ok :: "agent_db \<Rightarrow> bool" where
  "agent_ok db \<longleftrightarrow> keyed se_id (ad_sessions db) \<and> table_ok tu_id turn_ok (ad_turns db) \<and>
     (\<forall>s \<in> set (ad_sessions db). session_ok (ad_turns db) s) \<and> turns_placed db \<and> one_running (ad_turns db) \<and> log_ok db \<and>
     table_ok in_id invocation_ok (ad_invocations db) \<and> invocations_placed db"

lemma agent_okD:
  assumes "agent_ok db"
  shows "keyed se_id (ad_sessions db)" "table_ok tu_id turn_ok (ad_turns db)" "keyed tu_id (ad_turns db)"
    "s \<in> set (ad_sessions db) \<Longrightarrow> session_ok (ad_turns db) s" "turns_placed db" "one_running (ad_turns db)" "log_ok db"
    "table_ok in_id invocation_ok (ad_invocations db)" "invocations_placed db" "t \<in> set (ad_turns db) \<Longrightarrow> turn_ok t"
  using assms by (simp_all add: agent_ok_def table_ok_def list_all_iff)

lemma agent_ok_empty [simp]: "agent_ok empty_agent_db"
  by (simp add: agent_ok_def empty_agent_db_def turns_placed_def one_running_def log_ok_def invocations_placed_def)

lemma turn_session:
  assumes "agent_ok db" and "t \<in> set (ad_turns db)"
  obtains s where "s \<in> set (ad_sessions db)" "se_id s = tu_session t" "se_owner s = tu_owner t" "session_ok (ad_turns db) s"
  using agent_okD(5) [OF assms(1)] agent_okD(4) [OF assms(1)] assms(2) unfolding turns_placed_def by blast

text \<open>The state of its Session follows from the state of a Turn in progress.\<close>

lemma session_of_active:
  assumes "session_ok turns s" and "t \<in> set turns" and "tu_session t = se_id s" and "active_turn t"
  shows "active_of (se_id s) turns = {t}"
    and "se_state s = (if tu_state t = TU_RUNNING then SE_RUNNING else SE_QUEUED)"
proof -
  from assms(2-4) have t: "t \<in> active_of (se_id s) turns" by (simp add: active_of_def)
  with assms(1) show "active_of (se_id s) turns = {t}"
    by (auto simp: session_ok_def split: session_state.splits)
  with assms(1) t show "se_state s = (if tu_state t = TU_RUNNING then SE_RUNNING else SE_QUEUED)"
    by (auto simp: session_ok_def split: session_state.splits)
qed

section \<open>Moves\<close>

inductive agent_move :: "agent_db \<Rightarrow> agent_db \<Rightarrow> bool" where
  mv_none: "agent_move db db"
| mv_session: "se_state s = SE_IDLE \<Longrightarrow> se_version s = 1 \<Longrightarrow> \<forall>x \<in> set (ad_sessions db). \<not> session_clash x s \<Longrightarrow>
    agent_move db (db\<lparr>ad_sessions := ad_sessions db @ [s]\<rparr>)"
| mv_create: "s \<in> set (ad_sessions db) \<Longrightarrow> se_state s = SE_IDLE \<Longrightarrow> fresh_turn t \<Longrightarrow> tu_session t = se_id s \<Longrightarrow>
    tu_owner t = se_owner s \<Longrightarrow> tu_id t \<notin> tu_id ` set (ad_turns db) \<Longrightarrow>
    agent_move db (db\<lparr>ad_sessions := put_row se_id (upd_session now SE_QUEUED s) (ad_sessions db), ad_turns := ad_turns db @ [t]\<rparr>)"
| mv_claim: "t \<in> set (ad_turns db) \<Longrightarrow> turn_claimable now t \<Longrightarrow> \<not> owner_busy t db \<Longrightarrow> s \<in> set (ad_sessions db) \<Longrightarrow>
    se_id s = tu_session t \<Longrightarrow>
    agent_move db (db\<lparr>ad_sessions := put_row se_id (upd_session dt SE_RUNNING s) (ad_sessions db),
      ad_turns := put_row tu_id (upd_turn_claim now w e (tu_token t + 1) t) (ad_turns db)\<rparr>)"
| mv_quiet: "t \<in> set (ad_turns db) \<Longrightarrow> turn_step t t' \<Longrightarrow> tu_state t' = tu_state t \<Longrightarrow> tu_sequence t' = tu_sequence t \<Longrightarrow>
    tu_token t' = tu_token t \<Longrightarrow> agent_move db (db\<lparr>ad_turns := put_row tu_id t' (ad_turns db)\<rparr>)"
| mv_event: "t \<in> set (ad_turns db) \<Longrightarrow> event_turn e t \<Longrightarrow> tu_state t = TU_RUNNING \<Longrightarrow> lease_live now t \<Longrightarrow>
    ev_sequence e = tu_sequence t + 1 \<Longrightarrow> ev_id e = ad_event_seq db + 1 \<Longrightarrow>
    agent_move db (db\<lparr>ad_turns := put_row tu_id (t\<lparr>tu_sequence := ev_sequence e, tu_checkpoint := c\<rparr>) (ad_turns db),
      ad_events := ad_events db @ [e], ad_event_seq := ad_event_seq db + 1\<rparr>)"
| mv_end: "t \<in> set (ad_turns db) \<Longrightarrow> tu_state t = TU_RUNNING \<Longrightarrow> st \<in> insert TU_INTERRUPTED terminal_turn_states \<Longrightarrow>
    s \<in> set (ad_sessions db) \<Longrightarrow> se_id s = tu_session t \<Longrightarrow> se_id s' = se_id s \<Longrightarrow> se_owner s' = se_owner s \<Longrightarrow>
    se_version s' = se_version s + 1 \<Longrightarrow> se_state s' = (if st = TU_INTERRUPTED then SE_QUEUED else SE_IDLE) \<Longrightarrow>
    agent_move db (db\<lparr>ad_sessions := put_row se_id s' (ad_sessions db),
      ad_turns := put_row tu_id (upd_turn_end now st c er t) (ad_turns db)\<rparr>)"
| mv_reserve: "fresh_invocation x \<Longrightarrow> \<forall>y \<in> set (ad_invocations db). \<not> invocation_clash y x \<Longrightarrow> t \<in> set (ad_turns db) \<Longrightarrow>
    tu_id t = in_turn x \<Longrightarrow> tu_session t = in_session x \<Longrightarrow> turn_capable now (in_owner x) v k t \<Longrightarrow>
    agent_move db (db\<lparr>ad_invocations := ad_invocations db @ [x]\<rparr>)"
| mv_finish: "x \<in> set (ad_invocations db) \<Longrightarrow> invocation_step x x' \<Longrightarrow> t \<in> set (ad_turns db) \<Longrightarrow> tu_id t = in_turn x \<Longrightarrow>
    turn_capable now (in_owner x) v k t \<Longrightarrow> agent_move db (db\<lparr>ad_invocations := put_row in_id x' (ad_invocations db)\<rparr>)"

inductive_cases agent_moveE: "agent_move db db'"

subsection \<open>What the moves do to the tables\<close>

lemma set_put_row_eq:
  assumes "keyed key rows" and "r \<in> set rows" and "key r' = key r"
  shows "set (put_row key r' rows) = insert r' (set rows - {r})"
proof (rule set_eqI, rule iffI)
  fix x
  assume "x \<in> set (put_row key r' rows)"
  with assms(3) show "x \<in> insert r' (set rows - {r})" by (auto dest: set_put_row)
next
  fix x
  assume x: "x \<in> insert r' (set rows - {r})"
  show "x \<in> set (put_row key r' rows)"
  proof (cases "x = r'")
    case True
    with assms(2,3) show ?thesis by (auto simp: put_row_def image_iff intro!: bexI [of _ r])
  next
    case False
    with x have "x \<in> set rows" "x \<noteq> r" by auto
    with assms have "key x \<noteq> key r'" by (metis keyed_eqI)
    with \<open>x \<in> set rows\<close> show ?thesis by (auto simp: put_row_def image_iff intro!: bexI [of _ x])
  qed
qed

lemma active_of_append: "active_of sid (turns @ [t]) = active_of sid turns \<union> (if tu_session t = sid \<and> active_turn t then {t} else {})"
  by (auto simp: active_of_def)

lemma active_of_put:
  assumes "keyed tu_id turns" and "t \<in> set turns" and "tu_id t' = tu_id t"
  shows "active_of sid (put_row tu_id t' turns) =
    active_of sid turns - {t} \<union> (if tu_session t' = sid \<and> active_turn t' then {t'} else {})"
  using set_put_row_eq [OF assms] by (auto simp: active_of_def)

lemma active_of_put_other:
  assumes "keyed tu_id turns" and "t \<in> set turns" and "tu_id t' = tu_id t" and "tu_session t' = tu_session t"
    and "sid \<noteq> tu_session t"
  shows "active_of sid (put_row tu_id t' turns) = active_of sid turns"
  unfolding active_of_put [OF assms(1-3)] using assms(4,5) by (auto simp: active_of_def)

lemma turn_moves_intros:
  "turn_moves s s"
  "fresh_turn r \<Longrightarrow> tu_id r \<notin> tu_id ` set s \<Longrightarrow> turn_moves s (s @ [r])"
  "r \<in> set s \<Longrightarrow> turn_step r r' \<Longrightarrow> turn_moves s (put_row tu_id r' s)"
  unfolding turn_moves_def by blast+

lemma turn_move: "agent_move db db' \<Longrightarrow> turn_moves (ad_turns db) (ad_turns db')"
proof (induction rule: agent_move.induct)
  case (mv_end t db st s s' now c er)
  then show ?case using turn_moves_intros(3) [OF mv_end(1) ts_end [OF mv_end(2,3)]] by simp
qed (auto intro!: turn_moves_intros intro: turn_step.intros)

lemma clash_free_id: "\<forall>y \<in> set rows. \<not> invocation_clash y x \<Longrightarrow> in_id x \<notin> in_id ` set rows"
  by (auto simp: invocation_clash_def)

lemma invocation_move: "agent_move db db' \<Longrightarrow> invocation_moves (ad_invocations db) (ad_invocations db')"
  by (induction rule: agent_move.induct)
    (auto simp: invocation_moves_def dest!: clash_free_id)

subsection \<open>Sessions and their Turns\<close>

lemma session_ok_other:
  assumes "session_ok turns s" and "active_of (se_id s) turns' = active_of (se_id s) turns"
  shows "session_ok turns' s"
  using assms(1) unfolding session_ok_def assms(2) .

lemma upd_session_simps [simp]:
  "se_id (upd_session now st s) = se_id s" "se_owner (upd_session now st s) = se_owner s"
  "se_state (upd_session now st s) = st" "se_version (upd_session now st s) = se_version s + 1"
  "se_request (upd_session now st s) = se_request s"
  by (simp_all add: upd_session_def)

text \<open>A move replaces one Session and touches Turns of that Session only: the others stay in order.\<close>

lemma sessions_put:
  assumes "keyed se_id sessions" and "\<forall>x \<in> set sessions. session_ok turns x" and "se_id s' = se_id s"
    and "session_ok turns' s'" and "\<And>sid. sid \<noteq> se_id s \<Longrightarrow> active_of sid turns' = active_of sid turns"
  shows "\<forall>x \<in> set (put_row se_id s' sessions). session_ok turns' x"
proof
  fix x
  assume "x \<in> set (put_row se_id s' sessions)"
  then consider "x = s'" | "x \<in> set sessions" "se_id x \<noteq> se_id s"
    using assms(3) by (auto dest: set_put_row)
  then show "session_ok turns' x"
    using assms(2,4,5) by cases (auto intro: session_ok_other)
qed

lemma sessions_kept:
  assumes "\<forall>x \<in> set sessions. session_ok turns x" and "keyed tu_id turns" and "t \<in> set turns" and "tu_id t' = tu_id t"
    and "tu_session t' = tu_session t" and "tu_state t' = tu_state t"
  shows "\<forall>x \<in> set sessions. session_ok (put_row tu_id t' turns) x"
proof
  fix x
  assume x: "x \<in> set sessions"
  then have ok: "session_ok turns x" using assms(1) by blast
  show "session_ok (put_row tu_id t' turns) x"
  proof (cases "t \<in> active_of (se_id x) turns")
    case True
    then have t: "tu_session t = se_id x" "active_turn t" "t \<in> set turns" by (simp_all add: active_of_def)
    from session_of_active [OF ok t(3,1,2)] t assms(5,6) ok show ?thesis
      by (auto simp: session_ok_def active_of_put [OF assms(2-4)] active_turn_def split: session_state.splits if_splits)
  next
    case False
    with assms(3,5,6) have "active_of (se_id x) (put_row tu_id t' turns) = active_of (se_id x) turns"
      unfolding active_of_put [OF assms(2-4)] by (auto simp: active_of_def active_turn_def)
    with ok show ?thesis by (rule session_ok_other)
  qed
qed

lemma sessions_move:
  assumes "agent_ok db" and "agent_move db db'"
  shows "keyed se_id (ad_sessions db') \<and> (\<forall>s \<in> set (ad_sessions db'). session_ok (ad_turns db') s)"
  using assms(2)
proof (cases rule: agent_move.cases)
  case mv_none
  then show ?thesis using agent_okD [OF assms(1)] by simp
next
  case (mv_session s)
  have "active_of (se_id s) (ad_turns db) = {}"
    using mv_session(4) agent_okD(5) [OF assms(1)] by (fastforce simp: turns_placed_def active_of_def session_clash_def)
  with mv_session have "session_ok (ad_turns db) s" by (simp add: session_ok_def)
  moreover have "se_id s \<notin> se_id ` set (ad_sessions db)" using mv_session by (auto simp: session_clash_def)
  ultimately show ?thesis using mv_session agent_okD [OF assms(1)] by (auto intro: keyed_append)
next
  case (mv_create s t now)
  have ok: "session_ok (ad_turns db) s" using mv_create(2) by (rule agent_okD(4) [OF assms(1)])
  with mv_create have "active_of (se_id s) (ad_turns db @ [t]) = {t}"
    by (auto simp: active_of_append session_ok_def fresh_turn_def active_turn_def terminal_turn_states_def)
  with ok mv_create have "session_ok (ad_turns db @ [t]) (upd_session now SE_QUEUED s)"
    by (auto simp: session_ok_def fresh_turn_def)
  then have "\<forall>x \<in> set (put_row se_id (upd_session now SE_QUEUED s) (ad_sessions db)). session_ok (ad_turns db @ [t]) x"
    using agent_okD [OF assms(1)] mv_create(5) by (intro sessions_put [where turns = "ad_turns db" and s = s]) (auto simp: active_of_append)
  then show ?thesis using mv_create(1) agent_okD(1) [OF assms(1)] by simp
next
  case (mv_claim t now s w e dt)
  let ?t = "upd_turn_claim now w e (tu_token t + 1) t"
  have t: "active_turn t" "tu_id ?t = tu_id t" "tu_session ?t = tu_session t" "active_turn ?t" "tu_state ?t = TU_RUNNING"
    using mv_claim by (auto simp: turn_claimable_def active_turn_def terminal_turn_states_def upd_turn_claim_def)
  have ok: "session_ok (ad_turns db) s" using mv_claim(5) by (rule agent_okD(4) [OF assms(1)])
  note put = active_of_put [OF agent_okD(3) [OF assms(1)] mv_claim(2) t(2)]
  have "active_of (se_id s) (put_row tu_id ?t (ad_turns db)) = {?t}"
    using session_of_active(1) [OF ok mv_claim(2)] mv_claim t by (simp add: put)
  with ok t(5) have "session_ok (put_row tu_id ?t (ad_turns db)) (upd_session dt SE_RUNNING s)"
    by (auto simp: session_ok_def)
  then have "\<forall>x \<in> set (put_row se_id (upd_session dt SE_RUNNING s) (ad_sessions db)). session_ok (put_row tu_id ?t (ad_turns db)) x"
    using agent_okD [OF assms(1)] active_of_put_other [OF agent_okD(3) [OF assms(1)] mv_claim(2) t(2,3)] mv_claim(6)
    by (intro sessions_put [where turns = "ad_turns db" and s = s]) auto
  then show ?thesis using mv_claim(1) agent_okD(1) [OF assms(1)] by simp
next
  case (mv_quiet t t')
  have "\<forall>x \<in> set (ad_sessions db). session_ok (put_row tu_id t' (ad_turns db)) x"
    using agent_okD(4) [OF assms(1)] turn_step_frozen [OF mv_quiet(3)] mv_quiet
    by (intro sessions_kept [OF _ agent_okD(3) [OF assms(1)] mv_quiet(2) turn_step_id [OF mv_quiet(3)]]) auto
  then show ?thesis using mv_quiet(1) agent_okD(1) [OF assms(1)] by simp
next
  case (mv_event t e now c)
  let ?t = "t\<lparr>tu_sequence := ev_sequence e, tu_checkpoint := c\<rparr>"
  have "\<forall>x \<in> set (ad_sessions db). session_ok (put_row tu_id ?t (ad_turns db)) x"
    using agent_okD(4) [OF assms(1)]
    by (intro sessions_kept [OF _ agent_okD(3) [OF assms(1)] mv_event(2)]) auto
  then show ?thesis using mv_event(1) agent_okD(1) [OF assms(1)] by simp
next
  case (mv_end t st s s' now c er)
  let ?t = "upd_turn_end now st c er t"
  have t: "tu_id ?t = tu_id t" "tu_session ?t = tu_session t" "tu_state ?t = st" "active_turn t"
    using mv_end by (auto simp: upd_turn_end_def active_turn_def terminal_turn_states_def)
  have ok: "session_ok (ad_turns db) s" using mv_end(5) by (rule agent_okD(4) [OF assms(1)])
  note put = active_of_put [OF agent_okD(3) [OF assms(1)] mv_end(2) t(1)]
  have "active_of (se_id s) (ad_turns db) = {t}"
    using session_of_active(1) [OF ok mv_end(2)] mv_end(6) t(4) by simp
  then have "active_of (se_id s) (put_row tu_id ?t (ad_turns db)) = (if st = TU_INTERRUPTED then {?t} else {})"
    using mv_end(4,6) t by (auto simp: put active_turn_def terminal_turn_states_def)
  with ok t(3) mv_end have "session_ok (put_row tu_id ?t (ad_turns db)) s'"
    by (auto simp: session_ok_def)
  then have "\<forall>x \<in> set (put_row se_id s' (ad_sessions db)). session_ok (put_row tu_id ?t (ad_turns db)) x"
    using agent_okD [OF assms(1)] active_of_put_other [OF agent_okD(3) [OF assms(1)] mv_end(2) t(1,2)] mv_end(6,7)
    by (intro sessions_put [where turns = "ad_turns db" and s = s]) auto
  then show ?thesis using mv_end(1) agent_okD(1) [OF assms(1)] by simp
qed (use agent_okD [OF assms(1)] in simp_all)

subsection \<open>Identities\<close>

definition turn_ident :: "agent_turn \<Rightarrow> string \<times> string \<times> string" where
  "turn_ident t = (tu_id t, tu_session t, tu_owner t)"

definition session_ident :: "agent_session \<Rightarrow> string \<times> string" where
  "session_ident s = (se_id s, se_owner s)"

lemma in_session_ident: "(i, w) \<in> session_ident ` S \<longleftrightarrow> (\<exists>s \<in> S. se_id s = i \<and> se_owner s = w)"
  by (force simp: session_ident_def)

lemma in_turn_ident: "(i, sid, w) \<in> turn_ident ` S \<longleftrightarrow> (\<exists>t \<in> S. tu_id t = i \<and> tu_session t = sid \<and> tu_owner t = w)"
  by (force simp: turn_ident_def)

lemma image_put_row:
  assumes "keyed key rows" and "r \<in> set rows" and "key r' = key r" and "f r' = f r"
  shows "f ` set (put_row key r' rows) = f ` set rows"
  using set_put_row_eq [OF assms(1-3)] assms(2,4) by auto

lemma turn_step_ident: "turn_step t t' \<Longrightarrow> turn_ident t' = turn_ident t"
  by (simp add: turn_ident_def turn_step_id turn_step_frozen)

lemma turn_put_idents:
  assumes "keyed tu_id turns" and "t \<in> set turns" and "turn_step t t'"
  shows "turn_ident ` set (put_row tu_id t' turns) = turn_ident ` set turns"
  using image_put_row [OF assms(1,2) turn_step_id [OF assms(3)] turn_step_ident [OF assms(3)]] .

lemma session_put_idents:
  assumes "keyed se_id sessions" and "s \<in> set sessions" and "se_id s' = se_id s" and "se_owner s' = se_owner s"
  shows "session_ident ` set (put_row se_id s' sessions) = session_ident ` set sessions"
  using image_put_row [OF assms(1-3), of session_ident] assms(3,4) by (simp add: session_ident_def)

text \<open>A move keeps the identity of every Turn; the one it adds belongs to a Session of its owner.\<close>

lemma turn_idents_move:
  assumes "agent_ok db" and "agent_move db db'"
  shows "turn_ident ` set (ad_turns db') = turn_ident ` set (ad_turns db) \<or>
    (\<exists>t. ad_turns db' = ad_turns db @ [t] \<and> fresh_turn t \<and> tu_id t \<notin> tu_id ` set (ad_turns db) \<and>
       (\<exists>s \<in> set (ad_sessions db). se_id s = tu_session t \<and> se_owner s = tu_owner t) \<and>
       ad_events db' = ad_events db \<and> ad_event_seq db' = ad_event_seq db \<and> ad_invocations db' = ad_invocations db)"
  using assms(2)
proof (cases rule: agent_move.cases)
  case (mv_create s t now)
  then show ?thesis by auto
next
  case (mv_claim t now s w e dt)
  show ?thesis
    using turn_put_idents [OF agent_okD(3) [OF assms(1)] mv_claim(2) ts_claim [OF mv_claim(3)]] mv_claim(1) by (intro disjI1) simp
next
  case (mv_quiet t t')
  show ?thesis
    using turn_put_idents [OF agent_okD(3) [OF assms(1)] mv_quiet(2,3)] mv_quiet(1) by (intro disjI1) simp
next
  case (mv_event t e now c)
  show ?thesis
    using turn_put_idents [OF agent_okD(3) [OF assms(1)] mv_event(2) ts_event [OF mv_event(4-6)]] mv_event(1) by (intro disjI1) simp
next
  case (mv_end t st s s' now c er)
  show ?thesis
    using turn_put_idents [OF agent_okD(3) [OF assms(1)] mv_end(2) ts_end [OF mv_end(3,4)]] mv_end(1) by (intro disjI1) simp
qed simp_all

lemma turn_idents_grow:
  assumes "agent_ok db" and "agent_move db db'"
  shows "turn_ident ` set (ad_turns db) \<subseteq> turn_ident ` set (ad_turns db')"
  using turn_idents_move [OF assms] by auto

lemma session_idents_grow:
  assumes "agent_ok db" and "agent_move db db'"
  shows "session_ident ` set (ad_sessions db) \<subseteq> session_ident ` set (ad_sessions db')"
  using assms(2)
proof (cases rule: agent_move.cases)
  case (mv_create s t now)
  then show ?thesis using session_put_idents [OF agent_okD(1) [OF assms(1)] mv_create(2)] by simp
next
  case (mv_claim t now s w e dt)
  then show ?thesis using session_put_idents [OF agent_okD(1) [OF assms(1)] mv_claim(5)] by simp
next
  case (mv_end t st s s' now c er)
  then show ?thesis using session_put_idents [OF agent_okD(1) [OF assms(1)] mv_end(5,7,8)] by simp
qed auto

lemma turns_placed_iff:
  "turns_placed db \<longleftrightarrow> (\<forall>(i, sid, owner) \<in> turn_ident ` set (ad_turns db). (sid, owner) \<in> session_ident ` set (ad_sessions db))"
  by (simp add: turns_placed_def turn_ident_def in_session_ident)

lemma turns_placed_move:
  assumes "agent_ok db" and "agent_move db db'"
  shows "turns_placed db'"
proof -
  have old: "\<forall>(i, sid, owner) \<in> turn_ident ` set (ad_turns db). (sid, owner) \<in> session_ident ` set (ad_sessions db')"
    using agent_okD(5) [OF assms(1)] session_idents_grow [OF assms] unfolding turns_placed_iff by blast
  from turn_idents_move [OF assms] show ?thesis
  proof (elim disjE exE conjE)
    assume "turn_ident ` set (ad_turns db') = turn_ident ` set (ad_turns db)"
    with old show ?thesis unfolding turns_placed_iff by simp
  next
    fix t
    assume t: "ad_turns db' = ad_turns db @ [t]" "\<exists>s \<in> set (ad_sessions db). se_id s = tu_session t \<and> se_owner s = tu_owner t"
    then have "(tu_session t, tu_owner t) \<in> session_ident ` set (ad_sessions db)"
      by (simp add: in_session_ident)
    with t(1) old session_idents_grow [OF assms] show ?thesis
      unfolding turns_placed_iff by (auto simp: turn_ident_def)
  qed
qed

subsection \<open>One running Turn for a user\<close>

lemma one_running_put:
  assumes "one_running turns" and "keyed tu_id turns" and "t \<in> set turns" and "tu_id t' = tu_id t" and "tu_owner t' = tu_owner t"
    and "tu_state t' = TU_RUNNING \<Longrightarrow> \<forall>u \<in> set turns. tu_state u = TU_RUNNING \<longrightarrow> tu_owner u = tu_owner t \<longrightarrow> u = t"
  shows "one_running (put_row tu_id t' turns)"
  using assms(1,5,6) unfolding one_running_def set_put_row_eq [OF assms(2-4)] by auto

lemma one_running_move:
  assumes "agent_ok db" and "agent_move db db'"
  shows "one_running (ad_turns db')"
proof -
  note ok = agent_okD(6,3) [OF assms(1)]
  have same: "\<forall>u \<in> set (ad_turns db). tu_state u = TU_RUNNING \<longrightarrow> tu_owner u = tu_owner t \<longrightarrow> u = t"
    if "t \<in> set (ad_turns db)" "tu_state t = TU_RUNNING" for t
    using ok(1) that unfolding one_running_def by auto
  show ?thesis
    using assms(2)
  proof (cases rule: agent_move.cases)
    case (mv_create s t now)
    then show ?thesis using ok(1) by (auto simp: one_running_def fresh_turn_def)
  next
    case (mv_claim t now s w e dt)
    have "\<forall>u \<in> set (ad_turns db). tu_state u = TU_RUNNING \<longrightarrow> tu_owner u = tu_owner t \<longrightarrow> u = t"
      using mv_claim(2,4) ok(2) unfolding owner_busy_def by (metis keyed_eqI)
    with mv_claim show ?thesis
      using one_running_put [OF ok mv_claim(2) turn_step_id [OF ts_claim [OF mv_claim(3)]]] by (simp add: upd_turn_claim_def)
  next
    case (mv_quiet t t')
    then show ?thesis
      using one_running_put [OF ok mv_quiet(2) turn_step_id [OF mv_quiet(3)]] turn_step_frozen [OF mv_quiet(3)] same by simp
  next
    case (mv_event t e now c)
    then show ?thesis using one_running_put [OF ok mv_event(2)] same by simp
  next
    case (mv_end t st s s' now c er)
    then show ?thesis
      using one_running_put [OF ok mv_end(2) turn_step_id [OF ts_end [OF mv_end(3,4)]]] same
      by (simp add: upd_turn_end_def)
  qed (use ok(1) in simp_all)
qed

subsection \<open>Logs\<close>

lemma turn_log_append: "ad_events db' = ad_events db @ [e] \<Longrightarrow>
    turn_log tid db' = turn_log tid db @ (if ev_turn e = tid then [e] else [])"
  by (simp add: turn_log_def)

lemma turn_log_same: "ad_events db' = ad_events db \<Longrightarrow> turn_log tid db' = turn_log tid db"
  by (simp add: turn_log_def)

lemma event_turn_ident: "(\<exists>t \<in> S. event_turn e t) \<longleftrightarrow> (ev_turn e, ev_session e, ev_owner e) \<in> turn_ident ` S"
  by (simp add: in_turn_ident event_turn_def)

text \<open>The log depends on the identities and the sequence numbers of the Turns only.\<close>

lemma log_ok_put:
  assumes "log_ok db" and "keyed tu_id (ad_turns db)" and "t \<in> set (ad_turns db)" and "turn_ident t' = turn_ident t"
    and "tu_sequence t' = tu_sequence t" and "ad_turns db' = put_row tu_id t' (ad_turns db)"
    and "ad_events db' = ad_events db" and "ad_event_seq db' = ad_event_seq db"
  shows "log_ok db'"
proof -
  have id: "tu_id t' = tu_id t" using assms(4) by (simp add: turn_ident_def)
  have turns: "set (ad_turns db') = insert t' (set (ad_turns db) - {t})"
    using set_put_row_eq [OF assms(2,3) id] assms(6) by simp
  have idents: "turn_ident ` set (ad_turns db') = turn_ident ` set (ad_turns db)"
    using image_put_row [OF assms(2,3) id, of turn_ident] assms(4,6) by simp
  have "\<exists>x \<in> set (ad_turns db'). event_turn e x" if "e \<in> set (ad_events db)" for e
    using assms(1) that unfolding log_ok_def event_turn_ident idents by blast
  moreover have "map ev_sequence (turn_log (tu_id x) db') = [1..tu_sequence x]" if "x \<in> set (ad_turns db')" for x
    using assms(1,3,5) id that unfolding turns turn_log_same [OF assms(7)] log_ok_def by auto
  ultimately show ?thesis using assms(1,7,8) unfolding log_ok_def by simp
qed

lemma log_ok_event:
  assumes "agent_ok db" and "t \<in> set (ad_turns db)" and "event_turn e t" and "ev_sequence e = tu_sequence t + 1"
    and "ev_id e = ad_event_seq db + 1"
    and "ad_turns db' = put_row tu_id (t\<lparr>tu_sequence := ev_sequence e, tu_checkpoint := c\<rparr>) (ad_turns db)"
    and "ad_events db' = ad_events db @ [e]" and "ad_event_seq db' = ad_event_seq db + 1"
  shows "log_ok db'"
proof -
  let ?t = "t\<lparr>tu_sequence := ev_sequence e, tu_checkpoint := c\<rparr>"
  note ok = agent_okD(7) [OF assms(1)]
  have turns: "set (ad_turns db') = insert ?t (set (ad_turns db) - {t})"
    using set_put_row_eq [OF agent_okD(3) [OF assms(1)] assms(2), of ?t] assms(6) by simp
  have idents: "turn_ident ` set (ad_turns db') = turn_ident ` set (ad_turns db)"
    using image_put_row [OF agent_okD(3) [OF assms(1)] assms(2), of ?t turn_ident] assms(6) by (simp add: turn_ident_def)
  have placed: "\<exists>x \<in> set (ad_turns db'). event_turn f x" if "f \<in> set (ad_events db')" for f
  proof -
    from that assms(2,3,7) ok have "\<exists>x \<in> set (ad_turns db). event_turn f x" unfolding log_ok_def by auto
    then show ?thesis unfolding event_turn_ident idents .
  qed
  have seq: "map ev_sequence (turn_log (tu_id x) db') = [1..tu_sequence x]" if "x \<in> set (ad_turns db')" for x
  proof (cases "x = ?t")
    case True
    have "0 \<le> tu_sequence t" using agent_okD(10) [OF assms(1,2)] by (simp add: turn_ok_def)
    moreover have "map ev_sequence (turn_log (tu_id t) db) = [1..tu_sequence t]" using ok assms(2) unfolding log_ok_def by blast
    moreover have "turn_log (tu_id t) db' = turn_log (tu_id t) db @ [e]"
      using turn_log_append [OF assms(7)] assms(3) by (simp add: event_turn_def)
    ultimately show ?thesis using True assms(4) by (simp add: upto_rec2)
  next
    case False
    with that turns have x: "x \<in> set (ad_turns db)" "x \<noteq> t" by auto
    then have "tu_id x \<noteq> tu_id t" using agent_okD(3) [OF assms(1)] assms(2) by (metis keyed_eqI)
    then have "turn_log (tu_id x) db' = turn_log (tu_id x) db"
      using turn_log_append [OF assms(7)] assms(3) by (simp add: event_turn_def)
    with ok x(1) show ?thesis unfolding log_ok_def by simp
  qed
  have "\<forall>f \<in> set (ad_events db'). ev_id f \<le> ad_event_seq db'"
    using ok assms(5,7,8) by (fastforce simp: log_ok_def)
  moreover have "sorted_wrt (<) (map ev_id (ad_events db'))"
    using ok assms(5,7) by (fastforce simp: log_ok_def sorted_wrt_append)
  ultimately show ?thesis using placed seq unfolding log_ok_def by blast
qed

lemma log_ok_move:
  assumes "agent_ok db" and "agent_move db db'"
  shows "log_ok db'"
  using assms(2)
proof (cases rule: agent_move.cases)
  case (mv_create s t now)
  have "turn_log (tu_id t) db = []"
    using agent_okD(7) [OF assms(1)] mv_create(7)
    by (fastforce simp: turn_log_def log_ok_def event_turn_def filter_empty_conv image_iff)
  with mv_create agent_okD(7) [OF assms(1)] show ?thesis
    by (auto simp: log_ok_def turn_log_def fresh_turn_def)
next
  case (mv_claim t now s w e dt)
  then show ?thesis
    using log_ok_put [OF agent_okD(7,3) [OF assms(1)] mv_claim(2) turn_step_ident [OF ts_claim [OF mv_claim(3)]]]
    by (simp add: upd_turn_claim_def)
next
  case (mv_quiet t t')
  then show ?thesis
    using log_ok_put [OF agent_okD(7,3) [OF assms(1)] mv_quiet(2) turn_step_ident [OF mv_quiet(3)] mv_quiet(5)] by simp
next
  case (mv_event t e now c)
  then show ?thesis using log_ok_event [OF assms(1) mv_event(2,3,6,7)] by simp
next
  case (mv_end t st s s' now c er)
  then show ?thesis
    using log_ok_put [OF agent_okD(7,3) [OF assms(1)] mv_end(2) turn_step_ident [OF ts_end [OF mv_end(3,4)]]]
    by (simp add: upd_turn_end_def)
qed (use agent_okD(7) [OF assms(1)] in \<open>simp_all add: log_ok_def turn_log_def\<close>)

subsection \<open>Tool invocations\<close>

lemma invocations_placed_iff:
  "invocations_placed db \<longleftrightarrow>
     (\<forall>x \<in> set (ad_invocations db). (in_turn x, in_session x, in_owner x) \<in> turn_ident ` set (ad_turns db)) \<and>
     keyed (\<lambda>x. (in_turn x, in_key x)) (ad_invocations db)"
  by (simp add: invocations_placed_def in_turn_ident)

lemma keyed_put_other:
  assumes "keyed key rows" and "keyed k rows" and "r \<in> set rows" and "key r' = key r" and "k r' = k r"
  shows "keyed k (put_row key r' rows)"
proof -
  have "map k (put_row key r' rows) = map k rows"
    unfolding put_row_def using assms(1,3-5) by (auto dest: keyed_eqI)
  with assms(2) show ?thesis by (simp add: keyed_def)
qed

lemma invocations_placed_move:
  assumes "agent_ok db" and "agent_move db db'"
  shows "invocations_placed db'"
proof -
  note ok = agent_okD(9) [OF assms(1), unfolded invocations_placed_iff]
  have grow: "turn_ident ` set (ad_turns db) \<subseteq> turn_ident ` set (ad_turns db')" by (rule turn_idents_grow [OF assms])
  show ?thesis
  proof (cases "ad_invocations db' = ad_invocations db")
    case True
    with ok grow show ?thesis unfolding invocations_placed_iff True by blast
  next
    case False
    with assms(2) show ?thesis
    proof (cases rule: agent_move.cases)
      case (mv_reserve x t now v k)
      have "keyed (\<lambda>x. (in_turn x, in_key x)) (ad_invocations db @ [x])"
        using ok mv_reserve(3) by (intro keyed_append) (auto simp: invocation_clash_def)
      moreover have "(in_turn x, in_session x, in_owner x) \<in> turn_ident ` set (ad_turns db)"
        using mv_reserve(4-7) by (auto simp: in_turn_ident turn_capable_def)
      ultimately show ?thesis using ok mv_reserve(1) unfolding invocations_placed_iff by simp
    next
      case (mv_finish x x' t now v k)
      have x': "in_id x' = in_id x" "(in_turn x', in_session x', in_owner x') = (in_turn x, in_session x, in_owner x)"
        "(in_turn x', in_key x') = (in_turn x, in_key x)"
        using mv_finish(3) by (auto elim!: invocation_step.cases)
      have k: "keyed in_id (ad_invocations db)" using agent_okD(8) [OF assms(1)] by (rule table_okD)
      have "(in_turn y, in_session y, in_owner y) \<in> turn_ident ` set (ad_turns db)"
        if "y \<in> set (put_row in_id x' (ad_invocations db))" for y
        using set_put_row [OF that] ok x'(2) mv_finish(2) by auto
      moreover have "keyed (\<lambda>x. (in_turn x, in_key x)) (put_row in_id x' (ad_invocations db))"
        using ok by (intro keyed_put_other [OF k _ mv_finish(2) x'(1,3)]) simp
      ultimately show ?thesis using mv_finish(1) unfolding invocations_placed_iff by simp
    qed simp_all
  qed
qed

lemma agent_ok_move:
  assumes "agent_ok db" and "agent_move db db'"
  shows "agent_ok db'"
proof -
  have "table_ok tu_id turn_ok (ad_turns db')"
    using agent_okD(2) [OF assms(1)] turn_move [OF assms(2)] by (rule turns.tstep_ok)
  moreover have "table_ok in_id invocation_ok (ad_invocations db')"
    using agent_okD(8) [OF assms(1)] invocation_move [OF assms(2)] by (rule invocations.tstep_ok)
  ultimately show ?thesis
    using sessions_move [OF assms] turns_placed_move [OF assms] one_running_move [OF assms] log_ok_move [OF assms]
      invocations_placed_move [OF assms] by (simp add: agent_ok_def)
qed

section \<open>The operations as moves\<close>

text \<open>A statement that pins the key and reports one row has replaced that row.\<close>

lemma pinned_once:
  assumes "keyed key rows" and "\<And>x. p x \<Longrightarrow> key x = k" and "rowcount p rows = 1" and "\<And>x. key (f x) = key x"
  obtains r where "r \<in> set rows" "key r = k" "p r" "sql_update p f rows = put_row key (f r) rows"
proof -
  from assms(3) have "0 < rowcount p rows" by simp
  then obtain r where r: "r \<in> set rows" "p r" unfolding rowcount_pos by blast
  moreover have "key r = k" using r(2) by (rule assms(2))
  moreover have "sql_update p f rows = put_row key (f r) rows"
    by (rule sql_update_put [where k = k]) (use assms(1,2,4) r in auto)
  ultimately show ?thesis using that by blast
qed

lemma rowcount_one:
  assumes "keyed key rows" and "\<And>x. p x \<Longrightarrow> key x = k" and "r \<in> set rows" and "p r"
  shows "rowcount p rows = 1"
proof -
  have "key r = k" using assms(2,4) by blast
  with assms(1,3) have "row_of key k rows = Some r" by (simp add: row_of_Some_iff)
  with rowcount_pinned [of key rows p k] assms(1,2,4) show ?thesis by simp
qed

lemma not_one: "rowcount p rows \<noteq> 1 \<Longrightarrow> keyed key rows \<Longrightarrow> (\<And>x. p x \<Longrightarrow> key x = k) \<Longrightarrow> r \<in> set rows \<Longrightarrow> \<not> p r"
  using rowcount_one [of key rows p k r] by blast

lemma fetch_key:
  assumes "keyed key rows" and "r \<in> set rows" and "key r = k"
  shows "fetchone (\<lambda>x. key x = k) rows = Some r"
  using assms row_of_Some_iff [OF assms(1)] by (simp add: row_of_def)

lemma fetch_put:
  assumes "keyed key rows" and "r \<in> set rows" and "key r' = key r"
  shows "fetchone (\<lambda>x. key x = key r) (put_row key r' rows) = Some r'"
  using fetch_key [of key "put_row key r' rows" r' "key r"] assms set_put_row_eq [OF assms] by simp

text \<open>In a database that is in order a Turn determines its Session, and an owner check on it changes nothing.\<close>

lemma move_session_ok:
  assumes "keyed se_id (ad_sessions db)" and "s \<in> set (ad_sessions db)" and "se_state s \<in> states" and "\<And>x. se_id (f x) = se_id x"
  shows "move_session (se_id s) (se_owner s) states f refused db =
    (Inr (), db\<lparr>ad_sessions := put_row se_id (f s) (ad_sessions db)\<rparr>)"
proof -
  let ?p = "\<lambda>x. se_id x = se_id s \<and> se_owner x = se_owner s \<and> se_version x = se_version s \<and> se_state x \<in> states"
  have "fetchone (\<lambda>x. se_id x = se_id s \<and> se_owner x = se_owner s) (ad_sessions db) = Some s"
    using fetchone_pinned [OF assms(1), of "\<lambda>x. se_id x = se_id s \<and> se_owner x = se_owner s" "se_id s"] assms(1,2)
      row_of_Some_iff [OF assms(1), of "se_id s" s] by simp
  moreover have "rowcount ?p (ad_sessions db) = 1"
    by (rule rowcount_one [OF assms(1), of _ "se_id s" s]) (use assms(2,3) in auto)
  moreover have "sql_update ?p f (ad_sessions db) = put_row se_id (f s) (ad_sessions db)"
    by (rule sql_update_put [OF assms(1), of _ "se_id s"]) (use assms(2-4) in auto)
  ultimately show ?thesis by (simp add: move_session_def)
qed

lemma session_of_turn:
  assumes "agent_ok db" and "t \<in> set (ad_turns db)" and "active_turn t"
  obtains s where "s \<in> set (ad_sessions db)" "se_id s = tu_session t" "se_owner s = tu_owner t"
    "se_state s = (if tu_state t = TU_RUNNING then SE_RUNNING else SE_QUEUED)"
proof -
  from turn_session [OF assms(1,2)] obtain s where s: "s \<in> set (ad_sessions db)" "se_id s = tu_session t"
    "se_owner s = tu_owner t" "session_ok (ad_turns db) s" by blast
  with session_of_active(2) [OF s(4) assms(2)] assms(3) that show ?thesis by simp
qed

lemma turn_claimable_active: "turn_claimable now t \<Longrightarrow> active_turn t"
  by (auto simp: turn_claimable_def active_turn_def terminal_turn_states_def)

lemma running_active: "tu_state t = TU_RUNNING \<Longrightarrow> active_turn t"
  by (simp add: active_turn_def terminal_turn_states_def)

subsection \<open>Claims\<close>

definition claim_turn_args :: "datetime \<Rightarrow> string \<Rightarrow> string \<Rightarrow> int \<Rightarrow> bool" where
  "claim_turn_args base tid worker n \<longleftrightarrow> ref_ok tid \<and> ref_ok worker \<and> 0 < n \<and> after_seconds n base \<noteq> None"

lemma checked_call_refused: "\<not> list_all fst cs \<Longrightarrow> \<exists>e. checked_call cs f db = (Inl e, db)"
  using first_failure_None [of cs] by (auto simp: checked_call_def)

lemma checked_call_ok: "list_all fst cs \<Longrightarrow> checked_call cs f db = f db"
  by (simp add: checked_call_def first_failure_None [THEN iffD2])

lemma checked_call_move:
  assumes "list_all fst cs \<Longrightarrow> agent_move db (snd (f db))"
  shows "agent_move db (snd (checked_call cs f db))"
proof (cases "list_all fst cs")
  case True
  with assms show ?thesis by (simp add: checked_call_ok)
next
  case False
  from checked_call_refused [OF False] show ?thesis by (metis mv_none snd_conv)
qed

text \<open>What \<open>claim_turn\<close> does, when its arguments are accepted.\<close>

definition claimed_turn :: "datetime \<Rightarrow> datetime \<Rightarrow> string \<Rightarrow> int \<Rightarrow> agent_turn \<Rightarrow> agent_turn" where
  "claimed_turn now base worker n t = upd_turn_claim (isoformat now) worker (the (after_seconds n base)) (tu_token t + 1) t"

lemma claim_turn_none:
  assumes "agent_ok db" and "claim_turn_args base tid worker n"
    and "\<forall>t \<in> set (ad_turns db). tu_id t = tid \<longrightarrow> \<not> turn_claimable (isoformat now) t \<or> owner_busy t db"
  shows "claim_turn now base tid worker n db = (Inr None, db)"
proof -
  have "list_all fst [(ref_ok tid, A_Value ''turn_id''), (ref_ok worker, A_Value ''worker_id''), (0 < n, A_Value ''lease_seconds''),
      (after_seconds n base \<noteq> None, A_Overflow)]"
    using assms(2) by (simp add: claim_turn_args_def)
  note ok = checked_call_ok [OF this]
  show ?thesis
    unfolding claim_turn_def ok using assms(3)
    by (auto simp: fetchone_None split: option.split dest!: fetchone_Some)
qed

lemma claim_turn_some:
  assumes "agent_ok db" and "claim_turn_args base tid worker n"
    and t: "t \<in> set (ad_turns db)" "tu_id t = tid" "turn_claimable (isoformat now) t" "\<not> owner_busy t db"
  obtains s where "s \<in> set (ad_sessions db)" "se_id s = tu_session t" "se_owner s = tu_owner t"
    "claim_turn now base tid worker n db =
      (Inr (Some \<lparr>le_turn = tid, le_session = tu_session t, le_owner = tu_owner t, le_worker = worker,
          le_version = tu_version t + 1, le_token = tu_token t + 1, le_expires = the (after_seconds n base)\<rparr>),
       db\<lparr>ad_sessions := put_row se_id (upd_session now SE_RUNNING s) (ad_sessions db),
          ad_turns := put_row tu_id (claimed_turn now base worker n t) (ad_turns db)\<rparr>)"
proof -
  note k = agent_okD(3) [OF assms(1)]
  let ?f = "upd_turn_claim (isoformat now) worker (the (after_seconds n base)) (tu_token t + 1)"
  let ?p = "\<lambda>u. tu_id u = tid \<and> tu_version u = tu_version t \<and> tu_token u = tu_token t \<and> turn_claimable (isoformat now) u"
  have args: "list_all fst [(ref_ok tid, A_Value ''turn_id''), (ref_ok worker, A_Value ''worker_id''), (0 < n, A_Value ''lease_seconds''),
      (after_seconds n base \<noteq> None, A_Overflow)]"
    using assms(2) by (simp add: claim_turn_args_def)
  have f1: "fetchone (\<lambda>u. tu_id u = tid \<and> turn_claimable (isoformat now) u) (ad_turns db) = Some t"
    using fetchone_pinned [OF k, of "\<lambda>u. tu_id u = tid \<and> turn_claimable (isoformat now) u" tid] t
      row_of_Some_iff [OF k, of tid t] by simp
  have one: "rowcount ?p (ad_turns db) = 1"
    by (rule rowcount_one [OF k, of _ tid t]) (use t in auto)
  have put: "sql_update ?p ?f (ad_turns db) = put_row tu_id (claimed_turn now base worker n t) (ad_turns db)"
    unfolding claimed_turn_def by (rule sql_update_put [OF k, of _ tid]) (use t in \<open>auto simp: upd_turn_claim_def\<close>)
  have again: "fetchone (\<lambda>u. tu_id u = tid) (put_row tu_id (claimed_turn now base worker n t) (ad_turns db)) =
      Some (claimed_turn now base worker n t)"
    using fetch_put [OF k t(1), of "claimed_turn now base worker n t"] t(2) by (simp add: claimed_turn_def upd_turn_claim_def)
  have lease: "lease_of (claimed_turn now base worker n t) =
      Inr \<lparr>le_turn = tid, le_session = tu_session t, le_owner = tu_owner t, le_worker = worker,
          le_version = tu_version t + 1, le_token = tu_token t + 1, le_expires = the (after_seconds n base)\<rparr>"
    using t(2) by (simp add: lease_of_def claimed_turn_def upd_turn_claim_def)
  from session_of_turn [OF assms(1) t(1) turn_claimable_active [OF t(3)]] obtain s where
    s: "s \<in> set (ad_sessions db)" "se_id s = tu_session t" "se_owner s = tu_owner t"
    "se_state s = (if tu_state t = TU_RUNNING then SE_RUNNING else SE_QUEUED)" by blast
  have move: "move_session (tu_session t) (tu_owner t) {SE_QUEUED, SE_RUNNING} (upd_session now SE_RUNNING) r
      (db\<lparr>ad_turns := ts\<rparr>) = (Inr (), db\<lparr>ad_turns := ts, ad_sessions := put_row se_id (upd_session now SE_RUNNING s) (ad_sessions db)\<rparr>)" for r ts
    using move_session_ok [of "db\<lparr>ad_turns := ts\<rparr>" s "{SE_QUEUED, SE_RUNNING}" "upd_session now SE_RUNNING" r]
      agent_okD(1) [OF assms(1)] s by simp
  show ?thesis
  proof (rule that [OF s(1-3)])
    show "claim_turn now base tid worker n db =
      (Inr (Some \<lparr>le_turn = tid, le_session = tu_session t, le_owner = tu_owner t, le_worker = worker,
          le_version = tu_version t + 1, le_token = tu_token t + 1, le_expires = the (after_seconds n base)\<rparr>),
       db\<lparr>ad_sessions := put_row se_id (upd_session now SE_RUNNING s) (ad_sessions db),
          ad_turns := put_row tu_id (claimed_turn now base worker n t) (ad_turns db)\<rparr>)"
      unfolding claim_turn_def checked_call_ok [OF args] f1
      using t(4) by (simp add: one put move again lease)
  qed
qed

lemma claim_turn_move:
  assumes "agent_ok db"
  shows "agent_move db (snd (claim_turn now base tid worker n db))"
proof (cases "claim_turn_args base tid worker n")
  case False
  then have "\<exists>e. claim_turn now base tid worker n db = (Inl e, db)"
    unfolding claim_turn_def by (intro checked_call_refused) (auto simp: claim_turn_args_def)
  then show ?thesis by (auto intro: mv_none)
next
  case True
  show ?thesis
  proof (cases "\<forall>t \<in> set (ad_turns db). tu_id t = tid \<longrightarrow> \<not> turn_claimable (isoformat now) t \<or> owner_busy t db")
    case none: True
    from claim_turn_none [OF assms True none] show ?thesis by (simp add: mv_none)
  next
    case False
    then obtain t where t: "t \<in> set (ad_turns db)" "tu_id t = tid" "turn_claimable (isoformat now) t" "\<not> owner_busy t db" by blast
    from claim_turn_some [OF assms True t] obtain s where s: "s \<in> set (ad_sessions db)" "se_id s = tu_session t"
      "snd (claim_turn now base tid worker n db) = db\<lparr>ad_sessions := put_row se_id (upd_session now SE_RUNNING s) (ad_sessions db),
          ad_turns := put_row tu_id (claimed_turn now base worker n t) (ad_turns db)\<rparr>" by (metis snd_conv)
    from mv_claim [OF t(1,3,4) s(1,2)] show ?thesis unfolding s(3) claimed_turn_def .
  qed
qed

subsection \<open>Writes under a lease\<close>

lemma renew_turn_move:
  assumes "agent_ok db"
  shows "agent_move db (snd (renew_turn now base l n db))"
  unfolding renew_turn_def
proof (rule checked_call_move, goal_cases)
  case 1
  let ?p = "\<lambda>t. turn_held l t \<and> lease_live (isoformat now) t"
  let ?f = "\<lambda>t. t\<lparr>tu_lease_expires := after_seconds n base\<rparr>"
  show ?case
  proof (cases "rowcount ?p (ad_turns db) = 1")
    case False
    then show ?thesis by (simp add: mv_none)
  next
    case True
    obtain t where t: "t \<in> set (ad_turns db)" "?p t" "sql_update ?p ?f (ad_turns db) = put_row tu_id (?f t) (ad_turns db)"
      by (rule pinned_once [OF agent_okD(3) [OF assms] _ True, where f = ?f and k = "le_turn l"])
        (auto simp: turn_held_def)
    obtain e where e: "after_seconds n base = Some e" using 1 by auto
    have "agent_move db (db\<lparr>ad_turns := put_row tu_id (?f t) (ad_turns db)\<rparr>)"
    proof (rule mv_quiet [OF t(1)])
      show "turn_step t (?f t)" using t(2) unfolding e by (intro ts_renew [of _ "isoformat now"]) (auto simp: turn_held_def)
    qed simp_all
    with True t(3) show ?thesis by (simp add: Let_def split: option.split)
  qed
qed

text \<open>The trigger changes the checkpoint of the row it runs on only.\<close>

lemma checkpoint_pointer_put:
  assumes "keyed tu_id turns" and "t \<in> set turns" and "event_turn e t" and "i = ev_sequence e"
    and "checkpoint_pointer e (put_row tu_id (t\<lparr>tu_sequence := i\<rparr>) turns) = Some ts"
  shows "\<exists>c. ts = put_row tu_id (t\<lparr>tu_sequence := i, tu_checkpoint := c\<rparr>) turns \<and>
    (ev_type e = ''checkpoint'' \<longrightarrow> payload_checkpoint (ev_payload e) = c) \<and> (ev_type e \<noteq> ''checkpoint'' \<longrightarrow> c = tu_checkpoint t)"
proof (cases "ev_type e = ''checkpoint''")
  case False
  with assms(5) show ?thesis by (auto simp: checkpoint_pointer_def intro!: exI [of _ "tu_checkpoint t"])
next
  case True
  let ?t = "t\<lparr>tu_sequence := i\<rparr>"
  from assms(5) True obtain c where c: "payload_checkpoint (ev_payload e) = Some c"
    "ts = sql_update (event_turn e) (\<lambda>t. t\<lparr>tu_checkpoint := Some c\<rparr>) (put_row tu_id ?t turns)"
    by (auto simp: checkpoint_pointer_def split: option.splits if_splits)
  have "sql_update (event_turn e) (\<lambda>t. t\<lparr>tu_checkpoint := Some c\<rparr>) (put_row tu_id ?t turns) =
      put_row tu_id (?t\<lparr>tu_checkpoint := Some c\<rparr>) (put_row tu_id ?t turns)"
    by (rule sql_update_put [where k = "ev_turn e"])
      (use assms(1-3) set_put_row_eq [OF assms(1,2), of ?t] in \<open>auto simp: event_turn_def\<close>)
  also have "\<dots> = put_row tu_id (?t\<lparr>tu_checkpoint := Some c\<rparr>) turns"
    by (simp add: put_row_def)
  finally show ?thesis using c True by auto
qed

lemma append_turn_event_cases:
  assumes "agent_ok db"
  obtains (same) r where "append_turn_event now tid l i et payload db = (r, db)"
      "\<And>e. r = Inr e \<Longrightarrow> e \<in> set (ad_events db) \<and> ev_turn e = tid \<and> ev_sequence e = i \<and> ev_type e = et \<and> python_eq (ev_payload e) payload"
    | (new) t c where "t \<in> set (ad_turns db)" "event_due (isoformat now) l i t" "le_turn l = tid"
      "et \<noteq> ''checkpoint'' \<Longrightarrow> c = tu_checkpoint t" "et = ''checkpoint'' \<Longrightarrow> payload_checkpoint (canonical payload) = c"
      "append_turn_event now tid l i et payload db =
        (Inr (new_event now (ad_event_seq db + 1) l i et payload),
         db\<lparr>ad_turns := put_row tu_id (t\<lparr>tu_sequence := i, tu_checkpoint := c\<rparr>) (ad_turns db),
            ad_events := ad_events db @ [new_event now (ad_event_seq db + 1) l i et payload], ad_event_seq := ad_event_seq db + 1\<rparr>)"
proof (cases "list_all fst [(0 < i, A_Value ''sequence''), (name_ok et, A_Value ''event_type''), (is_object payload, A_Type ''payload''),
      (le_turn l = tid, A_Conflict ''claim is bound to a different Turn'')]")
  case False
  then obtain e where "append_turn_event now tid l i et payload db = (Inl e, db)"
    unfolding append_turn_event_def using checked_call_refused by blast
  then show ?thesis using same by auto
next
  case args: True
  note eq = append_turn_event_def checked_call_ok [OF args]
  let ?e = "new_event now (ad_event_seq db + 1) l i et payload"
  let ?p = "event_due (isoformat now) l i"
  let ?f = "\<lambda>t. t\<lparr>tu_sequence := i\<rparr>"
  show ?thesis
  proof (cases "fetchone (\<lambda>e. ev_turn e = tid \<and> ev_sequence e = i) (ad_events db)")
    case (Some e)
    from fetchone_Some [OF Some] have "\<exists>r. append_turn_event now tid l i et payload db = (r, db) \<and> (\<forall>e. r = Inr e \<longrightarrow>
        e \<in> set (ad_events db) \<and> ev_turn e = tid \<and> ev_sequence e = i \<and> ev_type e = et \<and> python_eq (ev_payload e) payload)"
      unfolding eq by (simp add: Some)
    then show ?thesis using same by blast
  next
    case None
    show ?thesis
    proof (cases "rowcount ?p (ad_turns db) = 1")
      case False
      then have "append_turn_event now tid l i et payload db = (Inl (A_Conflict ''non-contiguous or fenced''), db)"
        unfolding eq by (simp add: None)
      then show ?thesis using same by auto
    next
      case True
      obtain t where t: "t \<in> set (ad_turns db)" "?p t" "sql_update ?p ?f (ad_turns db) = put_row tu_id (?f t) (ad_turns db)"
        by (rule pinned_once [OF agent_okD(3) [OF assms] _ True, where f = ?f and k = "le_turn l"])
          (auto simp: event_due_def turn_bound_def turn_held_def)
      have et: "event_turn ?e t" using t(2) by (simp add: event_turn_def new_event_def event_due_def turn_bound_def turn_held_def)
      show ?thesis
      proof (cases "checkpoint_pointer ?e (put_row tu_id (?f t) (ad_turns db))")
        case None2: None
        then have "append_turn_event now tid l i et payload db = (Inl A_Integrity, db)"
          unfolding eq using True by (simp add: None t(3))
        then show ?thesis using same by auto
      next
        case (Some ts)
        from checkpoint_pointer_put [OF agent_okD(3) [OF assms] t(1) et _ Some] obtain c where
          c: "ts = put_row tu_id (t\<lparr>tu_sequence := i, tu_checkpoint := c\<rparr>) (ad_turns db)"
          "et = ''checkpoint'' \<longrightarrow> payload_checkpoint (canonical payload) = c" "et \<noteq> ''checkpoint'' \<longrightarrow> c = tu_checkpoint t"
          by (auto simp: new_event_def)
        have "append_turn_event now tid l i et payload db =
          (Inr ?e, db\<lparr>ad_turns := ts, ad_events := ad_events db @ [?e], ad_event_seq := ad_event_seq db + 1\<rparr>)"
          unfolding eq using True by (simp add: None t(3) Some Let_def)
        with c t args show ?thesis by (intro new) auto
      qed
    qed
  qed
qed

lemma append_turn_event_move:
  assumes "agent_ok db"
  shows "agent_move db (snd (append_turn_event now tid l i et payload db))"
proof (rule append_turn_event_cases [OF assms, of now tid l i et payload], goal_cases)
  case (1 r)
  then show ?case by (simp add: mv_none)
next
  case new: (2 t c)
  have "agent_move db (db\<lparr>ad_turns := put_row tu_id (t\<lparr>tu_sequence := ev_sequence (new_event now (ad_event_seq db + 1) l i et payload),
      tu_checkpoint := c\<rparr>) (ad_turns db), ad_events := ad_events db @ [new_event now (ad_event_seq db + 1) l i et payload],
      ad_event_seq := ad_event_seq db + 1\<rparr>)"
    using new(1,2)
    by (intro mv_event [where now = "isoformat now"])
      (auto simp: event_turn_def new_event_def event_due_def turn_bound_def turn_held_def)
  with new(6) show ?case by (simp add: new_event_def)
qed

lemma request_turn_cancel_move:
  assumes "agent_ok db"
  shows "agent_move db (snd (request_turn_cancel tid owner v db))"
  unfolding request_turn_cancel_def
proof (rule checked_call_move, goal_cases)
  case 1
  let ?p = "cancel_due tid owner v"
  let ?f = "\<lambda>u. u\<lparr>tu_cancel := True, tu_version := tu_version u + 1\<rparr>"
  show ?case
  proof (cases "fetchone (\<lambda>t. tu_id t = tid \<and> tu_owner t = owner) (ad_turns db)")
    case None
    then show ?thesis by (simp add: mv_none)
  next
    case (Some t)
    show ?thesis
    proof (cases "tu_state t \<in> terminal_turn_states \<or> tu_cancel t \<or> tu_version t \<noteq> v \<or> rowcount ?p (ad_turns db) \<noteq> 1")
      case True
      with Some show ?thesis by (auto simp: mv_none)
    next
      case False
      then have one: "rowcount ?p (ad_turns db) = 1" by simp
      obtain u where u: "u \<in> set (ad_turns db)" "tu_id u = tid" "?p u"
        "sql_update ?p ?f (ad_turns db) = put_row tu_id (?f u) (ad_turns db)"
        by (rule pinned_once [OF agent_okD(3) [OF assms] _ one, where f = ?f and k = tid]) (auto simp: cancel_due_def)
      from fetchone_Some [OF Some] u(1,2) agent_okD(3) [OF assms] have "u = t" by (metis keyed_eqI)
      with False have "agent_move db (db\<lparr>ad_turns := put_row tu_id (?f u) (ad_turns db)\<rparr>)"
        using u(1) by (intro mv_quiet [of u]) (auto intro!: ts_cancel simp: active_turn_def)
      with False Some u(4) show ?thesis by (simp add: Let_def)
    qed
  qed
qed

text \<open>The end of a claim: what \<open>complete_turn\<close> and \<open>interrupt_turn\<close> share.\<close>

lemma end_claim_some:
  assumes "agent_ok db" and "t \<in> set (ad_turns db)" and "turn_bound l t" and "tu_id (f t) = tu_id t" and "\<And>x. se_id (g x) = se_id x"
  obtains s where "s \<in> set (ad_sessions db)" "se_id s = tu_session t" "se_owner s = tu_owner t" "se_state s = SE_RUNNING"
    "end_claim l f g db = (Inr (f t), db\<lparr>ad_sessions := put_row se_id (g s) (ad_sessions db),
       ad_turns := put_row tu_id (f t) (ad_turns db)\<rparr>)"
proof -
  note k = agent_okD(3) [OF assms(1)]
  have pin: "\<And>x. turn_bound l x \<Longrightarrow> tu_id x = le_turn l" by (simp add: turn_bound_def turn_held_def)
  have t: "tu_id t = le_turn l" "tu_session t = le_session l" "tu_owner t = le_owner l" "tu_state t = TU_RUNNING"
    using assms(3) by (simp_all add: turn_bound_def turn_held_def)
  have one: "rowcount (turn_bound l) (ad_turns db) = 1"
    using k pin assms(2,3) by (rule rowcount_one)
  have put: "sql_update (turn_bound l) f (ad_turns db) = put_row tu_id (f t) (ad_turns db)"
    by (rule sql_update_put [OF k, where k = "le_turn l"]) (use assms(2-4) t(1) pin in auto)
  from session_of_turn [OF assms(1,2) running_active [OF t(4)]] t(4) obtain s where
    s: "s \<in> set (ad_sessions db)" "se_id s = tu_session t" "se_owner s = tu_owner t" "se_state s = SE_RUNNING" by auto
  have move: "move_session (le_session l) (le_owner l) {SE_RUNNING} g r (db\<lparr>ad_turns := ts\<rparr>) =
      (Inr (), db\<lparr>ad_turns := ts, ad_sessions := put_row se_id (g s) (ad_sessions db)\<rparr>)" for r ts
    using move_session_ok [of "db\<lparr>ad_turns := ts\<rparr>" s "{SE_RUNNING}" g r] agent_okD(1) [OF assms(1)] s t assms(5) by simp
  have again: "fetchone (\<lambda>x. tu_id x = le_turn l) (put_row tu_id (f t) (ad_turns db)) = Some (f t)"
    using fetch_put [OF k assms(2,4)] t(1) by simp
  show ?thesis
    by (rule that [OF s]) (simp add: end_claim_def one put move again)
qed

lemma end_claim_fenced:
  assumes "agent_ok db" and "\<forall>t \<in> set (ad_turns db). \<not> turn_bound l t"
  shows "end_claim l f g db = (Inl (A_Conflict ''fenced''), db)"
proof -
  have "rowcount (turn_bound l) (ad_turns db) = 0" using assms(2) by (simp add: rowcount_zero)
  then show ?thesis by (simp add: end_claim_def)
qed

lemma end_claim_move:
  assumes "agent_ok db" and "\<And>t. f t = upd_turn_end now st c er t" and "st \<in> insert TU_INTERRUPTED terminal_turn_states"
    and "\<And>x. se_id (g x) = se_id x" and "\<And>x. se_owner (g x) = se_owner x" and "\<And>x. se_version (g x) = se_version x + 1"
    and "\<And>x. se_state (g x) = (if st = TU_INTERRUPTED then SE_QUEUED else SE_IDLE)"
  shows "agent_move db (snd (end_claim l f g db))"
proof (cases "\<forall>t \<in> set (ad_turns db). \<not> turn_bound l t")
  case True
  from end_claim_fenced [OF assms(1) True] show ?thesis by (simp add: mv_none)
next
  case False
  then obtain t where t: "t \<in> set (ad_turns db)" "turn_bound l t" by blast
  have "tu_id (f t) = tu_id t" by (simp add: assms(2) upd_turn_end_def)
  from end_claim_some [where f = f and g = g, OF assms(1) t this assms(4)] obtain s where s: "s \<in> set (ad_sessions db)" "se_id s = tu_session t"
    "snd (end_claim l f g db) = db\<lparr>ad_sessions := put_row se_id (g s) (ad_sessions db), ad_turns := put_row tu_id (f t) (ad_turns db)\<rparr>"
    by (metis snd_conv)
  have "tu_state t = TU_RUNNING" using t(2) by (simp add: turn_bound_def turn_held_def)
  from mv_end [OF t(1) this assms(3) s(1,2) assms(4-7)] show ?thesis unfolding s(3) assms(2) .
qed

lemma complete_turn_move: "agent_ok db \<Longrightarrow> agent_move db (snd (complete_turn now tid l checkpoint usage outcome db))"
  unfolding complete_turn_def
  by (rule checked_call_move, rule end_claim_move [where st = "outcome_state outcome"])
    (auto simp: outcome_state_def terminal_turn_states_def split: option.splits json.splits)

lemma interrupt_turn_move: "agent_ok db \<Longrightarrow> agent_move db (snd (interrupt_turn now tid l checkpoint err db))"
  unfolding interrupt_turn_def
  by (rule checked_call_move, rule end_claim_move [where st = TU_INTERRUPTED]) auto

subsection \<open>New rows\<close>

lemma create_session_move: "agent_move db (snd (create_session now fresh owner key profile model source db))"
  unfolding create_session_def
proof (rule checked_call_move, goal_cases)
  case 1
  let ?row = "new_session now (''session-'' @ fresh) owner key profile model source"
  have "agent_move db (db\<lparr>ad_sessions := insert_ignore session_clash ?row (ad_sessions db)\<rparr>)"
  proof (cases "\<exists>x \<in> set (ad_sessions db). session_clash x ?row")
    case True
    then show ?thesis by (simp add: insert_ignore_def mv_none)
  next
    case False
    then show ?thesis unfolding insert_ignore_def by (auto intro!: mv_session simp: new_session_def)
  qed
  then show ?case by (simp add: Let_def)
qed

text \<open>\<open>create_turn\<close> replays a Turn, refuses, or moves an idle Session to \<open>queued\<close> with a new Turn.\<close>

lemma create_turn_cases:
  assumes "agent_ok db"
  obtains (same) r where "create_turn sha now fresh sid owner key msg v db = (r, db)"
      "\<And>t b. r = Inr (t, b) \<Longrightarrow> \<not> b \<and> t \<in> set (ad_turns db) \<and> tu_session t = sid \<and> tu_request t = key \<and> tu_owner t = owner \<and> tu_message t = msg"
    | (new) s where "s \<in> set (ad_sessions db)" "se_id s = sid" "se_owner s = owner" "se_state s = SE_IDLE" "se_version s = v"
      "''turn-'' @ fresh \<notin> tu_id ` set (ad_turns db)" "\<And>t. t \<in> set (ad_turns db) \<Longrightarrow> tu_session t = sid \<Longrightarrow> tu_request t \<noteq> key"
      "create_turn sha now fresh sid owner key msg v db =
        (Inr (new_turn sha now (''turn-'' @ fresh) sid owner key msg, True),
         db\<lparr>ad_sessions := put_row se_id (upd_session now SE_QUEUED s) (ad_sessions db),
            ad_turns := ad_turns db @ [new_turn sha now (''turn-'' @ fresh) sid owner key msg]\<rparr>)"
proof (cases "list_all fst [(ref_ok sid, A_Value ''session_id''), (ref_ok owner, A_Value ''owner''), (ref_ok key, A_Value ''request_key''),
      (turn_message_ok msg, A_Value ''message''), (0 < v, A_Value ''expected_state_version'')]")
  case False
  then obtain e where "create_turn sha now fresh sid owner key msg v db = (Inl e, db)"
    unfolding create_turn_def using checked_call_refused by blast
  then show ?thesis using same by auto
next
  case True
  note eq = create_turn_def checked_call_ok [OF True]
  show ?thesis
  proof (cases "fetchone (\<lambda>t. tu_session t = sid \<and> tu_request t = key) (ad_turns db)")
    case (Some t)
    from fetchone_Some [OF Some] have "\<exists>r. create_turn sha now fresh sid owner key msg v db = (r, db) \<and> (\<forall>u b. r = Inr (u, b) \<longrightarrow>
        \<not> b \<and> u \<in> set (ad_turns db) \<and> tu_session u = sid \<and> tu_request u = key \<and> tu_owner u = owner \<and> tu_message u = msg)"
      unfolding eq by (simp add: Some)
    then show ?thesis using same by blast
  next
    case none: None
    show ?thesis
    proof (cases "fetchone (\<lambda>s. se_id s = sid \<and> se_owner s = owner) (ad_sessions db)")
      case None
      then have "create_turn sha now fresh sid owner key msg v db = (Inl (A_Key sid), db)"
        unfolding eq by (simp add: none)
      then show ?thesis using same by auto
    next
      case (Some s)
      note s = fetchone_Some [OF Some]
      have k: "keyed se_id (ad_sessions db)" using assms by (rule agent_okD)
      show ?thesis
      proof (cases "se_version s = v \<and> se_state s = SE_IDLE \<and> \<not> (\<exists>t \<in> set (ad_turns db). tu_id t = ''turn-'' @ fresh)")
        case False
        then have "\<exists>e. create_turn sha now fresh sid owner key msg v db = (Inl e, db)"
          unfolding eq by (auto simp: none Some)
        then show ?thesis using same by auto
      next
        case new': True
        have due: "session_due sid owner v s" using s new' by (simp add: session_due_def)
        have pin: "\<And>x. session_due sid owner v x \<Longrightarrow> se_id x = sid" by (simp add: session_due_def)
        have one: "rowcount (session_due sid owner v) (ad_sessions db) = 1"
          by (rule rowcount_one [OF k, where k = sid and r = s]) (use pin s due in auto)
        have put: "sql_update (session_due sid owner v) (upd_session now SE_QUEUED) (ad_sessions db) =
            put_row se_id (upd_session now SE_QUEUED s) (ad_sessions db)"
          by (rule sql_update_put [OF k, where k = sid]) (use pin s due in auto)
        show ?thesis
        proof (rule new)
          show "create_turn sha now fresh sid owner key msg v db =
            (Inr (new_turn sha now (''turn-'' @ fresh) sid owner key msg, True),
             db\<lparr>ad_sessions := put_row se_id (upd_session now SE_QUEUED s) (ad_sessions db),
                ad_turns := ad_turns db @ [new_turn sha now (''turn-'' @ fresh) sid owner key msg]\<rparr>)"
            unfolding eq using new' by (simp add: none Some one put Let_def)
          show "''turn-'' @ fresh \<notin> tu_id ` set (ad_turns db)" using new' by auto
          show "tu_request t \<noteq> key" if "t \<in> set (ad_turns db)" "tu_session t = sid" for t
            using none that by (auto simp: fetchone_None)
        qed (use s new' in auto)
      qed
    qed
  qed
qed

lemma create_turn_move:
  assumes "agent_ok db"
  shows "agent_move db (snd (create_turn sha now fresh sid owner key msg v db))"
proof (rule create_turn_cases [OF assms, of sha now fresh sid owner key msg v], goal_cases)
  case (1 r)
  then show ?case by (simp add: mv_none)
next
  case new: (2 s)
  let ?t = "new_turn sha now (''turn-'' @ fresh) sid owner key msg"
  have "agent_move db (db\<lparr>ad_sessions := put_row se_id (upd_session now SE_QUEUED s) (ad_sessions db), ad_turns := ad_turns db @ [?t]\<rparr>)"
    using new(1-6) by (intro mv_create) (simp_all add: new_turn_def fresh_turn_def)
  with new(8) show ?case by simp
qed

lemma move_or_none: "agent_move db db' \<Longrightarrow> agent_move db (snd (case r of None \<Rightarrow> (a, db) | Some x \<Rightarrow> (f x, db')))"
  by (cases r) (simp_all add: mv_none)

lemma reserve_tool_invocation_move:
  assumes "agent_ok db"
  shows "agent_move db (snd (reserve_tool_invocation now iid key owner sid tid v token tool digest db))"
  unfolding reserve_tool_invocation_def
proof (rule checked_call_move, goal_cases)
  case 1
  let ?x = "\<lparr>in_id = iid, in_key = key, in_turn = tid, in_session = sid, in_owner = owner, in_tool = tool,
                   in_digest = digest, in_state = IN_RUNNING, in_result = None, in_error = None, in_bytes = 0,
                   in_created_at = isoformat now, in_updated_at = isoformat now\<rparr>"
  let ?capable = "\<exists>t \<in> set (ad_turns db). tu_id t = tid \<and> tu_session t = sid \<and> turn_capable (isoformat now) owner v token t"
  let ?rows = "if ?capable then insert_ignore invocation_clash ?x (ad_invocations db) else ad_invocations db"
  have "agent_move db (db\<lparr>ad_invocations := ?rows\<rparr>)"
  proof (cases "?capable \<and> \<not> (\<exists>y \<in> set (ad_invocations db). invocation_clash y ?x)")
    case True
    then obtain t where t: "t \<in> set (ad_turns db)" "tu_id t = tid" "tu_session t = sid" "turn_capable (isoformat now) owner v token t"
      by blast
    have "agent_move db (db\<lparr>ad_invocations := ad_invocations db @ [?x]\<rparr>)"
      by (rule mv_reserve [OF _ _ t(1)]) (use True t in \<open>auto simp: fresh_invocation_def\<close>)
    with True show ?thesis by (simp add: insert_ignore_def)
  next
    case False
    then have "?rows = ad_invocations db" by (auto simp: insert_ignore_def)
    then show ?thesis by (simp add: mv_none)
  qed
  then show ?case unfolding Let_def by (rule move_or_none)
qed

lemma finish_tool_invocation_move:
  assumes "agent_ok db"
  shows "agent_move db (snd (finish_tool_invocation now iid owner v token res err bytes db))"
  unfolding finish_tool_invocation_def
proof (rule checked_call_move, goal_cases)
  case 1
  let ?p = "finish_due (isoformat now) iid owner v token db"
  let ?f = "\<lambda>x. x\<lparr>in_state := if res \<noteq> None then IN_COMPLETED else IN_FAILED, in_result := map_option canonical res,
     in_error := map_option canonical err, in_bytes := bytes, in_updated_at := isoformat now\<rparr>"
  have k: "keyed in_id (ad_invocations db)" using agent_okD(8) [OF assms] by (rule table_okD)
  show ?case
  proof (cases "rowcount ?p (ad_invocations db) = 1")
    case False
    then show ?thesis by (simp add: Let_def mv_none)
  next
    case True
    obtain x where x: "x \<in> set (ad_invocations db)" "?p x" "sql_update ?p ?f (ad_invocations db) = put_row in_id (?f x) (ad_invocations db)"
      by (rule pinned_once [OF k _ True, where f = ?f and k = iid]) (auto simp: finish_due_def)
    from x(2) obtain t where t: "t \<in> set (ad_turns db)" "tu_id t = in_turn x" "turn_capable (isoformat now) (in_owner x) v token t"
      "in_state x = IN_RUNNING" by (auto simp: finish_due_def)
    have "invocation_step x (?f x)"
      using is_finish [of x "map_option canonical res" "map_option canonical err" bytes "isoformat now"] t(4) 1 by auto
    from mv_finish [OF x(1) this t(1-3)] x(3) True show ?thesis by (simp add: Let_def)
  qed
qed

section \<open>Every step is a move\<close>

lemma agent_step_move: "agent_ok db \<Longrightarrow> agent_step sha db db' \<Longrightarrow> agent_move db db'"
  by (erule agent_step.cases)
    (simp_all add: create_session_move create_turn_move claim_turn_move renew_turn_move append_turn_event_move
      request_turn_cancel_move complete_turn_move interrupt_turn_move reserve_tool_invocation_move finish_tool_invocation_move)

lemma agent_ok_step: "agent_ok db \<Longrightarrow> agent_step sha db db' \<Longrightarrow> agent_ok db'"
  by (rule agent_ok_move [OF _ agent_step_move])

lemma agent_ok_run: "(agent_step sha)\<^sup>*\<^sup>* db db' \<Longrightarrow> agent_ok db \<Longrightarrow> agent_ok db'"
  by (induction rule: rtranclp_induct) (auto intro: agent_ok_step)

lemma turn_run:
  assumes "(agent_step sha)\<^sup>*\<^sup>* db db'" and "agent_ok db"
  shows "turn_moves\<^sup>*\<^sup>* (ad_turns db) (ad_turns db')"
  using assms
proof (induction rule: rtranclp_induct)
  case (step x y)
  then have "agent_ok x" by (auto intro: agent_ok_run)
  with step have "turn_moves (ad_turns x) (ad_turns y)" by (blast intro: turn_move agent_step_move)
  with step show ?case by (auto intro: rtranclp.rtrancl_into_rtrancl)
qed simp

lemma invocation_run:
  assumes "(agent_step sha)\<^sup>*\<^sup>* db db'" and "agent_ok db"
  shows "invocation_moves\<^sup>*\<^sup>* (ad_invocations db) (ad_invocations db')"
  using assms
proof (induction rule: rtranclp_induct)
  case (step x y)
  then have "agent_ok x" by (auto intro: agent_ok_run)
  with step have "invocation_moves (ad_invocations x) (ad_invocations y)" by (blast intro: invocation_move agent_step_move)
  with step show ?case by (auto intro: rtranclp.rtrancl_into_rtrancl)
qed simp

section \<open>Leases of Turns\<close>

definition turn_token_of :: "string \<Rightarrow> agent_db \<Rightarrow> int" where
  "turn_token_of tid db = row_measure tu_id 0 tu_token tid (ad_turns db)"

definition turn_accepts :: "string \<Rightarrow> turn_lease \<Rightarrow> agent_db \<Rightarrow> bool" where
  "turn_accepts tid l db \<longleftrightarrow> (\<exists>t \<in> set (ad_turns db). tu_id t = tid \<and> turn_held l t)"

definition turn_granted :: "string \<Rightarrow> turn_lease \<Rightarrow> agent_db \<Rightarrow> agent_db \<Rightarrow> bool" where
  "turn_granted tid l db db' \<longleftrightarrow> (\<exists>now base worker n. claim_turn now base tid worker n db = (Inr (Some l), db'))"

lemma turn_accepts_token: "agent_ok db \<Longrightarrow> turn_accepts tid l db \<Longrightarrow> le_token l = turn_token_of tid db"
  unfolding turn_accepts_def turn_token_of_def row_measure_def
  by (elim bexE conjE) (simp add: row_of_Some_iff [OF agent_okD(3), THEN iffD2] turn_held_def)

lemma turn_token_mono:
  assumes "agent_ok db" and "agent_step sha db db'"
  shows "turn_token_of tid db \<le> turn_token_of tid db'"
  unfolding turn_token_of_def
  by (rule turns.tstep_measure [OF agent_okD(2) [OF assms(1)] turn_move [OF agent_step_move [OF assms]]])
    (auto simp: turn_step_mono fresh_turn_def)

lemma turn_granted_step: "agent_ok db \<Longrightarrow> turn_granted tid l db db' \<Longrightarrow> agent_step sha db db'"
  unfolding turn_granted_def by (metis as_claim snd_conv)

lemma turn_granted_turn:
  assumes "agent_ok db" and "turn_granted tid l db db'"
  obtains t now base worker n where "t \<in> set (ad_turns db)" "tu_id t = tid" "turn_claimable (isoformat now) t" "\<not> owner_busy t db"
    "ad_turns db' = put_row tu_id (claimed_turn now base worker n t) (ad_turns db)" "le_token l = tu_token t + 1"
    "le_turn l = tid" "le_worker l = worker" "le_session l = tu_session t" "le_owner l = tu_owner t" "le_version l = tu_version t + 1"
proof -
  from assms(2) obtain now base worker n where claim: "claim_turn now base tid worker n db = (Inr (Some l), db')"
    unfolding turn_granted_def by blast
  have args: "claim_turn_args base tid worker n"
  proof (rule ccontr)
    assume "\<not> ?thesis"
    then have "\<exists>e. claim_turn now base tid worker n db = (Inl e, db)"
      unfolding claim_turn_def by (intro checked_call_refused) (auto simp: claim_turn_args_def)
    with claim show False by simp
  qed
  have "\<not> (\<forall>t \<in> set (ad_turns db). tu_id t = tid \<longrightarrow> \<not> turn_claimable (isoformat now) t \<or> owner_busy t db)"
    using claim_turn_none [OF assms(1) args] claim by force
  then obtain t where t: "t \<in> set (ad_turns db)" "tu_id t = tid" "turn_claimable (isoformat now) t" "\<not> owner_busy t db" by blast
  from claim_turn_some [OF assms(1) args t] obtain s where eq: "claim_turn now base tid worker n db =
      (Inr (Some \<lparr>le_turn = tid, le_session = tu_session t, le_owner = tu_owner t, le_worker = worker,
          le_version = tu_version t + 1, le_token = tu_token t + 1, le_expires = the (after_seconds n base)\<rparr>),
       db\<lparr>ad_sessions := put_row se_id (upd_session now SE_RUNNING s) (ad_sessions db),
          ad_turns := put_row tu_id (claimed_turn now base worker n t) (ad_turns db)\<rparr>)" by blast
  show ?thesis by (rule that [OF t]) (use claim eq in auto)
qed

lemma turn_granted_fresh:
  assumes "agent_ok db" and "turn_granted tid l db db'"
  shows "turn_token_of tid db < turn_token_of tid db' \<and> le_token l = turn_token_of tid db'"
proof -
  obtain t now base worker n where t: "t \<in> set (ad_turns db)" "tu_id t = tid"
    "ad_turns db' = put_row tu_id (claimed_turn now base worker n t) (ad_turns db)" "le_token l = tu_token t + 1"
    by (rule turn_granted_turn [OF assms])
  have "row_of tu_id tid (ad_turns db) = Some t" using t(1,2) agent_okD(3) [OF assms(1)] by (simp add: row_of_Some_iff)
  with t show ?thesis
    by (simp add: turn_token_of_def row_measure_def row_of_put_row claimed_turn_def upd_turn_claim_def)
qed

interpretation turn_leases: fenced_lease agent_ok "agent_step sha" turn_token_of le_token turn_accepts turn_granted
  for sha
  by unfold_locales
    (fact agent_ok_step turn_token_mono turn_accepts_token turn_granted_step turn_granted_fresh)+

end
