(* ===== verification/AgentSessionProps.thy ===== *)
theory AgentSessionProps
  imports AgentSessionSafety ControlProps
begin

text \<open>
  The properties of the Session store, over every history of calls from the empty database: a Session and its Turns
  agree, a Turn that was claimed again is out of the hands of its former worker, the log of a Turn is contiguous,
  append-only and safe to replay, and a cancelled Turn runs no more tools.
\<close>

abbreviation agent_reach :: "(string \<Rightarrow> string) \<Rightarrow> agent_db \<Rightarrow> bool" where
  "agent_reach sha db \<equiv> (agent_step sha)\<^sup>*\<^sup>* empty_agent_db db"

lemma reach_ok: "agent_reach sha db \<Longrightarrow> agent_ok db"
  using agent_ok_run [OF _ agent_ok_empty] .

section \<open>A concrete history\<close>

definition ag_sha :: "string \<Rightarrow> string" where "ag_sha m = ''0''"

definition ag_s0 :: agent_session where
  "ag_s0 = new_session c_t0 ''session-1'' ''u'' ''k'' ''p'' ''m'' (JObj [])"

definition ag_t0 :: agent_turn where
  "ag_t0 = new_turn ag_sha c_t0 ''turn-1'' ''session-1'' ''u'' ''q'' ''hi''"

definition ag_t1 :: agent_turn where "ag_t1 = claimed_turn c_t0 c_t0 ''w1'' 60 ag_t0"
definition ag_t2 :: agent_turn where "ag_t2 = claimed_turn c_t2 c_t2 ''w2'' 60 ag_t1"

definition ag_db :: "agent_session \<Rightarrow> agent_turn list \<Rightarrow> agent_db" where
  "ag_db s ts = empty_agent_db\<lparr>ad_sessions := [s], ad_turns := ts\<rparr>"

definition ag_s1 :: agent_session where "ag_s1 = upd_session c_t0 SE_QUEUED ag_s0"
definition ag_s2 :: agent_session where "ag_s2 = upd_session c_t0 SE_RUNNING ag_s1"
definition ag_s3 :: agent_session where "ag_s3 = upd_session c_t2 SE_RUNNING ag_s2"

definition ag_lease :: "string \<Rightarrow> int \<Rightarrow> int \<Rightarrow> string \<Rightarrow> turn_lease" where
  "ag_lease w v k e = \<lparr>le_turn = ''turn-1'', le_session = ''session-1'', le_owner = ''u'', le_worker = w, le_version = v,
     le_token = k, le_expires = e\<rparr>"

lemmas ag_defs = ag_s3_def ag_s2_def ag_s1_def ag_s0_def ag_t2_def ag_t1_def ag_t0_def claimed_turn_def upd_turn_claim_def
  new_turn_def new_session_def upd_session_def

lemma ag_db_simps [simp]:
  "ad_sessions (ag_db s ts) = [s]" "ad_turns (ag_db s ts) = ts" "ad_events (ag_db s ts) = []" "ad_event_seq (ag_db s ts) = 0"
  "ad_invocations (ag_db s ts) = []"
  "ag_db s ts\<lparr>ad_sessions := [s'], ad_turns := ts'\<rparr> = ag_db s' ts'" "ag_db s ts\<lparr>ad_turns := ts'\<rparr> = ag_db s ts'"
  by (simp_all add: ag_db_def empty_agent_db_def)

lemma ag_names [simp]: "ref_ok ''u''" "ref_ok ''k''" "ref_ok ''p''" "ref_ok ''m''" "ref_ok ''q''" "ref_ok ''session-1''" "ref_ok ''turn-1''"
  "ref_ok ''i1''" "ref_ok ''d''" "name_ok ''token''"
  by (simp_all add: name_ok_def ref_ok_def lower_char_def upper_char_def digit_char_def)

lemma ag_create: "create_session c_t0 ''1'' ''u'' ''k'' ''p'' ''m'' (JObj []) empty_agent_db = (Inr (ag_s0, True), ag_db ag_s0 [])"
  by (simp add: create_session_def checked_call_def empty_agent_db_def ag_db_def insert_ignore_def ag_s0_def new_session_def Let_def)

lemma ag_submit: "create_turn ag_sha c_t0 ''1'' ''session-1'' ''u'' ''q'' ''hi'' 1 (ag_db ag_s0 []) = (Inr (ag_t0, True), ag_db ag_s1 [ag_t0])"
  by (simp add: create_turn_def checked_call_def turn_message_ok_def space_char_def session_due_def rowcount_def Let_def
      ag_s1_def ag_t0_def) (simp add: ag_s0_def new_session_def upd_session_def)

lemma ag_claim1: "claim_turn c_t0 c_t0 ''turn-1'' ''w1'' 60 (ag_db ag_s1 [ag_t0]) =
    (Inr (Some (ag_lease ''w1'' 2 1 ''2025-01-01T00:01:00+00:00'')), ag_db ag_s2 [ag_t1])"
  by (simp add: claim_turn_def checked_call_def c_after Let_def move_session_def owner_busy_def rowcount_def turn_claimable_def
      lease_of_def ag_lease_def) (simp add: ag_defs c_after ag_db_def empty_agent_db_def)

lemma ag_claim2: "claim_turn c_t2 c_t2 ''turn-1'' ''w2'' 60 (ag_db ag_s2 [ag_t1]) =
    (Inr (Some (ag_lease ''w2'' 3 2 ''2025-01-01T00:03:00+00:00'')), ag_db ag_s3 [ag_t2])"
  by (simp add: claim_turn_def checked_call_def c_after Let_def move_session_def owner_busy_def rowcount_def turn_claimable_def
      lease_of_def ag_lease_def) (simp add: ag_defs c_after ag_db_def empty_agent_db_def less_eq_char_def less_char_def)

lemma ag_reach: "agent_reach ag_sha (ag_db ag_s0 [])" "agent_reach ag_sha (ag_db ag_s1 [ag_t0])" "agent_reach ag_sha (ag_db ag_s2 [ag_t1])"
  "agent_reach ag_sha (ag_db ag_s3 [ag_t2])"
proof -
  have s1: "agent_step ag_sha empty_agent_db (ag_db ag_s0 [])"
    using as_session [of ag_sha empty_agent_db c_t0 "''1''" "''u''" "''k''" "''p''" "''m''" "JObj []"] by (simp add: ag_create)
  have s2: "agent_step ag_sha (ag_db ag_s0 []) (ag_db ag_s1 [ag_t0])"
    using as_turn [of ag_sha "ag_db ag_s0 []" c_t0 "''1''" "''session-1''" "''u''" "''q''" "''hi''" 1] by (simp add: ag_submit)
  have s3: "agent_step ag_sha (ag_db ag_s1 [ag_t0]) (ag_db ag_s2 [ag_t1])"
    using as_claim [of ag_sha "ag_db ag_s1 [ag_t0]" c_t0 c_t0 "''turn-1''" "''w1''" 60] by (simp add: ag_claim1)
  have s4: "agent_step ag_sha (ag_db ag_s2 [ag_t1]) (ag_db ag_s3 [ag_t2])"
    using as_claim [of ag_sha "ag_db ag_s2 [ag_t1]" c_t2 c_t2 "''turn-1''" "''w2''" 60] by (simp add: ag_claim2)
  show r1: "agent_reach ag_sha (ag_db ag_s0 [])" using s1 by (rule r_into_rtranclp)
  show r2: "agent_reach ag_sha (ag_db ag_s1 [ag_t0])" using r1 s2 by (rule rtranclp.rtrancl_into_rtrancl)
  show r3: "agent_reach ag_sha (ag_db ag_s2 [ag_t1])" using r2 s3 by (rule rtranclp.rtrancl_into_rtrancl)
  show "agent_reach ag_sha (ag_db ag_s3 [ag_t2])" using r3 s4 by (rule rtranclp.rtrancl_into_rtrancl)
qed

section \<open>Sessions and Turns\<close>

text \<open>C7. In every database the store can reach, the state of a Session says what its Turns are doing: it is idle when none
  is in progress, queued when exactly one is and that one waits, running when exactly one is and that one runs under a lease;
  no user has two running Turns; and a Turn holds a lease exactly while it runs.\<close>

theorem sessions_agree_with_turns:
  assumes "agent_reach sha db"
  shows "(\<forall>s \<in> set (ad_sessions db).
        (se_state s = SE_IDLE \<longleftrightarrow> active_of (se_id s) (ad_turns db) = {}) \<and>
        (se_state s = SE_QUEUED \<longleftrightarrow> (\<exists>t. active_of (se_id s) (ad_turns db) = {t} \<and> tu_state t \<in> {TU_QUEUED, TU_INTERRUPTED})) \<and>
        (se_state s = SE_RUNNING \<longleftrightarrow> (\<exists>t. active_of (se_id s) (ad_turns db) = {t} \<and> tu_state t = TU_RUNNING))) \<and>
     (\<forall>t \<in> set (ad_turns db). \<forall>u \<in> set (ad_turns db).
        tu_state t = TU_RUNNING \<longrightarrow> tu_state u = TU_RUNNING \<longrightarrow> tu_owner t = tu_owner u \<longrightarrow> t = u) \<and>
     (\<forall>t \<in> set (ad_turns db). (tu_state t = TU_RUNNING \<longleftrightarrow> tu_lease_owner t \<noteq> None) \<and>
        (tu_lease_owner t \<noteq> None \<longleftrightarrow> tu_lease_expires t \<noteq> None))"
proof -
  note ok = reach_ok [OF assms]
  have "(se_state s = SE_IDLE \<longleftrightarrow> active_of (se_id s) (ad_turns db) = {}) \<and>
        (se_state s = SE_QUEUED \<longleftrightarrow> (\<exists>t. active_of (se_id s) (ad_turns db) = {t} \<and> tu_state t \<in> {TU_QUEUED, TU_INTERRUPTED})) \<and>
        (se_state s = SE_RUNNING \<longleftrightarrow> (\<exists>t. active_of (se_id s) (ad_turns db) = {t} \<and> tu_state t = TU_RUNNING))"
    if "s \<in> set (ad_sessions db)" for s
    using agent_okD(4) [OF ok that] unfolding session_ok_def by (cases "se_state s") auto
  moreover have "(tu_state t = TU_RUNNING \<longleftrightarrow> tu_lease_owner t \<noteq> None) \<and> (tu_lease_owner t \<noteq> None \<longleftrightarrow> tu_lease_expires t \<noteq> None)"
    if "t \<in> set (ad_turns db)" for t
    using agent_okD(10) [OF ok that] by (auto simp: turn_ok_def)
  ultimately show ?thesis
    using agent_okD(6) [OF ok] unfolding one_running_def by blast
qed

theorem sessions_agree_with_turns_witness:
  "\<exists>t. active_of ''session-1'' [ag_t1] = {t} \<and> tu_state t = TU_RUNNING"
  using sessions_agree_with_turns [OF ag_reach(3)] by (simp add: ag_s2_def ag_s1_def ag_s0_def new_session_def)

text \<open>The verdict of a claim, in every database the store can reach. A Turn that waits, or whose lease has run out, is
  handed to the caller under the next fencing token, and its Session moves to running with it, unless another Turn of the
  same user runs: then, as for any other Turn, the answer is \<open>None\<close> and nothing changes. No conflict is ever raised.\<close>

theorem claim_turn_verdict:
  assumes "agent_reach sha db" and "claim_turn_args base tid worker n"
  shows "claim_turn now base tid worker n db =
    (case row_of tu_id tid (ad_turns db) of
       None \<Rightarrow> (Inr None, db)
     | Some t \<Rightarrow>
         if turn_claimable (isoformat now) t \<and> \<not> owner_busy t db then
           (Inr (Some \<lparr>le_turn = tid, le_session = tu_session t, le_owner = tu_owner t, le_worker = worker,
              le_version = tu_version t + 1, le_token = tu_token t + 1, le_expires = the (after_seconds n base)\<rparr>),
            db\<lparr>ad_sessions := sql_update (\<lambda>s. se_id s = tu_session t) (upd_session now SE_RUNNING) (ad_sessions db),
               ad_turns := put_row tu_id (claimed_turn now base worker n t) (ad_turns db)\<rparr>)
         else (Inr None, db))"
proof -
  note ok = reach_ok [OF assms(1)]
  show ?thesis
  proof (cases "row_of tu_id tid (ad_turns db)")
    case None
    then have "tid \<notin> tu_id ` set (ad_turns db)" by (simp only: row_of_None_iff not_False_eq_True)
    then have "\<forall>t \<in> set (ad_turns db). tu_id t = tid \<longrightarrow> \<not> turn_claimable (isoformat now) t \<or> owner_busy t db" by auto
    from claim_turn_none [OF ok assms(2) this] None show ?thesis by simp
  next
    case (Some t)
    note t = row_of_SomeD [OF Some]
    show ?thesis
    proof (cases "turn_claimable (isoformat now) t \<and> \<not> owner_busy t db")
      case False
      have "\<forall>u \<in> set (ad_turns db). tu_id u = tid \<longrightarrow> \<not> turn_claimable (isoformat now) u \<or> owner_busy u db"
        using False t agent_okD(3) [OF ok] by (metis keyed_eqI)
      from claim_turn_none [OF ok assms(2) this] Some False show ?thesis by simp
    next
      case True
      then have t': "t \<in> set (ad_turns db)" "tu_id t = tid" "turn_claimable (isoformat now) t" "\<not> owner_busy t db" using t by auto
      from claim_turn_some [OF ok assms(2) t'] obtain s where s: "s \<in> set (ad_sessions db)" "se_id s = tu_session t"
        "claim_turn now base tid worker n db =
          (Inr (Some \<lparr>le_turn = tid, le_session = tu_session t, le_owner = tu_owner t, le_worker = worker,
              le_version = tu_version t + 1, le_token = tu_token t + 1, le_expires = the (after_seconds n base)\<rparr>),
           db\<lparr>ad_sessions := put_row se_id (upd_session now SE_RUNNING s) (ad_sessions db),
              ad_turns := put_row tu_id (claimed_turn now base worker n t) (ad_turns db)\<rparr>)" by blast
      have "sql_update (\<lambda>s. se_id s = tu_session t) (upd_session now SE_RUNNING) (ad_sessions db) =
          put_row se_id (upd_session now SE_RUNNING s) (ad_sessions db)"
        by (rule sql_update_put [OF agent_okD(1) [OF ok], where k = "tu_session t"]) (use s in auto)
      with s(3) Some True show ?thesis by simp
    qed
  qed
qed

theorem claim_turn_verdict_witness:
  "claim_turn c_t1 c_t1 ''turn-1'' ''w2'' 60 (ag_db ag_s2 [ag_t1]) = (Inr None, ag_db ag_s2 [ag_t1])"
proof -
  have "row_of tu_id ''turn-1'' [ag_t1] = Some ag_t1" "\<not> turn_claimable (isoformat c_t1) ag_t1"
    by (simp_all add: ag_t1_def ag_t0_def new_turn_def claimed_turn_def upd_turn_claim_def turn_claimable_def c_after less_eq_char_def)
  with claim_turn_verdict [OF ag_reach(3), of c_t1 "''turn-1''" "''w2''" 60 c_t1] show ?thesis
    by (simp add: claim_turn_args_def c_after)
qed

section \<open>Fencing\<close>

lemma unaccepted_turn:
  assumes "\<not> turn_accepts tid l db" and "le_turn l = tid"
  shows "\<forall>t \<in> set (ad_turns db). \<not> turn_held l t"
  using assms by (auto simp: turn_accepts_def turn_held_def)

lemma checked_call_raises: "f db = (Inl e, db) \<Longrightarrow> \<exists>e. checked_call cs f db = (Inl e, db)"
  by (simp add: checked_call_def split: option.split)

lemma unaccepted_writes:
  assumes "agent_ok db" and "\<forall>t \<in> set (ad_turns db). \<not> turn_held l t"
  shows "\<exists>e. renew_turn now base l n db = (Inl e, db)"
    and "\<exists>e. complete_turn now tid l checkpoint usage outcome db = (Inl e, db)"
    and "\<exists>e. interrupt_turn now tid l checkpoint err db = (Inl e, db)"
    and "snd (append_turn_event now tid l i et payload db) = db"
proof -
  have none: "\<forall>t \<in> set (ad_turns db). \<not> turn_bound l t" using assms(2) by (auto simp: turn_bound_def)
  have zero: "rowcount (\<lambda>t. turn_held l t \<and> lease_live (isoformat now) t) (ad_turns db) = 0"
    using assms(2) by (auto simp: rowcount_zero)
  have ended: "\<exists>e. checked_call cs (end_claim l f g) db = (Inl e, db)" for cs f g
    by (rule checked_call_raises [where f = "end_claim l f g"]) (rule end_claim_fenced [OF assms(1) none])
  show "\<exists>e. renew_turn now base l n db = (Inl e, db)"
    unfolding renew_turn_def by (rule checked_call_raises) (simp add: Let_def zero)
  show "\<exists>e. complete_turn now tid l checkpoint usage outcome db = (Inl e, db)"
    unfolding complete_turn_def by (rule ended)
  show "\<exists>e. interrupt_turn now tid l checkpoint err db = (Inl e, db)"
    unfolding interrupt_turn_def by (rule ended)
  show "snd (append_turn_event now tid l i et payload db) = db"
  proof (rule append_turn_event_cases [OF assms(1), of now tid l i et payload], goal_cases)
    case (1 r)
    then show ?case by simp
  next
    case (2 t c)
    with none show ?case by (auto simp: event_due_def)
  qed
qed

lemma stale_capability:
  assumes "\<forall>t \<in> set (ad_turns db). tu_id t = tid \<longrightarrow> \<not> turn_capable (isoformat now) owner v token t"
  shows "snd (reserve_tool_invocation now iid key owner sid tid v token tool digest db) = db"
proof -
  have none: "(\<exists>t \<in> set (ad_turns db). tu_id t = tid \<and> tu_session t = sid \<and> turn_capable (isoformat now) owner v token t) = False"
    using assms by auto
  show ?thesis
    unfolding reserve_tool_invocation_def none checked_call_def
    by (auto simp: Let_def split: option.split)
qed

text \<open>C8. Once a Turn has been claimed anew, its former worker is fenced off in every database the store can reach afterwards:
  it cannot renew its lease, end or interrupt the Turn, write an event, or reserve a tool invocation, and its attempts change
  nothing.\<close>

theorem superseded_turn_is_fenced:
  assumes "agent_reach sha db" and "turn_accepts tid old db" and "le_turn old = tid"
    and "claim_turn cnow base tid worker n db = (Inr (Some new), db')" and "(agent_step sha)\<^sup>*\<^sup>* db' later"
  shows "(\<exists>e. renew_turn now base' old m later = (Inl e, later)) \<and>
    (\<exists>e. complete_turn now tid old checkpoint usage outcome later = (Inl e, later)) \<and>
    (\<exists>e. interrupt_turn now tid old checkpoint err later = (Inl e, later)) \<and>
    snd (append_turn_event now tid old i et payload later) = later \<and>
    snd (reserve_tool_invocation now iid key (le_owner old) sid tid v (le_token old) tool digest later) = later"
proof -
  note ok = reach_ok [OF assms(1)]
  have granted: "turn_granted tid new db db'" using assms(4) unfolding turn_granted_def by blast
  have later: "agent_ok later"
    using assms(5) agent_ok_step [OF ok turn_granted_step [OF ok granted]] by (rule agent_ok_run)
  have "\<not> turn_accepts tid old later"
    using ok assms(2) granted assms(5) by (rule turn_leases.superseded)
  then have none: "\<forall>t \<in> set (ad_turns later). \<not> turn_held old t" using assms(3) by (rule unaccepted_turn)
  have "le_token old < turn_token_of tid later"
    using turn_leases.run_token [OF assms(5) agent_ok_step [OF ok turn_granted_step [OF ok granted]], of tid]
      turn_granted_fresh [OF ok granted] turn_accepts_token [OF ok assms(2)] by simp
  moreover have "turn_token_of tid later = tu_token t" if "t \<in> set (ad_turns later)" "tu_id t = tid" for t
    using row_of_Some_iff [OF agent_okD(3) [OF later], of tid t] that by (simp add: turn_token_of_def row_measure_def)
  ultimately have "\<forall>t \<in> set (ad_turns later). tu_id t = tid \<longrightarrow> \<not> turn_capable (isoformat now) (le_owner old) v (le_token old) t"
    by (auto simp: turn_capable_def)
  from stale_capability [OF this] show ?thesis
    by (intro conjI unaccepted_writes [OF later none])
qed

theorem superseded_turn_is_fenced_witness:
  "\<exists>e. complete_turn c_t2 ''turn-1'' (ag_lease ''w1'' 2 1 ''2025-01-01T00:01:00+00:00'') None (JObj []) (JObj []) (ag_db ag_s3 [ag_t2])
     = (Inl e, ag_db ag_s3 [ag_t2])"
proof -
  have "turn_accepts ''turn-1'' (ag_lease ''w1'' 2 1 ''2025-01-01T00:01:00+00:00'') (ag_db ag_s2 [ag_t1])"
    by (simp add: turn_accepts_def turn_held_def ag_lease_def ag_t1_def ag_t0_def new_turn_def claimed_turn_def upd_turn_claim_def)
  from superseded_turn_is_fenced [OF ag_reach(3) this _ ag_claim2 rtranclp.rtrancl_refl]
  show ?thesis by (simp add: ag_lease_def)
qed

section \<open>The log of a Turn\<close>

lemma events_move: "agent_ok db \<Longrightarrow> agent_move db db' \<Longrightarrow> \<exists>new. ad_events db' = ad_events db @ new"
  by (erule agent_move.cases) auto

lemma events_grow:
  assumes "(agent_step sha)\<^sup>*\<^sup>* db db'" and "agent_ok db"
  shows "\<exists>new. ad_events db' = ad_events db @ new"
  using assms
proof (induction rule: rtranclp_induct)
  case (step x y)
  then obtain new where "ad_events x = ad_events db @ new" by auto
  moreover from step have "agent_ok x" by (auto intro: agent_ok_run)
  then obtain more where "ad_events y = ad_events x @ more"
    using events_move [OF _ agent_step_move [OF _ step.hyps(2)]] by blast
  ultimately show ?case by simp
qed simp

text \<open>The events of a Turn are numbered \<open>1, 2, \<dots>\<close> without a gap up to the number the Turn carries, the ids by which
  a reader pages through them strictly increase, and no later call changes or removes an event.\<close>

theorem turn_log_is_append_only:
  assumes "agent_reach sha db" and "(agent_step sha)\<^sup>*\<^sup>* db later"
  shows "(\<exists>new. ad_events later = ad_events db @ new) \<and> sorted_wrt (<) (map ev_id (ad_events later)) \<and>
    (\<forall>t \<in> set (ad_turns later). map ev_sequence (filter (\<lambda>e. ev_turn e = tu_id t) (ad_events later)) = [1..tu_sequence t])"
proof -
  have "agent_ok later" using assms(2) reach_ok [OF assms(1)] by (rule agent_ok_run)
  from agent_okD(7) [OF this] events_grow [OF assms(2) reach_ok [OF assms(1)]] show ?thesis
    unfolding log_ok_def turn_log_def by blast
qed

theorem turn_log_is_append_only_witness:
  "map ev_sequence (filter (\<lambda>e. ev_turn e = tu_id ag_t2) (ad_events (ag_db ag_s3 [ag_t2]))) = [1..tu_sequence ag_t2]"
  using turn_log_is_append_only [OF ag_reach(4) rtranclp.rtrancl_refl] by simp

text \<open>C34. Writing an event again is safe: once an event was written, the same call returns that event at any later time and
  changes nothing, whatever lease of the Turn it carries, so a worker that lost the answer may repeat it.\<close>

theorem event_replay:
  assumes "agent_reach sha db" and "append_turn_event now tid l i et payload db = (Inr e, db')"
    and "(agent_step sha)\<^sup>*\<^sup>* db' later" and "le_turn l' = tid"
  shows "append_turn_event now' tid l' i et payload later = (Inr e, later)"
proof -
  note ok = reach_ok [OF assms(1)]
  have args: "list_all fst [(0 < i, A_Value ''sequence''), (name_ok et, A_Value ''event_type''), (is_object payload, A_Type ''payload''),
      (le_turn l = tid, A_Conflict ''claim is bound to a different Turn'')]"
  proof (rule ccontr)
    assume "\<not> ?thesis"
    then obtain f where "append_turn_event now tid l i et payload db = (Inl f, db)"
      unfolding append_turn_event_def using checked_call_refused by blast
    with assms(2) show False by simp
  qed
  have found: "fetchone (\<lambda>x. ev_turn x = tid \<and> ev_sequence x = i) (ad_events db') = Some e \<and> ev_type e = et \<and> python_eq (ev_payload e) payload"
  proof (cases "fetchone (\<lambda>x. ev_turn x = tid \<and> ev_sequence x = i) (ad_events db)")
    case (Some f)
    with assms(2) show ?thesis
      unfolding append_turn_event_def checked_call_ok [OF args] by (auto split: if_splits)
  next
    case None
    show ?thesis
    proof (rule append_turn_event_cases [OF ok, of now tid l i et payload], goal_cases)
      case (1 r)
      with assms(2) None show ?case by (auto simp: fetchone_None)
    next
      case (2 t c)
      with assms(2) None show ?case by (auto simp: fetchone_append new_event_def python_eq_canonical)
    qed
  qed
  have "agent_ok db'" using agent_ok_step [OF ok as_event [of sha db now tid l i et payload]] assms(2) by simp
  with assms(3) obtain new where "ad_events later = ad_events db' @ new" using events_grow by blast
  with found have "fetchone (\<lambda>x. ev_turn x = tid \<and> ev_sequence x = i) (ad_events later) = Some e"
    by (simp add: fetchone_append)
  moreover have "list_all fst [(0 < i, A_Value ''sequence''), (name_ok et, A_Value ''event_type''), (is_object payload, A_Type ''payload''),
      (le_turn l' = tid, A_Conflict ''claim is bound to a different Turn'')]"
    using args assms(4) by simp
  ultimately show ?thesis
    using found unfolding append_turn_event_def by (simp add: checked_call_ok)
qed

lemma ag_event: "append_turn_event c_t1 ''turn-1'' (ag_lease ''w1'' 2 1 ''2025-01-01T00:01:00+00:00'') 1 ''token'' (JObj []) (ag_db ag_s2 [ag_t1]) =
    (Inr \<lparr>ev_id = 1, ev_turn = ''turn-1'', ev_session = ''session-1'', ev_owner = ''u'', ev_sequence = 1, ev_type = ''token'',
       ev_payload = JObj [], ev_created_at = ''2025-01-01T00:00:05+00:00''\<rparr>,
     (ag_db ag_s2 [ag_t1\<lparr>tu_sequence := 1\<rparr>])\<lparr>ad_events := [\<lparr>ev_id = 1, ev_turn = ''turn-1'', ev_session = ''session-1'', ev_owner = ''u'',
       ev_sequence = 1, ev_type = ''token'', ev_payload = JObj [], ev_created_at = ''2025-01-01T00:00:05+00:00''\<rparr>], ad_event_seq := 1\<rparr>)"
proof -
  have "event_due (isoformat c_t1) (ag_lease ''w1'' 2 1 ''2025-01-01T00:01:00+00:00'') 1 ag_t1"
    by (simp add: event_due_def turn_bound_def turn_held_def lease_live_def ag_lease_def c_after less_char_def
        ag_t1_def ag_t0_def new_turn_def claimed_turn_def upd_turn_claim_def)
  then show ?thesis
    by (simp add: append_turn_event_def checked_call_def rowcount_def checkpoint_pointer_def new_event_def Let_def c_after)
      (simp add: ag_lease_def ag_db_def empty_agent_db_def)
qed

theorem event_replay_witness:
  "snd (append_turn_event c_t2 ''turn-1'' (ag_lease ''w2'' 3 2 ''2025-01-01T00:03:00+00:00'') 1 ''token'' (JObj [])
     (snd (append_turn_event c_t1 ''turn-1'' (ag_lease ''w1'' 2 1 ''2025-01-01T00:01:00+00:00'') 1 ''token'' (JObj []) (ag_db ag_s2 [ag_t1]))))
   = snd (append_turn_event c_t1 ''turn-1'' (ag_lease ''w1'' 2 1 ''2025-01-01T00:01:00+00:00'') 1 ''token'' (JObj []) (ag_db ag_s2 [ag_t1]))"
  using event_replay [OF ag_reach(3) ag_event rtranclp.rtrancl_refl,
      of "ag_lease ''w2'' 3 2 ''2025-01-01T00:03:00+00:00''" c_t2]
  by (simp add: ag_event) (simp add: ag_lease_def)

section \<open>Tool invocations\<close>

lemma invocation_step_frozen: "invocation_step x y \<Longrightarrow> in_id y = in_id x \<and> in_turn y = in_turn x \<and> in_key y = in_key x \<and>
    in_session y = in_session x \<and> in_owner y = in_owner x \<and> in_tool y = in_tool x \<and> in_digest y = in_digest x"
  by (erule invocation_step.cases) simp

lemma invocation_kept:
  assumes "(agent_step sha)\<^sup>*\<^sup>* db later" and "agent_ok db" and "x \<in> set (ad_invocations db)"
  obtains y where "y \<in> set (ad_invocations later)" "in_id y = in_id x" "in_turn y = in_turn x" "in_key y = in_key x"
    "in_state x \<noteq> IN_RUNNING \<Longrightarrow> y = x"
proof -
  have row: "row_of in_id (in_id x) (ad_invocations db) = Some x"
    using assms(3) agent_okD(8) [OF assms(2)] by (simp add: table_ok_def row_of_Some_iff)
  have "\<exists>y. row_of in_id (in_id x) (ad_invocations later) = Some y \<and>
      (in_id y = in_id x \<and> in_turn y = in_turn x \<and> in_key y = in_key x \<and> (in_state x \<noteq> IN_RUNNING \<longrightarrow> y = x))"
    by (rule invocations.run_rel [OF invocation_run [OF assms(1,2)] agent_okD(8) [OF assms(2)] row])
      (auto dest: invocation_step_frozen elim: invocation_step.cases)
  with that show ?thesis by (auto dest: row_of_SomeD)
qed

lemma reserve_clash:
  assumes "keyed (\<lambda>x. (in_turn x, in_key x)) (ad_invocations db)" and "y \<in> set (ad_invocations db)" and "in_turn y = tid" and "in_key y = key"
    and "reserve_tool_invocation now iid key owner sid tid v token tool digest db = (Inr (x, b), db')"
  shows "x = y \<and> \<not> b \<and> db' = db \<and> in_id y = iid \<and> in_tool y = tool \<and> in_digest y = digest"
proof -
  have clash: "(\<exists>z \<in> set (ad_invocations db). invocation_clash z r) = True"
    "(\<forall>z \<in> set (ad_invocations db). \<not> invocation_clash z r) = False" if "in_turn r = tid" "in_key r = key" for r
    using assms(2-4) that by (auto simp: invocation_clash_def)
  have "z = y" if "z \<in> set (ad_invocations db)" "in_turn z = tid" "in_key z = key" for z
    using keyed_eqI [OF assms(1) that(1) assms(2)] that assms(3,4) by simp
  then have found: "fetchone (\<lambda>x. in_turn x = tid \<and> in_key x = key \<and> in_owner x = owner) (ad_invocations db) = Some z \<Longrightarrow> z = y" for z
    by (auto dest: fetchone_Some)
  let ?cs = "[(ref_ok iid, A_Value ''invocation_id''), (ref_ok key, A_Value ''idempotency_key''), (ref_ok owner, A_Value ''owner''),
      (ref_ok sid, A_Value ''session_id''), (ref_ok tid, A_Value ''turn_id''), (ref_ok digest, A_Value ''arguments_digest''),
      (name_ok tool, A_Value ''tool_name''), (0 < v, A_Value ''expected_state_version''), (0 < token, A_Value ''expected_fencing_token'')]"
  have "list_all fst ?cs"
  proof (rule ccontr)
    assume "\<not> ?thesis"
    then obtain e where "reserve_tool_invocation now iid key owner sid tid v token tool digest db = (Inl e, db)"
      unfolding reserve_tool_invocation_def using checked_call_refused by blast
    with assms(5) show False by simp
  qed
  note args = checked_call_ok [OF this]
  have "reserve_tool_invocation now iid key owner sid tid v token tool digest db =
      (case fetchone (\<lambda>x. in_turn x = tid \<and> in_key x = key \<and> in_owner x = owner) (ad_invocations db) of
         None \<Rightarrow> (Inl (A_Conflict ''Turn capability is stale or fenced''), db)
       | Some x \<Rightarrow> (if in_id x \<noteq> iid \<or> in_session x \<noteq> sid \<or> in_tool x \<noteq> tool \<or> in_digest x \<noteq> digest
                    then Inl (A_Conflict ''idempotency_key'') else Inr (x, False), db))"
    unfolding reserve_tool_invocation_def args by (simp add: Let_def insert_ignore_def clash split: option.split)
  with assms(5) found show ?thesis by (auto split: option.splits if_splits)
qed

text \<open>C9. A tool call is started at most once. After a reservation under a key was made, every later reservation under that
  key of the Turn is answered with the invocation that was made first, never as a new one, and changes nothing; one that asks
  for another tool, other arguments or another invocation is refused. An invocation that has finished keeps its result.\<close>

theorem tool_call_starts_once:
  assumes "agent_reach sha db"
    and "reserve_tool_invocation now iid key owner sid tid v token tool digest db = (Inr (x, True), db')"
    and "(agent_step sha)\<^sup>*\<^sup>* db' later"
    and "reserve_tool_invocation now2 iid2 key owner2 sid2 tid v2 token2 tool2 digest2 later = (Inr (y, b), later')"
  shows "\<not> b \<and> later' = later \<and> in_id y = in_id x \<and> iid2 = iid \<and> tool2 = in_tool y \<and> digest2 = in_digest y \<and>
    (\<forall>z \<in> set (ad_invocations db'). in_state z \<noteq> IN_RUNNING \<longrightarrow> z \<in> set (ad_invocations later))"
proof -
  note ok = reach_ok [OF assms(1)]
  have ok': "agent_ok db'"
    using agent_ok_step [OF ok as_reserve [of sha db now iid key owner sid tid v token tool digest]] assms(2) by simp
  have later: "agent_ok later" using assms(3) ok' by (rule agent_ok_run)
  have x: "x \<in> set (ad_invocations db')" "in_turn x = tid" "in_key x = key" "in_id x = iid"
    using assms(2) unfolding reserve_tool_invocation_def checked_call_def
    by (auto simp: Let_def split: option.splits if_splits dest!: fetchone_Some)
  obtain z where z: "z \<in> set (ad_invocations later)" "in_id z = in_id x" "in_turn z = in_turn x" "in_key z = in_key x"
    by (rule invocation_kept [OF assms(3) ok' x(1)])
  have "keyed (\<lambda>x. (in_turn x, in_key x)) (ad_invocations later)"
    using agent_okD(9) [OF later] by (simp add: invocations_placed_def)
  from reserve_clash [OF this z(1) _ _ assms(4)] z x have "\<not> b \<and> later' = later \<and> y = z \<and> in_id z = iid2 \<and> in_tool z = tool2 \<and> in_digest z = digest2"
    by simp
  moreover have "w \<in> set (ad_invocations later)" if "w \<in> set (ad_invocations db')" "in_state w \<noteq> IN_RUNNING" for w
    using invocation_kept [OF assms(3) ok' that(1)] that(2) by metis
  ultimately show ?thesis using z(2) x(4) by auto
qed

definition ag_inv :: tool_invocation where
  "ag_inv = \<lparr>in_id = ''i1'', in_key = ''k'', in_turn = ''turn-1'', in_session = ''session-1'', in_owner = ''u'', in_tool = ''token'',
     in_digest = ''d'', in_state = IN_RUNNING, in_result = None, in_error = None, in_bytes = 0,
     in_created_at = ''2025-01-01T00:00:05+00:00'', in_updated_at = ''2025-01-01T00:00:05+00:00''\<rparr>"

lemma ag_capable: "turn_capable ''2025-01-01T00:00:05+00:00'' ''u'' 2 1 ag_t1" "tu_id ag_t1 = ''turn-1''" "tu_session ag_t1 = ''session-1''"
  by (simp_all add: turn_capable_def lease_live_def c_after less_char_def ag_t1_def ag_t0_def new_turn_def claimed_turn_def upd_turn_claim_def)

lemma ag_reserve: "reserve_tool_invocation c_t1 ''i1'' ''k'' ''u'' ''session-1'' ''turn-1'' 2 1 ''token'' ''d'' (ag_db ag_s2 [ag_t1]) =
    (Inr (ag_inv, True), (ag_db ag_s2 [ag_t1])\<lparr>ad_invocations := [ag_inv]\<rparr>)"
  using ag_capable
  by (simp add: reserve_tool_invocation_def checked_call_def c_after insert_ignore_def Let_def ag_inv_def)

lemma ag_reserve_again: "reserve_tool_invocation c_t1 ''i1'' ''k'' ''u'' ''session-1'' ''turn-1'' 2 1 ''token'' ''d''
      ((ag_db ag_s2 [ag_t1])\<lparr>ad_invocations := [ag_inv]\<rparr>) =
    (Inr (ag_inv, False), (ag_db ag_s2 [ag_t1])\<lparr>ad_invocations := [ag_inv]\<rparr>)"
  using ag_capable
  by (simp add: reserve_tool_invocation_def checked_call_def c_after insert_ignore_def Let_def ag_inv_def invocation_clash_def)

theorem tool_call_starts_once_witness:
  "in_tool ag_inv = ''token'' \<and> in_digest ag_inv = ''d''"
  using tool_call_starts_once [OF ag_reach(3) ag_reserve rtranclp.rtrancl_refl ag_reserve_again] by simp

lemma filter_put_row:
  assumes "keyed key rows" and "r \<in> set rows" and "key r' = key r" and "\<not> P r" and "\<not> P r'"
  shows "filter P (put_row key r' rows) = filter P rows"
proof -
  have "filter P (map (\<lambda>x. if key x = key r' then r' else x) xs) = filter P xs" if "set xs \<subseteq> set rows" for xs
    using that
  proof (induction xs)
    case (Cons x xs)
    have "x = r" if "key x = key r'" using keyed_eqI [OF assms(1) _ assms(2)] that assms(3) Cons.prems by simp
    with Cons assms(4,5) show ?case by auto
  qed simp
  then show ?thesis by (simp add: put_row_def)
qed

lemma cancelled_move:
  assumes "agent_ok db" and "agent_move db db'" and "t \<in> set (ad_turns db)" and "tu_id t = tid" and "tu_cancel t"
  shows "filter (\<lambda>x. in_turn x = tid) (ad_invocations db') = filter (\<lambda>x. in_turn x = tid) (ad_invocations db)"
proof -
  have other: "in_turn x \<noteq> tid" if "u \<in> set (ad_turns db)" "tu_id u = in_turn x" "turn_capable n w v k u" for u x n w v k
    using keyed_eqI [OF agent_okD(3) [OF assms(1)] that(1) assms(3)] assms(4,5) that by (auto simp: turn_capable_def)
  show ?thesis
    using assms(2)
  proof (cases rule: agent_move.cases)
    case (mv_reserve x u now v k)
    then show ?thesis using other [of u x] by simp
  next
    case (mv_finish x x' u now v k)
    have "in_turn x \<noteq> tid" using mv_finish(4-6) by (rule other)
    moreover have "keyed in_id (ad_invocations db)" using agent_okD(8) [OF assms(1)] by (rule table_okD)
    ultimately show ?thesis
      using filter_put_row [of in_id "ad_invocations db" x x' "\<lambda>x. in_turn x = tid"] mv_finish invocation_step_frozen [OF mv_finish(3)] by simp
  qed simp_all
qed

text \<open>C10. A cancel stops the tools of a Turn for good. From the moment its cancel flag is set, in every database the store can
  reach, no tool invocation of the Turn is added or changed: none is started any more, and one that was running when the cancel
  arrived stays recorded as running, since its result is refused.\<close>

theorem cancel_freezes_tools:
  assumes "agent_reach sha db" and "t \<in> set (ad_turns db)" and "tu_cancel t" and "(agent_step sha)\<^sup>*\<^sup>* db later"
  shows "filter (\<lambda>x. in_turn x = tu_id t) (ad_invocations later) = filter (\<lambda>x. in_turn x = tu_id t) (ad_invocations db)"
proof -
  note ok = reach_ok [OF assms(1)]
  have row: "row_of tu_id (tu_id t) (ad_turns db) = Some t"
    using assms(2) agent_okD(3) [OF ok] by (simp add: row_of_Some_iff)
  show ?thesis
    using assms(4)
  proof (induction rule: rtranclp_induct)
    case (step x y)
    have x: "agent_ok x" using step.hyps(1) ok by (rule agent_ok_run)
    have "\<exists>u. row_of tu_id (tu_id t) (ad_turns x) = Some u \<and> (tu_cancel t \<longrightarrow> tu_cancel u)"
      by (rule turns.run_rel [OF turn_run [OF step.hyps(1) ok] agent_okD(2) [OF ok] row]) (auto dest: turn_step_mono)
    then obtain u where "u \<in> set (ad_turns x)" "tu_id u = tu_id t" "tu_cancel u"
      using assms(3) by (auto dest: row_of_SomeD)
    from cancelled_move [OF x agent_step_move [OF x step.hyps(2)] this] step.IH show ?case by simp
  qed simp
qed

definition ag_tc :: agent_turn where "ag_tc = ag_t1\<lparr>tu_cancel := True, tu_version := tu_version ag_t1 + 1\<rparr>"

definition ag_dbi :: "agent_turn \<Rightarrow> agent_db" where "ag_dbi t = (ag_db ag_s2 [t])\<lparr>ad_invocations := [ag_inv]\<rparr>"

lemma ag_cancel: "request_turn_cancel ''turn-1'' ''u'' 2 (ag_dbi ag_t1) = (Inr ag_tc, ag_dbi ag_tc)"
proof -
  have t: "tu_id ag_t1 = ''turn-1''" "tu_owner ag_t1 = ''u''" "tu_version ag_t1 = 2" "tu_state ag_t1 = TU_RUNNING" "\<not> tu_cancel ag_t1"
    by (simp_all add: ag_t1_def ag_t0_def new_turn_def claimed_turn_def upd_turn_claim_def)
  then show ?thesis
    by (simp add: request_turn_cancel_def checked_call_def terminal_turn_states_def rowcount_def cancel_due_def Let_def ag_dbi_def)
      (simp add: ag_tc_def t ag_db_def empty_agent_db_def)
qed

lemma ag_cancel_reach: "agent_reach ag_sha (ag_dbi ag_tc)"
proof -
  have "agent_step ag_sha (ag_db ag_s2 [ag_t1]) (ag_dbi ag_t1)"
    using as_reserve [of ag_sha "ag_db ag_s2 [ag_t1]" c_t1 "''i1''" "''k''" "''u''" "''session-1''" "''turn-1''" 2 1 "''token''" "''d''"]
    by (simp add: ag_reserve ag_dbi_def)
  moreover have "agent_step ag_sha (ag_dbi ag_t1) (ag_dbi ag_tc)"
    using as_cancel [of ag_sha "ag_dbi ag_t1" "''turn-1''" "''u''" 2] by (simp add: ag_cancel)
  ultimately show ?thesis using ag_reach(3) by (meson rtranclp.rtrancl_into_rtrancl)
qed

theorem cancel_freezes_tools_witness:
  "filter (\<lambda>x. in_turn x = ''turn-1'') (ad_invocations (snd (finish_tool_invocation c_t1 ''i1'' ''u'' 2 1 (Some (JObj [])) None 0 (ag_dbi ag_tc)))) = [ag_inv]"
proof -
  have "ag_tc \<in> set (ad_turns (ag_dbi ag_tc))" "tu_cancel ag_tc" "tu_id ag_tc = ''turn-1''"
    by (simp_all add: ag_dbi_def ag_tc_def ag_t1_def ag_t0_def new_turn_def claimed_turn_def upd_turn_claim_def)
  with cancel_freezes_tools [OF ag_cancel_reach this(1,2) r_into_rtranclp [where r = "agent_step ag_sha", OF as_finish [of ag_sha "ag_dbi ag_tc" c_t1 "''i1''" "''u''" 2 1 "Some (JObj [])" None 0]]] show ?thesis
    by (simp add: ag_dbi_def ag_inv_def)
qed

end
