(* ===== verification/AgentTurnProps.thy ===== *)
theory AgentTurnProps
  imports AgentTurns AgentSessionProps
begin

text \<open>
  The dispatch of Turns over the Session store and the outbox: what becomes of a Turn that waits for another Turn of its
  user, and of a Turn whose message has been dead-lettered.
\<close>

section \<open>What an operation keeps\<close>

definition keeps :: "(turn_sys \<Rightarrow> bool) \<Rightarrow> 'a turn_op \<Rightarrow> bool" where
  "keeps P f \<longleftrightarrow> (\<forall>s. P s \<longrightarrow> P (snd (f s)))"

lemma keepsD: "keeps P f \<Longrightarrow> P s \<Longrightarrow> P (snd (f s))"
  by (simp add: keeps_def)

lemma keeps_return [intro, simp]: "keeps P (t_return x)"
  by (simp add: keeps_def t_return_def)

lemma keeps_raise [intro, simp]: "keeps P (t_raise e)"
  by (simp add: keeps_def t_raise_def)

lemma keeps_read [intro, simp]: "keeps P (read_agents f)"
  by (simp add: keeps_def read_agents_def)

lemma turn_keeps_bind [intro]:
  assumes "keeps P f" and "\<And>x. keeps P (g x)"
  shows "keeps P (t_bind f g)"
  unfolding keeps_def t_bind_def
proof (intro allI impI)
  fix s
  assume "P s"
  with assms(1) have "P (snd (f s))" by (rule keepsD)
  then show "P (snd (case f s of (Inl e, s') \<Rightarrow> (Inl e, s') | (Inr x, s') \<Rightarrow> g x s'))"
    using keepsD [OF assms(2)] by (cases "f s"; cases "fst (f s)") auto
qed

text \<open>Invariants of the system that do not look at the clock: one over each store.\<close>

definition both :: "(agent_db \<Rightarrow> bool) \<Rightarrow> (control_db \<Rightarrow> bool) \<Rightarrow> turn_sys \<Rightarrow> bool" where
  "both A C s \<longleftrightarrow> A (ts_agents s) \<and> C (ts_control s)"

lemma keeps_agents:
  "(\<And>n b db. A db \<Longrightarrow> A (snd (f n b db))) \<Longrightarrow> keeps (both A C) (on_agents w f)"
  unfolding keeps_def both_def on_agents_def by (auto split: prod.split) (metis snd_conv)

lemma keeps_control:
  "(\<And>n db. C db \<Longrightarrow> C (snd (f n db))) \<Longrightarrow> keeps (both A C) (on_control w f)"
  unfolding keeps_def both_def on_control_def by (auto split: prod.split) (metis snd_conv)

section \<open>A Turn that waits\<close>

definition waiting :: "string \<Rightarrow> string \<Rightarrow> agent_db \<Rightarrow> bool" where
  "waiting tid home db \<longleftrightarrow> (\<exists>t. row_of tu_id tid (ad_turns db) = Some t \<and> tu_state t \<in> {TU_QUEUED, TU_INTERRUPTED} \<and> tu_session t = home)"

text \<open>Only a claim takes a Turn out of waiting, and a claim raises the fencing token.\<close>

lemma waiting_move:
  assumes "agent_ok db" and "agent_move db db'" and "waiting tid home db"
  shows "waiting tid home db' \<or> turn_token_of tid db < turn_token_of tid db'"
proof -
  from assms(3) obtain t where t: "row_of tu_id tid (ad_turns db) = Some t" "tu_state t \<in> {TU_QUEUED, TU_INTERRUPTED}"
    "tu_session t = home" by (auto simp: waiting_def)
  from turns.tstep_row [OF agent_okD(2) [OF assms(1)] turn_move [OF assms(2)] t(1)] obtain t' where
    t': "row_of tu_id tid (ad_turns db') = Some t'" "t' = t \<or> turn_step t t'" by blast
  from t'(2) have "tu_state t' \<in> {TU_QUEUED, TU_INTERRUPTED} \<or> tu_token t < tu_token t'"
    using t(2) by (auto elim!: turn_step.cases simp: upd_turn_claim_def)
  moreover have "tu_session t' = home" using t'(2) t(3) turn_step_frozen by auto
  ultimately show ?thesis using t t' by (auto simp: waiting_def turn_token_of_def row_measure_def)
qed

lemma waiting_kept:
  assumes "agent_ok db" and "agent_move db db'" and "turn_token_of tid db' = turn_token_of tid db" and "waiting tid home db"
  shows "agent_ok db' \<and> waiting tid home db'"
  using waiting_move [OF assms(1,2,4)] agent_ok_move [OF assms(1,2)] assms(3) by simp

lemma token_sql_update:
  assumes "\<And>t. tu_id (f t) = tu_id t" and "\<And>t. tu_id t = tid \<Longrightarrow> p t \<Longrightarrow> tu_token (f t) = tu_token t"
  shows "row_measure tu_id 0 tu_token tid (sql_update p f rows) = row_measure tu_id 0 tu_token tid rows"
  using assms row_of_sql_update [of rows p tu_id f tid]
  by (auto simp: row_measure_def dest: row_of_SomeD split: option.split)

lemma checkpoint_pointer_token:
  "checkpoint_pointer e rows = Some rows' \<Longrightarrow> row_measure tu_id 0 tu_token tid rows' = row_measure tu_id 0 tu_token tid rows"
  by (auto simp: checkpoint_pointer_def token_sql_update split: if_splits option.splits)

lemma checked_call_keeps: "(list_all fst cs \<Longrightarrow> P (snd (f db))) \<Longrightarrow> P db \<Longrightarrow> P (snd (checked_call cs f db))"
  by (simp add: checked_call_def first_failure_None split: option.split)

lemma move_session_turns: "ad_turns (snd (move_session sid owner states f e db)) = ad_turns db"
  by (simp add: move_session_def Let_def split: option.split)

lemma renew_token: "turn_token_of tid (snd (renew_turn now base l n db)) = turn_token_of tid db"
  unfolding renew_turn_def
  by (rule checked_call_keeps [where P = "\<lambda>d. turn_token_of tid d = turn_token_of tid db"])
    (simp_all add: turn_token_of_def Let_def token_sql_update split: option.split)

lemma append_token: "turn_token_of tid (snd (append_turn_event now i l k et payload db)) = turn_token_of tid db"
  unfolding append_turn_event_def
  by (rule checked_call_keeps [where P = "\<lambda>d. turn_token_of tid d = turn_token_of tid db"])
    (auto simp: turn_token_of_def Let_def token_sql_update dest: checkpoint_pointer_token split: option.split)

lemma cancel_token: "turn_token_of tid (snd (request_turn_cancel i owner v db)) = turn_token_of tid db"
  unfolding request_turn_cancel_def
  by (rule checked_call_keeps [where P = "\<lambda>d. turn_token_of tid d = turn_token_of tid db"])
    (auto simp: turn_token_of_def Let_def token_sql_update split: option.split)

lemma end_claim_token:
  assumes "\<And>t. tu_id (f t) = tu_id t" and "\<And>t. tu_token (f t) = tu_token t"
  shows "turn_token_of tid (snd (end_claim l f g db)) = turn_token_of tid db"
proof -
  have turns: "ad_turns d = sql_update (turn_bound l) f (ad_turns db)"
    if "move_session a b c g e (db\<lparr>ad_turns := sql_update (turn_bound l) f (ad_turns db)\<rparr>) = (r, d)" for a b c e r d
    using move_session_turns [of a b c g e "db\<lparr>ad_turns := sql_update (turn_bound l) f (ad_turns db)\<rparr>"] that by simp
  show ?thesis
    unfolding end_claim_def using assms
    by (auto simp: turn_token_of_def token_sql_update dest!: turns split: prod.split sum.split)
qed

lemma complete_token: "turn_token_of tid (snd (complete_turn now i l c u out db)) = turn_token_of tid db"
  unfolding complete_turn_def
  by (rule checked_call_keeps [where P = "\<lambda>d. turn_token_of tid d = turn_token_of tid db"])
    (simp_all add: end_claim_token upd_turn_end_def)

lemma interrupt_token: "turn_token_of tid (snd (interrupt_turn now i l c e db)) = turn_token_of tid db"
  unfolding interrupt_turn_def
  by (rule checked_call_keeps [where P = "\<lambda>d. turn_token_of tid d = turn_token_of tid db"])
    (simp_all add: end_claim_token upd_turn_end_def)

lemma claim_token: "tid \<noteq> i \<Longrightarrow> turn_token_of tid (snd (claim_turn now base i worker n db)) = turn_token_of tid db"
proof -
  assume ne: "tid \<noteq> i"
  have turns: "row_measure tu_id 0 tu_token tid (ad_turns d) = row_measure tu_id 0 tu_token tid (ad_turns db)"
    if "move_session a b c g e (db\<lparr>ad_turns := sql_update p f (ad_turns db)\<rparr>) = (r, d)" "\<And>t. tu_id (f t) = tu_id t" "\<And>t. p t \<Longrightarrow> tu_id t = i"
    for a b c g e p f r d
    using move_session_turns [of a b c g e "db\<lparr>ad_turns := sql_update p f (ad_turns db)\<rparr>"] that ne
    by (auto intro!: token_sql_update)
  show ?thesis
    unfolding claim_turn_def
    by (rule checked_call_keeps [where P = "\<lambda>d. turn_token_of tid d = turn_token_of tid db"])
      (auto simp: turn_token_of_def Let_def upd_turn_claim_def dest!: turns split: option.split prod.split sum.split)
qed

text \<open>No operation but a claim of this very Turn ends its waiting.\<close>

definition held_back :: "string \<Rightarrow> string \<Rightarrow> agent_db \<Rightarrow> bool" where
  "held_back tid home db \<longleftrightarrow> agent_ok db \<and> waiting tid home db"

lemma held_back_ops:
  assumes "held_back tid home db"
  shows "held_back tid home (snd (renew_turn now base l n db))" "held_back tid home (snd (append_turn_event now i l k et payload db))"
    "held_back tid home (snd (request_turn_cancel i owner v db))" "held_back tid home (snd (complete_turn now i l c u out db))"
    "held_back tid home (snd (interrupt_turn now i l c e db))" "tid \<noteq> i \<Longrightarrow> held_back tid home (snd (claim_turn now base i worker n db))"
proof -
  have ok: "agent_ok db" "waiting tid home db" using assms by (simp_all add: held_back_def)
  note kept = waiting_kept [OF ok(1) _ _ ok(2), folded held_back_def]
  show "held_back tid home (snd (renew_turn now base l n db))"
    by (rule kept) (simp_all add: renew_turn_move [OF ok(1)] renew_token)
  show "held_back tid home (snd (append_turn_event now i l k et payload db))"
    by (rule kept) (simp_all add: append_turn_event_move [OF ok(1)] append_token)
  show "held_back tid home (snd (request_turn_cancel i owner v db))"
    by (rule kept) (simp_all add: request_turn_cancel_move [OF ok(1)] cancel_token)
  show "held_back tid home (snd (complete_turn now i l c u out db))"
    by (rule kept) (simp_all add: complete_turn_move [OF ok(1)] complete_token)
  show "held_back tid home (snd (interrupt_turn now i l c e db))"
    by (rule kept) (simp_all add: interrupt_turn_move [OF ok(1)] interrupt_token)
  show "held_back tid home (snd (claim_turn now base i worker n db))" if "tid \<noteq> i"
    by (rule kept) (simp_all add: claim_turn_move [OF ok(1)] claim_token [OF that])
qed

lemma held_back_rows:
  assumes "held_back tid home db"
  shows "held_back tid home (snd (create_session now fresh owner key profile model source db))"
    "held_back tid home (snd (create_turn sha now fresh sid owner key msg v db))"
    "held_back tid home (snd (reserve_tool_invocation now iid key owner sid i v k tool digest db))"
    "held_back tid home (snd (finish_tool_invocation now iid owner v k res err bytes db))"
proof -
  have ok: "agent_ok db" "waiting tid home db" using assms by (simp_all add: held_back_def)
  have turns: "held_back tid home db'" if "agent_move db db'" "ad_turns db' = ad_turns db" for db'
    using agent_ok_move [OF ok(1) that(1)] ok(2) that(2) by (simp add: held_back_def waiting_def)
  show "held_back tid home (snd (create_session now fresh owner key profile model source db))"
    by (rule turns [OF create_session_move])
      (auto simp: create_session_def checked_call_def Let_def split: option.split)
  show "held_back tid home (snd (reserve_tool_invocation now iid key owner sid i v k tool digest db))"
    by (rule turns [OF reserve_tool_invocation_move [OF ok(1)]])
      (auto simp: reserve_tool_invocation_def checked_call_def Let_def split: option.split)
  show "held_back tid home (snd (finish_tool_invocation now iid owner v k res err bytes db))"
    by (rule turns [OF finish_tool_invocation_move [OF ok(1)]])
      (auto simp: finish_tool_invocation_def checked_call_def Let_def split: option.split)
  show "held_back tid home (snd (create_turn sha now fresh sid owner key msg v db))"
  proof (rule create_turn_cases [OF ok(1), of sha now fresh sid owner key msg v], goal_cases)
    case (1 r)
    then show ?case using assms by simp
  next
    case new: (2 s)
    have "waiting tid home (snd (create_turn sha now fresh sid owner key msg v db))"
      using ok(2) unfolding new(8) by (auto simp: waiting_def row_of_append)
    then show ?case using agent_ok_move [OF ok(1) create_turn_move [OF ok(1)]] by (simp add: held_back_def)
  qed
qed

section \<open>A dead-lettered message\<close>

text \<open>The message of the Turn is dead-lettered, and no other message is about that Turn.\<close>

definition dead_message :: "string \<Rightarrow> control_db \<Rightarrow> bool" where
  "dead_message tid db \<longleftrightarrow> control_ok db \<and>
     (\<exists>r. row_of ms_id (turn_message_id tid) (cd_outbox db) = Some r \<and> ms_state r = OB_dead_letter) \<and>
     (\<forall>m \<in> set (cd_outbox db). message_turn m = Inr tid \<longrightarrow> ms_id m = turn_message_id tid)"

lemma dead_messageD:
  assumes "dead_message tid db" and "m \<in> set (cd_outbox db)" and "message_turn m = Inr tid"
  shows "ms_state m = OB_dead_letter"
proof -
  obtain r where r: "row_of ms_id (turn_message_id tid) (cd_outbox db) = Some r" "ms_state r = OB_dead_letter"
    using assms(1) by (auto simp: dead_message_def)
  have "row_of ms_id (turn_message_id tid) (cd_outbox db) = Some m"
    using assms control_okD(2) [of db] by (simp add: dead_message_def row_of_Some_iff)
  with r show ?thesis by simp
qed

lemma message_turn_frozen:
  "ms_topic m' = ms_topic m \<Longrightarrow> ms_aggregate m' = ms_aggregate m \<Longrightarrow> ms_payload m' = ms_payload m \<Longrightarrow> message_turn m' = message_turn m"
  by (simp add: message_turn_def split: option.split json.split)

text \<open>A step that adds no message keeps it so.\<close>

lemma dead_message_step:
  assumes "dead_message tid db" and "control_step iso_ok redact db db'"
    and new: "\<And>m. m \<in> set (cd_outbox db') \<Longrightarrow> message_turn m = Inr tid \<Longrightarrow> ms_id m \<in> ms_id ` set (cd_outbox db) \<or> ms_id m = turn_message_id tid"
  shows "dead_message tid db'"
proof -
  have ok: "control_ok db" using assms(1) by (simp add: dead_message_def)
  have ok': "control_ok db'" using ok assms(2) by (rule control_ok_step)
  have run: "msg_moves\<^sup>*\<^sup>* (cd_outbox db) (cd_outbox db')" using control_step_moves [OF ok assms(2)] by simp
  let ?R = "\<lambda>x y. ms_topic y = ms_topic x \<and> ms_aggregate y = ms_aggregate x \<and> ms_payload y = ms_payload x \<and>
    (ms_state x = OB_dead_letter \<longrightarrow> y = x)"
  have kept: "\<exists>r'. row_of ms_id i (cd_outbox db') = Some r' \<and> ?R r r'" if "row_of ms_id i (cd_outbox db) = Some r" for i r
    using run control_okD(4) [OF ok] that
  proof (rule messages.run_rel [where R = ?R])
    show "?R r y" if "msg_inv x" "?R r x" "msg_step x y" for x y
      using msg_step_frozen [OF that(3)] settled_no_step [OF that(3)] that(2) by auto
  qed simp
  obtain r where r: "row_of ms_id (turn_message_id tid) (cd_outbox db) = Some r" "ms_state r = OB_dead_letter"
    using assms(1) by (auto simp: dead_message_def)
  from kept [OF r(1)] r(2) have dead: "row_of ms_id (turn_message_id tid) (cd_outbox db') = Some r" by auto
  have "ms_id m = turn_message_id tid" if m: "m \<in> set (cd_outbox db')" "message_turn m = Inr tid" for m
  proof (cases "ms_id m \<in> ms_id ` set (cd_outbox db)")
    case True
    then obtain x where x: "x \<in> set (cd_outbox db)" "ms_id x = ms_id m" by auto
    then have "row_of ms_id (ms_id m) (cd_outbox db) = Some x" using control_okD(2) [OF ok] by (simp add: row_of_Some_iff)
    from kept [OF this] obtain y where y: "row_of ms_id (ms_id m) (cd_outbox db') = Some y" "?R x y" by blast
    moreover have "row_of ms_id (ms_id m) (cd_outbox db') = Some m" using m(1) control_okD(2) [OF ok'] by (simp add: row_of_Some_iff)
    ultimately have "message_turn x = Inr tid" using m(2) message_turn_frozen [of m x] by auto
    with assms(1) x show ?thesis by (auto simp: dead_message_def)
  next
    case False
    with new [OF m] show ?thesis by simp
  qed
  with ok' dead r(2) show ?thesis by (auto simp: dead_message_def)
qed

lemma ids_sql_update: "(\<And>m. ms_id (f m) = ms_id m) \<Longrightarrow> ms_id ` set (sql_update p f rows) = ms_id ` set rows"
  unfolding list.set_map [symmetric] by (simp only: map_key_sql_update)

lemma finish_ids: "ms_id ` set (cd_outbox (snd (finish now mid owner token st avail err db))) = ms_id ` set (cd_outbox db)"
  by (simp add: finish_def ids_sql_update upd_finish_def)

lemma retry_ids: "ms_id ` set (cd_outbox (snd (retry redact now mid owner token err delay most db))) = ms_id ` set (cd_outbox db)"
proof -
  have "ms_id ` set (cd_outbox t) = ms_id ` set (cd_outbox db)" if "finish now mid owner token st avail e db = (x, t)" for st avail e x t
    using finish_ids [of now mid owner token st avail e db] that by simp
  then show ?thesis
    unfolding retry_def by (simp del: first_failure.simps split: option.split sum.split prod.split)
qed

lemma renew_ids: "ms_id ` set (cd_outbox (snd (renew_outbox now mid owner token n db))) = ms_id ` set (cd_outbox db)"
proof -
  have "ms_id ` set (cd_outbox (snd (renew_update now mid owner token n db))) = ms_id ` set (cd_outbox db)"
    unfolding renew_update_def
    by (simp add: Let_def ids_sql_update del: first_failure.simps split: option.split)
  then show ?thesis
    unfolding renew_outbox_def by (auto split: prod.split sum.split)
qed

lemma claim_ids:
  assumes "control_ok db"
  shows "ms_id ` set (cd_outbox (snd (claim_outbox now owner limit n topics db))) = ms_id ` set (cd_outbox db)"
proof (cases "claim_args_ok now owner limit n topics")
  case False
  from claim_outbox_refused [OF False, of db] show ?thesis by auto
next
  case True
  from claim_outbox_batch(1) [OF assms True] show ?thesis
    by (simp add: ids_sql_update)
qed

lemma dead_message_ops:
  assumes "dead_message tid db"
  shows "dead_message tid (snd (acknowledge now mid owner token db))"
    "dead_message tid (snd (retry redact now mid owner token err delay most db))"
    "dead_message tid (snd (renew_outbox now mid owner token n db))"
    "dead_message tid (snd (claim_outbox now owner limit n topics db))"
proof -
  have ok: "control_ok db" using assms by (simp add: dead_message_def)
  have kept: "dead_message tid db'" if "control_step (\<lambda>_. True) r db db'" "ms_id ` set (cd_outbox db') = ms_id ` set (cd_outbox db)" for r db'
    using that by (intro dead_message_step [OF assms that(1)]) blast
  show "dead_message tid (snd (acknowledge now mid owner token db))"
    by (rule kept [OF c_acknowledge]) (simp add: acknowledge_def finish_ids)
  show "dead_message tid (snd (retry redact now mid owner token err delay most db))"
    by (rule kept [OF c_retry]) (rule retry_ids)
  show "dead_message tid (snd (renew_outbox now mid owner token n db))"
    by (rule kept [OF c_renew_outbox]) (rule renew_ids)
  show "dead_message tid (snd (claim_outbox now owner limit n topics db))"
    by (rule kept [OF c_claim]) (rule claim_ids [OF ok])
qed

lemma new_turn_message: "message_turn (new_message now (turn_message_id i) turn_topic i (JObj [(''turn_id'', JStr i)]) d) = Inr i"
  by (simp add: message_turn_def new_message_def)

lemma dead_message_enqueue:
  assumes "dead_message tid db"
  shows "dead_message tid (snd (enqueue iso_ok now (turn_message_id i) turn_topic i (JObj [(''turn_id'', JStr i)]) None db))"
proof (rule dead_message_step [OF assms c_enqueue])
  fix m
  assume "m \<in> set (cd_outbox (snd (enqueue iso_ok now (turn_message_id i) turn_topic i (JObj [(''turn_id'', JStr i)]) None db)))"
    "message_turn m = Inr tid"
  moreover have "cd_outbox (snd (enqueue iso_ok now (turn_message_id i) turn_topic i (JObj [(''turn_id'', JStr i)]) None db)) \<in>
      {cd_outbox db, cd_outbox db @ [new_message now (turn_message_id i) turn_topic i (JObj [(''turn_id'', JStr i)]) (isoformat now)]}"
    unfolding enqueue_def Let_def insert_ignore_def by (simp del: first_failure.simps split: option.split)
  ultimately show "ms_id m \<in> ms_id ` set (cd_outbox db) \<or> ms_id m = turn_message_id tid"
    by (auto simp: new_turn_message) (auto simp: new_message_def)
qed

section \<open>Stranded Turns\<close>

abbreviation stranded :: "string \<Rightarrow> string \<Rightarrow> turn_sys \<Rightarrow> bool" where
  "stranded tid home \<equiv> both (held_back tid home) (dead_message tid)"

lemma keeps_agent_ops:
  "keeps (stranded tid home) (on_agents w (\<lambda>n b. renew_turn n b l k))"
  "keeps (stranded tid home) (on_agents w (\<lambda>n b. append_turn_event n i l j et payload))"
  "keeps (stranded tid home) (on_agents w (\<lambda>n b. complete_turn n i l c u out))"
  "keeps (stranded tid home) (on_agents w (\<lambda>n b. interrupt_turn n i l c e))"
  "tid \<noteq> i \<Longrightarrow> keeps (stranded tid home) (on_agents w (\<lambda>n b. claim_turn n b i worker k))"
  "keeps (stranded tid home) (on_agents w (\<lambda>n b. create_turn sha n fresh sid owner key msg v))"
  "keeps (stranded tid home) (on_agents w (\<lambda>n b db. (list_recoverable_turns n limit db, db)))"
  by (rule keeps_agents; simp add: held_back_ops held_back_rows)+

lemma keeps_control_ops:
  "keeps (stranded tid home) (on_control w (\<lambda>n. acknowledge n mid owner token))"
  "keeps (stranded tid home) (on_control w (\<lambda>n. retry redact n mid owner token err delay most))"
  "keeps (stranded tid home) (on_control w (\<lambda>n. renew_outbox n mid owner token k))"
  "keeps (stranded tid home) (on_control w (\<lambda>n. claim_outbox n owner limit k topics))"
  "keeps (stranded tid home) (on_control w (\<lambda>n. enqueue iso_ok n (turn_message_id i) turn_topic i (JObj [(''turn_id'', JStr i)]) None))"
  by (rule keeps_control; simp add: dead_message_ops dead_message_enqueue)+

lemma keeps_enqueue: "keeps (stranded tid home) (enqueue_turn w i)"
  unfolding enqueue_turn_def by (rule keeps_control_ops)

lemma keeps_submit: "keeps (stranded tid home) (submit_turn_message w fresh sid owner key msg v)"
  unfolding submit_turn_message_def
  by (intro turn_keeps_bind keeps_agent_ops) (auto intro!: turn_keeps_bind keeps_enqueue split: prod.split)

lemma keeps_enqueue_turns: "keeps (stranded tid home) (enqueue_turns w ts n)"
proof (induction ts arbitrary: n)
  case (Cons t ts)
  then show ?case by (auto intro!: turn_keeps_bind keeps_enqueue split: prod.split)
qed simp

lemma keeps_recover: "keeps (stranded tid home) (recover_pending_turns w limit)"
  unfolding recover_pending_turns_def by (intro turn_keeps_bind keeps_agent_ops keeps_enqueue_turns)

lemma keeps_messages: "keeps (stranded tid home) (ack_turn w m)" "keeps (stranded tid home) (retry_turn w m err delay)"
  unfolding ack_turn_def retry_turn_def by (intro turn_keeps_bind keeps_control_ops keeps_return)+

lemma keeps_interrupt: "keeps (stranded tid home) (interrupt_and_retry w m l c code)"
  unfolding interrupt_and_retry_def by (intro turn_keeps_bind keeps_agent_ops keeps_messages)

lemma keeps_failed: "keeps (stranded tid home) (turn_failed_by w m l c e)"
  unfolding turn_failed_by_def by (intro turn_keeps_bind keeps_raise) (cases e, simp_all add: keeps_interrupt)

lemma keeps_client: "keeps P (call_client r)"
  by (cases r) (simp_all add: call_client_def)

lemma keeps_block: "keeps P (block_generative_project w l se)"
  unfolding block_generative_project_def by (simp split: option.split json.split)

lemma keeps_finish: "keeps (stranded tid home) (finish_terminal w m l ev c se)"
  unfolding finish_terminal_def Let_def
  by (intro turn_keeps_bind) (auto intro!: turn_keeps_bind keeps_agent_ops keeps_messages keeps_block split: prod.split)

lemma keeps_cancel: "keeps (stranded tid home) (cancel_and_complete w m l c i)"
  unfolding cancel_and_complete_def by (intro turn_keeps_bind keeps_client keeps_agent_ops keeps_messages)

lemma keeps_renew: "keeps (stranded tid home) (renew_dispatch_leases w m l)"
  unfolding renew_dispatch_leases_def by (intro turn_keeps_bind keeps_agent_ops keeps_control_ops keeps_return)

lemma beats_keep: "stranded tid home s \<Longrightarrow> stranded tid home (snd (beats w m l k failed s))"
proof (induction k arbitrary: failed s)
  case (Suc k)
  from keepsD [OF keeps_renew Suc.prems, of w m l] Suc show ?case by (auto split: prod.split)
qed simp

lemma body_keeps: "stranded tid home s \<Longrightarrow> stranded tid home (snd (turn_event_body w l start ev lo s))"
proof -
  assume s: "stranded tid home s"
  obtain r s1 where r: "on_agents w (\<lambda>now _. append_turn_event now (le_turn l) l (start + ce_sequence ev) (ce_type ev) (ce_payload ev)) s = (r, s1)"
    by fastforce
  have "stranded tid home s1"
    using keepsD [OF keeps_agent_ops(2) s, of w "le_turn l" l "start + ce_sequence ev" "ce_type ev" "ce_payload ev"] r by simp
  then show ?thesis
    unfolding turn_event_body_def r by (simp add: Let_def read_agents_def split: sum.split)
qed

lemma stream_keeps: "stranded tid home s \<Longrightarrow> stranded tid home (snd (turn_stream w m l start evs lo s))"
proof (induction evs arbitrary: lo s)
  case (Cons x evs)
  obtain k ev where x: "x = (k, ev)" by fastforce
  obtain failed s1 where b: "beats w m l k (lo_failed lo) s = (failed, s1)" by fastforce
  have s1: "stranded tid home s1" using beats_keep [OF Cons.prems, of w m l k "lo_failed lo"] b by simp
  obtain e lo2 s2 where e: "turn_event_body w l start ev (lo\<lparr>lo_failed := failed\<rparr>) s1 = ((e, lo2), s2)" by (metis surj_pair)
  have s2: "stranded tid home s2" using body_keeps [OF s1, of w l start ev "lo\<lparr>lo_failed := failed\<rparr>"] e by simp
  show ?case
  proof (cases failed)
    case True
    with s1 show ?thesis by (simp add: x b Let_def)
  next
    case False
    with Cons.IH [OF s2] s2 e show ?thesis by (cases e) (simp_all add: x b Let_def)
  qed
qed simp

lemma keeps_run: "keeps (stranded tid home) (run_turn w m l t se)"
  unfolding keeps_def
proof (intro allI impI)
  fix s
  assume s: "stranded tid home s"
  define start where "start = (if tu_checkpoint t \<noteq> None then tu_sequence t else 0)"
  define lo where "lo = \<lparr>lo_checkpoint = tu_checkpoint t, lo_cancel = False, lo_terminal = None, lo_failed = False\<rparr>"
  obtain evs k ending where w: "tw_stream w se t l = (evs, k, ending)" by (metis surj_pair)
  obtain fault lo1 s1 where st: "turn_stream w m l start evs lo s = ((fault, lo1), s1)" by (metis surj_pair)
  have s1: "stranded tid home s1" using stream_keeps [OF s, of w m l start evs lo] st by simp
  obtain failed s2 where b: "beats w m l k (lo_failed lo1) s1 = (failed, s2)" by fastforce
  have s2: "stranded tid home s2" using beats_keep [OF s1, of w m l k "lo_failed lo1"] b by simp
  have ended: "keeps (stranded tid home) (t_bind (interrupt_and_retry w m l c code) (\<lambda>_. t_raise e))"
      "keeps (stranded tid home) (t_bind (finish_terminal w m l ev c se) (\<lambda>_. t_return x))" for c e code ev and x :: bool
    by (intro turn_keeps_bind keeps_interrupt keeps_finish keeps_raise keeps_return)+
  note ops = keepsD [OF keeps_failed] keepsD [OF ended(1)] keepsD [OF ended(2)]
  show "stranded tid home (snd (run_turn w m l t se s))"
    unfolding run_turn_def w Let_def prod.case start_def [symmetric] lo_def [symmetric] st
    using s1 s2 by (cases fault) (simp_all add: b ops split: option.split client_end.split)
qed

lemma keeps_claimed: "keeps (stranded tid home) (dispatch_claimed w m l)"
  unfolding dispatch_claimed_def
  by (auto intro!: turn_keeps_bind keeps_cancel keeps_interrupt keeps_run)

text \<open>Whoever dispatches another Turn leaves this one stranded.\<close>

lemma keeps_dispatch:
  assumes "message_turn m \<noteq> Inr tid"
  shows "keeps (stranded tid home) (dispatch_turn w m)"
proof (cases "message_turn m")
  case (Inl e)
  then show ?thesis by (simp add: dispatch_turn_def)
next
  case (Inr i)
  with assms have "tid \<noteq> i" by simp
  with Inr show ?thesis
    by (auto simp: dispatch_turn_def intro!: turn_keeps_bind keeps_agent_ops keeps_claimed keeps_messages split: option.split)
qed

text \<open>A delivered message is running, so it is not the dead-lettered one.\<close>

lemma delivered_message:
  assumes "dead_message tid db" and "claim_outbox now owner limit n topics db = (Inr ms, db')" and "m \<in> set ms"
  shows "message_turn m \<noteq> Inr tid"
proof
  assume m: "message_turn m = Inr tid"
  have ok: "control_ok db" using assms(1) by (simp add: dead_message_def)
  have args: "claim_args_ok now owner limit n topics"
    using claim_outbox_refused [of now owner limit n topics db] assms(2) by force
  let ?rs = "due_rows (isoformat now) topics limit (cd_outbox db)"
  from claim_outbox_batch(1) [OF ok args] assms(2,3) obtain r where
    r: "r \<in> set ?rs" "m = ms_claimed owner (the (after_seconds n now)) (isoformat now) r" by auto
  have "r \<in> set (cd_outbox db)" "due (isoformat now) r"
    using r(1) by (auto simp: due_rows_def dest!: in_set_takeD)
  moreover have "message_turn r = Inr tid"
    using m message_turn_frozen [of m r] r(2) by (simp add: ms_claimed_def upd_outbox_claim_def)
  ultimately have "ms_state r = OB_dead_letter" using assms(1) by (intro dead_messageD) 
  with \<open>due (isoformat now) r\<close> show False by (simp add: due_def)
qed

lemma loop_keeps: "keeps (stranded tid home) (turn_dispatch_loop w n r)"
  unfolding keeps_def
proof (intro allI impI, induction n arbitrary: r)
  case (Suc n)
  obtain x s1 where x: "on_control w (\<lambda>now. claim_outbox now (tw_worker w) 1 (tw_seconds w) [turn_topic]) s = (x, s1)" by fastforce
  have s1: "stranded tid home s1"
    using keepsD [OF keeps_control_ops(4) Suc.prems, of w "tw_worker w" 1 "tw_seconds w" "[turn_topic]"] x by simp
  show ?case
  proof (cases x)
    case (Inl e)
    with x s1 show ?thesis by simp
  next
    case (Inr ms)
    show ?thesis
    proof (cases ms)
      case Nil
      with x s1 Inr show ?thesis by simp
    next
      case (Cons m rest)
      obtain db' where "claim_outbox (tw_now w (ts_clock s)) (tw_worker w) 1 (tw_seconds w) [turn_topic] (ts_control s) = (Inr ms, db')"
        using x Inr by (auto simp: on_control_def split: prod.splits sum.splits)
      then have "message_turn m \<noteq> Inr tid"
        using delivered_message Suc.prems Cons by (metis both_def list.set_intros(1))
      then have "stranded tid home (snd (dispatch_turn w m s1))" using s1 by (intro keepsD [OF keeps_dispatch])
      with x Inr Cons Suc.IH show ?thesis by (auto split: prod.split sum.split)
    qed
  qed
qed simp

text \<open>The steps of the system: calls of the service, a worker's pass, and the single accesses that passes under way and the
  API make. A claim is made by a worker that was delivered the message and still has it.\<close>

inductive turn_sys_step :: "turn_sys \<Rightarrow> turn_sys \<Rightarrow> bool" where
  y_submit: "turn_sys_step s (snd (submit_turn_message w fresh sid owner key msg v s))"
| y_recover: "turn_sys_step s (snd (recover_pending_turns w limit s))"
| y_dispatch: "turn_sys_step s (snd (dispatch_turns_due w limit s))"
| y_session: "turn_sys_step s (s\<lparr>ts_agents := snd (create_session now fresh owner key profile model source (ts_agents s))\<rparr>)"
| y_cancel: "turn_sys_step s (s\<lparr>ts_agents := snd (request_turn_cancel tid owner v (ts_agents s))\<rparr>)"
| y_reserve: "turn_sys_step s (s\<lparr>ts_agents := snd (reserve_tool_invocation now iid key owner sid tid v k tool digest (ts_agents s))\<rparr>)"
| y_finish: "turn_sys_step s (s\<lparr>ts_agents := snd (finish_tool_invocation now iid owner v k res err bytes (ts_agents s))\<rparr>)"
| y_claim: "m \<in> set (cd_outbox (ts_control s)) \<Longrightarrow> ms_state m = OB_running \<Longrightarrow> message_turn m = Inr tid \<Longrightarrow>
    turn_sys_step s (s\<lparr>ts_agents := snd (claim_turn now base tid worker n (ts_agents s))\<rparr>)"
| y_renew: "turn_sys_step s (s\<lparr>ts_agents := snd (renew_turn now base l n (ts_agents s))\<rparr>)"
| y_event: "turn_sys_step s (s\<lparr>ts_agents := snd (append_turn_event now tid l i et payload (ts_agents s))\<rparr>)"
| y_complete: "turn_sys_step s (s\<lparr>ts_agents := snd (complete_turn now tid l c usage outcome (ts_agents s))\<rparr>)"
| y_interrupt: "turn_sys_step s (s\<lparr>ts_agents := snd (interrupt_turn now tid l c err (ts_agents s))\<rparr>)"
| y_deliver: "turn_sys_step s (s\<lparr>ts_control := snd (claim_outbox now worker limit n topics (ts_control s))\<rparr>)"
| y_acknowledge: "turn_sys_step s (s\<lparr>ts_control := snd (acknowledge now mid worker token (ts_control s))\<rparr>)"
| y_retry: "turn_sys_step s (s\<lparr>ts_control := snd (retry redact now mid worker token error delay most (ts_control s))\<rparr>)"
| y_renew_message: "turn_sys_step s (s\<lparr>ts_control := snd (renew_outbox now mid worker token n (ts_control s))\<rparr>)"

lemma stranded_step:
  assumes "stranded tid home s" and "turn_sys_step s s'"
  shows "stranded tid home s'"
  using assms(2)
proof (cases rule: turn_sys_step.cases)
  case y_submit
  then show ?thesis using keepsD [OF keeps_submit assms(1)] by simp
next
  case y_recover
  then show ?thesis using keepsD [OF keeps_recover assms(1)] by simp
next
  case (y_dispatch w limit)
  then show ?thesis using keepsD [OF loop_keeps assms(1)] assms(1) by (simp add: dispatch_turns_due_def t_raise_def)
next
  case (y_claim m i now base worker n)
  have "tid \<noteq> i" using dead_messageD [of tid "ts_control s" m] assms(1) y_claim(2-4) by (auto simp: both_def)
  then show ?thesis using y_claim(1) assms(1) by (simp add: both_def held_back_ops)
qed (use assms(1) in \<open>simp_all add: both_def held_back_ops held_back_rows dead_message_ops\<close>)

lemma stranded_run: "turn_sys_step\<^sup>*\<^sup>* s s' \<Longrightarrow> stranded tid home s \<Longrightarrow> stranded tid home s'"
  by (induction rule: rtranclp_induct) (auto intro: stranded_step)


definition at_world :: turn_world where
  "at_world = \<lparr>tw_iso = (\<lambda>_. True), tw_redact = id, tw_sha = ag_sha, tw_now = (\<lambda>_. c_t1), tw_worker = ''w2'', tw_seconds = 60,
     tw_max = 5, tw_rebuilds = (\<lambda>_. True), tw_signs = (\<lambda>_ _. True), tw_stream = (\<lambda>_ _ _. ([], 0, CE_Done)),
     tw_cancels = (\<lambda>_. CE_Done), tw_projects = False, tw_blocks = (\<lambda>_ _. True)\<rparr>"

definition at_message :: "string \<Rightarrow> message" where
  "at_message tid = \<lparr>ms_id = turn_message_id tid, ms_topic = turn_topic, ms_aggregate = tid,
     ms_payload = JObj [(''turn_id'', JStr tid)], ms_state = OB_running, ms_available_at = ''2025-01-01T00:00:00+00:00'',
     ms_lease_owner = Some ''w2'', ms_lease_expires = Some ''2025-01-01T00:01:05+00:00'', ms_token = 5, ms_attempts = 5,
     ms_last_error = None, ms_created_at = ''2025-01-01T00:00:00+00:00'', ms_updated_at = ''2025-01-01T00:00:05+00:00''\<rparr>"

definition at_dead :: "string \<Rightarrow> message" where
  "at_dead tid = upd_finish OB_dead_letter (Some ''2025-01-01T00:00:06+00:00'') (Some ''busy'') ''2025-01-01T00:00:05+00:00'' (at_message tid)"

lemmas at_defs = at_dead_def at_message_def upd_finish_def

lemma at_control: "control_ok (c_box (at_message tid))" "control_ok (c_box (at_dead tid))"
  by (simp_all add: control_ok_def table_ok_def keyed_def msg_inv_def at_defs)


section \<open>How a message comes to be dead-lettered\<close>

text \<open>C32. A Turn that only waits for its turn uses up its message. While another Turn of the user runs, each delivery of
  the message ends in a retry one second later, which counts as an attempt, and the delivery that reaches the worker's limit
  of attempts dead-letters it; the Session store is as before, with the Turn still waiting.\<close>

theorem busy_user_exhausts_attempts:
  assumes "agent_reach sha (ts_agents s)" and "control_ok (ts_control s)"
    and "message_turn m = Inr tid" and "row_of ms_id (ms_id m) (cd_outbox (ts_control s)) = Some r"
    and "outbox_held (ms_id m) (tw_worker w) (ms_token m) r" and "0 < ms_token m"
    and "row_of tu_id tid (ad_turns (ts_agents s)) = Some t" and "tu_state t \<in> {TU_QUEUED, TU_INTERRUPTED}"
    and "owner_busy t (ts_agents s)"
    and "claim_turn_args (tw_now w (ts_clock s + 1)) tid (tw_worker w) (tw_seconds w)"
    and "0 < tw_max w" and "after_seconds 1 (tw_now w (ts_clock s + 2)) = Some later"
  shows "fst (dispatch_turn w m s) = Inr False \<and> ts_agents (snd (dispatch_turn w m s)) = ts_agents s \<and>
    (\<exists>r'. row_of ms_id (ms_id m) (cd_outbox (ts_control (snd (dispatch_turn w m s)))) = Some r' \<and>
       ms_state r' = (if tw_max w \<le> ms_attempts r then OB_dead_letter else OB_pending) \<and>
       ms_available_at r' = later \<and> ms_attempts r' = ms_attempts r)"
proof -
  note ok = reach_ok [OF assms(1)]
  have t: "t \<in> set (ad_turns (ts_agents s))" "tu_id t = tid" using row_of_SomeD [OF assms(7)] by simp_all
  have none: "\<forall>u \<in> set (ad_turns (ts_agents s)). tu_id u = tid \<longrightarrow> \<not> turn_claimable (isoformat (tw_now w (ts_clock s))) u \<or> owner_busy u (ts_agents s)"
    using t assms(9) agent_okD(3) [OF ok] by (metis keyed_eqI)
  note claim = claim_turn_none [OF ok assms(10) none]
  have look: "get_turn_for_dispatch tid (ts_agents s) = Inr t"
    using assms(7,10) by (simp add: get_turn_for_dispatch_def row_of_def claim_turn_args_def)
  define r' where "r' = r\<lparr>ms_state := if tw_max w \<le> ms_attempts r then OB_dead_letter else OB_pending, ms_available_at := later,
     ms_lease_owner := None, ms_lease_expires := None,
     ms_last_error := Some (tw_redact w (take 2000 ''Agent Turn is not currently claimable'')),
     ms_updated_at := isoformat (tw_now w (ts_clock s + 2))\<rparr>"
  have again: "retry (tw_redact w) (tw_now w (ts_clock s + 2)) (ms_id m) (tw_worker w) (ms_token m)
      ''Agent Turn is not currently claimable'' 1 (tw_max w) (ts_control s) =
      (Inr r', (ts_control s)\<lparr>cd_outbox := put_row ms_id r' (cd_outbox (ts_control s))\<rparr>)"
    unfolding r'_def by (rule retry_verdict [OF assms(2,4,5,6) _ assms(11,12)]) simp
  have "dispatch_turn w m s = (Inr False, s\<lparr>ts_control := (ts_control s)\<lparr>cd_outbox := put_row ms_id r' (cd_outbox (ts_control s))\<rparr>,
      ts_clock := ts_clock s + 3\<rparr>)"
    using assms(8) claim look again
    by (auto simp: dispatch_turn_def assms(3) t_bind_def on_agents_def read_agents_def on_control_def retry_turn_def t_return_def
        terminal_turn_states_def)
  moreover have "ms_id r' = ms_id m" using row_of_SomeD [OF assms(4)] by (simp add: r'_def)
  ultimately show ?thesis using assms(4) by (simp add: row_of_put_row r'_def)
qed

definition at_s0 :: agent_session where
  "at_s0 = new_session c_t0 ''session-2'' ''u'' ''q'' ''p'' ''m'' (JObj [])"

definition at_t :: agent_turn where
  "at_t = new_turn ag_sha c_t0 ''turn-2'' ''session-2'' ''u'' ''q'' ''hi''"

definition at_db :: "agent_session list \<Rightarrow> agent_turn list \<Rightarrow> agent_db" where
  "at_db ss ts = empty_agent_db\<lparr>ad_sessions := ss, ad_turns := ts\<rparr>"

lemma at_names [simp]: "ref_ok ''session-2''" "ref_ok ''turn-2''"
  by (simp_all add: ref_ok_def lower_char_def upper_char_def digit_char_def)

lemma at_session: "create_session c_t0 ''2'' ''u'' ''q'' ''p'' ''m'' (JObj []) (ag_db ag_s2 [ag_t1]) =
    (Inr (at_s0, True), at_db [ag_s2, at_s0] [ag_t1])"
  by (simp add: create_session_def checked_call_def insert_ignore_def Let_def session_clash_def)
    (simp add: ag_defs at_s0_def at_db_def ag_db_def empty_agent_db_def)

lemma at_submit: "create_turn ag_sha c_t0 ''2'' ''session-2'' ''u'' ''q'' ''hi'' 1 (at_db [ag_s2, at_s0] [ag_t1]) =
    (Inr (at_t, True), at_db [ag_s2, upd_session c_t0 SE_QUEUED at_s0] [ag_t1, at_t])"
proof -
  have "se_id ag_s2 = ''session-1''" "tu_session ag_t1 = ''session-1''" "tu_id ag_t1 = ''turn-1''"
    by (simp_all add: ag_defs)
  then show ?thesis
    by (simp add: create_turn_def checked_call_def turn_message_ok_def space_char_def session_due_def rowcount_def Let_def at_db_def
        empty_agent_db_def at_t_def) (simp add: at_s0_def new_session_def)
qed

lemma at_reach: "agent_reach ag_sha (at_db [ag_s2, upd_session c_t0 SE_QUEUED at_s0] [ag_t1, at_t])"
proof -
  have "agent_step ag_sha (ag_db ag_s2 [ag_t1]) (at_db [ag_s2, at_s0] [ag_t1])"
    using as_session [of ag_sha "ag_db ag_s2 [ag_t1]" c_t0 "''2''" "''u''" "''q''" "''p''" "''m''" "JObj []"] by (simp add: at_session)
  moreover have "agent_step ag_sha (at_db [ag_s2, at_s0] [ag_t1]) (at_db [ag_s2, upd_session c_t0 SE_QUEUED at_s0] [ag_t1, at_t])"
    using as_turn [of ag_sha "at_db [ag_s2, at_s0] [ag_t1]" c_t0 "''2''" "''session-2''" "''u''" "''q''" "''hi''" 1] by (simp add: at_submit)
  ultimately show ?thesis using ag_reach(3) by (meson rtranclp.rtrancl_into_rtrancl)
qed

theorem busy_user_exhausts_attempts_witness:
  "fst (dispatch_turn at_world (at_message ''turn-2'')
     \<lparr>ts_agents = at_db [ag_s2, upd_session c_t0 SE_QUEUED at_s0] [ag_t1, at_t], ts_control = c_box (at_message ''turn-2''), ts_clock = 0\<rparr>)
   = Inr False"
proof -
  let ?s = "\<lparr>ts_agents = at_db [ag_s2, upd_session c_t0 SE_QUEUED at_s0] [ag_t1, at_t], ts_control = c_box (at_message ''turn-2''), ts_clock = 0\<rparr>"
  have m: "message_turn (at_message ''turn-2'') = Inr ''turn-2''" "ms_id (at_message ''turn-2'') = turn_message_id ''turn-2''"
    "ms_token (at_message ''turn-2'') = 5"
    by (simp_all add: message_turn_def at_message_def)
  have rows: "row_of ms_id (ms_id (at_message ''turn-2'')) (cd_outbox (ts_control ?s)) = Some (at_message ''turn-2'')"
    "row_of tu_id ''turn-2'' (ad_turns (ts_agents ?s)) = Some at_t"
    by (simp_all add: at_db_def empty_agent_db_def at_t_def new_turn_def ag_defs)
  have held: "outbox_held (ms_id (at_message ''turn-2'')) (tw_worker at_world) (ms_token (at_message ''turn-2'')) (at_message ''turn-2'')"
    by (simp add: outbox_held_def at_message_def at_world_def)
  have busy: "tu_state at_t \<in> {TU_QUEUED, TU_INTERRUPTED}" "owner_busy at_t (ts_agents ?s)"
    by (simp_all add: owner_busy_def at_db_def empty_agent_db_def at_t_def new_turn_def ag_defs)
  obtain later where later: "after_seconds 1 c_t1 = Some later"
    by (simp add: after_seconds_def c_t1_def)
  from busy_user_exhausts_attempts [of ag_sha ?s "at_message ''turn-2''" "''turn-2''" "at_message ''turn-2''" at_world at_t later,
      OF _ _ m(1) rows(1) held _ rows(2) busy]
  show ?thesis using at_reach at_control m later by (simp add: claim_turn_args_def at_world_def c_after)
qed

section \<open>A Turn that runs to its end\<close>

definition event_valid :: "client_event \<Rightarrow> bool" where
  "event_valid e \<longleftrightarrow> name_ok (ce_type e) \<and> is_object (ce_payload e) \<and>
     (ce_type e = ''checkpoint'' \<longrightarrow> payload_checkpoint (canonical (ce_payload e)) \<noteq> None)"

text \<open>The next event of a Turn that is held on a live lease is written.\<close>

lemma append_turn_event_ok:
  assumes "agent_ok db" and u: "row_of tu_id (le_turn l) (ad_turns db) = Some u" "event_due (isoformat now) l i u"
    and "name_ok et" and "is_object payload" and "et = ''checkpoint'' \<Longrightarrow> payload_checkpoint (canonical payload) \<noteq> None"
  obtains c where "append_turn_event now (le_turn l) l i et payload db =
     (Inr (new_event now (ad_event_seq db + 1) l i et payload),
      db\<lparr>ad_turns := put_row tu_id (u\<lparr>tu_sequence := i, tu_checkpoint := c\<rparr>) (ad_turns db),
         ad_events := ad_events db @ [new_event now (ad_event_seq db + 1) l i et payload], ad_event_seq := ad_event_seq db + 1\<rparr>)"
proof -
  note k = agent_okD(3) [OF assms(1)]
  note in_u = row_of_SomeD [OF u(1)]
  let ?e = "new_event now (ad_event_seq db + 1) l i et payload"
  have i: "tu_sequence u = i - 1" using u(2) by (simp add: event_due_def)
  have "0 \<le> tu_sequence u" using agent_okD(10) [OF assms(1), of u] in_u by (simp add: turn_ok_def)
  with i have args: "list_all fst [(0 < i, A_Value ''sequence''), (name_ok et, A_Value ''event_type''), (is_object payload, A_Type ''payload''),
      (le_turn l = le_turn l, A_Conflict ''claim is bound to a different Turn'')]"
    using assms(4,5) by simp
  have "map ev_sequence (turn_log (le_turn l) db) = [1..i - 1]"
    using agent_okD(7) [OF assms(1)] in_u i unfolding log_ok_def by auto
  then have "i \<notin> ev_sequence ` set (turn_log (le_turn l) db)" by (metis atLeastAtMost_iff list.set_map not_le set_upto zle_diff1_eq order_refl less_irrefl)
  then have new: "fetchone (\<lambda>e. ev_turn e = le_turn l \<and> ev_sequence e = i) (ad_events db) = None"
    by (auto simp: fetchone_None turn_log_def)
  have pin: "\<And>x. event_due (isoformat now) l i x \<Longrightarrow> tu_id x = le_turn l" by (simp add: event_due_def turn_bound_def turn_held_def)
  have one: "rowcount (event_due (isoformat now) l i) (ad_turns db) = 1"
    by (rule rowcount_one [OF k, where k = "le_turn l" and r = u]) (use pin in_u u(2) in auto)
  have put: "sql_update (event_due (isoformat now) l i) (\<lambda>t. t\<lparr>tu_sequence := i\<rparr>) (ad_turns db) = put_row tu_id (u\<lparr>tu_sequence := i\<rparr>) (ad_turns db)"
    by (rule sql_update_put [OF k, where k = "le_turn l"]) (use pin in_u u(2) in auto)
  have bound: "event_turn ?e u" using u(2) by (simp add: event_turn_def new_event_def event_due_def turn_bound_def turn_held_def)
  have "u\<lparr>tu_sequence := i\<rparr> \<in> set (put_row tu_id (u\<lparr>tu_sequence := i\<rparr>) (ad_turns db))"
    using set_put_row_eq [OF k, of u "u\<lparr>tu_sequence := i\<rparr>"] in_u by simp
  then have "checkpoint_pointer ?e (put_row tu_id (u\<lparr>tu_sequence := i\<rparr>) (ad_turns db)) \<noteq> None"
    using bound assms(6) by (auto simp: checkpoint_pointer_def new_event_def event_turn_def split: option.splits)
  then obtain ts where ts: "checkpoint_pointer ?e (put_row tu_id (u\<lparr>tu_sequence := i\<rparr>) (ad_turns db)) = Some ts" by blast
  from checkpoint_pointer_put [OF k _ bound _ ts] in_u obtain c where
    c: "ts = put_row tu_id (u\<lparr>tu_sequence := i, tu_checkpoint := c\<rparr>) (ad_turns db)" by (auto simp: new_event_def)
  show ?thesis
  proof (rule that)
    show "append_turn_event now (le_turn l) l i et payload db =
      (Inr ?e, db\<lparr>ad_turns := put_row tu_id (u\<lparr>tu_sequence := i, tu_checkpoint := c\<rparr>) (ad_turns db),
         ad_events := ad_events db @ [?e], ad_event_seq := ad_event_seq db + 1\<rparr>)"
      unfolding append_turn_event_def checked_call_ok [OF args] by (simp add: new one put ts c Let_def)
  qed
qed

text \<open>What the loop over the stream keeps of the Turn it runs.\<close>

definition turn_running :: "turn_world \<Rightarrow> turn_lease \<Rightarrow> int \<Rightarrow> turn_sys \<Rightarrow> bool" where
  "turn_running w l q s \<longleftrightarrow> agent_ok (ts_agents s) \<and>
     (\<exists>u. row_of tu_id (le_turn l) (ad_turns (ts_agents s)) = Some u \<and> turn_bound l u \<and> \<not> tu_cancel u \<and>
        (\<forall>n. lease_live (isoformat (tw_now w n)) u) \<and> tu_sequence u = q)"

definition terminal_after :: "client_event \<Rightarrow> client_event option \<Rightarrow> client_event option" where
  "terminal_after e x = (if ce_type e \<in> {''turn_completed'', ''turn_failed''} then Some e else x)"

definition logged :: "string \<Rightarrow> agent_db \<Rightarrow> (string \<times> json) list" where
  "logged tid db = map (\<lambda>e. (ev_type e, ev_payload e)) (turn_log tid db)"

lemma body_runs:
  assumes "turn_running w l q s" and "ref_ok (le_turn l)" and "ref_ok (le_owner l)" and "event_valid ev" and "start + ce_sequence ev = q + 1"
  obtains s' where "turn_event_body w l start ev lo s =
      ((None, lo\<lparr>lo_checkpoint := checkpoint_after ev (lo_checkpoint lo), lo_terminal := terminal_after ev (lo_terminal lo)\<rparr>), s')"
    "turn_running w l (q + 1) s'" "ts_control s' = ts_control s"
    "logged (le_turn l) (ts_agents s') = logged (le_turn l) (ts_agents s) @ [(ce_type ev, canonical (ce_payload ev))]"
proof -
  let ?now = "tw_now w (ts_clock s)"
  from assms(1) obtain u where ok: "agent_ok (ts_agents s)" and u: "row_of tu_id (le_turn l) (ad_turns (ts_agents s)) = Some u"
    "turn_bound l u" "\<not> tu_cancel u" "\<forall>n. lease_live (isoformat (tw_now w n)) u" "tu_sequence u = q"
    by (auto simp: turn_running_def)
  have due: "event_due (isoformat ?now) l (q + 1) u" using u by (simp add: event_due_def)
  obtain c where app: "append_turn_event ?now (le_turn l) l (q + 1) (ce_type ev) (ce_payload ev) (ts_agents s) =
     (Inr (new_event ?now (ad_event_seq (ts_agents s) + 1) l (q + 1) (ce_type ev) (ce_payload ev)),
      (ts_agents s)\<lparr>ad_turns := put_row tu_id (u\<lparr>tu_sequence := q + 1, tu_checkpoint := c\<rparr>) (ad_turns (ts_agents s)),
         ad_events := ad_events (ts_agents s) @ [new_event ?now (ad_event_seq (ts_agents s) + 1) l (q + 1) (ce_type ev) (ce_payload ev)],
         ad_event_seq := ad_event_seq (ts_agents s) + 1\<rparr>)"
    by (rule append_turn_event_ok [OF ok u(1) due]) (use assms(4) in \<open>auto simp: event_valid_def\<close>)
  let ?db = "snd (append_turn_event ?now (le_turn l) l (q + 1) (ce_type ev) (ce_payload ev) (ts_agents s))"
  let ?u = "u\<lparr>tu_sequence := q + 1, tu_checkpoint := c\<rparr>"
  let ?s = "s\<lparr>ts_agents := ?db, ts_clock := ts_clock s + 2\<rparr>"
  have ok': "agent_ok ?db" by (rule agent_ok_move [OF ok append_turn_event_move [OF ok]])
  have id: "tu_id u = le_turn l" "tu_owner u = le_owner l" using u(2) by (simp_all add: turn_bound_def turn_held_def)
  have row: "row_of tu_id (le_turn l) (ad_turns ?db) = Some ?u" using u(1) id by (simp add: app row_of_put_row)
  have get: "get_turn (le_turn l) (le_owner l) ?db = Inr ?u"
    using row_of_SomeD [OF row] agent_okD(3) [OF ok'] row id assms(2,3)
      fetchone_pinned [of tu_id "ad_turns ?db" "\<lambda>t. tu_id t = le_turn l \<and> tu_owner t = le_owner l" "le_turn l"]
    by (simp add: get_turn_def)
  have body: "turn_event_body w l start ev lo s =
      ((None, lo\<lparr>lo_checkpoint := checkpoint_after ev (lo_checkpoint lo), lo_terminal := terminal_after ev (lo_terminal lo)\<rparr>), ?s)"
    using get u(3) by (simp add: turn_event_body_def on_agents_def read_agents_def assms(5) app terminal_after_def Let_def)
  have live: "lease_live x ?u = lease_live x u" for x by (simp add: lease_live_def)
  have bound: "turn_bound l ?u" using u(2) by (simp add: turn_bound_def turn_held_def)
  show ?thesis
  proof (rule that [OF body])
    show "turn_running w l (q + 1) ?s"
      unfolding turn_running_def using ok' row bound live u(3,4) by (intro conjI exI [of _ ?u]) simp_all
    show "logged (le_turn l) (ts_agents ?s) = logged (le_turn l) (ts_agents s) @ [(ce_type ev, canonical (ce_payload ev))]"
      by (simp add: app logged_def turn_log_def new_event_def)
  qed simp
qed

lemma stream_runs:
  assumes "turn_running w l q s" and "ref_ok (le_turn l)" and "ref_ok (le_owner l)" and "list_all event_valid evs"
    and "map (\<lambda>e. start + ce_sequence e) evs = [q + 1..q + int (length evs)]" and "\<not> lo_failed lo"
  shows "\<exists>s'. turn_stream w m l start (map (Pair 0) evs) lo s =
      ((None, lo\<lparr>lo_checkpoint := fold checkpoint_after evs (lo_checkpoint lo), lo_terminal := fold terminal_after evs (lo_terminal lo)\<rparr>), s') \<and>
    turn_running w l (q + int (length evs)) s' \<and> ts_control s' = ts_control s \<and>
    logged (le_turn l) (ts_agents s') = logged (le_turn l) (ts_agents s) @ map (\<lambda>e. (ce_type e, canonical (ce_payload e))) evs"
  using assms
proof (induction evs arbitrary: q lo s)
  case (Cons e evs)
  have "[q + 1..q + int (length (e # evs))] = (q + 1) # [q + 1 + 1..q + 1 + int (length evs)]"
    by (subst upto_rec1) (simp_all add: algebra_simps)
  with Cons.prems(5) have seq: "start + ce_sequence e = q + 1" "map (\<lambda>e. start + ce_sequence e) evs = [q + 1 + 1..q + 1 + int (length evs)]"
    by simp_all
  have ev: "event_valid e" "list_all event_valid evs" using Cons.prems(4) by simp_all
  have lo: "lo\<lparr>lo_failed := False\<rparr> = lo" using Cons.prems(6) by (cases lo) simp
  obtain s1 where s1: "turn_event_body w l start e lo s =
      ((None, lo\<lparr>lo_checkpoint := checkpoint_after e (lo_checkpoint lo), lo_terminal := terminal_after e (lo_terminal lo)\<rparr>), s1)"
    "turn_running w l (q + 1) s1" "ts_control s1 = ts_control s"
    "logged (le_turn l) (ts_agents s1) = logged (le_turn l) (ts_agents s) @ [(ce_type e, canonical (ce_payload e))]"
    by (rule body_runs [OF Cons.prems(1-3) ev(1) seq(1)])
  from Cons.IH [OF s1(2) Cons.prems(2,3) ev(2) seq(2),
      of "lo\<lparr>lo_checkpoint := checkpoint_after e (lo_checkpoint lo), lo_terminal := terminal_after e (lo_terminal lo)\<rparr>"] Cons.prems(6)
  obtain s' where "turn_stream w m l start (map (Pair 0) evs)
      (lo\<lparr>lo_checkpoint := checkpoint_after e (lo_checkpoint lo), lo_terminal := terminal_after e (lo_terminal lo)\<rparr>) s1 =
      ((None, lo\<lparr>lo_checkpoint := fold checkpoint_after evs (checkpoint_after e (lo_checkpoint lo)),
         lo_terminal := fold terminal_after evs (terminal_after e (lo_terminal lo))\<rparr>), s')"
    "turn_running w l (q + 1 + int (length evs)) s'" "ts_control s' = ts_control s1"
    "logged (le_turn l) (ts_agents s') = logged (le_turn l) (ts_agents s1) @ map (\<lambda>e. (ce_type e, canonical (ce_payload e))) evs"
    by auto
  moreover have "turn_event_body w l start e (lo\<lparr>lo_failed := False\<rparr>) s =
      ((None, lo\<lparr>lo_checkpoint := checkpoint_after e (lo_checkpoint lo), lo_terminal := terminal_after e (lo_terminal lo)\<rparr>), s1)"
    using s1(1) by (simp only: lo)
  ultimately show ?case using s1(3,4) Cons.prems(6) by (auto simp: Let_def algebra_simps)
qed simp

lemma fetch_owned:
  assumes "keyed key rows" and "row_of key k rows = Some r" and "own r = owner"
  shows "fetchone (\<lambda>x. key x = k \<and> own x = owner) rows = Some r"
  using fetchone_pinned [OF assms(1), of "\<lambda>x. key x = k \<and> own x = owner" k] row_of_SomeD [OF assms(2)] assms(2,3) by simp

lemma object_or_empty_object: "is_object (object_or_empty v)"
  by (simp add: object_or_empty_def object_or_none_def split: option.split)

lemma checkpoint_after_object: "optional_object c \<Longrightarrow> optional_object (checkpoint_after e c)"
  by (simp add: checkpoint_after_def or_else_def optional_object_def object_or_none_def Let_def split: option.split)

lemma checkpoints_object: "optional_object c \<Longrightarrow> optional_object (fold checkpoint_after evs c)"
  by (induction evs arbitrary: c) (simp_all add: checkpoint_after_object)

lemma finish_runs:
  assumes "turn_running w l q s" and "optional_object c" and "ce_type ev = ''turn_completed''"
    and "control_ok (ts_control s)" and "row_of ms_id (ms_id m) (cd_outbox (ts_control s)) = Some r"
    and "outbox_held (ms_id m) (tw_worker w) (ms_token m) r" and "0 < ms_token m"
  obtains s' where "finish_terminal w m l ev c se s = (Inr (), s')"
    "\<exists>t. row_of tu_id (le_turn l) (ad_turns (ts_agents s')) = Some t \<and> tu_state t = TU_COMPLETED \<and> tu_checkpoint t = map_option canonical c"
    "\<exists>x \<in> set (ad_sessions (ts_agents s')). se_id x = le_session l \<and> se_state x = SE_IDLE \<and> se_checkpoint x = map_option canonical c"
    "logged (le_turn l) (ts_agents s') = logged (le_turn l) (ts_agents s)"
    "\<exists>r'. row_of ms_id (ms_id m) (cd_outbox (ts_control s')) = Some r' \<and> ms_state r' = OB_succeeded"
proof -
  let ?now = "tw_now w (ts_clock s)"
  let ?usage = "object_or_empty (jfield ''usage'' (ce_payload ev))"
  let ?out = "JObj [(''status'', JStr ''completed''), (''result'', case jfield ''result'' (ce_payload ev) of Some r \<Rightarrow> r | None \<Rightarrow> JNull)]"
  let ?f = "upd_turn_end ?now TU_COMPLETED c None"
  let ?g = "\<lambda>s. (upd_session ?now SE_IDLE s)\<lparr>se_checkpoint := map_option canonical c, se_usage := canonical ?usage, se_outcome := Some (canonical ?out)\<rparr>"
  from assms(1) obtain u where ok: "agent_ok (ts_agents s)" and u: "row_of tu_id (le_turn l) (ad_turns (ts_agents s)) = Some u" "turn_bound l u"
    by (auto simp: turn_running_def)
  have in_u: "u \<in> set (ad_turns (ts_agents s))" "tu_id u = le_turn l" using row_of_SomeD [OF u(1)] by simp_all
  obtain x where x: "x \<in> set (ad_sessions (ts_agents s))" "se_id x = tu_session u"
    "end_claim l ?f ?g (ts_agents s) = (Inr (?f u), (ts_agents s)\<lparr>ad_sessions := put_row se_id (?g x) (ad_sessions (ts_agents s)),
       ad_turns := put_row tu_id (?f u) (ad_turns (ts_agents s))\<rparr>)"
    by (rule end_claim_some [OF ok in_u(1) u(2), of ?f ?g]) (simp_all add: upd_turn_end_def)
  have args: "list_all fst [(optional_object c, A_Type ''final_checkpoint''), (is_object ?usage, A_Type ''resource_usage''),
      (is_object ?out, A_Type ''outcome''), (le_turn l = le_turn l, A_Conflict ''claim is bound to a different Turn'')]"
    using assms(2) by (simp add: object_or_empty_object)
  have state: "outcome_state ?out = TU_COMPLETED" by (simp add: outcome_state_def)
  have complete: "complete_turn ?now (le_turn l) l c ?usage ?out (ts_agents s) =
      (Inr (?f u), (ts_agents s)\<lparr>ad_sessions := put_row se_id (?g x) (ad_sessions (ts_agents s)),
       ad_turns := put_row tu_id (?f u) (ad_turns (ts_agents s))\<rparr>)"
    unfolding complete_turn_def checked_call_ok [OF args] state by (rule x(3))
  let ?r = "upd_finish OB_succeeded None None (isoformat (tw_now w (ts_clock s + 2))) r"
  have ack: "acknowledge (tw_now w (ts_clock s + 2)) (ms_id m) (tw_worker w) (ms_token m) (ts_control s) =
      (Inr (), (ts_control s)\<lparr>cd_outbox := put_row ms_id ?r (cd_outbox (ts_control s))\<rparr>)"
    unfolding acknowledge_def by (rule finish_held [OF assms(4-7)])
  let ?s = "s\<lparr>ts_agents := (ts_agents s)\<lparr>ad_sessions := put_row se_id (?g x) (ad_sessions (ts_agents s)),
       ad_turns := put_row tu_id (?f u) (ad_turns (ts_agents s))\<rparr>,
     ts_control := (ts_control s)\<lparr>cd_outbox := put_row ms_id ?r (cd_outbox (ts_control s))\<rparr>, ts_clock := ts_clock s + 3\<rparr>"
  have id: "tu_id (?f u) = le_turn l" "ms_id ?r = ms_id m" "tu_session u = le_session l"
    using in_u row_of_SomeD [OF assms(5)] u(2) by (simp_all add: upd_turn_end_def upd_finish_def turn_bound_def)
  show ?thesis
  proof (rule that [of ?s])
    show "finish_terminal w m l ev c se s = (Inr (), ?s)"
      using assms(3) complete ack by (simp add: finish_terminal_def t_bind_def t_return_def on_agents_def on_control_def ack_turn_def)
    show "\<exists>t. row_of tu_id (le_turn l) (ad_turns (ts_agents ?s)) = Some t \<and> tu_state t = TU_COMPLETED \<and> tu_checkpoint t = map_option canonical c"
      using u(1) id by (simp add: row_of_put_row) (simp add: upd_turn_end_def)
    have "?g x \<in> set (put_row se_id (?g x) (ad_sessions (ts_agents s)))"
      using set_put_row_eq [OF agent_okD(1) [OF ok] x(1), of "?g x"] by simp
    then show "\<exists>x \<in> set (ad_sessions (ts_agents ?s)). se_id x = le_session l \<and> se_state x = SE_IDLE \<and> se_checkpoint x = map_option canonical c"
      using x(2) id(3) by (intro bexI [of _ "?g x"]) simp_all
    show "logged (le_turn l) (ts_agents ?s) = logged (le_turn l) (ts_agents s)" by (simp add: logged_def turn_log_def)
    show "\<exists>r'. row_of ms_id (ms_id m) (cd_outbox (ts_control ?s)) = Some r' \<and> ms_state r' = OB_succeeded"
      using assms(5) id(2) by (simp add: row_of_put_row) (simp add: upd_finish_def)
  qed
qed

text \<open>C11. A dispatch that is left alone does its work. The worker holds the message of a Turn that waits, no other Turn of the
  user runs, no cancel is requested, the daemon streams valid events numbered on from the Turn's log and ends with
  \<open>turn_completed\<close>, and the lease outlives the call. Then the call succeeds, the Turn is completed and its Session idle, both
  with the last checkpoint of the stream, the log has grown by exactly the streamed events, and the message is settled.\<close>

theorem dispatched_turn_completes:
  assumes "agent_reach sha (ts_agents s)" and "control_ok (ts_control s)"
    and "message_turn m = Inr tid" and "row_of ms_id (ms_id m) (cd_outbox (ts_control s)) = Some r"
    and "outbox_held (ms_id m) (tw_worker w) (ms_token m) r" and "0 < ms_token m"
    and "row_of tu_id tid (ad_turns (ts_agents s)) = Some t" and "tu_state t \<in> {TU_QUEUED, TU_INTERRUPTED}"
    and "\<not> owner_busy t (ts_agents s)" and "\<not> tu_cancel t" and "optional_object (tu_checkpoint t)"
    and "tu_checkpoint t = None \<Longrightarrow> tu_sequence t = 0" and "ref_ok (tu_owner t)" and "ref_ok (tu_session t)"
    and "claim_turn_args (tw_now w (ts_clock s + 1)) tid (tw_worker w) (tw_seconds w)"
    and "\<And>n. isoformat (tw_now w n) < the (after_seconds (tw_seconds w) (tw_now w (ts_clock s + 1)))"
    and "tw_rebuilds w = (\<lambda>_. True)" and "tw_signs w = (\<lambda>_ _. True)"
    and "tw_stream w = (\<lambda>_ _ _. (map (Pair 0) (evs @ [ev]), 0, CE_Done))"
    and "list_all event_valid (evs @ [ev])" and "ce_type ev = ''turn_completed''"
    and "map (\<lambda>e. tu_sequence t + ce_sequence e) (evs @ [ev]) = [tu_sequence t + 1..tu_sequence t + int (length (evs @ [ev]))]"
  defines "checkpoint \<equiv> map_option canonical (fold checkpoint_after (evs @ [ev]) (tu_checkpoint t))"
  shows "\<exists>s'. dispatch_turn w m s = (Inr True, s') \<and>
    (\<exists>t'. row_of tu_id tid (ad_turns (ts_agents s')) = Some t' \<and> tu_state t' = TU_COMPLETED \<and> tu_checkpoint t' = checkpoint) \<and>
    (\<exists>se \<in> set (ad_sessions (ts_agents s')). se_id se = tu_session t \<and> se_state se = SE_IDLE \<and> se_checkpoint se = checkpoint) \<and>
    logged tid (ts_agents s') = logged tid (ts_agents s) @ map (\<lambda>e. (ce_type e, canonical (ce_payload e))) (evs @ [ev]) \<and>
    (\<exists>r'. row_of ms_id (ms_id m) (cd_outbox (ts_control s')) = Some r' \<and> ms_state r' = OB_succeeded)"
proof -
  note ok = reach_ok [OF assms(1)]
  have t: "t \<in> set (ad_turns (ts_agents s))" "tu_id t = tid" using row_of_SomeD [OF assms(7)] by simp_all
  let ?now = "tw_now w (ts_clock s)" and ?base = "tw_now w (ts_clock s + 1)"
  have able: "turn_claimable (isoformat ?now) t" using assms(8) by (auto simp: turn_claimable_def)
  define l where "l = \<lparr>le_turn = tid, le_session = tu_session t, le_owner = tu_owner t, le_worker = tw_worker w,
     le_version = tu_version t + 1, le_token = tu_token t + 1, le_expires = the (after_seconds (tw_seconds w) ?base)\<rparr>"
  define u where "u = claimed_turn ?now ?base (tw_worker w) (tw_seconds w) t"
  obtain se where se: "se \<in> set (ad_sessions (ts_agents s))" "se_id se = tu_session t" "se_owner se = tu_owner t"
    "claim_turn ?now ?base tid (tw_worker w) (tw_seconds w) (ts_agents s) = (Inr (Some l),
       (ts_agents s)\<lparr>ad_sessions := put_row se_id (upd_session ?now SE_RUNNING se) (ad_sessions (ts_agents s)),
          ad_turns := put_row tu_id u (ad_turns (ts_agents s))\<rparr>)"
    unfolding l_def u_def by (rule claim_turn_some [OF ok assms(15) _ _ able assms(9)]) (use t in auto)
  define db where "db = (ts_agents s)\<lparr>ad_sessions := put_row se_id (upd_session ?now SE_RUNNING se) (ad_sessions (ts_agents s)),
          ad_turns := put_row tu_id u (ad_turns (ts_agents s))\<rparr>"
  have claim: "claim_turn ?now ?base tid (tw_worker w) (tw_seconds w) (ts_agents s) = (Inr (Some l), db)"
    using se(4) by (simp only: db_def)
  have okd: "agent_ok db" using agent_ok_move [OF ok claim_turn_move [OF ok]] claim by (metis snd_conv)
  define s1 where "s1 = s\<lparr>ts_agents := db, ts_clock := ts_clock s + 2\<rparr>"
  have l: "le_turn l = tid" "le_owner l = tu_owner t" "le_session l = tu_session t" by (simp_all add: l_def)
  have uu: "tu_id u = tid" "turn_bound l u" "\<not> tu_cancel u" "tu_sequence u = tu_sequence t" "tu_checkpoint u = tu_checkpoint t"
      "tu_owner u = tu_owner t" "\<forall>n. lease_live (isoformat (tw_now w n)) u"
    using t(2) assms(10,16) by (simp_all add: u_def l_def claimed_turn_def upd_turn_claim_def turn_bound_def turn_held_def lease_live_def)
  have row: "row_of tu_id tid (ad_turns db) = Some u" using assms(7) uu(1) t by (simp add: db_def row_of_put_row)
  have run: "turn_running w l (tu_sequence t) s1"
    unfolding turn_running_def s1_def using okd row uu l by auto
  have tid: "ref_ok tid" "ref_ok (tw_worker w)" using assms(15) by (simp_all add: claim_turn_args_def)
  have get: "get_turn tid (tu_owner t) db = Inr u"
    using fetch_owned [OF agent_okD(3) [OF okd] row, of tu_owner] uu tid assms(13) by (simp add: get_turn_def)
  have "row_of se_id (tu_session t) (ad_sessions db) = Some (upd_session ?now SE_RUNNING se)"
    using agent_okD(1) [OF okd] set_put_row_eq [OF agent_okD(1) [OF ok] se(1), of "upd_session ?now SE_RUNNING se"] se(2)
    by (simp add: row_of_Some_iff db_def)
  from fetch_owned [OF agent_okD(1) [OF okd] this, of se_owner] have ses: "get_session (tu_session t) (tu_owner t) db = Inr (upd_session ?now SE_RUNNING se)"
    using se(3) assms(13,14) by (simp add: get_session_def)
  let ?lo = "\<lparr>lo_checkpoint = tu_checkpoint t, lo_cancel = False, lo_terminal = None, lo_failed = False\<rparr>"
  have "ref_ok (le_turn l)" "ref_ok (le_owner l)" using tid assms(13) l by simp_all
  from stream_runs [OF run this assms(20), of "tu_sequence t" ?lo] assms(22) obtain s2 where
    s2: "turn_stream w m l (tu_sequence t) (map (Pair 0) (evs @ [ev])) ?lo s1 =
      ((None, ?lo\<lparr>lo_checkpoint := fold checkpoint_after (evs @ [ev]) (tu_checkpoint t), lo_terminal := fold terminal_after (evs @ [ev]) None\<rparr>), s2)"
    "turn_running w l (tu_sequence t + int (length (evs @ [ev]))) s2" "ts_control s2 = ts_control s1"
    "logged tid (ts_agents s2) = logged tid (ts_agents s1) @ map (\<lambda>e. (ce_type e, canonical (ce_payload e))) (evs @ [ev])"
    by (auto simp: l)
  have last: "terminal_after ev x = Some ev" for x using assms(21) by (simp add: terminal_after_def)
  have control: "ts_control s2 = ts_control s" using s2(3) by (simp add: s1_def)
  obtain s3 where s3: "finish_terminal w m l ev (fold checkpoint_after (evs @ [ev]) (tu_checkpoint t)) (upd_session ?now SE_RUNNING se) s2 = (Inr (), s3)"
    "\<exists>t. row_of tu_id (le_turn l) (ad_turns (ts_agents s3)) = Some t \<and> tu_state t = TU_COMPLETED \<and> tu_checkpoint t = checkpoint"
    "\<exists>x \<in> set (ad_sessions (ts_agents s3)). se_id x = le_session l \<and> se_state x = SE_IDLE \<and> se_checkpoint x = checkpoint"
    "logged (le_turn l) (ts_agents s3) = logged (le_turn l) (ts_agents s2)"
    "\<exists>r'. row_of ms_id (ms_id m) (cd_outbox (ts_control s3)) = Some r' \<and> ms_state r' = OB_succeeded"
    unfolding checkpoint_def
    by (rule finish_runs [OF s2(2) checkpoints_object [OF assms(11), of "evs @ [ev]"] assms(21) _ _ assms(5,6), where se = "upd_session ?now SE_RUNNING se"])
      (use assms(2,4) in \<open>simp_all only: control\<close>)
  define start where "start = (if tu_checkpoint u \<noteq> None then tu_sequence u else 0)"
  have start: "start = tu_sequence t" using uu assms(12) by (auto simp: start_def)
  have "run_turn w m l u (upd_session ?now SE_RUNNING se) s1 = (Inr True, s3)"
    unfolding run_turn_def assms(19) Let_def prod.case start_def [symmetric]
    unfolding start uu(5) s2(1) using s3(1) by (simp add: last t_bind_def t_return_def)
  then have "dispatch_claimed w m l s1 = (Inr True, s3)"
    using get ses uu(3) by (simp add: dispatch_claimed_def t_bind_def read_agents_def l s1_def assms(17,18))
  then have "dispatch_turn w m s = (Inr True, s3)"
    using claim by (simp add: dispatch_turn_def assms(3) t_bind_def on_agents_def s1_def)
  moreover have "logged tid (ts_agents s1) = logged tid (ts_agents s)" by (simp add: s1_def db_def logged_def turn_log_def)
  ultimately show ?thesis using s3(2-5) s2(4) by (simp add: l)
qed

definition at_event :: client_event where
  "at_event = \<lparr>ce_sequence = 1, ce_type = ''turn_completed'', ce_payload = JObj [(''result'', JStr ''done''), (''checkpoint'', JObj [(''step'', JInt 1)])]\<rparr>"

lemma at_event_fields: "ce_sequence at_event = 1" "ce_type at_event = ''turn_completed''" "event_valid at_event"
  by (simp_all add: at_event_def event_valid_def name_ok_def lower_char_def upper_char_def digit_char_def)

theorem dispatched_turn_completes_witness:
  "fst (dispatch_turn (at_world\<lparr>tw_stream := \<lambda>_ _ _. (map (Pair 0) ([] @ [at_event]), 0, CE_Done)\<rparr>) (at_message ''turn-1'')
     \<lparr>ts_agents = ag_db ag_s1 [ag_t0], ts_control = c_box (at_message ''turn-1''), ts_clock = 0\<rparr>) = Inr True"
proof -
  let ?w = "at_world\<lparr>tw_stream := \<lambda>_ _ _. (map (Pair 0) ([] @ [at_event]), 0, CE_Done)\<rparr>"
  let ?s = "\<lparr>ts_agents = ag_db ag_s1 [ag_t0], ts_control = c_box (at_message ''turn-1''), ts_clock = 0\<rparr>"
  have m: "message_turn (at_message ''turn-1'') = Inr ''turn-1''"
    by (simp add: message_turn_def at_message_def)
  have rows: "row_of ms_id (ms_id (at_message ''turn-1'')) (cd_outbox (ts_control ?s)) = Some (at_message ''turn-1'')"
    "row_of tu_id ''turn-1'' (ad_turns (ts_agents ?s)) = Some ag_t0"
    by (simp_all add: at_message_def ag_t0_def new_turn_def)
  have held: "outbox_held (ms_id (at_message ''turn-1'')) (tw_worker ?w) (ms_token (at_message ''turn-1'')) (at_message ''turn-1'')"
    "0 < ms_token (at_message ''turn-1'')"
    by (simp_all add: outbox_held_def at_message_def at_world_def)
  have t: "tu_state ag_t0 \<in> {TU_QUEUED, TU_INTERRUPTED}" "\<not> owner_busy ag_t0 (ts_agents ?s)" "\<not> tu_cancel ag_t0"
    "optional_object (tu_checkpoint ag_t0)" "tu_checkpoint ag_t0 = None \<Longrightarrow> tu_sequence ag_t0 = 0" "ref_ok (tu_owner ag_t0)"
    "ref_ok (tu_session ag_t0)"
    by (simp_all add: ag_t0_def new_turn_def owner_busy_def optional_object_def)
  have args: "claim_turn_args (tw_now ?w (ts_clock ?s + 1)) ''turn-1'' (tw_worker ?w) (tw_seconds ?w)"
    by (simp add: claim_turn_args_def at_world_def c_after)
  have live: "isoformat (tw_now ?w n) < the (after_seconds (tw_seconds ?w) (tw_now ?w (ts_clock ?s + 1)))" for n
    by (simp add: at_world_def c_after less_char_def)
  have world: "tw_rebuilds ?w = (\<lambda>_. True)" "tw_signs ?w = (\<lambda>_ _. True)" "tw_stream ?w = (\<lambda>_ _ _. (map (Pair 0) ([] @ [at_event]), 0, CE_Done))"
    by (simp_all add: at_world_def)
  have evs: "list_all event_valid ([] @ [at_event])" "ce_type at_event = ''turn_completed''"
    "map (\<lambda>e. tu_sequence ag_t0 + ce_sequence e) ([] @ [at_event]) = [tu_sequence ag_t0 + 1..tu_sequence ag_t0 + int (length ([] @ [at_event]))]"
    by (simp_all add: at_event_fields)
  show ?thesis
    using dispatched_turn_completes [OF _ _ m rows(1) held rows(2) t args live world evs, of ag_sha] ag_reach(2) at_control(1)
    by (auto simp del: insert_iff)
qed

end
